(* ===== verification/Wasmx_Prelude.thy ===== *)
theory Wasmx_Prelude
  imports Main "HOL-Library.Word"
begin

text \<open>
  Shared vocabulary of the development: the return codes of nginx, bytes and byte strings,
  the little-endian image of a 32-bit word, bounded copies into a buffer (\<open>memcpy\<close> on a
  buffer of known size), the debug assertion macro of the module, and the generic list
  lemmas the component theories use.

  Two outcomes are kept apart everywhere. A return code (an \<open>ngx_rc\<close> value) is what the C
  function returns; an outer \<open>None\<close> is a run that has no defined result in C: a failed
  debug assertion, a copy outside of its buffer, or an access to released memory.
\<close>

unbundle bit_operations_syntax

named_theorems wasmx_defs \<open>definitions the component proofs unfold together\<close>

section \<open>Return codes\<close>

text \<open>
  The \<open>ngx_int_t\<close> results the module uses. \<open>NGX_HTTP n\<close> stands for a positive HTTP status
  used as a return code.
\<close>

datatype ngx_rc =
    NGX_OK
  | NGX_ERROR
  | NGX_AGAIN
  | NGX_BUSY
  | NGX_DONE
  | NGX_DECLINED
  | NGX_ABORT
  | NGX_HTTP nat

section \<open>Bytes\<close>

type_synonym byte = "8 word"
type_synonym bytes = "byte list"
type_synonym u32 = "32 word"
type_synonym u64 = "64 word"

definition bytes_of_string :: "string \<Rightarrow> bytes" where
  "bytes_of_string s = map (\<lambda>c. of_nat (of_char c)) s"

text \<open>The in-memory image of a 32-bit word on a little-endian host, and its inverse.\<close>

definition le32 :: "u32 \<Rightarrow> bytes" where
  "le32 w = [ucast w, ucast (drop_bit 8 w), ucast (drop_bit 16 w), ucast (drop_bit 24 w)]"

fun from_le32 :: "bytes \<Rightarrow> u32" where
  "from_le32 [a, b, c, d] =
     ucast a OR push_bit 8 (ucast b) OR push_bit 16 (ucast c) OR push_bit 24 (ucast d)"
| "from_le32 _ = 0"

lemma length_le32 [simp]: "length (le32 w) = 4"
  by (simp add: le32_def)

lemma from_le32_le32 [simp]: "from_le32 (le32 w) = w"
proof (rule bit_word_eqI)
  fix n assume "n < LENGTH(32)"
  then have "n < 8 \<or> (8 \<le> n \<and> n < 16) \<or> (16 \<le> n \<and> n < 24) \<or> (24 \<le> n \<and> n < 32)"
    by auto
  then show "bit (from_le32 (le32 w)) n = bit w n"
    by (elim disjE) (auto simp: le32_def bit_simps)
qed

lemma unat_of_nat_u32: "n < 2 ^ 32 \<Longrightarrow> unat (of_nat n :: u32) = n"
  by (simp add: unsigned_of_nat take_bit_nat_eq_self)

section \<open>Copies into a buffer\<close>

text \<open>
  \<open>buf_write buf off data\<close> is \<open>memcpy(buf + off, data, len)\<close> where the destination is a buffer
  of known size: \<open>None\<close> when the copy would leave the buffer.
  \<open>buf_read buf off n\<close> reads \<open>n\<close> bytes from \<open>buf + off\<close> the same way.
\<close>

definition buf_write :: "'a list \<Rightarrow> nat \<Rightarrow> 'a list \<Rightarrow> 'a list option" where
  "buf_write buf off data =
     (if off + length data \<le> length buf
      then Some (take off buf @ data @ drop (off + length data) buf) else None)"

definition buf_read :: "'a list \<Rightarrow> nat \<Rightarrow> nat \<Rightarrow> 'a list option" where
  "buf_read buf off n =
     (if off + n \<le> length buf then Some (take n (drop off buf)) else None)"

lemma length_buf_write: "buf_write buf off data = Some buf' \<Longrightarrow> length buf' = length buf"
  by (auto simp: buf_write_def split: if_splits)

lemma buf_write_ok: "off + length data \<le> length buf \<Longrightarrow> \<exists>buf'. buf_write buf off data = Some buf'"
  by (simp add: buf_write_def)

lemma nth_buf_write:
  assumes "buf_write buf off data = Some buf'" and "i < length buf"
  shows "buf' ! i = (if off \<le> i \<and> i < off + length data then data ! (i - off) else buf ! i)"
  using assms by (auto simp: buf_write_def nth_append split: if_splits)

lemma nth_buf_read:
  assumes "buf_read buf off n = Some xs"
  shows "length xs = n" and "i < n \<Longrightarrow> xs ! i = buf ! (off + i)"
  using assms by (auto simp: buf_read_def split: if_splits)

lemma find_SomeD: "find P xs = Some x \<Longrightarrow> x \<in> set xs \<and> P x"
  by (auto simp: find_Some_iff)

section \<open>Debug assertions\<close>

text \<open>
  \<open>ngx_wa_assert\<close> (ngx_wasmx.h) is \<open>assert\<close> in a debug build and nothing otherwise. \<open>dbg\<close> says
  which build it is.
\<close>

definition ngx_wa_assert :: "bool \<Rightarrow> bool \<Rightarrow> bool" where
  "ngx_wa_assert dbg P \<longleftrightarrow> \<not> dbg \<or> P"

lemma ngx_wa_assert_True [simp]: "P \<Longrightarrow> ngx_wa_assert dbg P"
  by (simp add: ngx_wa_assert_def)

lemma ngx_wa_assert_release [simp]: "ngx_wa_assert False P"
  by (simp add: ngx_wa_assert_def)

lemma ngx_wa_assert_debug [simp]: "ngx_wa_assert True P = P"
  by (simp add: ngx_wa_assert_def)

end
