(* ===== verification/Proxy_Wasm_Instance.thy ===== *)
theory Proxy_Wasm_Instance
  imports Wasmx_Prelude "HOL-Library.Monad_Syntax"
begin

text \<open>
  Filters, instances and contexts of the proxy-wasm layer (src/src/common/proxy_wasm/ngx_proxy_wasm.c):
  identifying and loading filters, the stores that keep Wasm instances (busy, free, sweep), the
  root and stream contexts inside of an instance, and their creation and destruction.

  Contexts, instances, stores and filters are objects in a heap, because they point to
  each other; following a pointer that is NULL or leads to a released object is an undefined
  outcome (\<open>None\<close>). The Wasm runtime, memory allocation and the guest code are parameters (record
  \<open>guest\<close>): an operation asks them for an answer and threads their state \<open>'g\<close> through. While guest code
  runs it calls host functions; what these write to the context that is current in the
  instance comes back from the call as a list of \<open>host_effect\<close>s. The trees of nginx are
  lists ordered by key, with the lookup that takes the first entry of a key. Log messages and
  memory pools are left out.
\<close>

section \<open>Enumerations\<close>

datatype pw_abi = ABI_0_1_0 | ABI_0_2_0 | ABI_0_2_1 | ABI_VNEXT | ABI_UNKNOWN

definition before_vnext :: "pw_abi \<Rightarrow> bool" where
  "before_vnext abi \<longleftrightarrow> abi = ABI_0_1_0 \<or> abi = ABI_0_2_0 \<or> abi = ABI_0_2_1"

datatype pw_err =
    ERR_NONE | ERR_UNKNOWN_ABI | ERR_BAD_ABI | ERR_BAD_HOST_INTERFACE | ERR_BAD_MODULE_INTERFACE
  | ERR_START_FAILED | ERR_VM_START_FAILED | ERR_CONFIGURE_FAILED | ERR_INSTANCE_TRAPPED
  | ERR_RETURN_ACTION | ERR_UNKNOWN

datatype pw_isolation = ISOLATION_UNSET | ISOLATION_NONE | ISOLATION_STREAM | ISOLATION_FILTER

text \<open>
  Actions and steps. A guest returns an action as a 32-bit number: a number that is not one of
  the enumeration is \<open>ACTION_OTHER\<close>.
\<close>

datatype pw_action =
    ACTION_CONTINUE | ACTION_PAUSE | ACTION_END_STREAM | ACTION_DONE | ACTION_WAIT | ACTION_WAIT_FULL
  | ACTION_CLOSE | ACTION_OTHER nat

definition action_of :: "nat \<Rightarrow> pw_action" where
  "action_of n =
     (if n = 0 then ACTION_CONTINUE else if n = 1 then ACTION_PAUSE else if n = 2 then ACTION_END_STREAM
      else if n = 3 then ACTION_DONE else if n = 4 then ACTION_WAIT else if n = 5 then ACTION_WAIT_FULL
      else if n = 6 then ACTION_CLOSE else ACTION_OTHER n)"

fun action_known :: "pw_action \<Rightarrow> bool" where
  "action_known (ACTION_OTHER n) = False"
| "action_known _ = True"

datatype pw_step =
    STEP_REQ_HEADERS | STEP_REQ_BODY | STEP_REQ_TRAILERS | STEP_RESP_HEADERS | STEP_RESP_BODY
  | STEP_RESP_TRAILERS | STEP_LOG | STEP_DONE | STEP_TICK | STEP_DISPATCH_RESPONSE
  | STEP_FOREIGN_CALLBACK | STEP_UPSTREAM_SELECT | STEP_NEXT_UPSTREAM | STEP_UPSTREAM_INFO

fun step_num :: "pw_step \<Rightarrow> nat" where
  "step_num STEP_REQ_HEADERS = 1"
| "step_num STEP_REQ_BODY = 2"
| "step_num STEP_REQ_TRAILERS = 3"
| "step_num STEP_RESP_HEADERS = 4"
| "step_num STEP_RESP_BODY = 5"
| "step_num STEP_RESP_TRAILERS = 6"
| "step_num STEP_LOG = 7"
| "step_num STEP_DONE = 8"
| "step_num STEP_TICK = 9"
| "step_num STEP_DISPATCH_RESPONSE = 10"
| "step_num STEP_FOREIGN_CALLBACK = 11"
| "step_num STEP_UPSTREAM_SELECT = 12"
| "step_num STEP_NEXT_UPSTREAM = 13"
| "step_num STEP_UPSTREAM_INFO = 14"

datatype ngx_phase =
    POST_READ_PHASE | REWRITE_PHASE | PREACCESS_PHASE | ACCESS_PHASE | CONTENT_PHASE
  | HEADER_FILTER_PHASE | BODY_FILTER_PHASE | TRAILER_FILTER_PHASE | LOG_PHASE | DONE_PHASE
  | BACKGROUND_PHASE

definition ROOT_CTX_ID :: nat where "ROOT_CTX_ID = 0"

section \<open>Objects\<close>

type_synonym ref = nat

text \<open>
  A module. \<open>m_exports\<close> are the names of the functions that it exports: versions of the interface are looked up among all exports of a module and
  handlers among its functions, so that a module which exports something other than a function under one of these names is not in the model.
\<close>

record pw_module =
  m_id :: nat
  m_name :: bytes
  m_exports :: "string list"
  m_config_len :: nat

record pw_filter =
  f_module :: "pw_module option"
  f_config :: bytes
  f_data :: u64
  f_id :: nat
  f_store :: ref
  f_acl :: bool
  f_abi :: pw_abi
  f_malloc :: "string option"
  f_handlers :: "string \<Rightarrow> string option"
  f_ecode :: pw_err
  f_loaded :: bool
  f_started :: bool

text \<open>
  An execution context: the root context of a filter in an instance (\<open>root_id = 0\<close>), or one filter of
  a stream. \<open>has_log\<close> and \<open>has_ev\<close> say whether the log and timer pointers are set. The current
  dispatch call is its id, the number of headers and the length of the body of the response;
  the current foreign call is its function code and the length of its arguments.
\<close>

record pwexec =
  root_id :: nat
  exec_id :: nat
  index :: nat
  tick_period :: nat
  ecode :: pw_err
  ecode_logged :: bool
  started :: bool
  in_tick :: bool
  has_log :: bool
  has_ev :: bool
  ictx :: "ref option"
  e_store :: "ref option"
  e_filter :: ref
  parent :: ref
  node_key :: nat
  dispatch_ops :: "nat list"
  dispatch_call :: "(nat \<times> nat \<times> nat) option"
  foreign_call :: "(nat \<times> nat) option"

datatype env_state = STATE_CONTINUE | STATE_ERROR | STATE_YIELD

text \<open>
  The part of the HTTP request and of its \<open>ngx_http_wasm_req_ctx_t\<close> that the steps read and write.
\<close>

record http_req =
  n_req_headers :: nat
  n_resp_headers :: nat
  n_resp_trailers :: nat
  n_shim_headers :: nat
  r_content_length_in :: int
  r_content_length_out :: int
  req_content_length_n :: int
  resp_content_length_n :: int
  resp_chunk_len :: int
  resp_chunk_eof :: bool
  resp_bufs :: bool
  resp_buffering :: bool
  resp_chunk_override :: bool
  reset_resp_shims :: bool
  upstream_peer :: "(nat \<times> nat) option"
  env_state :: env_state
  req_body_received :: bool
  req_body_waited :: bool
  resp_content_chosen :: bool

text \<open>The context of a stream (a request), or the parent of a root context.\<close>

record pwctx =
  nfilters :: nat
  pwexecs :: "ref list"
  isolation :: pw_isolation
  c_store :: "ref option"
  rexec :: "ref option"
  phase :: "ngx_phase option"
  action :: pw_action
  step :: "pw_step option"
  last_completed_step :: "pw_step option"
  exec_index :: nat
  req_body_len :: nat
  rctx :: "http_req option"
  c_init :: bool
  c_ready :: bool
  req_headers_in_access :: bool

text \<open>
  An instance with its root contexts and stream contexts by id, and the context that currently
  runs in it.
\<close>

record pw_inst =
  i_module :: nat
  trapped :: bool
  root_ctxs :: "(nat \<times> ref) list"
  tree_ctxs :: "(nat \<times> ref) list"
  i_store :: ref
  cur_pwexec :: "ref option"

record pw_store =
  busy :: "ref list"
  free_q :: "ref list"
  sweep :: "ref list"

definition empty_store :: pw_store where
  "empty_store = \<lparr>busy = [], free_q = [], sweep = []\<rparr>"

record 'g pw =
  execs :: "ref \<rightharpoonup> pwexec"
  ctxs :: "ref \<rightharpoonup> pwctx"
  insts :: "ref \<rightharpoonup> pw_inst"
  stores :: "ref \<rightharpoonup> pw_store"
  filters :: "ref \<rightharpoonup> pw_filter"
  fresh :: ref
  next_id :: nat
  world :: 'g

definition upd_exec :: "ref \<Rightarrow> (pwexec \<Rightarrow> pwexec) \<Rightarrow> 'g pw \<Rightarrow> 'g pw option" where
  "upd_exec e f st = do { x \<leftarrow> execs st e; Some (st\<lparr>execs := (execs st)(e \<mapsto> f x)\<rparr>) }"

definition upd_ctx :: "ref \<Rightarrow> (pwctx \<Rightarrow> pwctx) \<Rightarrow> 'g pw \<Rightarrow> 'g pw option" where
  "upd_ctx c f st = do { x \<leftarrow> ctxs st c; Some (st\<lparr>ctxs := (ctxs st)(c \<mapsto> f x)\<rparr>) }"

definition upd_inst :: "ref \<Rightarrow> (pw_inst \<Rightarrow> pw_inst) \<Rightarrow> 'g pw \<Rightarrow> 'g pw option" where
  "upd_inst i f st = do { x \<leftarrow> insts st i; Some (st\<lparr>insts := (insts st)(i \<mapsto> f x)\<rparr>) }"

definition upd_store :: "ref \<Rightarrow> (pw_store \<Rightarrow> pw_store) \<Rightarrow> 'g pw \<Rightarrow> 'g pw option" where
  "upd_store s f st = do { x \<leftarrow> stores st s; Some (st\<lparr>stores := (stores st)(s \<mapsto> f x)\<rparr>) }"

definition upd_filter :: "ref \<Rightarrow> (pw_filter \<Rightarrow> pw_filter) \<Rightarrow> 'g pw \<Rightarrow> 'g pw option" where
  "upd_filter f g st = do { x \<leftarrow> filters st f; Some (st\<lparr>filters := (filters st)(f \<mapsto> g x)\<rparr>) }"

text \<open>Doing a partial operation for every element, in order.\<close>

fun each :: "('a \<Rightarrow> 's \<Rightarrow> 's option) \<Rightarrow> 'a list \<Rightarrow> 's \<Rightarrow> 's option" where
  "each f [] s = Some s"
| "each f (x # xs) s = do { s' \<leftarrow> f x s; each f xs s' }"

text \<open>A tree by its entries in order: a new entry goes behind the entries of the same key.\<close>

fun tree_insert :: "nat \<Rightarrow> ref \<Rightarrow> (nat \<times> ref) list \<Rightarrow> (nat \<times> ref) list" where
  "tree_insert k r [] = [(k, r)]"
| "tree_insert k r ((k', r') # t) = (if k < k' then (k, r) # (k', r') # t else (k', r') # tree_insert k r t)"

definition tree_delete :: "ref \<Rightarrow> (nat \<times> ref) list \<Rightarrow> (nat \<times> ref) list" where
  "tree_delete r t = filter (\<lambda>(k, r'). r' \<noteq> r) t"

section \<open>The environment\<close>

text \<open>
  The parameters: whether an allocation succeeds, whether a module can be instantiated, and what a
  call of a guest function answers: the return code of the runtime (\<open>NGX_ABORT\<close> for a trap),
  the value the function returned, and what host functions wrote meanwhile.
\<close>

datatype host_effect =
    Next_action pw_action
  | Tick_period nat
  | Dispatch_ops "nat list"
  | Request http_req

record 'g guest =
  g_alloc :: "'g \<Rightarrow> bool \<times> 'g"
  g_instantiate :: "nat \<Rightarrow> 'g \<Rightarrow> bool \<times> 'g"
  g_call :: "string \<Rightarrow> ref \<Rightarrow> nat list \<Rightarrow> 'g \<Rightarrow> (ngx_rc \<times> nat \<times> host_effect list) \<times> 'g"

definition alloc :: "'g guest \<Rightarrow> 'g pw \<Rightarrow> bool \<times> 'g pw" where
  "alloc G st = (let (ok, w) = g_alloc G (world st) in (ok, st\<lparr>world := w\<rparr>))"

fun allocs :: "'g guest \<Rightarrow> nat \<Rightarrow> 'g pw \<Rightarrow> bool \<times> 'g pw" where
  "allocs G 0 st = (True, st)"
| "allocs G (Suc n) st = (let (ok, st1) = alloc G st in if ok then allocs G n st1 else (False, st1))"

text \<open>
  \<open>ngx_proxy_wasm_ctx_set_next_action\<close>: the name of the action is looked up for the log, with
  an assertion on its range.
\<close>

definition ngx_proxy_wasm_ctx_set_next_action :: "bool \<Rightarrow> ref \<Rightarrow> pw_action \<Rightarrow> 'g pw \<Rightarrow> 'g pw option" where
  "ngx_proxy_wasm_ctx_set_next_action dbg c a st =
     (if ngx_wa_assert dbg (action_known a) then upd_ctx c (\<lambda>x. x\<lparr>action := a\<rparr>) st else None)"

text \<open>
  Host functions find the context they act on through the instance
  (\<open>ngx_proxy_wasm_instance2pwexec\<close>).
\<close>

definition host_call :: "bool \<Rightarrow> ref \<Rightarrow> host_effect \<Rightarrow> 'g pw \<Rightarrow> 'g pw option" where
  "host_call dbg i eff st = do {
     inst \<leftarrow> insts st i;
     e \<leftarrow> cur_pwexec inst;
     x \<leftarrow> execs st e;
     case eff of
       Next_action a \<Rightarrow> ngx_proxy_wasm_ctx_set_next_action dbg (parent x) a st
     | Tick_period n \<Rightarrow> upd_exec e (\<lambda>x. x\<lparr>tick_period := n\<rparr>) st
     | Dispatch_ops ds \<Rightarrow> upd_exec e (\<lambda>x. x\<lparr>dispatch_ops := ds\<rparr>) st
     | Request rq \<Rightarrow> upd_ctx (parent x) (\<lambda>c. c\<lparr>rctx := map_option (\<lambda>_. rq) (rctx c)\<rparr>) st }"

text \<open>
  \<open>ngx_wavm_instance_call_funcref\<close> and \<open>ngx_wavm_func_call\<close>: a trapped instance is not entered; a trap
  marks the instance. A handler that the module does not export is a NULL function reference,
  which the function dereferences.
\<close>

definition ngx_wavm_instance_call_funcref ::
  "bool \<Rightarrow> 'g guest \<Rightarrow> ref \<Rightarrow> string option \<Rightarrow> nat list \<Rightarrow> 'g pw \<Rightarrow> ((ngx_rc \<times> nat) \<times> 'g pw) option" where
  "ngx_wavm_instance_call_funcref dbg G i fn args st = do {
     inst \<leftarrow> insts st i;
     name \<leftarrow> fn;
     if trapped inst then Some ((NGX_ABORT, 0), st)
     else do {
       let ((rc, ret, effs), w) = g_call G name i args (world st);
       st1 \<leftarrow> each (host_call dbg i) effs (st\<lparr>world := w\<rparr>);
       st2 \<leftarrow> (if rc = NGX_ABORT then upd_inst i (\<lambda>x. x\<lparr>trapped := True\<rparr>) st1 else Some st1);
       Some ((rc, ret), st2) } }"

section \<open>Loading filters\<close>

text \<open>\<open>%ld\<close> of a machine word.\<close>

fun dec_digits :: "nat \<Rightarrow> string" where
  "dec_digits n = (if n < 10 then [char_of (48 + n)] else dec_digits (n div 10) @ [char_of (48 + n mod 10)])"

declare dec_digits.simps [simp del]

definition print_ld :: "u64 \<Rightarrow> string" where
  "print_ld w = (if sint w < 0 then CHR ''-'' # dec_digits (nat (- sint w)) else dec_digits (nat (sint w)))"

text \<open>The checksum is updated with the name, the configuration and the printed data in turn.\<close>

definition get_filter_id :: "(bytes \<Rightarrow> u32) \<Rightarrow> bytes \<Rightarrow> bytes \<Rightarrow> u64 \<Rightarrow> nat" where
  "get_filter_id crc32 name config data = unat (crc32 (name @ config @ bytes_of_string (print_ld data)))"

fun get_abi_version :: "bool \<Rightarrow> string list \<Rightarrow> pw_abi" where
  "get_abi_version dbg [] = ABI_UNKNOWN"
| "get_abi_version dbg (n # ns) =
     (if n = ''proxy_abi_version_0_2_1'' then ABI_0_2_1
      else if n = ''proxy_abi_version_0_2_0'' then ABI_0_2_0
      else if n = ''proxy_abi_version_0_1_0'' then ABI_0_1_0
      else if dbg \<and> n = ''proxy_abi_version_vnext'' then ABI_VNEXT
      else get_abi_version dbg ns)"

definition get_func :: "string list \<Rightarrow> string \<Rightarrow> string option" where
  "get_func exports n = (if List.member exports n then Some n else None)"

text \<open>
  The handlers that \<open>ngx_proxy_wasm_filter_init_abi\<close> looks up: the name of the field, the export it is
  first set from, and the export it is set from again for the versions before vNEXT.
\<close>

definition handler_table :: "(string \<times> string option \<times> string option) list" where
  "handler_table =
    [(''proxy_on_context_create'', Some ''proxy_on_context_create'', None),
     (''proxy_on_context_finalize'', Some ''proxy_on_context_finalize'', Some ''proxy_on_delete''),
     (''proxy_on_done'', None, Some ''proxy_on_done''),
     (''proxy_on_log'', None, Some ''proxy_on_log''),
     (''proxy_on_vm_start'', Some ''proxy_on_vm_start'', None),
     (''proxy_on_plugin_start'', Some ''proxy_on_plugin_start'', Some ''proxy_on_configure''),
     (''proxy_on_new_connection'', Some ''proxy_on_new_connection'', None),
     (''proxy_on_downstream_data'', Some ''proxy_on_downstream_data'', None),
     (''proxy_on_upstream_data'', Some ''proxy_on_upstream_data'', None),
     (''proxy_on_downstream_close'', Some ''proxy_on_downstream_close'', Some ''proxy_on_downstream_connection_close''),
     (''proxy_on_upstream_close'', Some ''proxy_on_upstream_close'', Some ''proxy_on_upstream_connection_close''),
     (''proxy_on_http_request_headers'', Some ''proxy_on_http_request_headers'', Some ''proxy_on_request_headers''),
     (''proxy_on_http_request_body'', Some ''proxy_on_http_request_body'', Some ''proxy_on_request_body''),
     (''proxy_on_http_request_trailers'', Some ''proxy_on_http_request_trailers'', Some ''proxy_on_request_trailers''),
     (''proxy_on_http_request_metadata'', Some ''proxy_on_http_request_metadata'', Some ''proxy_on_request_metadata''),
     (''proxy_on_http_response_headers'', Some ''proxy_on_http_response_headers'', Some ''proxy_on_response_headers''),
     (''proxy_on_http_response_body'', Some ''proxy_on_http_response_body'', Some ''proxy_on_response_body''),
     (''proxy_on_http_response_trailers'', Some ''proxy_on_http_response_trailers'', Some ''proxy_on_response_trailers''),
     (''proxy_on_http_response_metadata'', Some ''proxy_on_http_response_metadata'', Some ''proxy_on_response_metadata''),
     (''proxy_on_http_upstream_select'', Some ''proxy_on_http_upstream_select'', Some ''proxy_on_upstream_select''),
     (''proxy_on_http_next_upstream'', Some ''proxy_on_http_next_upstream'', Some ''proxy_on_next_upstream''),
     (''proxy_on_http_upstream_info'', Some ''proxy_on_http_upstream_info'', Some ''proxy_on_upstream_info''),
     (''proxy_on_queue_ready'', Some ''proxy_on_queue_ready'', None),
     (''proxy_create_timer'', Some ''proxy_create_timer'', None),
     (''proxy_delete_timer'', Some ''proxy_delete_timer'', None),
     (''proxy_on_timer_ready'', Some ''proxy_on_timer_ready'', Some ''proxy_on_tick''),
     (''proxy_on_http_call_response'', Some ''proxy_on_http_call_response'', None),
     (''proxy_on_grpc_call_response_header_metadata'', Some ''proxy_on_grpc_call_response_header_metadata'', None),
     (''proxy_on_grpc_call_response_message'', Some ''proxy_on_grpc_call_response_message'', None),
     (''proxy_on_grpc_call_response_trailer_metadata'', Some ''proxy_on_grpc_call_response_trailer_metadata'', None),
     (''proxy_on_grpc_call_close'', Some ''proxy_on_grpc_call_close'', None),
     (''proxy_on_custom_callback'', Some ''proxy_on_custom_callback'', Some ''proxy_on_foreign_function'')]"

definition resolve_handler :: "pw_abi \<Rightarrow> string list \<Rightarrow> string \<Rightarrow> string option" where
  "resolve_handler abi exports slot =
     (case map_of handler_table slot of
        None \<Rightarrow> None
      | Some (first, again) \<Rightarrow>
          (case (if before_vnext abi then again else None) of
             Some n \<Rightarrow> get_func exports n
           | None \<Rightarrow> (case first of Some n \<Rightarrow> get_func exports n | None \<Rightarrow> None)))"

definition ngx_proxy_wasm_filter_init_abi :: "bool \<Rightarrow> pw_module \<Rightarrow> pw_filter \<Rightarrow> ngx_rc \<times> pw_filter" where
  "ngx_proxy_wasm_filter_init_abi dbg m f =
     (let exports = m_exports m;
          abi = get_abi_version dbg exports;
          f1 = f\<lparr>f_abi := abi,
                 f_ecode := (if abi = ABI_0_1_0 \<or> abi = ABI_0_2_0 \<or> abi = ABI_0_2_1 then f_ecode f
                             else if abi = ABI_UNKNOWN then ERR_UNKNOWN_ABI else ERR_BAD_ABI)\<rparr> in
      if f_ecode f1 \<noteq> ERR_NONE then (NGX_ERROR, f1)
      else
        let malloc = (case get_func exports ''malloc'' of
                        None \<Rightarrow> get_func exports ''proxy_on_memory_allocate'' | Some n \<Rightarrow> Some n) in
        if malloc = None then (NGX_ERROR, f1\<lparr>f_malloc := None, f_ecode := ERR_BAD_MODULE_INTERFACE\<rparr>)
        else
          let f2 = f1\<lparr>f_malloc := malloc, f_handlers := resolve_handler abi exports\<rparr> in
          if f_handlers f2 ''proxy_on_context_create'' = None
             \<or> f_handlers f2 ''proxy_on_vm_start'' = None
             \<or> f_handlers f2 ''proxy_on_plugin_start'' = None
          then (NGX_ERROR, f2\<lparr>f_ecode := ERR_BAD_MODULE_INTERFACE\<rparr>)
          else (NGX_OK, f2))"

text \<open>
  \<open>ngx_proxy_wasm_load\<close>: the filters of a root, by id. The filter goes into the tree before its
  module is examined.
\<close>

definition ngx_proxy_wasm_load ::
  "(bytes \<Rightarrow> u32) \<Rightarrow> bool \<Rightarrow> (nat \<times> ref) list \<Rightarrow> ref \<Rightarrow> 'g pw \<Rightarrow> (ngx_rc \<times> (nat \<times> ref) list \<times> 'g pw) option" where
  "ngx_proxy_wasm_load crc32 dbg tree r st =
     (case filters st r of
        None \<Rightarrow> None
      | Some f \<Rightarrow>
          if f_loaded f then Some (NGX_OK, tree, st)
          else (case f_module f of
                  None \<Rightarrow> Some (NGX_ERROR, tree, st\<lparr>filters := (filters st)(r \<mapsto> f\<lparr>f_ecode := ERR_BAD_HOST_INTERFACE\<rparr>)\<rparr>)
                | Some m \<Rightarrow>
                    let f1 = f\<lparr>f_id := get_filter_id crc32 (m_name m) (f_config f) (f_data f)\<rparr>;
                        (rc, f2) = ngx_proxy_wasm_filter_init_abi dbg m f1;
                        f3 = (if rc = NGX_OK then f2\<lparr>f_loaded := True\<rparr> else f2) in
                    Some (if rc = NGX_OK then NGX_OK else NGX_ERROR,
                          tree_insert (f_id f1) r tree,
                          st\<lparr>filters := (filters st)(r \<mapsto> f3)\<rparr>)))"

definition ngx_proxy_wasm_lookup_filter :: "(nat \<times> ref) list \<Rightarrow> nat \<Rightarrow> ref option" where
  "ngx_proxy_wasm_lookup_filter tree i = map_of tree i"

section \<open>Destroying contexts and instances\<close>

definition destroy_pwexec :: "bool \<Rightarrow> ref \<Rightarrow> 'g pw \<Rightarrow> 'g pw option" where
  "destroy_pwexec dbg e st = do {
     x \<leftarrow> execs st e;
     if \<not> ngx_wa_assert dbg (root_id x \<noteq> ROOT_CTX_ID) then None
     else do {
       let x1 = x\<lparr>ictx := None, started := False, has_log := False\<rparr>;
       c \<leftarrow> ctxs st (parent x);
       case (isolation c, e_store x) of
         (ISOLATION_FILTER, Some s) \<Rightarrow>
           Some (st\<lparr>execs := (execs st)(e \<mapsto> x1\<lparr>e_store := None\<rparr>), stores := (stores st)(s := None)\<rparr>)
       | _ \<Rightarrow> Some (st\<lparr>execs := (execs st)(e \<mapsto> x1)\<rparr>) } }"

text \<open>
  Taking all contexts out of an instance: root contexts lose it, stream contexts are destroyed. When the
  instance is destroyed (\<open>destroying\<close>), a stream context must not have a timer.
\<close>

definition unlink_root_ctx :: "nat \<times> ref \<Rightarrow> 'g pw \<Rightarrow> 'g pw option" where
  "unlink_root_ctx n st = upd_exec (snd n) (\<lambda>x. x\<lparr>ictx := None, node_key := 0\<rparr>) st"

definition unlink_ctx :: "bool \<Rightarrow> bool \<Rightarrow> nat \<times> ref \<Rightarrow> 'g pw \<Rightarrow> 'g pw option" where
  "unlink_ctx dbg destroying n st = do {
     x \<leftarrow> execs st (snd n);
     if destroying \<and> \<not> ngx_wa_assert dbg (\<not> has_ev x) then None
     else do { st1 \<leftarrow> upd_exec (snd n) (\<lambda>x. x\<lparr>node_key := 0\<rparr>) st; destroy_pwexec dbg (snd n) st1 } }"

definition unlink_contexts :: "bool \<Rightarrow> bool \<Rightarrow> ref \<Rightarrow> 'g pw \<Rightarrow> 'g pw option" where
  "unlink_contexts dbg destroying i st = do {
     inst \<leftarrow> insts st i;
     st1 \<leftarrow> each unlink_root_ctx (root_ctxs inst) st;
     st2 \<leftarrow> each (unlink_ctx dbg destroying) (tree_ctxs inst) st1;
     upd_inst i (\<lambda>x. x\<lparr>root_ctxs := [], tree_ctxs := []\<rparr>) st2 }"

definition ngx_proxy_wasm_instance_invalidate :: "bool \<Rightarrow> ref \<Rightarrow> 'g pw \<Rightarrow> 'g pw option" where
  "ngx_proxy_wasm_instance_invalidate dbg i st = do {
     st1 \<leftarrow> unlink_contexts dbg False i st;
     inst \<leftarrow> insts st1 i;
     upd_store (i_store inst)
       (\<lambda>s. s\<lparr>busy := removeAll i (busy s), free_q := removeAll i (free_q s), sweep := sweep s @ [i]\<rparr>) st1 }"

definition ngx_proxy_wasm_instance_destroy :: "bool \<Rightarrow> ref \<Rightarrow> 'g pw \<Rightarrow> 'g pw option" where
  "ngx_proxy_wasm_instance_destroy dbg i st = do {
     st1 \<leftarrow> unlink_contexts dbg True i st;
     Some (st1\<lparr>insts := (insts st1)(i := None)\<rparr>) }"

text \<open>
  The loop of \<open>ngx_proxy_wasm_store_sweep\<close> reads the store again after every instance. The queue is
  as long at the start as there are rounds.
\<close>

fun sweep_loop :: "bool \<Rightarrow> ref \<Rightarrow> nat \<Rightarrow> 'g pw \<Rightarrow> 'g pw option" where
  "sweep_loop dbg s 0 st = do { _ \<leftarrow> stores st s; Some st }"
| "sweep_loop dbg s (Suc n) st = do {
     store \<leftarrow> stores st s;
     case sweep store of
       [] \<Rightarrow> Some st
     | i # is \<Rightarrow> do {
         st1 \<leftarrow> upd_store s (\<lambda>x. x\<lparr>sweep := is\<rparr>) st;
         st2 \<leftarrow> ngx_proxy_wasm_instance_destroy dbg i st1;
         sweep_loop dbg s n st2 } }"

definition ngx_proxy_wasm_store_sweep :: "bool \<Rightarrow> ref \<Rightarrow> 'g pw \<Rightarrow> 'g pw option" where
  "ngx_proxy_wasm_store_sweep dbg s st = do { store \<leftarrow> stores st s; sweep_loop dbg s (length (sweep store)) st }"

definition ngx_proxy_wasm_store_destroy :: "bool \<Rightarrow> ref \<Rightarrow> 'g pw \<Rightarrow> 'g pw option" where
  "ngx_proxy_wasm_store_destroy dbg s st = do {
     st1 \<leftarrow> upd_store s (\<lambda>x. x\<lparr>busy := [], free_q := [], sweep := sweep x @ free_q x @ busy x\<rparr>) st;
     ngx_proxy_wasm_store_sweep dbg s st1 }"

section \<open>Roots\<close>

record pw_root =
  pr_init :: bool
  pr_tree :: "(nat \<times> ref) list"
  pr_store :: ref

definition ngx_proxy_wasm_root_init :: "pw_root \<Rightarrow> 'g pw \<Rightarrow> pw_root \<times> 'g pw" where
  "ngx_proxy_wasm_root_init root st =
     (if pr_init root then (root, st)
      else (root\<lparr>pr_init := True, pr_tree := [], pr_store := fresh st\<rparr>,
            st\<lparr>stores := (stores st)(fresh st \<mapsto> empty_store), fresh := Suc (fresh st)\<rparr>))"

definition destroy_filter_store :: "bool \<Rightarrow> nat \<times> ref \<Rightarrow> 'g pw \<Rightarrow> 'g pw option" where
  "destroy_filter_store dbg n st = do { f \<leftarrow> filters st (snd n); ngx_proxy_wasm_store_destroy dbg (f_store f) st }"

definition ngx_proxy_wasm_root_destroy :: "bool \<Rightarrow> pw_root \<Rightarrow> 'g pw \<Rightarrow> (pw_root \<times> 'g pw) option" where
  "ngx_proxy_wasm_root_destroy dbg root st = do {
     st1 \<leftarrow> each (destroy_filter_store dbg) (pr_tree root) st;
     st2 \<leftarrow> ngx_proxy_wasm_store_destroy dbg (pr_store root) st1;
     Some (root\<lparr>pr_tree := []\<rparr>, st2) }"

section \<open>Instances\<close>

text \<open>
  The loop of \<open>get_instance\<close> over the busy queue, with the position \<open>p\<close> of \<open>q\<close> (the length of the
  queue stands for the sentinel). For a trapped instance \<open>q\<close> is set to the next element, which
  the loop header then steps over; after the sentinel comes the head of the queue.
\<close>

function get_busy ::
  "bool \<Rightarrow> nat \<Rightarrow> ref list \<Rightarrow> nat \<Rightarrow> 'g pw \<Rightarrow> (ref option \<times> 'g pw) option" where
  "get_busy dbg m xs p st =
     (if length xs \<le> p then Some (None, st)
      else do {
        inst \<leftarrow> insts st (xs ! p);
        if trapped inst then do {
          st1 \<leftarrow> ngx_proxy_wasm_instance_invalidate dbg (xs ! p) st;
          let xs1 = take p xs @ drop (Suc p) xs;
          get_busy dbg m xs1 (if p = length xs1 then 0 else Suc p) st1 }
        else if i_module inst = m then Some (Some (xs ! p), st)
        else get_busy dbg m xs (Suc p) st })"
  by pat_completeness auto
termination
  by (relation "measures [\<lambda>(dbg, m, xs, p, st). length xs, \<lambda>(dbg, m, xs, p, st). length xs - p]") auto

declare get_busy.simps [simp del]

definition get_instance ::
  "bool \<Rightarrow> 'g guest \<Rightarrow> ref \<Rightarrow> ref \<Rightarrow> 'g pw \<Rightarrow> (ref option \<times> 'g pw) option" where
  "get_instance dbg G f s st = do {
     flt \<leftarrow> filters st f;
     m \<leftarrow> f_module flt;
     store \<leftarrow> stores st s;
     (found, st1) \<leftarrow> get_busy dbg (m_id m) (busy store) 0 st;
     case found of
       Some i \<Rightarrow> Some (Some i, st1)
     | None \<Rightarrow>
         let (ok, st2) = alloc G st1 in
         if \<not> ok then Some (None, st2)
         else let (ok, w) = g_instantiate G (m_id m) (world st2); st3 = st2\<lparr>world := w\<rparr> in
           if \<not> ok then Some (None, st3)
           else do {
             let i = fresh st3;
             st4 \<leftarrow> upd_store s (\<lambda>x. x\<lparr>busy := busy x @ [i]\<rparr>)
                      (st3\<lparr>insts := (insts st3)(i \<mapsto> \<lparr>i_module = m_id m, trapped = False, root_ctxs = [],
                             tree_ctxs = [], i_store = s, cur_pwexec = None\<rparr>), fresh := Suc i\<rparr>);
             Some (Some i, st4) } }"

definition ngx_proxy_wasm_lookup_root_ctx :: "pw_inst \<Rightarrow> nat \<Rightarrow> ref option" where
  "ngx_proxy_wasm_lookup_root_ctx inst i = map_of (root_ctxs inst) i"

definition ngx_proxy_wasm_lookup_ctx :: "pw_inst \<Rightarrow> nat \<Rightarrow> ref option" where
  "ngx_proxy_wasm_lookup_ctx inst i = map_of (tree_ctxs inst) i"

definition ngx_proxy_wasm_instance_update :: "ref \<Rightarrow> ref option \<Rightarrow> 'g pw \<Rightarrow> 'g pw option" where
  "ngx_proxy_wasm_instance_update i e st = upd_inst i (\<lambda>x. x\<lparr>cur_pwexec := e\<rparr>) st"

section \<open>Creating contexts\<close>

text \<open>
  \<open>ngx_proxy_wasm_create_context\<close> in the order of the code: choosing the store, getting the instance, finding
  or allocating the root context, starting it, and the same for the context of the
  stream. A stage answers \<open>Inl\<close> with the error code, or \<open>Inr\<close> with the object it found. \<open>inn\<close> is the
  argument \<open>in\<close>, \<open>c\<close> the argument \<open>pwctx\<close>; both may be NULL.
\<close>

definition in_is_root :: "ref option \<Rightarrow> 'g pw \<Rightarrow> bool option" where
  "in_is_root inn st =
     (case inn of None \<Rightarrow> Some False | Some e \<Rightarrow> do { x \<leftarrow> execs st e; Some (root_id x = ROOT_CTX_ID) })"

definition create_store ::
  "bool \<Rightarrow> 'g guest \<Rightarrow> ref \<Rightarrow> ref option \<Rightarrow> nat \<Rightarrow> ref option \<Rightarrow> 'g pw \<Rightarrow> ((pw_err + ref) \<times> 'g pw) option" where
  "create_store dbg G f c cid inn st = do {
     flt \<leftarrow> filters st f;
     inroot \<leftarrow> in_is_root inn st;
     if cid = ROOT_CTX_ID \<or> inroot
     then do { st1 \<leftarrow> ngx_proxy_wasm_store_sweep dbg (f_store flt) st; Some (Inr (f_store flt), st1) }
     else do {
       cr \<leftarrow> c;
       ctx \<leftarrow> ctxs st cr;
       case isolation ctx of
         ISOLATION_NONE \<Rightarrow> Some (Inr (f_store flt), st)
       | ISOLATION_STREAM \<Rightarrow> do { s \<leftarrow> c_store ctx; Some (Inr s, st) }
       | ISOLATION_FILTER \<Rightarrow>
           (let (ok, st1) = alloc G st in
            if ok then Some (Inr (fresh st1), st1\<lparr>stores := (stores st1)(fresh st1 \<mapsto> empty_store), fresh := Suc (fresh st1)\<rparr>)
            else Some (Inl ERR_UNKNOWN, st1))
       | ISOLATION_UNSET \<Rightarrow> Some (Inl ERR_UNKNOWN, st) } }"

definition create_instance ::
  "bool \<Rightarrow> 'g guest \<Rightarrow> ref \<Rightarrow> ref option \<Rightarrow> ref \<Rightarrow> 'g pw \<Rightarrow> ((pw_err + ref) \<times> 'g pw) option" where
  "create_instance dbg G f inn s st = do {
     reuse \<leftarrow> (case inn of
                 None \<Rightarrow> Some None
               | Some e \<Rightarrow> do {
                   x \<leftarrow> execs st e;
                   case ictx x of
                     None \<Rightarrow> Some None
                   | Some i \<Rightarrow> do { inst \<leftarrow> insts st i; Some (if trapped inst then None else Some i) } });
     case reuse of
       Some i \<Rightarrow> Some (Inr i, st)
     | None \<Rightarrow> do {
         (i, st1) \<leftarrow> get_instance dbg G f s st;
         Some (case i of None \<Rightarrow> Inl ERR_UNKNOWN | Some i \<Rightarrow> Inr i, st1) } }"

text \<open>
  A new root context: memory for the context, for its access control list and the list's
  contents when the filter has one, for its log and for its parent.
\<close>

definition new_pwexec :: pwexec where
  "new_pwexec = \<lparr>root_id = 0, exec_id = 0, index = 0, tick_period = 0, ecode = ERR_NONE, ecode_logged = False,
     started = False, in_tick = False, has_log = False, has_ev = False, ictx = None, e_store = None,
     e_filter = 0, parent = 0, node_key = 0, dispatch_ops = [], dispatch_call = None, foreign_call = None\<rparr>"

definition new_pwctx :: pwctx where
  "new_pwctx = \<lparr>nfilters = 0, pwexecs = [], isolation = ISOLATION_UNSET, c_store = None, rexec = None, phase = None,
     action = ACTION_CONTINUE, step = None, last_completed_step = None, exec_index = 0, req_body_len = 0,
     rctx = None, c_init = False, c_ready = False, req_headers_in_access = False\<rparr>"

definition create_root ::
  "'g guest \<Rightarrow> ref \<Rightarrow> ref option \<Rightarrow> ref \<Rightarrow> 'g pw \<Rightarrow> ((pw_err + ref) \<times> 'g pw) option" where
  "create_root G f inn i st = do {
     flt \<leftarrow> filters st f;
     inst \<leftarrow> insts st i;
     case ngx_proxy_wasm_lookup_root_ctx inst (f_id flt) of
       Some e \<Rightarrow> Some (Inr e, st)
     | None \<Rightarrow> do {
         inroot \<leftarrow> in_is_root inn st;
         if \<not> inroot then
           let (ok, st1) = allocs G (if f_acl flt then 5 else 3) st in
           if \<not> ok then Some (Inl ERR_START_FAILED, st1)
           else let e = fresh st1; p = Suc e in
             Some (Inr e, st1\<lparr>execs := (execs st1)(e \<mapsto> new_pwexec\<lparr>root_id := ROOT_CTX_ID, exec_id := f_id flt,
                                  e_filter := f, ictx := Some i, has_log := True, parent := p\<rparr>),
                              ctxs := (ctxs st1)(p \<mapsto> new_pwctx\<lparr>isolation := ISOLATION_STREAM\<rparr>),
                              fresh := Suc p\<rparr>)
         else do {
           e \<leftarrow> inn;
           st1 \<leftarrow> upd_exec e (\<lambda>x. if ictx x \<noteq> Some i then x\<lparr>ictx := Some i, started := False, tick_period := 0\<rparr> else x) st;
           Some (Inr e, st1) } } }"

text \<open>
  Starting the root context. \<open>on_vm_start\<close> is called for the id 0 only, that is when the filter
  itself is started.
\<close>

definition start_root ::
  "bool \<Rightarrow> 'g guest \<Rightarrow> ref \<Rightarrow> nat \<Rightarrow> ref \<Rightarrow> ref \<Rightarrow> 'g pw \<Rightarrow> ((pw_err + unit) \<times> 'g pw) option" where
  "start_root dbg G f cid i e st = do {
     flt \<leftarrow> filters st f;
     m \<leftarrow> f_module flt;
     x \<leftarrow> execs st e;
     if started x then Some (Inr (), st)
     else do {
       st1 \<leftarrow> ngx_proxy_wasm_instance_update i (Some e) st;
       ((rc, _), st2) \<leftarrow> ngx_wavm_instance_call_funcref dbg G i (f_handlers flt ''proxy_on_context_create'')
                          [exec_id x, root_id x] st1;
       if rc \<noteq> NGX_OK then Some (Inl ERR_START_FAILED, st2)
       else do {
         ((rc, ret), st3) \<leftarrow> (if cid = ROOT_CTX_ID
                              then ngx_wavm_instance_call_funcref dbg G i (f_handlers flt ''proxy_on_vm_start'')
                                     [exec_id x, m_config_len m] st2
                              else Some ((NGX_OK, 1), st2));
         if rc \<noteq> NGX_OK \<or> ret = 0 then Some (Inl ERR_VM_START_FAILED, st3)
         else do {
           ((rc, ret), st4) \<leftarrow> ngx_wavm_instance_call_funcref dbg G i (f_handlers flt ''proxy_on_plugin_start'')
                                [exec_id x, length (f_config flt)] st3;
           if rc \<noteq> NGX_OK \<or> ret = 0 then Some (Inl ERR_CONFIGURE_FAILED, st4)
           else do {
             st5 \<leftarrow> upd_exec e (\<lambda>x. x\<lparr>node_key := exec_id x\<rparr>) st4;
             st6 \<leftarrow> upd_inst i (\<lambda>y. y\<lparr>root_ctxs := tree_insert (exec_id x) e (root_ctxs y)\<rparr>) st5;
             st7 \<leftarrow> upd_exec e (\<lambda>x. x\<lparr>started := True\<rparr>) st6;
             Some (Inr (), st7) } } } } }"

text \<open>
  The context of the stream: the one the instance already knows by the id, a new element of the
  array \<open>pwexecs\<close>, or the one passed in, moved to the instance. The array was allocated for
  all filters of the chain, so that adding an element does not allocate.
\<close>

definition find_ctx ::
  "ref \<Rightarrow> ref option \<Rightarrow> nat \<Rightarrow> ref option \<Rightarrow> ref \<Rightarrow> 'g pw \<Rightarrow> ((ref \<times> bool) \<times> 'g pw) option" where
  "find_ctx f c cid inn i st = do {
     flt \<leftarrow> filters st f;
     inst \<leftarrow> insts st i;
     case ngx_proxy_wasm_lookup_ctx inst cid of
       Some e \<Rightarrow> Some ((e, True), st)
     | None \<Rightarrow>
         (case inn of
            None \<Rightarrow> do {
              cr \<leftarrow> c;
              ctx \<leftarrow> ctxs st cr;
              let e = fresh st;
              Some ((e, False),
                st\<lparr>execs := (execs st)(e \<mapsto> new_pwexec\<lparr>exec_id := cid, root_id := f_id flt,
                       index := length (pwexecs ctx), e_filter := f, parent := cr, ictx := Some i,
                       e_store := Some (i_store inst)\<rparr>),
                   ctxs := (ctxs st)(cr \<mapsto> ctx\<lparr>pwexecs := pwexecs ctx @ [e]\<rparr>),
                   fresh := Suc e\<rparr>) }
          | Some e \<Rightarrow> do {
              st1 \<leftarrow> upd_exec e (\<lambda>x. if ictx x \<noteq> Some i then x\<lparr>ictx := Some i, started := False\<rparr> else x) st;
              Some ((e, False), st1) }) }"

definition start_ctx ::
  "bool \<Rightarrow> 'g guest \<Rightarrow> ref \<Rightarrow> ref option \<Rightarrow> nat \<Rightarrow> ref option \<Rightarrow> ref \<Rightarrow> 'g pw \<Rightarrow> ((pw_err + ref) \<times> 'g pw) option" where
  "start_ctx dbg G f c cid inn i st = do {
     flt \<leftarrow> filters st f;
     ((e, known), st1) \<leftarrow> find_ctx f c cid inn i st;
     x \<leftarrow> execs st1 e;
     if known \<and> \<not> ngx_wa_assert dbg (exec_id x = cid) then None else do {
     let (ok, st2) = (if known \<or> has_log x then (True, st1) else alloc G st1);
     if \<not> ok then do { st3 \<leftarrow> upd_exec e (\<lambda>x. x\<lparr>ecode := ERR_START_FAILED\<rparr>) st2; Some (Inl ERR_START_FAILED, st3) }
     else do {
       st3 \<leftarrow> (if known then Some st2 else upd_exec e (\<lambda>x. x\<lparr>has_log := True\<rparr>) st2);
       if started x then Some (Inr e, st3)
       else do {
         st4 \<leftarrow> ngx_proxy_wasm_instance_update i (Some e) st3;
         ((rc, _), st5) \<leftarrow> ngx_wavm_instance_call_funcref dbg G i (f_handlers flt ''proxy_on_context_create'')
                            [cid, f_id flt] st4;
         if rc \<noteq> NGX_OK
         then do { st6 \<leftarrow> upd_exec e (\<lambda>x. x\<lparr>ecode := ERR_START_FAILED\<rparr>) st5; Some (Inl ERR_START_FAILED, st6) }
         else do {
           st6 \<leftarrow> upd_exec e (\<lambda>x. x\<lparr>node_key := exec_id x, started := True\<rparr>) st5;
           x \<leftarrow> execs st6 e;
           st7 \<leftarrow> upd_inst i (\<lambda>y. y\<lparr>tree_ctxs := tree_insert (exec_id x) e (tree_ctxs y)\<rparr>) st6;
           Some (Inr e, st7) } } } } }"

definition filter_failed :: "ref \<Rightarrow> pw_err \<Rightarrow> 'g pw \<Rightarrow> ((pw_err \<times> ref option) \<times> 'g pw) option" where
  "filter_failed f err st = do { st1 \<leftarrow> upd_filter f (\<lambda>x. x\<lparr>f_ecode := err\<rparr>) st; Some ((err, None), st1) }"

text \<open>The result is the error code and the context stored to \<open>out\<close>, if any.\<close>

definition ngx_proxy_wasm_create_context ::
  "bool \<Rightarrow> 'g guest \<Rightarrow> ref \<Rightarrow> ref option \<Rightarrow> nat \<Rightarrow> ref option \<Rightarrow> 'g pw \<Rightarrow> ((pw_err \<times> ref option) \<times> 'g pw) option" where
  "ngx_proxy_wasm_create_context dbg G f c cid inn st = do {
     (s, st1) \<leftarrow> create_store dbg G f c cid inn st;
     case s of Inl err \<Rightarrow> filter_failed f err st1 | Inr s \<Rightarrow> do {
       (i, st2) \<leftarrow> create_instance dbg G f inn s st1;
       case i of Inl err \<Rightarrow> filter_failed f err st2 | Inr i \<Rightarrow> do {
         (r, st3) \<leftarrow> create_root G f inn i st2;
         case r of Inl err \<Rightarrow> filter_failed f err st3 | Inr r \<Rightarrow> do {
           (u, st4) \<leftarrow> start_root dbg G f cid i r st3;
           case u of Inl err \<Rightarrow> filter_failed f err st4 | Inr _ \<Rightarrow> do {
             inroot \<leftarrow> in_is_root inn st4;
             if cid \<noteq> 0 \<and> \<not> inroot then do {
               (e, st5) \<leftarrow> start_ctx dbg G f c cid inn i st4;
               Some (case e of Inl err \<Rightarrow> (err, None) | Inr e \<Rightarrow> (ERR_NONE, Some e), st5) }
             else Some ((ERR_NONE, Some r), st4) } } } } }"

section \<open>Starting filters\<close>

definition ngx_proxy_wasm_filter_start :: "bool \<Rightarrow> 'g guest \<Rightarrow> ref \<Rightarrow> 'g pw \<Rightarrow> (ngx_rc \<times> 'g pw) option" where
  "ngx_proxy_wasm_filter_start dbg G f st = do {
     flt \<leftarrow> filters st f;
     if \<not> ngx_wa_assert dbg (f_loaded flt) then None
     else if f_ecode flt \<noteq> ERR_NONE then Some (NGX_ERROR, st)
     else if f_started flt then Some (NGX_OK, st)
     else do {
       ((err, _), st1) \<leftarrow> ngx_proxy_wasm_create_context dbg G f None 0 None st;
       if err \<noteq> ERR_NONE then Some (NGX_ERROR, st1)
       else do { st2 \<leftarrow> upd_filter f (\<lambda>x. x\<lparr>f_started := True\<rparr>) st1; Some (NGX_OK, st2) } } }"

fun start_filters :: "bool \<Rightarrow> 'g guest \<Rightarrow> (nat \<times> ref) list \<Rightarrow> 'g pw \<Rightarrow> (ngx_rc \<times> 'g pw) option" where
  "start_filters dbg G [] st = Some (NGX_OK, st)"
| "start_filters dbg G ((k, f) # fs) st = do {
     (rc, st1) \<leftarrow> ngx_proxy_wasm_filter_start dbg G f st;
     if rc \<noteq> NGX_OK then Some (NGX_ERROR, st1) else start_filters dbg G fs st1 }"

definition ngx_proxy_wasm_start :: "bool \<Rightarrow> 'g guest \<Rightarrow> pw_root \<Rightarrow> 'g pw \<Rightarrow> (ngx_rc \<times> 'g pw) option" where
  "ngx_proxy_wasm_start dbg G root st = start_filters dbg G (pr_tree root) st"

section \<open>Stream contexts\<close>

text \<open>
  \<open>ngx_proxy_wasm_ctx\<close>, on the context \<open>c\<close> that \<open>subsys->get_context\<close> returned. The local variable
  \<open>pwexec\<close> keeps its value from the previous filter when a context cannot be created. An
  allocation failure of the array leaves it without memory, which the code does not look at:
  that run is undefined.
\<close>

fun create_chain ::
  "bool \<Rightarrow> 'g guest \<Rightarrow> (nat \<times> ref) list \<Rightarrow> ref \<Rightarrow> nat list \<Rightarrow> ref option \<Rightarrow> 'g pw \<Rightarrow> (bool \<times> 'g pw) option" where
  "create_chain dbg G tree c [] pwexec st = Some (True, st)"
| "create_chain dbg G tree c (cid # ids) pwexec st =
     (case ngx_proxy_wasm_lookup_filter tree cid of
        None \<Rightarrow> if ngx_wa_assert dbg False then Some (False, st) else None
      | Some f \<Rightarrow> do {
          let n = Suc (next_id st);
          ((_, out), st1) \<leftarrow> ngx_proxy_wasm_create_context dbg G f (Some c) n None (st\<lparr>next_id := n\<rparr>);
          let pwexec1 = (case out of None \<Rightarrow> pwexec | Some e \<Rightarrow> Some e);
          if pwexec1 = None then Some (False, st1) else create_chain dbg G tree c ids pwexec1 st1 })"

definition ngx_proxy_wasm_ctx ::
  "bool \<Rightarrow> 'g guest \<Rightarrow> (nat \<times> ref) list \<Rightarrow> nat list option \<Rightarrow> pw_isolation \<Rightarrow> ref option \<Rightarrow> 'g pw \<Rightarrow>
    (ref option \<times> 'g pw) option" where
  "ngx_proxy_wasm_ctx dbg G tree filter_ids mode c st =
     (case c of
        None \<Rightarrow> Some (None, st)
      | Some cr \<Rightarrow> do {
          ctx \<leftarrow> ctxs st cr;
          let (ctx1, st1) =
            (if c_init ctx then (ctx, st)
             else if mode = ISOLATION_STREAM
             then (ctx\<lparr>c_store := Some (fresh st), c_init := True\<rparr>,
                   st\<lparr>stores := (stores st)(fresh st \<mapsto> empty_store), fresh := Suc (fresh st)\<rparr>)
             else (ctx\<lparr>c_init := True\<rparr>, st));
          let st2 = st1\<lparr>ctxs := (ctxs st1)(cr \<mapsto> ctx1)\<rparr>;
          case filter_ids of
            None \<Rightarrow> Some (Some cr, st2)
          | Some ids \<Rightarrow>
              if c_ready ctx1 then Some (Some cr, st2)
              else do {
                st3 \<leftarrow> upd_ctx cr (\<lambda>x. x\<lparr>isolation := mode, nfilters := length ids, pwexecs := []\<rparr>) st2;
                let (ok, st4) = alloc G st3;
                if \<not> ok then None
                else do {
                  (ok, st5) \<leftarrow> create_chain dbg G tree cr ids None st4;
                  if \<not> ok then Some (None, st5)
                  else do { st6 \<leftarrow> upd_ctx cr (\<lambda>x. x\<lparr>c_ready := True\<rparr>) st5; Some (Some cr, st6) } } } })"

definition ctx_destroy_exec :: "bool \<Rightarrow> pw_isolation \<Rightarrow> ref \<Rightarrow> 'g pw \<Rightarrow> 'g pw option" where
  "ctx_destroy_exec dbg mode e st = do {
     x \<leftarrow> execs st e;
     if \<not> ngx_wa_assert dbg (root_id x \<noteq> ROOT_CTX_ID) then None
     else do {
       st3 \<leftarrow> (case ictx x of
                 None \<Rightarrow> Some st
               | Some i \<Rightarrow> do {
                   st1 \<leftarrow> (if node_key x \<noteq> 0 then do {
                            st1 \<leftarrow> upd_inst i (\<lambda>y. y\<lparr>tree_ctxs := tree_delete e (tree_ctxs y)\<rparr>) st;
                            upd_exec e (\<lambda>x. x\<lparr>node_key := 0\<rparr>) st1 }
                          else Some st);
                   case mode of
                     ISOLATION_NONE \<Rightarrow> do { inst \<leftarrow> insts st1 i; ngx_proxy_wasm_store_sweep dbg (i_store inst) st1 }
                   | ISOLATION_FILTER \<Rightarrow> do { s \<leftarrow> e_store x; ngx_proxy_wasm_store_destroy dbg s st1 }
                   | _ \<Rightarrow> Some st1 });
       destroy_pwexec dbg e st3 } }"

text \<open>The contexts of the stream live in the pool of the stream context, which is destroyed.\<close>

definition ngx_proxy_wasm_ctx_destroy :: "bool \<Rightarrow> ref \<Rightarrow> 'g pw \<Rightarrow> 'g pw option" where
  "ngx_proxy_wasm_ctx_destroy dbg c st = do {
     ctx \<leftarrow> ctxs st c;
     st1 \<leftarrow> (if c_ready ctx \<and> isolation ctx = ISOLATION_STREAM
            then do { s \<leftarrow> c_store ctx; ngx_proxy_wasm_store_destroy dbg s st } else Some st);
     st2 \<leftarrow> each (ctx_destroy_exec dbg (isolation ctx)) (pwexecs ctx) st1;
     Some (st2\<lparr>execs := (execs st2) |` (- set (pwexecs ctx)), ctxs := (ctxs st2)(c := None),
               stores := (case c_store ctx of None \<Rightarrow> stores st2 | Some s \<Rightarrow> (stores st2)(s := None))\<rparr>) }"

end
