(* ===== verification/Proxy_Wasm_Chain.thy ===== *)
theory Proxy_Wasm_Chain
  imports Proxy_Wasm_Instance
begin

text \<open>
  Running a chain of filters (src/src/common/proxy_wasm/ngx_proxy_wasm.c from \<open>action2rc\<close> to
  \<open>ngx_proxy_wasm_dispatch_ops_cancel\<close>, and the HTTP subsystem that calls the handlers,
  src/src/http/proxy_wasm/ngx_http_proxy_wasm.c). A stream context keeps the step it is in, the
  index of the next filter to run, the last step completed by all filters and the next action.
\<close>

section \<open>The HTTP subsystem\<close>

text \<open>
  The request is the one of the context that is current in the instance, whatever context the
  caller is about.
\<close>

definition ngx_http_proxy_wasm_get_rctx :: "ref \<Rightarrow> 'g pw \<Rightarrow> (ref \<times> http_req) option" where
  "ngx_http_proxy_wasm_get_rctx i st = do {
     inst \<leftarrow> insts st i;
     e \<leftarrow> cur_pwexec inst;
     x \<leftarrow> execs st e;
     c \<leftarrow> ctxs st (parent x);
     rq \<leftarrow> rctx c;
     Some (parent x, rq) }"

definition upd_rctx :: "ref \<Rightarrow> (http_req \<Rightarrow> http_req) \<Rightarrow> 'g pw \<Rightarrow> 'g pw option" where
  "upd_rctx c f st = upd_ctx c (\<lambda>x. x\<lparr>rctx := map_option f (rctx x)\<rparr>) st"

text \<open>
  The handlers answer a return code and, when they stored one to \<open>out\<close>, the action the guest
  returned. The calls of version 0.1.0 have one argument less.
\<close>

definition call_headers ::
  "bool \<Rightarrow> 'g guest \<Rightarrow> string \<Rightarrow> ref \<Rightarrow> nat \<Rightarrow> 'g pw \<Rightarrow> ((ngx_rc \<times> pw_action option) \<times> 'g pw) option" where
  "call_headers dbg G handler e n st = do {
     x \<leftarrow> execs st e;
     i \<leftarrow> ictx x;
     flt \<leftarrow> filters st (e_filter x);
     ((rc, ret), st1) \<leftarrow> ngx_wavm_instance_call_funcref dbg G i (f_handlers flt handler)
                          (if f_abi flt = ABI_0_1_0 then [exec_id x, n] else [exec_id x, n, 0]) st;
     Some ((rc, if rc = NGX_ERROR \<or> rc = NGX_ABORT then None else Some (action_of ret)), st1) }"

definition ngx_http_proxy_wasm_on_request_headers ::
  "bool \<Rightarrow> 'g guest \<Rightarrow> ref \<Rightarrow> 'g pw \<Rightarrow> ((ngx_rc \<times> pw_action option) \<times> 'g pw) option" where
  "ngx_http_proxy_wasm_on_request_headers dbg G e st = do {
     x \<leftarrow> execs st e;
     i \<leftarrow> ictx x;
     (c, rq) \<leftarrow> ngx_http_proxy_wasm_get_rctx i st;
     st1 \<leftarrow> upd_rctx c (\<lambda>r. r\<lparr>req_content_length_n := r_content_length_in r\<rparr>) st;
     call_headers dbg G ''proxy_on_http_request_headers'' e (n_req_headers rq) st1 }"

definition ngx_http_proxy_wasm_on_request_body ::
  "bool \<Rightarrow> 'g guest \<Rightarrow> ref \<Rightarrow> 'g pw \<Rightarrow> ((ngx_rc \<times> pw_action option) \<times> 'g pw) option" where
  "ngx_http_proxy_wasm_on_request_body dbg G e st = do {
     x \<leftarrow> execs st e;
     i \<leftarrow> ictx x;
     flt \<leftarrow> filters st (e_filter x);
     c \<leftarrow> ctxs st (parent x);
     ((rc, ret), st1) \<leftarrow> ngx_wavm_instance_call_funcref dbg G i (f_handlers flt ''proxy_on_http_request_body'')
                          [exec_id x, req_body_len c, 1] st;
     Some ((rc, if rc = NGX_ERROR \<or> rc = NGX_ABORT then None else Some (action_of ret)), st1) }"

definition ngx_http_proxy_wasm_on_response_headers ::
  "bool \<Rightarrow> 'g guest \<Rightarrow> ref \<Rightarrow> 'g pw \<Rightarrow> ((ngx_rc \<times> pw_action option) \<times> 'g pw) option" where
  "ngx_http_proxy_wasm_on_response_headers dbg G e st = do {
     x \<leftarrow> execs st e;
     i \<leftarrow> ictx x;
     (c, rq) \<leftarrow> ngx_http_proxy_wasm_get_rctx i st;
     st1 \<leftarrow> upd_rctx c (\<lambda>r. r\<lparr>reset_resp_shims := True, resp_content_length_n := r_content_length_out r\<rparr>) st;
     call_headers dbg G ''proxy_on_http_response_headers'' e (n_resp_headers rq + n_shim_headers rq) st1 }"

definition ngx_http_proxy_wasm_on_response_body ::
  "bool \<Rightarrow> 'g guest \<Rightarrow> ref \<Rightarrow> 'g pw \<Rightarrow> ((ngx_rc \<times> pw_action option) \<times> 'g pw) option" where
  "ngx_http_proxy_wasm_on_response_body dbg G e st = do {
     x \<leftarrow> execs st e;
     i \<leftarrow> ictx x;
     (c, rq0) \<leftarrow> ngx_http_proxy_wasm_get_rctx i st;
     let rq = (if resp_content_length_n rq0 > 0
               then rq0\<lparr>resp_chunk_eof := (resp_chunk_len rq0 = resp_content_length_n rq0)\<rparr> else rq0);
     st1 \<leftarrow> upd_rctx c (\<lambda>_. rq) st;
     if resp_chunk_len rq \<noteq> 0 \<or> resp_chunk_eof rq then do {
       flt \<leftarrow> filters st1 (e_filter x);
       ((rc, ret), st2) \<leftarrow> ngx_wavm_instance_call_funcref dbg G i (f_handlers flt ''proxy_on_http_response_body'')
                            [exec_id x, nat (resp_chunk_len rq), of_bool (resp_chunk_eof rq)] st1;
       if rc = NGX_ERROR \<or> rc = NGX_ABORT then Some ((rc, None), st2)
       else do {
         ctx \<leftarrow> ctxs st2 c;
         rq2 \<leftarrow> rctx ctx;
         Some ((rc, Some (if action_of ret = ACTION_PAUSE \<and> resp_bufs rq2 then ACTION_CONTINUE else action_of ret)), st2) } }
     else Some ((NGX_OK, None), st1) }"

definition ngx_http_proxy_wasm_on_response_trailers ::
  "bool \<Rightarrow> 'g guest \<Rightarrow> ref \<Rightarrow> 'g pw \<Rightarrow> ((ngx_rc \<times> pw_action option) \<times> 'g pw) option" where
  "ngx_http_proxy_wasm_on_response_trailers dbg G e st = do {
     x \<leftarrow> execs st e;
     i \<leftarrow> ictx x;
     (c, rq) \<leftarrow> ngx_http_proxy_wasm_get_rctx i st;
     call_headers dbg G ''proxy_on_http_response_trailers'' e (n_resp_trailers rq) st }"

text \<open>\<open>ngx_wasm_continue\<close> on the request of the call.\<close>

definition ngx_wasm_continue :: "ref \<Rightarrow> 'g pw \<Rightarrow> 'g pw option" where
  "ngx_wasm_continue c st = upd_rctx c (\<lambda>r. r\<lparr>env_state := STATE_CONTINUE\<rparr>) st"

definition ngx_http_proxy_wasm_on_dispatch_response ::
  "bool \<Rightarrow> 'g guest \<Rightarrow> ref \<Rightarrow> 'g pw \<Rightarrow> (ngx_rc \<times> 'g pw) option" where
  "ngx_http_proxy_wasm_on_dispatch_response dbg G e st = do {
     x \<leftarrow> execs st e;
     flt \<leftarrow> filters st (e_filter x);
     (token, n, len) \<leftarrow> dispatch_call x;
     st1 \<leftarrow> ngx_wasm_continue (parent x) st;
     i \<leftarrow> ictx x;
     ((rc, _), st2) \<leftarrow> ngx_wavm_instance_call_funcref dbg G i (f_handlers flt ''proxy_on_http_call_response'')
                        [f_id flt, token, n, len, 0] st1;
     Some (rc, st2) }"

definition ngx_http_proxy_wasm_on_foreign_function ::
  "bool \<Rightarrow> 'g guest \<Rightarrow> ref \<Rightarrow> 'g pw \<Rightarrow> (ngx_rc \<times> 'g pw) option" where
  "ngx_http_proxy_wasm_on_foreign_function dbg G e st = do {
     x \<leftarrow> execs st e;
     flt \<leftarrow> filters st (e_filter x);
     (fcode, len) \<leftarrow> foreign_call x;
     st1 \<leftarrow> ngx_wasm_continue (parent x) st;
     i \<leftarrow> ictx x;
     ((rc, _), st2) \<leftarrow> ngx_wavm_instance_call_funcref dbg G i (f_handlers flt ''proxy_on_custom_callback'')
                        [exec_id x, fcode, len] st1;
     Some (rc, st2) }"

text \<open>The three upstream handlers are optional exports.\<close>

definition call_upstream ::
  "bool \<Rightarrow> 'g guest \<Rightarrow> string \<Rightarrow> ref \<Rightarrow> (http_req \<Rightarrow> nat list option) \<Rightarrow> 'g pw \<Rightarrow> (ngx_rc \<times> 'g pw) option" where
  "call_upstream dbg G handler e args st = do {
     x \<leftarrow> execs st e;
     i \<leftarrow> ictx x;
     flt \<leftarrow> filters st (e_filter x);
     (c, rq) \<leftarrow> ngx_http_proxy_wasm_get_rctx i st;
     case f_handlers flt handler of
       None \<Rightarrow> Some (NGX_OK, st)
     | Some fn \<Rightarrow>
         (case args rq of
            None \<Rightarrow> Some (NGX_ERROR, st)
          | Some as \<Rightarrow> do {
              ((rc, _), st1) \<leftarrow> ngx_wavm_instance_call_funcref dbg G i (Some fn) (exec_id x # as) st;
              Some (rc, st1) }) }"

definition ngx_http_proxy_wasm_on_upstream_select ::
  "bool \<Rightarrow> 'g guest \<Rightarrow> ref \<Rightarrow> 'g pw \<Rightarrow> (ngx_rc \<times> 'g pw) option" where
  "ngx_http_proxy_wasm_on_upstream_select dbg G e st = do {
     x \<leftarrow> execs st e;
     i \<leftarrow> ictx x;
     flt \<leftarrow> filters st (e_filter x);
     case f_handlers flt ''proxy_on_http_upstream_select'' of
       None \<Rightarrow> Some (NGX_OK, st)
     | Some fn \<Rightarrow> do {
         ((rc, _), st1) \<leftarrow> ngx_wavm_instance_call_funcref dbg G i (Some fn) [exec_id x] st;
         Some (rc, st1) } }"

definition ngx_http_proxy_wasm_on_next_upstream ::
  "bool \<Rightarrow> 'g guest \<Rightarrow> ref \<Rightarrow> 'g pw \<Rightarrow> (ngx_rc \<times> 'g pw) option" where
  "ngx_http_proxy_wasm_on_next_upstream dbg G e st =
     call_upstream dbg G ''proxy_on_http_next_upstream'' e
       (\<lambda>rq. map_option (\<lambda>(last_status, _). [last_status]) (upstream_peer rq)) st"

text \<open>\<open>NGX_PEER_NEXT\<close> is 2 and \<open>NGX_PEER_FAILED\<close> is 4.\<close>

definition ngx_http_proxy_wasm_on_upstream_info ::
  "bool \<Rightarrow> 'g guest \<Rightarrow> ref \<Rightarrow> 'g pw \<Rightarrow> (ngx_rc \<times> 'g pw) option" where
  "ngx_http_proxy_wasm_on_upstream_info dbg G e st =
     call_upstream dbg G ''proxy_on_http_upstream_info'' e
       (\<lambda>rq. do { (_, state) \<leftarrow> upstream_peer rq;
                  if state = 0 then Some [0] else if state = 2 \<or> state = 4 then Some [1] else None }) st"

definition ngx_http_proxy_wasm_ecode :: "pw_err \<Rightarrow> ngx_rc" where
  "ngx_http_proxy_wasm_ecode err = NGX_HTTP 500"

definition without_action :: "(ngx_rc \<times> 'g pw) option \<Rightarrow> ((ngx_rc \<times> pw_action option) \<times> 'g pw) option" where
  "without_action = map_option (\<lambda>(rc, st). ((rc, None), st))"

definition http_step ::
  "bool \<Rightarrow> 'g guest \<Rightarrow> ref \<Rightarrow> pw_step \<Rightarrow> 'g pw \<Rightarrow> ((ngx_rc \<times> pw_action option) \<times> 'g pw) option" where
  "http_step dbg G e stp st =
     (case stp of
        STEP_REQ_HEADERS \<Rightarrow> ngx_http_proxy_wasm_on_request_headers dbg G e st
      | STEP_REQ_BODY \<Rightarrow> ngx_http_proxy_wasm_on_request_body dbg G e st
      | STEP_RESP_HEADERS \<Rightarrow> ngx_http_proxy_wasm_on_response_headers dbg G e st
      | STEP_RESP_BODY \<Rightarrow> ngx_http_proxy_wasm_on_response_body dbg G e st
      | STEP_RESP_TRAILERS \<Rightarrow> ngx_http_proxy_wasm_on_response_trailers dbg G e st
      | STEP_DISPATCH_RESPONSE \<Rightarrow> without_action (ngx_http_proxy_wasm_on_dispatch_response dbg G e st)
      | STEP_FOREIGN_CALLBACK \<Rightarrow> without_action (ngx_http_proxy_wasm_on_foreign_function dbg G e st)
      | STEP_UPSTREAM_SELECT \<Rightarrow> without_action (ngx_http_proxy_wasm_on_upstream_select dbg G e st)
      | STEP_NEXT_UPSTREAM \<Rightarrow> without_action (ngx_http_proxy_wasm_on_next_upstream dbg G e st)
      | STEP_UPSTREAM_INFO \<Rightarrow> without_action (ngx_http_proxy_wasm_on_upstream_info dbg G e st)
      | _ \<Rightarrow> Some ((NGX_ERROR, None), st))"

definition ngx_http_proxy_wasm_resume ::
  "bool \<Rightarrow> 'g guest \<Rightarrow> ref \<Rightarrow> pw_step \<Rightarrow> 'g pw \<Rightarrow> ((ngx_rc \<times> pw_action option) \<times> 'g pw) option" where
  "ngx_http_proxy_wasm_resume dbg G e stp st = do {
     ((rc, out), st1) \<leftarrow> http_step dbg G e stp st;
     if ngx_wa_assert dbg (rc = NGX_OK \<or> rc = NGX_AGAIN \<or> rc = NGX_ABORT \<or> rc = NGX_ERROR)
     then Some ((rc, out), st1) else None }"

section \<open>One step of one filter\<close>

definition ngx_proxy_wasm_on_log :: "bool \<Rightarrow> 'g guest \<Rightarrow> ref \<Rightarrow> 'g pw \<Rightarrow> 'g pw option" where
  "ngx_proxy_wasm_on_log dbg G e st = do {
     x \<leftarrow> execs st e;
     i \<leftarrow> ictx x;
     flt \<leftarrow> filters st (e_filter x);
     st1 \<leftarrow> (if before_vnext (f_abi flt)
            then map_option snd (ngx_wavm_instance_call_funcref dbg G i (f_handlers flt ''proxy_on_done'') [exec_id x] st)
            else Some st);
     map_option snd (ngx_wavm_instance_call_funcref dbg G i (f_handlers flt ''proxy_on_log'') [exec_id x] st1) }"

definition ngx_proxy_wasm_on_done :: "bool \<Rightarrow> 'g guest \<Rightarrow> ref \<Rightarrow> 'g pw \<Rightarrow> 'g pw option" where
  "ngx_proxy_wasm_on_done dbg G e st = do {
     x \<leftarrow> execs st e;
     i \<leftarrow> ictx x;
     flt \<leftarrow> filters st (e_filter x);
     (_, st1) \<leftarrow> ngx_wavm_instance_call_funcref dbg G i (f_handlers flt ''proxy_on_context_finalize'') [exec_id x] st;
     if node_key x \<noteq> 0 then do {
       st2 \<leftarrow> upd_inst i (\<lambda>y. y\<lparr>tree_ctxs := tree_delete e (tree_ctxs y)\<rparr>) st1;
       upd_exec e (\<lambda>x. x\<lparr>node_key := 0\<rparr>) st2 }
     else Some st1 }"

definition ngx_proxy_wasm_on_tick :: "bool \<Rightarrow> 'g guest \<Rightarrow> ref \<Rightarrow> 'g pw \<Rightarrow> (ngx_rc \<times> 'g pw) option" where
  "ngx_proxy_wasm_on_tick dbg G e st = do {
     x \<leftarrow> execs st e;
     if \<not> ngx_wa_assert dbg (root_id x = ROOT_CTX_ID) then None
     else do {
       i \<leftarrow> ictx x;
       flt \<leftarrow> filters st (e_filter x);
       ((rc, _), st1) \<leftarrow> ngx_wavm_instance_call_funcref dbg G i (f_handlers flt ''proxy_on_timer_ready'') [exec_id x] st;
       Some (rc, st1) } }"

text \<open>The switch of \<open>ngx_proxy_wasm_run_step\<close>.\<close>

definition step_call ::
  "bool \<Rightarrow> 'g guest \<Rightarrow> ref \<Rightarrow> ref \<Rightarrow> pw_step \<Rightarrow> 'g pw \<Rightarrow> ((ngx_rc \<times> pw_action option) \<times> 'g pw) option" where
  "step_call dbg G c e stp st =
     (case stp of
        STEP_LOG \<Rightarrow> map_option (\<lambda>st. ((NGX_OK, None), st)) (ngx_proxy_wasm_on_log dbg G e st)
      | STEP_DONE \<Rightarrow> map_option (\<lambda>st. ((NGX_OK, None), st)) (ngx_proxy_wasm_on_done dbg G e st)
      | STEP_TICK \<Rightarrow> do {
          x \<leftarrow> execs st e;
          if \<not> ngx_wa_assert dbg (root_id x = ROOT_CTX_ID) then None
          else do {
            st1 \<leftarrow> upd_ctx c (\<lambda>y. y\<lparr>rexec := Some e\<rparr>) st;
            st2 \<leftarrow> upd_exec e (\<lambda>y. y\<lparr>in_tick := True\<rparr>) st1;
            (rc, st3) \<leftarrow> ngx_proxy_wasm_on_tick dbg G e st2;
            st4 \<leftarrow> upd_exec e (\<lambda>y. y\<lparr>in_tick := False\<rparr>) st3;
            st5 \<leftarrow> upd_ctx c (\<lambda>y. y\<lparr>rexec := None\<rparr>) st4;
            Some ((rc, None), st5) } }
      | STEP_REQ_TRAILERS \<Rightarrow> Some ((NGX_ERROR, None), st)
      | _ \<Rightarrow> ngx_http_proxy_wasm_resume dbg G e stp st)"

text \<open>
  After the call: the action the guest returned becomes the next action, unless a host function
  has set \<open>ACTION_DONE\<close>; in that case the return code of the call is not looked at.
\<close>

definition step_result ::
  "bool \<Rightarrow> ref \<Rightarrow> ref \<Rightarrow> pw_action \<Rightarrow> ngx_rc \<Rightarrow> pw_action \<Rightarrow> 'g pw \<Rightarrow> (pw_err \<times> 'g pw) option" where
  "step_result dbg c e old_action rc act st = do {
     ctx \<leftarrow> ctxs st c;
     if action ctx \<noteq> act \<and> action ctx = ACTION_DONE then
       if \<not> ngx_wa_assert dbg (action ctx \<noteq> old_action) then None
       else do { x \<leftarrow> execs st e; Some (ecode x, st) }
     else do {
       st1 \<leftarrow> (if action ctx \<noteq> act then ngx_proxy_wasm_ctx_set_next_action dbg c act st else Some st);
       if \<not> ngx_wa_assert dbg (rc = NGX_OK \<or> rc = NGX_ABORT \<or> rc = NGX_ERROR) then None
       else do {
         st2 \<leftarrow> (if rc = NGX_OK then upd_exec e (\<lambda>x. x\<lparr>ecode := ERR_NONE\<rparr>) st1
                else if rc = NGX_ABORT then upd_exec e (\<lambda>x. x\<lparr>ecode := ERR_INSTANCE_TRAPPED\<rparr>) st1
                else if rc = NGX_ERROR then upd_exec e (\<lambda>x. x\<lparr>ecode := ERR_UNKNOWN\<rparr>) st1
                else Some st1);
         x \<leftarrow> execs st2 e;
         Some (ecode x, st2) } } }"

definition no_instance :: "ref \<Rightarrow> 'g pw \<Rightarrow> bool option" where
  "no_instance e st = do {
     x \<leftarrow> execs st e;
     case ictx x of None \<Rightarrow> Some True | Some i \<Rightarrow> do { inst \<leftarrow> insts st i; Some (trapped inst) } }"

text \<open>Running the step in the instance of the context \<open>e\<close>.\<close>

definition run_in_instance ::
  "bool \<Rightarrow> 'g guest \<Rightarrow> ref \<Rightarrow> ref \<Rightarrow> pw_action \<Rightarrow> pw_step \<Rightarrow> ref \<Rightarrow> 'g pw \<Rightarrow> (pw_err \<times> 'g pw) option" where
  "run_in_instance dbg G c f old_action stp e st = do {
     x \<leftarrow> execs st e;
     i \<leftarrow> ictx x;
     inst \<leftarrow> insts st i;
     flt \<leftarrow> filters st f;
     if \<not> ngx_wa_assert dbg (\<not> trapped inst \<and> Some (i_module inst) = map_option m_id (f_module flt)) then None
     else do {
       st1 \<leftarrow> upd_ctx c (\<lambda>y. y\<lparr>step := Some stp\<rparr>) st;
       st2 \<leftarrow> ngx_proxy_wasm_instance_update i (Some e) st1;
       ((rc, out), st3) \<leftarrow> step_call dbg G c e stp st2;
       step_result dbg c e old_action rc (case out of None \<Rightarrow> old_action | Some a \<Rightarrow> a) st3 } }"

definition ngx_proxy_wasm_run_step ::
  "bool \<Rightarrow> 'g guest \<Rightarrow> ref \<Rightarrow> pw_step \<Rightarrow> 'g pw \<Rightarrow> (pw_err \<times> 'g pw) option" where
  "ngx_proxy_wasm_run_step dbg G e0 stp st = do {
     x \<leftarrow> execs st e0;
     ctx \<leftarrow> ctxs st (parent x);
     if \<not> ngx_wa_assert dbg (phase ctx \<noteq> None) then None
     else do {
       gone \<leftarrow> no_instance e0 st;
       ((err, out), st1) \<leftarrow> (if gone then ngx_proxy_wasm_create_context dbg G (e_filter x) (Some (parent x)) (exec_id x) (Some e0) st
                             else Some ((ERR_NONE, Some e0), st));
       if err \<noteq> ERR_NONE then Some (err, st1)
       else do { e \<leftarrow> out; run_in_instance dbg G (parent x) (e_filter x) (action ctx) stp e st1 } } }"

section \<open>The chain\<close>

text \<open>
  \<open>action2rc\<close>. A previous error of the filter fails the chain; the step \<open>on_done\<close> is never held
  back; otherwise the next action decides.
\<close>

definition prev_error :: "bool \<Rightarrow> ref \<Rightarrow> ref \<Rightarrow> 'g pw \<Rightarrow> (ngx_rc \<times> 'g pw) option" where
  "prev_error dbg c e st = do {
     x \<leftarrow> execs st e;
     ctx \<leftarrow> ctxs st c;
     st1 \<leftarrow> (if \<not> ecode_logged x \<and> step ctx \<noteq> Some STEP_DONE then upd_exec e (\<lambda>y. y\<lparr>ecode_logged := True\<rparr>) st else Some st);
     Some (ngx_http_proxy_wasm_ecode (ecode x), st1) }"

definition unknown_error :: "ref \<Rightarrow> 'g pw \<Rightarrow> (ngx_rc \<times> 'g pw) option" where
  "unknown_error e st = do {
     st1 \<leftarrow> upd_exec e (\<lambda>y. if ecode y = ERR_NONE then y\<lparr>ecode := ERR_UNKNOWN\<rparr> else y) st;
     Some (NGX_ERROR, st1) }"

definition pause2rc :: "ref \<Rightarrow> ref \<Rightarrow> 'g pw \<Rightarrow> (ngx_rc \<times> 'g pw) option" where
  "pause2rc c e st = do {
     x \<leftarrow> execs st e;
     ctx \<leftarrow> ctxs st c;
     ph \<leftarrow> phase ctx;
     case ph of
       HEADER_FILTER_PHASE \<Rightarrow> do {
         i \<leftarrow> ictx x;
         (_, rq) \<leftarrow> ngx_http_proxy_wasm_get_rctx i st;
         Some (NGX_AGAIN, st) }
     | BODY_FILTER_PHASE \<Rightarrow> do {
         i \<leftarrow> ictx x;
         (rc, rq) \<leftarrow> ngx_http_proxy_wasm_get_rctx i st;
         st1 \<leftarrow> upd_rctx rc (\<lambda>r. r\<lparr>resp_buffering := True\<rparr>) st;
         Some (NGX_AGAIN, st1) }
     | REWRITE_PHASE \<Rightarrow> Some (NGX_AGAIN, st)
     | ACCESS_PHASE \<Rightarrow> Some (NGX_AGAIN, st)
     | CONTENT_PHASE \<Rightarrow> Some (NGX_AGAIN, st)
     | BACKGROUND_PHASE \<Rightarrow> Some (NGX_AGAIN, st)
     | _ \<Rightarrow> do {
         e1 \<leftarrow> (if exec_index ctx < length (pwexecs ctx) then Some (pwexecs ctx ! exec_index ctx) else None);
         st1 \<leftarrow> upd_exec e1 (\<lambda>y. y\<lparr>ecode := ERR_RETURN_ACTION\<rparr>) st;
         unknown_error e1 st1 } }"

definition action2rc :: "bool \<Rightarrow> ref \<Rightarrow> ref \<Rightarrow> 'g pw \<Rightarrow> (ngx_rc \<times> 'g pw) option" where
  "action2rc dbg c e st = do {
     x \<leftarrow> execs st e;
     ctx \<leftarrow> ctxs st c;
     if \<not> ngx_wa_assert dbg (root_id x \<noteq> ROOT_CTX_ID) then None
     else if ecode x \<noteq> ERR_NONE then prev_error dbg c e st
     else if step ctx = Some STEP_DONE then Some (NGX_OK, st)
     else (case action ctx of
             ACTION_DONE \<Rightarrow> do {
               st1 \<leftarrow> ngx_proxy_wasm_ctx_set_next_action dbg c ACTION_CONTINUE st;
               Some (NGX_DONE, st1) }
           | ACTION_CONTINUE \<Rightarrow> Some (NGX_OK, st)
           | ACTION_PAUSE \<Rightarrow> pause2rc c e st
           | _ \<Rightarrow> unknown_error e st) }"

text \<open>
  The body of the loop of \<open>ngx_proxy_wasm_resume\<close>, in two parts: up to and including the step of the
  filter, and what follows. \<open>Inl rc\<close> is a jump to \<open>ret\<close>.
\<close>

definition filter_begin :: "bool \<Rightarrow> 'g guest \<Rightarrow> ref \<Rightarrow> pw_step \<Rightarrow> ref \<Rightarrow> 'g pw \<Rightarrow> ((ngx_rc + unit) \<times> 'g pw) option" where
  "filter_begin dbg G c stp e st = do {
     (rc, st1) \<leftarrow> action2rc dbg c e st;
     if rc \<noteq> NGX_OK then Some (Inl rc, st1)
     else do {
       gone \<leftarrow> (if stp = STEP_DONE then no_instance e st1 else Some False);
       if gone then Some (Inl NGX_OK, st1)
       else do {
         (err, st2) \<leftarrow> ngx_proxy_wasm_run_step dbg G e stp st1;
         st3 \<leftarrow> upd_exec e (\<lambda>x. x\<lparr>ecode := err\<rparr>) st2;
         Some (if err \<noteq> ERR_NONE then Inl (ngx_http_proxy_wasm_ecode err) else Inr (), st3) } } }"

definition advance :: "pw_step \<Rightarrow> pwctx \<Rightarrow> pwctx" where
  "advance stp ctx =
     (case action ctx of
        ACTION_CONTINUE \<Rightarrow> ctx\<lparr>exec_index := Suc (exec_index ctx)\<rparr>
      | ACTION_DONE \<Rightarrow> ctx\<lparr>exec_index := Suc (exec_index ctx)\<rparr>
      | ACTION_PAUSE \<Rightarrow> if stp \<noteq> STEP_RESP_BODY then ctx\<lparr>exec_index := Suc (exec_index ctx)\<rparr> else ctx
      | _ \<Rightarrow> ctx)"

definition filter_end :: "bool \<Rightarrow> ref \<Rightarrow> pw_step \<Rightarrow> ref \<Rightarrow> 'g pw \<Rightarrow> ((ngx_rc + ngx_rc) \<times> 'g pw) option" where
  "filter_end dbg c stp e st = do {
     st1 \<leftarrow> upd_ctx c (advance stp) st;
     (rc, st2) \<leftarrow> action2rc dbg c e st1;
     if rc \<noteq> NGX_OK \<and> rc \<noteq> NGX_AGAIN then Some (Inl rc, st2)
     else do {
       ctx \<leftarrow> ctxs st2 c;
       if \<not> ngx_wa_assert dbg (exec_index ctx \<le> nfilters ctx) then None
       else do {
         st3 \<leftarrow> (if nfilters ctx \<le> exec_index ctx
                then upd_ctx c (\<lambda>x. x\<lparr>last_completed_step := step x, exec_index := 0\<rparr>) st2 else Some st2);
         Some (Inr rc, st3) } } }"

fun chain_loop ::
  "bool \<Rightarrow> 'g guest \<Rightarrow> ref \<Rightarrow> pw_step \<Rightarrow> nat list \<Rightarrow> ngx_rc \<Rightarrow> 'g pw \<Rightarrow> (ngx_rc \<times> 'g pw) option" where
  "chain_loop dbg G c stp [] rc st = Some (rc, st)"
| "chain_loop dbg G c stp (i # is) rc st = do {
     ctx \<leftarrow> ctxs st c;
     e \<leftarrow> (if i < length (pwexecs ctx) then Some (pwexecs ctx ! i) else None);
     (r, st1) \<leftarrow> filter_begin dbg G c stp e st;
     case r of
       Inl rc \<Rightarrow> Some (rc, st1)
     | Inr _ \<Rightarrow> do {
         (r, st2) \<leftarrow> filter_end dbg c stp e st1;
         case r of
           Inl rc \<Rightarrow> Some (rc, st2)
         | Inr rc \<Rightarrow> chain_loop dbg G c stp is rc st2 } }"

text \<open>Steps that run again although they were completed.\<close>

definition repeatable :: "pw_step \<Rightarrow> bool" where
  "repeatable stp \<longleftrightarrow> stp = STEP_TICK \<or> stp = STEP_DONE \<or> stp = STEP_RESP_BODY \<or> stp = STEP_DISPATCH_RESPONSE
     \<or> stp = STEP_UPSTREAM_SELECT \<or> stp = STEP_NEXT_UPSTREAM \<or> stp = STEP_UPSTREAM_INFO"

definition last_step_num :: "pwctx \<Rightarrow> nat" where
  "last_step_num ctx = (case last_completed_step ctx of None \<Rightarrow> 0 | Some s \<Rightarrow> step_num s)"

definition resume_chain :: "bool \<Rightarrow> 'g guest \<Rightarrow> ref \<Rightarrow> pw_step \<Rightarrow> 'g pw \<Rightarrow> (ngx_rc \<times> 'g pw) option" where
  "resume_chain dbg G c stp st = do {
     st1 \<leftarrow> upd_ctx c (\<lambda>x. x\<lparr>step := Some stp\<rparr>) st;
     ctx \<leftarrow> ctxs st1 c;
     if \<not> repeatable stp \<and> stp \<noteq> STEP_RESP_HEADERS \<and> step_num stp \<le> last_step_num ctx then Some (NGX_OK, st1)
     else do {
       st2 \<leftarrow> (if stp = STEP_RESP_HEADERS \<and> last_step_num ctx < step_num STEP_RESP_HEADERS
              then upd_ctx c (\<lambda>x. x\<lparr>exec_index := 0\<rparr>) st1 else Some st1);
       ctx \<leftarrow> ctxs st2 c;
       if \<not> ngx_wa_assert dbg (length (pwexecs ctx) = nfilters ctx) then None
       else chain_loop dbg G c stp [exec_index ctx..<nfilters ctx] NGX_OK st2 } }"

definition ngx_proxy_wasm_resume :: "bool \<Rightarrow> 'g guest \<Rightarrow> ref \<Rightarrow> pw_step \<Rightarrow> 'g pw \<Rightarrow> (ngx_rc \<times> 'g pw) option" where
  "ngx_proxy_wasm_resume dbg G c stp st = do {
     (rc, st1) \<leftarrow> resume_chain dbg G c stp st;
     st2 \<leftarrow> (if stp = STEP_DONE then ngx_proxy_wasm_ctx_destroy dbg c st1 else Some st1);
     Some (rc, st2) }"

end
