(* ===== verification/Proxy_Wasm_Frame.thy ===== *)
theory Proxy_Wasm_Frame
  imports Proxy_Wasm_Chain
begin

text \<open>
  What the operations of the proxy-wasm layer leave alone: no guest call, no creation or
  destruction of another context and no host function changes the control fields of a stream
  context. Only the next action, the request and the tick context may be different afterwards.
  A context keeps its parent.
\<close>

section \<open>Frames\<close>

text \<open>
  A frame relates a state to the states that operations may lead to. It is what every operation of a
  loop has to keep for the loop to keep it; a property of objects is stable when the
  operations of the frame do not take it away.
\<close>

locale state_frame =
  fixes frame :: "'s \<Rightarrow> 's \<Rightarrow> bool"
  assumes frame_refl: "frame s s"
    and frame_trans: "frame s s1 \<Longrightarrow> frame s1 s2 \<Longrightarrow> frame s s2"
begin

lemma each_frame:
  assumes "\<And>x s s'. f x s = Some s' \<Longrightarrow> frame s s'"
  shows "each f xs s = Some s' \<Longrightarrow> frame s s'"
proof (induction xs arbitrary: s)
  case (Cons x xs)
  then obtain s1 where "f x s = Some s1" "each f xs s1 = Some s'"
    by (auto simp: bind_eq_Some_conv)
  with Cons.IH assms show ?case by (blast intro: frame_trans)
qed (simp add: frame_refl)

end

locale stable_frame = state_frame frame for frame :: "'s \<Rightarrow> 's \<Rightarrow> bool" +
  fixes good :: "'s \<Rightarrow> 'a \<Rightarrow> bool"
  assumes stable: "good s x \<Longrightarrow> frame s s' \<Longrightarrow> good s' x"
begin

text \<open>A loop of two parts: what the first part established holds behind the second.\<close>

lemma loop_step:
  assumes "frame s s1 \<and> good s1 x" and "frame s1 s2 \<and> (\<forall>y \<in> X. good s2 y)"
  shows "frame s s2 \<and> (\<forall>y \<in> insert x X. good s2 y)"
  using assms by (blast intro: frame_trans stable)

lemma loop_join:
  assumes "frame s s1 \<and> (\<forall>y \<in> X. good s1 y)" and "frame s1 s2 \<and> (\<forall>y \<in> Y. good s2 y)"
  shows "frame s s2 \<and> (\<forall>y \<in> X \<union> Y. good s2 y)"
  using assms by (blast intro: frame_trans stable)

end

section \<open>The frame of the stream contexts\<close>

definition ctl :: "pwctx \<Rightarrow> pwctx" where
  "ctl ctx = ctx\<lparr>action := ACTION_CONTINUE, rctx := None, rexec := None\<rparr>"

definition keeps :: "'g pw \<Rightarrow> 'g pw \<Rightarrow> bool" where
  "keeps st st' \<longleftrightarrow> fresh st \<le> fresh st'
     \<and> (\<forall>c < fresh st. map_option ctl (ctxs st' c) = map_option ctl (ctxs st c))
     \<and> (\<forall>e < fresh st. map_option parent (execs st' e) = map_option parent (execs st e))"

named_theorems keeps_rules \<open>operations that keep the control fields of the stream contexts\<close>

lemma keeps_refl [simp]: "keeps st st"
  by (simp add: keeps_def)

lemma keeps_trans [trans]: "keeps st st' \<Longrightarrow> keeps st' st'' \<Longrightarrow> keeps st st''"
  by (simp add: keeps_def)

text \<open>A step that does not touch the stream contexts.\<close>

lemma keeps_same: "fresh st' = fresh st \<Longrightarrow> ctxs st' = ctxs st \<Longrightarrow> execs st' = execs st \<Longrightarrow> keeps st st'"
  by (simp add: keeps_def)

lemma keeps_update [simp]:
  "keeps st (st'\<lparr>insts := x2\<rparr>) = keeps st st'"
  "keeps st (st'\<lparr>stores := x3\<rparr>) = keeps st st'" "keeps st (st'\<lparr>filters := x4\<rparr>) = keeps st st'"
  "keeps st (st'\<lparr>world := x5\<rparr>) = keeps st st'" "keeps st (st'\<lparr>next_id := x6\<rparr>) = keeps st st'"
  "keeps (st\<lparr>world := x5\<rparr>) st' = keeps st st'" "keeps (st\<lparr>next_id := x6\<rparr>) st' = keeps st st'"
  by (simp_all add: keeps_def)

lemma keeps_exec: "execs st e = Some x \<Longrightarrow> parent y = parent x \<Longrightarrow> keeps st (st\<lparr>execs := (execs st)(e \<mapsto> y)\<rparr>)"
  by (simp add: keeps_def)

lemma keeps_upd_exec [keeps_rules]:
  "upd_exec e f st = Some st' \<Longrightarrow> (\<And>x. parent (f x) = parent x) \<Longrightarrow> keeps st st'"
  by (auto simp: upd_exec_def bind_eq_Some_conv intro: keeps_exec)

lemma keeps_upd [keeps_rules]:
  "upd_inst i g st = Some st' \<Longrightarrow> keeps st st'"
  "upd_store s h st = Some st' \<Longrightarrow> keeps st st'"
  "upd_filter r k st = Some st' \<Longrightarrow> keeps st st'"
  by (auto simp: upd_inst_def upd_store_def upd_filter_def bind_eq_Some_conv intro!: keeps_same)

lemma keeps_upd_ctx:
  "upd_ctx d f st = Some st' \<Longrightarrow> (\<And>x. ctxs st d = Some x \<Longrightarrow> ctl (f x) = ctl x) \<Longrightarrow> keeps st st'"
  by (auto simp: upd_ctx_def bind_eq_Some_conv keeps_def)

lemma keeps_upd_rctx [keeps_rules]: "upd_rctx d f st = Some st' \<Longrightarrow> keeps st st'"
  unfolding upd_rctx_def by (erule keeps_upd_ctx) (simp add: ctl_def)

lemma keeps_set_next_action [keeps_rules]:
  "ngx_proxy_wasm_ctx_set_next_action dbg d a st = Some st' \<Longrightarrow> keeps st st'"
  by (auto simp: ngx_proxy_wasm_ctx_set_next_action_def ctl_def split: if_splits intro: keeps_upd_ctx)

interpretation keeps_frame: state_frame keeps
  by unfold_locales (auto intro: keeps_trans)

lemma keeps_host_call [keeps_rules]: "host_call dbg i eff st = Some st' \<Longrightarrow> keeps st st'"
  by (cases eff) (auto simp: host_call_def bind_eq_Some_conv ctl_def intro: keeps_rules keeps_upd_ctx)

lemma keeps_host_calls [keeps_rules]: "each (host_call dbg i) effs st = Some st' \<Longrightarrow> keeps st st'"
  by (erule keeps_frame.each_frame [rotated]) (rule keeps_host_call)

lemma keeps_alloc [keeps_rules]: "alloc G st = (ok, st') \<Longrightarrow> keeps st st'"
  by (auto simp: alloc_def split: prod.splits intro!: keeps_same)

lemma keeps_allocs [keeps_rules]: "allocs G n st = (ok, st') \<Longrightarrow> keeps st st'"
  by (induction n arbitrary: st) (auto split: prod.splits if_splits intro: keeps_trans dest: keeps_alloc)

lemma keeps_call [keeps_rules]:
  assumes "ngx_wavm_instance_call_funcref dbg G i fn args st = Some (r, st')"
  shows "keeps st st'"
proof -
  obtain rc ret effs w where g: "g_call G (the fn) i args (world st) = ((rc, ret, effs), w)"
    by (metis prod_cases3 surj_pair)
  from assms g consider "st' = st"
    | s where "each (host_call dbg i) effs (st\<lparr>world := w\<rparr>) = Some s" "st' = s \<or> upd_inst i (\<lambda>x. x\<lparr>trapped := True\<rparr>) s = Some st'"
    by (auto simp: ngx_wavm_instance_call_funcref_def bind_eq_Some_conv split: if_splits)
  then show ?thesis
    by cases (auto dest!: keeps_rules intro: keeps_trans)
qed

lemma keeps_destroy_pwexec [keeps_rules]:
  assumes "destroy_pwexec dbg e st = Some st'"
  shows "keeps st st'"
proof -
  from assms obtain x c where "execs st e = Some x" "ctxs st (parent x) = Some c"
    by (auto simp: destroy_pwexec_def Let_def bind_eq_Some_conv split: if_splits)
  with assms show ?thesis
    by (cases "isolation c"; cases "e_store x") (auto simp: destroy_pwexec_def Let_def keeps_exec split: if_splits)
qed

lemma keeps_unlink [keeps_rules]:
  "unlink_root_ctx n st = Some st' \<Longrightarrow> keeps st st'"
  "unlink_ctx dbg d n st = Some st' \<Longrightarrow> keeps st st'"
  by (auto simp: unlink_root_ctx_def unlink_ctx_def bind_eq_Some_conv split: if_splits dest!: keeps_rules intro: keeps_trans)

lemma keeps_unlinks [keeps_rules]:
  "each unlink_root_ctx ns st = Some st' \<Longrightarrow> keeps st st'"
  "each (unlink_ctx dbg d) ns st = Some st' \<Longrightarrow> keeps st st'"
  by (erule keeps_frame.each_frame [rotated], erule keeps_unlink)+

lemma keeps_unlink_contexts [keeps_rules]: "unlink_contexts dbg d i st = Some st' \<Longrightarrow> keeps st st'"
  by (auto simp: unlink_contexts_def bind_eq_Some_conv dest!: keeps_rules intro: keeps_trans)

lemma keeps_invalidate [keeps_rules]: "ngx_proxy_wasm_instance_invalidate dbg i st = Some st' \<Longrightarrow> keeps st st'"
  by (auto simp: ngx_proxy_wasm_instance_invalidate_def bind_eq_Some_conv dest!: keeps_rules intro: keeps_trans)

lemma keeps_destroy [keeps_rules]: "ngx_proxy_wasm_instance_destroy dbg i st = Some st' \<Longrightarrow> keeps st st'"
  by (auto simp: ngx_proxy_wasm_instance_destroy_def bind_eq_Some_conv dest!: keeps_unlink_contexts)

lemma keeps_sweep_loop [keeps_rules]: "sweep_loop dbg s n st = Some st' \<Longrightarrow> keeps st st'"
proof (induction n arbitrary: st)
  case (Suc n)
  from Suc.prems obtain store where store: "stores st s = Some store" by (auto simp: bind_eq_Some_conv)
  show ?case
  proof (cases "sweep store")
    case (Cons i rest)
    with Suc.prems store show ?thesis
      by (auto simp: bind_eq_Some_conv dest!: keeps_rules Suc.IH intro: keeps_trans)
  qed (use Suc.prems store in simp)
qed (auto simp: bind_eq_Some_conv)

lemma keeps_sweep [keeps_rules]: "ngx_proxy_wasm_store_sweep dbg s st = Some st' \<Longrightarrow> keeps st st'"
  by (auto simp: ngx_proxy_wasm_store_sweep_def bind_eq_Some_conv intro: keeps_rules)

lemma keeps_get_busy [keeps_rules]: "get_busy dbg m xs p st = Some (r, st') \<Longrightarrow> keeps st st'"
proof (induction dbg m xs p st arbitrary: r rule: get_busy.induct)
  case (1 dbg m xs p st)
  from "1.prems" consider "st' = st"
    | inst s where "insts st (xs ! p) = Some inst" "p < length xs" "trapped inst" "ngx_proxy_wasm_instance_invalidate dbg (xs ! p) st = Some s"
        "get_busy dbg m (take p xs @ drop (Suc p) xs) (if p = length (take p xs @ drop (Suc p) xs) then 0 else Suc p) s = Some (r, st')"
    | inst where "insts st (xs ! p) = Some inst" "p < length xs" "\<not> trapped inst" "i_module inst \<noteq> m" "get_busy dbg m xs (Suc p) st = Some (r, st')"
    by (subst (asm) get_busy.simps) (auto simp: bind_eq_Some_conv Let_def split: if_splits)
  then show ?case
  proof cases
    case 2
    with "1.IH"(1) have "keeps s st'" by auto
    with 2 show ?thesis by (auto dest!: keeps_invalidate intro: keeps_trans)
  next
    case 3
    with "1.IH"(2) show ?thesis by auto
  qed simp
qed

lemma keeps_get_instance [keeps_rules]:
  assumes "get_instance dbg G f s st = Some (r, st')"
  shows "keeps st st'"
proof -
  from assms obtain flt m store found st1 where f: "filters st f = Some flt" "f_module flt = Some m" "stores st s = Some store"
      and b: "get_busy dbg (m_id m) (busy store) 0 st = Some (found, st1)"
    by (auto simp: get_instance_def bind_eq_Some_conv)
  have k: "keeps st st1" using b by (rule keeps_rules)
  show ?thesis
  proof (cases found)
    case (Some i) with assms f b k show ?thesis by (simp add: get_instance_def)
  next
    case None
    obtain ok st2 where a: "alloc G st1 = (ok, st2)" by fastforce
    obtain ok' w where g: "g_instantiate G (m_id m) (world st2) = (ok', w)" by fastforce
    have k2: "keeps st st2" using a k by (auto dest: keeps_rules intro: keeps_trans)
    have k3: "keeps st (st2\<lparr>world := w, insts := x, fresh := Suc (fresh st2)\<rparr>)" for x
      using k2 by (simp add: keeps_def)
    from assms f b None a g k2 show ?thesis
      by (auto simp: get_instance_def Let_def bind_eq_Some_conv split: if_splits dest!: keeps_upd_exec keeps_upd
          intro: keeps_trans [OF k3])
  qed
qed

lemma keeps_create_store [keeps_rules]:
  assumes "create_store dbg G f c cid inn st = Some (r, st')"
  shows "keeps st st'"
proof -
  from assms obtain flt inroot where f: "filters st f = Some flt" "in_is_root inn st = Some inroot"
    by (auto simp: create_store_def bind_eq_Some_conv)
  show ?thesis
  proof (cases "cid = ROOT_CTX_ID \<or> inroot")
    case True with assms f show ?thesis
      by (auto simp: create_store_def bind_eq_Some_conv intro: keeps_rules)
  next
    case False
    with assms f obtain cr ctx where c: "c = Some cr" "ctxs st cr = Some ctx"
      by (auto simp: create_store_def bind_eq_Some_conv)
    obtain ok st1 where a: "alloc G st = (ok, st1)" by fastforce
    have k: "keeps st st1" using a by (rule keeps_rules)
    have k1: "keeps st1 (st1\<lparr>stores := x, fresh := Suc (fresh st1)\<rparr>)" for x by (simp add: keeps_def)
    show ?thesis
      using assms False f c a k keeps_trans [OF k k1]
      by (cases "isolation ctx") (auto simp: create_store_def bind_eq_Some_conv split: if_splits)
  qed
qed

lemma keeps_create_instance [keeps_rules]:
  "create_instance dbg G f inn s st = Some (r, st') \<Longrightarrow> keeps st st'"
  by (auto simp: create_instance_def bind_eq_Some_conv split: option.splits if_splits dest: keeps_rules)

lemma keeps_create_root [keeps_rules]:
  assumes "create_root G f inn i st = Some (r, st')"
  shows "keeps st st'"
proof -
  from assms obtain flt inst where f: "filters st f = Some flt" "insts st i = Some inst"
    by (auto simp: create_root_def bind_eq_Some_conv)
  obtain ok st1 where a: "allocs G (if f_acl flt then 5 else 3) st = (ok, st1)" by fastforce
  have k: "keeps st st1" using a by (rule keeps_rules)
  have k1: "keeps st1 (st1\<lparr>execs := (execs st1)(fresh st1 \<mapsto> x), ctxs := (ctxs st1)(Suc (fresh st1) \<mapsto> y), fresh := Suc (Suc (fresh st1))\<rparr>)" for x y
    by (simp add: keeps_def)
  show ?thesis
  proof (cases "ngx_proxy_wasm_lookup_root_ctx inst (f_id flt)")
    case None
    with assms f obtain inroot where r: "in_is_root inn st = Some inroot" by (auto simp: create_root_def bind_eq_Some_conv)
    show ?thesis
      using assms f None r a k keeps_trans [OF k k1]
      by (cases inroot) (auto simp: create_root_def Let_def bind_eq_Some_conv split: if_splits dest: keeps_upd_exec keeps_upd)
  qed (use assms f in \<open>auto simp: create_root_def\<close>)
qed

lemma keeps_start_root [keeps_rules]:
  assumes "start_root dbg G f cid i e st = Some (r, st')"
  shows "keeps st st'"
proof -
  from assms obtain flt m x where f: "filters st f = Some flt" "f_module flt = Some m" "execs st e = Some x"
    by (auto simp: start_root_def bind_eq_Some_conv)
  show ?thesis
  proof (cases "started x")
    case False
    with assms f show ?thesis
      by (auto simp: start_root_def ngx_proxy_wasm_instance_update_def bind_eq_Some_conv split: if_splits
          dest!: keeps_rules) (meson keeps_trans)+
  qed (use assms f in \<open>simp add: start_root_def\<close>)
qed

text \<open>With a context passed in, no element is added to the chain.\<close>

lemma keeps_find_ctx:
  "find_ctx f c cid (Some e) i st = Some (r, st') \<Longrightarrow> keeps st st'"
  by (auto simp: find_ctx_def bind_eq_Some_conv split: option.splits dest: keeps_upd_exec keeps_upd)

lemma keeps_start_ctx:
  assumes "start_ctx dbg G f c cid (Some e0) i st = Some (r, st')"
  shows "keeps st st'"
proof -
  from assms obtain flt e known st1 x where f: "filters st f = Some flt"
      "find_ctx f c cid (Some e0) i st = Some ((e, known), st1)" "execs st1 e = Some x"
    by (auto simp: start_ctx_def bind_eq_Some_conv)
  have k: "keeps st st1" using f by (auto dest: keeps_find_ctx)
  obtain ok st2 where a: "(if known \<or> has_log x then (True, st1) else alloc G st1) = (ok, st2)" by fastforce
  have k2: "keeps st st2" using a k by (auto split: if_splits dest: keeps_rules intro: keeps_trans)
  with assms f a show ?thesis
    by (auto simp: start_ctx_def Let_def ngx_proxy_wasm_instance_update_def bind_eq_Some_conv 
        split: if_splits dest!: keeps_upd_exec keeps_upd keeps_call) (meson keeps_trans)+
qed

text \<open>Creating a context for one that exists, as \<open>ngx_proxy_wasm_run_step\<close> does.\<close>

lemma keeps_create_context:
  assumes "ngx_proxy_wasm_create_context dbg G f c cid (Some e) st = Some (r, st')"
  shows "keeps st st'"
proof -
  from assms obtain s st1 where 1: "create_store dbg G f c cid (Some e) st = Some (s, st1)"
    by (auto simp: ngx_proxy_wasm_create_context_def bind_eq_Some_conv)
  show ?thesis
  proof (cases s)
    case (Inl err) with assms 1 show ?thesis
      by (auto simp: ngx_proxy_wasm_create_context_def filter_failed_def bind_eq_Some_conv dest!: keeps_rules intro: keeps_trans)
  next
    case (Inr s')
    with assms 1 obtain i st2 where 2: "create_instance dbg G f (Some e) s' st1 = Some (i, st2)"
      by (auto simp: ngx_proxy_wasm_create_context_def bind_eq_Some_conv)
    show ?thesis
    proof (cases i)
      case (Inl err) with assms 1 2 Inr show ?thesis
        by (auto simp: ngx_proxy_wasm_create_context_def filter_failed_def bind_eq_Some_conv dest!: keeps_rules intro: keeps_trans)
    next
      case (Inr i')
      with assms 1 2 \<open>s = Inr s'\<close> obtain rt st3 where 3: "create_root G f (Some e) i' st2 = Some (rt, st3)"
        by (auto simp: ngx_proxy_wasm_create_context_def bind_eq_Some_conv)
      show ?thesis
      proof (cases rt)
        case (Inl err) with assms 1 2 3 Inr \<open>s = Inr s'\<close> show ?thesis
          by (auto simp: ngx_proxy_wasm_create_context_def filter_failed_def bind_eq_Some_conv dest!: keeps_rules intro: keeps_trans)
      next
        case (Inr rt')
        with assms 1 2 3 \<open>s = Inr s'\<close> \<open>i = Inr i'\<close> obtain u st4 where 4: "start_root dbg G f cid i' rt' st3 = Some (u, st4)"
          by (auto simp: ngx_proxy_wasm_create_context_def bind_eq_Some_conv)
        have k: "keeps st st4" using 1 2 3 4 by (meson keeps_rules keeps_trans)
        from assms 1 2 3 4 k Inr \<open>s = Inr s'\<close> \<open>i = Inr i'\<close> show ?thesis
          by (cases u) (auto simp: ngx_proxy_wasm_create_context_def filter_failed_def bind_eq_Some_conv
              split: if_splits dest!: keeps_upd_exec keeps_upd keeps_start_ctx intro: keeps_trans)
      qed
    qed
  qed
qed

lemma keeps_call_headers [keeps_rules]: "call_headers dbg G h e n st = Some (r, st') \<Longrightarrow> keeps st st'"
  by (auto simp: call_headers_def bind_eq_Some_conv dest: keeps_rules)

lemma keeps_http_handlers [keeps_rules]:
  "ngx_http_proxy_wasm_on_request_headers dbg G e st = Some (r, st') \<Longrightarrow> keeps st st'"
  "ngx_http_proxy_wasm_on_request_body dbg G e st = Some (r, st') \<Longrightarrow> keeps st st'"
  "ngx_http_proxy_wasm_on_response_headers dbg G e st = Some (r, st') \<Longrightarrow> keeps st st'"
  "ngx_http_proxy_wasm_on_response_trailers dbg G e st = Some (r, st') \<Longrightarrow> keeps st st'"
  "ngx_http_proxy_wasm_on_dispatch_response dbg G e st = Some (q, st') \<Longrightarrow> keeps st st'"
  "ngx_http_proxy_wasm_on_foreign_function dbg G e st = Some (q, st') \<Longrightarrow> keeps st st'"
  "ngx_http_proxy_wasm_on_upstream_select dbg G e st = Some (q, st') \<Longrightarrow> keeps st st'"
  by (auto simp: ngx_http_proxy_wasm_on_request_headers_def ngx_http_proxy_wasm_on_request_body_def
      ngx_http_proxy_wasm_on_response_headers_def ngx_http_proxy_wasm_on_response_trailers_def
      ngx_http_proxy_wasm_on_dispatch_response_def ngx_http_proxy_wasm_on_foreign_function_def
      ngx_http_proxy_wasm_on_upstream_select_def ngx_wasm_continue_def
      bind_eq_Some_conv split: option.splits dest!: keeps_rules intro: keeps_trans)

lemma keeps_response_body [keeps_rules]:
  "ngx_http_proxy_wasm_on_response_body dbg G e st = Some (r, st') \<Longrightarrow> keeps st st'"
  by (auto simp: ngx_http_proxy_wasm_on_response_body_def bind_eq_Some_conv Let_def split: if_splits
      dest!: keeps_rules intro: keeps_trans)

lemma keeps_call_upstream [keeps_rules]: "call_upstream dbg G h e args st = Some (q, st') \<Longrightarrow> keeps st st'"
  by (auto simp: call_upstream_def bind_eq_Some_conv split: option.splits dest!: keeps_rules)

lemma keeps_http_resume [keeps_rules]:
  "ngx_http_proxy_wasm_resume dbg G e stp st = Some (r, st') \<Longrightarrow> keeps st st'"
  by (cases stp)
    (auto simp: ngx_http_proxy_wasm_resume_def http_step_def without_action_def ngx_http_proxy_wasm_on_next_upstream_def
      ngx_http_proxy_wasm_on_upstream_info_def bind_eq_Some_conv split: if_splits dest!: keeps_rules)

lemma keeps_on_steps [keeps_rules]:
  "ngx_proxy_wasm_on_log dbg G e st = Some st' \<Longrightarrow> keeps st st'"
  "ngx_proxy_wasm_on_done dbg G e st = Some st' \<Longrightarrow> keeps st st'"
  "ngx_proxy_wasm_on_tick dbg G e st = Some (q, st') \<Longrightarrow> keeps st st'"
  by (auto simp: ngx_proxy_wasm_on_log_def ngx_proxy_wasm_on_done_def ngx_proxy_wasm_on_tick_def
      bind_eq_Some_conv split: if_splits dest!: keeps_rules intro: keeps_trans)

lemma keeps_rexec [keeps_rules]: "upd_ctx d (\<lambda>y. y\<lparr>rexec := v\<rparr>) st = Some st' \<Longrightarrow> keeps st st'"
  by (erule keeps_upd_ctx) (simp add: ctl_def)

lemma keeps_step_tick: "step_call dbg G c e STEP_TICK st = Some (r, st') \<Longrightarrow> keeps st st'"
  by (auto simp: step_call_def bind_eq_Some_conv split: if_splits dest!: keeps_rules) (meson keeps_trans)

lemma keeps_step_call [keeps_rules]: "step_call dbg G c e stp st = Some (r, st') \<Longrightarrow> keeps st st'"
  by (cases stp) (auto simp: step_call_def keeps_step_tick dest!: keeps_rules dest: keeps_step_tick)

lemma keeps_step_result [keeps_rules]: "step_result dbg c e old rc act st = Some (err, st') \<Longrightarrow> keeps st st'"
  by (auto simp: step_result_def bind_eq_Some_conv split: if_splits dest!: keeps_rules intro: keeps_trans)

lemma keeps_ctxD:
  "keeps st st' \<Longrightarrow> c < fresh st \<Longrightarrow> ctxs st c = Some ctx \<Longrightarrow> \<exists>ctx'. ctxs st' c = Some ctx' \<and> ctl ctx' = ctl ctx"
  by (auto simp: keeps_def)

lemma ctl_fields:
  "ctl ctx' = ctl ctx \<Longrightarrow> nfilters ctx' = nfilters ctx \<and> pwexecs ctx' = pwexecs ctx \<and> isolation ctx' = isolation ctx
     \<and> phase ctx' = phase ctx \<and> step ctx' = step ctx \<and> last_completed_step ctx' = last_completed_step ctx
     \<and> exec_index ctx' = exec_index ctx"
  by (cases ctx; cases ctx') (simp add: ctl_def)

text \<open>The context of the filter is in the step that is run.\<close>

lemma keeps_run_in_instance:
  assumes "run_in_instance dbg G c f old stp e st = Some (err, st')"
    and "\<And>ctx. ctxs st c = Some ctx \<Longrightarrow> step ctx = Some stp"
  shows "keeps st st'"
proof -
  have "keeps st s" if "upd_ctx c (\<lambda>y. y\<lparr>step := Some stp\<rparr>) st = Some s" for s
    using that by (rule keeps_upd_ctx) (use assms(2) in \<open>auto simp: ctl_def\<close>)
  with assms(1) show ?thesis
    by (auto simp: run_in_instance_def ngx_proxy_wasm_instance_update_def bind_eq_Some_conv split: if_splits
        dest!: keeps_rules) (meson keeps_trans)
qed

lemma keeps_run_step:
  assumes run: "ngx_proxy_wasm_run_step dbg G e0 stp st = Some (err, st')"
    and x: "execs st e0 = Some x" and c: "ctxs st (parent x) = Some ctx" "step ctx = Some stp" "parent x < fresh st"
  shows "keeps st st'"
proof -
  from run x c obtain gone where g: "no_instance e0 st = Some gone" and p: "ngx_wa_assert dbg (phase ctx \<noteq> None)"
    by (auto simp: ngx_proxy_wasm_run_step_def bind_eq_Some_conv split: if_splits)
  show ?thesis
  proof (cases gone)
    case False
    with run x c g p have "run_in_instance dbg G (parent x) (e_filter x) (action ctx) stp e0 st = Some (err, st')"
      by (simp add: ngx_proxy_wasm_run_step_def)
    then show ?thesis by (rule keeps_run_in_instance) (use c in simp)
  next
    case True
    with run x c g p obtain err1 out st1 where 1:
        "ngx_proxy_wasm_create_context dbg G (e_filter x) (Some (parent x)) (exec_id x) (Some e0) st = Some ((err1, out), st1)"
        and 2: "st' = st1 \<or> (\<exists>e. run_in_instance dbg G (parent x) (e_filter x) (action ctx) stp e st1 = Some (err, st'))"
      by (fastforce simp: ngx_proxy_wasm_run_step_def bind_eq_Some_conv split: if_splits)
    have k1: "keeps st st1" using 1 by (rule keeps_create_context)
    have "step ctx1 = Some stp" if "ctxs st1 (parent x) = Some ctx1" for ctx1
      using keeps_ctxD [OF k1 c(3) c(1)] c(2) that by (auto dest: ctl_fields)
    with 2 k1 show ?thesis by (auto dest!: keeps_run_in_instance intro: keeps_trans)
  qed
qed

end
