(* ===== verification/Proxy_Wasm_Control.thy ===== *)
theory Proxy_Wasm_Control
  imports Proxy_Wasm_Frame
begin

text \<open>
  Properties of the filter chain: what each return code of \<open>ngx_proxy_wasm_resume\<close> says about the
  chain, for any guest code.
\<close>

section \<open>Contexts of a chain\<close>

text \<open>A stream context whose filters know it as their parent.\<close>

definition chain_of :: "ref \<Rightarrow> 'g pw \<Rightarrow> pwctx \<Rightarrow> bool" where
  "chain_of c st ctx \<longleftrightarrow> c < fresh st \<and> ctxs st c = Some ctx \<and>
     (\<forall>e \<in> set (pwexecs ctx). e < fresh st \<and> (\<forall>x. execs st e = Some x \<longrightarrow> parent x = c))"

lemma chain_of_keeps:
  assumes "chain_of c st ctx" "keeps st st'"
  shows "\<exists>ctx'. chain_of c st' ctx' \<and> ctl ctx' = ctl ctx"
proof -
  from assms obtain ctx' where c': "ctxs st' c = Some ctx'" "ctl ctx' = ctl ctx"
    unfolding chain_of_def by (blast dest: keeps_ctxD)
  have "e < fresh st' \<and> (\<forall>x. execs st' e = Some x \<longrightarrow> parent x = c)" if "e \<in> set (pwexecs ctx')" for e
  proof -
    have e: "e \<in> set (pwexecs ctx)" using that ctl_fields [OF c'(2)] by simp
    then have "e < fresh st" using assms(1) by (simp add: chain_of_def)
    with assms(2) have "e < fresh st'" "map_option parent (execs st' e) = map_option parent (execs st e)"
      by (auto simp: keeps_def)
    with e assms(1) show ?thesis by (cases "execs st e") (auto simp: chain_of_def)
  qed
  with c' assms show ?thesis by (auto simp: chain_of_def keeps_def)
qed

lemma chain_of_upd:
  assumes "chain_of c st ctx" "upd_ctx c f st = Some st'" "pwexecs (f ctx) = pwexecs ctx"
  shows "chain_of c st' (f ctx)"
  using assms by (auto simp: chain_of_def upd_ctx_def)

lemma chain_of_exec:
  assumes "chain_of c st ctx" "e \<in> set (pwexecs ctx)" "upd_exec e f st = Some st'" "\<And>x. parent (f x) = parent x"
  shows "chain_of c st' ctx"
  using assms by (auto simp: chain_of_def upd_exec_def bind_eq_Some_conv split: if_splits)

section \<open>The next action as a return code\<close>

lemma keeps_prev_error [keeps_rules]: "prev_error dbg c e st = Some (rc, st') \<Longrightarrow> keeps st st'"
  by (auto simp: prev_error_def bind_eq_Some_conv split: if_splits dest!: keeps_rules)

lemma keeps_unknown_error [keeps_rules]: "unknown_error e st = Some (rc, st') \<Longrightarrow> keeps st st'"
  by (auto simp: unknown_error_def bind_eq_Some_conv dest!: keeps_rules)

lemma keeps_pause2rc [keeps_rules]:
  assumes "pause2rc c e st = Some (rc, st')"
  shows "keeps st st'"
proof -
  from assms obtain x ctx ph where "execs st e = Some x" "ctxs st c = Some ctx" "phase ctx = Some ph"
    by (auto simp: pause2rc_def bind_eq_Some_conv)
  with assms show ?thesis
    by (cases ph) (auto simp: pause2rc_def bind_eq_Some_conv split: if_splits dest!: keeps_rules intro: keeps_trans)
qed

text \<open>Pausing does not touch the next action.\<close>

lemma pause2rc_spec:
  assumes "pause2rc c e st = Some (rc, st')" and "ctxs st c = Some ctx"
  shows "rc \<in> {NGX_AGAIN, NGX_ERROR} \<and> (\<exists>ctx'. ctxs st' c = Some ctx' \<and> action ctx' = action ctx)"
proof -
  from assms obtain x ph where "execs st e = Some x" "phase ctx = Some ph"
    by (auto simp: pause2rc_def bind_eq_Some_conv)
  with assms show ?thesis
    by (cases ph) (auto simp: pause2rc_def bind_eq_Some_conv upd_rctx_def upd_ctx_def upd_exec_def unknown_error_def
        split: if_splits)
qed

definition failure :: "ngx_rc \<Rightarrow> bool" where
  "failure rc \<longleftrightarrow> rc = NGX_ERROR \<or> rc = NGX_HTTP 500"

lemma failure_simps [simp]:
  "failure NGX_ERROR" "failure (NGX_HTTP 500)" "\<not> failure NGX_OK" "\<not> failure NGX_AGAIN" "\<not> failure NGX_DONE"
  "failure (ngx_http_proxy_wasm_ecode err)"
  by (simp_all add: failure_def ngx_http_proxy_wasm_ecode_def)

text \<open>The filter that the chain would run next has failed.\<close>

definition failed_at :: "ref \<Rightarrow> 'g pw \<Rightarrow> bool" where
  "failed_at c st \<longleftrightarrow> (\<exists>ctx x. ctxs st c = Some ctx \<and> exec_index ctx < length (pwexecs ctx) \<and>
     length (pwexecs ctx) = nfilters ctx \<and> execs st (pwexecs ctx ! exec_index ctx) = Some x \<and> ecode x \<noteq> ERR_NONE)"

lemma failed_atI:
  "ctxs st c = Some ctx \<Longrightarrow> exec_index ctx < length (pwexecs ctx) \<Longrightarrow> length (pwexecs ctx) = nfilters ctx \<Longrightarrow> e = pwexecs ctx ! exec_index ctx \<Longrightarrow>
   execs st e = Some x \<Longrightarrow> ecode x \<noteq> ERR_NONE \<Longrightarrow> failed_at c st"
  by (auto simp: failed_at_def)

lemma unknown_error_spec:
  "unknown_error e st = Some (rc, st') \<Longrightarrow> rc = NGX_ERROR \<and> ctxs st' = ctxs st \<and> (\<exists>x. execs st' e = Some x \<and> ecode x \<noteq> ERR_NONE)"
  by (auto simp: unknown_error_def upd_exec_def bind_eq_Some_conv)

lemma pause2rc_fail:
  assumes "pause2rc c e st = Some (NGX_ERROR, st')" and "ctxs st c = Some ctx" and "length (pwexecs ctx) = nfilters ctx"
  shows "failed_at c st'"
proof -
  from assms obtain x ph where "execs st e = Some x" "phase ctx = Some ph"
    by (auto simp: pause2rc_def bind_eq_Some_conv)
  with assms obtain st1 where i: "exec_index ctx < length (pwexecs ctx)"
      and st1: "upd_exec (pwexecs ctx ! exec_index ctx) (\<lambda>y. y\<lparr>ecode := ERR_RETURN_ACTION\<rparr>) st = Some st1"
        "unknown_error (pwexecs ctx ! exec_index ctx) st1 = Some (NGX_ERROR, st')"
    by (cases ph) (auto simp: pause2rc_def bind_eq_Some_conv split: if_splits)
  moreover from st1(1) assms(2) have "ctxs st1 c = Some ctx" by (auto simp: upd_exec_def bind_eq_Some_conv)
  ultimately show ?thesis using unknown_error_spec [OF st1(2)] assms(3) by (auto simp: failed_at_def)
qed

lemma action2rc_cases:
  assumes "action2rc dbg c e st = Some (rc, st')" and "ctxs st c = Some ctx" and "step ctx \<noteq> Some STEP_DONE"
    and "length (pwexecs ctx) = nfilters ctx"
  obtains (ok) "rc = NGX_OK" "st' = st" "action ctx = ACTION_CONTINUE"
    | (again) "rc = NGX_AGAIN" "keeps st st'" "action ctx = ACTION_PAUSE"
        "\<exists>ctx'. ctxs st' c = Some ctx' \<and> action ctx' = ACTION_PAUSE"
    | (finished) "rc = NGX_DONE" "keeps st st'" "action ctx = ACTION_DONE"
        "\<exists>ctx'. ctxs st' c = Some ctx' \<and> action ctx' = ACTION_CONTINUE"
    | (fail) "failure rc" "keeps st st'" "\<exists>x. execs st' e = Some x \<and> ecode x \<noteq> ERR_NONE"
        "(\<exists>x. execs st e = Some x \<and> ecode x \<noteq> ERR_NONE) \<or> action ctx \<notin> {ACTION_CONTINUE, ACTION_DONE, ACTION_PAUSE}"
    | (bad) "failure rc" "keeps st st'" "action ctx = ACTION_PAUSE" "failed_at c st'"
proof -
  from assms obtain x where x: "execs st e = Some x" "ngx_wa_assert dbg (root_id x \<noteq> ROOT_CTX_ID)"
    by (auto simp: action2rc_def bind_eq_Some_conv split: if_splits)
  show thesis
  proof (cases "ecode x = ERR_NONE")
    case False
    with assms x have p: "prev_error dbg c e st = Some (rc, st')" by (simp add: action2rc_def)
    then have "failure rc" "\<exists>y. execs st' e = Some y \<and> ecode y \<noteq> ERR_NONE"
      using False x by (auto simp: prev_error_def upd_exec_def bind_eq_Some_conv split: if_splits)
    with p x False show thesis by (blast intro: fail keeps_rules)
  next
    case True
    have unk: thesis if "unknown_error e st = Some (rc, st')" "action ctx \<notin> {ACTION_CONTINUE, ACTION_DONE, ACTION_PAUSE}"
      using that unknown_error_spec [OF that(1)] keeps_unknown_error [OF that(1)] by (auto intro: fail)
    show thesis
    proof (cases "action ctx")
      case ACTION_PAUSE
      with assms x True have p: "pause2rc c e st = Some (rc, st')" by (simp add: action2rc_def)
      with ACTION_PAUSE pause2rc_spec [OF p assms(2)] keeps_pause2rc [OF p] show thesis
        by (auto intro: again bad dest: pause2rc_fail [OF _ assms(2,4)])
    next
      case ACTION_DONE
      with assms x True have p: "ngx_proxy_wasm_ctx_set_next_action dbg c ACTION_CONTINUE st = Some st'" "rc = NGX_DONE"
        by (auto simp: action2rc_def bind_eq_Some_conv)
      with assms(2) ACTION_DONE keeps_set_next_action [OF p(1)] show thesis
        by (intro finished) (auto simp: ngx_proxy_wasm_ctx_set_next_action_def upd_ctx_def dest: keeps_rules split: if_splits)
    qed (use assms x True in \<open>auto simp: action2rc_def intro: ok unk\<close>)
  qed
qed

section \<open>One filter of the chain\<close>

lemma run_step_ecode:
  "ngx_proxy_wasm_run_step dbg G e stp st = Some (err, st1) \<Longrightarrow> upd_exec e (\<lambda>x. x\<lparr>ecode := err\<rparr>) st1 = Some st2 \<Longrightarrow>
   \<exists>x. execs st2 e = Some x \<and> ecode x = err"
  by (auto simp: upd_exec_def bind_eq_Some_conv)

lemma filter_begin_cases:
  assumes fb: "filter_begin dbg G c stp e st = Some (r, st')"
    and chain: "chain_of c st ctx" "e \<in> set (pwexecs ctx)" and stp: "step ctx = Some stp" "stp \<noteq> STEP_DONE"
    and n: "length (pwexecs ctx) = nfilters ctx"
  obtains (run) st1 where "r = Inr ()" "action ctx = ACTION_CONTINUE" "keeps st st'"
        "ngx_proxy_wasm_run_step dbg G e stp st = Some (ERR_NONE, st1)" "upd_exec e (\<lambda>x. x\<lparr>ecode := ERR_NONE\<rparr>) st1 = Some st'"
    | (again) "r = Inl NGX_AGAIN" "action ctx = ACTION_PAUSE" "keeps st st'"
        "\<exists>ctx'. ctxs st' c = Some ctx' \<and> action ctx' = ACTION_PAUSE"
    | (finished) "r = Inl NGX_DONE" "action ctx = ACTION_DONE" "keeps st st'"
        "\<exists>ctx'. ctxs st' c = Some ctx' \<and> action ctx' = ACTION_CONTINUE"
    | (fail) rc where "r = Inl rc" "failure rc" "keeps st st'" "\<exists>x. execs st' e = Some x \<and> ecode x \<noteq> ERR_NONE"
    | (bad) rc where "r = Inl rc" "failure rc" "keeps st st'" "failed_at c st'"
proof -
  have c: "ctxs st c = Some ctx" "step ctx \<noteq> Some STEP_DONE" using chain stp by (auto simp: chain_of_def)
  from fb obtain rc st1 where a: "action2rc dbg c e st = Some (rc, st1)"
    by (auto simp: filter_begin_def bind_eq_Some_conv)
  show thesis
    using a c n
  proof (cases rule: action2rc_cases)
    case ok
    with fb a stp obtain err st2 where r: "ngx_proxy_wasm_run_step dbg G e stp st = Some (err, st2)"
        "upd_exec e (\<lambda>x. x\<lparr>ecode := err\<rparr>) st2 = Some st'"
        "r = (if err \<noteq> ERR_NONE then Inl (ngx_http_proxy_wasm_ecode err) else Inr ())"
      by (auto simp: filter_begin_def bind_eq_Some_conv split: if_splits)
    from r(2) obtain y where "execs st2 e = Some y" by (auto simp: upd_exec_def bind_eq_Some_conv)
    from r(1) obtain x where x: "execs st e = Some x" by (auto simp: ngx_proxy_wasm_run_step_def bind_eq_Some_conv)
    then have p: "parent x = c" using chain by (auto simp: chain_of_def)
    have k: "keeps st st2"
      using keeps_run_step [OF r(1) x] p chain(1) stp(1) by (auto simp: chain_of_def)
    moreover have "keeps st2 st'" using r(2) by (rule keeps_upd_exec) simp
    ultimately have k: "keeps st st'" by (rule keeps_trans)
    show thesis
      using r k ok(3) run_step_ecode [OF r(1,2)] by (cases "err = ERR_NONE") (auto intro: run fail)
  qed (use fb a in \<open>auto simp: filter_begin_def split: if_splits intro: again finished fail bad\<close>)
qed

text \<open>
  The context after a filter: the index moves to the next filter; behind the last one the step
  is completed and the index returns to the first.
\<close>

definition next_filter :: "pwctx \<Rightarrow> pwctx" where
  "next_filter ctx = (if nfilters ctx \<le> Suc (exec_index ctx) then ctx\<lparr>last_completed_step := step ctx, exec_index := 0\<rparr>
     else ctx\<lparr>exec_index := Suc (exec_index ctx)\<rparr>)"

definition paused_at :: "pw_step \<Rightarrow> pwctx \<Rightarrow> pwctx" where
  "paused_at stp ctx = (if stp = STEP_RESP_BODY then ctx else next_filter ctx)"

lemma chain_of_set: "chain_of c st ctx \<Longrightarrow> pwexecs ctx' = pwexecs ctx \<Longrightarrow> chain_of c (st\<lparr>ctxs := (ctxs st)(c \<mapsto> ctx')\<rparr>) ctx'"
  by (simp add: chain_of_def)

lemma ctl_cong:
  "ctl a = ctl b \<Longrightarrow> ctl (a\<lparr>last_completed_step := v, exec_index := n\<rparr>) = ctl (b\<lparr>last_completed_step := v, exec_index := n\<rparr>)"
  by (cases a; cases b) (simp add: ctl_def)

lemma filter_end_cases:
  assumes fe: "filter_end dbg c stp e st = Some (r, st')" and chain: "chain_of c st ctx"
    and e: "e = pwexecs ctx ! exec_index ctx" "exec_index ctx < length (pwexecs ctx)" "length (pwexecs ctx) = nfilters ctx"
      "execs st e = Some x" "ecode x = ERR_NONE"
    and stp: "step ctx = Some stp" "stp \<noteq> STEP_DONE"
  obtains (ok) "r = Inr NGX_OK" "action ctx = ACTION_CONTINUE" "st' = st\<lparr>ctxs := (ctxs st)(c \<mapsto> next_filter ctx)\<rparr>"
    | (again) ctx' where "r = Inr NGX_AGAIN" "action ctx = ACTION_PAUSE" "chain_of c st' ctx'" "action ctx' = ACTION_PAUSE"
        "ctl ctx' = ctl (paused_at stp ctx)"
    | (finished) ctx' where "r = Inl NGX_DONE" "action ctx = ACTION_DONE" "chain_of c st' ctx'" "action ctx' = ACTION_CONTINUE"
        "ctl ctx' = ctl (ctx\<lparr>exec_index := Suc (exec_index ctx)\<rparr>)"
    | (fail) rc where "r = Inl rc" "failure rc" "failed_at c st'"
proof -
  let ?a = "advance stp ctx"
  let ?st1 = "st\<lparr>ctxs := (ctxs st)(c \<mapsto> ?a)\<rparr>"
  have adv: "pwexecs ?a = pwexecs ctx" "step ?a = Some stp" "action ?a = action ctx" "nfilters ?a = nfilters ctx"
    using stp by (auto simp: advance_def split: pw_action.splits)
  have c1: "chain_of c ?st1 ?a" using chain_of_set [OF chain adv(1)] .
  from chain have "upd_ctx c (advance stp) st = Some ?st1" by (simp add: chain_of_def upd_ctx_def)
  with fe obtain rc st2 where a: "action2rc dbg c e ?st1 = Some (rc, st2)"
      and rest: "(if rc \<noteq> NGX_OK \<and> rc \<noteq> NGX_AGAIN then Some (Inl rc, st2)
         else do { ctx \<leftarrow> ctxs st2 c;
           if \<not> ngx_wa_assert dbg (exec_index ctx \<le> nfilters ctx) then None
           else do {
             st3 \<leftarrow> (if nfilters ctx \<le> exec_index ctx
                    then upd_ctx c (\<lambda>x. x\<lparr>last_completed_step := step x, exec_index := 0\<rparr>) st2 else Some st2);
             Some (Inr rc, st3) } }) = Some (r, st')"
    by (auto simp: filter_end_def bind_eq_Some_conv)
  have p: "ctxs ?st1 c = Some ?a" "step ?a \<noteq> Some STEP_DONE" "length (pwexecs ?a) = nfilters ?a" using adv stp e by auto
  show thesis
    using a p
  proof (cases rule: action2rc_cases)
    case ok
    then have adv1: "?a = ctx\<lparr>exec_index := Suc (exec_index ctx)\<rparr>" using adv by (simp add: advance_def)
    have "st' = st\<lparr>ctxs := (ctxs st)(c \<mapsto> next_filter ctx)\<rparr>" "r = Inr NGX_OK"
      using rest e unfolding ok(1,2) adv1 by (auto simp: next_filter_def upd_ctx_def split: if_splits)
    with ok adv show thesis by (intro that(1)) auto
  next
    case again
    from chain_of_keeps [OF c1 again(2)] again(4) obtain a' where a': "chain_of c st2 a'" "ctl a' = ctl ?a" "action a' = ACTION_PAUSE"
      by (auto simp: chain_of_def)
    show thesis
    proof (cases "nfilters a' \<le> exec_index a'")
      case True
      with rest again a' have r: "st' = st2\<lparr>ctxs := (ctxs st2)(c \<mapsto> a'\<lparr>last_completed_step := step a', exec_index := 0\<rparr>)\<rparr>" "r = Inr NGX_AGAIN"
        by (auto simp: chain_of_def upd_ctx_def split: if_splits)
      have "stp \<noteq> STEP_RESP_BODY" "nfilters ctx \<le> Suc (exec_index ctx)"
        using True ctl_fields [OF a'(2)] again(3) adv e by (auto simp: advance_def split: if_splits)
      with again(3) adv a'(2) ctl_fields [OF a'(2)] have "ctl (a'\<lparr>last_completed_step := step a', exec_index := 0\<rparr>) = ctl (paused_at stp ctx)"
        by (simp add: paused_at_def next_filter_def stp advance_def ctl_cong [OF a'(2)])
      moreover have "chain_of c st' (a'\<lparr>last_completed_step := step a', exec_index := 0\<rparr>)"
        unfolding r(1) by (rule chain_of_set [OF a'(1)]) simp
      moreover have "action ctx = ACTION_PAUSE" using again(3) adv by simp
      ultimately show thesis using r(2) a'(3)
        by (intro that(2) [of "a'\<lparr>last_completed_step := step a', exec_index := 0\<rparr>"]) auto
    next
      case False
      with rest again a' have "st' = st2" "r = Inr NGX_AGAIN" by (auto simp: chain_of_def split: if_splits)
      moreover have "?a = paused_at stp ctx"
      proof -
        have "?a = (if stp \<noteq> STEP_RESP_BODY then ctx\<lparr>exec_index := Suc (exec_index ctx)\<rparr> else ctx)"
          using again(3) unfolding adv(3) by (simp add: advance_def)
        moreover have "\<not> nfilters ctx \<le> exec_index ?a" using False ctl_fields [OF a'(2)] adv(4) by simp
        ultimately show ?thesis by (auto simp: paused_at_def next_filter_def)
      qed
      ultimately show thesis using a' again(3) adv(3) by (intro that(2) [of a']) auto
    qed
  next
    case finished
    from chain_of_keeps [OF c1 finished(2)] finished(4) obtain a' where a': "chain_of c st2 a'" "ctl a' = ctl ?a" "action a' = ACTION_CONTINUE"
      by (auto simp: chain_of_def)
    with finished rest adv show thesis by (intro that(3) [of a']) (auto simp: advance_def)
  next
    case fail
    have "?a = ctx" using fail(4) e adv by (auto simp: advance_def split: pw_action.splits)
    with chain_of_keeps [OF c1 fail(2)] obtain a' where a': "chain_of c st2 a'" "ctl a' = ctl ctx" by auto
    from fail(3) obtain y where "execs st2 e = Some y" "ecode y \<noteq> ERR_NONE" by blast
    with a' e ctl_fields [OF a'(2)] have "failed_at c st2" by (intro failed_atI [of st2 c a' e y]) (auto simp: chain_of_def)
    with fail(1) rest show thesis by (intro that(4) [of rc]) (auto split: if_splits)
  next
    case bad
    with rest show thesis by (intro that(4) [of rc]) (auto split: if_splits)
  qed
qed

section \<open>The chain\<close>

text \<open>
  \<open>ran es st st'\<close>: the filters \<open>es\<close> ran the step, in this order, each once; each succeeded and left
  the action \<open>CONTINUE\<close>.
\<close>

inductive ran :: "bool \<Rightarrow> 'g guest \<Rightarrow> ref \<Rightarrow> pw_step \<Rightarrow> ref list \<Rightarrow> 'g pw \<Rightarrow> 'g pw \<Rightarrow> bool" for dbg G c stp where
  ran_Nil: "ran dbg G c stp [] st st"
| ran_Cons: "ngx_proxy_wasm_run_step dbg G e stp st = Some (ERR_NONE, st1) \<Longrightarrow>
    upd_exec e (\<lambda>x. x\<lparr>ecode := ERR_NONE\<rparr>) st1 = Some st2 \<Longrightarrow> ctxs st2 c = Some ctx \<Longrightarrow> action ctx = ACTION_CONTINUE \<Longrightarrow>
    ran dbg G c stp es (st2\<lparr>ctxs := (ctxs st2)(c \<mapsto> next_filter ctx)\<rparr>) st' \<Longrightarrow> ran dbg G c stp (e # es) st st'"

text \<open>A chain in the step \<open>stp\<close> whose next filter is the one at \<open>j\<close>; all filters have run it for \<open>j = nfilters\<close>.\<close>

definition at_filter :: "pw_step \<Rightarrow> pwctx \<Rightarrow> nat \<Rightarrow> pwctx \<Rightarrow> bool" where
  "at_filter stp ctx0 j ctx \<longleftrightarrow> pwexecs ctx = pwexecs ctx0 \<and> nfilters ctx = nfilters ctx0 \<and> step ctx = Some stp \<and>
     exec_index ctx = (if j = nfilters ctx0 then 0 else j) \<and>
     last_completed_step ctx = (if j = nfilters ctx0 then Some stp else last_completed_step ctx0)"

lemma at_filter_next:
  "at_filter stp ctx0 j ctx \<Longrightarrow> ctl ctx' = ctl ctx \<Longrightarrow> j < nfilters ctx0 \<Longrightarrow> at_filter stp ctx0 (Suc j) (next_filter ctx')"
  by (auto simp: at_filter_def next_filter_def dest!: ctl_fields)

lemma at_filter_ctl: "at_filter stp ctx0 j ctx \<Longrightarrow> ctl ctx' = ctl ctx \<Longrightarrow> at_filter stp ctx0 j ctx'"
  by (auto simp: at_filter_def dest!: ctl_fields)

text \<open>What a return code of the loop says, when \<open>m\<close> filters from \<open>k\<close> on continued.\<close>

definition chain_ends :: "ref \<Rightarrow> pw_step \<Rightarrow> pwctx \<Rightarrow> nat \<Rightarrow> nat \<Rightarrow> ngx_rc \<Rightarrow> 'g pw \<Rightarrow> bool" where
  "chain_ends c stp ctx k m rc st' \<longleftrightarrow>
     rc = NGX_OK \<and> k + m = nfilters ctx \<and> (\<exists>ctx'. chain_of c st' ctx' \<and> action ctx' = ACTION_CONTINUE \<and> at_filter stp ctx (nfilters ctx) ctx')
   \<or> rc = NGX_AGAIN \<and> (\<exists>ctx'. chain_of c st' ctx' \<and> action ctx' = ACTION_PAUSE \<and>
        (m = 0 \<and> action ctx = ACTION_PAUSE \<and> at_filter stp ctx k ctx' \<or>
         k + m < nfilters ctx \<and> at_filter stp ctx (if stp = STEP_RESP_BODY then k + m else Suc (k + m)) ctx'))
   \<or> rc = NGX_DONE \<and> (\<exists>ctx'. chain_of c st' ctx' \<and> action ctx' = ACTION_CONTINUE \<and> last_completed_step ctx' = last_completed_step ctx \<and>
        (m = 0 \<and> action ctx = ACTION_DONE \<and> exec_index ctx' = k \<or> k + m < nfilters ctx \<and> exec_index ctx' = Suc (k + m)))
   \<or> failure rc \<and> (stp \<noteq> STEP_RESP_BODY \<longrightarrow> failed_at c st')"

text \<open>A chain that is paused does not run another filter.\<close>

lemma paused_loop:
  assumes loop: "chain_loop dbg G c stp (i # is) rc0 st = Some (rc, st')"
    and chain: "chain_of c st ctx" "action ctx = ACTION_PAUSE" and stp: "step ctx = Some stp" "stp \<noteq> STEP_DONE"
    and n: "length (pwexecs ctx) = nfilters ctx"
  shows "rc = NGX_AGAIN \<and> (\<exists>ctx'. chain_of c st' ctx' \<and> action ctx' = ACTION_PAUSE \<and> ctl ctx' = ctl ctx)
    \<or> failure rc \<and> (exec_index ctx = i \<longrightarrow> failed_at c st')"
proof -
  from loop chain obtain r st1 where i: "i < length (pwexecs ctx)"
      and fb: "filter_begin dbg G c stp (pwexecs ctx ! i) st = Some (r, st1)"
      and rest: "(case r of Inl rc \<Rightarrow> Some (rc, st1) | Inr _ \<Rightarrow> do {
         (r, st2) \<leftarrow> filter_end dbg c stp (pwexecs ctx ! i) st1;
         case r of Inl rc \<Rightarrow> Some (rc, st2) | Inr rc \<Rightarrow> chain_loop dbg G c stp is rc st2 }) = Some (rc, st')"
    by (auto simp: chain_of_def bind_eq_Some_conv split: if_splits)
  have r: "r = Inl rc \<and> st' = st1 \<or> r = Inr ()" using rest by (cases r) auto
  have e: "pwexecs ctx ! i \<in> set (pwexecs ctx)" using i by simp
  show ?thesis
    using fb chain(1) e stp n
  proof (cases rule: filter_begin_cases)
    case again
    with r chain_of_keeps [OF chain(1) again(3)] show ?thesis by (auto simp: chain_of_def)
  next
    case (fail rc')
    with chain_of_keeps [OF chain(1) fail(3)] obtain ctx' where c': "chain_of c st1 ctx'" "ctl ctx' = ctl ctx" by auto
    have "failed_at c st1" if "exec_index ctx = i"
      using fail(4) c' ctl_fields [OF c'(2)] i that n by (auto simp: chain_of_def intro: failed_atI)
    with fail r show ?thesis by auto
  next
    case (bad rc')
    with r show ?thesis by auto
  qed (use chain(2) in simp_all)
qed

lemma chain_loop_spec:
  assumes "chain_loop dbg G c stp [k..<n] rc0 st = Some (rc, st')" and "chain_of c st ctx" and "at_filter stp ctx k ctx"
    and "k < n" "nfilters ctx = n" "length (pwexecs ctx) = n" and "stp \<noteq> STEP_DONE"
  shows "\<exists>m st1. k + m \<le> n \<and> ran dbg G c stp (take m (drop k (pwexecs ctx))) st st1 \<and>
    (rc = NGX_OK \<longrightarrow> st1 = st') \<and> chain_ends c stp ctx k m rc st'"
  using assms
proof (induction "n - k" arbitrary: k st rc0 ctx)
  case (Suc d)
  let ?e = "pwexecs ctx ! k"
  have k: "k < length (pwexecs ctx)" "exec_index ctx = k" "step ctx = Some stp" using Suc.prems by (auto simp: at_filter_def)
  then have e: "?e \<in> set (pwexecs ctx)" by simp
  from Suc.prems(1,2) k obtain r st1 where fb: "filter_begin dbg G c stp ?e st = Some (r, st1)"
      and rest: "(case r of Inl rc \<Rightarrow> Some (rc, st1) | Inr _ \<Rightarrow> do {
         (r, st2) \<leftarrow> filter_end dbg c stp ?e st1;
         case r of Inl rc \<Rightarrow> Some (rc, st2) | Inr rc \<Rightarrow> chain_loop dbg G c stp [Suc k..<n] rc st2 }) = Some (rc, st')"
    using upt_conv_Cons [OF Suc.prems(4)] by (auto simp: chain_of_def bind_eq_Some_conv)
  have stop: ?case if "chain_ends c stp ctx k 0 rc st'" "rc \<noteq> NGX_OK"
    using that Suc.prems by (intro exI [of _ 0] exI [of _ st]) (auto intro: ran_Nil)
  have n: "length (pwexecs ctx) = nfilters ctx" using Suc.prems by simp
  show ?case
    using fb Suc.prems(2) e k(3) Suc.prems(7) n
  proof (cases rule: filter_begin_cases)
    case again
    with rest chain_of_keeps [OF Suc.prems(2) again(3)] Suc.prems(3) show ?thesis
      by (intro stop) (auto simp: chain_ends_def chain_of_def intro: at_filter_ctl)
  next
    case finished
    with rest chain_of_keeps [OF Suc.prems(2) finished(3)] k show ?thesis
      by (intro stop) (auto simp: chain_ends_def chain_of_def dest!: ctl_fields)
  next
    case (fail rc')
    with chain_of_keeps [OF Suc.prems(2) fail(3)] obtain ctx' where c': "chain_of c st1 ctx'" "ctl ctx' = ctl ctx" by auto
    have "failed_at c st1"
      using fail(4) c' ctl_fields [OF c'(2)] k Suc.prems by (auto simp: chain_of_def intro: failed_atI)
    with fail rest show ?thesis by (intro stop) (auto simp: chain_ends_def)
  next
    case (bad rc')
    with rest show ?thesis by (intro stop) (auto simp: chain_ends_def)
  next
    case (run s1)
    from chain_of_keeps [OF Suc.prems(2) run(3)] obtain ctx1 where c1: "chain_of c st1 ctx1" "ctl ctx1 = ctl ctx" by blast
    note f1 = ctl_fields [OF c1(2)]
    from run_step_ecode [OF run(4,5)] obtain x where x: "execs st1 ?e = Some x" "ecode x = ERR_NONE" by blast
    from rest run(1) obtain r2 st2 where fe: "filter_end dbg c stp ?e st1 = Some (r2, st2)"
        and rest2: "(case r2 of Inl rc \<Rightarrow> Some (rc, st2) | Inr rc \<Rightarrow> chain_loop dbg G c stp [Suc k..<n] rc st2) = Some (rc, st')"
      by (auto simp: bind_eq_Some_conv)
    have e1: "?e = pwexecs ctx1 ! exec_index ctx1" "exec_index ctx1 < length (pwexecs ctx1)"
      "length (pwexecs ctx1) = nfilters ctx1" "step ctx1 = Some stp"
      using f1 k Suc.prems by auto
    have at1: "at_filter stp ctx (Suc k) (next_filter ctx1)"
      using at_filter_next [OF Suc.prems(3) c1(2)] Suc.prems by simp
    show ?thesis
      using fe c1(1) e1(1-3) x e1(4) Suc.prems(7)
    proof (cases rule: filter_end_cases)
      case ok
      have n2: "chain_of c st2 (next_filter ctx1)" unfolding ok(3) by (rule chain_of_set [OF c1(1)]) (simp add: next_filter_def)
      have head: "ran dbg G c stp (take (Suc m) (drop k (pwexecs ctx))) st st'"
        if "ran dbg G c stp (take m (drop (Suc k) (pwexecs ctx))) st2 st'" for m st'
        using that k(1) run(4,5) ok c1 by (auto simp: Cons_nth_drop_Suc [symmetric] chain_of_def intro: ran_Cons)
      show ?thesis
      proof (cases "Suc k = n")
        case True
        with ok rest2 have "rc = NGX_OK" "st' = st2" by auto
        moreover have "action (next_filter ctx1) = ACTION_CONTINUE" using ok by (simp add: next_filter_def)
        ultimately show ?thesis
          using head [of 0 st2] n2 at1 True Suc.prems(5)
          by (intro exI [of _ 1] exI [of _ st2]) (auto simp: chain_ends_def intro: ran_Nil)
      next
        case False
        have "at_filter stp (next_filter ctx1) (Suc k) (next_filter ctx1)"
          using at1 f1 False Suc.prems by (auto simp: at_filter_def next_filter_def)
        moreover have "chain_loop dbg G c stp [Suc k..<n] NGX_OK st2 = Some (rc, st')" using rest2 ok(1) by simp
        moreover have nf: "pwexecs (next_filter ctx1) = pwexecs ctx" "nfilters (next_filter ctx1) = n"
          using f1 Suc.prems(5) by (auto simp: next_filter_def)
        moreover have "d = n - Suc k" "Suc k < n" "length (pwexecs ctx) = n" using Suc.hyps(2) Suc.prems False by auto
        ultimately obtain m st1' where m: "Suc k + m \<le> n" "ran dbg G c stp (take m (drop (Suc k) (pwexecs ctx))) st2 st1'"
            "rc = NGX_OK \<longrightarrow> st1' = st'" "chain_ends c stp (next_filter ctx1) (Suc k) m rc st'"
          using Suc.hyps(1) [of "Suc k" NGX_OK st2 "next_filter ctx1"] n2 Suc.prems(7) unfolding nf by blast
        have "chain_ends c stp ctx k (Suc m) rc st'"
          using m(4) f1 False Suc.prems ok(2)
          by (auto simp: chain_ends_def at_filter_def next_filter_def)
        with m head show ?thesis by (intro exI [of _ "Suc m"] exI [of _ st1']) auto
      qed
    next
      case (again ctx2)
      have at2: "at_filter stp ctx (if stp = STEP_RESP_BODY then k else Suc k) ctx2"
        using at_filter_ctl [OF at1, of ctx2] at_filter_ctl [OF Suc.prems(3), of ctx2] again(5) c1(2) by (auto simp: paused_at_def)
      show ?thesis
      proof (cases "Suc k = n")
        case True
        with again rest2 have "rc = NGX_AGAIN" "st' = st2" by auto
        with again at2 Suc.prems show ?thesis by (intro stop) (auto simp: chain_ends_def)
      next
        case False
        then have "[Suc k..<n] = Suc k # [Suc (Suc k)..<n]" using Suc.prems(4) by (simp add: upt_conv_Cons)
        with again rest2 have "chain_loop dbg G c stp (Suc k # [Suc (Suc k)..<n]) NGX_AGAIN st2 = Some (rc, st')" by simp
        moreover have "step ctx2 = Some stp" "length (pwexecs ctx2) = nfilters ctx2"
          using at2 n by (auto simp: at_filter_def)
        ultimately have "rc = NGX_AGAIN \<and> (\<exists>ctx'. chain_of c st' ctx' \<and> action ctx' = ACTION_PAUSE \<and> ctl ctx' = ctl ctx2)
            \<or> failure rc \<and> (exec_index ctx2 = Suc k \<longrightarrow> failed_at c st')"
          using again(3,4) Suc.prems(7) by (intro paused_loop) auto
        with at2 False Suc.prems k
        have "chain_ends c stp ctx k 0 rc st' \<and> rc \<noteq> NGX_OK"
          by (auto simp: chain_ends_def at_filter_def failure_def dest!: ctl_fields split: if_splits)
        then show ?thesis by (intro stop) auto
      qed
    next
      case (finished ctx2)
      with rest2 f1 k Suc.prems show ?thesis
        by (intro stop) (auto simp: chain_ends_def dest!: ctl_fields)
    next
      case (fail rc')
      with rest2 show ?thesis by (intro stop) (auto simp: chain_ends_def)
    qed
  qed
qed simp

section \<open>Resuming a step\<close>

text \<open>
  The filter a step starts with; a step that is already completed does not start.
\<close>

definition start_index :: "pw_step \<Rightarrow> pwctx \<Rightarrow> nat" where
  "start_index stp ctx = (if stp = STEP_RESP_HEADERS \<and> last_step_num ctx < step_num STEP_RESP_HEADERS then 0 else exec_index ctx)"

definition completed :: "pw_step \<Rightarrow> pwctx \<Rightarrow> bool" where
  "completed stp ctx \<longleftrightarrow> \<not> repeatable stp \<and> stp \<noteq> STEP_RESP_HEADERS \<and> step_num stp \<le> last_step_num ctx"

definition entered :: "ref \<Rightarrow> pw_step \<Rightarrow> pwctx \<Rightarrow> 'g pw \<Rightarrow> 'g pw" where
  "entered c stp ctx st = st\<lparr>ctxs := (ctxs st)(c \<mapsto> ctx\<lparr>step := Some stp, exec_index := start_index stp ctx\<rparr>)\<rparr>"

lemma resume_unfold:
  assumes "ctxs st c = Some ctx" "stp \<noteq> STEP_DONE"
  shows "ngx_proxy_wasm_resume dbg G c stp st =
    (if completed stp ctx then Some (NGX_OK, st\<lparr>ctxs := (ctxs st)(c \<mapsto> ctx\<lparr>step := Some stp\<rparr>)\<rparr>)
     else if \<not> ngx_wa_assert dbg (length (pwexecs ctx) = nfilters ctx) then None
     else chain_loop dbg G c stp [start_index stp ctx..<nfilters ctx] NGX_OK (entered c stp ctx st))"
  using assms
  by (simp add: ngx_proxy_wasm_resume_def resume_chain_def upd_ctx_def completed_def start_index_def entered_def last_step_num_def)

text \<open>A stream context that is ready to resume the step \<open>stp\<close> at one of its filters.\<close>

definition can_resume :: "ref \<Rightarrow> 'g pw \<Rightarrow> pwctx \<Rightarrow> pw_step \<Rightarrow> bool" where
  "can_resume c st ctx stp \<longleftrightarrow> chain_of c st ctx \<and> length (pwexecs ctx) = nfilters ctx \<and> start_index stp ctx < nfilters ctx
     \<and> stp \<noteq> STEP_DONE \<and> \<not> completed stp ctx"

lemma resume_spec:
  assumes "can_resume c st ctx stp" and "ngx_proxy_wasm_resume dbg G c stp st = Some (rc, st')"
  defines "k \<equiv> start_index stp ctx"
  shows "\<exists>m st1. k + m \<le> nfilters ctx \<and> ran dbg G c stp (take m (drop k (pwexecs ctx))) (entered c stp ctx st) st1 \<and>
    (rc = NGX_OK \<longrightarrow> st1 = st') \<and> chain_ends c stp ctx k m rc st'"
proof -
  let ?ctx = "ctx\<lparr>step := Some stp, exec_index := k\<rparr>"
  have c: "chain_of c (entered c stp ctx st) ?ctx"
    using assms unfolding entered_def k_def by (intro chain_of_set [of c st ctx]) (auto simp: can_resume_def)
  have "chain_loop dbg G c stp [k..<nfilters ctx] NGX_OK (entered c stp ctx st) = Some (rc, st')"
    using assms resume_unfold [of st c ctx stp dbg G] by (auto simp: can_resume_def chain_of_def k_def)
  from chain_loop_spec [OF this c] assms(1) obtain m st1 where m: "k + m \<le> nfilters ctx"
      "ran dbg G c stp (take m (drop k (pwexecs ctx))) (entered c stp ctx st) st1" "rc = NGX_OK \<longrightarrow> st1 = st'"
      "chain_ends c stp ?ctx k m rc st'"
    by (auto simp: can_resume_def at_filter_def k_def)
  moreover have "chain_ends c stp ?ctx k m rc st' = chain_ends c stp ctx k m rc st'"
  proof -
    have same: "nfilters ?ctx = nfilters ctx" "pwexecs ?ctx = pwexecs ctx" "action ?ctx = action ctx"
      "last_completed_step ?ctx = last_completed_step ctx" by simp_all
    show ?thesis unfolding chain_ends_def at_filter_def same ..
  qed
  ultimately show ?thesis by blast
qed

section \<open>Filters that continue\<close>

text \<open>
  A guest that always answers \<open>CONTINUE\<close> and does not call host functions that matter here, and a
  filter that is started in a healthy instance and exports the handlers of the stream.
\<close>

definition continues :: "'g guest \<Rightarrow> bool" where
  "continues G \<longleftrightarrow> (\<forall>name i args w. fst (g_call G name i args w) = (NGX_OK, 0, []))"

definition stream_handlers :: "string list" where
  "stream_handlers = [''proxy_on_http_request_headers'', ''proxy_on_http_request_body'', ''proxy_on_http_response_headers'',
     ''proxy_on_http_response_body'', ''proxy_on_http_response_trailers'']"

definition stream_step :: "pw_step \<Rightarrow> bool" where
  "stream_step stp \<longleftrightarrow> stp \<in> {STEP_REQ_HEADERS, STEP_REQ_BODY, STEP_RESP_HEADERS, STEP_RESP_BODY, STEP_RESP_TRAILERS}"

definition filter_ready :: "ref \<Rightarrow> 'g pw \<Rightarrow> ref \<Rightarrow> bool" where
  "filter_ready c st e \<longleftrightarrow>
     (case execs st e of None \<Rightarrow> False | Some x \<Rightarrow>
        ecode x = ERR_NONE \<and> root_id x \<noteq> ROOT_CTX_ID \<and> parent x = c \<and>
        (case ictx x of None \<Rightarrow> False | Some i \<Rightarrow>
           (case insts st i of None \<Rightarrow> False | Some inst \<Rightarrow>
              \<not> trapped inst \<and>
              (case filters st (e_filter x) of None \<Rightarrow> False | Some flt \<Rightarrow>
                 Some (i_module inst) = map_option m_id (f_module flt) \<and> list_all (\<lambda>h. f_handlers flt h \<noteq> None) stream_handlers))))"

lemma filter_readyE:
  assumes "filter_ready c st e"
  obtains x i inst flt where "execs st e = Some x" "ecode x = ERR_NONE" "root_id x \<noteq> ROOT_CTX_ID" "parent x = c" "ictx x = Some i"
    "insts st i = Some inst" "\<not> trapped inst" "filters st (e_filter x) = Some flt"
    "Some (i_module inst) = map_option m_id (f_module flt)" "\<And>h. h \<in> set stream_handlers \<Longrightarrow> \<exists>n. f_handlers flt h = Some n"
  using assms by (auto simp: filter_ready_def list_all_iff split: option.splits)

text \<open>A call of such a guest only changes the state of the guest.\<close>

lemma call_continues:
  assumes "continues G" "insts st i = Some inst" "\<not> trapped inst" "fn = Some n"
  shows "\<exists>w. ngx_wavm_instance_call_funcref dbg G i fn args st = Some ((NGX_OK, 0), st\<lparr>world := w\<rparr>)"
proof -
  obtain w where "g_call G n i args (world st) = ((NGX_OK, 0, []), w)"
    using assms(1) by (metis continues_def prod.collapse)
  with assms have "ngx_wavm_instance_call_funcref dbg G i fn args st = Some ((NGX_OK, 0), st\<lparr>world := w\<rparr>)"
    by (simp add: ngx_wavm_instance_call_funcref_def)
  then show ?thesis ..
qed

lemma http_step_continues:
  assumes G: "continues G" and ready: "filter_ready c st e" and c: "ctxs st c = Some ctx" "rctx ctx = Some rq"
    and cur: "\<And>x i inst. execs st e = Some x \<Longrightarrow> ictx x = Some i \<Longrightarrow> insts st i = Some inst \<Longrightarrow> cur_pwexec inst = Some e"
    and stp: "stream_step stp"
  shows "\<exists>w rq' out. http_step dbg G e stp st = Some ((NGX_OK, out), st\<lparr>ctxs := (ctxs st)(c \<mapsto> ctx\<lparr>rctx := Some rq'\<rparr>), world := w\<rparr>)
    \<and> (out = None \<or> out = Some ACTION_CONTINUE)"
proof -
  from ready obtain x i inst flt where x: "execs st e = Some x" "parent x = c" "ictx x = Some i"
      "insts st i = Some inst" "\<not> trapped inst" "filters st (e_filter x) = Some flt"
      and h: "\<And>h. h \<in> set stream_handlers \<Longrightarrow> \<exists>n. f_handlers flt h = Some n"
    by (elim filter_readyE) auto
  have get: "ngx_http_proxy_wasm_get_rctx i st = Some (c, rq)"
    using x c cur [OF x(1,3,4)] by (simp add: ngx_http_proxy_wasm_get_rctx_def)
  have same: "(ctxs st)(c \<mapsto> ctx\<lparr>rctx := Some rq\<rparr>) = ctxs st" using c by (auto simp: fun_upd_idem_iff)
  have call: "\<exists>w. ngx_wavm_instance_call_funcref dbg G i (f_handlers flt h) args (st\<lparr>ctxs := cs\<rparr>) = Some ((NGX_OK, 0), st\<lparr>ctxs := cs, world := w\<rparr>)"
    if "h \<in> set stream_handlers" for h args cs
    using h [OF that] x G by (auto intro: call_continues [of G "st\<lparr>ctxs := cs\<rparr>"])
  have act: "action_of 0 = ACTION_CONTINUE" by (simp add: action_of_def)
  have up: "upd_rctx c f st = Some (st\<lparr>ctxs := (ctxs st)(c \<mapsto> ctx\<lparr>rctx := Some (f rq)\<rparr>)\<rparr>)" for f
    using c by (simp add: upd_rctx_def upd_ctx_def)
  have hdrs: "\<exists>w. call_headers dbg G h e n (st\<lparr>ctxs := cs\<rparr>) = Some ((NGX_OK, Some ACTION_CONTINUE), st\<lparr>ctxs := cs, world := w\<rparr>)"
    if "h \<in> set stream_handlers" for h n cs
    using call [OF that, of "if f_abi flt = ABI_0_1_0 then [exec_id x, n] else [exec_id x, n, 0]" cs] x
    by (auto simp: call_headers_def act)
  have sh: "''proxy_on_http_request_headers'' \<in> set stream_handlers" "''proxy_on_http_request_body'' \<in> set stream_handlers"
    "''proxy_on_http_response_headers'' \<in> set stream_handlers" "''proxy_on_http_response_body'' \<in> set stream_handlers"
    "''proxy_on_http_response_trailers'' \<in> set stream_handlers"
    by (simp_all add: stream_handlers_def)
  have st: "st\<lparr>ctxs := (ctxs st)(c \<mapsto> ctx\<lparr>rctx := Some rq\<rparr>)\<rparr> = st" by (simp add: same)
  from stp consider "stp = STEP_REQ_HEADERS" | "stp = STEP_REQ_BODY" | "stp = STEP_RESP_HEADERS" | "stp = STEP_RESP_BODY"
    | "stp = STEP_RESP_TRAILERS" by (auto simp: stream_step_def)
  then show ?thesis
  proof cases
    case 1
    from hdrs [OF sh(1)] x get up show ?thesis
      by (fastforce simp: 1 http_step_def ngx_http_proxy_wasm_on_request_headers_def)
  next
    case 2
    from call [OF sh(2), of "[exec_id x, req_body_len ctx, 1]" "(ctxs st)(c \<mapsto> ctx\<lparr>rctx := Some rq\<rparr>)"] obtain w where
      "ngx_wavm_instance_call_funcref dbg G i (f_handlers flt ''proxy_on_http_request_body'') [exec_id x, req_body_len ctx, 1] st =
        Some ((NGX_OK, 0), st\<lparr>world := w\<rparr>)"
      by (auto simp: same)
    then have "http_step dbg G e stp st = Some ((NGX_OK, Some ACTION_CONTINUE), st\<lparr>world := w\<rparr>)"
      using x c by (simp add: 2 http_step_def ngx_http_proxy_wasm_on_request_body_def act)
    then show ?thesis by (intro exI [of _ w] exI [of _ rq]) (simp add: same)
  next
    case 3
    from hdrs [OF sh(3)] x get up show ?thesis
      by (fastforce simp: 3 http_step_def ngx_http_proxy_wasm_on_response_headers_def)
  next
    case 4
    let ?rq = "if 0 < resp_content_length_n rq then rq\<lparr>resp_chunk_eof := (resp_chunk_len rq = resp_content_length_n rq)\<rparr> else rq"
    let ?cs = "(ctxs st)(c \<mapsto> ctx\<lparr>rctx := Some ?rq\<rparr>)"
    from call [OF sh(4), of "[exec_id x, nat (resp_chunk_len ?rq), of_bool (resp_chunk_eof ?rq)]" ?cs]
    obtain w where w: "ngx_wavm_instance_call_funcref dbg G i (f_handlers flt ''proxy_on_http_response_body'')
        [exec_id x, nat (resp_chunk_len ?rq), of_bool (resp_chunk_eof ?rq)] (st\<lparr>ctxs := ?cs\<rparr>) =
        Some ((NGX_OK, 0), st\<lparr>ctxs := ?cs, world := w\<rparr>)" by blast
    show ?thesis
    proof (cases "resp_chunk_len ?rq \<noteq> 0 \<or> resp_chunk_eof ?rq")
      case True
      with w x get up [of "\<lambda>_. ?rq"] show ?thesis
        by (auto simp: 4 http_step_def ngx_http_proxy_wasm_on_response_body_def Let_def act simp del: upd_rctx_def
            intro!: exI [of _ w] exI [of _ ?rq])
    next
      case False
      with x get up [of "\<lambda>_. ?rq"] show ?thesis
        by (auto simp: 4 http_step_def ngx_http_proxy_wasm_on_response_body_def Let_def
            intro!: exI [of _ "world st"] exI [of _ ?rq])
    qed
  next
    case 5
    from hdrs [OF sh(5), of "n_resp_trailers rq" "ctxs st"] obtain w where
      "call_headers dbg G ''proxy_on_http_response_trailers'' e (n_resp_trailers rq) st =
        Some ((NGX_OK, Some ACTION_CONTINUE), st\<lparr>world := w\<rparr>)" by auto
    then have "http_step dbg G e stp st = Some ((NGX_OK, Some ACTION_CONTINUE), st\<lparr>world := w\<rparr>)"
      using x get by (simp add: 5 http_step_def ngx_http_proxy_wasm_on_response_trailers_def)
    then show ?thesis by (intro exI [of _ w] exI [of _ rq]) (simp add: same)
  qed
qed

text \<open>A step of such a filter succeeds and leaves all filters ready.\<close>

lemma filter_ready_cong:
  assumes "filter_ready c st e" and "filters st' = filters st" and "execs st' = execs st"
    and "insts st' = (insts st)(i \<mapsto> inst\<lparr>cur_pwexec := p\<rparr>)" and "insts st i = Some inst"
  shows "filter_ready c st' e"
  using assms by (auto simp: filter_ready_def split: option.splits)

lemma run_step_continues:
  assumes G: "continues G" and ready: "filter_ready c st e"
    and c: "ctxs st c = Some ctx" "rctx ctx \<noteq> None" "phase ctx \<noteq> None" "action ctx = ACTION_CONTINUE"
    and stp: "stream_step stp"
  shows "\<exists>st1 rq. ngx_proxy_wasm_run_step dbg G e stp st = Some (ERR_NONE, st1) \<and>
    upd_exec e (\<lambda>x. x\<lparr>ecode := ERR_NONE\<rparr>) st1 = Some st1 \<and>
    ctxs st1 c = Some (ctx\<lparr>step := Some stp, rctx := Some rq\<rparr>) \<and> (\<forall>e'. filter_ready c st e' \<longrightarrow> filter_ready c st1 e')"
proof -
  from ready obtain x i inst flt where x: "execs st e = Some x" "ecode x = ERR_NONE" "parent x = c" "ictx x = Some i"
      "insts st i = Some inst" "\<not> trapped inst" "filters st (e_filter x) = Some flt" "Some (i_module inst) = map_option m_id (f_module flt)"
    by (elim filter_readyE) auto
  from c obtain rq where rq: "rctx ctx = Some rq" by auto
  let ?ctx = "ctx\<lparr>step := Some stp\<rparr>" and ?inst = "inst\<lparr>cur_pwexec := Some e\<rparr>"
  let ?st = "st\<lparr>ctxs := (ctxs st)(c \<mapsto> ?ctx), insts := (insts st)(i \<mapsto> ?inst)\<rparr>"
  have r: "filter_ready c ?st e'" if "filter_ready c st e'" for e'
    by (rule filter_ready_cong [OF that, where i = i and inst = inst and p = "Some e"]) (simp_all add: x)
  have "\<exists>w rq' out. http_step dbg G e stp ?st = Some ((NGX_OK, out), ?st\<lparr>ctxs := (ctxs ?st)(c \<mapsto> ?ctx\<lparr>rctx := Some rq'\<rparr>), world := w\<rparr>)
    \<and> (out = None \<or> out = Some ACTION_CONTINUE)"
    using G r [OF ready] by (rule http_step_continues) (use x rq stp in auto)
  then obtain w rq' out where h: "http_step dbg G e stp ?st = Some ((NGX_OK, out), ?st\<lparr>ctxs := (ctxs ?st)(c \<mapsto> ?ctx\<lparr>rctx := Some rq'\<rparr>), world := w\<rparr>)"
    and out: "out = None \<or> out = Some ACTION_CONTINUE" by blast
  let ?st1 = "?st\<lparr>ctxs := (ctxs ?st)(c \<mapsto> ?ctx\<lparr>rctx := Some rq'\<rparr>), world := w\<rparr>"
  have sc: "step_call dbg G c e stp ?st = Some ((NGX_OK, out), ?st1)"
    using h stp by (auto simp: step_call_def ngx_http_proxy_wasm_resume_def stream_step_def)
  have same: "(execs st)(e \<mapsto> x\<lparr>ecode := ERR_NONE\<rparr>) = execs st" using x by (cases x) (auto simp: fun_upd_idem_iff)
  have res: "step_result dbg c e ACTION_CONTINUE NGX_OK (case out of None \<Rightarrow> ACTION_CONTINUE | Some a \<Rightarrow> a) ?st1 = Some (ERR_NONE, ?st1)"
    using out c x same by (auto simp: step_result_def upd_exec_def)
  have "ngx_proxy_wasm_run_step dbg G e stp st = Some (ERR_NONE, ?st1)"
    using x c sc res
    by (simp add: ngx_proxy_wasm_run_step_def no_instance_def run_in_instance_def upd_ctx_def ngx_proxy_wasm_instance_update_def upd_inst_def)
  moreover have "upd_exec e (\<lambda>x. x\<lparr>ecode := ERR_NONE\<rparr>) ?st1 = Some ?st1" using x same by (simp add: upd_exec_def)
  moreover have "filter_ready c ?st1 e'" if "filter_ready c st e'" for e'
    by (rule filter_ready_cong [OF that, where i = i and inst = inst and p = "Some e"]) (simp_all add: x)
  ultimately show ?thesis by (intro exI [of _ ?st1] exI [of _ rq']) auto
qed

lemma action2rc_continue:
  assumes "filter_ready c st e" "ctxs st c = Some ctx" "action ctx = ACTION_CONTINUE"
  shows "action2rc dbg c e st = Some (NGX_OK, st)"
  using assms by (elim filter_readyE) (auto simp: action2rc_def)

lemma chain_loop_continues:
  assumes "continues G" and "stream_step stp" and "\<forall>e \<in> set (pwexecs ctx). filter_ready c st e"
    and "ctxs st c = Some ctx" "rctx ctx \<noteq> None" "phase ctx \<noteq> None" "action ctx = ACTION_CONTINUE"
    and "length (pwexecs ctx) = nfilters ctx" "k < nfilters ctx" "exec_index ctx = k"
  shows "\<exists>st'. chain_loop dbg G c stp [k..<nfilters ctx] rc st = Some (NGX_OK, st')"
  using assms
proof (induction "nfilters ctx - k" arbitrary: k st ctx rc)
  case (Suc d)
  let ?e = "pwexecs ctx ! k"
  have e: "filter_ready c st ?e" using Suc.prems by simp
  from run_step_continues [OF Suc.prems(1) e Suc.prems(4-7,2)] obtain st1 rq where st1:
    "ngx_proxy_wasm_run_step dbg G ?e stp st = Some (ERR_NONE, st1)" "upd_exec ?e (\<lambda>x. x\<lparr>ecode := ERR_NONE\<rparr>) st1 = Some st1"
    "ctxs st1 c = Some (ctx\<lparr>step := Some stp, rctx := Some rq\<rparr>)" "\<And>e'. filter_ready c st e' \<Longrightarrow> filter_ready c st1 e'"
    by blast
  let ?ctx1 = "ctx\<lparr>step := Some stp, rctx := Some rq\<rparr>"
  have fb: "filter_begin dbg G c stp ?e st = Some (Inr (), st1)"
    using Suc.prems(2) action2rc_continue [OF e Suc.prems(4,7)] st1 by (auto simp: filter_begin_def stream_step_def)
  let ?adv = "?ctx1\<lparr>exec_index := Suc k\<rparr>"
  have adv: "upd_ctx c (advance stp) st1 = Some (st1\<lparr>ctxs := (ctxs st1)(c \<mapsto> ?adv)\<rparr>)"
    using Suc.prems st1(3) by (simp add: upd_ctx_def advance_def)
  have ready: "filter_ready c (st1\<lparr>ctxs := cs\<rparr>) e'" if "filter_ready c st e'" for e' cs
    using st1(4) [OF that] by (auto simp: filter_ready_def split: option.splits)
  have a: "action2rc dbg c ?e (st1\<lparr>ctxs := (ctxs st1)(c \<mapsto> ?adv)\<rparr>) = Some (NGX_OK, st1\<lparr>ctxs := (ctxs st1)(c \<mapsto> ?adv)\<rparr>)"
    by (rule action2rc_continue [OF ready [OF e], of _ ?adv]) (simp_all add: Suc.prems)
  let ?next = "if nfilters ctx \<le> Suc k then ?adv\<lparr>last_completed_step := Some stp, exec_index := 0\<rparr> else ?adv"
  let ?st2 = "st1\<lparr>ctxs := (ctxs st1)(c \<mapsto> ?next)\<rparr>"
  have fe: "filter_end dbg c stp ?e st1 = Some (Inr NGX_OK, ?st2)"
    using Suc.prems(9) unfolding filter_end_def adv by (simp add: a upd_ctx_def)
  have loop: "chain_loop dbg G c stp [k..<nfilters ctx] rc st = chain_loop dbg G c stp [Suc k..<nfilters ctx] NGX_OK ?st2"
    using Suc.prems fb fe by (simp add: upt_conv_Cons)
  show ?case
  proof (cases "Suc k < nfilters ctx")
    case True
    have "\<exists>st'. chain_loop dbg G c stp [Suc k..<nfilters ?next] NGX_OK ?st2 = Some (NGX_OK, st')"
      by (rule Suc.hyps(1)) (use True Suc.prems Suc.hyps(2) ready in auto)
    with True loop show ?thesis by simp
  qed (use loop in simp)
qed simp

section \<open>Examples\<close>

text \<open>
  Two filters of two modules, each with its own instance in the store 0, and the stream context 20 of a
  request. The guest code counts its calls, and \<open>answers\<close> says what the call number \<open>n\<close>
  answers.
\<close>

definition demo_req :: http_req where
  "demo_req = \<lparr>n_req_headers = 2, n_resp_headers = 3, n_resp_trailers = 0, n_shim_headers = 0, r_content_length_in = 0,
     r_content_length_out = 5, req_content_length_n = 0, resp_content_length_n = 0, resp_chunk_len = 5, resp_chunk_eof = False,
     resp_bufs = False, resp_buffering = False, resp_chunk_override = False, reset_resp_shims = False, upstream_peer = None,
     env_state = STATE_CONTINUE, req_body_received = False, req_body_waited = False, resp_content_chosen = False\<rparr>"

definition demo_module :: "nat \<Rightarrow> pw_module" where
  "demo_module n = \<lparr>m_id = n, m_name = [], m_exports = [], m_config_len = 0\<rparr>"

definition demo_filter :: "nat \<Rightarrow> pw_filter" where
  "demo_filter n = \<lparr>f_module = Some (demo_module n), f_config = [], f_data = 0, f_id = 100 + n, f_store = 0, f_acl = False,
     f_abi = ABI_0_2_1, f_malloc = Some ''malloc'', f_handlers = (\<lambda>h. Some h), f_ecode = ERR_NONE, f_loaded = True, f_started = True\<rparr>"

definition demo_exec :: "nat \<Rightarrow> ref \<Rightarrow> ref \<Rightarrow> ref \<Rightarrow> pwexec" where
  "demo_exec n c i f = new_pwexec\<lparr>root_id := 100 + n, exec_id := n, index := n, ictx := Some i, e_store := Some 0,
     e_filter := f, parent := c, node_key := n, started := True, has_log := True\<rparr>"

definition demo_inst :: "nat \<Rightarrow> ref \<Rightarrow> pw_inst" where
  "demo_inst m e = \<lparr>i_module = m, trapped = False, root_ctxs = [], tree_ctxs = [(m, e)], i_store = 0, cur_pwexec = Some e\<rparr>"

definition demo_ctx :: pwctx where
  "demo_ctx = new_pwctx\<lparr>nfilters := 2, pwexecs := [10, 11], isolation := ISOLATION_NONE, phase := Some REWRITE_PHASE,
     rctx := Some demo_req, c_init := True, c_ready := True\<rparr>"

definition demo_pw :: "nat pw" where
  "demo_pw = \<lparr>execs = [10 \<mapsto> demo_exec 1 20 5 1, 11 \<mapsto> demo_exec 2 20 6 2], ctxs = [20 \<mapsto> demo_ctx],
     insts = [5 \<mapsto> demo_inst 1 10, 6 \<mapsto> demo_inst 2 11], stores = [0 \<mapsto> \<lparr>busy = [5, 6], free_q = [], sweep = []\<rparr>],
     filters = [1 \<mapsto> demo_filter 1, 2 \<mapsto> demo_filter 2], fresh = 30, next_id = 2, world = 0\<rparr>"

definition demo_guest :: "(nat \<Rightarrow> ngx_rc \<times> nat \<times> host_effect list) \<Rightarrow> nat guest" where
  "demo_guest answers = \<lparr>g_alloc = (\<lambda>w. (True, w)), g_instantiate = (\<lambda>m w. (True, w)),
     g_call = (\<lambda>name i args w. (answers w, Suc w))\<rparr>"

definition calm :: "nat \<Rightarrow> ngx_rc \<times> nat \<times> host_effect list" where
  "calm n = (NGX_OK, 0, [])"

lemmas demo_defs = demo_pw_def demo_ctx_def demo_exec_def demo_inst_def demo_filter_def demo_module_def demo_req_def
  new_pwexec_def new_pwctx_def

lemma demo_can_resume: "can_resume 20 demo_pw demo_ctx STEP_REQ_HEADERS"
  by (auto simp: can_resume_def chain_of_def demo_defs start_index_def completed_def repeatable_def last_step_num_def)


section \<open>Properties of the chain\<close>

lemma chain_ends_ok:
  "chain_ends c stp ctx k m NGX_OK st' \<Longrightarrow> k + m = nfilters ctx \<and> (\<exists>ctx'. chain_of c st' ctx' \<and> action ctx' = ACTION_CONTINUE \<and> at_filter stp ctx (nfilters ctx) ctx')"
  by (simp add: chain_ends_def)

text \<open>
  C7. When \<open>ngx_proxy_wasm_resume\<close> returns \<open>NGX_OK\<close>, the filters from the one the step starts with to
  the last one ran the step, each once, in the order of the configuration; each succeeded and
  left the action \<open>CONTINUE\<close>. The step is recorded as completed by the chain and
  the next step starts with the first filter.
\<close>

theorem chain_resume_ok:
  assumes "can_resume c st ctx stp" and "ngx_proxy_wasm_resume dbg G c stp st = Some (NGX_OK, st')"
  shows "ran dbg G c stp (drop (start_index stp ctx) (pwexecs ctx)) (entered c stp ctx st) st' \<and>
    (\<exists>ctx'. ctxs st' c = Some ctx' \<and> pwexecs ctx' = pwexecs ctx \<and> exec_index ctx' = 0 \<and>
      last_completed_step ctx' = Some stp \<and> action ctx' = ACTION_CONTINUE)"
proof -
  from resume_spec [OF assms] obtain m where
      r: "ran dbg G c stp (take m (drop (start_index stp ctx) (pwexecs ctx))) (entered c stp ctx st) st'"
      and e: "chain_ends c stp ctx (start_index stp ctx) m NGX_OK st'" by auto
  from chain_ends_ok [OF e] assms(1) have "take m (drop (start_index stp ctx) (pwexecs ctx)) = drop (start_index stp ctx) (pwexecs ctx)"
    by (auto simp: can_resume_def)
  with r chain_ends_ok [OF e] show ?thesis by (auto simp: at_filter_def chain_of_def)
qed

definition demo_done :: "nat pw" where
  "demo_done = (case ngx_proxy_wasm_resume True (demo_guest calm) 20 STEP_REQ_HEADERS demo_pw of Some (_, st) \<Rightarrow> st | None \<Rightarrow> demo_pw)"

lemma demo_run: "ngx_proxy_wasm_resume True (demo_guest calm) 20 STEP_REQ_HEADERS demo_pw = Some (NGX_OK, demo_done)"
proof -
  have "map_option fst (ngx_proxy_wasm_resume True (demo_guest calm) 20 STEP_REQ_HEADERS demo_pw) = Some NGX_OK" by code_simp
  then show ?thesis by (auto simp: demo_done_def)
qed

theorem chain_resume_ok_witness:
  "ran True (demo_guest calm) 20 STEP_REQ_HEADERS [10, 11] (entered 20 STEP_REQ_HEADERS demo_ctx demo_pw) demo_done"
proof -
  have "drop (start_index STEP_REQ_HEADERS demo_ctx) (pwexecs demo_ctx) = [10, 11]"
    by (simp add: start_index_def demo_ctx_def new_pwctx_def)
  with chain_resume_ok [OF demo_can_resume demo_run] show ?thesis by simp
qed

text \<open>
  C8. A stream step of a chain completes: when every filter of the chain is started in an instance that has
  not trapped and exports the handlers of the stream, and the guest code answers \<open>CONTINUE\<close>,
  \<open>ngx_proxy_wasm_resume\<close> has no undefined behaviour, returns \<open>NGX_OK\<close> and has the step completed.
\<close>

theorem chain_resume_completes:
  assumes "can_resume c st ctx stp" and "continues G" and "stream_step stp" and "list_all (filter_ready c st) (pwexecs ctx)"
    and "rctx ctx \<noteq> None" and "phase ctx \<noteq> None" and "action ctx = ACTION_CONTINUE"
  shows "\<exists>st' ctx'. ngx_proxy_wasm_resume dbg G c stp st = Some (NGX_OK, st') \<and> ctxs st' c = Some ctx' \<and>
    last_completed_step ctx' = Some stp \<and> exec_index ctx' = 0"
proof -
  let ?ctx = "ctx\<lparr>step := Some stp, exec_index := start_index stp ctx\<rparr>"
  have ready: "filter_ready c (entered c stp ctx st) e" if "e \<in> set (pwexecs ctx)" for e
  proof -
    have "filter_ready c st e" using assms(4) that by (simp add: list_all_iff)
    then show ?thesis by (auto simp: filter_ready_def entered_def split: option.splits)
  qed
  have "\<exists>st'. chain_loop dbg G c stp [start_index stp ctx..<nfilters ?ctx] NGX_OK (entered c stp ctx st) = Some (NGX_OK, st')"
    by (rule chain_loop_continues) (use assms ready in \<open>auto simp: can_resume_def entered_def\<close>)
  then obtain st' where r: "ngx_proxy_wasm_resume dbg G c stp st = Some (NGX_OK, st')"
    using assms(1) resume_unfold [of st c ctx stp dbg G] by (auto simp: can_resume_def chain_of_def)
  from resume_spec [OF assms(1) r] chain_ends_ok show ?thesis
    by (fastforce simp: r at_filter_def chain_of_def)
qed

lemma demo_ready: "list_all (filter_ready 20 demo_pw) (pwexecs demo_ctx)"
  by (simp add: filter_ready_def demo_defs stream_handlers_def ROOT_CTX_ID_def)

lemma calm_continues: "continues (demo_guest calm)"
  by (simp add: continues_def demo_guest_def calm_def)

theorem chain_resume_completes_witness:
  "\<exists>st' ctx'. ngx_proxy_wasm_resume False (demo_guest calm) 20 STEP_REQ_HEADERS demo_pw = Some (NGX_OK, st') \<and>
    ctxs st' 20 = Some ctx' \<and> last_completed_step ctx' = Some STEP_REQ_HEADERS \<and> exec_index ctx' = 0"
  by (rule chain_resume_completes [OF demo_can_resume calm_continues _ demo_ready])
    (simp_all add: stream_step_def demo_ctx_def new_pwctx_def)

text \<open>
  Once a step was completed by the chain, neither it nor an earlier step of the stream runs again: resuming
  it returns \<open>NGX_OK\<close> without calling a guest and changes nothing but the current step. (The
  steps \<open>on_response_headers\<close> and \<open>on_response_body\<close> are the exceptions.)
\<close>

theorem chain_step_once:
  assumes "can_resume c st ctx stp" and "ngx_proxy_wasm_resume dbg G c stp st = Some (NGX_OK, st1)"
    and "\<not> repeatable stp2" and "stp2 \<noteq> STEP_RESP_HEADERS" and "step_num stp2 \<le> step_num stp"
  shows "\<exists>ctx1. ctxs st1 c = Some ctx1 \<and>
    ngx_proxy_wasm_resume dbg2 G2 c stp2 st1 = Some (NGX_OK, st1\<lparr>ctxs := (ctxs st1)(c \<mapsto> ctx1\<lparr>step := Some stp2\<rparr>)\<rparr>)"
proof -
  from resume_spec [OF assms(1,2)] obtain ctx1 where c: "ctxs st1 c = Some ctx1" "last_completed_step ctx1 = Some stp"
    using chain_ends_ok by (fastforce simp: at_filter_def chain_of_def)
  with assms have "completed stp2 ctx1" "stp2 \<noteq> STEP_DONE" by (auto simp: completed_def last_step_num_def repeatable_def)
  with c resume_unfold [of st1 c ctx1 stp2 dbg2 G2] show ?thesis by simp
qed

theorem chain_step_once_witness:
  "\<exists>ctx1. ctxs demo_done 20 = Some ctx1 \<and>
    ngx_proxy_wasm_resume True (demo_guest calm) 20 STEP_REQ_HEADERS demo_done =
      Some (NGX_OK, demo_done\<lparr>ctxs := (ctxs demo_done)(20 \<mapsto> ctx1\<lparr>step := Some STEP_REQ_HEADERS\<rparr>)\<rparr>)"
  by (rule chain_step_once [OF demo_can_resume demo_run]) (simp_all add: repeatable_def)

text \<open>
  \<open>NGX_AGAIN\<close> means that the chain is paused. Either it was paused already and no filter ran, or the
  filters up to a filter \<open>j\<close> ran and this one paused: it will not run the step again, unless the step is
  \<open>on_response_body\<close>, which the same filter enters again once the body is buffered.
\<close>

theorem chain_resume_paused:
  assumes "can_resume c st ctx stp" and "ngx_proxy_wasm_resume dbg G c stp st = Some (NGX_AGAIN, st')"
  shows "\<exists>ctx'. ctxs st' c = Some ctx' \<and> action ctx' = ACTION_PAUSE \<and>
    (action ctx = ACTION_PAUSE \<and> at_filter stp ctx (start_index stp ctx) ctx' \<or>
     (\<exists>j st1. start_index stp ctx \<le> j \<and> j < nfilters ctx \<and>
        ran dbg G c stp (take (j - start_index stp ctx) (drop (start_index stp ctx) (pwexecs ctx))) (entered c stp ctx st) st1 \<and>
        at_filter stp ctx (if stp = STEP_RESP_BODY then j else Suc j) ctx'))"
proof -
  let ?k = "start_index stp ctx"
  from resume_spec [OF assms] obtain m st1 where r: "ran dbg G c stp (take m (drop ?k (pwexecs ctx))) (entered c stp ctx st) st1"
      and e: "chain_ends c stp ctx ?k m NGX_AGAIN st'" by auto
  from e obtain ctx' where c': "ctxs st' c = Some ctx'" "action ctx' = ACTION_PAUSE"
      "m = 0 \<and> action ctx = ACTION_PAUSE \<and> at_filter stp ctx ?k ctx' \<or>
       ?k + m < nfilters ctx \<and> at_filter stp ctx (if stp = STEP_RESP_BODY then ?k + m else Suc (?k + m)) ctx'"
    by (auto simp: chain_ends_def chain_of_def)
  have "\<exists>j st1. ?k \<le> j \<and> j < nfilters ctx \<and> ran dbg G c stp (take (j - ?k) (drop ?k (pwexecs ctx))) (entered c stp ctx st) st1 \<and>
      at_filter stp ctx (if stp = STEP_RESP_BODY then j else Suc j) ctx'"
    if "?k + m < nfilters ctx" "at_filter stp ctx (if stp = STEP_RESP_BODY then ?k + m else Suc (?k + m)) ctx'"
    using that r by (intro exI [of _ "?k + m"] exI [of _ st1]) simp
  with c' show ?thesis by blast
qed

definition pauses_first :: "nat \<Rightarrow> ngx_rc \<times> nat \<times> host_effect list" where
  "pauses_first n = (NGX_OK, if n = 0 then 1 else 0, [])"

theorem chain_resume_paused_witness:
  "\<exists>ctx'. map_option (\<lambda>(rc, st). (rc, ctxs st 20)) (ngx_proxy_wasm_resume True (demo_guest pauses_first) 20 STEP_REQ_HEADERS demo_pw)
    = Some (NGX_AGAIN, Some ctx') \<and> action ctx' = ACTION_PAUSE"
proof -
  have "map_option fst (ngx_proxy_wasm_resume True (demo_guest pauses_first) 20 STEP_REQ_HEADERS demo_pw) = Some NGX_AGAIN"
    by code_simp
  then obtain st' where r: "ngx_proxy_wasm_resume True (demo_guest pauses_first) 20 STEP_REQ_HEADERS demo_pw = Some (NGX_AGAIN, st')"
    by auto
  from chain_resume_paused [OF demo_can_resume r] r show ?thesis by auto
qed

text \<open>Later steps of a stream, each with the guest code of the moment: their return codes and the final state.\<close>

fun later_steps :: "bool \<Rightarrow> ref \<Rightarrow> (pw_step \<times> 'g guest) list \<Rightarrow> 'g pw \<Rightarrow> (ngx_rc list \<times> 'g pw) option" where
  "later_steps dbg c [] st = Some ([], st)"
| "later_steps dbg c ((stp, G) # ops) st = do {
     (rc, st1) \<leftarrow> ngx_proxy_wasm_resume dbg G c stp st;
     (rcs, st2) \<leftarrow> later_steps dbg c ops st1;
     Some (rc # rcs, st2) }"

text \<open>The steps that go on at the current filter: not the end of the stream, and not the response headers when they reset the chain.\<close>

definition goes_on :: "pwctx \<Rightarrow> pw_step \<Rightarrow> bool" where
  "goes_on ctx stp \<longleftrightarrow> stp \<noteq> STEP_DONE \<and> (stp = STEP_RESP_HEADERS \<longrightarrow> step_num STEP_RESP_HEADERS \<le> last_step_num ctx)"

definition failed_with :: "bool \<Rightarrow> ref \<Rightarrow> pwctx \<Rightarrow> 'g pw \<Rightarrow> bool" where
  "failed_with dbg c ctx0 st \<longleftrightarrow> (\<exists>ctx x. ctxs st c = Some ctx \<and> exec_index ctx < length (pwexecs ctx) \<and>
     length (pwexecs ctx) = nfilters ctx \<and> last_completed_step ctx = last_completed_step ctx0 \<and>
     execs st (pwexecs ctx ! exec_index ctx) = Some x \<and> ecode x \<noteq> ERR_NONE \<and> ngx_wa_assert dbg (root_id x \<noteq> ROOT_CTX_ID))"

lemma failed_resume:
  assumes "failed_with dbg c ctx0 st" and "goes_on ctx0 stp"
  shows "\<exists>st'. ngx_proxy_wasm_resume dbg G c stp st = Some (if completed stp ctx0 then NGX_OK else NGX_HTTP 500, st') \<and>
    world st' = world st \<and> insts st' = insts st \<and> failed_with dbg c ctx0 st'"
proof -
  from assms(1) obtain ctx x where c: "ctxs st c = Some ctx" "exec_index ctx < length (pwexecs ctx)" "length (pwexecs ctx) = nfilters ctx"
      and l: "last_completed_step ctx = last_completed_step ctx0"
      and x: "execs st (pwexecs ctx ! exec_index ctx) = Some x" "ecode x \<noteq> ERR_NONE" "ngx_wa_assert dbg (root_id x \<noteq> ROOT_CTX_ID)"
    by (auto simp: failed_with_def)
  have same: "last_step_num ctx = last_step_num ctx0" "completed stp ctx = completed stp ctx0"
    using l by (simp_all add: last_step_num_def completed_def)
  have i: "start_index stp ctx = exec_index ctx" "stp \<noteq> STEP_DONE"
    using assms(2) same by (auto simp: start_index_def goes_on_def)
  show ?thesis
  proof (cases "completed stp ctx0")
    case False
    with c i x l same show ?thesis
      by (auto simp: resume_unfold [OF c(1)] entered_def upt_conv_Cons filter_begin_def action2rc_def prev_error_def
          ngx_http_proxy_wasm_ecode_def upd_exec_def failed_with_def ngx_wa_assert_def)
  next
    case True
    with c i x l same show ?thesis by (simp add: resume_unfold [OF c(1)] failed_with_def)
  qed
qed

lemma failed_later_steps:
  assumes "failed_with dbg c ctx0 st" and "\<forall>(stp, G) \<in> set ops. goes_on ctx0 stp"
  shows "\<exists>st'. later_steps dbg c ops st = Some (map (\<lambda>(stp, G). if completed stp ctx0 then NGX_OK else NGX_HTTP 500) ops, st') \<and>
    world st' = world st \<and> insts st' = insts st"
  using assms
proof (induction ops arbitrary: st)
  case (Cons op ops)
  obtain stp G where op: "op = (stp, G)" by force
  with Cons.prems have "goes_on ctx0 stp" by auto
  from failed_resume [OF Cons.prems(1) this, of G] obtain st1 where
    st1: "ngx_proxy_wasm_resume dbg G c stp st = Some (if completed stp ctx0 then NGX_OK else NGX_HTTP 500, st1)"
      "world st1 = world st" "insts st1 = insts st" "failed_with dbg c ctx0 st1" by blast
  from Cons.IH [OF st1(4)] Cons.prems(2) st1(1-3) show ?case by (auto simp: op)
qed simp

text \<open>
  C9. A failed chain stays failed. Let a step other than the response body return an error. Every sequence of later steps
  of the stream is then defined and enters no instance: each of these steps is refused with the error code of the
  subsystem, except that a step that was completed before is reported as such. This holds for the steps that go on
  at the current filter: not for the end of the stream, which releases the contexts, and not for the first response
  headers step, which resets the chain to its first filter. A debug build asserts that the filters are
  those of a stream, which is a hypothesis there.
\<close>

theorem chain_failure_sticks:
  assumes "can_resume c st ctx stp" and "ngx_proxy_wasm_resume dbg G c stp st = Some (rc, st1)" and "failure rc"
    and "stp \<noteq> STEP_RESP_BODY" and "ctxs st1 c = Some ctx1" and "\<forall>(stp2, G2) \<in> set ops. goes_on ctx1 stp2"
    and "\<forall>e \<in> set (pwexecs ctx1). \<forall>x. execs st1 e = Some x \<longrightarrow> ngx_wa_assert dbg2 (root_id x \<noteq> ROOT_CTX_ID)"
  shows "\<exists>st2. later_steps dbg2 c ops st1 =
      Some (map (\<lambda>(stp2, G2). if completed stp2 ctx1 then NGX_OK else NGX_HTTP 500) ops, st2) \<and>
    world st2 = world st1 \<and> insts st2 = insts st1"
proof (rule failed_later_steps [OF _ assms(6)])
  from resume_spec [OF assms(1,2)] assms(3,4) have "failed_at c st1" by (auto simp: chain_ends_def)
  then obtain x where "exec_index ctx1 < length (pwexecs ctx1)" "length (pwexecs ctx1) = nfilters ctx1"
    "execs st1 (pwexecs ctx1 ! exec_index ctx1) = Some x" "ecode x \<noteq> ERR_NONE" using assms(5) by (auto simp: failed_at_def)
  moreover from this have "ngx_wa_assert dbg2 (root_id x \<noteq> ROOT_CTX_ID)" using assms(7) nth_mem by blast
  ultimately show "failed_with dbg2 c ctx1 st1" using assms(5) by (simp add: failed_with_def)
qed

definition traps_first :: "nat \<Rightarrow> ngx_rc \<times> nat \<times> host_effect list" where
  "traps_first n = (if n = 0 then NGX_ABORT else NGX_OK, 0, [])"

definition demo_failed :: "nat pw" where
  "demo_failed = (case ngx_proxy_wasm_resume True (demo_guest traps_first) 20 STEP_REQ_HEADERS demo_pw of Some (_, st) \<Rightarrow> st | None \<Rightarrow> demo_pw)"

theorem chain_failure_sticks_witness:
  "\<exists>st2. later_steps True 20 [(STEP_REQ_BODY, demo_guest calm), (STEP_TICK, demo_guest traps_first)] demo_failed =
      Some ([NGX_HTTP 500, NGX_HTTP 500], st2) \<and> world st2 = world demo_failed \<and> insts st2 = insts demo_failed"
proof -
  have "map_option fst (ngx_proxy_wasm_resume True (demo_guest traps_first) 20 STEP_REQ_HEADERS demo_pw) = Some (NGX_HTTP 500)"
    by code_simp
  then have run: "ngx_proxy_wasm_resume True (demo_guest traps_first) 20 STEP_REQ_HEADERS demo_pw = Some (NGX_HTTP 500, demo_failed)"
    by (auto simp: demo_failed_def)
  define ctx1 where "ctx1 = the (ctxs demo_failed 20)"
  have c: "ctxs demo_failed 20 = Some ctx1" unfolding ctx1_def by (rule option.collapse [symmetric]) code_simp
  have on: "goes_on ctx1 STEP_REQ_BODY" "goes_on ctx1 STEP_TICK" by (simp_all add: goes_on_def)
  have nc: "completed STEP_REQ_BODY ctx1 = False" "completed STEP_TICK ctx1 = False" unfolding ctx1_def by code_simp+
  have "\<forall>e \<in> set (pwexecs ctx1). \<forall>x \<in> set_option (execs demo_failed e). ngx_wa_assert True (root_id x \<noteq> ROOT_CTX_ID)"
    unfolding ctx1_def by code_simp
  then have "\<forall>e \<in> set (pwexecs ctx1). \<forall>x. execs demo_failed e = Some x \<longrightarrow> ngx_wa_assert True (root_id x \<noteq> ROOT_CTX_ID)" by auto
  from chain_failure_sticks [OF demo_can_resume run _ _ c _ this,
      of "[(STEP_REQ_BODY, demo_guest calm), (STEP_TICK, demo_guest traps_first)]"] on nc
  show ?thesis by simp
qed

text \<open>
  C16. A filter may not pause in the trailers, log and other phases outside of the listed ones. The chain
  has moved its index past the filter by then, and the error is recorded in the element of the
  array at the index: the filter behind it is marked as failed and the one that paused is not, and
  behind the last filter the code writes out of the bounds of the array.
\<close>

theorem chain_pause_wrong_filter:
  assumes "ctxs st c = Some ctx" and "length (pwexecs ctx) = nfilters ctx" and "exec_index ctx < nfilters ctx"
    and "e = pwexecs ctx ! exec_index ctx" and "execs st e = Some x" and "ecode x = ERR_NONE" and "root_id x \<noteq> ROOT_CTX_ID"
    and "action ctx = ACTION_PAUSE" and "step ctx = Some STEP_RESP_TRAILERS" and "phase ctx = Some TRAILER_FILTER_PHASE"
  shows "if Suc (exec_index ctx) = nfilters ctx then filter_end dbg c STEP_RESP_TRAILERS e st = None
    else \<forall>y. execs st (pwexecs ctx ! Suc (exec_index ctx)) = Some y \<longrightarrow> pwexecs ctx ! Suc (exec_index ctx) \<noteq> e \<longrightarrow>
      (\<exists>st'. filter_end dbg c STEP_RESP_TRAILERS e st = Some (Inl NGX_ERROR, st') \<and> execs st' e = Some x \<and>
        execs st' (pwexecs ctx ! Suc (exec_index ctx)) = Some (y\<lparr>ecode := ERR_RETURN_ACTION\<rparr>))"
  using assms by (auto simp: filter_end_def upd_ctx_def advance_def action2rc_def pause2rc_def upd_exec_def unknown_error_def)

definition demo_trailers :: "nat \<Rightarrow> pwctx" where
  "demo_trailers n = demo_ctx\<lparr>phase := Some TRAILER_FILTER_PHASE, step := Some STEP_RESP_TRAILERS, action := ACTION_PAUSE, exec_index := n\<rparr>"

theorem chain_pause_wrong_filter_witness:
  "filter_end False 20 STEP_RESP_TRAILERS 11 (demo_pw\<lparr>ctxs := [20 \<mapsto> demo_trailers 1]\<rparr>) = None"
proof -
  let ?ctx = "demo_trailers 1" and ?st = "demo_pw\<lparr>ctxs := [20 \<mapsto> demo_trailers 1]\<rparr>"
  have "if Suc (exec_index ?ctx) = nfilters ?ctx then filter_end False 20 STEP_RESP_TRAILERS 11 ?st = None
    else \<forall>y. execs ?st (pwexecs ?ctx ! Suc (exec_index ?ctx)) = Some y \<longrightarrow> pwexecs ?ctx ! Suc (exec_index ?ctx) \<noteq> 11 \<longrightarrow>
      (\<exists>st'. filter_end False 20 STEP_RESP_TRAILERS 11 ?st = Some (Inl NGX_ERROR, st') \<and> execs st' 11 = Some (demo_exec 2 20 6 2) \<and>
        execs st' (pwexecs ?ctx ! Suc (exec_index ?ctx)) = Some (y\<lparr>ecode := ERR_RETURN_ACTION\<rparr>))"
    by (rule chain_pause_wrong_filter) (simp_all add: demo_trailers_def demo_defs ROOT_CTX_ID_def)
  moreover have "Suc (exec_index ?ctx) = nfilters ?ctx" by (simp add: demo_trailers_def demo_ctx_def)
  ultimately show ?thesis by argo
qed

end
