(* ===== verification/Wasm_Ops.thy ===== *)
theory Wasm_Ops
  imports Proxy_Wasm_Control
begin

text \<open>
  The plans and pipelines of operations (src/src/wasm/ngx_wasm_ops.c): a plan has, for each phase of a request, a
  pipeline of operations, each a call of a function of a module or a filter of the proxy-wasm chain.
  Building and loading a plan, and running the pipeline of a phase.

  Operations are objects shared by the pipelines. An array whose memory could not be
  allocated is \<open>None\<close> (the return value of \<open>ngx_array_init\<close> is not looked at), and adding an
  element to it is undefined; adding an element asks the allocator every time, which includes the runs in
  which only a full array does. Linking a module to a host interface and reading the
  body of the client are parameters.
\<close>

section \<open>Phases\<close>

text \<open>The numbers of the phases: those of nginx, and behind them those of the module.\<close>

fun phase_index :: "ngx_phase \<Rightarrow> nat" where
  "phase_index POST_READ_PHASE = 0"
| "phase_index REWRITE_PHASE = 3"
| "phase_index PREACCESS_PHASE = 5"
| "phase_index ACCESS_PHASE = 6"
| "phase_index CONTENT_PHASE = 9"
| "phase_index LOG_PHASE = 10"
| "phase_index HEADER_FILTER_PHASE = 11"
| "phase_index BODY_FILTER_PHASE = 12"
| "phase_index TRAILER_FILTER_PHASE = 13"
| "phase_index DONE_PHASE = 15"
| "phase_index BACKGROUND_PHASE = 16"

definition ngx_http_wasm_phases :: "ngx_phase list" where
  "ngx_http_wasm_phases = [POST_READ_PHASE, REWRITE_PHASE, PREACCESS_PHASE, ACCESS_PHASE, CONTENT_PHASE, HEADER_FILTER_PHASE,
     BODY_FILTER_PHASE, TRAILER_FILTER_PHASE, LOG_PHASE, DONE_PHASE, BACKGROUND_PHASE]"

text \<open>The bit of a phase; the phase \<open>post_read\<close> has none.\<close>

definition phase_on :: "ngx_phase \<Rightarrow> nat" where
  "phase_on ph = (if ph = POST_READ_PHASE then 0 else 2 ^ phase_index ph)"

definition nphases :: nat where "nphases = 17"

definition ngx_wasm_phase_lookup :: "nat \<Rightarrow> ngx_phase option" where
  "ngx_wasm_phase_lookup phaseidx = find (\<lambda>ph. phase_index ph = phaseidx) ngx_http_wasm_phases"

section \<open>Plans\<close>

datatype op_conf = Op_call nat string "string option" | Op_proxy_wasm ref | Op_unknown

datatype op_handler = Call_handler | Proxy_wasm_handler

record wasm_op =
  on_phases :: nat
  op_module :: pw_module
  op_conf :: op_conf
  op_handler :: "op_handler option"

record ops_plan =
  pipelines :: "nat \<Rightarrow> ref list option"
  filter_ids :: "nat list"
  populated :: bool
  loaded :: bool

text \<open>The operations, the root of the filters, and the proxy-wasm layer.\<close>

record 'g wops =
  w_ops :: "ref \<rightharpoonup> wasm_op"
  w_root :: pw_root
  w_pw :: "'g pw"

definition w_alloc :: "'g guest \<Rightarrow> 'g wops \<Rightarrow> bool \<times> 'g wops" where
  "w_alloc G s = (let (ok, st) = alloc G (w_pw s) in (ok, s\<lparr>w_pw := st\<rparr>))"

fun init_pipelines :: "'g guest \<Rightarrow> nat list \<Rightarrow> (nat \<Rightarrow> ref list option) \<Rightarrow> 'g wops \<Rightarrow> (nat \<Rightarrow> ref list option) \<times> 'g wops" where
  "init_pipelines G [] p s = (p, s)"
| "init_pipelines G (i # is) p s =
     (let (ok, s1) = w_alloc G s in init_pipelines G is (p(i := if ok then Some [] else None)) s1)"

definition ngx_wasm_ops_plan_new :: "'g guest \<Rightarrow> 'g wops \<Rightarrow> ops_plan option \<times> 'g wops" where
  "ngx_wasm_ops_plan_new G s =
     (let (ok1, s1) = w_alloc G s in
      if \<not> ok1 then (None, s1)
      else let (ok2, s2) = w_alloc G s1 in
        if \<not> ok2 then (None, s2)
        else let (p, s3) = init_pipelines G [0..<nphases] (\<lambda>_. None) s2 in
          (Some \<lparr>pipelines = p, filter_ids = [], populated = False, loaded = False\<rparr>, s3))"

text \<open>\<open>addr\<close> is the address of the field \<open>conf.proxy_wasm.filter\<close> of an operation.\<close>

fun add_to_phases ::
  "'g guest \<Rightarrow> (ref \<Rightarrow> u64) \<Rightarrow> ref \<Rightarrow> ngx_phase list \<Rightarrow> ops_plan \<Rightarrow> 'g wops \<Rightarrow> ((ngx_rc \<times> ops_plan) \<times> 'g wops) option" where
  "add_to_phases G addr r [] plan s = Some ((NGX_OK, plan), s)"
| "add_to_phases G addr r (ph # phs) plan s = do {
     opr \<leftarrow> w_ops s r;
     if on_phases opr AND phase_on ph = 0 then add_to_phases G addr r phs plan s
     else do {
       st \<leftarrow> (case op_conf opr of
                Op_proxy_wasm f \<Rightarrow> upd_filter f (\<lambda>x. x\<lparr>f_data := addr r\<rparr>) (w_pw s)
              | _ \<Rightarrow> Some (w_pw s));
       xs \<leftarrow> pipelines plan (phase_index ph);
       let (ok, s2) = w_alloc G (s\<lparr>w_pw := st\<rparr>);
       if \<not> ok then Some ((NGX_ERROR, plan), s2)
       else add_to_phases G addr r phs
              (plan\<lparr>pipelines := (pipelines plan)(phase_index ph \<mapsto> xs @ [r]), populated := True\<rparr>) s2 } }"

fun ngx_wasm_ops_plan_add ::
  "'g guest \<Rightarrow> (ref \<Rightarrow> u64) \<Rightarrow> ref list \<Rightarrow> ops_plan \<Rightarrow> 'g wops \<Rightarrow> ((ngx_rc \<times> ops_plan) \<times> 'g wops) option" where
  "ngx_wasm_ops_plan_add G addr [] plan s = Some ((NGX_OK, plan), s)"
| "ngx_wasm_ops_plan_add G addr (r # rs) plan s = do {
     ((rc, plan1), s1) \<leftarrow> add_to_phases G addr r ngx_http_wasm_phases plan s;
     if rc = NGX_ERROR then Some ((NGX_ERROR, plan1), s1) else ngx_wasm_ops_plan_add G addr rs plan1 s1 }"

text \<open>
  Loading: \<open>link\<close> is \<open>ngx_wavm_module_link\<close>. The index of a call is its position in the pipeline.
\<close>

definition load_op ::
  "(bytes \<Rightarrow> u32) \<Rightarrow> bool \<Rightarrow> (nat \<Rightarrow> 'g \<Rightarrow> bool \<times> 'g) \<Rightarrow> nat \<Rightarrow> ref \<Rightarrow> 'g wops \<Rightarrow> (ngx_rc \<times> 'g wops) option" where
  "load_op crc32 dbg link j r s = do {
     opr \<leftarrow> w_ops s r;
     let (ok, w) = link (m_id (op_module opr)) (world (w_pw s));
     let s1 = s\<lparr>w_pw := (w_pw s)\<lparr>world := w\<rparr>\<rparr>;
     if \<not> ok then Some (NGX_ERROR, s1)
     else (case op_conf opr of
        Op_proxy_wasm f \<Rightarrow> do {
          (rc, tree, st) \<leftarrow> ngx_proxy_wasm_load crc32 dbg (pr_tree (w_root s1)) f (w_pw s1);
          Some (if rc \<noteq> NGX_OK then NGX_ERROR else NGX_OK,
                s1\<lparr>w_ops := (w_ops s1)(r \<mapsto> opr\<lparr>op_handler := Some Proxy_wasm_handler\<rparr>),
                   w_root := (w_root s1)\<lparr>pr_tree := tree\<rparr>, w_pw := st\<rparr>) }
      | Op_call _ name _ \<Rightarrow>
          Some (NGX_OK, s1\<lparr>w_ops := (w_ops s1)(r \<mapsto> opr\<lparr>op_handler := Some Call_handler,
                             op_conf := Op_call j name (get_func (m_exports (op_module opr)) name)\<rparr>)\<rparr>)
      | Op_unknown \<Rightarrow> Some (NGX_ERROR, s1)) }"

fun load_pipeline ::
  "(bytes \<Rightarrow> u32) \<Rightarrow> bool \<Rightarrow> (nat \<Rightarrow> 'g \<Rightarrow> bool \<times> 'g) \<Rightarrow> nat \<Rightarrow> ref list \<Rightarrow> 'g wops \<Rightarrow> (ngx_rc \<times> 'g wops) option" where
  "load_pipeline crc32 dbg link j [] s = Some (NGX_OK, s)"
| "load_pipeline crc32 dbg link j (r # rs) s = do {
     (rc, s1) \<leftarrow> load_op crc32 dbg link j r s;
     if rc \<noteq> NGX_OK then Some (NGX_ERROR, s1) else load_pipeline crc32 dbg link (Suc j) rs s1 }"

text \<open>The operations of a pipeline; an array without memory has no elements.\<close>

definition pipeline_ops :: "ops_plan \<Rightarrow> nat \<Rightarrow> ref list" where
  "pipeline_ops plan i = (case pipelines plan i of None \<Rightarrow> [] | Some xs \<Rightarrow> xs)"

fun load_pipelines ::
  "(bytes \<Rightarrow> u32) \<Rightarrow> bool \<Rightarrow> (nat \<Rightarrow> 'g \<Rightarrow> bool \<times> 'g) \<Rightarrow> ops_plan \<Rightarrow> nat list \<Rightarrow> 'g wops \<Rightarrow> (ngx_rc \<times> 'g wops) option" where
  "load_pipelines crc32 dbg link plan [] s = Some (NGX_OK, s)"
| "load_pipelines crc32 dbg link plan (i # is) s = do {
     (rc, s1) \<leftarrow> load_pipeline crc32 dbg link 0 (pipeline_ops plan i) s;
     if rc \<noteq> NGX_OK then Some (NGX_ERROR, s1) else load_pipelines crc32 dbg link plan is s1 }"

text \<open>The list of filter ids, from the pipeline of the rewrite phase; \<open>ids\<close> is the array built so far.\<close>

fun collect_ids :: "'g guest \<Rightarrow> ref list \<Rightarrow> nat list option \<Rightarrow> 'g wops \<Rightarrow> ((ngx_rc \<times> nat list) \<times> 'g wops) option" where
  "collect_ids G [] ids s = Some ((NGX_OK, case ids of None \<Rightarrow> [] | Some is \<Rightarrow> is), s)"
| "collect_ids G (r # rs) ids s = do {
     opr \<leftarrow> w_ops s r;
     case op_conf opr of
       Op_proxy_wasm f \<Rightarrow> do {
         is \<leftarrow> ids;
         let (ok, s1) = w_alloc G s;
         if \<not> ok then Some ((NGX_ERROR, is), s1)
         else do { flt \<leftarrow> filters (w_pw s1) f; collect_ids G rs (Some (is @ [f_id flt])) s1 } }
     | _ \<Rightarrow> collect_ids G rs ids s }"

definition ngx_wasm_ops_plan_load ::
  "(bytes \<Rightarrow> u32) \<Rightarrow> bool \<Rightarrow> (nat \<Rightarrow> 'g \<Rightarrow> bool \<times> 'g) \<Rightarrow> 'g guest \<Rightarrow> ops_plan \<Rightarrow> 'g wops \<Rightarrow> ((ngx_rc \<times> ops_plan) \<times> 'g wops) option" where
  "ngx_wasm_ops_plan_load crc32 dbg link G plan s =
     (if loaded plan then Some ((NGX_OK, plan), s)
      else do {
        (rc, s1) \<leftarrow> load_pipelines crc32 dbg link plan [0..<nphases] s;
        if rc \<noteq> NGX_OK then Some ((NGX_ERROR, plan), s1)
        else do {
          let (ok, s2) = w_alloc G s1;
          ((rc, ids), s3) \<leftarrow> collect_ids G (pipeline_ops plan (phase_index REWRITE_PHASE)) (if ok then Some [] else None) s2;
          Some (if rc \<noteq> NGX_OK then (NGX_ERROR, plan\<lparr>filter_ids := ids\<rparr>)
                else (NGX_OK, plan\<lparr>filter_ids := ids, loaded := True\<rparr>), s3) } })"

section \<open>Running a pipeline\<close>

text \<open>
  The context of the operations of a request. \<open>o_data\<close> is the request: the object whose field
  \<open>rctx\<close> is the context of the request, which becomes the proxy-wasm context when a filter first runs.
\<close>

record op_ctx =
  o_plan :: ops_plan
  last_phase :: "ngx_phase option"
  cur_idx :: nat
  o_isolation :: pw_isolation
  o_req_headers_in_access :: bool
  o_data :: ref

definition ngx_wasm_ops_plan_attach :: "bool \<Rightarrow> ops_plan \<Rightarrow> op_ctx \<Rightarrow> (ngx_rc \<times> op_ctx) option" where
  "ngx_wasm_ops_plan_attach dbg plan ctx =
     (if ngx_wa_assert dbg (loaded plan) then Some (NGX_OK, ctx\<lparr>o_plan := plan\<rparr>) else None)"

text \<open>What the host functions of a called function write: the context of the request.\<close>

definition op_effect :: "ref \<Rightarrow> host_effect \<Rightarrow> 'g pw \<Rightarrow> 'g pw option" where
  "op_effect c eff st = (case eff of Request rq \<Rightarrow> upd_rctx c (\<lambda>_. rq) st | _ \<Rightarrow> Some st)"

definition env_of :: "ref \<Rightarrow> 'g pw \<Rightarrow> env_state option" where
  "env_of c st = do { ctx \<leftarrow> ctxs st c; rq \<leftarrow> rctx ctx; Some (env_state rq) }"

text \<open>A new instance is made for the call and destroyed behind it.\<close>

definition ngx_wasm_op_call_handler ::
  "bool \<Rightarrow> 'g guest \<Rightarrow> wasm_op \<Rightarrow> op_ctx \<Rightarrow> 'g pw \<Rightarrow> ((ngx_rc \<times> op_ctx) \<times> 'g pw) option" where
  "ngx_wasm_op_call_handler dbg G opr ctx st =
     (case op_conf opr of
        Op_call idx name fn \<Rightarrow>
          (case fn of
             None \<Rightarrow> Some ((NGX_ERROR, ctx), st)
           | Some f \<Rightarrow>
               if cur_idx ctx > idx then Some ((NGX_DECLINED, ctx), st)
               else
                 let (ok, w) = g_instantiate G (m_id (op_module opr)) (world st); st1 = st\<lparr>world := w\<rparr> in
                 if \<not> ok then Some ((NGX_ERROR, ctx), st1)
                 else do {
                   let ((rc, ret, effs), w) = g_call G f (fresh st1) [] (world st1);
                   st2 \<leftarrow> each (op_effect (o_data ctx)) effs (st1\<lparr>world := w\<rparr>);
                   let ctx1 = ctx\<lparr>cur_idx := Suc (cur_idx ctx)\<rparr>;
                   if rc = NGX_ERROR \<or> rc = NGX_ABORT then Some ((NGX_ERROR, ctx1), st2)
                   else if \<not> ngx_wa_assert dbg (rc = NGX_OK) then None
                   else do {
                     state \<leftarrow> env_of (o_data ctx) st2;
                     Some ((case state of STATE_YIELD \<Rightarrow> NGX_AGAIN | STATE_ERROR \<Rightarrow> NGX_ERROR
                              | STATE_CONTINUE \<Rightarrow> NGX_DECLINED, ctx1), st2) } })
      | _ \<Rightarrow> None)"

text \<open>
  \<open>ngx_http_proxy_wasm_ctx\<close>: the proxy-wasm context of the request, allocated when the first filter runs.
  \<open>in_access\<close> is the directive \<open>proxy_wasm_request_headers_in_access\<close> of the location.
\<close>

definition ngx_http_proxy_wasm_ctx :: "'g guest \<Rightarrow> bool \<Rightarrow> ref \<Rightarrow> 'g pw \<Rightarrow> (ref option \<times> 'g pw) option" where
  "ngx_http_proxy_wasm_ctx G in_access c st = do {
     ctx \<leftarrow> ctxs st c;
     if c_init ctx then Some (Some c, st)
     else let (ok, st1) = allocs G 2 st in
       if \<not> ok then Some (None, st1)
       else do { st2 \<leftarrow> upd_ctx c (\<lambda>x. x\<lparr>req_headers_in_access := in_access\<rparr>) st1; Some (Some c, st2) } }"

text \<open>
  The content phase. \<open>read_body\<close> is \<open>ngx_http_wasm_read_client_request_body\<close> with the handler that is called once
  the body is there.
\<close>

definition content_read_body ::
  "(ref \<Rightarrow> 'g pw \<Rightarrow> (ngx_rc \<times> 'g pw) option) \<Rightarrow> ref \<Rightarrow> 'g pw \<Rightarrow> (ngx_rc \<times> 'g pw) option" where
  "content_read_body read_body c st = do {
     (rc, st1) \<leftarrow> read_body c st;
     if rc = NGX_OK then do {
       ctx \<leftarrow> ctxs st1 c;
       rq \<leftarrow> rctx ctx;
       Some (if env_state rq = STATE_YIELD then NGX_AGAIN
             else if env_state rq = STATE_ERROR then NGX_HTTP 500
             else if req_body_received rq \<and> \<not> resp_content_chosen rq then NGX_DONE else NGX_OK, st1) }
     else if rc = NGX_AGAIN then do { st2 \<leftarrow> upd_rctx c (\<lambda>r. r\<lparr>req_body_waited := True\<rparr>) st1; Some (rc, st2) }
     else Some (rc, st1) }"

definition content_resume_body :: "bool \<Rightarrow> 'g guest \<Rightarrow> ref \<Rightarrow> 'g pw \<Rightarrow> (ngx_rc \<times> 'g pw) option" where
  "content_resume_body dbg G c st = do {
     (rc, st1) \<leftarrow> ngx_proxy_wasm_resume dbg G c STEP_REQ_BODY st;
     if rc = NGX_ERROR \<or> rc = NGX_HTTP 500 then do { st2 \<leftarrow> upd_rctx c (\<lambda>r. r\<lparr>env_state := STATE_ERROR\<rparr>) st1; Some (rc, st2) }
     else if rc = NGX_AGAIN then do { st2 \<leftarrow> upd_rctx c (\<lambda>r. r\<lparr>env_state := STATE_YIELD\<rparr>) st1; Some (rc, st2) }
     else if rc = NGX_DONE then Some (NGX_OK, st1)
     else if ngx_wa_assert dbg (rc = NGX_OK) then Some (rc, st1) else None }"

definition op_content ::
  "bool \<Rightarrow> 'g guest \<Rightarrow> (ref \<Rightarrow> 'g pw \<Rightarrow> (ngx_rc \<times> 'g pw) option) \<Rightarrow> ref \<Rightarrow> 'g pw \<Rightarrow> (ngx_rc \<times> 'g pw) option" where
  "op_content dbg G read_body c st = do {
     ctx \<leftarrow> ctxs st c;
     rq \<leftarrow> rctx ctx;
     st1 \<leftarrow> (if req_content_length_n rq > 0 then upd_rctx c (\<lambda>r. r\<lparr>r_content_length_in := req_content_length_n r\<rparr>) st else Some st);
     if \<not> req_body_received rq then content_read_body read_body c st1
     else if req_body_len ctx \<noteq> 0 then content_resume_body dbg G c st1
     else Some (NGX_OK, st1) }"

text \<open>The step a phase resumes.\<close>

definition op_phase ::
  "bool \<Rightarrow> 'g guest \<Rightarrow> (ref \<Rightarrow> 'g pw \<Rightarrow> (ngx_rc \<times> 'g pw) option) \<Rightarrow> ngx_phase \<Rightarrow> ref \<Rightarrow> bool \<Rightarrow> 'g pw \<Rightarrow> (ngx_rc \<times> 'g pw) option" where
  "op_phase dbg G read_body ph c in_access st =
     (case ph of
        REWRITE_PHASE \<Rightarrow> if \<not> in_access then ngx_proxy_wasm_resume dbg G c STEP_REQ_HEADERS st else Some (NGX_OK, st)
      | ACCESS_PHASE \<Rightarrow> if in_access then ngx_proxy_wasm_resume dbg G c STEP_REQ_HEADERS st else Some (NGX_OK, st)
      | CONTENT_PHASE \<Rightarrow> op_content dbg G read_body c st
      | HEADER_FILTER_PHASE \<Rightarrow> ngx_proxy_wasm_resume dbg G c STEP_RESP_HEADERS st
      | BODY_FILTER_PHASE \<Rightarrow> ngx_proxy_wasm_resume dbg G c STEP_RESP_BODY st
      | TRAILER_FILTER_PHASE \<Rightarrow> ngx_proxy_wasm_resume dbg G c STEP_RESP_TRAILERS st
      | LOG_PHASE \<Rightarrow> ngx_proxy_wasm_resume dbg G c STEP_LOG st
      | DONE_PHASE \<Rightarrow> ngx_proxy_wasm_resume dbg G c STEP_DONE st
      | _ \<Rightarrow> Some (NGX_DECLINED, st))"

definition op_rc_ok :: "ngx_rc \<Rightarrow> bool" where
  "op_rc_ok rc = (case rc of NGX_OK \<Rightarrow> True | NGX_HTTP n \<Rightarrow> 300 \<le> n | NGX_ERROR \<Rightarrow> True | NGX_AGAIN \<Rightarrow> True
     | NGX_DECLINED \<Rightarrow> True | NGX_DONE \<Rightarrow> True | _ \<Rightarrow> False)"

text \<open>The settings of the location: its isolation mode and \<open>proxy_wasm_request_headers_in_access\<close>.\<close>

record loc_conf =
  l_isolation :: pw_isolation
  l_in_access :: bool

definition ngx_wasm_op_proxy_wasm_handler ::
  "bool \<Rightarrow> 'g guest \<Rightarrow> (ref \<Rightarrow> 'g pw \<Rightarrow> (ngx_rc \<times> 'g pw) option) \<Rightarrow> loc_conf \<Rightarrow> pw_root \<Rightarrow> ngx_phase \<Rightarrow> op_ctx \<Rightarrow> 'g pw \<Rightarrow>
    (ngx_rc \<times> 'g pw) option" where
  "ngx_wasm_op_proxy_wasm_handler dbg G read_body loc root ph ctx st = do {
     let mode = (if o_isolation ctx = ISOLATION_UNSET then l_isolation loc else o_isolation ctx);
     (c, st1) \<leftarrow> ngx_http_proxy_wasm_ctx G (l_in_access loc) (o_data ctx) st;
     (pwctx, st2) \<leftarrow> ngx_proxy_wasm_ctx dbg G (pr_tree root) (Some (filter_ids (o_plan ctx))) mode c st1;
     (rc, st3) \<leftarrow> (case pwctx of
        None \<Rightarrow> Some (NGX_ERROR, st2)
      | Some c \<Rightarrow> do {
          st3 \<leftarrow> upd_ctx c (\<lambda>x. x\<lparr>phase := Some ph, req_headers_in_access := o_req_headers_in_access ctx \<or> req_headers_in_access x\<rparr>) st2;
          x \<leftarrow> ctxs st3 c;
          op_phase dbg G read_body ph c (req_headers_in_access x) st3 });
     if ngx_wa_assert dbg (op_rc_ok rc) then Some (rc, st3) else None }"

definition run_op ::
  "bool \<Rightarrow> 'g guest \<Rightarrow> (ref \<Rightarrow> 'g pw \<Rightarrow> (ngx_rc \<times> 'g pw) option) \<Rightarrow> loc_conf \<Rightarrow> ngx_phase \<Rightarrow> ref \<Rightarrow> op_ctx \<Rightarrow> 'g wops \<Rightarrow>
    ((ngx_rc \<times> op_ctx) \<times> 'g wops) option" where
  "run_op dbg G read_body loc ph r ctx s = do {
     opr \<leftarrow> w_ops s r;
     h \<leftarrow> op_handler opr;
     case h of
       Call_handler \<Rightarrow> do {
         ((rc, ctx1), st) \<leftarrow> ngx_wasm_op_call_handler dbg G opr ctx (w_pw s);
         Some ((rc, ctx1), s\<lparr>w_pw := st\<rparr>) }
     | Proxy_wasm_handler \<Rightarrow> do {
         (rc, st) \<leftarrow> ngx_wasm_op_proxy_wasm_handler dbg G read_body loc (w_root s) ph ctx (w_pw s);
         Some ((rc, ctx), s\<lparr>w_pw := st\<rparr>) } }"

text \<open>The loop over the pipeline. \<open>Inl rc\<close> is a jump to \<open>done\<close>.\<close>

fun is_status :: "ngx_rc \<Rightarrow> bool" where
  "is_status (NGX_HTTP n) = (0 < n)"
| "is_status _ = False"

fun run_pipeline ::
  "bool \<Rightarrow> 'g guest \<Rightarrow> (ref \<Rightarrow> 'g pw \<Rightarrow> (ngx_rc \<times> 'g pw) option) \<Rightarrow> loc_conf \<Rightarrow> ngx_phase \<Rightarrow> ref list \<Rightarrow> op_ctx \<Rightarrow> 'g wops \<Rightarrow>
    (((ngx_rc + ngx_rc) \<times> op_ctx) \<times> 'g wops) option" where
  "run_pipeline dbg G read_body loc ph [] ctx s = Some ((Inr NGX_DECLINED, ctx), s)"
| "run_pipeline dbg G read_body loc ph (r # rs) ctx s = do {
     ((rc, ctx1), s1) \<leftarrow> run_op dbg G read_body loc ph r ctx s;
     if rc = NGX_ERROR \<or> is_status rc then Some ((Inl rc, ctx1), s1)
     else if rc = NGX_DECLINED then run_pipeline dbg G read_body loc ph rs ctx1 s1
     else Some ((Inr rc, ctx1), s1) }"

definition ngx_wasm_ops_resume ::
  "bool \<Rightarrow> 'g guest \<Rightarrow> (ref \<Rightarrow> 'g pw \<Rightarrow> (ngx_rc \<times> 'g pw) option) \<Rightarrow> loc_conf \<Rightarrow> nat \<Rightarrow> op_ctx \<Rightarrow> 'g wops \<Rightarrow>
    ((ngx_rc \<times> op_ctx) \<times> 'g wops) option" where
  "ngx_wasm_ops_resume dbg G read_body loc phaseidx ctx s =
     (case ngx_wasm_phase_lookup phaseidx of
        None \<Rightarrow> Some ((NGX_DECLINED, ctx), s)
      | Some ph \<Rightarrow> do {
          let ctx1 = (if last_phase ctx \<noteq> None \<and> last_phase ctx \<noteq> Some ph then ctx\<lparr>cur_idx := 0\<rparr> else ctx);
          ((r, ctx2), s2) \<leftarrow> run_pipeline dbg G read_body loc ph (pipeline_ops (o_plan ctx1) (phase_index ph)) ctx1 s;
          case r of
            Inl rc \<Rightarrow> Some ((rc, ctx2), s2)
          | Inr rc \<Rightarrow>
              if ngx_wa_assert dbg (rc = NGX_OK \<or> rc = NGX_DECLINED \<or> rc = NGX_AGAIN \<or> rc = NGX_DONE)
              then Some ((rc, ctx2\<lparr>last_phase := Some ph\<rparr>), s2) else None })"

end
