(* ===== verification/Proxy_Wasm_Filters.thy ===== *)
theory Proxy_Wasm_Filters
  imports Proxy_Wasm_Control
begin

text \<open>
  Properties of the loading of filters and of the choice of an instance: which modules are
  accepted as filters, what an accepted module may still lack, and which instances are reused.
\<close>

section \<open>Modules that are accepted\<close>

text \<open>The first known version among the exports decides.\<close>

lemma get_abi_version_exported:
  "get_abi_version dbg exports = ABI_0_1_0 \<Longrightarrow> ''proxy_abi_version_0_1_0'' \<in> set exports"
  "get_abi_version dbg exports = ABI_0_2_0 \<Longrightarrow> ''proxy_abi_version_0_2_0'' \<in> set exports"
  "get_abi_version dbg exports = ABI_0_2_1 \<Longrightarrow> ''proxy_abi_version_0_2_1'' \<in> set exports"
  by (induction exports) (auto split: if_splits)

lemma get_abi_version_unknown:
  "get_abi_version dbg exports = ABI_UNKNOWN \<longleftrightarrow>
     set exports \<inter> {''proxy_abi_version_0_1_0'', ''proxy_abi_version_0_2_0'', ''proxy_abi_version_0_2_1''} = {} \<and>
     (dbg \<longrightarrow> ''proxy_abi_version_vnext'' \<notin> set exports)"
  by (induction exports) auto

lemma get_abi_version_vnext: "\<not> dbg \<Longrightarrow> get_abi_version dbg exports \<noteq> ABI_VNEXT"
  by (induction exports) auto

lemma resolve_required:
  "resolve_handler abi exports ''proxy_on_context_create'' = get_func exports ''proxy_on_context_create''"
  "resolve_handler abi exports ''proxy_on_vm_start'' = get_func exports ''proxy_on_vm_start''"
  "before_vnext abi \<Longrightarrow> resolve_handler abi exports ''proxy_on_plugin_start'' = get_func exports ''proxy_on_configure''"
  "before_vnext abi \<Longrightarrow> resolve_handler abi exports ''proxy_on_log'' = get_func exports ''proxy_on_log''"
  "before_vnext abi \<Longrightarrow> resolve_handler abi exports ''proxy_on_done'' = get_func exports ''proxy_on_done''"
  by (simp_all add: resolve_handler_def handler_table_def)

text \<open>
  C14. \<open>ngx_proxy_wasm_filter_init_abi\<close> accepts a module, for a filter without a previous error, exactly when
  it exports one of the supported versions of the interface, a function that allocates memory, and
  the three handlers that start a filter; a release build knows no other version.
  A filter that is refused has an error code.
\<close>

theorem filter_init_abi_accepts:
  assumes "f_ecode f = ERR_NONE"
  shows "(fst (ngx_proxy_wasm_filter_init_abi False m f) = NGX_OK \<longleftrightarrow>
      set (m_exports m) \<inter> {''proxy_abi_version_0_1_0'', ''proxy_abi_version_0_2_0'', ''proxy_abi_version_0_2_1''} \<noteq> {} \<and>
      set (m_exports m) \<inter> {''malloc'', ''proxy_on_memory_allocate''} \<noteq> {} \<and>
      {''proxy_on_context_create'', ''proxy_on_vm_start'', ''proxy_on_configure''} \<subseteq> set (m_exports m)) \<and>
    (fst (ngx_proxy_wasm_filter_init_abi False m f) \<noteq> NGX_OK \<longleftrightarrow> f_ecode (snd (ngx_proxy_wasm_filter_init_abi False m f)) \<noteq> ERR_NONE)"
proof (cases "get_abi_version False (m_exports m)")
  case ABI_UNKNOWN
  with assms get_abi_version_unknown [of False "m_exports m"] show ?thesis
    by (auto simp: ngx_proxy_wasm_filter_init_abi_def Let_def)
next
  case ABI_VNEXT
  with get_abi_version_vnext [of False] show ?thesis by simp
qed (use assms in \<open>auto simp: ngx_proxy_wasm_filter_init_abi_def Let_def resolve_required before_vnext_def
      get_func_def dest: get_abi_version_exported split: if_splits\<close>)

definition demo_filter_new :: pw_filter where
  "demo_filter_new = \<lparr>f_module = None, f_config = [], f_data = 0, f_id = 0, f_store = 0, f_acl = False, f_abi = ABI_UNKNOWN,
     f_malloc = None, f_handlers = (\<lambda>_. None), f_ecode = ERR_NONE, f_loaded = False, f_started = False\<rparr>"

definition demo_minimal :: pw_module where
  "demo_minimal = \<lparr>m_id = 1, m_name = [], m_exports = [''malloc'', ''proxy_abi_version_0_2_1'', ''proxy_on_context_create'',
     ''proxy_on_vm_start'', ''proxy_on_configure''], m_config_len = 0\<rparr>"

theorem filter_init_abi_accepts_witness:
  "fst (ngx_proxy_wasm_filter_init_abi False demo_minimal demo_filter_new) = NGX_OK"
  using filter_init_abi_accepts [of demo_filter_new demo_minimal] by (simp add: demo_filter_new_def demo_minimal_def)

text \<open>
  The other handlers are not required of a module, but they are called without looking whether
  they are there: for a module that was accepted and does not export \<open>proxy_on_log\<close> or
  \<open>proxy_on_done\<close>, the log step of a filter that has an instance dereferences a NULL function reference.
\<close>

theorem on_log_missing_handler:
  assumes "ngx_proxy_wasm_filter_init_abi False m f = (NGX_OK, flt)"
    and "''proxy_on_log'' \<notin> set (m_exports m) \<or> ''proxy_on_done'' \<notin> set (m_exports m)"
    and "execs st e = Some x" and "filters st (e_filter x) = Some flt"
  shows "ngx_proxy_wasm_on_log dbg G e st = None"
proof -
  have abi: "before_vnext (f_abi flt)" and h: "f_handlers flt = resolve_handler (f_abi flt) (m_exports m)"
    using assms(1)
    by (auto simp: ngx_proxy_wasm_filter_init_abi_def Let_def before_vnext_def split: if_splits option.splits)
  show ?thesis
    using assms(2-4) resolve_required(4,5) [OF abi, of "m_exports m"]
    by (cases "ictx x") (auto simp: ngx_proxy_wasm_on_log_def abi h get_func_def ngx_wavm_instance_call_funcref_def bind_eq_None_conv)
qed

definition demo_log :: "nat pw" where
  "demo_log = demo_pw\<lparr>filters := [1 \<mapsto> snd (ngx_proxy_wasm_filter_init_abi False demo_minimal demo_filter_new)]\<rparr>"

theorem on_log_missing_handler_witness: "ngx_proxy_wasm_on_log True (demo_guest calm) 10 demo_log = None"
proof -
  have "fst (ngx_proxy_wasm_filter_init_abi False demo_minimal demo_filter_new) = NGX_OK" by code_simp
  then have "ngx_proxy_wasm_filter_init_abi False demo_minimal demo_filter_new =
      (NGX_OK, snd (ngx_proxy_wasm_filter_init_abi False demo_minimal demo_filter_new))" by (metis prod.collapse)
  then show ?thesis
    by (rule on_log_missing_handler [where x = "demo_exec 1 20 5 1"])
      (simp_all add: demo_minimal_def demo_log_def demo_pw_def demo_exec_def)
qed

section \<open>Instances that are reused\<close>

lemma get_busy_usable:
  "get_busy dbg m xs p st = Some (Some i, st') \<Longrightarrow> \<exists>inst. insts st' i = Some inst \<and> \<not> trapped inst \<and> i_module inst = m"
proof (induction dbg m xs p st rule: get_busy.induct)
  case (1 dbg m xs p st)
  from "1.prems" obtain inst where p: "p < length xs" "insts st (xs ! p) = Some inst"
    by (auto simp: get_busy.simps [of dbg m xs p st] bind_eq_Some_conv split: if_splits)
  show ?case
  proof (cases "trapped inst")
    case True
    with "1.prems" p show ?thesis
      by (subst (asm) get_busy.simps) (auto simp: bind_eq_Some_conv Let_def intro!: "1.IH"(1))
  next
    case False
    with "1.prems" p "1.IH"(2) show ?thesis
      by (subst (asm) get_busy.simps) (auto split: if_splits)
  qed
qed

text \<open>
  C15. The instance that \<open>get_instance\<close> answers is an instance of the module of the filter that has not
  trapped, whether it was found among the busy instances of the store or created.
\<close>

theorem get_instance_usable:
  assumes "get_instance dbg G f s st = Some (Some i, st')" and "filters st f = Some flt" and "f_module flt = Some m"
  shows "\<exists>inst. insts st' i = Some inst \<and> \<not> trapped inst \<and> i_module inst = m_id m"
  using assms
  by (auto simp: get_instance_def bind_eq_Some_conv upd_store_def Let_def dest!: get_busy_usable
      split: option.splits prod.splits if_splits)

definition demo_trapped :: "nat pw" where
  "demo_trapped = demo_pw\<lparr>insts := [5 \<mapsto> demo_inst 1 10\<lparr>trapped := True\<rparr>, 6 \<mapsto> demo_inst 2 11]\<rparr>"

theorem get_instance_usable_witness:
  "map_option (\<lambda>(i, st). map_option (\<lambda>i. map_option trapped (insts st i)) i) (get_instance True (demo_guest calm) 1 0 demo_trapped)
    = Some (Some (Some False))"
proof -
  have "map_option (\<lambda>(i, st). i) (get_instance True (demo_guest calm) 1 0 demo_trapped) = Some (Some 30)" by code_simp
  then obtain st where g: "get_instance True (demo_guest calm) 1 0 demo_trapped = Some (Some 30, st)" by auto
  then have "\<exists>inst. insts st 30 = Some inst \<and> \<not> trapped inst \<and> i_module inst = m_id (demo_module 1)"
    by (rule get_instance_usable [where flt = "demo_filter 1"]) (simp_all add: demo_trapped_def demo_pw_def demo_filter_def)
  with g show ?thesis by auto
qed

text \<open>
  After a trapped instance the loop steps over the instance behind it: when the
  busy queue is a trapped instance followed by one of the module, the latter is not found and a new instance
  is created for the module, although one is there.
\<close>

theorem get_instance_skips:
  assumes "filters st f = Some flt" and "f_module flt = Some m" and "stores st s = Some store" and "busy store = [a, b]"
    and "insts st a = Some ia" and "trapped ia"
    and "insts st b = Some ib" and "\<not> trapped ib" and "i_module ib = m_id m"
    and "get_instance dbg G f s st = Some (Some i, st')"
  shows "fresh st \<le> i"
proof -
  from assms obtain st1 where st1: "ngx_proxy_wasm_instance_invalidate dbg a st = Some st1"
    by (auto simp: get_instance_def get_busy.simps [of dbg "m_id m" "[a, b]" 0 st] bind_eq_Some_conv)
  then have "fresh st \<le> fresh st1" using keeps_invalidate by (auto simp: keeps_def)
  moreover have "get_busy dbg (m_id m) [b] (Suc 0) st1 = Some (None, st1)" by (simp add: get_busy.simps)
  with assms st1 have "get_busy dbg (m_id m) [a, b] 0 st = Some (None, st1)" by (subst get_busy.simps) (simp add: Let_def)
  ultimately show ?thesis using assms
    by (auto simp: get_instance_def alloc_def bind_eq_Some_conv Let_def split: prod.splits if_splits)
qed

theorem get_instance_skips_witness:
  "map_option fst (get_instance True (demo_guest calm) 2 0 demo_trapped) = Some (Some 30) \<and> fresh demo_trapped \<le> 30"
proof
  show g: "map_option fst (get_instance True (demo_guest calm) 2 0 demo_trapped) = Some (Some 30)" by code_simp
  then obtain st where "get_instance True (demo_guest calm) 2 0 demo_trapped = Some (Some 30, st)" by auto
  then show "fresh demo_trapped \<le> 30"
    by (intro get_instance_skips [where a = 5 and b = 6 and flt = "demo_filter 2" and m = "demo_module 2" and s = 0
          and store = "\<lparr>busy = [5, 6], free_q = [], sweep = []\<rparr>" and ia = "demo_inst 1 10\<lparr>trapped := True\<rparr>" and ib = "demo_inst 2 11"])
      (simp_all add: demo_trapped_def demo_pw_def demo_filter_def demo_inst_def demo_module_def)
qed

section \<open>A chain that misses a filter\<close>

text \<open>A guest whose module 2 cannot be instantiated, and a request whose chain is yet to be created.\<close>

definition demo_half :: "nat guest" where
  "demo_half = \<lparr>g_alloc = (\<lambda>w. (True, w)), g_instantiate = (\<lambda>m w. (m \<noteq> 2, w)),
     g_call = (\<lambda>name i args w. ((NGX_OK, of_bool (name = ''proxy_on_plugin_start''), []), Suc w))\<rparr>"

definition demo_request :: "nat pw" where
  "demo_request = demo_pw\<lparr>execs := Map.empty, insts := Map.empty, stores := [0 \<mapsto> empty_store],
     ctxs := [20 \<mapsto> new_pwctx\<lparr>phase := Some REWRITE_PHASE, rctx := Some demo_req\<rparr>]\<rparr>"

definition run_incomplete :: "(ref option \<times> (bool \<times> nat \<times> nat) option \<times> bool) option" where
  "run_incomplete = do {
     (c, st) \<leftarrow> ngx_proxy_wasm_ctx False demo_half [(101, 1), (102, 2)] (Some [101, 102]) ISOLATION_NONE (Some 20) demo_request;
     Some (c, map_option (\<lambda>x. (c_ready x, nfilters x, length (pwexecs x))) (ctxs st 20),
           Option.is_none (ngx_proxy_wasm_resume False demo_half 20 STEP_REQ_HEADERS st)) }"

text \<open>
  When the context of a filter cannot be created, \<open>ngx_proxy_wasm_ctx\<close> looks at a variable that
  still holds the context of the previous filter: of two filters of which the second has no
  instance it answers a context that is ready, for two filters, with one of them in the array, and
  the first step of the request reads behind the end of the array.
\<close>

theorem ctx_incomplete_chain:
  "\<exists>st ctx. ngx_proxy_wasm_ctx False demo_half [(101, 1), (102, 2)] (Some [101, 102]) ISOLATION_NONE (Some 20) demo_request = Some (Some 20, st) \<and>
    ctxs st 20 = Some ctx \<and> c_ready ctx \<and> nfilters ctx = 2 \<and> length (pwexecs ctx) = 1 \<and>
    ngx_proxy_wasm_resume False demo_half 20 STEP_REQ_HEADERS st = None"
proof -
  have "run_incomplete = Some (Some 20, Some (True, 2, 1), True)" by code_simp
  then show ?thesis by (auto simp: run_incomplete_def bind_eq_Some_conv Option.is_none_def)
qed

end
