(* ===== verification/Wasm_Ops_Props.thy ===== *)
theory Wasm_Ops_Props
  imports Wasm_Ops Proxy_Wasm_Filters
begin

text \<open>
  Properties of the plans of operations: what loading a plan establishes, that each call of a
  pipeline runs once however often the pipeline yields, and that a chain of filters is run once per phase.
\<close>

section \<open>Loading\<close>

lemma phase_lookup [simp]: "ngx_wasm_phase_lookup (phase_index ph) = Some ph"
  by (cases ph) (simp_all add: ngx_wasm_phase_lookup_def ngx_http_wasm_phases_def)

text \<open>Every filter that is loaded is found in the root.\<close>

definition root_ok :: "'g wops \<Rightarrow> bool" where
  "root_ok s \<longleftrightarrow> (\<forall>f flt. filters (w_pw s) f = Some flt \<longrightarrow> f_loaded flt \<longrightarrow>
     ngx_proxy_wasm_lookup_filter (pr_tree (w_root s)) (f_id flt) \<noteq> None)"

text \<open>What loading one operation keeps of the others.\<close>

definition kept_op :: "wasm_op \<Rightarrow> wasm_op \<Rightarrow> bool" where
  "kept_op a b \<longleftrightarrow> (\<forall>f. op_conf b = Op_proxy_wasm f \<longleftrightarrow> op_conf a = Op_proxy_wasm f) \<and> (op_handler a \<noteq> None \<longrightarrow> op_handler b \<noteq> None)"

lemma kept_op_trans: "kept_op a b \<Longrightarrow> kept_op b c \<Longrightarrow> kept_op a c"
  by (simp add: kept_op_def)

lemma kept_op_refl: "kept_op a a"
  by (simp add: kept_op_def)

definition loads :: "'g wops \<Rightarrow> 'g wops \<Rightarrow> bool" where
  "loads s s' \<longleftrightarrow> (\<forall>r opr. w_ops s r = Some opr \<longrightarrow> (\<exists>opr'. w_ops s' r = Some opr' \<and> kept_op opr opr')) \<and>
     (\<forall>f flt. filters (w_pw s) f = Some flt \<longrightarrow> f_loaded flt \<longrightarrow> filters (w_pw s') f = Some flt) \<and>
     (root_ok s \<longrightarrow> root_ok s')"

lemma loads_refl: "loads s s"
  by (simp add: loads_def kept_op_refl)

lemma loads_trans: "loads s s1 \<Longrightarrow> loads s1 s2 \<Longrightarrow> loads s s2"
  unfolding loads_def by (meson kept_op_trans)

lemma map_of_tree_insert: "(\<exists>y. map_of (tree_insert k r t) i = Some y) \<longleftrightarrow> i = k \<or> (\<exists>y. map_of t i = Some y)"
  by (induction t) (auto split: if_splits)

lemma init_abi_id: "f_id (snd (ngx_proxy_wasm_filter_init_abi dbg m f)) = f_id f"
  by (simp add: ngx_proxy_wasm_filter_init_abi_def Let_def)

lemma load_filter:
  assumes "ngx_proxy_wasm_load crc32 dbg tree f st = Some (rc, tree', st')"
  shows "\<exists>flt. filters st' = (filters st)(f \<mapsto> flt) \<and> (rc = NGX_OK \<longrightarrow> f_loaded flt) \<and>
    (\<forall>flt0. filters st f = Some flt0 \<longrightarrow> f_loaded flt0 \<longrightarrow> flt = flt0) \<and>
    (f_loaded flt \<longrightarrow> filters st f = Some flt \<or> map_of tree' (f_id flt) \<noteq> None) \<and>
    (\<forall>i. map_of tree i \<noteq> None \<longrightarrow> map_of tree' i \<noteq> None)"
proof -
  from assms obtain f0 where f0: "filters st f = Some f0" by (auto simp: ngx_proxy_wasm_load_def split: option.splits)
  show ?thesis
  proof (cases "f_loaded f0")
    case True
    with assms f0 have "st' = st" "tree' = tree" by (auto simp: ngx_proxy_wasm_load_def)
    with f0 True show ?thesis by (intro exI [of _ f0]) (auto simp: fun_upd_idem_iff)
  next
    case False
    show ?thesis
    proof (cases "f_module f0")
      case None
      with assms f0 False show ?thesis by (intro exI [of _ "f0\<lparr>f_ecode := ERR_BAD_HOST_INTERFACE\<rparr>"]) (auto simp: ngx_proxy_wasm_load_def)
    next
      case (Some m)
      let ?f1 = "f0\<lparr>f_id := get_filter_id crc32 (m_name m) (f_config f0) (f_data f0)\<rparr>"
      obtain rc' f2 where i: "ngx_proxy_wasm_filter_init_abi dbg m ?f1 = (rc', f2)" by fastforce
      with init_abi_id [of dbg m ?f1] have "f_id f2 = f_id ?f1" by simp
      with assms f0 False Some i show ?thesis
        by (intro exI [of _ "if rc' = NGX_OK then f2\<lparr>f_loaded := True\<rparr> else f2"])
          (auto simp: ngx_proxy_wasm_load_def map_of_tree_insert Let_def split: if_splits)
    qed
  qed
qed

lemma load_op_loads:
  assumes "load_op crc32 dbg link j r s = Some (NGX_OK, s')"
  shows "loads s s' \<and> (\<exists>opr. w_ops s' r = Some opr \<and> op_handler opr \<noteq> None \<and>
    (\<forall>f. op_conf opr = Op_proxy_wasm f \<longrightarrow> (\<exists>flt. filters (w_pw s') f = Some flt \<and> f_loaded flt)))"
proof -
  from assms obtain opr where o: "w_ops s r = Some opr" by (auto simp: load_op_def bind_eq_Some_conv)
  obtain ok w where l: "link (m_id (op_module opr)) (world (w_pw s)) = (ok, w)" by fastforce
  show ?thesis
  proof (cases "op_conf opr")
    case (Op_proxy_wasm f)
    with assms o l obtain tree st where ld: "ngx_proxy_wasm_load crc32 dbg (pr_tree (w_root s)) f ((w_pw s)\<lparr>world := w\<rparr>) = Some (NGX_OK, tree, st)"
        and s': "s' = s\<lparr>w_ops := (w_ops s)(r \<mapsto> opr\<lparr>op_handler := Some Proxy_wasm_handler\<rparr>), w_root := (w_root s)\<lparr>pr_tree := tree\<rparr>, w_pw := st\<rparr>"
      by (auto simp: load_op_def Let_def bind_eq_Some_conv split: if_splits)
    from load_filter [OF ld] obtain flt where flt: "filters st = (filters (w_pw s))(f \<mapsto> flt)" "f_loaded flt"
        "\<And>flt0. filters (w_pw s) f = Some flt0 \<Longrightarrow> f_loaded flt0 \<Longrightarrow> flt = flt0"
        "filters (w_pw s) f = Some flt \<or> map_of tree (f_id flt) \<noteq> None"
        "\<And>i. map_of (pr_tree (w_root s)) i \<noteq> None \<Longrightarrow> map_of tree i \<noteq> None"
      by auto
    have ok: "root_ok s'" if "root_ok s"
      unfolding root_ok_def
    proof (intro allI impI)
      fix f' flt' assume f': "filters (w_pw s') f' = Some flt'" "f_loaded flt'"
      show "ngx_proxy_wasm_lookup_filter (pr_tree (w_root s')) (f_id flt') \<noteq> None"
      proof (cases "filters (w_pw s) f' = Some flt'")
        case True
        with that f'(2) flt(5) show ?thesis by (simp add: root_ok_def s' ngx_proxy_wasm_lookup_filter_def)
      next
        case False
        with f'(1) flt(1) have "f' = f" "flt' = flt" by (auto simp: s' split: if_splits)
        with False flt(4) show ?thesis by (simp add: s' ngx_proxy_wasm_lookup_filter_def)
      qed
    qed
    have "loads s s'" unfolding loads_def using ok o flt(1,3) by (auto simp: s' kept_op_def)
    then show ?thesis using flt(1,2) Op_proxy_wasm by (auto simp: s')
  next
    case (Op_call i name fn)
    with assms o l show ?thesis by (auto simp: load_op_def Let_def loads_def kept_op_def root_ok_def split: if_splits)
  qed (use assms o l in \<open>auto simp: load_op_def Let_def split: if_splits\<close>)
qed

definition op_loaded :: "'g wops \<Rightarrow> ref \<Rightarrow> bool" where
  "op_loaded s r \<longleftrightarrow> (\<exists>opr. w_ops s r = Some opr \<and> op_handler opr \<noteq> None \<and>
     (\<forall>f. op_conf opr = Op_proxy_wasm f \<longrightarrow> (\<exists>flt. filters (w_pw s) f = Some flt \<and> f_loaded flt)))"

lemma op_loaded_loads: "op_loaded s r \<Longrightarrow> loads s s' \<Longrightarrow> op_loaded s' r"
  unfolding op_loaded_def loads_def kept_op_def by blast

interpretation loading: stable_frame loads op_loaded
  by unfold_locales (auto intro: loads_refl loads_trans op_loaded_loads)

lemma load_pipeline_loads:
  "load_pipeline crc32 dbg link j rs s = Some (NGX_OK, s') \<Longrightarrow> loads s s' \<and> (\<forall>r \<in> set rs. op_loaded s' r)"
proof (induction rs arbitrary: j s)
  case (Cons r rs)
  then obtain s1 where s1: "load_op crc32 dbg link j r s = Some (NGX_OK, s1)" "load_pipeline crc32 dbg link (Suc j) rs s1 = Some (NGX_OK, s')"
    by (auto simp: bind_eq_Some_conv split: if_splits)
  from load_op_loads [OF s1(1)] have "loads s s1 \<and> op_loaded s1 r" by (auto simp: op_loaded_def)
  from loading.loop_step [OF this Cons.IH [OF s1(2)]] show ?case by simp
qed (simp add: loads_refl)

lemma load_pipelines_loads:
  "load_pipelines crc32 dbg link plan is s = Some (NGX_OK, s') \<Longrightarrow>
   loads s s' \<and> (\<forall>r \<in> (\<Union>i \<in> set is. set (pipeline_ops plan i)). op_loaded s' r)"
proof (induction "is" arbitrary: s)
  case (Cons i "is")
  then obtain s1 where s1: "load_pipeline crc32 dbg link 0 (pipeline_ops plan i) s = Some (NGX_OK, s1)"
      "load_pipelines crc32 dbg link plan is s1 = Some (NGX_OK, s')"
    by (auto simp: bind_eq_Some_conv split: if_splits)
  from loading.loop_join [OF load_pipeline_loads [OF s1(1)] Cons.IH [OF s1(2)]] show ?case by simp
qed (simp add: loads_refl)

lemma w_alloc_loads: "w_alloc G s = (ok, s') \<Longrightarrow> loads s s'"
  by (auto simp: w_alloc_def alloc_def loads_def kept_op_def root_ok_def split: prod.splits)

lemma collect_ids_found:
  assumes "collect_ids G rs ids s = Some ((NGX_OK, is), s')" and "root_ok s" and "\<forall>r \<in> set rs. op_loaded s r"
    and "\<And>js i. ids = Some js \<Longrightarrow> i \<in> set js \<Longrightarrow> ngx_proxy_wasm_lookup_filter (pr_tree (w_root s)) i \<noteq> None"
  shows "loads s s' \<and> w_root s' = w_root s \<and> (\<forall>i \<in> set is. ngx_proxy_wasm_lookup_filter (pr_tree (w_root s')) i \<noteq> None)"
  using assms
proof (induction rs arbitrary: ids s)
  case Nil
  then show ?case by (auto simp: loads_refl split: option.splits)
next
  case (Cons r rs)
  from Cons.prems obtain opr where o: "w_ops s r = Some opr" by (auto simp: op_loaded_def)
  show ?case
  proof (cases "\<exists>f. op_conf opr = Op_proxy_wasm f")
    case True
    then obtain f where f: "op_conf opr = Op_proxy_wasm f" by blast
    with o Cons.prems(3) obtain flt where flt: "filters (w_pw s) f = Some flt" "f_loaded flt" by (auto simp: op_loaded_def)
    obtain ok s1 where a: "w_alloc G s = (ok, s1)" by fastforce
    with Cons.prems(1) o f obtain js where s1: "ids = Some js" "w_alloc G s = (True, s1)"
        "do { flt \<leftarrow> filters (w_pw s1) f; collect_ids G rs (Some (js @ [f_id flt])) s1 } = Some ((NGX_OK, is), s')"
      by (auto simp: bind_eq_Some_conv split: prod.splits if_splits)
    have l: "loads s s1" using s1(2) by (rule w_alloc_loads)
    have root: "w_root s1 = w_root s" using s1(2) by (auto simp: w_alloc_def split: prod.splits)
    from l flt have flt1: "filters (w_pw s1) f = Some flt" by (auto simp: loads_def)
    from l Cons.prems(2) have ok1: "root_ok s1" by (simp add: loads_def)
    have "loads s1 s' \<and> w_root s' = w_root s1 \<and> (\<forall>i \<in> set is. ngx_proxy_wasm_lookup_filter (pr_tree (w_root s')) i \<noteq> None)"
    proof (rule Cons.IH)
      show "collect_ids G rs (Some (js @ [f_id flt])) s1 = Some ((NGX_OK, is), s')" using s1(3) flt1 by simp
      show "\<forall>r \<in> set rs. op_loaded s1 r" using Cons.prems(3) l by (auto intro: op_loaded_loads)
      show "ngx_proxy_wasm_lookup_filter (pr_tree (w_root s1)) i \<noteq> None" if "Some (js @ [f_id flt]) = Some js'" "i \<in> set js'" for js' i
        using that Cons.prems(4) s1(1) root ok1 flt1 flt(2) by (auto simp: root_ok_def)
    qed (rule ok1)
    with l root show ?thesis by (auto intro: loads_trans)
  next
    case False
    with Cons.prems o Cons.IH [of ids s] show ?thesis by (auto split: op_conf.splits)
  qed
qed

text \<open>
  A plan that was loaded has every operation of every pipeline bound to its handler, and every id
  of its list of filters is found in the root of the filters: the lookups of \<open>ngx_proxy_wasm_ctx\<close> do not
  fail.
\<close>

theorem plan_load_complete:
  assumes "root_ok s" and "\<not> loaded plan" and "ngx_wasm_ops_plan_load crc32 dbg link G plan s = Some ((NGX_OK, plan'), s')"
  shows "loaded plan' \<and> root_ok s' \<and> (\<forall>i < nphases. \<forall>r \<in> set (pipeline_ops plan' i). op_loaded s' r) \<and>
    (\<forall>i \<in> set (filter_ids plan'). ngx_proxy_wasm_lookup_filter (pr_tree (w_root s')) i \<noteq> None)"
proof -
  from assms obtain s1 where s1: "load_pipelines crc32 dbg link plan [0..<nphases] s = Some (NGX_OK, s1)"
    by (auto simp: ngx_wasm_ops_plan_load_def bind_eq_Some_conv split: if_splits)
  obtain ok s2 where s2: "w_alloc G s1 = (ok, s2)" by fastforce
  from assms s1 s2 obtain ids where c: "collect_ids G (pipeline_ops plan (phase_index REWRITE_PHASE)) (if ok then Some [] else None) s2 = Some ((NGX_OK, ids), s')"
      and plan': "plan' = plan\<lparr>filter_ids := ids, loaded := True\<rparr>"
    by (auto simp: ngx_wasm_ops_plan_load_def split: if_splits Option.bind_splits)
  note l1 = load_pipelines_loads [OF s1] and l2 = w_alloc_loads [OF s2]
  have ok2: "root_ok s2" using assms(1) l1 l2 by (auto simp: loads_def)
  have all2: "op_loaded s2 r" if "i < nphases" "r \<in> set (pipeline_ops plan i)" for i r
    using that l1 by (auto intro: op_loaded_loads [OF _ l2])
  have "phase_index REWRITE_PHASE < nphases" by (simp add: nphases_def)
  then have "loads s2 s' \<and> w_root s' = w_root s2 \<and> (\<forall>i \<in> set ids. ngx_proxy_wasm_lookup_filter (pr_tree (w_root s')) i \<noteq> None)"
    using all2 by (intro collect_ids_found [OF c ok2]) (auto split: if_splits)
  then have l3: "loads s2 s'" and ids: "\<forall>i \<in> set ids. ngx_proxy_wasm_lookup_filter (pr_tree (w_root s')) i \<noteq> None" by auto
  have same: "pipeline_ops plan' i = pipeline_ops plan i" for i by (simp add: plan' pipeline_ops_def)
  have "root_ok s'" using ok2 l3 by (simp add: loads_def)
  moreover have "op_loaded s' r" if "i < nphases" "r \<in> set (pipeline_ops plan' i)" for i r
    using op_loaded_loads [OF all2 l3] that by (simp add: same)
  ultimately show ?thesis using ids by (auto simp: plan')
qed

definition demo_unloaded :: "nat wops" where
  "demo_unloaded = \<lparr>w_ops = [40 \<mapsto> \<lparr>on_phases = phase_on REWRITE_PHASE, op_module = demo_minimal, op_conf = Op_proxy_wasm 1, op_handler = None\<rparr>],
     w_root = \<lparr>pr_init = True, pr_tree = [], pr_store = 0\<rparr>, w_pw = demo_pw\<lparr>filters := [1 \<mapsto> demo_filter_new\<lparr>f_module := Some demo_minimal\<rparr>]\<rparr>\<rparr>"

definition demo_plan_unloaded :: ops_plan where
  "demo_plan_unloaded = \<lparr>pipelines = (\<lambda>_. Some [])(phase_index REWRITE_PHASE \<mapsto> [40]), filter_ids = [], populated = True, loaded = False\<rparr>"

definition demo_link :: "nat \<Rightarrow> nat \<Rightarrow> bool \<times> nat" where
  "demo_link m w = (True, w)"

theorem plan_load_complete_witness:
  "\<exists>plan' s'. ngx_wasm_ops_plan_load (\<lambda>_. 5) False demo_link (demo_guest calm) demo_plan_unloaded demo_unloaded = Some ((NGX_OK, plan'), s') \<and>
    filter_ids plan' = [5] \<and> ngx_proxy_wasm_lookup_filter (pr_tree (w_root s')) 5 \<noteq> None"
proof -
  have "map_option (\<lambda>((rc, p), _). (rc, filter_ids p))
      (ngx_wasm_ops_plan_load (\<lambda>_. 5) False demo_link (demo_guest calm) demo_plan_unloaded demo_unloaded) = Some (NGX_OK, [5])"
    by code_simp
  then obtain p s' where r: "ngx_wasm_ops_plan_load (\<lambda>_. 5) False demo_link (demo_guest calm) demo_plan_unloaded demo_unloaded = Some ((NGX_OK, p), s')"
      and ids: "filter_ids p = [5]" by auto
  have "root_ok demo_unloaded" by (auto simp: root_ok_def demo_unloaded_def demo_filter_new_def split: if_splits)
  moreover have "\<not> loaded demo_plan_unloaded" by (simp add: demo_plan_unloaded_def)
  ultimately show ?thesis using plan_load_complete [OF _ _ r] r ids by auto
qed

section \<open>Pipelines of calls\<close>

text \<open>
  \<open>calls fs st st'\<close>: the functions \<open>fs\<close> (a module and a name) were called in this order, each in
  a new instance, and none failed.
\<close>

inductive calls :: "'g guest \<Rightarrow> ref \<Rightarrow> (nat \<times> string) list \<Rightarrow> 'g pw \<Rightarrow> 'g pw \<Rightarrow> bool" for G c where
  calls_Nil: "calls G c [] st st"
| calls_Cons: "g_instantiate G m (world st) = (True, w1) \<Longrightarrow> g_call G f (fresh st) [] w1 = ((rc, ret, effs), w2) \<Longrightarrow>
    rc \<noteq> NGX_ERROR \<Longrightarrow> rc \<noteq> NGX_ABORT \<Longrightarrow> each (op_effect c) effs (st\<lparr>world := w2\<rparr>) = Some st1 \<Longrightarrow>
    calls G c fs st1 st' \<Longrightarrow> calls G c ((m, f) # fs) st st'"

text \<open>A loaded pipeline that consists of calls of the functions \<open>fs\<close>, all of which exist.\<close>

definition is_call :: "'g wops \<Rightarrow> nat \<Rightarrow> ref \<Rightarrow> nat \<times> string \<Rightarrow> bool" where
  "is_call s j r f = (case w_ops s r of None \<Rightarrow> False | Some opr \<Rightarrow> op_handler opr = Some Call_handler \<and>
     m_id (op_module opr) = fst f \<and> (case op_conf opr of Op_call idx name (Some fn) \<Rightarrow> idx = j \<and> fn = snd f | _ \<Rightarrow> False))"

definition call_pipeline :: "'g wops \<Rightarrow> ref list \<Rightarrow> (nat \<times> string) list \<Rightarrow> bool" where
  "call_pipeline s rs fs \<longleftrightarrow> length rs = length fs \<and> list_all (\<lambda>j. is_call s j (rs ! j) (fs ! j)) [0..<length rs]"

lemma call_pipeline_pw [simp]: "call_pipeline (s\<lparr>w_pw := st\<rparr>) rs fs = call_pipeline s rs fs"
  by (simp add: call_pipeline_def is_call_def)

lemma is_callE:
  assumes "is_call s j r f"
  obtains opr name where "w_ops s r = Some opr" "op_handler opr = Some Call_handler" "m_id (op_module opr) = fst f"
    "op_conf opr = Op_call j name (Some (snd f))"
  using assms by (auto simp: is_call_def split: option.splits op_conf.splits)

lemma call_pipelineD: "call_pipeline s rs fs \<Longrightarrow> j < length rs \<Longrightarrow> is_call s j (rs ! j) (fs ! j)"
  by (auto simp: call_pipeline_def list_all_iff)

text \<open>The calls before \<open>cur_idx\<close> are passed over.\<close>

lemma run_pipeline_skip:
  assumes "call_pipeline s rs fs" and "j \<le> cur_idx ctx" "cur_idx ctx \<le> length rs"
  shows "run_pipeline dbg G rb loc ph (drop j rs) ctx s = run_pipeline dbg G rb loc ph (drop (cur_idx ctx) rs) ctx s"
  using assms(2)
proof (induction "cur_idx ctx - j" arbitrary: j)
  case (Suc d)
  then have j: "j < length rs" "j < cur_idx ctx" using assms(3) by auto
  from call_pipelineD [OF assms(1) j(1)] have "run_op dbg G rb loc ph (rs ! j) ctx s = Some ((NGX_DECLINED, ctx), s)"
    by (rule is_callE) (simp add: run_op_def ngx_wasm_op_call_handler_def j(2))
  then have "run_pipeline dbg G rb loc ph (drop j rs) ctx s = run_pipeline dbg G rb loc ph (drop (Suc j) rs) ctx s"
    by (simp add: Cons_nth_drop_Suc [OF j(1), symmetric])
  with Suc.hyps j show ?case by simp
qed simp

text \<open>One call: it is refused or fails, yields, or goes on.\<close>

lemma run_call:
  assumes "is_call s (cur_idx ctx) r f" and "run_op dbg G rb loc ph r ctx s = Some ((rc, ctx'), s')"
  obtains (err) "rc = NGX_ERROR"
    | (called) st where "rc = NGX_AGAIN \<or> rc = NGX_DECLINED" "calls G (o_data ctx) [f] (w_pw s) st" "s' = s\<lparr>w_pw := st\<rparr>"
        "ctx' = ctx\<lparr>cur_idx := Suc (cur_idx ctx)\<rparr>"
  using assms(1)
proof (rule is_callE)
  fix opr name assume o: "w_ops s r = Some opr" "op_handler opr = Some Call_handler" "m_id (op_module opr) = fst f"
    "op_conf opr = Op_call (cur_idx ctx) name (Some (snd f))"
  obtain ok w where i: "g_instantiate G (fst f) (world (w_pw s)) = (ok, w)" by fastforce
  obtain rc1 ret effs w2 where c: "g_call G (snd f) (fresh (w_pw s)) [] w = ((rc1, ret, effs), w2)" by (metis prod.exhaust)
  show thesis
  proof (cases "ok \<and> rc1 \<noteq> NGX_ERROR \<and> rc1 \<noteq> NGX_ABORT")
    case True
    with assms(2) o i c obtain st state where st: "each (op_effect (o_data ctx)) effs ((w_pw s)\<lparr>world := w2\<rparr>) = Some st"
        "rc = (case state of STATE_YIELD \<Rightarrow> NGX_AGAIN | STATE_ERROR \<Rightarrow> NGX_ERROR | STATE_CONTINUE \<Rightarrow> NGX_DECLINED)"
        "s' = s\<lparr>w_pw := st\<rparr>" "ctx' = ctx\<lparr>cur_idx := Suc (cur_idx ctx)\<rparr>"
      by (auto simp: run_op_def ngx_wasm_op_call_handler_def Let_def bind_eq_Some_conv split: if_splits)
    have "calls G (o_data ctx) [f] (w_pw s) st"
      using calls_Cons [OF _ _ _ _ st(1) calls_Nil, where m = "fst f" and f = "snd f" and rc = rc1 and ret = ret] i c True by simp
    with st show thesis by (cases state) (auto intro: err called)
  next
    case False
    with assms(2) o i c have "rc = NGX_ERROR"
      by (auto simp: run_op_def ngx_wasm_op_call_handler_def Let_def bind_eq_Some_conv split: if_splits)
    then show thesis by (rule err)
  qed
qed

lemma calls_append: "calls G c fs st st1 \<Longrightarrow> calls G c gs st1 st' \<Longrightarrow> calls G c (fs @ gs) st st'"
  by (induction rule: calls.induct) (auto intro: calls_Cons)

text \<open>\<open>pipeline_ends\<close>: how a run ends that called the functions from \<open>k\<close> to before \<open>j\<close>.\<close>

definition pipeline_ends :: "op_ctx \<Rightarrow> nat \<Rightarrow> nat \<Rightarrow> nat \<Rightarrow> ngx_rc + ngx_rc \<Rightarrow> op_ctx \<Rightarrow> bool" where
  "pipeline_ends ctx n k j r ctx' \<longleftrightarrow> k \<le> j \<and> j \<le> n \<and>
     (r = Inr NGX_DECLINED \<and> j = n \<and> ctx' = ctx\<lparr>cur_idx := j\<rparr> \<or>
      r = Inr NGX_AGAIN \<and> k < j \<and> ctx' = ctx\<lparr>cur_idx := j\<rparr> \<or>
      r = Inl NGX_ERROR)"

lemma run_pipeline_calls:
  assumes "run_pipeline dbg G rb loc ph (drop k rs) ctx s = Some ((r, ctx'), s')" and "call_pipeline s rs fs"
    and "cur_idx ctx = k" "k \<le> length rs"
  shows "\<exists>j st. pipeline_ends ctx (length rs) k j r ctx' \<and> calls G (o_data ctx) (take (j - k) (drop k fs)) (w_pw s) st \<and>
    (r \<noteq> Inl NGX_ERROR \<longrightarrow> s' = s\<lparr>w_pw := st\<rparr>)"
  using assms
proof (induction "length rs - k" arbitrary: k ctx s)
  case 0
  then show ?case by (intro exI [of _ k] exI [of _ "w_pw s"]) (auto simp: pipeline_ends_def intro: calls_Nil)
next
  case (Suc d)
  then have k: "k < length rs" "length rs = length fs" by (auto simp: call_pipeline_def)
  from Suc.prems(1) obtain rc ctx1 s1 where o: "run_op dbg G rb loc ph (rs ! k) ctx s = Some ((rc, ctx1), s1)"
      and rest: "(if rc = NGX_ERROR \<or> is_status rc then Some ((Inl rc, ctx1), s1)
         else if rc = NGX_DECLINED then run_pipeline dbg G rb loc ph (drop (Suc k) rs) ctx1 s1 else Some ((Inr rc, ctx1), s1)) = Some ((r, ctx'), s')"
    by (auto simp: Cons_nth_drop_Suc [OF k(1), symmetric] bind_eq_Some_conv)
  have call: "is_call s (cur_idx ctx) (rs ! k) (fs ! k)" using call_pipelineD [OF Suc.prems(2) k(1)] Suc.prems(3) by simp
  show ?case
    using call o
  proof (cases rule: run_call)
    case err
    with rest k show ?thesis by (intro exI [of _ k] exI [of _ "w_pw s"]) (auto simp: pipeline_ends_def intro: calls_Nil)
  next
    case (called st)
    have d: "drop k fs = fs ! k # drop (Suc k) fs" using k by (simp add: Cons_nth_drop_Suc)
    show ?thesis
    proof (cases "rc = NGX_AGAIN")
      case True
      with called rest k d Suc.prems(3) show ?thesis
        by (intro exI [of _ "Suc k"] exI [of _ st]) (auto simp: pipeline_ends_def)
    next
      case False
      with called rest have rest': "run_pipeline dbg G rb loc ph (drop (Suc k) rs) ctx1 s1 = Some ((r, ctx'), s')" by auto
      have s1: "call_pipeline s1 rs fs" using Suc.prems(2) called(3) by simp
      have ctx1: "cur_idx ctx1 = Suc k" "o_data ctx1 = o_data ctx" using called(4) Suc.prems(3) by simp_all
      have "d = length rs - Suc k" "Suc k \<le> length rs" using Suc.hyps(2) k by auto
      from Suc.hyps(1) [OF this(1) rest' s1 ctx1(1) this(2)] obtain j st' where j: "pipeline_ends ctx1 (length rs) (Suc k) j r ctx'"
          "calls G (o_data ctx) (take (j - Suc k) (drop (Suc k) fs)) st st'" "r \<noteq> Inl NGX_ERROR \<longrightarrow> s' = s1\<lparr>w_pw := st'\<rparr>"
        by (auto simp: ctx1 called(3))
      have take: "take (j - k) (drop k fs) = [fs ! k] @ take (j - Suc k) (drop (Suc k) fs)"
      proof -
        have "j - k = Suc (j - Suc k)" using j(1) by (auto simp: pipeline_ends_def)
        then show ?thesis by (simp add: d)
      qed
      show ?thesis
        using j called(3,4) calls_append [OF called(2) j(2)] unfolding take
        by (intro exI [of _ j] exI [of _ st']) (auto simp: pipeline_ends_def take)
    qed
  qed
qed

text \<open>
  C10. The calls of a phase each run once, in order, however often the phase yields. Resuming a
  phase whose pipeline consists of calls starts with the call behind the last one that ran
  (with the first one when the previous phase was another one); it answers \<open>NGX_DECLINED\<close> when all calls to the
  last one ran, \<open>NGX_AGAIN\<close> when the calls up to one that yields ran, from which the next resume of the phase
  goes on, and otherwise \<open>NGX_ERROR\<close>.
\<close>

theorem ops_calls_once:
  assumes "call_pipeline s (pipeline_ops (o_plan ctx) (phase_index ph)) fs"
    and "k = (if last_phase ctx \<in> {None, Some ph} then cur_idx ctx else 0)" and "k \<le> length fs"
    and "ngx_wasm_ops_resume dbg G read_body loc (phase_index ph) ctx s = Some ((rc, ctx'), s')"
  shows "\<exists>j st. k \<le> j \<and> j \<le> length fs \<and> calls G (o_data ctx) (take (j - k) (drop k fs)) (w_pw s) st \<and>
    (rc = NGX_DECLINED \<and> j = length fs \<and> s' = s\<lparr>w_pw := st\<rparr> \<and> ctx' = ctx\<lparr>cur_idx := j, last_phase := Some ph\<rparr> \<or>
     rc = NGX_AGAIN \<and> k < j \<and> s' = s\<lparr>w_pw := st\<rparr> \<and> ctx' = ctx\<lparr>cur_idx := j, last_phase := Some ph\<rparr> \<or>
     rc = NGX_ERROR)"
proof -
  let ?rs = "pipeline_ops (o_plan ctx) (phase_index ph)" and ?ctx = "ctx\<lparr>cur_idx := k\<rparr>"
  have start: "(if last_phase ctx \<noteq> None \<and> last_phase ctx \<noteq> Some ph then ctx\<lparr>cur_idx := 0\<rparr> else ctx) = ?ctx" using assms(2) by auto
  have n: "length ?rs = length fs" using assms(1) by (simp add: call_pipeline_def)
  from assms(4) obtain r ctx2 s2 where r: "run_pipeline dbg G read_body loc ph (drop 0 ?rs) ?ctx s = Some ((r, ctx2), s2)"
      and rest: "(case r of Inl rc \<Rightarrow> Some ((rc, ctx2), s2)
          | Inr rc \<Rightarrow> if ngx_wa_assert dbg (rc = NGX_OK \<or> rc = NGX_DECLINED \<or> rc = NGX_AGAIN \<or> rc = NGX_DONE)
              then Some ((rc, ctx2\<lparr>last_phase := Some ph\<rparr>), s2) else None) = Some ((rc, ctx'), s')"
    unfolding ngx_wasm_ops_resume_def phase_lookup Let_def option.case start by (auto simp: bind_eq_Some_conv)
  have "run_pipeline dbg G read_body loc ph (drop k ?rs) ?ctx s = Some ((r, ctx2), s2)"
    using r run_pipeline_skip [OF assms(1), of 0 ?ctx dbg G read_body loc ph] assms(3) n by simp
  from run_pipeline_calls [OF this assms(1)] obtain j st where j: "pipeline_ends ?ctx (length ?rs) k j r ctx2"
      "calls G (o_data ctx) (take (j - k) (drop k fs)) (w_pw s) st" "r \<noteq> Inl NGX_ERROR \<longrightarrow> s2 = s\<lparr>w_pw := st\<rparr>"
    using assms(3) n by auto
  then show ?thesis
    using rest n by (intro exI [of _ j] exI [of _ st]) (auto simp: pipeline_ends_def)
qed

text \<open>Two calls, of which the first one yields.\<close>

definition demo_call :: "nat \<Rightarrow> wasm_op" where
  "demo_call j = \<lparr>on_phases = phase_on CONTENT_PHASE, op_module = demo_module j, op_conf = Op_call j ''f'' (Some ''f''),
     op_handler = Some Call_handler\<rparr>"

definition demo_wops :: "nat wops" where
  "demo_wops = \<lparr>w_ops = [40 \<mapsto> demo_call 0, 41 \<mapsto> demo_call 1], w_root = \<lparr>pr_init = True, pr_tree = [(101, 1), (102, 2)], pr_store = 0\<rparr>,
     w_pw = demo_pw\<rparr>"

definition demo_plan :: "nat \<Rightarrow> ref list \<Rightarrow> ops_plan" where
  "demo_plan i rs = \<lparr>pipelines = (\<lambda>_. Some [])(i \<mapsto> rs), filter_ids = [101, 102], populated = True, loaded = True\<rparr>"

definition demo_opctx :: "ops_plan \<Rightarrow> op_ctx" where
  "demo_opctx plan = \<lparr>o_plan = plan, last_phase = None, cur_idx = 0, o_isolation = ISOLATION_UNSET, o_req_headers_in_access = False, o_data = 20\<rparr>"

definition demo_loc :: loc_conf where
  "demo_loc = \<lparr>l_isolation = ISOLATION_NONE, l_in_access = False\<rparr>"

definition no_body :: "ref \<Rightarrow> nat pw \<Rightarrow> (ngx_rc \<times> nat pw) option" where
  "no_body c st = Some (NGX_OK, st)"

definition yields_first :: "nat \<Rightarrow> ngx_rc \<times> nat \<times> host_effect list" where
  "yields_first n = (NGX_OK, 0, if n = 0 then [Request (demo_req\<lparr>env_state := STATE_YIELD\<rparr>)] else [])"

theorem ops_calls_once_witness:
  "\<exists>rc ctx' s' j st. ngx_wasm_ops_resume True (demo_guest yields_first) no_body demo_loc (phase_index CONTENT_PHASE)
      (demo_opctx (demo_plan (phase_index CONTENT_PHASE) [40, 41])) demo_wops = Some ((NGX_AGAIN, ctx'), s') \<and>
    calls (demo_guest yields_first) 20 (take j [(0, ''f''), (1, ''f'')]) demo_pw st \<and> 0 < j"
proof -
  let ?ctx = "demo_opctx (demo_plan (phase_index CONTENT_PHASE) [40, 41])" and ?fs = "[(0, ''f''), (1, ''f'')]"
  have "map_option (\<lambda>((rc, _), _). rc) (ngx_wasm_ops_resume True (demo_guest yields_first) no_body demo_loc (phase_index CONTENT_PHASE) ?ctx demo_wops)
    = Some NGX_AGAIN" by code_simp
  then obtain ctx' s' where r: "ngx_wasm_ops_resume True (demo_guest yields_first) no_body demo_loc (phase_index CONTENT_PHASE) ?ctx demo_wops
      = Some ((NGX_AGAIN, ctx'), s')" by auto
  have p: "call_pipeline demo_wops (pipeline_ops (o_plan ?ctx) (phase_index CONTENT_PHASE)) ?fs"
    by (simp add: call_pipeline_def is_call_def pipeline_ops_def demo_wops_def demo_plan_def demo_opctx_def demo_call_def demo_module_def)
  from ops_calls_once [OF p _ _ r, of 0] r show ?thesis
    by (auto simp: demo_opctx_def demo_wops_def)
qed

section \<open>Pipelines of filters\<close>

definition chain_rc :: "ngx_rc \<Rightarrow> bool" where
  "chain_rc rc \<longleftrightarrow> rc \<in> {NGX_OK, NGX_AGAIN, NGX_DONE, NGX_ERROR, NGX_HTTP 500}"

lemma action2rc_rc:
  assumes "action2rc dbg c e st = Some (rc, st')"
  shows "chain_rc rc"
proof -
  have "chain_rc rc" if "pause2rc c e st = Some (rc, st')"
    using that pause2rc_spec [OF that] by (auto simp: chain_rc_def pause2rc_def bind_eq_Some_conv)
  with assms show ?thesis
    by (auto simp: action2rc_def chain_rc_def prev_error_def unknown_error_def ngx_http_proxy_wasm_ecode_def bind_eq_Some_conv
        split: if_splits pw_action.splits)
qed

lemma filter_begin_rc: "filter_begin dbg G c stp e st = Some (Inl rc, st') \<Longrightarrow> chain_rc rc"
  by (auto simp: filter_begin_def bind_eq_Some_conv ngx_http_proxy_wasm_ecode_def split: if_splits dest!: action2rc_rc)
    (simp_all add: chain_rc_def)

lemma filter_end_rc:
  "filter_end dbg c stp e st = Some (Inl rc, st') \<Longrightarrow> chain_rc rc"
  "filter_end dbg c stp e st = Some (Inr rc, st') \<Longrightarrow> chain_rc rc"
  by (auto simp: filter_end_def bind_eq_Some_conv split: if_splits dest!: action2rc_rc)

lemma chain_loop_rc: "chain_loop dbg G c stp is rc0 st = Some (rc, st') \<Longrightarrow> chain_rc rc0 \<Longrightarrow> chain_rc rc"
proof (induction "is" arbitrary: rc0 st)
  case (Cons i "is")
  then obtain e r st1 where fb: "filter_begin dbg G c stp e st = Some (r, st1)"
      and rest: "(case r of Inl rc \<Rightarrow> Some (rc, st1) | Inr _ \<Rightarrow> do {
         (r, st2) \<leftarrow> filter_end dbg c stp e st1;
         case r of Inl rc \<Rightarrow> Some (rc, st2) | Inr rc \<Rightarrow> chain_loop dbg G c stp is rc st2 }) = Some (rc, st')"
    by (auto simp: bind_eq_Some_conv split: if_splits)
  show ?case
  proof (cases r)
    case (Inl rc')
    with fb rest show ?thesis by (auto dest: filter_begin_rc)
  next
    case (Inr u)
    with rest obtain r2 st2 where fe: "filter_end dbg c stp e st1 = Some (r2, st2)"
        and rest2: "(case r2 of Inl rc \<Rightarrow> Some (rc, st2) | Inr rc \<Rightarrow> chain_loop dbg G c stp is rc st2) = Some (rc, st')"
      by (auto simp: bind_eq_Some_conv)
    then show ?thesis by (cases r2) (auto dest: filter_end_rc intro: Cons.IH)
  qed
qed simp

lemma resume_rc: "ngx_proxy_wasm_resume dbg G c stp st = Some (rc, st') \<Longrightarrow> chain_rc rc"
  by (auto simp: ngx_proxy_wasm_resume_def resume_chain_def bind_eq_Some_conv split: if_splits dest!: chain_loop_rc)
    (simp_all add: chain_rc_def)

text \<open>
  All filters of a location are run by the first proxy-wasm operation of the pipeline of a phase: in a
  phase in which filters run, resuming the pipeline is running the handler of its first operation, which resumes the
  chain once, and no other operation behind it.
\<close>

theorem ops_chain_once:
  assumes "pipeline_ops (o_plan ctx) (phase_index ph) = r # rs" and "w_ops s r = Some opr" and "op_handler opr = Some Proxy_wasm_handler"
    and "ph \<notin> {POST_READ_PHASE, PREACCESS_PHASE, BACKGROUND_PHASE}"
    and "\<And>c st st'. read_body c st \<noteq> Some (NGX_DECLINED, st')"
    and "ngx_wasm_ops_resume dbg G read_body loc (phase_index ph) ctx s = Some ((rc, ctx'), s')"
  shows "\<exists>st. ngx_wasm_op_proxy_wasm_handler dbg G read_body loc (w_root s) ph ctx (w_pw s) = Some (rc, st) \<and> s' = s\<lparr>w_pw := st\<rparr>"
proof -
  define ctx1 where ctx1: "ctx1 = (if last_phase ctx \<noteq> None \<and> last_phase ctx \<noteq> Some ph then ctx\<lparr>cur_idx := 0\<rparr> else ctx)"
  have same: "ngx_wasm_op_proxy_wasm_handler dbg G read_body loc (w_root s) ph ctx1 (w_pw s) =
      ngx_wasm_op_proxy_wasm_handler dbg G read_body loc (w_root s) ph ctx (w_pw s)" "o_plan ctx1 = o_plan ctx"
    by (simp_all add: ctx1 ngx_wasm_op_proxy_wasm_handler_def cong: option.case_cong)
  have phase: "rc' \<noteq> NGX_DECLINED" if "op_phase dbg G read_body ph c b st = Some (rc', st')" for c b st rc' st'
    using that assms(4,5)
    by (cases ph) (auto simp: op_phase_def op_content_def content_read_body_def content_resume_body_def chain_rc_def bind_eq_Some_conv
        split: if_splits dest!: resume_rc)
  have handler: "rc' \<noteq> NGX_DECLINED" if "ngx_wasm_op_proxy_wasm_handler dbg G read_body loc (w_root s) ph ctx (w_pw s) = Some (rc', st')" for rc' st'
    using that by (auto simp: ngx_wasm_op_proxy_wasm_handler_def Let_def bind_eq_Some_conv split: if_splits option.splits dest!: phase)
  from assms(6) obtain rr ctx2 s2 where run: "run_pipeline dbg G read_body loc ph (r # rs) ctx1 s = Some ((rr, ctx2), s2)"
      and rest: "(case rr of Inl rc \<Rightarrow> Some ((rc, ctx2), s2)
          | Inr rc \<Rightarrow> if ngx_wa_assert dbg (rc = NGX_OK \<or> rc = NGX_DECLINED \<or> rc = NGX_AGAIN \<or> rc = NGX_DONE)
              then Some ((rc, ctx2\<lparr>last_phase := Some ph\<rparr>), s2) else None) = Some ((rc, ctx'), s')"
    unfolding ngx_wasm_ops_resume_def phase_lookup Let_def option.case ctx1 [symmetric] same(2) assms(1) by (auto simp: bind_eq_Some_conv)
  from run assms(2,3) obtain rc1 st where h: "ngx_wasm_op_proxy_wasm_handler dbg G read_body loc (w_root s) ph ctx (w_pw s) = Some (rc1, st)"
      and "(if rc1 = NGX_ERROR \<or> is_status rc1 then Some ((Inl rc1, ctx1), s\<lparr>w_pw := st\<rparr>)
        else if rc1 = NGX_DECLINED then run_pipeline dbg G read_body loc ph rs ctx1 (s\<lparr>w_pw := st\<rparr>)
        else Some ((Inr rc1, ctx1), s\<lparr>w_pw := st\<rparr>)) = Some ((rr, ctx2), s2)"
    unfolding run_pipeline.simps run_op_def by (auto simp del: if_split simp: same bind_eq_Some_conv)
  with handler [OF h] rest show ?thesis by (auto split: if_splits)
qed

definition demo_chain :: "nat wops" where
  "demo_chain = demo_wops\<lparr>w_ops := [40 \<mapsto> \<lparr>on_phases = phase_on REWRITE_PHASE, op_module = demo_module 1, op_conf = Op_proxy_wasm 1,
     op_handler = Some Proxy_wasm_handler\<rparr>]\<rparr>"

theorem ops_chain_once_witness:
  "\<exists>ctx' st. ngx_wasm_ops_resume True (demo_guest calm) no_body demo_loc (phase_index REWRITE_PHASE)
      (demo_opctx (demo_plan (phase_index REWRITE_PHASE) [40])) demo_chain = Some ((NGX_OK, ctx'), demo_chain\<lparr>w_pw := st\<rparr>)"
proof -
  let ?ctx = "demo_opctx (demo_plan (phase_index REWRITE_PHASE) [40])"
  have "map_option (\<lambda>((rc, _), _). rc) (ngx_wasm_ops_resume True (demo_guest calm) no_body demo_loc (phase_index REWRITE_PHASE) ?ctx demo_chain)
    = Some NGX_OK" by code_simp
  then obtain ctx' s' where r: "ngx_wasm_ops_resume True (demo_guest calm) no_body demo_loc (phase_index REWRITE_PHASE) ?ctx demo_chain
      = Some ((NGX_OK, ctx'), s')" by auto
  have p: "pipeline_ops (o_plan ?ctx) (phase_index REWRITE_PHASE) = [40]" by (simp add: pipeline_ops_def demo_opctx_def demo_plan_def)
  obtain opr where o: "w_ops demo_chain 40 = Some opr" "op_handler opr = Some Proxy_wasm_handler" by (simp add: demo_chain_def)
  have b: "no_body c st \<noteq> Some (NGX_DECLINED, st')" for c st st' by (simp add: no_body_def)
  from ops_chain_once [OF p o _ b r] r show ?thesis by auto
qed

end
