(* ===== verification/Shm_Queue.thy ===== *)
theory Shm_Queue
  imports Wasmx_Prelude
begin

text \<open>
  The shared-memory queue of src/src/common/shm/ngx_wa_shm_queue.c: a circular byte buffer
  that holds length-prefixed messages, with a push and a pop offset. When both offsets
  are equal the flag \<open>rising_occupancy\<close> says whether the buffer is full or empty.

  The theory gives the operations as the code has them (with the assertions of a debug
  build and with every copy checked against the buffer), the interface of a bounded FIFO
  as a locale, and the refinement of that interface by the circular buffer.
\<close>

section \<open>State and operations\<close>

text \<open>
  \<open>buffer\<close> is the memory between \<open>queue->buffer\<close> and \<open>queue->buffer_end\<close>; offsets are
  \<open>ngx_uint_t\<close> values below the size of an allocated object, so they are natural numbers here.
\<close>

record shm_queue =
  buffer :: bytes
  push_ptr :: nat
  pop_ptr :: nat
  rising_occupancy :: bool

definition queue_capacity :: "shm_queue \<Rightarrow> nat" where
  "queue_capacity q = length (buffer q)"

definition queue_occupancy :: "shm_queue \<Rightarrow> nat" where
  "queue_occupancy q =
     (if push_ptr q > pop_ptr q then push_ptr q - pop_ptr q
      else if push_ptr q < pop_ptr q then queue_capacity q - (pop_ptr q - push_ptr q)
      else if rising_occupancy q then queue_capacity q else 0)"

text \<open>\<open>inc_ptr\<close>: \<open>None\<close> is the failed assertion on the wrapped offset.\<close>

definition inc_ptr :: "bool \<Rightarrow> shm_queue \<Rightarrow> nat \<Rightarrow> nat \<Rightarrow> nat option" where
  "inc_ptr dbg q ptr n =
     (let new_ptr = ptr + n; cap = queue_capacity q in
      if new_ptr \<ge> cap
      then (if ngx_wa_assert dbg (new_ptr - cap < cap) then Some (new_ptr - cap) else None)
      else Some new_ptr)"

definition circular_write :: "bool \<Rightarrow> shm_queue \<Rightarrow> nat \<Rightarrow> bytes \<Rightarrow> shm_queue option" where
  "circular_write dbg q ptr data =
     (let cap = queue_capacity q; forward_capacity = cap - ptr; data_size = length data in
      if \<not> (ngx_wa_assert dbg (data_size \<le> cap - queue_occupancy q) \<and> ngx_wa_assert dbg (ptr < cap))
      then None
      else if data_size \<ge> forward_capacity
      then (case buf_write (buffer q) ptr (take forward_capacity data) of
              None \<Rightarrow> None
            | Some b \<Rightarrow>
                (case buf_write b 0 (drop forward_capacity data) of
                   None \<Rightarrow> None
                 | Some b' \<Rightarrow> Some (q\<lparr>buffer := b'\<rparr>)))
      else (case buf_write (buffer q) ptr data of
              None \<Rightarrow> None
            | Some b \<Rightarrow> Some (q\<lparr>buffer := b\<rparr>)))"

text \<open>\<open>has_out\<close> says whether \<open>data_out\<close> is a non-null pointer.\<close>

definition circular_read :: "bool \<Rightarrow> shm_queue \<Rightarrow> nat \<Rightarrow> bool \<Rightarrow> nat \<Rightarrow> bytes option" where
  "circular_read dbg q ptr has_out data_size =
     (let cap = queue_capacity q; forward_capacity = cap - ptr in
      if \<not> (ngx_wa_assert dbg (data_size \<le> queue_occupancy q) \<and> ngx_wa_assert dbg (ptr < cap)
            \<and> ngx_wa_assert dbg has_out)
      then None
      else if data_size \<ge> forward_capacity
      then (case buf_read (buffer q) ptr forward_capacity of
              None \<Rightarrow> None
            | Some xs \<Rightarrow>
                (case buf_read (buffer q) 0 (data_size - forward_capacity) of
                   None \<Rightarrow> None
                 | Some ys \<Rightarrow> Some (xs @ ys)))
      else buf_read (buffer q) ptr data_size)"

definition check_queue_invariance :: "bool \<Rightarrow> shm_queue \<Rightarrow> bool" where
  "check_queue_invariance dbg q \<longleftrightarrow>
     ngx_wa_assert dbg (push_ptr q < queue_capacity q) \<and>
     ngx_wa_assert dbg (pop_ptr q < queue_capacity q)"

text \<open>
  \<open>ngx_wa_shm_queue_init\<close>. The slab allocator is outside of the module: \<open>alloc_hdr\<close> and
  \<open>alloc_buf\<close> say whether its two zeroing allocations succeed. \<open>pool_size\<close> is the distance
  from the start to the end of the slab pool.
\<close>

definition ngx_wa_shm_queue_init ::
  "bool \<Rightarrow> bool \<Rightarrow> (nat \<Rightarrow> bool) \<Rightarrow> nat \<Rightarrow> nat \<Rightarrow> (ngx_rc \<times> shm_queue option) option" where
  "ngx_wa_shm_queue_init dbg alloc_hdr alloc_buf ngx_pagesize pool_size =
     (if \<not> alloc_hdr then Some (NGX_ERROR, None)
      else if \<not> ngx_wa_assert dbg (pool_size > ngx_pagesize) then None
      else let buffer_size = pool_size - ngx_pagesize in
        if \<not> alloc_buf buffer_size then Some (NGX_ERROR, None)
        else let q = \<lparr>buffer = replicate buffer_size 0, push_ptr = 0, pop_ptr = 0,
                      rising_occupancy = False\<rparr> in
          if check_queue_invariance dbg q then Some (NGX_OK, Some q) else None)"

definition ngx_wa_shm_queue_push_locked ::
  "bool \<Rightarrow> shm_queue \<Rightarrow> bytes \<Rightarrow> (ngx_rc \<times> shm_queue) option" where
  "ngx_wa_shm_queue_push_locked dbg q data =
     (let len = le32 (of_nat (length data)); entry_size = 4 + length data in
      if queue_occupancy q + entry_size > queue_capacity q then Some (NGX_ABORT, q)
      else case circular_write dbg q (push_ptr q) len of
        None \<Rightarrow> None
      | Some q1 \<Rightarrow>
          (case inc_ptr dbg q1 (push_ptr q1) 4 of
             None \<Rightarrow> None
           | Some p1 \<Rightarrow>
               let q2 = q1\<lparr>push_ptr := p1\<rparr> in
               (case circular_write dbg q2 (push_ptr q2) data of
                  None \<Rightarrow> None
                | Some q3 \<Rightarrow>
                    (case inc_ptr dbg q3 (push_ptr q3) (length data) of
                       None \<Rightarrow> None
                     | Some p2 \<Rightarrow>
                         let q4 = q3\<lparr>push_ptr := p2, rising_occupancy := True\<rparr> in
                         if check_queue_invariance dbg q4 then Some (NGX_OK, q4) else None))))"

text \<open>
  \<open>ngx_wa_shm_queue_pop_locked\<close>: \<open>alloc n\<close> says whether the caller's allocator gives \<open>n\<close> bytes.
\<close>

definition ngx_wa_shm_queue_pop_locked ::
  "bool \<Rightarrow> (nat \<Rightarrow> bool) \<Rightarrow> shm_queue \<Rightarrow> (ngx_rc \<times> bytes option \<times> shm_queue) option" where
  "ngx_wa_shm_queue_pop_locked dbg alloc q =
     (if queue_occupancy q < 4 then Some (NGX_AGAIN, None, q)
      else case circular_read dbg q (pop_ptr q) True 4 of
        None \<Rightarrow> None
      | Some hdr \<Rightarrow>
          let len = unat (from_le32 hdr); has_buf = (len \<noteq> 0) in
          if has_buf \<and> \<not> alloc len then Some (NGX_ERROR, None, q)
          else (case inc_ptr dbg q (pop_ptr q) 4 of
            None \<Rightarrow> None
          | Some p1 \<Rightarrow>
              let q1 = q\<lparr>pop_ptr := p1\<rparr> in
              if \<not> ngx_wa_assert dbg has_buf then None
              else (case circular_read dbg q1 (pop_ptr q1) has_buf len of
                None \<Rightarrow> None
              | Some data \<Rightarrow>
                  (case inc_ptr dbg q1 (pop_ptr q1) len of
                     None \<Rightarrow> None
                   | Some p2 \<Rightarrow>
                       let q2 = q1\<lparr>pop_ptr := p2, rising_occupancy := False\<rparr> in
                       if check_queue_invariance dbg q2
                       then Some (NGX_OK, Some data, q2) else None))))"

section \<open>The bounded FIFO interface\<close>

text \<open>
  What a client of the queue relies on: \<open>rel q ms\<close> says that the queue holds the messages \<open>ms\<close>,
  oldest first. The client is a run of pushes and pops; a pop names the allocator that its caller
  passes, and \<open>serves a m\<close> says that the allocator \<open>a\<close> has memory for the message \<open>m\<close>.
\<close>

datatype ('a, 'm) fifo_op = Push 'm | Pop 'a

text \<open>
  A run returns the accepted messages, the delivered messages and the final queue;
  \<open>None\<close> is an undefined outcome of one of the operations.
\<close>

fun fifo_run :: "('q \<Rightarrow> 'm \<Rightarrow> (ngx_rc \<times> 'q) option) \<Rightarrow> ('a \<Rightarrow> 'q \<Rightarrow> (ngx_rc \<times> 'm option \<times> 'q) option) \<Rightarrow>
    'q \<Rightarrow> ('a, 'm) fifo_op list \<Rightarrow> ('m list \<times> 'm list \<times> 'q) option" where
  "fifo_run push pop q [] = Some ([], [], q)"
| "fifo_run push pop q (Push m # ops) =
     (case push q m of
        None \<Rightarrow> None
      | Some (rc, q') \<Rightarrow>
          (case fifo_run push pop q' ops of
             None \<Rightarrow> None
           | Some (acc, out, q'') \<Rightarrow> Some (if rc = NGX_OK then m # acc else acc, out, q'')))"
| "fifo_run push pop q (Pop a # ops) =
     (case pop a q of
        None \<Rightarrow> None
      | Some (rc, m, q') \<Rightarrow>
          (case fifo_run push pop q' ops of
             None \<Rightarrow> None
           | Some (acc, out, q'') \<Rightarrow>
               Some (acc, (case m of None \<Rightarrow> out | Some x \<Rightarrow> x # out), q'')))"

locale bounded_fifo =
  fixes rel :: "'q \<Rightarrow> 'm list \<Rightarrow> bool"
    and msg_ok :: "'m \<Rightarrow> bool"
    and fits :: "'q \<Rightarrow> 'm \<Rightarrow> bool"
    and serves :: "'a \<Rightarrow> 'm \<Rightarrow> bool"
    and push :: "'q \<Rightarrow> 'm \<Rightarrow> (ngx_rc \<times> 'q) option"
    and pop :: "'a \<Rightarrow> 'q \<Rightarrow> (ngx_rc \<times> 'm option \<times> 'q) option"
  assumes push_fits: "rel q ms \<Longrightarrow> msg_ok m \<Longrightarrow> fits q m \<Longrightarrow>
      \<exists>q'. push q m = Some (NGX_OK, q') \<and> rel q' (ms @ [m])"
    and push_full: "rel q ms \<Longrightarrow> msg_ok m \<Longrightarrow> \<not> fits q m \<Longrightarrow> push q m = Some (NGX_ABORT, q)"
    and pop_empty: "rel q [] \<Longrightarrow> pop a q = Some (NGX_AGAIN, None, q)"
    and pop_head: "rel q (m # ms) \<Longrightarrow> msg_ok m \<Longrightarrow> serves a m \<Longrightarrow>
      \<exists>q'. pop a q = Some (NGX_OK, Some m, q') \<and> rel q' ms"
    and pop_no_memory: "rel q (m # ms) \<Longrightarrow> msg_ok m \<Longrightarrow> \<not> serves a m \<Longrightarrow>
      pop a q = Some (NGX_ERROR, None, q)"
begin

lemma push_cases:
  assumes "rel q ms" and "msg_ok m"
  obtains q' where "push q m = Some (NGX_OK, q')" "rel q' (ms @ [m])"
  | "push q m = Some (NGX_ABORT, q)"
  using push_fits [OF assms] push_full [OF assms] by blast

lemma pop_cases:
  assumes "rel q ms" and "\<forall>m \<in> set ms. msg_ok m"
  obtains m ms' q' where "ms = m # ms'" "pop a q = Some (NGX_OK, Some m, q')" "rel q' ms'"
  | rc where "pop a q = Some (rc, None, q)"
proof (cases ms)
  case Nil
  with assms show ?thesis by (auto intro: that(2) pop_empty)
next
  case (Cons m ms')
  with assms have "rel q (m # ms')" "msg_ok m" by simp_all
  then show ?thesis using pop_head [of q m ms' a] pop_no_memory [of q m ms' a] Cons that by blast
qed

lemma fifo_run_order:
  assumes "rel q ms" and "\<forall>m \<in> set ms. msg_ok m" and "\<forall>m. Push m \<in> set ops \<longrightarrow> msg_ok m"
  shows "\<exists>acc out q' ms'. fifo_run push pop q ops = Some (acc, out, q')
     \<and> rel q' ms' \<and> ms @ acc = out @ ms'"
  using assms
proof (induction ops arbitrary: q ms)
  case Nil
  then show ?case by auto
next
  case (Cons op ops)
  have ops: "\<forall>m. Push m \<in> set ops \<longrightarrow> msg_ok m" using Cons.prems by auto
  show ?case
  proof (cases op)
    case (Push m)
    with Cons.prems have m: "msg_ok m" by auto
    from Cons.prems(1) m show ?thesis
    proof (rule push_cases)
      fix q' assume q': "push q m = Some (NGX_OK, q')" "rel q' (ms @ [m])"
      have "\<forall>m \<in> set (ms @ [m]). msg_ok m" using Cons.prems m by auto
      from Cons.IH [OF q'(2) this ops] q'(1) Push show ?thesis by auto
    next
      assume "push q m = Some (NGX_ABORT, q)"
      with Cons.IH [OF Cons.prems(1,2) ops] Push show ?thesis by auto
    qed
  next
    case (Pop a)
    from Cons.prems(1,2) show ?thesis
    proof (rule pop_cases [of q ms a])
      fix m ms' q' assume q': "ms = m # ms'" "pop a q = Some (NGX_OK, Some m, q')" "rel q' ms'"
      from Cons.prems(2) q' have "\<forall>m \<in> set ms'. msg_ok m" by simp
      from Cons.IH [OF q'(3) this ops] q' Pop show ?thesis by auto
    next
      fix rc assume "pop a q = Some (rc, None, q)"
      with Cons.IH [OF Cons.prems(1,2) ops] Pop show ?thesis by auto
    qed
  qed
qed

end

section \<open>Ring slices\<close>

text \<open>\<open>ring xs p n\<close>: the \<open>n\<close> elements of the circular list \<open>xs\<close> from offset \<open>p\<close>.\<close>

definition ring :: "'a list \<Rightarrow> nat \<Rightarrow> nat \<Rightarrow> 'a list" where
  "ring xs p n = map (\<lambda>i. xs ! ((p + i) mod length xs)) [0..<n]"

lemma length_ring [simp]: "length (ring xs p n) = n"
  by (simp add: ring_def)

lemma nth_ring [simp]: "i < n \<Longrightarrow> ring xs p n ! i = xs ! ((p + i) mod length xs)"
  by (simp add: ring_def)

lemma ring_0 [simp]: "ring xs p 0 = []"
  by (simp add: ring_def)

lemma ring_add: "ring xs p (a + b) = ring xs p a @ ring xs (p + a) b"
  by (rule nth_equalityI) (auto simp: nth_append add.assoc)

lemma ring_mod [simp]: "ring xs (p mod length xs) n = ring xs p n"
  by (simp add: ring_def mod_add_left_eq)

lemma ring_cong: "length xs = length ys \<Longrightarrow>
    (\<And>i. i < n \<Longrightarrow> xs ! ((p + i) mod length ys) = ys ! ((p + i) mod length ys)) \<Longrightarrow>
    ring xs p n = ring ys p n"
  by (rule nth_equalityI) auto

text \<open>The four mapped primitives on a ring.\<close>

lemma wrap_index:
  assumes "(p::nat) < c" and "i < c"
  shows "(p + i) mod c = (if p + i < c then p + i else p + i - c)"
proof (cases "p + i < c")
  case False
  then have "(p + i) mod c = (p + i - c) mod c" by (simp add: le_mod_geq)
  also have "\<dots> = p + i - c" using assms by (intro mod_less) linarith
  finally show ?thesis using False by simp
qed simp

lemma inc_ptr_wrap:
  assumes "ptr < queue_capacity q" and "n \<le> queue_capacity q"
  shows "inc_ptr dbg q ptr n = Some ((ptr + n) mod queue_capacity q)"
proof (cases "n = queue_capacity q")
  case True
  with assms show ?thesis by (simp add: inc_ptr_def Let_def)
next
  case False
  with assms have "n < queue_capacity q" by simp
  from wrap_index [OF assms(1) this] assms show ?thesis by (auto simp: inc_ptr_def Let_def)
qed

lemma circular_read_ring:
  assumes "ptr < queue_capacity q" and "n \<le> queue_occupancy q" and "n \<le> queue_capacity q"
    and "ngx_wa_assert dbg has_out"
  shows "circular_read dbg q ptr has_out n = Some (ring (buffer q) ptr n)"
proof (cases "n \<ge> queue_capacity q - ptr")
  case True
  let ?f = "queue_capacity q - ptr"
  have "take ?f (drop ptr (buffer q)) @ take (n - ?f) (buffer q) = ring (buffer q) ptr n"
  proof (rule nth_equalityI)
    fix i assume "i < length (take ?f (drop ptr (buffer q)) @ take (n - ?f) (buffer q))"
    with assms True have i: "i < n" by (auto simp: queue_capacity_def)
    with assms have "(ptr + i) mod length (buffer q) =
        (if ptr + i < length (buffer q) then ptr + i else ptr + i - length (buffer q))"
      by (intro wrap_index) (auto simp: queue_capacity_def)
    with i assms True show "(take ?f (drop ptr (buffer q)) @ take (n - ?f) (buffer q)) ! i
        = ring (buffer q) ptr n ! i"
      by (auto simp: nth_append queue_capacity_def add.commute)
  qed (use assms True in \<open>auto simp: queue_capacity_def\<close>)
  with assms True show ?thesis
    by (auto simp: circular_read_def Let_def buf_read_def queue_capacity_def)
next
  case False
  have "take n (drop ptr (buffer q)) = ring (buffer q) ptr n"
    by (rule nth_equalityI) (use False assms in \<open>auto simp: queue_capacity_def\<close>)
  with assms False show ?thesis
    by (auto simp: circular_read_def Let_def buf_read_def queue_capacity_def)
qed

lemma circular_write_ring:
  assumes "ptr < queue_capacity q" and "length data \<le> queue_capacity q - queue_occupancy q"
  shows "\<exists>b. circular_write dbg q ptr data = Some (q\<lparr>buffer := b\<rparr>) \<and> length b = length (buffer q)
    \<and> (\<forall>i < queue_capacity q. b ! ((ptr + i) mod queue_capacity q) =
         (if i < length data then data ! i else buffer q ! ((ptr + i) mod queue_capacity q)))"
proof (cases "length data \<ge> queue_capacity q - ptr")
  case True
  let ?f = "queue_capacity q - ptr"
  have "ptr + length (take ?f data) \<le> length (buffer q)"
    using assms by (auto simp: queue_capacity_def min_def)
  then obtain b1 where b1: "buf_write (buffer q) ptr (take ?f data) = Some b1"
    using buf_write_ok [of ptr "take ?f data" "buffer q"] by blast
  have "0 + length (drop ?f data) \<le> length b1"
    using assms length_buf_write [OF b1] unfolding queue_capacity_def length_drop by linarith
  then obtain b2 where b2: "buf_write b1 0 (drop ?f data) = Some b2"
    using buf_write_ok by blast
  have len: "length b1 = length (buffer q)" "length b2 = length (buffer q)"
    using length_buf_write [OF b1] length_buf_write [OF b2] by simp_all
  have "b2 ! ((ptr + i) mod queue_capacity q) =
      (if i < length data then data ! i else buffer q ! ((ptr + i) mod queue_capacity q))"
    if i: "i < queue_capacity q" for i
  proof (cases "ptr + i < queue_capacity q")
    case in_range: True
    moreover from this assms have "\<not> ptr + i < length (drop ?f data)" by auto
    ultimately have "b2 ! (ptr + i) = b1 ! (ptr + i)" "b1 ! (ptr + i) = data ! i" "i < length data"
      using assms len True nth_buf_write [OF b2, of "ptr + i"] nth_buf_write [OF b1, of "ptr + i"]
      by (simp_all add: queue_capacity_def)
    then show ?thesis using wrap_index [OF assms(1) i] in_range by simp
  next
    case wrapped: False
    define j where "j = ptr + i - queue_capacity q"
    have j: "j < ptr" "j < queue_capacity q" "(ptr + i) mod queue_capacity q = j"
        "j < length data - ?f \<longleftrightarrow> i < length data" "?f + j = i"
      using wrap_index [OF assms(1) i] wrapped i assms True by (auto simp: j_def)
    then have "b2 ! j = (if i < length data then data ! i else b1 ! j)" "b1 ! j = buffer q ! j"
      using len nth_buf_write [OF b2, of j] nth_buf_write [OF b1, of j]
      by (simp_all add: queue_capacity_def)
    then show ?thesis using j by simp
  qed
  with b1 b2 len assms True show ?thesis
    by (intro exI [of _ b2]) (simp add: circular_write_def Let_def)
next
  case False
  obtain b1 where b1: "buf_write (buffer q) ptr data = Some b1"
    using assms False buf_write_ok [of ptr data "buffer q"] unfolding queue_capacity_def
    by (metis add.commute le_diff_conv less_or_eq_imp_le not_le)
  have len: "length b1 = length (buffer q)" using length_buf_write [OF b1] .
  have "b1 ! ((ptr + i) mod queue_capacity q) =
      (if i < length data then data ! i else buffer q ! ((ptr + i) mod queue_capacity q))"
    if i: "i < queue_capacity q" for i
    using wrap_index [OF assms(1) i] i False assms len
    by (auto simp: nth_buf_write [OF b1] queue_capacity_def)
  with b1 len assms False show ?thesis
    by (intro exI [of _ b1]) (simp add: circular_write_def Let_def)
qed

text \<open>
  A write at \<open>ptr\<close> puts its data there and keeps any slice that ends at \<open>ptr\<close> and leaves room
  for the data.
\<close>

lemma circular_write_slices:
  assumes "ptr < queue_capacity q" and "length data \<le> queue_capacity q - queue_occupancy q"
  obtains b where "circular_write dbg q ptr data = Some (q\<lparr>buffer := b\<rparr>)"
    and "length b = length (buffer q)" and "ring b ptr (length data) = data"
    and "\<And>p n. n + length data \<le> queue_capacity q \<Longrightarrow> ptr = (p + n) mod queue_capacity q \<Longrightarrow>
           ring b p n = ring (buffer q) p n"
proof -
  let ?c = "queue_capacity q"
  obtain b where b: "circular_write dbg q ptr data = Some (q\<lparr>buffer := b\<rparr>)"
      "length b = length (buffer q)"
    and i: "\<And>i. i < ?c \<Longrightarrow> b ! ((ptr + i) mod ?c) =
         (if i < length data then data ! i else buffer q ! ((ptr + i) mod ?c))"
    using circular_write_ring [OF assms] by blast
  have c: "?c = length (buffer q)" by (simp add: queue_capacity_def)
  have data: "ring b ptr (length data) = data"
    using i assms b(2) by (intro nth_equalityI) (auto simp: c)
  have keep: "ring b p n = ring (buffer q) p n"
    if n: "n + length data \<le> ?c" and ptr: "ptr = (p + n) mod ?c" for p n
  proof (rule ring_cong)
    fix j assume j: "j < n"
    define k where "k = ?c - n + j"
    have k: "k < ?c" "\<not> k < length data" "p + n + k = p + j + ?c"
      using n j by (auto simp: k_def)
    have "(p + j) mod ?c = (ptr + k) mod ?c"
      unfolding ptr by (metis k(3) mod_add_left_eq mod_add_self2)
    with i [OF k(1)] k(2)
    show "b ! ((p + j) mod length (buffer q)) = buffer q ! ((p + j) mod length (buffer q))"
      unfolding c [symmetric] by simp
  qed (use b in simp)
  show ?thesis by (rule that [OF b data keep])
qed

section \<open>What the buffer holds\<close>

text \<open>
  A message is stored as its 32-bit length followed by its bytes. \<open>queue_rel q ms\<close>: both
  offsets are inside of the buffer and the occupied part, read from \<open>pop_ptr\<close>, is the
  sequence of the frames of \<open>ms\<close>.
\<close>

definition frame :: "bytes \<Rightarrow> bytes" where
  "frame m = le32 (of_nat (length m)) @ m"

definition msg_ok :: "bytes \<Rightarrow> bool" where
  "msg_ok m \<longleftrightarrow> length m < 2 ^ 32"

definition queue_wf :: "shm_queue \<Rightarrow> bool" where
  "queue_wf q \<longleftrightarrow> push_ptr q < queue_capacity q \<and> pop_ptr q < queue_capacity q"

definition queue_rel :: "shm_queue \<Rightarrow> bytes list \<Rightarrow> bool" where
  "queue_rel q ms \<longleftrightarrow> queue_wf q \<and>
     ring (buffer q) (pop_ptr q) (queue_occupancy q) = concat (map frame ms)"

lemma length_frame [simp]: "length (frame m) = 4 + length m"
  by (simp add: frame_def)

lemma occupancy_le: "queue_wf q \<Longrightarrow> queue_occupancy q \<le> queue_capacity q"
  by (auto simp: queue_occupancy_def queue_wf_def)

lemma push_ptr_eq:
  assumes "queue_wf q"
  shows "push_ptr q = (pop_ptr q + queue_occupancy q) mod queue_capacity q"
  using assms by (auto simp: queue_occupancy_def queue_wf_def)

lemma ptr_step:
  "(p::nat) = (r + n) mod c \<Longrightarrow> n \<le> k \<Longrightarrow> (p + (k - n)) mod c = (r + k) mod c"
  by (metis add.assoc le_add_diff_inverse mod_add_left_eq)

text \<open>An offset pair determines its occupancy up to the full/empty ambiguity.\<close>

lemma occupancy_unique:
  assumes "queue_wf q" and "push_ptr q = (pop_ptr q + n) mod queue_capacity q"
    and "n \<le> queue_capacity q" and "n = 0 \<Longrightarrow> \<not> rising_occupancy q" and "n = queue_capacity q \<Longrightarrow> rising_occupancy q"
  shows "queue_occupancy q = n"
proof (cases "n = queue_capacity q")
  case True
  with assms show ?thesis by (simp add: queue_occupancy_def queue_wf_def)
next
  case False
  with assms(3) have n: "n < queue_capacity q" by simp
  from assms(1) have p: "pop_ptr q < queue_capacity q" by (simp add: queue_wf_def)
  from assms(2) wrap_index [OF p n] p n assms(4) show ?thesis
    by (auto simp: queue_occupancy_def split: if_splits)
qed

lemma frame_of_nat: "msg_ok m \<Longrightarrow> unat (of_nat (length m) :: u32) = length m"
  by (simp add: msg_ok_def unat_of_nat)

section \<open>Refinement of the bounded FIFO\<close>

lemma queue_push_fits:
  assumes rel: "queue_rel q ms"
    and fits: "queue_occupancy q + 4 + length m \<le> queue_capacity q"
  shows "\<exists>q'. ngx_wa_shm_queue_push_locked dbg q m = Some (NGX_OK, q') \<and> queue_rel q' (ms @ [m])"
proof -
  let ?c = "queue_capacity q" and ?o = "queue_occupancy q" and ?h = "le32 (of_nat (length m))"
  from rel have wf: "queue_wf q"
    and old: "ring (buffer q) (pop_ptr q) ?o = concat (map frame ms)"
    by (simp_all add: queue_rel_def)
  from wf have p: "push_ptr q < ?c" "pop_ptr q < ?c" by (simp_all add: queue_wf_def)
  note push = push_ptr_eq [OF wf]
  obtain b1 where w1: "circular_write dbg q (push_ptr q) ?h = Some (q\<lparr>buffer := b1\<rparr>)"
    and l1: "length b1 = length (buffer q)" and r1: "ring b1 (push_ptr q) 4 = ?h"
    and K1: "\<And>p n. n + length ?h \<le> ?c \<Longrightarrow> push_ptr q = (p + n) mod ?c \<Longrightarrow>
           ring b1 p n = ring (buffer q) p n"
    by (rule circular_write_slices [OF p(1), of ?h dbg]) (use fits in auto)
  have k1: "ring b1 (pop_ptr q) ?o = ring (buffer q) (pop_ptr q) ?o"
    by (rule K1 [OF _ push]) (use fits in simp)
  let ?p1 = "(push_ptr q + 4) mod ?c"
  let ?q2 = "q\<lparr>buffer := b1, push_ptr := ?p1\<rparr>"
  have c2: "queue_capacity ?q2 = ?c" using l1 by (simp add: queue_capacity_def)
  have p1: "?p1 < ?c" "?p1 = (pop_ptr q + (?o + 4)) mod ?c"
    using p ptr_step [OF push, of "?o + 4"] by simp_all
  have o2: "queue_occupancy ?q2 = ?o + 4" if "?o + 4 < ?c"
    by (rule occupancy_unique) (use that p p1 c2 in \<open>simp_all add: queue_wf_def\<close>)
  have room: "length m \<le> queue_capacity ?q2 - queue_occupancy ?q2"
    using o2 fits c2 by (cases "?o + 4 < ?c") auto
  obtain b2 where w2: "circular_write dbg ?q2 ?p1 m = Some (?q2\<lparr>buffer := b2\<rparr>)"
    and l2: "length b2 = length b1" and r2: "ring b2 ?p1 (length m) = m"
    and K2: "\<And>p n. n + length m \<le> ?c \<Longrightarrow> ?p1 = (p + n) mod ?c \<Longrightarrow> ring b2 p n = ring b1 p n"
    by (rule circular_write_slices [of ?p1 ?q2 m dbg, OF _ room]) (use p1 c2 in auto)
  have k2: "ring b2 (pop_ptr q) (?o + 4) = ring b1 (pop_ptr q) (?o + 4)"
    by (rule K2 [OF _ p1(2)]) (use fits in simp)
  let ?p2 = "(?p1 + length m) mod ?c"
  let ?q4 = "q\<lparr>buffer := b2, push_ptr := ?p2, rising_occupancy := True\<rparr>"
  have c4: "queue_capacity ?q4 = ?c" "length b2 = ?c" using l1 l2 by (simp_all add: queue_capacity_def)
  have p2: "?p2 < ?c" using p by simp
  have wf4: "queue_wf ?q4" using p c4 by (simp add: queue_wf_def)
  have "?p2 = (pop_ptr q + (?o + 4 + length m)) mod ?c"
    using ptr_step [OF p1(2), of "?o + 4 + length m"] by simp
  then have o4: "queue_occupancy ?q4 = ?o + 4 + length m"
    by (intro occupancy_unique) (use wf4 c4 fits in simp_all)
  have "ring b2 (pop_ptr q) (?o + 4 + length m) = ring b1 (pop_ptr q) (?o + 4) @ ring b2 ?p1 (length m)"
    using p1(2) c4(2) by (metis k2 ring_add ring_mod)
  also have "\<dots> = ring b1 (pop_ptr q) ?o @ ring b1 (push_ptr q) 4 @ m"
    using push l1 r2 by (metis append_assoc queue_capacity_def ring_add ring_mod)
  finally have "queue_rel ?q4 (ms @ [m])"
    using wf4 o4 r1 k1 old by (simp add: queue_rel_def frame_def)
  moreover have "ngx_wa_shm_queue_push_locked dbg q m = Some (NGX_OK, ?q4)"
    using fits w1 w2 c2 c4 p p1(1) p2 l1 l2 inc_ptr_wrap [of "push_ptr q" "q\<lparr>buffer := b1\<rparr>" 4 dbg]
      inc_ptr_wrap [of ?p1 "?q2\<lparr>buffer := b2\<rparr>" "length m" dbg]
    by (simp add: ngx_wa_shm_queue_push_locked_def Let_def check_queue_invariance_def
        queue_capacity_def)
  ultimately show ?thesis by blast
qed

lemma queue_push_full:
  "queue_capacity q < queue_occupancy q + 4 + length m \<Longrightarrow>
   ngx_wa_shm_queue_push_locked dbg q m = Some (NGX_ABORT, q)"
  by (simp add: ngx_wa_shm_queue_push_locked_def Let_def)

lemma queue_pop_empty:
  "queue_rel q [] \<Longrightarrow> ngx_wa_shm_queue_pop_locked dbg alloc q = Some (NGX_AGAIN, None, q)"
  by (auto simp: queue_rel_def ngx_wa_shm_queue_pop_locked_def dest!: arg_cong [of _ _ length])

text \<open>The header and the body of the oldest message, as the two reads see them.\<close>

lemma queue_rel_Cons:
  assumes "queue_rel q (m # ms)"
  shows "4 + length m \<le> queue_occupancy q"
    and "ring (buffer q) (pop_ptr q) 4 = le32 (of_nat (length m))"
    and "ring (buffer q) (pop_ptr q + 4) (length m) = m"
    and "ring (buffer q) (pop_ptr q + 4 + length m) (queue_occupancy q - (4 + length m))
           = concat (map frame ms)"
proof -
  let ?o = "queue_occupancy q" and ?r = "ring (buffer q)"
  from assms have eq: "?r (pop_ptr q) ?o = frame m @ concat (map frame ms)"
    by (simp add: queue_rel_def)
  from arg_cong [OF this, of length] show le: "4 + length m \<le> ?o" by simp
  then have "?o = 4 + (length m + (?o - (4 + length m)))" by simp
  then have "?r (pop_ptr q) ?o = ?r (pop_ptr q) 4 @ ?r (pop_ptr q + 4) (length m)
      @ ?r (pop_ptr q + 4 + length m) (?o - (4 + length m))"
    by (metis ring_add)
  with eq show "?r (pop_ptr q) 4 = le32 (of_nat (length m))" "?r (pop_ptr q + 4) (length m) = m"
    "?r (pop_ptr q + 4 + length m) (?o - (4 + length m)) = concat (map frame ms)"
    by (simp_all add: frame_def)
qed

lemma queue_pop_head:
  assumes rel: "queue_rel q (m # ms)" and m: "msg_ok m"
    and alloc: "m \<noteq> [] \<Longrightarrow> alloc (length m)" and nonempty: "dbg \<Longrightarrow> m \<noteq> []"
  shows "\<exists>q'. ngx_wa_shm_queue_pop_locked dbg alloc q = Some (NGX_OK, Some m, q') \<and> queue_rel q' ms"
proof -
  let ?c = "queue_capacity q" and ?o = "queue_occupancy q"
  note parts = queue_rel_Cons [OF rel]
  from rel have wf: "queue_wf q" by (simp add: queue_rel_def)
  then have p: "push_ptr q < ?c" "pop_ptr q < ?c" by (simp_all add: queue_wf_def)
  have oc: "?o \<le> ?c" using wf by (rule occupancy_le)
  have rd1: "circular_read dbg q (pop_ptr q) True 4 = Some (le32 (of_nat (length m)))"
    using circular_read_ring [of "pop_ptr q" q 4 dbg True] p parts oc by simp
  let ?p1 = "(pop_ptr q + 4) mod ?c" and ?p2 = "(pop_ptr q + 4 + length m) mod ?c"
  let ?q1 = "q\<lparr>pop_ptr := ?p1\<rparr>"
  have p1: "?p1 < ?c" "?p2 < ?c" using p by simp_all
  have push: "push_ptr q = (?p1 + (?o - 4)) mod ?c" "push_ptr q = (?p2 + (?o - (4 + length m))) mod ?c"
    using push_ptr_eq [OF wf] parts(1) ptr_step [OF refl, of 4 ?o "pop_ptr q" ?c]
      ptr_step [OF refl, of "4 + length m" ?o "pop_ptr q" ?c] by (simp_all add: add.assoc)
  have o1: "length m \<le> queue_occupancy ?q1"
  proof (cases "length m = 0")
    case False
    have "queue_occupancy ?q1 = ?o - 4"
      by (rule occupancy_unique)
        (use p p1 oc push parts(1) False in \<open>simp_all add: queue_wf_def queue_capacity_def\<close>)
    with parts(1) show ?thesis by simp
  qed simp
  have rd2: "circular_read dbg ?q1 ?p1 (m \<noteq> []) (length m) = Some m"
    using circular_read_ring [of ?p1 ?q1 "length m" dbg "m \<noteq> []"] p1 o1 oc parts nonempty
    by (auto simp: queue_capacity_def ngx_wa_assert_def)
  let ?q2 = "q\<lparr>pop_ptr := ?p2, rising_occupancy := False\<rparr>"
  have wf2: "queue_wf ?q2" using p p1 by (simp add: queue_wf_def queue_capacity_def)
  have o2: "queue_occupancy ?q2 = ?o - (4 + length m)"
    by (rule occupancy_unique)
      (use wf2 push oc parts(1) p in \<open>auto simp: queue_capacity_def\<close>)
  have "queue_rel ?q2 ms"
    using wf2 o2 parts(4) by (simp add: queue_rel_def queue_capacity_def)
  moreover have "ngx_wa_shm_queue_pop_locked dbg alloc q = Some (NGX_OK, Some m, ?q2)"
    using rd1 rd2 frame_of_nat [OF m] alloc nonempty p p1 parts(1) oc
      inc_ptr_wrap [of "pop_ptr q" q 4 dbg] inc_ptr_wrap [of ?p1 ?q1 "length m" dbg]
    by (auto simp: ngx_wa_shm_queue_pop_locked_def Let_def check_queue_invariance_def
        queue_capacity_def mod_add_left_eq ngx_wa_assert_def)
  ultimately show ?thesis by blast
qed

lemma queue_pop_header:
  assumes "queue_rel q (m # ms)"
  shows "circular_read dbg q (pop_ptr q) True 4 = Some (le32 (of_nat (length m)))"
proof -
  from assms have wf: "queue_wf q" by (simp add: queue_rel_def)
  with circular_read_ring [of "pop_ptr q" q 4 dbg True] queue_rel_Cons [OF assms] occupancy_le [OF wf]
  show ?thesis by (simp add: queue_wf_def)
qed

lemma queue_pop_no_memory:
  assumes "queue_rel q (m # ms)" and "msg_ok m" and "m \<noteq> []" and "\<not> alloc (length m)"
  shows "ngx_wa_shm_queue_pop_locked dbg alloc q = Some (NGX_ERROR, None, q)"
  using queue_pop_header [OF assms(1), of dbg] queue_rel_Cons(1) [OF assms(1)] assms(2-4)
  by (simp add: ngx_wa_shm_queue_pop_locked_def frame_of_nat Let_def)

lemma queue_pop_empty_debug:
  assumes "queue_rel q ([] # ms)"
  shows "ngx_wa_shm_queue_pop_locked True alloc q = None"
  using queue_pop_header [OF assms, of True] queue_rel_Cons(1) [OF assms]
  by (auto simp: ngx_wa_shm_queue_pop_locked_def Let_def split: option.splits)

text \<open>
  The circular buffer is a bounded FIFO of the messages that a 32-bit length can
  describe; in a debug build, of the non-empty ones among them. An empty message needs no allocation.
\<close>

interpretation shm_fifo: bounded_fifo queue_rel "\<lambda>m. msg_ok m \<and> (dbg \<longrightarrow> m \<noteq> [])"
  "\<lambda>q m. queue_occupancy q + 4 + length m \<le> queue_capacity q"
  "\<lambda>alloc m. m = [] \<or> alloc (length m)"
  "ngx_wa_shm_queue_push_locked dbg" "ngx_wa_shm_queue_pop_locked dbg" for dbg
  by unfold_locales
    (auto intro: queue_push_fits queue_push_full queue_pop_empty queue_pop_head queue_pop_no_memory)

section \<open>Properties\<close>

text \<open>
  C1. A push is accepted exactly when the 4-byte length and the message fit into the free
  part of the buffer. An accepted push appends the message to the queue's contents; a
  refused one returns \<open>NGX_ABORT\<close> and leaves the queue as it was. No assertion fails and no
  copy leaves the buffer, also when the frame wraps around.
\<close>

theorem queue_push_refines:
  assumes "queue_rel q ms"
  shows "if queue_occupancy q + 4 + length m \<le> queue_capacity q
     then \<exists>q'. ngx_wa_shm_queue_push_locked dbg q m = Some (NGX_OK, q') \<and> queue_rel q' (ms @ [m])
     else ngx_wa_shm_queue_push_locked dbg q m = Some (NGX_ABORT, q)"
  using queue_push_fits [OF assms] queue_push_full by simp

theorem queue_push_refines_witness:
  "\<exists>q'. ngx_wa_shm_queue_push_locked True
      \<lparr>buffer = replicate 8 0, push_ptr = 6, pop_ptr = 6, rising_occupancy = False\<rparr> [1, 2]
      = Some (NGX_OK, q') \<and> queue_rel q' [[1, 2]]"
proof -
  let ?q = "\<lparr>buffer = replicate 8 0, push_ptr = 6, pop_ptr = 6, rising_occupancy = False\<rparr>"
  have "queue_rel ?q []"
    by (simp add: queue_rel_def queue_wf_def queue_occupancy_def queue_capacity_def)
  from queue_push_refines [OF this, of "[1, 2]" True] show ?thesis
    by (simp add: queue_occupancy_def queue_capacity_def)
qed

text \<open>
  C2. A pop of a queue that holds messages of less than \<open>2 ^ 32\<close> bytes delivers the oldest message and
  removes exactly that message, whatever the position of its frame in the circular buffer. When the
  caller's allocation fails the queue is unchanged (the offsets are advanced only after it) and
  \<open>NGX_ERROR\<close> is returned; an empty queue answers \<open>NGX_AGAIN\<close>. An empty message needs no
  allocation: a release build delivers it, and a debug build fails the assertion on the buffer
  that was never allocated.
\<close>

theorem queue_pop_refines:
  assumes "queue_rel q ms" and "\<forall>m \<in> set ms. msg_ok m"
  shows "case ms of
      [] \<Rightarrow> ngx_wa_shm_queue_pop_locked dbg alloc q = Some (NGX_AGAIN, None, q)
    | m # ms' \<Rightarrow>
        (if m = [] \<and> dbg then ngx_wa_shm_queue_pop_locked dbg alloc q = None
         else if m = [] \<or> alloc (length m)
         then \<exists>q'. ngx_wa_shm_queue_pop_locked dbg alloc q = Some (NGX_OK, Some m, q') \<and> queue_rel q' ms'
         else ngx_wa_shm_queue_pop_locked dbg alloc q = Some (NGX_ERROR, None, q))"
proof (cases ms)
  case Nil
  with assms show ?thesis by (simp add: queue_pop_empty)
next
  case (Cons m ms')
  with assms have m: "queue_rel q (m # ms')" "msg_ok m" by simp_all
  show ?thesis
  proof (cases "m = [] \<and> dbg")
    case True
    with m(1) Cons show ?thesis using queue_pop_empty_debug by simp
  next
    case False
    with queue_pop_head [OF m, of alloc dbg] queue_pop_no_memory [OF m, of alloc dbg] Cons
    show ?thesis by auto
  qed
qed

theorem queue_pop_refines_witness:
  "\<exists>q'. ngx_wa_shm_queue_pop_locked True (\<lambda>n. n \<le> 100)
      \<lparr>buffer = [0, 0, 7, 8, 0, 0, 2, 0], push_ptr = 4, pop_ptr = 6, rising_occupancy = True\<rparr>
      = Some (NGX_OK, Some [7, 8], q') \<and> queue_rel q' []"
proof -
  let ?q = "\<lparr>buffer = [0, 0, 7, 8, 0, 0, 2, 0], push_ptr = 4, pop_ptr = 6, rising_occupancy = True\<rparr>"
  have "queue_rel ?q [[7, 8]]"
    by (simp add: queue_rel_def queue_wf_def queue_occupancy_def queue_capacity_def ring_def
        frame_def le32_def upt_rec)
  moreover have "\<forall>m \<in> set [[7, 8 :: byte]]. msg_ok m" by (simp add: msg_ok_def)
  ultimately show ?thesis using queue_pop_refines [of ?q "[[7, 8]]" True "\<lambda>n. n \<le> 100"] by simp
qed

text \<open>
  C3. First in, first out. Start from a freshly initialised queue of a pool that is larger than a page, and
  push messages of less than \<open>2 ^ 32\<close> bytes which, in a debug build, are not empty (a debug build
  fails an assertion when it pops an empty one). Any interleaving of pushes and pops, each pop with an
  allocator that may fail or not, runs without an undefined outcome; and the delivered messages
  followed by the messages that are still queued are exactly the accepted messages in the order they
  were pushed.
\<close>

theorem queue_run_fifo:
  assumes "\<forall>m. Push m \<in> set ops \<longrightarrow> msg_ok m \<and> (dbg \<longrightarrow> m \<noteq> [])"
    and "ngx_wa_shm_queue_init dbg alloc_hdr alloc_buf ngx_pagesize pool_size = Some (NGX_OK, Some q)"
    and "ngx_pagesize < pool_size"
  shows "\<exists>acc out q' ms'.
     fifo_run (ngx_wa_shm_queue_push_locked dbg) (ngx_wa_shm_queue_pop_locked dbg) q ops
       = Some (acc, out, q') \<and> queue_rel q' ms' \<and> acc = out @ ms'"
proof -
  from assms(2,3) have "queue_rel q []"
    by (auto simp: ngx_wa_shm_queue_init_def Let_def queue_rel_def queue_wf_def
        queue_occupancy_def queue_capacity_def split: if_splits)
  from shm_fifo.fifo_run_order [OF this _ assms(1)] show ?thesis by simp
qed

theorem queue_run_fifo_witness:
  "\<exists>acc out q' ms'.
     fifo_run (ngx_wa_shm_queue_push_locked True) (ngx_wa_shm_queue_pop_locked True)
       \<lparr>buffer = replicate 8 0, push_ptr = 0, pop_ptr = 0, rising_occupancy = False\<rparr>
       [Push [1], Pop (\<lambda>_. True), Push [2, 3], Push [4], Pop (\<lambda>_. False), Pop (\<lambda>_. True)]
       = Some (acc, out, q') \<and> queue_rel q' ms' \<and> acc = out @ ms'"
proof -
  have "ngx_wa_shm_queue_init True True (\<lambda>_. True) 4 12 = Some (NGX_OK,
      Some \<lparr>buffer = replicate 8 0, push_ptr = 0, pop_ptr = 0, rising_occupancy = False\<rparr>)"
    by (simp add: ngx_wa_shm_queue_init_def check_queue_invariance_def queue_capacity_def Let_def)
  from queue_run_fifo [OF _ this, of "[Push [1], Pop (\<lambda>_. True), Push [2, 3], Push [4], Pop (\<lambda>_. False), Pop (\<lambda>_. True)]"]
  show ?thesis by (simp add: msg_ok_def)
qed

end
