(* ===== verification/Shm_Kv.thy ===== *)
theory Shm_Kv
  imports Wasmx_Prelude "HOL-Library.Multiset"
begin

text \<open>
  The shared-memory key/value store of src/src/common/shm/ngx_wa_shm_kv.c: nodes in a
  red-black tree indexed by the CRC32 of the key, compare-and-swap counters, and eviction of the
  least recently used entries (one LRU queue, or one queue per slab size class) when the
  slab allocator is out of memory.

  Nodes live in an explicit heap indexed by address, because the tree and the eviction
  queues share them: a node that was released while a local variable still points to it is
  an undefined outcome (\<open>None\<close>), not a value. The payload type \<open>'v\<close> of a node is a parameter: byte
  strings for the proxy-wasm shared data, metrics for the metrics store.
\<close>

section \<open>Structures of nginx the store is built on\<close>

text \<open>
  Tree nodes as \<open>ngx_wa_shm_rbtree_lookup\<close> walks them: the key of the node, the address of the
  \<open>ngx_wa_shm_kv_node_t\<close> that embeds it, and its subtrees.
\<close>

type_synonym addr = nat

datatype rbtree = Sentinel | RbNode rbtree u32 addr rbtree

fun rb_inorder :: "rbtree \<Rightarrow> (u32 \<times> addr) list" where
  "rb_inorder Sentinel = []"
| "rb_inorder (RbNode l k a r) = rb_inorder l @ (k, a) # rb_inorder r"

definition rb_bst :: "rbtree \<Rightarrow> bool" where
  "rb_bst t \<longleftrightarrow> sorted_wrt (<) (map fst (rb_inorder t))"

abbreviation rb_entries :: "rbtree \<Rightarrow> (u32 \<times> addr) set" where
  "rb_entries t \<equiv> set (rb_inorder t)"

text \<open>
  The functions of nginx that the store calls are not part of this repository: they are
  fields of an environment, and \<open>nginx_laws\<close> is what the store relies on. Insertion and
  deletion keep the search order and add or remove one node; the slab allocator hands out
  addresses that are not in use (\<open>live\<close>) and takes them back.
\<close>

record 'p nginx_env =
  rb_insert :: "rbtree \<Rightarrow> u32 \<Rightarrow> addr \<Rightarrow> rbtree"
  rb_delete :: "rbtree \<Rightarrow> addr \<Rightarrow> rbtree"
  slab_calloc :: "'p \<Rightarrow> nat \<Rightarrow> (addr \<times> 'p) option"
  slab_free :: "'p \<Rightarrow> addr \<Rightarrow> 'p"
  crc32 :: "bytes \<Rightarrow> u32"

definition nginx_laws :: "'p nginx_env \<Rightarrow> ('p \<Rightarrow> addr set) \<Rightarrow> bool" where
  "nginx_laws env live \<longleftrightarrow>
     (\<forall>t k a. rb_bst t \<and> k \<notin> fst ` rb_entries t \<longrightarrow>
        rb_bst (rb_insert env t k a) \<and> rb_entries (rb_insert env t k a) = insert (k, a) (rb_entries t)) \<and>
     (\<forall>t a. rb_bst t \<and> a \<in> snd ` rb_entries t \<longrightarrow>
        rb_bst (rb_delete env t a) \<and>
        rb_entries (rb_delete env t a) = {e \<in> rb_entries t. snd e \<noteq> a}) \<and>
     (\<forall>p n a p'. slab_calloc env p n = Some (a, p') \<longrightarrow> a \<notin> live p \<and> live p' = insert a (live p)) \<and>
     (\<forall>p a. live (slab_free env p a) = live p - {a})"

section \<open>State\<close>

datatype shm_eviction = EVICTION_LRU | EVICTION_SLRU | EVICTION_NONE

text \<open>
  One node: the key string, the length and contents of the value, and the CAS counter. The hash
  is the key of the tree node.
\<close>

record 'v kv_node =
  nd_key :: bytes
  nd_value_len :: nat
  nd_value :: 'v
  nd_cas :: u32

text \<open>
  The zone: the fixed parameters of the slab pool and of the compiled layout, and the store itself
  (\<open>ngx_wa_shm_t\<close> with the \<open>ngx_wa_shm_kv_t\<close> it points to). Queues list addresses, head first.
\<close>

record ('p, 'v) kv_shm =
  eviction :: shm_eviction
  ngx_pagesize_shift :: nat
  min_shift :: nat
  sizeof_kv_node :: nat
  shpool :: 'p
  kv_rbtree :: rbtree
  nelts :: u64
  lru_queue :: "addr list"
  slru_queues :: "addr list list"
  kv_heap :: "addr \<rightharpoonup> 'v kv_node"

definition evicting :: "('p, 'v) kv_shm \<Rightarrow> bool" where
  "evicting s \<longleftrightarrow> eviction s = EVICTION_LRU \<or> eviction s = EVICTION_SLRU"

definition NGX_WASM_SLAB_MAX_SIZE :: "('p, 'v) kv_shm \<Rightarrow> nat" where
  "NGX_WASM_SLAB_MAX_SIZE s = 2 ^ ngx_pagesize_shift s div 2"

definition NGX_WASM_SLRU_NQUEUES :: "('p, 'v) kv_shm \<Rightarrow> nat" where
  "NGX_WASM_SLRU_NQUEUES s = ngx_pagesize_shift s - min_shift s + 1"

section \<open>Operations\<close>

text \<open>
  \<open>ngx_wa_shm_kv_init\<close>: \<open>sizeof_kv\<close> and \<open>sizeof_queue\<close> are the sizes of \<open>ngx_wa_shm_kv_t\<close> and
  \<open>ngx_queue_t\<close>. The allocated structure becomes the (empty) store.
\<close>

definition ngx_wa_shm_kv_init ::
  "'p nginx_env \<Rightarrow> nat \<Rightarrow> nat \<Rightarrow> ('p, 'v) kv_shm \<Rightarrow> ngx_rc \<times> ('p, 'v) kv_shm" where
  "ngx_wa_shm_kv_init env sizeof_kv sizeof_queue s =
     (let n = (if eviction s = EVICTION_SLRU then NGX_WASM_SLRU_NQUEUES s else 0);
          sz = sizeof_kv + sizeof_queue * n in
      case slab_calloc env (shpool s) sz of
        None \<Rightarrow> (NGX_ERROR, s)
      | Some (a, p) \<Rightarrow>
          (NGX_OK, s\<lparr>shpool := p, kv_rbtree := Sentinel, nelts := 0,
                     lru_queue := [], slru_queues := replicate n [], kv_heap := Map.empty\<rparr>))"

text \<open>The loop of \<open>slru_index_for_size\<close>: \<open>for (s = size - 1; s >>= 1; shift++)\<close>.\<close>

fun slru_shift :: "nat \<Rightarrow> nat \<Rightarrow> nat" where
  "slru_shift n shift = (if n div 2 = 0 then shift else slru_shift (n div 2) (shift + 1))"

declare slru_shift.simps [simp del]

definition slru_index_for_size :: "('p, 'v) kv_shm \<Rightarrow> nat \<Rightarrow> nat" where
  "slru_index_for_size s sz =
     (if sz > NGX_WASM_SLAB_MAX_SIZE s then NGX_WASM_SLRU_NQUEUES s - 1
      else if sz > 2 ^ min_shift s then slru_shift (sz - 1) 1 - min_shift s
      else 0)"

text \<open>
  \<open>ngx_queue_remove\<close> unlinks the node from the queue it is in; \<open>queue_for_node\<close> followed by
  \<open>ngx_queue_insert_head\<close> links it at the head of its queue.
\<close>

definition queue_remove :: "('p, 'v) kv_shm \<Rightarrow> addr \<Rightarrow> ('p, 'v) kv_shm" where
  "queue_remove s a =
     s\<lparr>lru_queue := removeAll a (lru_queue s), slru_queues := map (removeAll a) (slru_queues s)\<rparr>"

definition queue_insert_for_node ::
  "('p, 'v) kv_shm \<Rightarrow> addr \<Rightarrow> 'v kv_node \<Rightarrow> ('p, 'v) kv_shm option" where
  "queue_insert_for_node s a n =
     (case eviction s of
        EVICTION_LRU \<Rightarrow> Some (s\<lparr>lru_queue := a # lru_queue s\<rparr>)
      | EVICTION_SLRU \<Rightarrow>
          (let i = slru_index_for_size s (sizeof_kv_node s + length (nd_key n) + nd_value_len n) in
           if i < length (slru_queues s)
           then Some (s\<lparr>slru_queues := (slru_queues s)[i := a # slru_queues s ! i]\<rparr>) else None)
      | EVICTION_NONE \<Rightarrow> None)"

fun ngx_wa_shm_rbtree_lookup :: "rbtree \<Rightarrow> u32 \<Rightarrow> addr option" where
  "ngx_wa_shm_rbtree_lookup Sentinel key_hash = None"
| "ngx_wa_shm_rbtree_lookup (RbNode l k a r) key_hash =
     (if key_hash \<noteq> k
      then ngx_wa_shm_rbtree_lookup (if key_hash < k then l else r) key_hash
      else Some a)"

text \<open>
  A tree hit as the callers use it: the node behind the pointer. The outer \<open>None\<close> is a
  dangling pointer.
\<close>

definition kv_deref :: "('p, 'v) kv_shm \<Rightarrow> addr option \<Rightarrow> (addr \<times> 'v kv_node) option option" where
  "kv_deref s p =
     (case p of
        None \<Rightarrow> Some None
      | Some a \<Rightarrow> (case kv_heap s a of None \<Rightarrow> None | Some n \<Rightarrow> Some (Some (a, n))))"

text \<open>
  \<open>ngx_wa_shm_kv_get_locked\<close>. The result carries the node that \<open>value_out\<close> and \<open>cas\<close> are read
  from, with its address, since callers keep the pointer.
\<close>

definition ngx_wa_shm_kv_get_locked ::
  "'p nginx_env \<Rightarrow> ('p, 'v) kv_shm \<Rightarrow> bytes \<Rightarrow> u32 option \<Rightarrow>
   (ngx_rc \<times> (addr \<times> 'v kv_node) option \<times> ('p, 'v) kv_shm) option" where
  "ngx_wa_shm_kv_get_locked env s key key_hash =
     (let h = (case key_hash of Some h \<Rightarrow> h | None \<Rightarrow> crc32 env key) in
      case kv_deref s (ngx_wa_shm_rbtree_lookup (kv_rbtree s) h) of
        None \<Rightarrow> None
      | Some None \<Rightarrow> Some (NGX_DECLINED, None, s)
      | Some (Some (a, n)) \<Rightarrow>
          if evicting s
          then (case queue_insert_for_node (queue_remove s a) a n of
                  None \<Rightarrow> None
                | Some s' \<Rightarrow> Some (NGX_OK, Some (a, n), s'))
          else Some (NGX_OK, Some (a, n), s))"

text \<open>Unlinking and releasing a node, as \<open>queue_expire\<close> and the delete branch do it.\<close>

definition queue_expire ::
  "'p nginx_env \<Rightarrow> ('p, 'v) kv_shm \<Rightarrow> addr \<Rightarrow> (ngx_rc \<times> ('p, 'v) kv_shm) option" where
  "queue_expire env s a =
     (if kv_heap s a = None then None
      else let s1 = queue_remove s a in
        Some (NGX_OK, s1\<lparr>kv_rbtree := rb_delete env (kv_rbtree s1) a,
                         shpool := slab_free env (shpool s1) a,
                         kv_heap := (kv_heap s1)(a := None),
                         nelts := nelts s1 - 1\<rparr>))"

text \<open>
  \<open>slru_expire\<close>: the queues are searched from the size class of the request upwards, then from
  the class below it downwards; the last entry of the first non-empty queue is expired. An
  index outside of the queue array is an undefined outcome.
\<close>

definition slru_expire ::
  "'p nginx_env \<Rightarrow> ('p, 'v) kv_shm \<Rightarrow> nat \<Rightarrow> (ngx_rc \<times> ('p, 'v) kv_shm) option" where
  "slru_expire env s sz =
     (let n = NGX_WASM_SLRU_NQUEUES s; start = slru_index_for_size s sz in
      if length (slru_queues s) < n \<or> length (slru_queues s) < start then None
      else case find (\<lambda>i. slru_queues s ! i \<noteq> []) ([start..<n] @ rev [0..<start]) of
        Some i \<Rightarrow> queue_expire env s (last (slru_queues s ! i))
      | None \<Rightarrow> Some (NGX_ABORT, s))"

definition lru_expire :: "'p nginx_env \<Rightarrow> ('p, 'v) kv_shm \<Rightarrow> (ngx_rc \<times> ('p, 'v) kv_shm) option" where
  "lru_expire env s =
     (if lru_queue s = [] then Some (NGX_ABORT, s) else queue_expire env s (last (lru_queue s)))"

definition node_queue_remove :: "('p, 'v) kv_shm \<Rightarrow> addr \<Rightarrow> ('p, 'v) kv_shm" where
  "node_queue_remove s a = (if evicting s then queue_remove s a else s)"

text \<open>One attempt to make room, by the eviction policy of the zone.\<close>

definition kv_expire_one ::
  "'p nginx_env \<Rightarrow> ('p, 'v) kv_shm \<Rightarrow> nat \<Rightarrow> (ngx_rc \<times> ('p, 'v) kv_shm) option" where
  "kv_expire_one env s sz =
     (case eviction s of
        EVICTION_LRU \<Rightarrow> lru_expire env s
      | EVICTION_SLRU \<Rightarrow> slru_expire env s sz
      | EVICTION_NONE \<Rightarrow> Some (NGX_ABORT, s))"

definition queued :: "('p, 'v) kv_shm \<Rightarrow> nat" where
  "queued s = length (lru_queue s) + length (concat (slru_queues s))"

lemma length_concat_removeAll_le: "length (concat (map (removeAll a) xss)) \<le> length (concat xss)"
  by (induction xss) (auto intro: add_mono)

lemma length_concat_removeAll:
  "a \<in> set (concat xss) \<Longrightarrow> length (concat (map (removeAll a) xss)) < length (concat xss)"
proof (induction xss)
  case (Cons xs xss)
  show ?case
  proof (cases "a \<in> set xs")
    case True
    with length_removeAll_less [OF True] length_concat_removeAll_le [of a xss] show ?thesis by simp
  next
    case False
    with Cons show ?thesis by simp
  qed
qed simp

lemma queue_expire_queued:
  assumes "queue_expire env s a = Some (rc, s')"
    and "a \<in> set (lru_queue s) \<or> a \<in> set (concat (slru_queues s))"
  shows "queued s' < queued s"
proof -
  have "queued s' = length (removeAll a (lru_queue s)) + length (concat (map (removeAll a) (slru_queues s)))"
    using assms(1)
    by (auto simp: queue_expire_def queue_remove_def queued_def Let_def simp del: length_concat
        split: if_splits)
  moreover note length_concat_removeAll_le [of a "slru_queues s"]
    length_removeAll_less_eq [of a "lru_queue s"]
  ultimately show ?thesis
    using assms(2) length_concat_removeAll [of a "slru_queues s"]
      length_removeAll_less [of a "lru_queue s"]
    unfolding queued_def by linarith
qed

lemma last_slru_in_concat:
  assumes "slru_queues s ! i \<noteq> []" and "i < length (slru_queues s)"
  shows "last (slru_queues s ! i) \<in> set (concat (slru_queues s))"
  using last_in_set [OF assms(1)] nth_mem [OF assms(2)] by auto

text \<open>Every step of the allocation loop that reports \<open>NGX_OK\<close> shortens the queues.\<close>

lemma lru_expire_queued: "lru_expire env s = Some (NGX_OK, s') \<Longrightarrow> queued s' < queued s"
  by (auto simp: lru_expire_def split: if_splits intro: queue_expire_queued)

lemma slru_expire_queued:
  assumes "slru_expire env s sz = Some (NGX_OK, s')"
  shows "queued s' < queued s"
proof -
  from assms obtain i where "queue_expire env s (last (slru_queues s ! i)) = Some (NGX_OK, s')"
    and "slru_queues s ! i \<noteq> []" and "i < length (slru_queues s)"
    by (auto simp: slru_expire_def Let_def split: if_splits option.splits dest!: find_SomeD)
  then show ?thesis by (blast intro: queue_expire_queued last_slru_in_concat)
qed

lemma kv_expire_one_queued: "kv_expire_one env s sz = Some (NGX_OK, s') \<Longrightarrow> queued s' < queued s"
  by (auto simp: kv_expire_one_def split: shm_eviction.splits
      intro: lru_expire_queued slru_expire_queued)

text \<open>
  The loop \<open>for ( ;; )\<close> of \<open>ngx_wa_shm_kv_set_locked\<close>: allocate, else expire one entry and try
  again. It ends because every expired entry leaves the queues. The inner \<open>None\<close> is the
  \<open>no memory\<close> exit.
\<close>

function kv_alloc_loop ::
  "'p nginx_env \<Rightarrow> ('p, 'v) kv_shm \<Rightarrow> nat \<Rightarrow> (addr option \<times> ('p, 'v) kv_shm) option" where
  "kv_alloc_loop env s sz =
     (case slab_calloc env (shpool s) sz of
        Some (a, p) \<Rightarrow> Some (Some a, s\<lparr>shpool := p\<rparr>)
      | None \<Rightarrow>
          (case kv_expire_one env s sz of
             None \<Rightarrow> None
           | Some (rc, s') \<Rightarrow>
               if rc = NGX_OK then kv_alloc_loop env s' sz else Some (None, s')))"
  by pat_completeness auto
termination
  by (relation "measure (\<lambda>(env, s, sz). queued s)") (auto intro: kv_expire_one_queued)

declare kv_alloc_loop.simps [simp del]

text \<open>Unlinking a node from its queue and from the tree and releasing it.\<close>

definition kv_unlink :: "'p nginx_env \<Rightarrow> ('p, 'v) kv_shm \<Rightarrow> addr \<Rightarrow> ('p, 'v) kv_shm" where
  "kv_unlink env s a =
     (let s1 = node_queue_remove s a in
      s1\<lparr>kv_rbtree := rb_delete env (kv_rbtree s1) a, shpool := slab_free env (shpool s1) a,
         kv_heap := (kv_heap s1)(a := None)\<rparr>)"

text \<open>Linking a node into the tree and into its queue, and reporting it as written.\<close>

definition kv_link ::
  "'p nginx_env \<Rightarrow> ('p, 'v) kv_shm \<Rightarrow> u32 \<Rightarrow> addr \<Rightarrow> 'v kv_node \<Rightarrow>
   (ngx_rc \<times> bool option \<times> ('p, 'v) kv_shm) option" where
  "kv_link env s h a n =
     (let s1 = s\<lparr>kv_rbtree := rb_insert env (kv_rbtree s) h a, kv_heap := (kv_heap s)(a \<mapsto> n)\<rparr> in
      if evicting s1
      then (case queue_insert_for_node s1 a n of
              None \<Rightarrow> None
            | Some s2 \<Rightarrow> Some (NGX_OK, Some True, s2))
      else Some (NGX_OK, Some True, s1))"

text \<open>
  The branch that allocates a node (no entry yet, or the new value is longer than the \<open>old\<close>
  one). \<open>old\<close> was looked up before the allocation loop; when the loop has expired it, the
  accesses to it afterwards touch released memory and the outcome is undefined.
\<close>

definition kv_set_new ::
  "'p nginx_env \<Rightarrow> ('p, 'v) kv_shm \<Rightarrow> bytes \<Rightarrow> nat \<Rightarrow> 'v \<Rightarrow> addr option \<Rightarrow>
   (ngx_rc \<times> bool option \<times> ('p, 'v) kv_shm) option" where
  "kv_set_new env s key vlen v old =
     (case kv_alloc_loop env s (sizeof_kv_node s + length key + vlen) of
        None \<Rightarrow> None
      | Some (None, s1) \<Rightarrow> Some (NGX_ERROR, None, s1)
      | Some (Some a, s1) \<Rightarrow>
          (case kv_deref s1 old of
             None \<Rightarrow> None
           | Some found \<Rightarrow>
               let (cas, s2) = (case found of
                                  Some (oa, on) \<Rightarrow> (nd_cas on, kv_unlink env s1 oa)
                                | None \<Rightarrow> (0, s1\<lparr>nelts := nelts s1 + 1\<rparr>)) in
               kv_link env s2 (crc32 env key) a
                 \<lparr>nd_key = key, nd_value_len = vlen, nd_value = v, nd_cas = cas + 1\<rparr>))"

text \<open>The branch that writes a value into the existing node.\<close>

definition kv_set_existing ::
  "('p, 'v) kv_shm \<Rightarrow> nat \<Rightarrow> 'v \<Rightarrow> addr \<Rightarrow> 'v kv_node \<Rightarrow>
   (ngx_rc \<times> bool option \<times> ('p, 'v) kv_shm) option" where
  "kv_set_existing s vlen v a n =
     (let n' = n\<lparr>nd_value_len := vlen, nd_value := v, nd_cas := nd_cas n + 1\<rparr>;
          s1 = s\<lparr>kv_heap := (kv_heap s)(a \<mapsto> n')\<rparr> in
      if evicting s1
      then (case queue_insert_for_node (queue_remove s1 a) a n' of
              None \<Rightarrow> None
            | Some s2 \<Rightarrow> Some (NGX_OK, Some True, s2))
      else Some (NGX_OK, Some True, s1))"

text \<open>
  \<open>ngx_wa_shm_kv_set_locked\<close>. \<open>value\<close> is \<open>None\<close> for a delete. The second component of the result is
  \<open>*written\<close>, which the \<open>no memory\<close> exit does not set.
\<close>

definition ngx_wa_shm_kv_set_locked ::
  "'p nginx_env \<Rightarrow> ('p, 'v) kv_shm \<Rightarrow> bytes \<Rightarrow> (nat \<times> 'v) option \<Rightarrow> u32 \<Rightarrow>
   (ngx_rc \<times> bool option \<times> ('p, 'v) kv_shm) option" where
  "ngx_wa_shm_kv_set_locked env s key value cas =
     (case kv_deref s (ngx_wa_shm_rbtree_lookup (kv_rbtree s) (crc32 env key)) of
        None \<Rightarrow> None
      | Some found \<Rightarrow>
          if cas \<noteq> (case found of None \<Rightarrow> 0 | Some (a, n) \<Rightarrow> nd_cas n)
          then Some (NGX_OK, Some False, s)
          else (case value of
            None \<Rightarrow>
              (case found of
                 Some (a, n) \<Rightarrow>
                   let s1 = kv_unlink env s a in
                   Some (NGX_OK, Some True, s1\<lparr>nelts := nelts s1 - 1\<rparr>)
               | None \<Rightarrow> Some (NGX_OK, Some False, s))
          | Some (vlen, v) \<Rightarrow>
              (case found of
                 None \<Rightarrow> kv_set_new env s key vlen v None
               | Some (a, n) \<Rightarrow>
                   if vlen > nd_value_len n then kv_set_new env s key vlen v (Some a)
                   else kv_set_existing s vlen v a n)))"

section \<open>Search and size classes\<close>

lemma rb_bst_node:
  "rb_bst (RbNode l k a r) \<longleftrightarrow> rb_bst l \<and> rb_bst r \<and>
     (\<forall>e \<in> rb_entries l. fst e < k) \<and> (\<forall>e \<in> rb_entries r. k < fst e)"
  by (auto simp: rb_bst_def sorted_wrt_append)
    (metis fst_conv image_eqI list.set_map order_less_trans)+

lemma rbtree_lookup_iff:
  "rb_bst t \<Longrightarrow> ngx_wa_shm_rbtree_lookup t h = Some a \<longleftrightarrow> (h, a) \<in> rb_entries t"
proof (induction t)
  case (RbNode l k b r)
  then have "rb_bst l" "rb_bst r" "\<forall>e \<in> rb_entries l. fst e < k" "\<forall>e \<in> rb_entries r. k < fst e"
    by (simp_all add: rb_bst_node)
  with RbNode.IH show ?case by (auto dest: bspec)
qed simp

lemma rbtree_lookup_None_iff:
  "rb_bst t \<Longrightarrow> ngx_wa_shm_rbtree_lookup t h = None \<longleftrightarrow> h \<notin> fst ` rb_entries t"
  using rbtree_lookup_iff [of t h] by (cases "ngx_wa_shm_rbtree_lookup t h") force+

lemma rb_entries_fun: "rb_bst t \<Longrightarrow> (h, a) \<in> rb_entries t \<Longrightarrow> (h, b) \<in> rb_entries t \<Longrightarrow> a = b"
  by (metis option.inject rbtree_lookup_iff)

text \<open>The shift loop computes the position of the highest bit.\<close>

lemma slru_shift_bounds:
  "0 < n \<Longrightarrow> \<exists>d. slru_shift n k = k + d \<and> 2 ^ d \<le> n \<and> n < 2 ^ Suc d"
proof (induction n k rule: slru_shift.induct)
  case (1 n k)
  show ?case
  proof (cases "n div 2 = 0")
    case True
    then show ?thesis using 1 by (intro exI [of _ 0]) (auto simp: slru_shift.simps [of n k])
  next
    case False
    with 1 obtain d where "slru_shift (n div 2) (k + 1) = k + 1 + d" "2 ^ d \<le> n div 2"
      "n div 2 < 2 ^ Suc d" by auto
    with False show ?thesis
      by (intro exI [of _ "Suc d"]) (auto simp: slru_shift.simps [of n k])
  qed
qed

lemma slru_shift_class:
  assumes "1 < sz"
  shows "\<exists>d. slru_shift (sz - 1) 1 = Suc d \<and> 2 ^ d < sz \<and> sz \<le> 2 ^ Suc d"
  using slru_shift_bounds [of "sz - 1" 1] assms by force

lemma slru_index_bound:
  assumes "min_shift s \<le> ngx_pagesize_shift s"
  shows "slru_index_for_size s sz < NGX_WASM_SLRU_NQUEUES s"
proof (cases "sz > NGX_WASM_SLAB_MAX_SIZE s \<or> sz \<le> 2 ^ min_shift s")
  case True
  then show ?thesis by (auto simp: slru_index_for_size_def NGX_WASM_SLRU_NQUEUES_def)
next
  case False
  then have sz: "1 < sz" "sz \<le> 2 ^ ngx_pagesize_shift s div 2"
    by (auto simp: NGX_WASM_SLAB_MAX_SIZE_def intro: order_le_less_trans [of _ "2 ^ min_shift s"])
  then obtain d where d: "slru_shift (sz - 1) 1 = Suc d" "2 ^ d < sz"
    using slru_shift_class by blast
  with sz have "(2::nat) ^ d < 2 ^ ngx_pagesize_shift s" by linarith
  then have "d < ngx_pagesize_shift s" by (simp add: power_less_imp_less_exp)
  with False d(1) show ?thesis
    by (simp add: slru_index_for_size_def NGX_WASM_SLRU_NQUEUES_def)
qed

section \<open>The queues of a store\<close>

definition kv_queue :: "('p, 'v) kv_shm \<Rightarrow> addr list" where
  "kv_queue s = lru_queue s @ concat (slru_queues s)"

definition kv_queues_ok :: "('p, 'v) kv_shm \<Rightarrow> addr set \<Rightarrow> bool" where
  "kv_queues_ok s A \<longleftrightarrow>
     (if evicting s then distinct (kv_queue s) \<and> set (kv_queue s) = A
      else lru_queue s = [] \<and> slru_queues s = []) \<and>
     (eviction s = EVICTION_LRU \<longrightarrow> slru_queues s = []) \<and>
     (eviction s = EVICTION_SLRU \<longrightarrow> lru_queue s = [] \<and> min_shift s \<le> ngx_pagesize_shift s \<and>
        length (slru_queues s) = NGX_WASM_SLRU_NQUEUES s)"

lemma queues_ok_cong:
  "eviction s' = eviction s \<Longrightarrow> lru_queue s' = lru_queue s \<Longrightarrow> slru_queues s' = slru_queues s \<Longrightarrow>
   min_shift s' = min_shift s \<Longrightarrow> ngx_pagesize_shift s' = ngx_pagesize_shift s \<Longrightarrow>
   kv_queues_ok s' A = kv_queues_ok s A"
  by (simp add: kv_queues_ok_def kv_queue_def evicting_def NGX_WASM_SLRU_NQUEUES_def)

text \<open>A change of the queues only.\<close>

definition same_but_queues :: "('p, 'v) kv_shm \<Rightarrow> ('p, 'v) kv_shm \<Rightarrow> bool" where
  "same_but_queues s s' \<longleftrightarrow> (\<exists>l qs. s' = s\<lparr>lru_queue := l, slru_queues := qs\<rparr>)"

lemma same_but_queuesD:
  assumes "same_but_queues s s'"
  shows "kv_rbtree s' = kv_rbtree s" "kv_heap s' = kv_heap s" "shpool s' = shpool s" "nelts s' = nelts s"
    "eviction s' = eviction s" "sizeof_kv_node s' = sizeof_kv_node s"
  using assms by (auto simp: same_but_queues_def)

lemma same_but_queues_lru: "same_but_queues s (s\<lparr>lru_queue := l\<rparr>)"
  unfolding same_but_queues_def by (intro exI [of _ l] exI [of _ "slru_queues s"]) simp

lemma same_but_queues_slru: "same_but_queues s (s\<lparr>slru_queues := qs\<rparr>)"
  unfolding same_but_queues_def by (intro exI [of _ "lru_queue s"] exI [of _ qs]) simp

lemma same_but_queues_refl [simp]: "same_but_queues s s"
  using same_but_queues_lru [of s "lru_queue s"] by simp

lemma mset_concat_update:
  "i < length xss \<Longrightarrow> mset (concat (xss[i := a # xss ! i])) = add_mset a (mset (concat xss))"
proof (induction xss arbitrary: i)
  case (Cons xs xss)
  then show ?case by (cases i) auto
qed simp

lemma concat_map_removeAll: "concat (map (removeAll a) xss) = removeAll a (concat xss)"
  by (induction xss) auto

lemma kv_queue_remove [simp]: "kv_queue (queue_remove s a) = removeAll a (kv_queue s)"
  by (simp add: kv_queue_def queue_remove_def concat_map_removeAll)

lemma queues_ok_remove: "kv_queues_ok s A \<Longrightarrow> kv_queues_ok (queue_remove s a) (A - {a})"
  unfolding kv_queues_ok_def kv_queue_remove
  by (auto simp: queue_remove_def evicting_def NGX_WASM_SLRU_NQUEUES_def intro: distinct_removeAll)

lemma queues_ok_insert:
  assumes "kv_queues_ok s A" and "evicting s" and "a \<notin> A"
  shows "\<exists>s'. queue_insert_for_node s a n = Some s' \<and> same_but_queues s s' \<and>
     kv_queues_ok s' (insert a A) \<and> mset (kv_queue s') = add_mset a (mset (kv_queue s))"
proof (cases "eviction s")
  case EVICTION_LRU
  with assms show ?thesis
    by (auto simp: queue_insert_for_node_def same_but_queues_lru kv_queues_ok_def kv_queue_def evicting_def)
next
  case EVICTION_SLRU
  define i where "i = slru_index_for_size s (sizeof_kv_node s + length (nd_key n) + nd_value_len n)"
  let ?s = "s\<lparr>slru_queues := (slru_queues s)[i := a # slru_queues s ! i]\<rparr>"
  from assms(1) EVICTION_SLRU have len: "length (slru_queues s) = NGX_WASM_SLRU_NQUEUES s"
    and lru: "lru_queue s = []" and sh: "min_shift s \<le> ngx_pagesize_shift s"
    by (simp_all add: kv_queues_ok_def)
  have i: "i < length (slru_queues s)" unfolding len i_def by (rule slru_index_bound [OF sh])
  from mset_concat_update [OF i, of a] have m: "mset (kv_queue ?s) = add_mset a (mset (kv_queue s))"
    by (simp add: kv_queue_def lru)
  then have m': "mset (kv_queue ?s) = mset (a # kv_queue s)" by simp
  have "distinct (kv_queue ?s) = distinct (a # kv_queue s)" "set (kv_queue ?s) = insert a (set (kv_queue s))"
    using mset_eq_imp_distinct_iff [OF m'] mset_eq_setD [OF m'] by simp_all
  with assms EVICTION_SLRU len lru sh have "kv_queues_ok ?s (insert a A)"
    by (auto simp: kv_queues_ok_def evicting_def NGX_WASM_SLRU_NQUEUES_def)
  with EVICTION_SLRU i m show ?thesis
    by (auto simp: queue_insert_for_node_def same_but_queues_slru i_def [symmetric])
next
  case EVICTION_NONE
  with assms show ?thesis by (simp add: evicting_def)
qed

section \<open>The invariant of the store\<close>

text \<open>
  \<open>kv_core\<close>: the tree is a search tree whose nodes are exactly the nodes of the heap, each under
  the hash of its key; an evicting store has each node in its queues exactly once; the
  nodes are memory the allocator has handed out. \<open>kv_inv\<close> adds the element count.
\<close>

definition kv_core :: "'p nginx_env \<Rightarrow> ('p \<Rightarrow> addr set) \<Rightarrow> ('p, 'v) kv_shm \<Rightarrow> bool" where
  "kv_core env live s \<longleftrightarrow>
     rb_bst (kv_rbtree s) \<and> inj_on snd (rb_entries (kv_rbtree s)) \<and>
     snd ` rb_entries (kv_rbtree s) = dom (kv_heap s) \<and>
     (\<forall>h a n. (h, a) \<in> rb_entries (kv_rbtree s) \<and> kv_heap s a = Some n \<longrightarrow> crc32 env (nd_key n) = h) \<and>
     kv_queues_ok s (dom (kv_heap s)) \<and> dom (kv_heap s) \<subseteq> live (shpool s)"

definition kv_inv :: "'p nginx_env \<Rightarrow> ('p \<Rightarrow> addr set) \<Rightarrow> ('p, 'v) kv_shm \<Rightarrow> bool" where
  "kv_inv env live s \<longleftrightarrow> kv_core env live s \<and> nelts s = of_nat (card (dom (kv_heap s)))"

text \<open>What the store holds: the node under a hash.\<close>

definition kv_map :: "('p, 'v) kv_shm \<Rightarrow> u32 \<Rightarrow> 'v kv_node option" where
  "kv_map s h = (case ngx_wa_shm_rbtree_lookup (kv_rbtree s) h of None \<Rightarrow> None | Some a \<Rightarrow> kv_heap s a)"

lemma kv_map_cong: "kv_rbtree s' = kv_rbtree s \<Longrightarrow> kv_heap s' = kv_heap s \<Longrightarrow> kv_map s' = kv_map s"
  by (auto simp: kv_map_def fun_eq_iff split: option.splits)

lemma kv_coreD:
  assumes "kv_core env live s"
  shows "rb_bst (kv_rbtree s)" and "inj_on snd (rb_entries (kv_rbtree s))"
    and "snd ` rb_entries (kv_rbtree s) = dom (kv_heap s)"
    and "(h, a) \<in> rb_entries (kv_rbtree s) \<Longrightarrow> kv_heap s a = Some n \<Longrightarrow> crc32 env (nd_key n) = h"
    and "kv_queues_ok s (dom (kv_heap s))" and "dom (kv_heap s) \<subseteq> live (shpool s)"
  using assms unfolding kv_core_def by blast+

lemma kv_core_entry_dom:
  assumes "kv_core env live s" and "(h, a) \<in> rb_entries (kv_rbtree s)"
  shows "a \<in> dom (kv_heap s)"
  unfolding kv_coreD(3) [OF assms(1), symmetric] using assms(2) by (metis image_eqI snd_conv)

lemma kv_core_inj:
  assumes "kv_core env live s" and "(h, a) \<in> rb_entries (kv_rbtree s)"
    and "(g, a) \<in> rb_entries (kv_rbtree s)"
  shows "g = h"
  using inj_onD [OF kv_coreD(2) [OF assms(1)] _ assms(3,2)] by simp

lemma kv_map_Some_iff:
  assumes "kv_core env live s"
  shows "kv_map s h = Some n \<longleftrightarrow> (\<exists>a. (h, a) \<in> rb_entries (kv_rbtree s) \<and> kv_heap s a = Some n)"
  unfolding kv_map_def rbtree_lookup_iff [OF kv_coreD(1) [OF assms], symmetric]
  by (cases "ngx_wa_shm_rbtree_lookup (kv_rbtree s) h") simp_all

lemma kv_core_entry:
  assumes "kv_core env live s" and "(h, a) \<in> rb_entries (kv_rbtree s)"
  obtains n where "kv_heap s a = Some n" "kv_map s h = Some n" "crc32 env (nd_key n) = h"
proof -
  from kv_core_entry_dom [OF assms] obtain n where "kv_heap s a = Some n" by blast
  with assms that kv_coreD(4) [OF assms] show thesis
    unfolding kv_map_Some_iff [OF assms(1)] by blast
qed

lemma kv_map_None_iff:
  assumes "kv_core env live s"
  shows "kv_map s h = None \<longleftrightarrow> h \<notin> fst ` rb_entries (kv_rbtree s)"
proof -
  have "kv_map s h \<noteq> None \<longleftrightarrow> (\<exists>a. (h, a) \<in> rb_entries (kv_rbtree s))"
    using kv_map_Some_iff [OF assms] kv_core_entry [OF assms] by (metis option.discI not_None_eq)
  then show ?thesis by (auto simp: image_iff)
qed

text \<open>The lookups of the operations, in terms of \<open>kv_map\<close>.\<close>

lemma kv_deref_lookup:
  assumes "kv_core env live s"
  shows "(kv_map s h = None \<and> ngx_wa_shm_rbtree_lookup (kv_rbtree s) h = None) \<or>
     (\<exists>a n. kv_map s h = Some n \<and> ngx_wa_shm_rbtree_lookup (kv_rbtree s) h = Some a \<and>
       (h, a) \<in> rb_entries (kv_rbtree s) \<and> kv_heap s a = Some n \<and> crc32 env (nd_key n) = h)"
proof (cases "ngx_wa_shm_rbtree_lookup (kv_rbtree s) h")
  case None
  then show ?thesis by (simp add: kv_map_def)
next
  case (Some a)
  then have e: "(h, a) \<in> rb_entries (kv_rbtree s)"
    by (simp add: rbtree_lookup_iff [OF kv_coreD(1) [OF assms]])
  with Some show ?thesis by (metis kv_core_entry [OF assms e])
qed

text \<open>Removing one node from the tree, the heap and the queues.\<close>

lemma kv_core_remove:
  assumes laws: "nginx_laws env live" and core: "kv_core env live s"
    and e: "(h, a) \<in> rb_entries (kv_rbtree s)"
    and s': "s' = q\<lparr>kv_rbtree := rb_delete env (kv_rbtree s) a, shpool := slab_free env (shpool s) a,
         kv_heap := (kv_heap s)(a := None), nelts := m\<rparr>"
    and q: "q = queue_remove s a \<or> \<not> evicting s \<and> q = s"
  shows "kv_core env live s' \<and> kv_map s' = (kv_map s)(h := None) \<and> dom (kv_heap s') = dom (kv_heap s) - {a}"
proof -
  let ?t = "rb_delete env (kv_rbtree s) a"
  note bst = kv_coreD(1) [OF core] and inj = kv_coreD(2) [OF core] and dom = kv_coreD(3) [OF core]
  have a: "a \<in> snd ` rb_entries (kv_rbtree s)" using e by (metis image_eqI snd_conv)
  from laws bst a have bst': "rb_bst ?t" and ent: "rb_entries ?t = {e \<in> rb_entries (kv_rbtree s). snd e \<noteq> a}"
    by (simp_all add: nginx_laws_def)
  have "kv_queues_ok q (dom (kv_heap s) - {a})"
    using q queues_ok_remove [OF kv_coreD(5) [OF core], of a] kv_coreD(5) [OF core]
    by (auto simp: kv_queues_ok_def)
  then have qok: "kv_queues_ok s' (dom (kv_heap s) - {a})"
    by (subst queues_ok_cong [of _ q]) (simp_all add: s')
  have core': "kv_core env live s'"
    unfolding kv_core_def
  proof (intro conjI)
    show "rb_bst (kv_rbtree s')" using bst' by (simp add: s')
    show "inj_on snd (rb_entries (kv_rbtree s'))"
      using inj by (auto simp: s' ent intro: inj_on_subset)
    show "snd ` rb_entries (kv_rbtree s') = dom (kv_heap s')"
      using dom by (simp add: s' ent) blast
    show "\<forall>h a n. (h, a) \<in> rb_entries (kv_rbtree s') \<and> kv_heap s' a = Some n \<longrightarrow> crc32 env (nd_key n) = h"
      using kv_coreD(4) [OF core] by (simp add: s' ent) blast
    show "kv_queues_ok s' (dom (kv_heap s'))" using qok by (simp add: s')
    show "dom (kv_heap s') \<subseteq> live (shpool s')"
      using kv_coreD(6) [OF core] laws by (auto simp: s' nginx_laws_def)
  qed
  have "kv_map s' g = ((kv_map s)(h := None)) g" for g
  proof (cases "g = h")
    case True
    have "h \<notin> fst ` rb_entries ?t" using e bst by (auto simp: ent dest: rb_entries_fun)
    with True core' show ?thesis by (simp add: kv_map_None_iff s')
  next
    case False
    have "(g, b) \<in> rb_entries ?t \<longleftrightarrow> (g, b) \<in> rb_entries (kv_rbtree s)" for b
      using False kv_core_inj [OF core e, of g] by (auto simp: ent)
    moreover have "(g, b) \<in> rb_entries (kv_rbtree s) \<Longrightarrow> kv_heap s' b = kv_heap s b" for b
      using False kv_core_inj [OF core e, of g] by (auto simp: s')
    moreover have "kv_rbtree s' = ?t" by (simp add: s')
    ultimately have "kv_map s' g = Some n \<longleftrightarrow> kv_map s g = Some n" for n
      unfolding kv_map_Some_iff [OF core] kv_map_Some_iff [OF core'] by metis
    with False show ?thesis by (metis fun_upd_other not_Some_eq)
  qed
  with core' show ?thesis by (auto simp: s')
qed

text \<open>Adding one node to the tree, the heap and the queues.\<close>

lemma kv_core_insert:
  assumes laws: "nginx_laws env live" and core: "kv_core env live s"
    and h: "h \<notin> fst ` rb_entries (kv_rbtree s)" "crc32 env (nd_key n) = h"
    and a: "a \<notin> dom (kv_heap s)" "a \<in> live (shpool s)"
    and s3: "s3 = s\<lparr>kv_rbtree := rb_insert env (kv_rbtree s) h a, kv_heap := (kv_heap s)(a \<mapsto> n)\<rparr>"
    and s': "if evicting s then queue_insert_for_node s3 a n = Some s' else s' = s3"
  shows "kv_core env live s' \<and> kv_map s' = (kv_map s)(h \<mapsto> n)"
proof -
  let ?t = "rb_insert env (kv_rbtree s) h a"
  note bst = kv_coreD(1) [OF core] and inj = kv_coreD(2) [OF core] and dom = kv_coreD(3) [OF core]
  from laws bst h(1) have bst': "rb_bst ?t" and ent: "rb_entries ?t = insert (h, a) (rb_entries (kv_rbtree s))"
    by (simp_all add: nginx_laws_def)
  have ev: "evicting s3 = evicting s" by (simp add: s3 evicting_def)
  have "kv_queues_ok s3 (dom (kv_heap s))"
    using kv_coreD(5) [OF core] by (subst queues_ok_cong [of _ s]) (simp_all add: s3)
  then have "same_but_queues s3 s' \<and> kv_queues_ok s' (insert a (dom (kv_heap s)))"
    using s' queues_ok_insert [of s3 "dom (kv_heap s)" a n] a ev
    by (cases "evicting s") (auto simp: kv_queues_ok_def)
  then have f: "kv_rbtree s' = ?t" "kv_heap s' = (kv_heap s)(a \<mapsto> n)" "shpool s' = shpool s"
    and q: "kv_queues_ok s' (insert a (dom (kv_heap s)))"
    using same_but_queuesD [of s3 s'] by (simp_all add: s3)
  have fresh: "(g, a) \<notin> rb_entries (kv_rbtree s)" for g
    using kv_core_entry_dom [OF core] a(1) by blast
  have core': "kv_core env live s'"
    unfolding kv_core_def f
  proof (intro conjI)
    show "inj_on snd (rb_entries ?t)"
      using inj a(1) dom unfolding ent inj_on_insert by auto
    show "snd ` rb_entries ?t = dom ((kv_heap s)(a \<mapsto> n))"
      using dom by (simp add: ent)
    show "\<forall>g b m. (g, b) \<in> rb_entries ?t \<and> ((kv_heap s)(a \<mapsto> n)) b = Some m \<longrightarrow> crc32 env (nd_key m) = g"
      using kv_coreD(4) [OF core] fresh h(2) by (auto simp: ent split: if_splits)
    show "kv_queues_ok s' (dom ((kv_heap s)(a \<mapsto> n)))" using q by simp
    show "dom ((kv_heap s)(a \<mapsto> n)) \<subseteq> live (shpool s)" using kv_coreD(6) [OF core] a(2) by auto
  qed (fact bst')
  have "kv_map s' g = ((kv_map s)(h \<mapsto> n)) g" for g
  proof (cases "g = h")
    case True
    then show ?thesis unfolding fun_upd_same kv_map_Some_iff [OF core'] True
      by (simp add: kv_map_Some_iff [OF core'] f ent exI [of _ a])
  next
    case False
    have "(g, b) \<in> rb_entries (kv_rbtree s') \<longleftrightarrow> (g, b) \<in> rb_entries (kv_rbtree s)" for b
      using False by (simp add: f ent)
    moreover have "(g, b) \<in> rb_entries (kv_rbtree s) \<Longrightarrow> kv_heap s' b = kv_heap s b" for b
      using fresh by (auto simp: f)
    ultimately have "kv_map s' g = Some m \<longleftrightarrow> kv_map s g = Some m" for m
      unfolding kv_map_Some_iff [OF core] kv_map_Some_iff [OF core'] by metis
    with False show ?thesis by (metis fun_upd_other not_Some_eq)
  qed
  with core' show ?thesis by blast
qed

text \<open>Reordering the queues keeps the invariant and the contents.\<close>

lemma kv_core_queues:
  assumes "kv_core env live s" and "same_but_queues s s'" and "kv_queues_ok s' (dom (kv_heap s))"
  shows "kv_core env live s' \<and> kv_map s' = kv_map s"
  using assms(1,3) unfolding kv_core_def kv_map_def [abs_def] same_but_queuesD(1-3) [OF assms(2)] by simp

text \<open>A node that is read or written moves to the head of its queue.\<close>

lemma kv_touch:
  assumes core: "kv_core env live s" and ev: "evicting s" and a: "a \<in> dom (kv_heap s)"
  shows "\<exists>s'. queue_insert_for_node (queue_remove s a) a n = Some s' \<and> same_but_queues s s' \<and>
     kv_queues_ok s' (dom (kv_heap s)) \<and> mset (kv_queue s') = mset (kv_queue s)"
proof -
  note q = kv_coreD(5) [OF core]
  have "kv_queues_ok (queue_remove s a) (dom (kv_heap s) - {a})" by (rule queues_ok_remove [OF q])
  moreover have "evicting (queue_remove s a)" using ev by (simp add: evicting_def queue_remove_def)
  ultimately obtain s' where s': "queue_insert_for_node (queue_remove s a) a n = Some s'"
      "same_but_queues (queue_remove s a) s'" "kv_queues_ok s' (insert a (dom (kv_heap s) - {a}))"
      "mset (kv_queue s') = add_mset a (mset (kv_queue (queue_remove s a)))"
    using queues_ok_insert by blast
  have "same_but_queues s s'"
    using s'(2) by (auto simp: same_but_queues_def queue_remove_def)
  moreover have "insert a (dom (kv_heap s) - {a}) = dom (kv_heap s)" using a by blast
  moreover have "mset (kv_queue s') = mset (kv_queue s)"
  proof -
    have "a \<in> set (kv_queue s)" "distinct (kv_queue s)" using q ev a by (auto simp: kv_queues_ok_def)
    then show ?thesis using s'(4) by (simp add: distinct_remove1_removeAll [symmetric] insert_DiffM)
  qed
  ultimately show ?thesis using s' by auto
qed

end
