(* ===== verification/Shm_Kv_Ops.thy ===== *)
theory Shm_Kv_Ops
  imports Shm_Kv
begin

text \<open>
  The operations of the key/value store (definitions in Shm_Kv) keep its invariant and act
  on its contents as a map from hashes to nodes: what a get returns, what a set or a delete
  changes, which entries the allocation loop may evict, and when the outcome is undefined.
\<close>

section \<open>The operations keep the invariant\<close>

lemma finite_heap:
  assumes "kv_core env live s"
  shows "finite (dom (kv_heap s))"
  unfolding kv_coreD(3) [OF assms, symmetric] by simp

lemma queue_expire_core:
  assumes laws: "nginx_laws env live" and inv: "kv_inv env live s" and a: "a \<in> dom (kv_heap s)"
    and ex: "queue_expire env s a = Some (rc, s')"
  shows "kv_inv env live s' \<and> rc = NGX_OK \<and> eviction s' = eviction s
     \<and> sizeof_kv_node s' = sizeof_kv_node s \<and> kv_queue s' = removeAll a (kv_queue s)
     \<and> kv_heap s' = (kv_heap s)(a := None)
     \<and> (\<exists>h. kv_map s h \<noteq> None \<and> kv_map s' = (kv_map s)(h := None))"
proof -
  from inv have core: "kv_core env live s" and nel: "nelts s = of_nat (card (dom (kv_heap s)))"
    by (simp_all add: kv_inv_def)
  from a kv_coreD(3) [OF core] obtain h where e: "(h, a) \<in> rb_entries (kv_rbtree s)"
    by (metis imageE prod.collapse)
  have rc: "rc = NGX_OK" and s': "s' = (queue_remove s a)\<lparr>kv_rbtree := rb_delete env (kv_rbtree s) a,
      shpool := slab_free env (shpool s) a, kv_heap := (kv_heap s)(a := None), nelts := nelts s - 1\<rparr>"
    using ex by (auto simp: queue_expire_def Let_def queue_remove_def split: if_splits)
  note rm = kv_core_remove [OF laws core e s']
  have "dom (kv_heap s) - {a} = dom (kv_heap s')" by (auto simp: s')
  with card.remove [OF finite_heap [OF core] a] have "card (dom (kv_heap s)) = Suc (card (dom (kv_heap s')))"
    by metis
  moreover have "nelts s' = nelts s - 1" by (simp add: s')
  ultimately have "nelts s' = of_nat (card (dom (kv_heap s')))" using nel by simp
  moreover have "kv_queue s' = kv_queue (queue_remove s a)" by (simp add: s' kv_queue_def)
  then have "kv_queue s' = removeAll a (kv_queue s)" by simp
  moreover have "eviction s' = eviction s" "sizeof_kv_node s' = sizeof_kv_node s"
    "kv_heap s' = (kv_heap s)(a := None)" by (simp_all add: s' queue_remove_def)
  moreover have "kv_map s h \<noteq> None" by (rule kv_core_entry [OF core e]) simp
  ultimately show ?thesis using rm [OF disjI1 [OF refl]] rc unfolding kv_inv_def by blast
qed

text \<open>One round of the allocation loop expires one stored entry, or finds nothing to expire.\<close>

lemma kv_expire_one_cases:
  assumes laws: "nginx_laws env live" and inv: "kv_inv env live s"
  obtains (stuck) "kv_expire_one env s sz = Some (NGX_ABORT, s)" "evicting s \<Longrightarrow> dom (kv_heap s) = {}"
  | (expired) a s' where "kv_expire_one env s sz = Some (NGX_OK, s')" "evicting s"
      "a \<in> dom (kv_heap s)" "queue_expire env s a = Some (NGX_OK, s')"
      "eviction s = EVICTION_LRU \<Longrightarrow> a = last (lru_queue s)"
proof -
  from inv have core: "kv_core env live s" by (simp add: kv_inv_def)
  note q = kv_coreD(5) [OF core]
  have defined: "\<exists>s'. queue_expire env s a = Some (NGX_OK, s')" if "a \<in> dom (kv_heap s)" for a
    using that by (auto simp: queue_expire_def Let_def)
  show thesis
  proof (cases "eviction s")
    case EVICTION_LRU
    with q have dom: "set (lru_queue s) = dom (kv_heap s)"
      by (auto simp: kv_queues_ok_def kv_queue_def evicting_def)
    show thesis
    proof (cases "lru_queue s = []")
      case True
      show thesis
        by (rule stuck) (use True EVICTION_LRU dom in \<open>simp_all add: kv_expire_one_def lru_expire_def\<close>)
    next
      case False
      with dom have "last (lru_queue s) \<in> dom (kv_heap s)" by (metis last_in_set)
      moreover from this obtain s' where "queue_expire env s (last (lru_queue s)) = Some (NGX_OK, s')"
        using defined by blast
      ultimately show thesis
        by (intro expired [of s' "last (lru_queue s)"])
          (use EVICTION_LRU False in \<open>simp_all add: kv_expire_one_def lru_expire_def evicting_def\<close>)
    qed
  next
    case EVICTION_SLRU
    with q have dom: "set (concat (slru_queues s)) = dom (kv_heap s)"
      and len: "length (slru_queues s) = NGX_WASM_SLRU_NQUEUES s"
      and sh: "min_shift s \<le> ngx_pagesize_shift s"
      by (auto simp: kv_queues_ok_def kv_queue_def evicting_def)
    let ?start = "slru_index_for_size s sz" and ?n = "NGX_WASM_SLRU_NQUEUES s"
    let ?js = "[?start..<?n] @ rev [0..<?start]" and ?P = "\<lambda>i. slru_queues s ! i \<noteq> []"
    have start: "?start < ?n" by (rule slru_index_bound [OF sh])
    have js: "set ?js = {0..<?n}" using start by auto
    have eq: "kv_expire_one env s sz = (case find ?P ?js of
        Some i \<Rightarrow> queue_expire env s (last (slru_queues s ! i)) | None \<Rightarrow> Some (NGX_ABORT, s))"
      using EVICTION_SLRU len start by (simp add: kv_expire_one_def slru_expire_def Let_def)
    show thesis
    proof (cases "find ?P ?js")
      case None
      then have "\<forall>i \<in> set ?js. slru_queues s ! i = []" unfolding find_None_iff by blast
      then have "\<forall>i < length (slru_queues s). slru_queues s ! i = []" using js len by simp
      then have "concat (slru_queues s) = []" by (simp add: all_set_conv_all_nth)
      with dom have "dom (kv_heap s) = {}" by simp
      show thesis by (rule stuck) (use \<open>dom (kv_heap s) = {}\<close> in \<open>simp_all add: eq None\<close>)
    next
      case (Some i)
      from find_SomeD [OF Some] have i: "i < length (slru_queues s)" "slru_queues s ! i \<noteq> []"
        unfolding js len by auto
      then have a: "last (slru_queues s ! i) \<in> dom (kv_heap s)"
        using last_slru_in_concat [of s i] dom by blast
      then obtain s' where "queue_expire env s (last (slru_queues s ! i)) = Some (NGX_OK, s')"
        using defined by blast
      show thesis
        by (rule expired [of s' "last (slru_queues s ! i)"])
          (use a \<open>queue_expire env s _ = _\<close> EVICTION_SLRU in \<open>simp_all add: eq Some evicting_def\<close>)
    qed
  next
    case EVICTION_NONE
    show thesis
      by (rule stuck) (use EVICTION_NONE in \<open>simp_all add: kv_expire_one_def evicting_def\<close>)
  qed
qed

lemma kv_inv_shpool:
  assumes "kv_inv env live s" and "live (shpool s) \<subseteq> live p"
  shows "kv_inv env live (s\<lparr>shpool := p\<rparr>)" and "kv_map (s\<lparr>shpool := p\<rparr>) = kv_map s"
proof -
  have "kv_queues_ok (s\<lparr>shpool := p\<rparr>) A = kv_queues_ok s A" for A by (rule queues_ok_cong) simp_all
  with assms show "kv_inv env live (s\<lparr>shpool := p\<rparr>)" by (auto simp: kv_inv_def kv_core_def)
  show "kv_map (s\<lparr>shpool := p\<rparr>) = kv_map s" by (rule kv_map_cong) simp_all
qed

lemma kv_map_shpool [simp]: "kv_map (s\<lparr>shpool := p\<rparr>) = kv_map s"
  by (rule kv_map_cong) simp_all

lemma kv_core_shpool:
  assumes "kv_core env live s" and "dom (kv_heap s) \<subseteq> live p"
  shows "kv_core env live (s\<lparr>shpool := p\<rparr>)"
proof -
  have "kv_queues_ok (s\<lparr>shpool := p\<rparr>) A = kv_queues_ok s A" for A by (rule queues_ok_cong) simp_all
  with assms show ?thesis by (auto simp: kv_core_def)
qed

text \<open>
  The allocation loop: it always ends with a defined outcome, keeps the invariant and only
  ever removes entries. It gives up only when nothing is left to evict. Under LRU the entries that
  survive are a prefix of the queue: the most recently used ones.
\<close>

definition alloc_post ::
  "'p nginx_env \<Rightarrow> ('p \<Rightarrow> addr set) \<Rightarrow> ('p, 'v) kv_shm \<Rightarrow> addr option \<Rightarrow> ('p, 'v) kv_shm \<Rightarrow> bool" where
  "alloc_post env live s r s' \<longleftrightarrow>
     kv_inv env live s' \<and> eviction s' = eviction s \<and> sizeof_kv_node s' = sizeof_kv_node s \<and>
     kv_map s' \<subseteq>\<^sub>m kv_map s \<and> kv_heap s' \<subseteq>\<^sub>m kv_heap s \<and>
     (\<not> evicting s \<longrightarrow> kv_map s' = kv_map s \<and> kv_heap s' = kv_heap s) \<and>
     (eviction s = EVICTION_LRU \<longrightarrow> (\<exists>gone. lru_queue s = lru_queue s' @ gone)) \<and>
     (case r of
        Some a \<Rightarrow> a \<notin> dom (kv_heap s') \<and> a \<in> live (shpool s')
      | None \<Rightarrow> evicting s \<longrightarrow> dom (kv_heap s') = {})"

lemma removeAll_last: "distinct xs \<Longrightarrow> xs \<noteq> [] \<Longrightarrow> removeAll (last xs) xs = butlast xs"
  by (induction xs rule: rev_induct) auto

lemma alloc_post_expired:
  assumes laws: "nginx_laws env live" and inv: "kv_inv env live s" and ev: "evicting s"
    and a: "a \<in> dom (kv_heap s)" and ex: "queue_expire env s a = Some (NGX_OK, s1)"
    and lru: "eviction s = EVICTION_LRU \<Longrightarrow> a = last (lru_queue s)"
    and post: "alloc_post env live s1 r s'"
  shows "alloc_post env live s r s'"
proof -
  note x = queue_expire_core [OF laws inv a ex]
  from x obtain h where "kv_map s1 = (kv_map s)(h := None)" by blast
  then have m: "kv_map s1 \<subseteq>\<^sub>m kv_map s" by (simp add: map_le_def)
  from x have hp: "kv_heap s1 \<subseteq>\<^sub>m kv_heap s" by (simp add: map_le_def)
  have ev1: "evicting s1" using ev x by (simp add: evicting_def)
  have gone: "\<exists>gone. lru_queue s = lru_queue s1 @ gone" if l: "eviction s = EVICTION_LRU"
  proof -
    from inv l have q: "distinct (lru_queue s)" "slru_queues s = []" "set (lru_queue s) = dom (kv_heap s)"
      by (auto simp: kv_inv_def kv_core_def kv_queues_ok_def evicting_def kv_queue_def)
    from x l have "slru_queues s1 = []"
      by (auto simp: kv_inv_def kv_core_def kv_queues_ok_def)
    with x q have "lru_queue s1 = removeAll a (lru_queue s)" by (simp add: kv_queue_def)
    with q a lru [OF l] have "lru_queue s1 = butlast (lru_queue s)" by (metis removeAll_last empty_iff list.set(1))
    then show ?thesis using q a by (metis append_butlast_last_id empty_iff list.set(1))
  qed
  note p = post [unfolded alloc_post_def]
  have "kv_map s' \<subseteq>\<^sub>m kv_map s" "kv_heap s' \<subseteq>\<^sub>m kv_heap s"
    using p map_le_trans [OF _ m] map_le_trans [OF _ hp] by blast+
  moreover have "\<exists>gone. lru_queue s = lru_queue s' @ gone" if l: "eviction s = EVICTION_LRU"
    using gone [OF l] p x l by auto
  ultimately show ?thesis
    unfolding alloc_post_def using p x ev ev1 by (cases r) simp_all
qed

lemma kv_alloc_loop_post:
  assumes laws: "nginx_laws env live"
  shows "kv_inv env live s \<Longrightarrow> \<exists>r s'. kv_alloc_loop env s sz = Some (r, s') \<and> alloc_post env live s r s'"
proof (induction "queued s" arbitrary: s rule: less_induct)
  case (less s)
  show ?case
  proof (cases "slab_calloc env (shpool s) sz")
    case (Some ap)
    obtain a p where ap: "ap = (a, p)" by force
    with laws Some have a: "a \<notin> live (shpool s)" "live p = insert a (live (shpool s))"
      by (auto simp: nginx_laws_def)
    then have sub: "live (shpool s) \<subseteq> live p" by blast
    from less.prems have "a \<notin> dom (kv_heap s)" using a kv_coreD(6) [of env live s] by (auto simp: kv_inv_def)
    then have "alloc_post env live s (Some a) (s\<lparr>shpool := p\<rparr>)"
      using kv_inv_shpool [OF less.prems sub] a by (simp add: alloc_post_def)
    with Some ap show ?thesis by (simp add: kv_alloc_loop.simps [of env s])
  next
    case None
    show ?thesis
    proof (rule kv_expire_one_cases [OF laws less.prems, of sz])
      assume stuck: "kv_expire_one env s sz = Some (NGX_ABORT, s)"
        and "evicting s \<Longrightarrow> dom (kv_heap s) = {}"
      with less.prems have "alloc_post env live s None s" by (simp add: alloc_post_def)
      moreover have "kv_alloc_loop env s sz = Some (None, s)"
        unfolding kv_alloc_loop.simps [of env s] None stuck by simp
      ultimately show ?thesis by blast
    next
      fix a s1 assume ex: "kv_expire_one env s sz = Some (NGX_OK, s1)" and ev: "evicting s"
        and a: "a \<in> dom (kv_heap s)" "queue_expire env s a = Some (NGX_OK, s1)"
          "eviction s = EVICTION_LRU \<Longrightarrow> a = last (lru_queue s)"
      from queue_expire_core [OF laws less.prems a(1,2)] have "kv_inv env live s1" by blast
      with less.hyps [OF kv_expire_one_queued [OF ex]] obtain r s'
        where "kv_alloc_loop env s1 sz = Some (r, s')" "alloc_post env live s1 r s'" by blast
      with alloc_post_expired [OF laws less.prems ev a] None ex show ?thesis
        by (simp add: kv_alloc_loop.simps [of env s])
    qed
  qed
qed

section \<open>Get, set and delete on the contents\<close>

text \<open>A get of an entry returns its node, and only reorders the queues.\<close>

lemma kv_get_spec:
  assumes inv: "kv_inv env live s"
    and h: "h = (case key_hash of Some h \<Rightarrow> h | None \<Rightarrow> crc32 env key)"
  shows "\<exists>s'. kv_inv env live s' \<and> kv_map s' = kv_map s \<and> kv_heap s' = kv_heap s \<and>
     same_but_queues s s' \<and>
     (case kv_map s h of
        None \<Rightarrow> ngx_wa_shm_kv_get_locked env s key key_hash = Some (NGX_DECLINED, None, s) \<and> s' = s
      | Some n \<Rightarrow> \<exists>a. ngx_wa_shm_kv_get_locked env s key key_hash = Some (NGX_OK, Some (a, n), s')
          \<and> (h, a) \<in> rb_entries (kv_rbtree s) \<and> kv_heap s a = Some n)"
proof -
  from inv have core: "kv_core env live s" by (simp add: kv_inv_def)
  from kv_deref_lookup [OF core, of h] show ?thesis
  proof (elim disjE exE conjE)
    assume "kv_map s h = None" "ngx_wa_shm_rbtree_lookup (kv_rbtree s) h = None"
    with inv show ?thesis
      by (intro exI [of _ s]) (simp add: ngx_wa_shm_kv_get_locked_def kv_deref_def Let_def flip: h)
  next
    fix a n assume n: "kv_map s h = Some n" "ngx_wa_shm_rbtree_lookup (kv_rbtree s) h = Some a"
      "(h, a) \<in> rb_entries (kv_rbtree s)" "kv_heap s a = Some n"
    show ?thesis
    proof (cases "evicting s")
      case True
      obtain s' where s': "queue_insert_for_node (queue_remove s a) a n = Some s'" "same_but_queues s s'"
          "kv_queues_ok s' (dom (kv_heap s))"
        using kv_touch [OF core True, of a n] n by blast
      with kv_core_queues [OF core s'(2,3)] inv same_but_queuesD [OF s'(2)] n True show ?thesis
        by (intro exI [of _ s'])
          (simp add: ngx_wa_shm_kv_get_locked_def kv_deref_def Let_def kv_inv_def flip: h)
    next
      case False
      with n inv show ?thesis
        by (intro exI [of _ s]) (simp add: ngx_wa_shm_kv_get_locked_def kv_deref_def Let_def flip: h)
    qed
  qed
qed

text \<open>The tail of the insertion: link the node and report it as written.\<close>

lemma kv_link_spec:
  assumes laws: "nginx_laws env live" and core: "kv_core env live s"
    and h: "kv_map s h = None" "crc32 env (nd_key n) = h"
    and a: "a \<notin> dom (kv_heap s)" "a \<in> live (shpool s)"
  shows "\<exists>s'. kv_link env s h a n = Some (NGX_OK, Some True, s')
     \<and> kv_core env live s' \<and> kv_map s' = (kv_map s)(h \<mapsto> n) \<and> nelts s' = nelts s
     \<and> kv_heap s' = (kv_heap s)(a \<mapsto> n) \<and> eviction s' = eviction s"
proof -
  define s3 where s3: "s3 = s\<lparr>kv_rbtree := rb_insert env (kv_rbtree s) h a, kv_heap := (kv_heap s)(a \<mapsto> n)\<rparr>"
  have link: "kv_link env s h a n = (if evicting s3 then (case queue_insert_for_node s3 a n of
      None \<Rightarrow> None | Some s4 \<Rightarrow> Some (NGX_OK, Some True, s4)) else Some (NGX_OK, Some True, s3))"
    by (simp add: kv_link_def Let_def s3)
  have h': "h \<notin> fst ` rb_entries (kv_rbtree s)" using h(1) kv_map_None_iff [OF core] by simp
  have ev: "evicting s3 = evicting s" by (simp add: s3 evicting_def)
  have q: "kv_queues_ok s3 (dom (kv_heap s))"
    using kv_coreD(5) [OF core] by (subst queues_ok_cong [of _ s]) (simp_all add: s3)
  show ?thesis
  proof (cases "evicting s")
    case True
    with queues_ok_insert [OF q _ a(1), of n] ev obtain s'
      where s': "queue_insert_for_node s3 a n = Some s'" "same_but_queues s3 s'" by blast
    have "kv_core env live s' \<and> kv_map s' = (kv_map s)(h \<mapsto> n)"
      by (rule kv_core_insert [OF laws core h' h(2) a s3]) (use True s' in simp)
    with s' True ev same_but_queuesD [OF s'(2)] show ?thesis by (simp add: link) (simp add: s3)
  next
    case False
    have "kv_core env live s3 \<and> kv_map s3 = (kv_map s)(h \<mapsto> n)"
      by (rule kv_core_insert [OF laws core h' h(2) a s3]) (use False in simp)
    with False ev show ?thesis by (simp add: link) (simp add: s3)
  qed
qed

lemma kv_core_nelts: "kv_core env live (s\<lparr>nelts := m\<rparr>) = kv_core env live s"
  using queues_ok_cong [of "s\<lparr>nelts := m\<rparr>" s] by (simp add: kv_core_def)

lemma kv_map_nelts [simp]: "kv_map (s\<lparr>nelts := m\<rparr>) = kv_map s"
  by (rule kv_map_cong) simp_all

text \<open>Unlinking a stored node, as the delete branch and the replacement of \<open>old\<close> do it.\<close>

lemma kv_unlink_spec:
  assumes laws: "nginx_laws env live" and core: "kv_core env live s"
    and e: "(h, a) \<in> rb_entries (kv_rbtree s)"
  shows "kv_core env live (kv_unlink env s a) \<and> kv_map (kv_unlink env s a) = (kv_map s)(h := None)
     \<and> kv_heap (kv_unlink env s a) = (kv_heap s)(a := None) \<and> nelts (kv_unlink env s a) = nelts s
     \<and> shpool (kv_unlink env s a) = slab_free env (shpool s) a
     \<and> eviction (kv_unlink env s a) = eviction s"
proof -
  let ?q = "node_queue_remove s a"
  have q: "?q = queue_remove s a \<or> \<not> evicting s \<and> ?q = s" by (simp add: node_queue_remove_def)
  have f: "kv_rbtree ?q = kv_rbtree s" "shpool ?q = shpool s" "kv_heap ?q = kv_heap s"
    "nelts ?q = nelts s" "eviction ?q = eviction s"
    by (simp_all add: node_queue_remove_def queue_remove_def)
  have eq: "kv_unlink env s a = ?q\<lparr>kv_rbtree := rb_delete env (kv_rbtree s) a,
      shpool := slab_free env (shpool s) a, kv_heap := (kv_heap s)(a := None), nelts := nelts ?q\<rparr>"
    by (simp add: kv_unlink_def Let_def f)
  from kv_core_remove [OF laws core e eq q] show ?thesis by (simp add: eq f)
qed

text \<open>Allocating a new node, in terms of what the allocation loop leaves (\<open>s1\<close>).\<close>

lemma kv_set_new_spec:
  assumes laws: "nginx_laws env live" and inv: "kv_inv env live s" and h: "h = crc32 env key"
    and old: "case old of None \<Rightarrow> kv_map s h = None
              | Some a \<Rightarrow> (h, a) \<in> rb_entries (kv_rbtree s)"
    and cas: "cas = (case kv_map s h of None \<Rightarrow> 0 | Some n \<Rightarrow> nd_cas n)"
  shows "\<exists>r s1. kv_alloc_loop env s (sizeof_kv_node s + length key + vlen) = Some (r, s1)
     \<and> alloc_post env live s r s1 \<and>
     (case r of
        None \<Rightarrow> kv_set_new env s key vlen v old = Some (NGX_ERROR, None, s1)
      | Some _ \<Rightarrow>
          if \<exists>a. old = Some a \<and> kv_heap s1 a = None then kv_set_new env s key vlen v old = None
          else \<exists>s'. kv_set_new env s key vlen v old = Some (NGX_OK, Some True, s') \<and> kv_inv env live s'
            \<and> eviction s' = eviction s \<and> kv_map s' = (kv_map s1)(h \<mapsto>
                \<lparr>nd_key = key, nd_value_len = vlen, nd_value = v, nd_cas = cas + 1\<rparr>))"
proof -
  obtain r s1 where loop: "kv_alloc_loop env s (sizeof_kv_node s + length key + vlen) = Some (r, s1)"
    and post: "alloc_post env live s r s1"
    using kv_alloc_loop_post [OF laws inv] by blast
  from post have inv1: "kv_inv env live s1" and le: "kv_map s1 \<subseteq>\<^sub>m kv_map s" "kv_heap s1 \<subseteq>\<^sub>m kv_heap s"
    and ev: "eviction s1 = eviction s" by (simp_all add: alloc_post_def)
  from inv1 have core1: "kv_core env live s1" and nel: "nelts s1 = of_nat (card (dom (kv_heap s1)))"
    by (simp_all add: kv_inv_def)
  note fin = finite_heap [OF core1]
  show ?thesis
  proof (cases r)
    case None
    with loop post show ?thesis by (simp add: kv_set_new_def)
  next
    case (Some a)
    with post have a: "a \<notin> dom (kv_heap s1)" "a \<in> live (shpool s1)" by (simp_all add: alloc_post_def)
    let ?n = "\<lparr>nd_key = key, nd_value_len = vlen, nd_value = v, nd_cas = cas + 1\<rparr>"
    show ?thesis
    proof (cases old)
      case None
      from None old le(1) have m1: "kv_map s1 h = None" by (auto simp: map_le_def dom_def)
      let ?s2 = "s1\<lparr>nelts := nelts s1 + 1\<rparr>"
      have "kv_core env live ?s2" using core1 by (simp add: kv_core_nelts)
      from kv_link_spec [OF laws this, of h ?n a] m1 a h obtain s'
        where s': "kv_link env ?s2 h a ?n = Some (NGX_OK, Some True, s')" "kv_core env live s'"
          "kv_map s' = (kv_map s1)(h \<mapsto> ?n)" "nelts s' = nelts s1 + 1" "kv_heap s' = (kv_heap s1)(a \<mapsto> ?n)"
          "eviction s' = eviction s1" by auto
      have "kv_set_new env s key vlen v old = kv_link env ?s2 h a ?n"
        using None old cas loop Some h by (simp add: kv_set_new_def kv_deref_def)
      moreover have "nelts s' = of_nat (card (dom (kv_heap s')))"
        using s' a fin nel by (simp add: domIff)
      ultimately show ?thesis using s' None loop post Some ev by (simp add: kv_inv_def)
    next
      case old_node: (Some oa)
      with old have e: "(h, oa) \<in> rb_entries (kv_rbtree s)" by simp
      from inv have core: "kv_core env live s" by (simp add: kv_inv_def)
      from kv_core_entry [OF core e] obtain on where on: "kv_heap s oa = Some on" "kv_map s h = Some on"
        "crc32 env (nd_key on) = h" by blast
      show ?thesis
      proof (cases "kv_heap s1 oa")
        case None
        then show ?thesis using loop post Some old_node by (simp add: kv_set_new_def kv_deref_def)
      next
        case (Some on')
        with le(2) on have on': "on' = on" by (metis domI map_le_def option.inject)
        from Some kv_coreD(3) [OF core1] obtain g where g: "(g, oa) \<in> rb_entries (kv_rbtree s1)"
          by (metis domI imageE prod.collapse)
        with kv_coreD(4) [OF core1 g Some] on on' have e1: "(h, oa) \<in> rb_entries (kv_rbtree s1)" by simp
        note u = kv_unlink_spec [OF laws core1 e1]
        let ?s2 = "kv_unlink env s1 oa"
        have ne: "a \<noteq> oa" using a(1) Some by blast
        have a2: "a \<notin> dom (kv_heap ?s2)" "a \<in> live (shpool ?s2)"
          using u a ne laws by (auto simp: nginx_laws_def)
        from kv_link_spec [OF laws conjunct1 [OF u], of h ?n a] a2 u h obtain s'
          where s': "kv_link env ?s2 h a ?n = Some (NGX_OK, Some True, s')" "kv_core env live s'"
            "kv_map s' = (kv_map s1)(h \<mapsto> ?n)" "nelts s' = nelts s1"
            "kv_heap s' = (kv_heap s1)(oa := None, a \<mapsto> ?n)" "eviction s' = eviction s1" by auto
        have "kv_set_new env s key vlen v old = kv_link env ?s2 h a ?n"
          using old_node cas loop \<open>r = Some a\<close> h on on' Some by (simp add: kv_set_new_def kv_deref_def)
        moreover have "card (dom (kv_heap s1)) = Suc (card (dom (kv_heap s1) - {oa}))"
          by (rule card.remove [OF fin]) (use Some in blast)
        then have "card (dom (kv_heap s')) = card (dom (kv_heap s1))"
          using s'(5) a(1) fin by (simp add: domIff card_insert_if)
        ultimately show ?thesis using s' Some old_node loop post \<open>r = Some a\<close> ev nel
          by (simp add: kv_inv_def)
      qed
    qed
  qed
qed

lemma kv_set_newD:
  assumes "nginx_laws env live" and "kv_inv env live s" and "h = crc32 env key"
    and "case old of None \<Rightarrow> kv_map s h = None | Some a \<Rightarrow> (h, a) \<in> rb_entries (kv_rbtree s)"
    and "cas = (case kv_map s h of None \<Rightarrow> 0 | Some n \<Rightarrow> nd_cas n)"
    and set: "kv_set_new env s key vlen v old = Some (rc, written, s')"
  shows "\<exists>r s1. alloc_post env live s r s1 \<and> eviction s' = eviction s \<and>
     (case r of None \<Rightarrow> rc = NGX_ERROR \<and> written = None \<and> s' = s1
      | Some _ \<Rightarrow> rc = NGX_OK \<and> written = Some True \<and> kv_inv env live s' \<and> kv_map s' = (kv_map s1)(h \<mapsto>
          \<lparr>nd_key = key, nd_value_len = vlen, nd_value = v, nd_cas = cas + 1\<rparr>))"
  using kv_set_new_spec [OF assms(1-5), of vlen v] unfolding set
proof (elim exE conjE)
  fix r s1 assume post: "alloc_post env live s r s1"
    and "case r of None \<Rightarrow> Some (rc, written, s') = Some (NGX_ERROR, None, s1)
      | Some _ \<Rightarrow> if \<exists>a. old = Some a \<and> kv_heap s1 a = None then Some (rc, written, s') = None
          else \<exists>s'a. Some (rc, written, s') = Some (NGX_OK, Some True, s'a) \<and> kv_inv env live s'a
            \<and> eviction s'a = eviction s \<and> kv_map s'a = (kv_map s1)(h \<mapsto>
                \<lparr>nd_key = key, nd_value_len = vlen, nd_value = v, nd_cas = cas + 1\<rparr>)"
  then show ?thesis by (intro exI [of _ r] exI [of _ s1]) (auto simp: alloc_post_def split: option.splits if_splits)
qed

text \<open>Writing into a stored node.\<close>

lemma kv_core_write:
  assumes core: "kv_core env live s" and e: "(h, a) \<in> rb_entries (kv_rbtree s)"
    and n: "kv_heap s a = Some n" "nd_key n' = nd_key n"
  shows "kv_core env live (s\<lparr>kv_heap := (kv_heap s)(a \<mapsto> n')\<rparr>)"
    and "kv_map (s\<lparr>kv_heap := (kv_heap s)(a \<mapsto> n')\<rparr>) = (kv_map s)(h \<mapsto> n')"
proof -
  let ?s = "s\<lparr>kv_heap := (kv_heap s)(a \<mapsto> n')\<rparr>"
  have dom: "dom (kv_heap ?s) = dom (kv_heap s)" using n by auto
  show core': "kv_core env live ?s"
    unfolding kv_core_def
  proof (intro conjI)
    show "\<forall>g b m. (g, b) \<in> rb_entries (kv_rbtree ?s) \<and> kv_heap ?s b = Some m \<longrightarrow> crc32 env (nd_key m) = g"
      using kv_coreD(4) [OF core] n by (auto split: if_splits)
    show "kv_queues_ok ?s (dom (kv_heap ?s))"
      unfolding dom using kv_coreD(5) [OF core] by (subst queues_ok_cong [of _ s]) simp_all
    show "snd ` rb_entries (kv_rbtree ?s) = dom (kv_heap ?s)"
      unfolding dom using kv_coreD(3) [OF core] by simp
    show "dom (kv_heap ?s) \<subseteq> live (shpool ?s)" unfolding dom using kv_coreD(6) [OF core] by simp
  qed (use kv_coreD(1,2) [OF core] in simp_all)
  have "kv_map ?s g = ((kv_map s)(h \<mapsto> n')) g" for g
  proof (cases "g = h")
    case True
    have "kv_map ?s h = Some n'" unfolding kv_map_Some_iff [OF core'] using e by auto
    with True show ?thesis by simp
  next
    case False
    then have "(g, b) \<in> rb_entries (kv_rbtree s) \<Longrightarrow> kv_heap ?s b = kv_heap s b" for b
      using kv_core_inj [OF core e, of g] by auto
    moreover have "kv_rbtree ?s = kv_rbtree s" by simp
    ultimately have "kv_map ?s g = Some m \<longleftrightarrow> kv_map s g = Some m" for m
      unfolding kv_map_Some_iff [OF core] kv_map_Some_iff [OF core'] by metis
    with False show ?thesis by (metis fun_upd_other not_Some_eq)
  qed
  then show "kv_map ?s = (kv_map s)(h \<mapsto> n')" by blast
qed

lemma kv_set_existing_spec:
  assumes inv: "kv_inv env live s" and e: "(h, a) \<in> rb_entries (kv_rbtree s)"
    and n: "kv_heap s a = Some n"
  shows "\<exists>s'. kv_set_existing s vlen v a n = Some (NGX_OK, Some True, s') \<and> kv_inv env live s'
     \<and> eviction s' = eviction s
     \<and> kv_map s' = (kv_map s)(h \<mapsto> n\<lparr>nd_value_len := vlen, nd_value := v, nd_cas := nd_cas n + 1\<rparr>)"
proof -
  let ?n = "n\<lparr>nd_value_len := vlen, nd_value := v, nd_cas := nd_cas n + 1\<rparr>"
  let ?s = "s\<lparr>kv_heap := (kv_heap s)(a \<mapsto> ?n)\<rparr>"
  from inv have core: "kv_core env live s" by (simp add: kv_inv_def)
  note w = kv_core_write [OF core e n, of ?n, simplified]
  have "dom (kv_heap ?s) = dom (kv_heap s)" using n by auto
  with inv have inv1: "kv_inv env live ?s" using w by (simp add: kv_inv_def)
  show ?thesis
  proof (cases "evicting ?s")
    case True
    obtain s' where s': "queue_insert_for_node (queue_remove ?s a) a ?n = Some s'" "same_but_queues ?s s'"
        "kv_queues_ok s' (dom (kv_heap ?s))"
      using kv_touch [OF w(1) True, of a ?n] by auto
    from kv_core_queues [OF w(1) s'(2,3)] inv1 same_but_queuesD [OF s'(2)]
    have "kv_inv env live s'" "kv_map s' = kv_map ?s" "eviction s' = eviction s" by (simp_all add: kv_inv_def)
    with s' True w show ?thesis by (simp add: kv_set_existing_def Let_def)
  next
    case False
    with inv1 w show ?thesis by (simp add: kv_set_existing_def Let_def)
  qed
qed

text \<open>
  The cases of a set: a CAS mismatch, a write into the existing node, and an allocation.
\<close>

definition kv_cas :: "('p, 'v) kv_shm \<Rightarrow> u32 \<Rightarrow> u32" where
  "kv_cas s h = (case kv_map s h of None \<Rightarrow> 0 | Some n \<Rightarrow> nd_cas n)"

lemma kv_set_cases:
  assumes inv: "kv_inv env live s" and h: "h = crc32 env key"
  obtains (mismatch) "cas \<noteq> kv_cas s h" "\<And>value. ngx_wa_shm_kv_set_locked env s key value cas = Some (NGX_OK, Some False, s)"
  | (absent) "cas = kv_cas s h" "kv_map s h = None"
      "ngx_wa_shm_kv_set_locked env s key None cas = Some (NGX_OK, Some False, s)"
      "\<And>vlen v. ngx_wa_shm_kv_set_locked env s key (Some (vlen, v)) cas = kv_set_new env s key vlen v None"
  | (present) a n where "cas = kv_cas s h" "kv_map s h = Some n"
      "(h, a) \<in> rb_entries (kv_rbtree s)" "kv_heap s a = Some n"
      "ngx_wa_shm_kv_set_locked env s key None cas =
         Some (NGX_OK, Some True, (kv_unlink env s a)\<lparr>nelts := nelts (kv_unlink env s a) - 1\<rparr>)"
      "\<And>vlen v. ngx_wa_shm_kv_set_locked env s key (Some (vlen, v)) cas =
         (if vlen > nd_value_len n then kv_set_new env s key vlen v (Some a) else kv_set_existing s vlen v a n)"
proof -
  from inv have core: "kv_core env live s" by (simp add: kv_inv_def)
  note defs = ngx_wa_shm_kv_set_locked_def kv_deref_def kv_cas_def Let_def
  from kv_deref_lookup [OF core, of h] show thesis
  proof (elim disjE exE conjE)
    assume m: "kv_map s h = None" "ngx_wa_shm_rbtree_lookup (kv_rbtree s) h = None"
    show thesis
    proof (cases "cas = kv_cas s h")
      case True
      show thesis by (rule absent) (use True m h in \<open>simp_all add: defs\<close>)
    next
      case False
      show thesis by (rule mismatch) (use False m h in \<open>simp_all add: defs\<close>)
    qed
  next
    fix a n assume m: "kv_map s h = Some n" "ngx_wa_shm_rbtree_lookup (kv_rbtree s) h = Some a"
      "(h, a) \<in> rb_entries (kv_rbtree s)" "kv_heap s a = Some n"
    show thesis
    proof (cases "cas = kv_cas s h")
      case True
      show thesis by (rule present [OF True m(1,3,4)]) (use True m h in \<open>simp_all add: defs\<close>)
    next
      case False
      show thesis by (rule mismatch) (use False m h in \<open>simp_all add: defs\<close>)
    qed
  qed
qed

text \<open>Deleting a stored entry.\<close>

lemma kv_delete_spec:
  assumes laws: "nginx_laws env live" and inv: "kv_inv env live s"
    and e: "(h, a) \<in> rb_entries (kv_rbtree s)"
  shows "kv_inv env live ((kv_unlink env s a)\<lparr>nelts := nelts (kv_unlink env s a) - 1\<rparr>)
     \<and> kv_map ((kv_unlink env s a)\<lparr>nelts := nelts (kv_unlink env s a) - 1\<rparr>) = (kv_map s)(h := None)"
proof -
  from inv have core: "kv_core env live s" and nel: "nelts s = of_nat (card (dom (kv_heap s)))"
    by (simp_all add: kv_inv_def)
  note u = kv_unlink_spec [OF laws core e]
  have "card (dom (kv_heap s)) = Suc (card (dom (kv_heap s) - {a}))"
    by (rule card.remove [OF finite_heap [OF core] kv_core_entry_dom [OF core e]])
  moreover have "dom (kv_heap (kv_unlink env s a)) = dom (kv_heap s) - {a}" using u by auto
  ultimately have "nelts (kv_unlink env s a) - 1 = of_nat (card (dom (kv_heap (kv_unlink env s a))))"
    using u nel by (metis add_diff_cancel_left' of_nat_Suc)
  with u show ?thesis by (simp add: kv_inv_def kv_core_nelts)
qed

lemma alloc_post_contents:
  assumes "alloc_post env live s r s'"
  shows "kv_inv env live s'" and "kv_map s' g = kv_map s g \<or> evicting s \<and> kv_map s' g = None"
    and "r = None \<Longrightarrow> kv_map s' = (if evicting s then Map.empty else kv_map s)"
proof -
  from assms show inv: "kv_inv env live s'" by (simp add: alloc_post_def)
  from assms have le: "kv_map s' \<subseteq>\<^sub>m kv_map s" and same: "\<not> evicting s \<Longrightarrow> kv_map s' = kv_map s"
    by (simp_all add: alloc_post_def)
  then show "kv_map s' g = kv_map s g \<or> evicting s \<and> kv_map s' g = None"
    by (metis domIff map_le_def)
  show "kv_map s' = (if evicting s then Map.empty else kv_map s)" if "r = None"
  proof (cases "evicting s")
    case True
    with assms that have "dom (kv_heap s') = {}" by (simp add: alloc_post_def)
    then have "kv_map s' g = None" for g by (auto simp: kv_map_def split: option.splits)
    with True show ?thesis by auto
  qed (use same in simp)
qed

lemma kv_set_value_spec:
  assumes laws: "nginx_laws env live" and inv: "kv_inv env live s" and h: "h = crc32 env key"
    and set: "ngx_wa_shm_kv_set_locked env s key (Some (vlen, v)) cas = Some (rc, written, s')"
  shows "kv_inv env live s' \<and> eviction s' = eviction s \<and>
    (if cas \<noteq> kv_cas s h then rc = NGX_OK \<and> written = Some False \<and> s' = s
     else rc = NGX_OK \<and> written = Some True \<and>
          (\<exists>n. kv_map s' h = Some n \<and> nd_value n = v \<and> nd_value_len n = vlen \<and> nd_cas n = cas + 1) \<and>
          (\<forall>g. g \<noteq> h \<longrightarrow> kv_map s' g = kv_map s g \<or> evicting s \<and> kv_map s' g = None)
        \<or> rc = NGX_ERROR \<and> written = None \<and>
          kv_map s' = (if evicting s then Map.empty else kv_map s))"
proof (cases rule: kv_set_cases [OF inv h, of cas])
  case 1
  with set inv show ?thesis by simp
next
  case 2
  have c: "cas = (case kv_map s h of None \<Rightarrow> 0 | Some n \<Rightarrow> nd_cas n)" using 2 by (simp add: kv_cas_def)
  from set 2 have "kv_set_new env s key vlen v None = Some (rc, written, s')" by simp
  from kv_set_newD [OF laws inv h _ c this] 2(2) obtain r s1 where post: "alloc_post env live s r s1"
    and ev: "eviction s' = eviction s" and r: "case r of None \<Rightarrow> rc = NGX_ERROR \<and> written = None \<and> s' = s1
      | Some _ \<Rightarrow> rc = NGX_OK \<and> written = Some True \<and> kv_inv env live s' \<and> kv_map s' = (kv_map s1)(h \<mapsto>
            \<lparr>nd_key = key, nd_value_len = vlen, nd_value = v, nd_cas = cas + 1\<rparr>)" by auto
  from post ev r 2 show ?thesis using alloc_post_contents [OF post] by (cases r) auto
next
  case (3 a n)
  have c: "cas = (case kv_map s h of None \<Rightarrow> 0 | Some n \<Rightarrow> nd_cas n)" using 3 by (simp add: kv_cas_def)
  show ?thesis
  proof (cases "nd_value_len n < vlen")
    case True
    with set 3 have "kv_set_new env s key vlen v (Some a) = Some (rc, written, s')" by simp
    from kv_set_newD [OF laws inv h _ c this] 3(3) obtain r s1 where post: "alloc_post env live s r s1"
      and ev: "eviction s' = eviction s" and r: "case r of None \<Rightarrow> rc = NGX_ERROR \<and> written = None \<and> s' = s1
        | Some _ \<Rightarrow> rc = NGX_OK \<and> written = Some True \<and> kv_inv env live s' \<and> kv_map s' = (kv_map s1)(h \<mapsto>
              \<lparr>nd_key = key, nd_value_len = vlen, nd_value = v, nd_cas = cas + 1\<rparr>)" by auto
    from post ev r 3 show ?thesis using alloc_post_contents [OF post] by (cases r) auto
  next
    case False
    with set 3 have "kv_set_existing s vlen v a n = Some (rc, written, s')" by simp
    with kv_set_existing_spec [OF inv 3(3,4), of vlen v] 3(1,2) show ?thesis by (auto simp: kv_cas_def)
  qed
qed

end
