(* ===== verification/Shm_Kv_Store.thy ===== *)
theory Shm_Kv_Store
  imports Shm_Kv_Ops
begin

text \<open>
  What the key/value store promises its callers, over the operations of Shm_Kv: the invariant
  of every reachable store, the effect of get, set and delete, the compare-and-swap contract
  (stated as a locale and interpreted on the store), the eviction order, and the one case
  in which a set touches released memory.

  The witnesses run on a concrete environment: a plain binary search tree, a slab pool of
  a fixed capacity, and the length of the key as its hash.
\<close>

section \<open>Runs of operations\<close>

datatype 'v kv_op =
  KvGet bytes "u32 option"
| KvSet bytes "(nat \<times> 'v) option" u32

definition kv_exec :: "'p nginx_env \<Rightarrow> ('p, 'v) kv_shm \<Rightarrow> 'v kv_op \<Rightarrow> ('p, 'v) kv_shm option" where
  "kv_exec env s op =
     (case op of
        KvGet key h \<Rightarrow> map_option (snd \<circ> snd) (ngx_wa_shm_kv_get_locked env s key h)
      | KvSet key value cas \<Rightarrow> map_option (snd \<circ> snd) (ngx_wa_shm_kv_set_locked env s key value cas))"

fun kv_execs :: "'p nginx_env \<Rightarrow> ('p, 'v) kv_shm \<Rightarrow> 'v kv_op list \<Rightarrow> ('p, 'v) kv_shm option" where
  "kv_execs env s [] = Some s"
| "kv_execs env s (op # ops) =
     (case kv_exec env s op of None \<Rightarrow> None | Some s' \<Rightarrow> kv_execs env s' ops)"

lemma kv_set_inv:
  assumes laws: "nginx_laws env live" and inv: "kv_inv env live s"
    and set: "ngx_wa_shm_kv_set_locked env s key val cas = Some (rc, written, s')"
  shows "kv_inv env live s'"
proof (cases val)
  case None
  show ?thesis
  proof (cases rule: kv_set_cases [where key = key and cas = cas, OF inv refl])
    case (3 a n)
    with kv_delete_spec [OF laws inv 3(3)] set None show ?thesis by simp
  qed (use set None inv in simp_all)
next
  case (Some p)
  then obtain vlen v where "val = Some (vlen, v)" by (cases p) auto
  with kv_set_value_spec [OF laws inv refl] set show ?thesis by blast
qed

lemma kv_get_inv:
  assumes inv: "kv_inv env live s" and get: "ngx_wa_shm_kv_get_locked env s key kh = Some (rc, r, s')"
  shows "kv_inv env live s'"
proof -
  from kv_get_spec [OF inv refl, of key kh] get inv show ?thesis
    by (auto split: option.splits)
qed

lemma kv_exec_inv:
  "nginx_laws env live \<Longrightarrow> kv_inv env live s \<Longrightarrow> kv_exec env s op = Some s' \<Longrightarrow> kv_inv env live s'"
  by (auto simp: kv_exec_def split: kv_op.splits intro: kv_get_inv kv_set_inv)

lemma kv_execs_keep_inv:
  "nginx_laws env live \<Longrightarrow> kv_inv env live s \<Longrightarrow> kv_execs env s ops = Some s' \<Longrightarrow> kv_inv env live s'"
  by (induction ops arbitrary: s) (auto split: option.splits dest: kv_exec_inv)

lemma kv_init_inv:
  assumes "min_shift s \<le> ngx_pagesize_shift s"
    and "ngx_wa_shm_kv_init env sizeof_kv sizeof_queue s = (NGX_OK, s')"
  shows "kv_inv env live s'" and "kv_map s' = Map.empty" and "eviction s' = eviction s"
proof -
  from assms(2) obtain p where s': "s' = s\<lparr>shpool := p, kv_rbtree := Sentinel, nelts := 0, lru_queue := [],
      slru_queues := replicate (if eviction s = EVICTION_SLRU then NGX_WASM_SLRU_NQUEUES s else 0) [],
      kv_heap := Map.empty\<rparr>"
    by (auto simp: ngx_wa_shm_kv_init_def Let_def split: option.splits)
  have "kv_queues_ok s' {}"
    using assms(1) by (auto simp: s' kv_queues_ok_def kv_queue_def NGX_WASM_SLRU_NQUEUES_def evicting_def)
  then show "kv_inv env live s'" by (simp add: s' kv_inv_def kv_core_def rb_bst_def)
  show "kv_map s' = Map.empty" "eviction s' = eviction s" by (auto simp: s' kv_map_def)
qed

section \<open>A concrete environment\<close>

fun bst_insert :: "rbtree \<Rightarrow> u32 \<Rightarrow> addr \<Rightarrow> rbtree" where
  "bst_insert Sentinel k a = RbNode Sentinel k a Sentinel"
| "bst_insert (RbNode l x b r) k a =
     (if k < x then RbNode (bst_insert l k a) x b r else RbNode l x b (bst_insert r k a))"

fun bst_spine :: "(u32 \<times> addr) list \<Rightarrow> rbtree" where
  "bst_spine [] = Sentinel"
| "bst_spine ((k, a) # es) = RbNode Sentinel k a (bst_spine es)"

definition bst_delete :: "rbtree \<Rightarrow> addr \<Rightarrow> rbtree" where
  "bst_delete t a = bst_spine (filter (\<lambda>e. snd e \<noteq> a) (rb_inorder t))"

text \<open>A pool: its capacity and the blocks handed out, with their sizes.\<close>

type_synonym pool = "nat \<times> (addr \<times> nat) list"

definition pool_alloc :: "pool \<Rightarrow> nat \<Rightarrow> (addr \<times> pool) option" where
  "pool_alloc p n =
     (let (cap, blocks) = p; a = Suc (foldr max (map fst blocks) 0) in
      if sum_list (map snd blocks) + n \<le> cap then Some (a, (cap, (a, n) # blocks)) else None)"

definition pool_free :: "pool \<Rightarrow> addr \<Rightarrow> pool" where
  "pool_free p a = (fst p, filter (\<lambda>b. fst b \<noteq> a) (snd p))"

definition pool_live :: "pool \<Rightarrow> addr set" where
  "pool_live p = fst ` set (snd p)"

definition demo_env :: "pool nginx_env" where
  "demo_env = \<lparr>rb_insert = bst_insert, rb_delete = bst_delete, slab_calloc = pool_alloc,
     slab_free = pool_free, crc32 = (\<lambda>key. of_nat (length key))\<rparr>"

lemma bst_insert_entries: "rb_entries (bst_insert t k a) = insert (k, a) (rb_entries t)"
  by (induction t) auto

lemma bst_insert_bst: "rb_bst t \<Longrightarrow> k \<notin> fst ` rb_entries t \<Longrightarrow> rb_bst (bst_insert t k a)"
proof (induction t)
  case (RbNode l x b r)
  then show ?case by (auto simp: rb_bst_node bst_insert_entries image_iff)
qed (simp add: rb_bst_def)

lemma rb_inorder_spine [simp]: "rb_inorder (bst_spine es) = es"
  by (induction es rule: bst_spine.induct) auto

lemma sorted_wrt_map_filter: "sorted_wrt P (map f xs) \<Longrightarrow> sorted_wrt P (map f (filter Q xs))"
  by (induction xs) auto

lemma foldr_max_ge: "x \<in> set xs \<Longrightarrow> x \<le> foldr max xs (0::nat)"
  by (induction xs) auto

lemma demo_laws: "nginx_laws demo_env pool_live"
  unfolding nginx_laws_def demo_env_def nginx_env.simps
proof (intro conjI allI impI)
  fix t k a assume "rb_bst t \<and> k \<notin> fst ` rb_entries t"
  then show "rb_bst (bst_insert t k a)" by (simp add: bst_insert_bst)
  show "rb_entries (bst_insert t k a) = insert (k, a) (rb_entries t)" by (rule bst_insert_entries)
next
  fix t a assume "rb_bst t \<and> a \<in> snd ` rb_entries t"
  then show "rb_bst (bst_delete t a)" by (simp add: bst_delete_def rb_bst_def sorted_wrt_map_filter)
  show "rb_entries (bst_delete t a) = {e \<in> rb_entries t. snd e \<noteq> a}" by (simp add: bst_delete_def)
next
  fix p n a p' assume alloc: "pool_alloc p n = Some (a, p')"
  have "Suc (foldr max (map fst (snd p)) 0) \<notin> fst ` set (snd p)"
    using foldr_max_ge [of _ "map fst (snd p)"] by fastforce
  with alloc show "a \<notin> pool_live p" by (auto simp: pool_alloc_def pool_live_def split: prod.splits if_splits)
  from alloc show "pool_live p' = insert a (pool_live p)"
    by (auto simp: pool_alloc_def pool_live_def split: prod.splits if_splits)
next
  fix p a show "pool_live (pool_free p a) = pool_live p - {a}" by (auto simp: pool_free_def pool_live_def)
qed

text \<open>A zone of \<open>cap\<close> bytes with 4 KiB pages and 8-byte minimum chunks, and its initialised store.\<close>

definition demo_zone :: "shm_eviction \<Rightarrow> nat \<Rightarrow> (pool, 'v) kv_shm" where
  "demo_zone ev cap = \<lparr>eviction = ev, ngx_pagesize_shift = 12, min_shift = 3, sizeof_kv_node = 10,
     shpool = (cap, []), kv_rbtree = Sentinel, nelts = 0, lru_queue = [], slru_queues = [],
     kv_heap = Map.empty\<rparr>"

definition demo_store :: "shm_eviction \<Rightarrow> nat \<Rightarrow> (pool, 'v) kv_shm" where
  "demo_store ev cap = snd (ngx_wa_shm_kv_init demo_env 20 2 (demo_zone ev cap))"

lemma demo_store_inv:
  assumes "100 \<le> cap"
  shows "kv_inv demo_env pool_live (demo_store ev cap)" and "eviction (demo_store ev cap) = ev"
proof -
  have i: "ngx_wa_shm_kv_init demo_env 20 2 (demo_zone ev cap) = (NGX_OK, demo_store ev cap)"
    using assms by (simp add: demo_store_def ngx_wa_shm_kv_init_def demo_zone_def demo_env_def pool_alloc_def
        NGX_WASM_SLRU_NQUEUES_def Let_def)
  have "min_shift (demo_zone ev cap) \<le> ngx_pagesize_shift (demo_zone ev cap)" by (simp add: demo_zone_def)
  from kv_init_inv [OF this i] show "kv_inv demo_env pool_live (demo_store ev cap)"
    and "eviction (demo_store ev cap) = ev" by (simp_all add: demo_zone_def)
qed

definition demo_after :: "shm_eviction \<Rightarrow> nat \<Rightarrow> bytes kv_op list \<Rightarrow> (pool, bytes) kv_shm" where
  "demo_after ev cap ops = the (kv_execs demo_env (demo_store ev cap) ops)"

lemma demo_after_inv:
  "100 \<le> cap \<Longrightarrow> kv_execs demo_env (demo_store ev cap) ops \<noteq> None \<Longrightarrow>
     kv_inv demo_env pool_live (demo_after ev cap ops)"
  unfolding demo_after_def by (auto intro: kv_execs_keep_inv [OF demo_laws demo_store_inv(1)])

section \<open>Optimistic writers\<close>

text \<open>
  A run of operations, watched at one entry: how often the entry was written, whether it was there and then
  gone at some point of the run, and the final state.
\<close>

fun watch ::
  "('s \<Rightarrow> 'o \<Rightarrow> ('h option \<times> 's) option) \<Rightarrow> ('s \<Rightarrow> 'h \<Rightarrow> bool) \<Rightarrow> 'h \<Rightarrow> 's \<Rightarrow> 'o list \<Rightarrow> (nat \<times> bool \<times> 's) option" where
  "watch exec present h s [] = Some (0, False, s)"
| "watch exec present h s (op # ops) =
     (case exec s op of
        None \<Rightarrow> None
      | Some (w, s') \<Rightarrow>
          (case watch exec present h s' ops of
             None \<Rightarrow> None
           | Some (n, lost, s'') \<Rightarrow>
               Some (if w = Some h then Suc n else n, lost \<or> present s h \<and> \<not> present s' h, s'')))"

text \<open>
  The contract of a store with compare-and-swap counters. An operation says which entry it has written, if any; the counter of an
  entry grows by one when it is written and else stays, unless the operation removes the entry. A set
  or delete whose counter does not match changes nothing. \<open>hash\<close> decides which keys share an entry.
\<close>

locale cas_store =
  fixes inv :: "'s \<Rightarrow> bool" and hash :: "'k \<Rightarrow> 'h"
    and cas_of :: "'s \<Rightarrow> 'h \<Rightarrow> u32" and present :: "'s \<Rightarrow> 'h \<Rightarrow> bool"
    and exec :: "'s \<Rightarrow> 'o \<Rightarrow> ('h option \<times> 's) option"
    and set_cas :: "'s \<Rightarrow> 'k \<Rightarrow> 'v \<Rightarrow> u32 \<Rightarrow> (ngx_rc \<times> bool option \<times> 's) option"
  assumes exec_inv: "inv s \<Longrightarrow> exec s op = Some (w, s') \<Longrightarrow> inv s'"
    and exec_counts: "inv s \<Longrightarrow> exec s op = Some (w, s') \<Longrightarrow> \<not> (present s h \<and> \<not> present s' h) \<Longrightarrow>
          cas_of s' h = cas_of s h + (if w = Some h then 1 else 0)"
    and set_stale: "inv s \<Longrightarrow> c \<noteq> cas_of s (hash k) \<Longrightarrow> set_cas s k v c = Some (NGX_OK, Some False, s)"
begin

lemma watch_counts:
  "inv s \<Longrightarrow> watch exec present h s ops = Some (n, False, s') \<Longrightarrow> inv s' \<and> cas_of s' h = cas_of s h + of_nat n"
proof (induction ops arbitrary: s n)
  case (Cons op ops)
  from Cons.prems obtain w s1 n1 where s1: "exec s op = Some (w, s1)" "watch exec present h s1 ops = Some (n1, False, s')"
      "n = (if w = Some h then Suc n1 else n1)" "\<not> (present s h \<and> \<not> present s1 h)"
    by (clarsimp split: option.splits prod.splits)
  from Cons.IH [OF exec_inv [OF Cons.prems(1) s1(1)] s1(2)] exec_counts [OF Cons.prems(1) s1(1,4)] s1(3)
  show ?case by simp
qed simp

lemma of_nat_u32_neq_0: "0 < n \<Longrightarrow> n < 2 ^ 32 \<Longrightarrow> (of_nat n :: u32) \<noteq> 0"
  by (simp add: unsigned_of_nat take_bit_nat_eq_self flip: unat_eq_0)

text \<open>No lost update: a writer that read its counter before others wrote is turned away.\<close>

lemma no_lost_update:
  assumes "inv s" and "watch exec present (hash k) s ops = Some (n, False, s')" and "0 < n" and "n < 2 ^ 32"
  shows "set_cas s' k v (cas_of s (hash k)) = Some (NGX_OK, Some False, s')"
proof (rule set_stale)
  from watch_counts [OF assms(1,2)] show "inv s'" by blast
  show "cas_of s (hash k) \<noteq> cas_of s' (hash k)"
    using watch_counts [OF assms(1,2)] of_nat_u32_neq_0 [OF assms(3,4)] by simp
qed

end

text \<open>The key/value store behind that contract: \<open>kv_exec\<close> with the hash of the entry that was reported as written.\<close>

definition kv_report :: "'p nginx_env \<Rightarrow> ('p, 'v) kv_shm \<Rightarrow> 'v kv_op \<Rightarrow> (u32 option \<times> ('p, 'v) kv_shm) option" where
  "kv_report env s op =
     (case op of
        KvGet key h \<Rightarrow> map_option (\<lambda>(rc, r, s'). (None, s')) (ngx_wa_shm_kv_get_locked env s key h)
      | KvSet key value cas \<Rightarrow>
          map_option (\<lambda>(rc, written, s'). (if written = Some True then Some (crc32 env key) else None, s'))
            (ngx_wa_shm_kv_set_locked env s key value cas))"

definition kv_present :: "('p, 'v) kv_shm \<Rightarrow> u32 \<Rightarrow> bool" where
  "kv_present s h \<longleftrightarrow> kv_map s h \<noteq> None"

lemma kv_report_exec: "kv_report env s op = Some (w, s') \<Longrightarrow> kv_exec env s op = Some s'"
  by (auto simp: kv_report_def kv_exec_def split: kv_op.splits)

lemma kv_cas_cong: "kv_map s' h = kv_map s h \<Longrightarrow> kv_cas s' h = kv_cas s h"
  by (simp add: kv_cas_def)

lemma kv_set_counts:
  assumes laws: "nginx_laws env live" and inv: "kv_inv env live s"
    and set: "ngx_wa_shm_kv_set_locked env s key (Some v) cas = Some (rc, written, s')"
    and kept: "\<not> (kv_present s h \<and> \<not> kv_present s' h)"
  shows "kv_cas s' h = kv_cas s h + (if written = Some True \<and> crc32 env key = h then 1 else 0)"
proof -
  obtain vlen x where v: "v = (vlen, x)" by force
  note spec = kv_set_value_spec [OF laws inv refl set [unfolded v], THEN conjunct2, THEN conjunct2]
  show ?thesis
  proof (cases "written = Some True \<and> crc32 env key = h")
    case True
    with spec show ?thesis by (auto simp: kv_cas_def split: if_splits)
  next
    case False
    have "kv_map s' h = kv_map s h \<or> kv_map s' h = None"
    proof (cases "cas = kv_cas s (crc32 env key)")
      case True
      with spec have "written = Some True \<and> (\<forall>g. g \<noteq> crc32 env key \<longrightarrow> kv_map s' g = kv_map s g \<or> kv_map s' g = None) \<or>
          kv_map s' = (if evicting s then Map.empty else kv_map s)" by auto
      with False show ?thesis by (elim disjE) (metis, simp)
    qed (use spec in simp)
    with kept have "kv_map s' h = kv_map s h" unfolding kv_present_def by metis
    from kv_cas_cong [OF this] False show ?thesis by auto
  qed
qed

lemma kv_delete_counts:
  assumes laws: "nginx_laws env live" and inv: "kv_inv env live s"
    and set: "ngx_wa_shm_kv_set_locked env s key None cas = Some (rc, written, s')"
    and kept: "\<not> (kv_present s h \<and> \<not> kv_present s' h)"
  shows "kv_cas s' h = kv_cas s h + (if written = Some True \<and> crc32 env key = h then 1 else 0)"
proof (cases rule: kv_set_cases [where key = key and cas = cas, OF inv refl])
  case (3 a n)
  with set have s': "written = Some True" "s' = (kv_unlink env s a)\<lparr>nelts := nelts (kv_unlink env s a) - 1\<rparr>" by simp_all
  from kv_delete_spec [OF laws inv 3(3)] have "kv_map s' = (kv_map s)(crc32 env key := None)" by (simp add: s')
  with kept 3(2) s'(1) show ?thesis by (auto simp: kv_present_def intro: kv_cas_cong)
qed (use set in auto)

interpretation kv_store: cas_store "\<lambda>s. nginx_laws env live \<and> kv_inv env live s" "crc32 env" kv_cas kv_present
  "kv_report env" "ngx_wa_shm_kv_set_locked env" for env live
proof
  fix s op w s' h
  assume s: "nginx_laws env live \<and> kv_inv env live s" and x: "kv_report env s op = Some (w, s')"
  show "nginx_laws env live \<and> kv_inv env live s'" using s kv_exec_inv kv_report_exec [OF x] by blast
  assume kept: "\<not> (kv_present s h \<and> \<not> kv_present s' h)"
  show "kv_cas s' h = kv_cas s h + (if w = Some h then 1 else 0)"
  proof (cases op)
    case (KvGet key kh)
    have "\<exists>s''. kv_map s'' = kv_map s \<and> (\<exists>rc r. ngx_wa_shm_kv_get_locked env s key kh = Some (rc, r, s''))"
      using kv_get_spec [OF conjunct2 [OF s] refl, of key kh] by (auto split: option.splits)
    with x KvGet have "kv_map s' = kv_map s" "w = None" by (auto simp: kv_report_def)
    then show ?thesis by (simp add: kv_cas_def)
  next
    case (KvSet key v c)
    with x obtain rc written where "ngx_wa_shm_kv_set_locked env s key v c = Some (rc, written, s')"
      "w = (if written = Some True then Some (crc32 env key) else None)" by (auto simp: kv_report_def)
    with s kept show ?thesis
      using kv_set_counts [of env live s key _ c rc written s' h] kv_delete_counts [of env live s key c rc written s' h]
      by (cases v) auto
  qed
next
  fix s k v c assume "nginx_laws env live \<and> kv_inv env live s" and c: "c \<noteq> kv_cas s (crc32 env k)"
  then have "kv_inv env live s" by simp
  then show "ngx_wa_shm_kv_set_locked env s k v c = Some (NGX_OK, Some False, s)"
    by (rule kv_set_cases [where key = k and cas = c, OF _ refl]) (use c in simp_all)
qed

section \<open>Undefined outcomes and eviction order\<close>

lemma kv_alloc_first:
  "slab_calloc env (shpool s) sz = Some (a, p) \<Longrightarrow> kv_alloc_loop env s sz = Some (Some a, s\<lparr>shpool := p\<rparr>)"
  by (simp add: kv_alloc_loop.simps [of env s])

lemma kv_alloc_not_evicting:
  assumes "\<not> evicting s"
  shows "\<exists>r p. kv_alloc_loop env s sz = Some (r, s\<lparr>shpool := p\<rparr>)"
proof (cases "slab_calloc env (shpool s) sz")
  case None
  from assms have "kv_expire_one env s sz = Some (NGX_ABORT, s)"
    by (cases "eviction s") (auto simp: kv_expire_one_def evicting_def)
  with None show ?thesis
    by (intro exI [of _ None] exI [of _ "shpool s"]) (simp add: kv_alloc_loop.simps [of env s])
qed (use kv_alloc_first in fastforce)

text \<open>A new entry in a zone that does not evict: one fresh node, or nothing at all.\<close>

lemma kv_set_fresh:
  assumes laws: "nginx_laws env live" and inv: "kv_inv env live s" and ne: "\<not> evicting s"
    and absent: "kv_map s (crc32 env key) = None"
  obtains (written) a n s' where
      "ngx_wa_shm_kv_set_locked env s key (Some (vlen, v)) 0 = Some (NGX_OK, Some True, s')"
      "kv_inv env live s'" "eviction s' = eviction s" "kv_map s' = (kv_map s)(crc32 env key \<mapsto> n)"
      "nd_value n = v" "nd_key n = key" "a \<notin> live (shpool s)"
      "live (shpool s') = insert a (live (shpool s))" "dom (kv_heap s') = insert a (dom (kv_heap s))"
  | (no_memory) "ngx_wa_shm_kv_set_locked env s key (Some (vlen, v)) 0 = Some (NGX_ERROR, None, s)"
proof -
  let ?sz = "sizeof_kv_node s + length key + vlen" and ?h = "crc32 env key"
  let ?n = "\<lparr>nd_key = key, nd_value_len = vlen, nd_value = v, nd_cas = 1\<rparr>"
  from inv have core: "kv_core env live s" by (simp add: kv_inv_def)
  have cas: "kv_cas s ?h = 0" using absent by (simp add: kv_cas_def)
  from absent have set: "ngx_wa_shm_kv_set_locked env s key (Some (vlen, v)) 0 = kv_set_new env s key vlen v None"
    by (cases rule: kv_set_cases [where key = key and cas = 0, OF inv refl]) (use cas in simp_all)
  show thesis
  proof (cases "slab_calloc env (shpool s) ?sz")
    case None
    with ne have "kv_alloc_loop env s ?sz = Some (None, s)"
      by (cases "eviction s") (auto simp: kv_alloc_loop.simps [of env s] kv_expire_one_def evicting_def)
    then show thesis by (intro no_memory) (simp add: set kv_set_new_def)
  next
    case (Some ap)
    obtain a p where ap: "ap = (a, p)" by force
    with laws Some have a: "a \<notin> live (shpool s)" "live p = insert a (live (shpool s))" by (auto simp: nginx_laws_def)
    let ?s1 = "s\<lparr>shpool := p, nelts := nelts s + 1\<rparr>"
    from a kv_coreD(6) [OF core] have fresh: "a \<notin> dom (kv_heap s)" by blast
    have core1: "kv_core env live ?s1"
      using kv_core_shpool [OF core, of p] kv_coreD(6) [OF core] a by (simp add: kv_core_nelts) blast
    have map1: "kv_map ?s1 = kv_map s" by (rule kv_map_cong) simp_all
    have ne1: "\<not> evicting ?s1" using ne by (simp add: evicting_def)
    have pre: "kv_map ?s1 ?h = None" "crc32 env (nd_key ?n) = ?h" "a \<notin> dom (kv_heap ?s1)" "a \<in> live (shpool ?s1)"
      using absent fresh a by (simp_all add: map1)
    obtain s' where s': "kv_link env ?s1 ?h a ?n = Some (NGX_OK, Some True, s')"
      "kv_core env live s'" "kv_map s' = (kv_map s)(?h \<mapsto> ?n)" "nelts s' = nelts s + 1"
      "kv_heap s' = (kv_heap s)(a \<mapsto> ?n)" "eviction s' = eviction s"
      using kv_link_spec [OF laws core1 pre] unfolding map1 by auto
    have pool: "shpool s' = p" using s'(1) ne1 by (auto simp: kv_link_def evicting_def)
    have "kv_set_new env s key vlen v None = Some (NGX_OK, Some True, s')"
      using kv_alloc_first [OF Some [unfolded ap]] s'(1) by (simp add: kv_set_new_def kv_deref_def)
    moreover have "nelts s' = of_nat (card (dom (kv_heap s')))"
      using inv s' fresh finite_heap [OF core] by (simp add: kv_inv_def domIff)
    ultimately show thesis
      by (intro written [of s' ?n a]) (use s' pool a in \<open>simp_all add: set kv_inv_def\<close>)
  qed
qed

lemma kv_link_lru:
  "kv_link env s h a n = Some (rc, w, s') \<Longrightarrow> eviction s = EVICTION_LRU \<Longrightarrow> lru_queue s' = a # lru_queue s"
  by (auto simp: kv_link_def queue_insert_for_node_def evicting_def Let_def split: if_splits)

lemma kv_set_grow_spec:
  assumes laws: "nginx_laws env live" and inv: "kv_inv env live s"
    and e: "(crc32 env key, a) \<in> rb_entries (kv_rbtree s)" and n: "kv_heap s a = Some n"
    and len: "nd_value_len n < vlen"
  obtains r s1 where "kv_alloc_loop env s (sizeof_kv_node s + length key + vlen) = Some (r, s1)"
    "alloc_post env live s r s1"
    "ngx_wa_shm_kv_set_locked env s key (Some (vlen, v)) (nd_cas n) = None \<longleftrightarrow> r \<noteq> None \<and> kv_heap s1 a = None"
proof -
  from inv have core: "kv_core env live s" by (simp add: kv_inv_def)
  from kv_core_entry [OF core e] n have m: "kv_map s (crc32 env key) = Some n" by force
  have set: "ngx_wa_shm_kv_set_locked env s key (Some (vlen, v)) (nd_cas n) = kv_set_new env s key vlen v (Some a)"
    using len kv_deref_lookup [OF core, of "crc32 env key"] m n e
      rbtree_lookup_iff [OF kv_coreD(1) [OF core], of "crc32 env key" a]
    by (auto simp: ngx_wa_shm_kv_set_locked_def kv_deref_def)
  obtain r s1 where s1: "kv_alloc_loop env s (sizeof_kv_node s + length key + vlen) = Some (r, s1)"
      "alloc_post env live s r s1"
      "case r of None \<Rightarrow> kv_set_new env s key vlen v (Some a) = Some (NGX_ERROR, None, s1)
       | Some _ \<Rightarrow> if kv_heap s1 a = None then kv_set_new env s key vlen v (Some a) = None
           else kv_set_new env s key vlen v (Some a) \<noteq> None"
  proof -
    from kv_set_new_spec [where old = "Some a" and key = key and vlen = vlen and v = v, OF laws inv refl _ refl] e
    obtain r s1 where "kv_alloc_loop env s (sizeof_kv_node s + length key + vlen) = Some (r, s1)"
      "alloc_post env live s r s1"
      "case r of None \<Rightarrow> kv_set_new env s key vlen v (Some a) = Some (NGX_ERROR, None, s1)
       | Some _ \<Rightarrow> if \<exists>b. Some a = Some b \<and> kv_heap s1 b = None then kv_set_new env s key vlen v (Some a) = None
           else \<exists>s'. kv_set_new env s key vlen v (Some a) = Some (NGX_OK, Some True, s') \<and> kv_inv env live s'
            \<and> eviction s' = eviction s \<and> kv_map s' = (kv_map s1)(crc32 env key \<mapsto>
                \<lparr>nd_key = key, nd_value_len = vlen, nd_value = v,
                 nd_cas = (case kv_map s (crc32 env key) of None \<Rightarrow> 0 | Some n \<Rightarrow> nd_cas n) + 1\<rparr>)"
      by auto
    then show thesis by (intro that [of r s1]) (auto split: option.splits if_splits)
  qed
  show thesis by (rule that [OF s1(1,2)]) (use s1(3) set in \<open>auto split: option.splits if_splits\<close>)
qed

lemma kv_set_lru_queue:
  assumes laws: "nginx_laws env live" and inv: "kv_inv env live s" and lru: "eviction s = EVICTION_LRU"
    and absent: "kv_map s (crc32 env key) = None"
    and set: "ngx_wa_shm_kv_set_locked env s key (Some (vlen, v)) 0 = Some (NGX_OK, Some True, s')"
  shows "\<exists>a gone s1. kv_alloc_loop env s (sizeof_kv_node s + length key + vlen) = Some (Some a, s1) \<and>
     lru_queue s = lru_queue s1 @ gone \<and> lru_queue s' = a # lru_queue s1"
proof -
  have "kv_cas s (crc32 env key) = 0" using absent by (simp add: kv_cas_def)
  with absent set have new: "kv_set_new env s key vlen v None = Some (NGX_OK, Some True, s')"
    by (cases rule: kv_set_cases [where key = key and cas = 0, OF inv refl]) simp_all
  from kv_alloc_loop_post [OF laws inv] obtain r s1
    where loop: "kv_alloc_loop env s (sizeof_kv_node s + length key + vlen) = Some (r, s1)"
      and post: "alloc_post env live s r s1" by blast
  from new loop obtain a where r: "r = Some a"
    and link: "kv_link env (s1\<lparr>nelts := nelts s1 + 1\<rparr>) (crc32 env key) a
       \<lparr>nd_key = key, nd_value_len = vlen, nd_value = v, nd_cas = 1\<rparr> = Some (NGX_OK, Some True, s')"
    by (auto simp: kv_set_new_def kv_deref_def split: option.splits)
  from post lru obtain gone where "lru_queue s = lru_queue s1 @ gone" "eviction s1 = EVICTION_LRU"
    by (auto simp: alloc_post_def)
  with kv_link_lru [OF link] loop r show ?thesis by simp
qed

lemma kv_alloc_expires_last:
  assumes laws: "nginx_laws env live" and inv: "kv_inv env live s" and lru: "eviction s = EVICTION_LRU"
    and full: "slab_calloc env (shpool s) sz = None"
    and last: "lru_queue s \<noteq> []" "a = last (lru_queue s)"
    and loop: "kv_alloc_loop env s sz = Some (r, s1)"
  shows "kv_heap s1 a = None"
proof -
  from inv lru have "set (lru_queue s) = dom (kv_heap s)"
    by (auto simp: kv_inv_def kv_core_def kv_queues_ok_def evicting_def kv_queue_def)
  with last have a: "a \<in> dom (kv_heap s)" by (metis last_in_set)
  then obtain s0 where ex: "queue_expire env s a = Some (NGX_OK, s0)" by (auto simp: queue_expire_def Let_def)
  note x = queue_expire_core [OF laws inv a ex]
  from ex lru last full loop have "kv_alloc_loop env s0 sz = Some (r, s1)"
    by (simp add: kv_alloc_loop.simps [of env s] kv_expire_one_def lru_expire_def)
  with kv_alloc_loop_post [OF laws, of s0 sz] x have "kv_heap s1 \<subseteq>\<^sub>m kv_heap s0" by (auto simp: alloc_post_def)
  moreover have "kv_heap s0 a = None" using x by simp
  ultimately show ?thesis by (metis domIff map_le_def)
qed

section \<open>Properties\<close>

text \<open>The states of the witnesses: two entries in an LRU zone with little room left, and in a zone that never evicts.\<close>

definition demo_ops :: "bytes kv_op list" where
  "demo_ops = [KvSet [1] (Some (2, [7, 8])) 0, KvSet [1, 2] (Some (2, [5, 6])) 0]"

definition demo_lru :: "(pool, bytes) kv_shm" where
  "demo_lru = demo_after EVICTION_LRU 100 demo_ops"

definition demo_none :: "(pool, bytes) kv_shm" where
  "demo_none = demo_after EVICTION_NONE 100 demo_ops"

lemma demo_lru_inv: "kv_inv demo_env pool_live demo_lru"
  unfolding demo_lru_def by (rule demo_after_inv) (simp, code_simp)

lemma demo_none_inv: "kv_inv demo_env pool_live demo_none"
  unfolding demo_none_def by (rule demo_after_inv) (simp, code_simp)

text \<open>Evaluating an operation on them: the result code and flag, and some successor state.\<close>

lemma set_result_ex:
  "map_option (\<lambda>(rc, w, s'). (rc, w)) r = Some (rc, w) \<Longrightarrow> \<exists>s'. r = Some (rc, w, s')"
  by auto

text \<open>
  C4. Whatever sequence of gets, sets and deletes a freshly initialised store goes through, as long
  as no operation was undefined, the invariant holds: the tree is a search tree on the
  hashes of the stored keys, the nodes are live memory, an evicting store
  has each node in its queues exactly once, and the element count is the number of nodes.
\<close>

theorem kv_reachable_inv:
  assumes "nginx_laws env live" and "min_shift z \<le> ngx_pagesize_shift z"
    and "ngx_wa_shm_kv_init env sizeof_kv sizeof_queue z = (NGX_OK, s)"
    and "kv_execs env s ops = Some s'"
  shows "kv_inv env live s'"
  using kv_execs_keep_inv [OF assms(1) kv_init_inv(1) [OF assms(2,3)] assms(4)] .

theorem kv_reachable_inv_witness:
  "\<exists>s' :: (pool, bytes) kv_shm. kv_execs demo_env (demo_store EVICTION_LRU 100) demo_ops = Some s' \<and> kv_inv demo_env pool_live s' \<and> nelts s' = 2"
proof -
  have i: "ngx_wa_shm_kv_init demo_env 20 2 (demo_zone EVICTION_LRU 100) = (NGX_OK, demo_store EVICTION_LRU 100)"
    by (simp add: demo_store_def ngx_wa_shm_kv_init_def demo_zone_def demo_env_def pool_alloc_def Let_def)
  have "map_option nelts (kv_execs demo_env (demo_store EVICTION_LRU 100) demo_ops) = Some 2" by code_simp
  then obtain s' where s': "kv_execs demo_env (demo_store EVICTION_LRU 100) demo_ops = Some s'" "nelts s' = 2" by auto
  have "min_shift (demo_zone EVICTION_LRU 100) \<le> ngx_pagesize_shift (demo_zone EVICTION_LRU 100)"
    by (simp add: demo_zone_def)
  from kv_reachable_inv [OF demo_laws this i s'(1)] s' show ?thesis by blast
qed

text \<open>
  C5. A set with a value: a counter that does not match leaves the store as it is; otherwise it
  either writes (the entry holds the value, its counter is one more; other entries are
  unchanged, or evicted if the zone evicts) or fails for lack of memory (nothing is written; an
  evicting zone has by then evicted everything it held).
\<close>

theorem kv_set_effect:
  assumes "nginx_laws env live" and "kv_inv env live s" and "h = crc32 env key"
    and "ngx_wa_shm_kv_set_locked env s key (Some (vlen, v)) cas = Some (rc, written, s')"
  shows "if cas \<noteq> kv_cas s h then rc = NGX_OK \<and> written = Some False \<and> s' = s
     else rc = NGX_OK \<and> written = Some True \<and>
          (\<exists>n. kv_map s' h = Some n \<and> nd_value n = v \<and> nd_value_len n = vlen \<and> nd_cas n = cas + 1) \<and>
          (\<forall>g. g \<noteq> h \<longrightarrow> kv_map s' g = kv_map s g \<or> evicting s \<and> kv_map s' g = None)
        \<or> rc = NGX_ERROR \<and> written = None \<and> kv_map s' = (if evicting s then Map.empty else kv_map s)"
  using kv_set_value_spec [OF assms] by blast

theorem kv_set_effect_witness:
  "\<exists>s' n. ngx_wa_shm_kv_set_locked demo_env demo_lru [1, 2, 3] (Some (60, [9])) 0 = Some (NGX_OK, Some True, s') \<and>
     kv_map s' 3 = Some n \<and> nd_value n = [9] \<and> nd_cas n = 1"
proof -
  have "\<exists>s'. ngx_wa_shm_kv_set_locked demo_env demo_lru [1, 2, 3] (Some (60, [9])) 0 = Some (NGX_OK, Some True, s')"
    by (rule set_result_ex) code_simp
  then obtain s' where
    s': "ngx_wa_shm_kv_set_locked demo_env demo_lru [1, 2, 3] (Some (60, [9])) 0 = Some (NGX_OK, Some True, s')" ..
  have "crc32 demo_env [1, 2, 3] = 3" "kv_cas demo_lru 3 = 0" by code_simp+
  with kv_set_effect [OF demo_laws demo_lru_inv refl s'] s' show ?thesis by auto
qed

text \<open>
  A delete is always defined: it removes the entry and reports it as written when the counter
  matches an existing entry, and otherwise changes nothing.
\<close>

theorem kv_delete_effect:
  assumes "nginx_laws env live" and inv: "kv_inv env live s"
  shows "\<exists>s'. ngx_wa_shm_kv_set_locked env s key None cas =
       Some (NGX_OK, Some (cas = kv_cas s (crc32 env key) \<and> kv_map s (crc32 env key) \<noteq> None), s') \<and>
     kv_inv env live s' \<and>
     kv_map s' = (if cas = kv_cas s (crc32 env key) then (kv_map s)(crc32 env key := None) else kv_map s)"
proof (cases rule: kv_set_cases [where key = key and cas = cas, OF inv refl])
  case 1
  then show ?thesis using inv by simp
next
  case 2
  then have "(kv_map s)(crc32 env key := None) = kv_map s" by auto
  with 2 inv show ?thesis by simp
next
  case (3 a n)
  with kv_delete_spec [OF assms 3(3)] show ?thesis by simp
qed

theorem kv_delete_effect_witness:
  "\<exists>s'. ngx_wa_shm_kv_set_locked demo_env demo_lru [1] None 1 = Some (NGX_OK, Some True, s') \<and>
     kv_inv demo_env pool_live s' \<and> kv_map s' 1 = None \<and> kv_map s' 2 \<noteq> None"
proof -
  have "crc32 demo_env [1] = 1" "kv_cas demo_lru 1 = 1" "kv_map demo_lru 1 \<noteq> None" "kv_map demo_lru 2 \<noteq> None"
    by code_simp+
  with kv_delete_effect [OF demo_laws demo_lru_inv, of "[1]" 1] show ?thesis by auto
qed

text \<open>
  Reading back: after a set that wrote, a get of any key with the same hash returns the value,
  its length and the incremented counter. Keys are only compared by their CRC32, so two
  keys with the same CRC32 are one entry.
\<close>

theorem kv_get_after_set:
  assumes "nginx_laws env live" and "kv_inv env live s"
    and "ngx_wa_shm_kv_set_locked env s key (Some (vlen, v)) cas = Some (NGX_OK, Some True, s')"
    and "crc32 env key' = crc32 env key"
  shows "\<exists>a n s''. ngx_wa_shm_kv_get_locked env s' key' None = Some (NGX_OK, Some (a, n), s'') \<and>
     nd_value n = v \<and> nd_value_len n = vlen \<and> nd_cas n = cas + 1 \<and> kv_map s'' = kv_map s'"
proof -
  from kv_set_value_spec [OF assms(1,2) refl assms(3)] obtain n where "kv_inv env live s'"
    and n: "kv_map s' (crc32 env key) = Some n" "nd_value n = v" "nd_value_len n = vlen" "nd_cas n = cas + 1"
    by (auto split: if_splits)
  from kv_get_spec [OF this(1) refl, of key' None] n assms(4) show ?thesis by auto
qed

theorem kv_get_after_set_witness:
  "\<exists>s' a n s''. ngx_wa_shm_kv_set_locked demo_env demo_lru [1] (Some (1, [9])) 1 = Some (NGX_OK, Some True, s') \<and>
     ngx_wa_shm_kv_get_locked demo_env s' [4] None = Some (NGX_OK, Some (a, n), s'') \<and> nd_value n = [9] \<and> nd_cas n = 2"
proof -
  have "\<exists>s'. ngx_wa_shm_kv_set_locked demo_env demo_lru [1] (Some (1, [9])) 1 = Some (NGX_OK, Some True, s')"
    by (rule set_result_ex) code_simp
  then obtain s' where
    s': "ngx_wa_shm_kv_set_locked demo_env demo_lru [1] (Some (1, [9])) 1 = Some (NGX_OK, Some True, s')" ..
  have "crc32 demo_env [4] = crc32 demo_env [1]" by code_simp
  from kv_get_after_set [OF demo_laws demo_lru_inv s' this] s' show ?thesis by auto
qed

text \<open>
  C6. Optimistic writers lose no update while the entry stays in the store. Take any run of gets, sets and deletes, in a zone
  with any eviction policy, in which the entry was never removed (by a delete or by an eviction) once it was there,
  and in which it was written between one and \<open>2^32 - 1\<close> times. A set or delete that carries the counter read before the run is
  then refused and changes nothing.
\<close>

theorem kv_no_lost_update:
  assumes "nginx_laws env live" and "kv_inv env live s"
    and "watch (kv_report env) kv_present (crc32 env key) s ops = Some (n, False, s')"
    and "0 < n" and "n < 2 ^ 32"
  shows "ngx_wa_shm_kv_set_locked env s' key v (kv_cas s (crc32 env key)) = Some (NGX_OK, Some False, s')"
  by (rule kv_store.no_lost_update [OF conjI [OF assms(1,2)] assms(3-5)])

theorem kv_no_lost_update_witness:
  "\<exists>s'. watch (kv_report demo_env) kv_present 1 demo_lru [KvGet [1, 2] None, KvSet [1] (Some (1, [9])) 1] = Some (1, False, s') \<and>
     kv_cas demo_lru 1 = 1 \<and> ngx_wa_shm_kv_set_locked demo_env s' [1] (Some (1, [0])) 1 = Some (NGX_OK, Some False, s')"
proof -
  let ?ops = "[KvGet [1, 2] None, KvSet [1] (Some (1, [9])) 1]"
  have "map_option (\<lambda>(n, lost, s'). (n, lost)) (watch (kv_report demo_env) kv_present 1 demo_lru ?ops) = Some (1, False)"
    by code_simp
  then obtain s' where s': "watch (kv_report demo_env) kv_present 1 demo_lru ?ops = Some (1, False, s')" by auto
  have h: "crc32 demo_env [1] = 1" and c: "kv_cas demo_lru 1 = 1" by code_simp+
  from kv_no_lost_update [OF demo_laws demo_lru_inv, of "[1]" ?ops 1 s' "Some (1, [0])"] s' h c show ?thesis by simp
qed

text \<open>
  An entry that was removed starts over with the counter 1, so that a counter read before the removal can match again: the
  set of a writer that has seen neither the delete nor the new value is accepted.
\<close>

theorem kv_removed_counter_restarts:
  assumes "nginx_laws env live" and "kv_inv env live s" and "kv_cas s (crc32 env key) = 1"
    and "ngx_wa_shm_kv_set_locked env s key None 1 = Some (NGX_OK, Some True, s1)"
    and "ngx_wa_shm_kv_set_locked env s1 key (Some (vlen, v)) 0 = Some (NGX_OK, Some True, s2)"
    and "ngx_wa_shm_kv_set_locked env s2 key (Some (vlen', v')) (kv_cas s (crc32 env key)) = Some (NGX_OK, written, s3)"
  shows "written = Some True"
proof -
  have s1: "kv_inv env live s1" by (rule kv_set_inv [OF assms(1,2,4)])
  from kv_set_value_spec [OF assms(1) s1 refl assms(5)] have s2: "kv_inv env live s2" "kv_cas s2 (crc32 env key) = 1"
    by (auto simp: kv_cas_def split: if_splits)
  from kv_set_value_spec [OF assms(1) s2(1) refl assms(6)] s2(2) assms(3) show ?thesis by (auto split: if_splits)
qed

theorem kv_removed_counter_restarts_witness:
  "\<exists>s1 s2 s3. ngx_wa_shm_kv_set_locked demo_env demo_lru [1] None 1 = Some (NGX_OK, Some True, s1) \<and>
     ngx_wa_shm_kv_set_locked demo_env s1 [1] (Some (1, [9])) 0 = Some (NGX_OK, Some True, s2) \<and>
     ngx_wa_shm_kv_set_locked demo_env s2 [1] (Some (1, [3])) 1 = Some (NGX_OK, Some True, s3)"
proof -
  let ?s1 = "snd (snd (the (ngx_wa_shm_kv_set_locked demo_env demo_lru [1] None 1)))"
  let ?s2 = "snd (snd (the (ngx_wa_shm_kv_set_locked demo_env ?s1 [1] (Some (1, [9])) 0)))"
  have "\<exists>s. ngx_wa_shm_kv_set_locked demo_env demo_lru [1] None 1 = Some (NGX_OK, Some True, s)" by (rule set_result_ex) code_simp
  then have 1: "ngx_wa_shm_kv_set_locked demo_env demo_lru [1] None 1 = Some (NGX_OK, Some True, ?s1)" by auto
  have "\<exists>s. ngx_wa_shm_kv_set_locked demo_env ?s1 [1] (Some (1, [9])) 0 = Some (NGX_OK, Some True, s)" by (rule set_result_ex) code_simp
  then have 2: "ngx_wa_shm_kv_set_locked demo_env ?s1 [1] (Some (1, [9])) 0 = Some (NGX_OK, Some True, ?s2)" by auto
  have "map_option fst (ngx_wa_shm_kv_set_locked demo_env ?s2 [1] (Some (1, [3])) 1) = Some NGX_OK" by code_simp
  then obtain w s3 where 3: "ngx_wa_shm_kv_set_locked demo_env ?s2 [1] (Some (1, [3])) 1 = Some (NGX_OK, w, s3)" by auto
  have c: "kv_cas demo_lru (crc32 demo_env [1]) = 1" by code_simp
  from kv_removed_counter_restarts [OF demo_laws demo_lru_inv c 1 2, of 1 "[3]" w s3] 1 2 3 c show ?thesis by auto
qed

text \<open>
  When a set is free of undefined behaviour: the counter does not match, the zone does not
  evict, the entry is new, the value fits in the existing node, or the allocator has room at once.
\<close>

theorem kv_set_defined:
  assumes laws: "nginx_laws env live" and inv: "kv_inv env live s"
    and safe: "cas \<noteq> kv_cas s (crc32 env key) \<or> \<not> evicting s \<or> kv_map s (crc32 env key) = None \<or>
      (\<exists>n. kv_map s (crc32 env key) = Some n \<and> vlen \<le> nd_value_len n) \<or>
      slab_calloc env (shpool s) (sizeof_kv_node s + length key + vlen) \<noteq> None"
  shows "ngx_wa_shm_kv_set_locked env s key (Some (vlen, v)) cas \<noteq> None"
proof (cases rule: kv_set_cases [where key = key and cas = cas, OF inv refl])
  case 2
  with kv_set_new_spec [where old = None and key = key and vlen = vlen and v = v, OF laws inv refl _ refl]
  show ?thesis by (auto split: option.splits)
next
  case (3 a n)
  show ?thesis
  proof (cases "nd_value_len n < vlen")
    case True
    from 3 have c: "cas = nd_cas n" by (simp add: kv_cas_def)
    obtain r s1 where s1: "kv_alloc_loop env s (sizeof_kv_node s + length key + vlen) = Some (r, s1)"
      and "alloc_post env live s r s1"
      and none: "ngx_wa_shm_kv_set_locked env s key (Some (vlen, v)) (nd_cas n) = None \<longleftrightarrow>
        r \<noteq> None \<and> kv_heap s1 a = None"
      by (rule kv_set_grow_spec [OF laws inv 3(3,4) True])
    have "\<not> evicting s \<or> slab_calloc env (shpool s) (sizeof_kv_node s + length key + vlen) \<noteq> None"
      using safe 3(1,2) True by auto
    then have "kv_heap s1 = kv_heap s"
      using kv_alloc_not_evicting [of s env "sizeof_kv_node s + length key + vlen"] kv_alloc_first [of env s] s1
      by fastforce
    with none 3(4) c show ?thesis by simp
  next
    case False
    with kv_set_existing_spec [OF inv 3(3,4), of vlen v] 3(6) show ?thesis by auto
  qed
qed simp

theorem kv_set_defined_witness:
  "kv_map demo_lru (crc32 demo_env [1, 2, 3]) = None \<and>
     ngx_wa_shm_kv_set_locked demo_env demo_lru [1, 2, 3] (Some (60, [9])) 0 \<noteq> None"
proof -
  have "kv_map demo_lru (crc32 demo_env [1, 2, 3]) = None" by code_simp
  with kv_set_defined [OF demo_laws demo_lru_inv, of 0 "[1, 2, 3]" 60 "[9]"] show ?thesis by blast
qed

text \<open>
  C17. The remaining case is a use after free: in an LRU zone that is full, setting a longer value
  for the entry that is least recently used expires that very entry while the function still holds
  a pointer to it; if the allocation then succeeds, the released node is unlinked and freed again.
\<close>

theorem kv_set_use_after_free:
  assumes laws: "nginx_laws env live" and inv: "kv_inv env live s" and lru: "eviction s = EVICTION_LRU"
    and e: "(crc32 env key, last (lru_queue s)) \<in> rb_entries (kv_rbtree s)" "lru_queue s \<noteq> []"
    and n: "kv_heap s (last (lru_queue s)) = Some n" "nd_value_len n < vlen"
    and full: "slab_calloc env (shpool s) (sizeof_kv_node s + length key + vlen) = None"
    and room: "kv_alloc_loop env s (sizeof_kv_node s + length key + vlen) = Some (Some b, s1)"
  shows "ngx_wa_shm_kv_set_locked env s key (Some (vlen, v)) (nd_cas n) = None"
proof -
  obtain r s2 where "kv_alloc_loop env s (sizeof_kv_node s + length key + vlen) = Some (r, s2)"
    and "alloc_post env live s r s2"
    and "ngx_wa_shm_kv_set_locked env s key (Some (vlen, v)) (nd_cas n) = None \<longleftrightarrow>
      r \<noteq> None \<and> kv_heap s2 (last (lru_queue s)) = None"
    by (rule kv_set_grow_spec [OF laws inv e(1) n])
  with kv_alloc_expires_last [OF laws inv lru full e(2) refl room] room show ?thesis by simp
qed

theorem kv_set_use_after_free_witness:
  "\<exists>n. kv_map demo_lru 1 = Some n \<and> nd_cas n = 1 \<and>
     ngx_wa_shm_kv_set_locked demo_env demo_lru [1] (Some (50, [9])) 1 = None"
proof -
  have n: "kv_heap demo_lru 2 = Some \<lparr>nd_key = [1], nd_value_len = 2, nd_value = [7, 8], nd_cas = 1\<rparr>"
    "kv_map demo_lru 1 = Some \<lparr>nd_key = [1], nd_value_len = 2, nd_value = [7, 8], nd_cas = 1\<rparr>"
    by code_simp+
  have q: "eviction demo_lru = EVICTION_LRU" "lru_queue demo_lru = [3, 2]" "crc32 demo_env [1] = 1" by code_simp+
  have e: "(1, 2) \<in> rb_entries (kv_rbtree demo_lru)" by code_simp
  have "map_option fst (kv_alloc_loop demo_env demo_lru (sizeof_kv_node demo_lru + length [1::byte] + 50)) = Some (Some 4)"
    by code_simp
  then obtain s1 where room: "kv_alloc_loop demo_env demo_lru (sizeof_kv_node demo_lru + length [1::byte] + 50) = Some (Some 4, s1)"
    by auto
  have full: "slab_calloc demo_env (shpool demo_lru) (sizeof_kv_node demo_lru + length [1::byte] + 50) = None" by code_simp
  show ?thesis
    using kv_set_use_after_free [OF demo_laws demo_lru_inv q(1) _ _ _ _ full room,
        of "\<lparr>nd_key = [1], nd_value_len = 2, nd_value = [7, 8], nd_cas = 1\<rparr>" "[9]"] q n e
    by simp
qed

text \<open>
  Least recently used first: when a new entry is written to an LRU zone, it goes to the head of
  the queue and the entries evicted to make room are the tail of the queue; none is evicted
  when the allocator had room.
\<close>

theorem kv_lru_order:
  assumes "nginx_laws env live" and "kv_inv env live s" and "eviction s = EVICTION_LRU"
    and "kv_map s (crc32 env key) = None"
    and "ngx_wa_shm_kv_set_locked env s key (Some (vlen, v)) 0 = Some (NGX_OK, Some True, s')"
  shows "\<exists>a kept gone. lru_queue s = kept @ gone \<and> lru_queue s' = a # kept \<and>
     (slab_calloc env (shpool s) (sizeof_kv_node s + length key + vlen) \<noteq> None \<longrightarrow> gone = [])"
proof -
  from kv_set_lru_queue [OF assms] obtain a gone s1
    where s1: "kv_alloc_loop env s (sizeof_kv_node s + length key + vlen) = Some (Some a, s1)"
      "lru_queue s = lru_queue s1 @ gone" "lru_queue s' = a # lru_queue s1" by blast
  then have "gone = []" if "slab_calloc env (shpool s) (sizeof_kv_node s + length key + vlen) \<noteq> None"
    using that kv_alloc_first [of env s] by fastforce
  with s1 show ?thesis by blast
qed

theorem kv_lru_order_witness:
  "\<exists>s' a kept gone. ngx_wa_shm_kv_set_locked demo_env demo_lru [1, 2, 3] (Some (50, [9])) 0 = Some (NGX_OK, Some True, s') \<and>
     lru_queue demo_lru = [3, 2] \<and> lru_queue demo_lru = kept @ gone \<and> lru_queue s' = a # kept"
proof -
  have "\<exists>s'. ngx_wa_shm_kv_set_locked demo_env demo_lru [1, 2, 3] (Some (50, [9])) 0 = Some (NGX_OK, Some True, s')"
    by (rule set_result_ex) code_simp
  then obtain s' where
    s': "ngx_wa_shm_kv_set_locked demo_env demo_lru [1, 2, 3] (Some (50, [9])) 0 = Some (NGX_OK, Some True, s')" ..
  have "eviction demo_lru = EVICTION_LRU" "kv_map demo_lru (crc32 demo_env [1, 2, 3]) = None" "lru_queue demo_lru = [3, 2]"
    by code_simp+
  from kv_lru_order [OF demo_laws demo_lru_inv this(1,2) s'] this(3) s' show ?thesis by blast
qed

end
