(* ===== verification/Guest_Memory.thy ===== *)
theory Guest_Memory
  imports Wasmx_Prelude "HOL-Library.Monad_Syntax"
begin

text \<open>
  The linear memory of a guest as the host functions see it (src/src/wasm/vm/ngx_wavm.h, ngx_wavm_host.h): checked pointers, slices
  and words, the allocator of the guest, and the results of a host function.

  The memory allocator of the guest is a parameter: given a size and the memory it answers a pointer, 0 when the call
  failed, and the memory afterwards. It may grow the memory; it is taken not to move it, so that pointers lifted
  before the call stay the same offsets.
\<close>

section \<open>Results and guest memory\<close>

datatype pw_result =
    RESULT_OK | RESULT_NOT_FOUND | RESULT_BAD_ARGUMENT | RESULT_SERIALIZATION_FAILURE | RESULT_PARSE_FAILURE
  | RESULT_BAD_EXPRESSION | RESULT_INVALID_MEM_ACCESS | RESULT_EMPTY | RESULT_CAS_MISMATCH
  | RESULT_RESULT_MISMATCH | RESULT_INTERNAL_FAILURE | RESULT_BROKEN_CONNECTION | RESULT_NYI

text \<open>
  A host function returns a result to the guest (\<open>NGX_WAVM_OK\<close>), or traps the instance with \<open>NGX_WAVM_BAD_USAGE\<close> or
  \<open>NGX_WAVM_ERROR\<close>.
\<close>

datatype hfunc_ret = Result pw_result | Bad_usage | Wavm_error

text \<open>
  \<open>ngx_wavm_memory_lift\<close>: \<open>None\<close> is a pointer that is refused, \<open>Some None\<close> the NULL pointer of an empty
  slice, and otherwise an offset into the memory.
\<close>

definition ngx_wavm_memory_lift :: "bytes \<Rightarrow> u32 \<Rightarrow> u32 \<Rightarrow> u32 \<Rightarrow> nat option option" where
  "ngx_wavm_memory_lift mem p sz align =
     (if p = 0 then (if sz \<noteq> 0 then None else Some None)
      else if p + sz < p \<or> unat (p + sz) > length mem then None
      else if align > 1 \<and> p AND (align - 1) \<noteq> 0 then None
      else Some (Some (unat p)))"

lemma memory_lift_bounds:
  assumes "ngx_wavm_memory_lift mem p sz align = Some (Some off)"
  shows "off = unat p \<and> off + unat sz \<le> length mem"
proof -
  from assms have p: "\<not> p + sz < p" "unat (p + sz) \<le> length mem" "off = unat p"
    by (auto simp: ngx_wavm_memory_lift_def split: if_splits)
  then have "unat (p + sz) = unat p + unat sz"
    by (simp only: not_less no_olen_add_nat unat_add_lem)
  with p show ?thesis by simp
qed

text \<open>The bytes of a slice that was accepted.\<close>

definition read_slice :: "bytes \<Rightarrow> nat option \<Rightarrow> u32 \<Rightarrow> bytes" where
  "read_slice mem p len = (case p of None \<Rightarrow> [] | Some off \<Rightarrow> take (unat len) (drop off mem))"

lemma length_read_slice:
  "ngx_wavm_memory_lift mem p len align = Some (Some off) \<Longrightarrow> length (read_slice mem (Some off) len) = unat len"
  by (auto simp: read_slice_def dest: memory_lift_bounds)

text \<open>A pointer to a word: 4 bytes, aligned.\<close>

definition lift_u32 :: "bytes \<Rightarrow> u32 \<Rightarrow> nat option" where
  "lift_u32 mem p = (case ngx_wavm_memory_lift mem p 4 4 of Some (Some off) \<Rightarrow> Some off | _ \<Rightarrow> None)"

section \<open>The allocator of the guest\<close>

record 'g hguest =
  h_malloc :: "nat \<Rightarrow> bytes \<Rightarrow> 'g \<Rightarrow> u32 \<times> bytes \<times> 'g"

section \<open>Reading and writing guest memory\<close>

lemma buf_read_written:
  "buf_write buf off bs = Some buf' \<Longrightarrow> n = length bs \<Longrightarrow> buf_read buf' off n = Some bs"
  by (auto simp: buf_write_def buf_read_def split: if_splits)

text \<open>Two ranges of memory that do not overlap.\<close>

definition apart :: "nat \<times> nat \<Rightarrow> nat \<times> nat \<Rightarrow> bool" where
  "apart r s \<longleftrightarrow> fst r + snd r \<le> fst s \<or> fst s + snd s \<le> fst r"

lemma buf_read_kept:
  assumes w: "buf_write buf off bs = Some buf'" and a: "apart (off, length bs) (p, n)"
  shows "buf_read buf' p n = buf_read buf p n"
proof -
  have "take n (drop p buf') = take n (drop p buf)"
    using assms nth_buf_write [OF w] length_buf_write [OF w]
    by (intro nth_equalityI) (auto simp: apart_def)
  then show ?thesis using length_buf_write [OF w] by (simp add: buf_read_def)
qed

lemma lift_u32_bounds: "lift_u32 mem p = Some off \<Longrightarrow> off + 4 \<le> length mem"
  by (auto simp: lift_u32_def dest!: memory_lift_bounds split: option.splits)

text \<open>
  The answer of the allocator of the guest that the host functions rely on: a non-zero pointer to a range inside of the
  memory, which does not overlap the given words of the caller and left them as they were.
\<close>

definition malloc_gives :: "nat \<Rightarrow> bytes \<Rightarrow> nat list \<Rightarrow> u32 \<times> bytes \<times> 'g \<Rightarrow> bool" where
  "malloc_gives n mem ws r = (case r of (p, mem', w) \<Rightarrow>
     p \<noteq> 0 \<and> length mem \<le> length mem' \<and> length mem' < 2 ^ 32 \<and> unat p + n \<le> length mem' \<and>
     (\<forall>a \<in> set ws. apart (unat p, n) (a, 4) \<and> buf_read mem' a 4 = buf_read mem a 4))"

lemma malloc_lift:
  assumes "malloc_gives n mem ws (p, mem', w)"
  shows "ngx_wavm_memory_lift mem' p (of_nat n) 1 = Some (Some (unat p))" and "p \<noteq> 0" and "unat (of_nat n :: u32) = n"
proof -
  from assms have p: "p \<noteq> 0" "length mem' < 2 ^ 32" "unat p + n \<le> length mem'" by (simp_all add: malloc_gives_def)
  then show "p \<noteq> 0" by simp
  show n: "unat (of_nat n :: u32) = n" using p by (intro unat_of_nat_u32) simp
  have "unat p + unat (of_nat n :: u32) < 2 ^ LENGTH(32)" using p n by simp
  then have sum: "unat (p + of_nat n) = unat p + n" "p \<le> p + of_nat n"
    using unat_add_lem [of p "of_nat n"] no_olen_add_nat [of p "of_nat n"] n by simp_all
  with p show "ngx_wavm_memory_lift mem' p (of_nat n) 1 = Some (Some (unat p))"
    by (auto simp: ngx_wavm_memory_lift_def)
qed

end
