(* ===== verification/Host_Shared.thy ===== *)
theory Host_Shared
  imports Shm_Queue Shm_Kv_Store Guest_Memory
begin

text \<open>
  The host functions through which a guest uses the shared memory
  (src/src/common/proxy_wasm/ngx_proxy_wasm_host.c): shared data and shared queues, with the
  zones they are found in (src/src/common/shm/ngx_wa_shm.c). Arguments are 32-bit words; pointers into the linear memory
  of the guest are checked before they are used.

  The code keeps lengths as \<open>size_t\<close> values to which the sign of the argument is extended, and checks the slice with the lower
  32 bits. A length of at least \<open>2 ^ 31\<close> passes that check only in a linear memory of more than 2 GiB; for the memories below that size
  the length of every slice that is used is the unsigned one, as here.

  What other workers do to a zone after its lock was released is a parameter (\<open>others\<close>), and so is the memory allocator of the guest.
\<close>

section \<open>Zones\<close>

datatype 'p zone = Kv_zone "('p, bytes) kv_shm" | Queue_zone shm_queue | Metrics_zone

record ('p, 'g) host =
  h_zones :: "(bytes \<times> 'p zone) list option"
  h_mem :: bytes
  h_world :: 'g

fun ngx_wa_shm_lookup_index :: "bytes \<Rightarrow> (bytes \<times> 'p zone) list \<Rightarrow> nat option" where
  "ngx_wa_shm_lookup_index name [] = None"
| "ngx_wa_shm_lookup_index name ((n, z) # zs) =
     (if n = name then Some 0 else map_option Suc (ngx_wa_shm_lookup_index name zs))"

text \<open>
  A key is looked up in the zone that is named before its first slash, or in the zone with the name of a
  single star when there is no such zone. The key keeps its prefix.
\<close>

definition key_namespace :: "bytes \<Rightarrow> bytes" where
  "key_namespace key = (if 47 \<in> set key then takeWhile (\<lambda>b. b \<noteq> 47) key else [])"

definition ngx_wa_shm_kv_resolve_key ::
  "(bytes \<times> 'p zone) list option \<Rightarrow> bytes \<Rightarrow> ngx_rc \<times> (nat \<times> ('p, bytes) kv_shm) option" where
  "ngx_wa_shm_kv_resolve_key zones key =
     (case zones of
        None \<Rightarrow> (NGX_DECLINED, None)
      | Some zs \<Rightarrow>
          let ns = key_namespace key;
              found = (if ns = [] then None else ngx_wa_shm_lookup_index ns zs);
              idx = (case found of None \<Rightarrow> ngx_wa_shm_lookup_index [42] zs | Some i \<Rightarrow> Some i) in
          (case idx of
             None \<Rightarrow> (NGX_DECLINED, None)
           | Some i \<Rightarrow> (case snd (zs ! i) of Kv_zone kv \<Rightarrow> (NGX_OK, Some (i, kv)) | _ \<Rightarrow> (NGX_ABORT, None))))"

definition ngx_wa_shm_queue_resolve :: "(bytes \<times> 'p zone) list option \<Rightarrow> u32 \<Rightarrow> ngx_rc \<times> (nat \<times> shm_queue) option" where
  "ngx_wa_shm_queue_resolve zones token =
     (case zones of
        None \<Rightarrow> (NGX_DECLINED, None)
      | Some zs \<Rightarrow>
          if unat token \<ge> length zs then (NGX_DECLINED, None)
          else (case snd (zs ! unat token) of Queue_zone q \<Rightarrow> (NGX_OK, Some (unat token, q)) | _ \<Rightarrow> (NGX_ABORT, None)))"

definition put_zone :: "nat \<Rightarrow> 'p zone \<Rightarrow> ('p, 'g) host \<Rightarrow> ('p, 'g) host" where
  "put_zone i z st = st\<lparr>h_zones := map_option (\<lambda>zs. zs[i := (fst (zs ! i), z)]) (h_zones st)\<rparr>"

section \<open>Shared data\<close>

text \<open>Returning a value: it is copied to memory that the guest allocates, and the pointer and size are written.\<close>

definition return_shared_value ::
  "'g hguest \<Rightarrow> bytes kv_node \<Rightarrow> nat \<Rightarrow> nat \<Rightarrow> ('p, 'g) host \<Rightarrow> (hfunc_ret \<times> ('p, 'g) host) option" where
  "return_shared_value G nd vd vs st =
     (let len = nd_value_len nd; (p, mem1, w) = h_malloc G len (h_mem st) (h_world st);
          st1 = st\<lparr>h_mem := mem1, h_world := w\<rparr> in
      if p = 0 then Some (Wavm_error, st1)
      else (case ngx_wavm_memory_lift mem1 p (of_nat len) 1 of
         None \<Rightarrow> Some (Bad_usage, st1)
       | Some dst \<Rightarrow> do {
           mem2 \<leftarrow> (case dst of None \<Rightarrow> Some mem1 | Some off \<Rightarrow> buf_write mem1 off (nd_value nd));
           mem3 \<leftarrow> buf_write mem2 vd (le32 p);
           mem4 \<leftarrow> buf_write mem3 vs (le32 (of_nat len));
           Some (Result RESULT_OK, st1\<lparr>h_mem := mem4\<rparr>) }))"

text \<open>
  The value is copied after the lock was released, through the pointer to the node that the lookup
  returned.
\<close>

definition get_shared_value ::
  "'p nginx_env \<Rightarrow> 'g hguest \<Rightarrow> ((bytes \<times> 'p zone) list \<Rightarrow> (bytes \<times> 'p zone) list) \<Rightarrow> nat \<Rightarrow> ('p, bytes) kv_shm \<Rightarrow> bytes \<Rightarrow>
    nat \<Rightarrow> nat \<Rightarrow> nat \<Rightarrow> ('p, 'g) host \<Rightarrow> (hfunc_ret \<times> ('p, 'g) host) option" where
  "get_shared_value env G others i kv key vd vs cp st = do {
     (rc, n, kv1) \<leftarrow> ngx_wa_shm_kv_get_locked env kv key None;
     let st1 = put_zone i (Kv_zone kv1) st;
     if rc = NGX_DECLINED then Some (Result RESULT_NOT_FOUND, st1)
     else do {
       (a, nd) \<leftarrow> n;
       mem1 \<leftarrow> buf_write (h_mem st1) cp (le32 (nd_cas nd));
       zs \<leftarrow> map_option others (h_zones st1);
       kv2 \<leftarrow> (case snd (zs ! i) of Kv_zone kv \<Rightarrow> Some kv | _ \<Rightarrow> None);
       nd2 \<leftarrow> kv_heap kv2 a;
       return_shared_value G nd2 vd vs (st1\<lparr>h_zones := Some zs, h_mem := mem1\<rparr>) } }"

definition ngx_proxy_wasm_hfuncs_get_shared_data ::
  "'p nginx_env \<Rightarrow> 'g hguest \<Rightarrow> ((bytes \<times> 'p zone) list \<Rightarrow> (bytes \<times> 'p zone) list) \<Rightarrow> u32 \<Rightarrow> u32 \<Rightarrow> u32 \<Rightarrow> u32 \<Rightarrow> u32 \<Rightarrow>
    ('p, 'g) host \<Rightarrow> (hfunc_ret \<times> ('p, 'g) host) option" where
  "ngx_proxy_wasm_hfuncs_get_shared_data env G others key_ptr key_len value_ptr size_ptr cas_ptr st =
     (case (ngx_wavm_memory_lift (h_mem st) key_ptr key_len 1, lift_u32 (h_mem st) value_ptr, lift_u32 (h_mem st) size_ptr,
            lift_u32 (h_mem st) cas_ptr) of
        (Some kp, Some vd, Some vs, Some cp) \<Rightarrow>
          let key = read_slice (h_mem st) kp key_len in
          (case ngx_wa_shm_kv_resolve_key (h_zones st) key of
             (NGX_OK, Some (i, kv)) \<Rightarrow> get_shared_value env G others i kv key vd vs cp st
           | _ \<Rightarrow> Some (Bad_usage, st))
      | _ \<Rightarrow> Some (Bad_usage, st))"

text \<open>A NULL pointer to the value deletes the entry.\<close>

definition ngx_proxy_wasm_hfuncs_set_shared_data ::
  "'p nginx_env \<Rightarrow> u32 \<Rightarrow> u32 \<Rightarrow> u32 \<Rightarrow> u32 \<Rightarrow> u32 \<Rightarrow> ('p, 'g) host \<Rightarrow> (hfunc_ret \<times> ('p, 'g) host) option" where
  "ngx_proxy_wasm_hfuncs_set_shared_data env key_ptr key_len value_ptr value_len cas st =
     (case (ngx_wavm_memory_lift (h_mem st) key_ptr key_len 1, ngx_wavm_memory_lift (h_mem st) value_ptr value_len 1) of
        (Some kp, Some vp) \<Rightarrow>
          let key = read_slice (h_mem st) kp key_len;
              val = (case vp of None \<Rightarrow> None | Some _ \<Rightarrow> Some (unat value_len, read_slice (h_mem st) vp value_len)) in
          (case ngx_wa_shm_kv_resolve_key (h_zones st) key of
             (NGX_OK, Some (i, kv)) \<Rightarrow> do {
               (rc, written, kv1) \<leftarrow> ngx_wa_shm_kv_set_locked env kv key val cas;
               let st1 = put_zone i (Kv_zone kv1) st;
               Some (if rc = NGX_ERROR then Wavm_error
                     else if written \<noteq> Some True then Result RESULT_CAS_MISMATCH else Result RESULT_OK, st1) }
           | _ \<Rightarrow> Some (Bad_usage, st))
      | _ \<Rightarrow> Some (Bad_usage, st))"

section \<open>Shared queues\<close>

text \<open>Registering looks the zone up without a check whether there are any: \<open>None\<close> is a NULL array.\<close>

definition ngx_proxy_wasm_hfuncs_register_shared_queue ::
  "u32 \<Rightarrow> u32 \<Rightarrow> u32 \<Rightarrow> ('p, 'g) host \<Rightarrow> (hfunc_ret \<times> ('p, 'g) host) option" where
  "ngx_proxy_wasm_hfuncs_register_shared_queue name_ptr name_len token_ptr st =
     (case (ngx_wavm_memory_lift (h_mem st) name_ptr name_len 1, lift_u32 (h_mem st) token_ptr) of
        (Some np, Some tp) \<Rightarrow> do {
          zs \<leftarrow> h_zones st;
          (case ngx_wa_shm_lookup_index (read_slice (h_mem st) np name_len) zs of
             None \<Rightarrow> Some (Bad_usage, st)
           | Some i \<Rightarrow>
               (case snd (zs ! i) of
                  Queue_zone q \<Rightarrow> do {
                    mem1 \<leftarrow> buf_write (h_mem st) tp (le32 (of_nat i));
                    Some (Result RESULT_OK, st\<lparr>h_mem := mem1\<rparr>) }
                | _ \<Rightarrow> Some (Bad_usage, st))) }
      | _ \<Rightarrow> Some (Bad_usage, st))"

definition ngx_proxy_wasm_hfuncs_enqueue_shared_queue ::
  "bool \<Rightarrow> u32 \<Rightarrow> u32 \<Rightarrow> u32 \<Rightarrow> ('p, 'g) host \<Rightarrow> (hfunc_ret \<times> ('p, 'g) host) option" where
  "ngx_proxy_wasm_hfuncs_enqueue_shared_queue dbg token data_ptr data_len st =
     (case ngx_wavm_memory_lift (h_mem st) data_ptr data_len 1 of
        None \<Rightarrow> Some (Bad_usage, st)
      | Some dp \<Rightarrow>
          (case ngx_wa_shm_queue_resolve (h_zones st) token of
             (NGX_OK, Some (i, q)) \<Rightarrow> do {
               (rc, q1) \<leftarrow> ngx_wa_shm_queue_push_locked dbg q (read_slice (h_mem st) dp data_len);
               Some (if rc = NGX_ABORT then Wavm_error else Result RESULT_OK, put_zone i (Queue_zone q1) st) }
           | _ \<Rightarrow> Some (Bad_usage, st)))"

text \<open>
  \<open>shared_queue_alloc\<close> is called by the pop with the length it has read, if that is not 0. \<open>next_len\<close> is that
  length.
\<close>

definition next_len :: "bool \<Rightarrow> shm_queue \<Rightarrow> nat option" where
  "next_len dbg q = (if queue_occupancy q < 4 then Some 0 else map_option (\<lambda>hdr. unat (from_le32 hdr)) (circular_read dbg q (pop_ptr q) True 4))"

definition shared_queue_alloc :: "'g hguest \<Rightarrow> nat \<Rightarrow> ('p, 'g) host \<Rightarrow> nat option \<times> ('p, 'g) host" where
  "shared_queue_alloc G n st =
     (let (p, mem, w) = h_malloc G n (h_mem st) (h_world st); st1 = st\<lparr>h_mem := mem, h_world := w\<rparr> in
      (if p = 0 then None else case ngx_wavm_memory_lift mem p (of_nat n) 1 of Some (Some off) \<Rightarrow> Some off | _ \<Rightarrow> None, st1))"

definition dequeue_value ::
  "bool \<Rightarrow> 'g hguest \<Rightarrow> nat \<Rightarrow> shm_queue \<Rightarrow> nat \<Rightarrow> nat \<Rightarrow> ('p, 'g) host \<Rightarrow> (hfunc_ret \<times> ('p, 'g) host) option" where
  "dequeue_value dbg G i q dp sp st = do {
     n \<leftarrow> next_len dbg q;
     let (dst, st1) = (if n = 0 then (None, st) else shared_queue_alloc G n st);
     (rc, msg, q1) \<leftarrow> ngx_wa_shm_queue_pop_locked dbg (\<lambda>_. dst \<noteq> None) q;
     let st2 = put_zone i (Queue_zone q1) st1;
     if rc = NGX_ERROR then Some (Result RESULT_INTERNAL_FAILURE, st2)
     else if rc = NGX_AGAIN then Some (Result RESULT_EMPTY, st2)
     else do {
       bs \<leftarrow> msg;
       mem1 \<leftarrow> (case dst of None \<Rightarrow> Some (h_mem st2) | Some off \<Rightarrow> buf_write (h_mem st2) off bs);
       mem2 \<leftarrow> buf_write mem1 dp (le32 (case dst of None \<Rightarrow> 0 | Some off \<Rightarrow> of_nat off));
       mem3 \<leftarrow> buf_write mem2 sp (le32 (of_nat (length bs)));
       Some (Result RESULT_OK, st2\<lparr>h_mem := mem3\<rparr>) } }"

definition ngx_proxy_wasm_hfuncs_dequeue_shared_queue ::
  "bool \<Rightarrow> 'g hguest \<Rightarrow> u32 \<Rightarrow> u32 \<Rightarrow> u32 \<Rightarrow> ('p, 'g) host \<Rightarrow> (hfunc_ret \<times> ('p, 'g) host) option" where
  "ngx_proxy_wasm_hfuncs_dequeue_shared_queue dbg G token data_ptr size_ptr st =
     (case (lift_u32 (h_mem st) data_ptr, lift_u32 (h_mem st) size_ptr) of
        (Some dp, Some sp) \<Rightarrow>
          (case ngx_wa_shm_queue_resolve (h_zones st) token of
             (NGX_OK, Some (i, q)) \<Rightarrow> dequeue_value dbg G i q dp sp st
           | _ \<Rightarrow> Some (Bad_usage, st))
      | _ \<Rightarrow> Some (Bad_usage, st))"

end
