(* ===== verification/Host_Shared_Props.thy ===== *)
theory Host_Shared_Props
  imports Host_Shared
begin

text \<open>
  Properties of the host functions for shared data and shared queues: what a guest writes is what a guest reads,
  through the zones, and where the copy after the unlock reads released memory.
\<close>

section \<open>Zones\<close>

lemma lookup_index_Some:
  "ngx_wa_shm_lookup_index name zs = Some i \<Longrightarrow> i < length zs \<and> fst (zs ! i) = name \<and> (\<forall>j < i. fst (zs ! j) \<noteq> name)"
proof (induction name zs arbitrary: i rule: ngx_wa_shm_lookup_index.induct)
  case (2 name n z zs)
  then show ?case by (auto simp: nth_Cons split: if_splits nat.splits)
qed simp

lemma lookup_index_None: "ngx_wa_shm_lookup_index name zs = None \<longleftrightarrow> name \<notin> fst ` set zs"
  by (induction name zs rule: ngx_wa_shm_lookup_index.induct) auto

lemma lookup_index_cong: "map fst zs' = map fst zs \<Longrightarrow> ngx_wa_shm_lookup_index name zs' = ngx_wa_shm_lookup_index name zs"
proof (induction zs arbitrary: zs')
  case (Cons z zs)
  then obtain z' zs1 where z': "zs' = z' # zs1" "fst z' = fst z" "map fst zs1 = map fst zs" by (cases zs') auto
  with Cons.IH [OF z'(3)] show ?case by (cases z; cases z') simp
qed simp

lemma map_fst_put [simp]: "map fst (zs[i := (fst (zs ! i), z)]) = map fst zs"
  by (cases "i < length zs") (simp_all add: map_update list_update_same_conv list_update_beyond)

lemma resolve_key_OK:
  assumes "ngx_wa_shm_kv_resolve_key (h_zones st) key = (NGX_OK, Some (i, kv))"
  obtains zs where "h_zones st = Some zs" "i < length zs" "snd (zs ! i) = Kv_zone kv"
  using assms
  by (auto simp: ngx_wa_shm_kv_resolve_key_def Let_def dest: lookup_index_Some
      split: option.splits zone.splits if_splits)

text \<open>Updating the zone that a key resolves to does not change what keys resolve to.\<close>

lemma resolve_key_put:
  assumes "ngx_wa_shm_kv_resolve_key (h_zones st) key = (NGX_OK, Some (i, kv))"
  shows "ngx_wa_shm_kv_resolve_key (h_zones (put_zone i (Kv_zone kv') st)) key = (NGX_OK, Some (i, kv'))"
proof -
  obtain zs where zs: "h_zones st = Some zs" "i < length zs" "snd (zs ! i) = Kv_zone kv"
    using assms by (rule resolve_key_OK)
  have "ngx_wa_shm_lookup_index name (zs[i := (fst (zs ! i), Kv_zone kv')]) = ngx_wa_shm_lookup_index name zs" for name
    by (rule lookup_index_cong) simp
  with assms zs show ?thesis
    by (auto simp: ngx_wa_shm_kv_resolve_key_def put_zone_def Let_def dest: lookup_index_Some
        split: option.splits zone.splits if_splits)
qed

lemma put_zone_fields [simp]:
  "h_mem (put_zone i z st) = h_mem st" "h_world (put_zone i z st) = h_world st"
  by (simp_all add: put_zone_def)

lemma put_zone_zones: "h_zones st = Some zs \<Longrightarrow> h_zones (put_zone i z st) = Some (zs[i := (fst (zs ! i), z)])"
  by (simp add: put_zone_def)

section \<open>Shared data\<close>

text \<open>A guest call with accepted pointers: the offsets of the key and of the three words of the caller.\<close>

definition get_args :: "bytes \<Rightarrow> u32 \<Rightarrow> u32 \<Rightarrow> u32 \<Rightarrow> u32 \<Rightarrow> u32 \<Rightarrow> nat option \<Rightarrow> nat \<Rightarrow> nat \<Rightarrow> nat \<Rightarrow> bool" where
  "get_args mem key_ptr key_len value_ptr size_ptr cas_ptr kp vd vs cp \<longleftrightarrow>
     ngx_wavm_memory_lift mem key_ptr key_len 1 = Some kp \<and> lift_u32 mem value_ptr = Some vd \<and>
     lift_u32 mem size_ptr = Some vs \<and> lift_u32 mem cas_ptr = Some cp"

lemma get_shared_data_resolved:
  assumes "get_args (h_mem st) key_ptr key_len value_ptr size_ptr cas_ptr kp vd vs cp"
    and "ngx_wa_shm_kv_resolve_key (h_zones st) (read_slice (h_mem st) kp key_len) = (NGX_OK, Some (i, kv))"
  shows "ngx_proxy_wasm_hfuncs_get_shared_data env G others key_ptr key_len value_ptr size_ptr cas_ptr st =
    get_shared_value env G others i kv (read_slice (h_mem st) kp key_len) vd vs cp st"
  using assms by (simp add: ngx_proxy_wasm_hfuncs_get_shared_data_def get_args_def)

text \<open>Another worker deletes a key of zone \<open>i\<close>, with the counter it has read.\<close>

definition other_delete :: "'p nginx_env \<Rightarrow> nat \<Rightarrow> bytes \<Rightarrow> u32 \<Rightarrow> (bytes \<times> 'p zone) list \<Rightarrow> (bytes \<times> 'p zone) list" where
  "other_delete env i key cas zs =
     (case snd (zs ! i) of
        Kv_zone kv \<Rightarrow> (case ngx_wa_shm_kv_set_locked env kv key None cas of
            Some (rc, w, kv') \<Rightarrow> zs[i := (fst (zs ! i), Kv_zone kv')] | None \<Rightarrow> zs)
      | _ \<Rightarrow> zs)"

lemma kv_delete_releases:
  assumes laws: "nginx_laws env live" and inv: "kv_inv env live kv" and h: "h = crc32 env key"
    and n: "kv_map kv h = Some nd" and e: "(h, a) \<in> rb_entries (kv_rbtree kv)"
  shows "\<exists>kv'. ngx_wa_shm_kv_set_locked env kv key None (nd_cas nd) = Some (NGX_OK, Some True, kv') \<and> kv_heap kv' a = None"
proof -
  from inv have core: "kv_core env live kv" by (simp add: kv_inv_def)
  have c: "nd_cas nd = kv_cas kv h" using n by (simp add: kv_cas_def)
  show ?thesis
  proof (cases rule: kv_set_cases [where cas = "nd_cas nd", OF inv h])
    case (3 b m)
    have "b = a" using rb_entries_fun [OF kv_coreD(1) [OF core]] 3(3) e by blast
    with 3(5) show ?thesis by (simp add: kv_unlink_def Let_def)
  qed (use n c in simp_all)
qed

lemma get_value_race:
  assumes laws: "nginx_laws env live" and zs: "h_zones st = Some zs" "i < length zs"
    and inv: "kv_inv env live kv" and n: "kv_map kv (crc32 env key) = Some nd"
  shows "get_shared_value env G (other_delete env i key (nd_cas nd)) i kv key vd vs cp st = None"
proof -
  from kv_get_spec [OF inv refl, of key None] n obtain kv1 a where
    kv1: "kv_inv env live kv1" "kv_map kv1 = kv_map kv" "same_but_queues kv kv1"
    and get: "ngx_wa_shm_kv_get_locked env kv key None = Some (NGX_OK, Some (a, nd), kv1)"
    and e: "(crc32 env key, a) \<in> rb_entries (kv_rbtree kv)" by auto
  from kv_delete_releases [OF laws kv1(1) refl, of key nd a] n kv1(2) e same_but_queuesD(1) [OF kv1(3)]
  obtain kv2 where kv2: "ngx_wa_shm_kv_set_locked env kv1 key None (nd_cas nd) = Some (NGX_OK, Some True, kv2)"
    "kv_heap kv2 a = None" by auto
  show ?thesis
    using kv2 zs by (simp add: get_shared_value_def get put_zone_zones other_delete_def Option.bind_eq_None_conv
        split: option.splits)
qed

lemma get_value_present:
  assumes zs: "h_zones st = Some zs" "i < length zs"
    and inv: "kv_inv env live kv" and n: "kv_map kv (crc32 env key) = Some nd" "length (nd_value nd) = nd_value_len nd"
    and slots: "vd + 4 \<le> length (h_mem st)" "vs + 4 \<le> length (h_mem st)" "cp + 4 \<le> length (h_mem st)"
    and sep: "apart (vd, 4) (vs, 4)" "apart (vd, 4) (cp, 4)" "apart (vs, 4) (cp, 4)"
    and malloc: "\<And>mem. length mem = length (h_mem st) \<Longrightarrow>
      malloc_gives (nd_value_len nd) mem [vd, vs, cp] (h_malloc G (nd_value_len nd) mem (h_world st))"
  shows "\<exists>st' p. get_shared_value env G (\<lambda>zs. zs) i kv key vd vs cp st = Some (Result RESULT_OK, st') \<and>
    buf_read (h_mem st') vd 4 = Some (le32 p) \<and> buf_read (h_mem st') vs 4 = Some (le32 (of_nat (nd_value_len nd))) \<and>
    buf_read (h_mem st') cp 4 = Some (le32 (nd_cas nd)) \<and>
    buf_read (h_mem st') (unat p) (nd_value_len nd) = Some (nd_value nd)"
proof -
  let ?len = "nd_value_len nd"
  from kv_get_spec [OF inv refl, of key None] n(1) obtain kv1 a where kv1: "kv_heap kv1 = kv_heap kv"
    and get: "ngx_wa_shm_kv_get_locked env kv key None = Some (NGX_OK, Some (a, nd), kv1)"
    and nd: "kv_heap kv a = Some nd" by auto
  obtain mem1 where m1: "buf_write (h_mem st) cp (le32 (nd_cas nd)) = Some mem1"
    using slots buf_write_ok [of cp "le32 (nd_cas nd)"] by auto
  obtain p mem2 w where alloc: "h_malloc G ?len mem1 (h_world st) = (p, mem2, w)" by (metis prod_cases3)
  with malloc [OF length_buf_write [OF m1]] have gives: "malloc_gives ?len mem1 [vd, vs, cp] (p, mem2, w)" by simp
  then have ap: "apart (unat p, ?len) (vd, 4)" "apart (unat p, ?len) (vs, 4)" "apart (unat p, ?len) (cp, 4)"
    and same: "buf_read mem2 cp 4 = buf_read mem1 cp 4"
    and len: "length mem1 \<le> length mem2" "unat p + ?len \<le> length mem2" by (simp_all add: malloc_gives_def)
  note lift = malloc_lift [OF gives]
  obtain mem3 where m3: "buf_write mem2 (unat p) (nd_value nd) = Some mem3"
    using len n(2) buf_write_ok [of "unat p" "nd_value nd" mem2] by auto
  obtain mem4 where m4: "buf_write mem3 vd (le32 p) = Some mem4"
    using slots len length_buf_write [OF m1] length_buf_write [OF m3] buf_write_ok [of vd "le32 p" mem3] by auto
  obtain mem5 where m5: "buf_write mem4 vs (le32 (of_nat ?len)) = Some mem5"
    using slots len length_buf_write [OF m1] length_buf_write [OF m3] length_buf_write [OF m4]
      buf_write_ok [of vs "le32 (of_nat ?len)" mem4] by auto
  define st' where "st' = (put_zone i (Kv_zone kv1) st)\<lparr>h_mem := mem5, h_world := w\<rparr>"
  have "h_mem st' = mem5" by (simp add: st'_def)
  moreover have "get_shared_value env G (\<lambda>zs. zs) i kv key vd vs cp st = Some (Result RESULT_OK, st')"
    using zs nd kv1 m1 alloc lift m3 m4 m5
    by (simp add: get_shared_value_def return_shared_value_def get put_zone_zones st'_def)
  moreover have sym: "apart r s = apart s r" for r s by (auto simp: apart_def)
  have "buf_read mem5 vd 4 = Some (le32 p)"
    using buf_read_kept [OF m5, of vd 4] buf_read_written [OF m4] sep sym by simp
  moreover have "buf_read mem5 vs 4 = Some (le32 (of_nat ?len))" using buf_read_written [OF m5] by simp
  moreover have "buf_read mem5 cp 4 = Some (le32 (nd_cas nd))"
    using buf_read_kept [OF m5, of cp 4] buf_read_kept [OF m4, of cp 4] buf_read_kept [OF m3, of cp 4] same
      buf_read_written [OF m1] sep ap n(2) by simp
  moreover have "buf_read mem5 (unat p) ?len = Some (nd_value nd)"
    using buf_read_kept [OF m5, of "unat p" ?len] buf_read_kept [OF m4, of "unat p" ?len] buf_read_written [OF m3]
      ap n(2) sym by simp
  ultimately show ?thesis by blast
qed

text \<open>
  The invariant of the zones: the stores are well formed, their values have the length that is recorded for them, and
  every queue holds a sequence of messages.
\<close>

definition values_ok :: "('p, bytes) kv_shm \<Rightarrow> bool" where
  "values_ok kv \<longleftrightarrow> (\<forall>h n. kv_map kv h = Some n \<longrightarrow> length (nd_value n) = nd_value_len n)"

definition zone_ok :: "'p nginx_env \<Rightarrow> ('p \<Rightarrow> addr set) \<Rightarrow> 'p zone \<Rightarrow> bool" where
  "zone_ok env live z = (case z of
     Kv_zone kv \<Rightarrow> kv_inv env live kv \<and> values_ok kv
   | Queue_zone q \<Rightarrow> (\<exists>ms. queue_rel q ms \<and> (\<forall>m \<in> set ms. msg_ok m))
   | Metrics_zone \<Rightarrow> True)"

definition host_inv :: "'p nginx_env \<Rightarrow> ('p \<Rightarrow> addr set) \<Rightarrow> ('p, 'g) host \<Rightarrow> bool" where
  "host_inv env live st \<longleftrightarrow> (\<forall>zs z. h_zones st = Some zs \<longrightarrow> z \<in> snd ` set zs \<longrightarrow> zone_ok env live z)"

lemma host_inv_zone: "host_inv env live st \<Longrightarrow> h_zones st = Some zs \<Longrightarrow> i < length zs \<Longrightarrow> zone_ok env live (snd (zs ! i))"
  by (simp add: host_inv_def)

lemma host_inv_put: "host_inv env live st \<Longrightarrow> zone_ok env live z \<Longrightarrow> host_inv env live (put_zone i z st)"
  by (auto simp: host_inv_def put_zone_def dest!: subsetD [OF set_update_subset_insert])

lemma host_inv_kv:
  assumes "host_inv env live st" and "ngx_wa_shm_kv_resolve_key (h_zones st) key = (NGX_OK, Some (i, kv))"
  shows "kv_inv env live kv" and "values_ok kv"
proof -
  obtain zs where "h_zones st = Some zs" "i < length zs" "snd (zs ! i) = Kv_zone kv"
    using assms(2) by (rule resolve_key_OK)
  with host_inv_zone [OF assms(1)] show "kv_inv env live kv" "values_ok kv" by (fastforce simp: zone_ok_def)+
qed

lemma set_shared_data_OK:
  assumes "nginx_laws env live" and "host_inv env live st" and "value_ptr \<noteq> 0"
    and "ngx_proxy_wasm_hfuncs_set_shared_data env key_ptr key_len value_ptr value_len cas st = Some (Result RESULT_OK, st1)"
  shows "\<exists>kp i kv kv1. ngx_wavm_memory_lift (h_mem st) key_ptr key_len 1 = Some kp \<and>
    ngx_wavm_memory_lift (h_mem st) value_ptr value_len 1 = Some (Some (unat value_ptr)) \<and>
    ngx_wa_shm_kv_resolve_key (h_zones st) (read_slice (h_mem st) kp key_len) = (NGX_OK, Some (i, kv)) \<and>
    ngx_wa_shm_kv_set_locked env kv (read_slice (h_mem st) kp key_len)
      (Some (unat value_len, read_slice (h_mem st) (Some (unat value_ptr)) value_len)) cas = Some (NGX_OK, Some True, kv1) \<and>
    st1 = put_zone i (Kv_zone kv1) st"
proof -
  have vp: "vo = Some (unat value_ptr)" if "ngx_wavm_memory_lift (h_mem st) value_ptr value_len 1 = Some vo" for vo
    using that assms(3) by (auto simp: ngx_wavm_memory_lift_def split: if_splits)
  from assms(4) obtain kp vo i kv rc kv1 where lift: "ngx_wavm_memory_lift (h_mem st) key_ptr key_len 1 = Some kp"
      "ngx_wavm_memory_lift (h_mem st) value_ptr value_len 1 = Some vo"
    and res: "ngx_wa_shm_kv_resolve_key (h_zones st) (read_slice (h_mem st) kp key_len) = (NGX_OK, Some (i, kv))"
    and set: "ngx_wa_shm_kv_set_locked env kv (read_slice (h_mem st) kp key_len)
        (case vo of None \<Rightarrow> None | Some _ \<Rightarrow> Some (unat value_len, read_slice (h_mem st) vo value_len)) cas = Some (rc, Some True, kv1)"
    and st1: "st1 = put_zone i (Kv_zone kv1) st" "rc \<noteq> NGX_ERROR"
    by (auto simp: ngx_proxy_wasm_hfuncs_set_shared_data_def Let_def bind_eq_Some_conv
        split: option.splits prod.splits ngx_rc.splits if_splits)
  note set' = set [unfolded vp [OF lift(2)] option.case]
  have "rc = NGX_OK"
    using kv_set_value_spec [OF assms(1) host_inv_kv(1) [OF assms(2) res] refl set'] st1(2) by (auto split: if_splits)
  with set' vp [OF lift(2)] lift res st1 show ?thesis by blast
qed

lemma set_values_ok:
  assumes "nginx_laws env live" and "kv_inv env live s" and vals: "values_ok s"
    and "ngx_wa_shm_kv_set_locked env s key (Some (length v, v)) cas = Some (rc, written, s')"
  shows "kv_inv env live s' \<and> values_ok s'"
proof -
  note eff = kv_set_value_spec [OF assms(1,2) refl assms(4)]
  have "length (nd_value m) = nd_value_len m" if "kv_map s' g = Some m" for g m
  proof (cases "cas = kv_cas s (crc32 env key)")
    case True
    with eff that vals show ?thesis
      by (cases "g = crc32 env key") (auto simp: values_ok_def split: if_splits)
  next
    case False
    with eff that vals show ?thesis by (simp add: values_ok_def)
  qed
  with eff show ?thesis by (simp add: values_ok_def)
qed

lemma delete_values_ok:
  assumes laws: "nginx_laws env live" and inv: "kv_inv env live s" and vals: "values_ok s"
  shows "\<exists>w s'. ngx_wa_shm_kv_set_locked env s key None cas = Some (NGX_OK, Some w, s') \<and> kv_inv env live s' \<and> values_ok s'"
proof (cases rule: kv_set_cases [where key = key and cas = cas, OF inv refl])
  case (3 a n)
  note d = kv_delete_spec [OF laws inv 3(3)]
  define s1 where "s1 = (kv_unlink env s a)\<lparr>nelts := nelts (kv_unlink env s a) - 1\<rparr>"
  from d have "kv_inv env live s1" "kv_map s1 = (kv_map s)(crc32 env key := None)" by (simp_all add: s1_def)
  with vals 3(5) show ?thesis by (auto simp: s1_def values_ok_def)
qed (use inv vals in auto)

section \<open>Shared queues\<close>

lemma queue_resolve_OK:
  assumes "ngx_wa_shm_queue_resolve (h_zones st) token = (NGX_OK, Some (i, q))"
  obtains zs where "h_zones st = Some zs" "i = unat token" "i < length zs" "snd (zs ! i) = Queue_zone q"
  using assms by (auto simp: ngx_wa_shm_queue_resolve_def split: option.splits zone.splits if_splits)

lemma queue_resolve_put:
  assumes "ngx_wa_shm_queue_resolve (h_zones st) token = (NGX_OK, Some (i, q))"
    and "h_zones st' = h_zones (put_zone i (Queue_zone q') st)"
  shows "ngx_wa_shm_queue_resolve (h_zones st') token = (NGX_OK, Some (i, q'))"
proof -
  obtain zs where "h_zones st = Some zs" "i = unat token" "i < length zs" "snd (zs ! i) = Queue_zone q"
    using assms(1) by (rule queue_resolve_OK)
  with assms(2) show ?thesis by (simp add: put_zone_zones ngx_wa_shm_queue_resolve_def)
qed

lemma next_len_head:
  assumes "queue_rel q (m # ms)" and "msg_ok m"
  shows "next_len dbg q = Some (length m)"
  using queue_rel_Cons(1) [OF assms(1)] queue_pop_header [OF assms(1), of dbg] frame_of_nat [OF assms(2)]
  by (simp add: next_len_def)

lemma next_len_empty: "queue_rel q [] \<Longrightarrow> next_len dbg q = Some 0"
  by (auto simp: queue_rel_def next_len_def dest!: arg_cong [of _ _ length])

lemma dequeue_delivers:
  assumes q: "ngx_wa_shm_queue_resolve (h_zones st) token = (NGX_OK, Some (i, q))" "queue_rel q (m # ms)"
    and m: "msg_ok m" "m \<noteq> []"
    and slots: "lift_u32 (h_mem st) data_ptr = Some dp" "lift_u32 (h_mem st) size_ptr = Some sp" "apart (dp, 4) (sp, 4)"
    and gives: "malloc_gives (length m) (h_mem st) [dp, sp] (h_malloc G (length m) (h_mem st) (h_world st))"
  shows "\<exists>st' p q'. ngx_proxy_wasm_hfuncs_dequeue_shared_queue dbg G token data_ptr size_ptr st = Some (Result RESULT_OK, st') \<and>
    buf_read (h_mem st') dp 4 = Some (le32 p) \<and> buf_read (h_mem st') sp 4 = Some (le32 (of_nat (length m))) \<and>
    buf_read (h_mem st') (unat p) (length m) = Some m \<and>
    h_zones st' = h_zones (put_zone i (Queue_zone q') st) \<and> queue_rel q' ms"
proof -
  obtain p mem2 w where alloc: "h_malloc G (length m) (h_mem st) (h_world st) = (p, mem2, w)" by (metis prod_cases3)
  note gives = gives [unfolded alloc]
  then have ap: "apart (unat p, length m) (dp, 4)" "apart (unat p, length m) (sp, 4)"
    and len: "length (h_mem st) \<le> length mem2" "unat p + length m \<le> length mem2" by (simp_all add: malloc_gives_def)
  note lift = malloc_lift [OF gives]
  define st1 where "st1 = st\<lparr>h_mem := mem2, h_world := w\<rparr>"
  have sa: "shared_queue_alloc G (length m) st = (Some (unat p), st1)"
    using lift by (simp add: shared_queue_alloc_def alloc st1_def)
  obtain q' where pop: "ngx_wa_shm_queue_pop_locked dbg (\<lambda>_. True) q = Some (NGX_OK, Some m, q')" and q': "queue_rel q' ms"
    using queue_pop_head [OF q(2) m(1), of "\<lambda>_. True" dbg] m(2) by auto
  obtain mem3 where m3: "buf_write mem2 (unat p) m = Some mem3" using len buf_write_ok [of "unat p" m mem2] by auto
  obtain mem4 where m4: "buf_write mem3 dp (le32 p) = Some mem4"
    using lift_u32_bounds [OF slots(1)] len length_buf_write [OF m3] buf_write_ok [of dp "le32 p" mem3] by auto
  obtain mem5 where m5: "buf_write mem4 sp (le32 (of_nat (length m))) = Some mem5"
    using lift_u32_bounds [OF slots(2)] len length_buf_write [OF m3] length_buf_write [OF m4]
      buf_write_ok [of sp "le32 (of_nat (length m))" mem4] by auto
  have res: "ngx_proxy_wasm_hfuncs_dequeue_shared_queue dbg G token data_ptr size_ptr st =
      Some (Result RESULT_OK, (put_zone i (Queue_zone q') st1)\<lparr>h_mem := mem5\<rparr>)"
    using q(1) slots m sa pop m3 m4 m5 next_len_head [OF q(2) m(1), of dbg]
    by (simp add: ngx_proxy_wasm_hfuncs_dequeue_shared_queue_def dequeue_value_def st1_def)
  have sym: "apart r s = apart s r" for r s by (auto simp: apart_def)
  have "buf_read mem5 dp 4 = Some (le32 p)"
    using buf_read_kept [OF m5, of dp 4] buf_read_written [OF m4] slots(3) sym by simp
  moreover have "buf_read mem5 sp 4 = Some (le32 (of_nat (length m)))" using buf_read_written [OF m5] by simp
  moreover have "buf_read mem5 (unat p) (length m) = Some m"
    using buf_read_kept [OF m5, of "unat p" "length m"] buf_read_kept [OF m4, of "unat p" "length m"]
      buf_read_written [OF m3] ap sym by simp
  moreover have "h_zones (put_zone i (Queue_zone q') st1) = h_zones (put_zone i (Queue_zone q') st)"
    by (simp add: put_zone_def st1_def)
  ultimately show ?thesis using res q' by (intro exI [of _ "(put_zone i (Queue_zone q') st1)\<lparr>h_mem := mem5\<rparr>"] exI) auto
qed

text \<open>An empty message: nothing is allocated, and a release build answers with a null pointer and the length 0.\<close>

lemma dequeue_empty_message:
  assumes q: "ngx_wa_shm_queue_resolve (h_zones st) token = (NGX_OK, Some (i, q))" "queue_rel q ([] # ms)"
    and slots: "lift_u32 (h_mem st) data_ptr = Some dp" "lift_u32 (h_mem st) size_ptr = Some sp" "apart (dp, 4) (sp, 4)"
  shows "ngx_proxy_wasm_hfuncs_dequeue_shared_queue True G token data_ptr size_ptr st = None"
    and "\<exists>st' q'. ngx_proxy_wasm_hfuncs_dequeue_shared_queue False G token data_ptr size_ptr st = Some (Result RESULT_OK, st') \<and>
      buf_read (h_mem st') dp 4 = Some (le32 0) \<and> buf_read (h_mem st') sp 4 = Some (le32 0) \<and>
      h_zones st' = h_zones (put_zone i (Queue_zone q') st) \<and> queue_rel q' ms"
proof -
  have ok: "msg_ok []" by (simp add: msg_ok_def)
  have len: "next_len dbg q = Some 0" for dbg using next_len_head [OF q(2) ok] by simp
  show "ngx_proxy_wasm_hfuncs_dequeue_shared_queue True G token data_ptr size_ptr st = None"
    using q(1) slots(1,2) queue_pop_empty_debug [OF q(2)] len
    by (simp add: ngx_proxy_wasm_hfuncs_dequeue_shared_queue_def dequeue_value_def)
  obtain q' where pop: "ngx_wa_shm_queue_pop_locked False (\<lambda>_. False) q = Some (NGX_OK, Some [], q')" and q': "queue_rel q' ms"
    using queue_pop_head [OF q(2) ok, of "\<lambda>_. False" False] by auto
  obtain mem4 where m4: "buf_write (h_mem st) dp (le32 0) = Some mem4"
    using lift_u32_bounds [OF slots(1)] buf_write_ok [of dp "le32 0" "h_mem st"] by auto
  obtain mem5 where m5: "buf_write mem4 sp (le32 0) = Some mem5"
    using lift_u32_bounds [OF slots(2)] length_buf_write [OF m4] buf_write_ok [of sp "le32 0" mem4] by auto
  have "ngx_proxy_wasm_hfuncs_dequeue_shared_queue False G token data_ptr size_ptr st =
      Some (Result RESULT_OK, (put_zone i (Queue_zone q') st)\<lparr>h_mem := mem5\<rparr>)"
    using q(1) slots(1,2) pop m4 m5 len
    by (simp add: ngx_proxy_wasm_hfuncs_dequeue_shared_queue_def dequeue_value_def)
  moreover have "buf_read mem5 sp 4 = Some (le32 0)" using buf_read_written [OF m5] by simp
  moreover have "buf_read mem5 dp 4 = Some (le32 0)"
    using buf_read_kept [OF m5, of dp 4] buf_read_written [OF m4] slots(3) by (auto simp: apart_def)
  ultimately show "\<exists>st' q'. ngx_proxy_wasm_hfuncs_dequeue_shared_queue False G token data_ptr size_ptr st = Some (Result RESULT_OK, st') \<and>
      buf_read (h_mem st') dp 4 = Some (le32 0) \<and> buf_read (h_mem st') sp 4 = Some (le32 0) \<and>
      h_zones st' = h_zones (put_zone i (Queue_zone q') st) \<and> queue_rel q' ms"
    using q' by (intro exI [of _ "(put_zone i (Queue_zone q') st)\<lparr>h_mem := mem5\<rparr>"] exI) auto
qed

lemma dequeue_empty:
  assumes q: "ngx_wa_shm_queue_resolve (h_zones st) token = (NGX_OK, Some (i, q))" "queue_rel q []"
    and slots: "lift_u32 (h_mem st) data_ptr = Some dp" "lift_u32 (h_mem st) size_ptr = Some sp"
  shows "\<exists>st'. ngx_proxy_wasm_hfuncs_dequeue_shared_queue dbg G token data_ptr size_ptr st = Some (Result RESULT_EMPTY, st') \<and>
    h_mem st' = h_mem st \<and> ngx_wa_shm_queue_resolve (h_zones st') token = (NGX_OK, Some (i, q))"
proof -
  have "dequeue_value dbg G i q dp sp st = Some (Result RESULT_EMPTY, put_zone i (Queue_zone q) st)"
    using queue_pop_empty [OF q(2), of dbg] next_len_empty [OF q(2), of dbg] by (simp add: dequeue_value_def)
  with queue_resolve_put [OF q(1) refl, of q] q(1) slots show ?thesis
    by (simp add: ngx_proxy_wasm_hfuncs_dequeue_shared_queue_def)
qed

lemma dequeue_no_memory:
  assumes q: "ngx_wa_shm_queue_resolve (h_zones st) token = (NGX_OK, Some (i, q))"
    and m: "queue_rel q (m # ms)" "msg_ok m" "m \<noteq> []"
    and slots: "lift_u32 (h_mem st) data_ptr = Some dp" "lift_u32 (h_mem st) size_ptr = Some sp"
    and p: "fst (h_malloc G (length m) (h_mem st) (h_world st)) = 0"
  shows "\<exists>st'. ngx_proxy_wasm_hfuncs_dequeue_shared_queue dbg G token data_ptr size_ptr st =
      Some (Result RESULT_INTERNAL_FAILURE, st') \<and> ngx_wa_shm_queue_resolve (h_zones st') token = (NGX_OK, Some (i, q))"
proof -
  obtain mem w where alloc: "h_malloc G (length m) (h_mem st) (h_world st) = (0, mem, w)" using p by (metis prod_cases3 fst_conv)
  let ?st1 = "st\<lparr>h_mem := mem, h_world := w\<rparr>"
  have sa: "shared_queue_alloc G (length m) st = (None, ?st1)" by (simp add: shared_queue_alloc_def alloc)
  have "dequeue_value dbg G i q dp sp st = Some (Result RESULT_INTERNAL_FAILURE, put_zone i (Queue_zone q) ?st1)"
    using next_len_head [OF m(1,2), of dbg] queue_pop_no_memory [OF m, of "\<lambda>_. False" dbg] m(3)
    by (simp add: dequeue_value_def sa)
  moreover have "ngx_wa_shm_queue_resolve (h_zones (put_zone i (Queue_zone q) ?st1)) token = (NGX_OK, Some (i, q))"
    by (rule queue_resolve_put [OF q]) (simp add: put_zone_def)
  ultimately show ?thesis using q slots by (simp add: ngx_proxy_wasm_hfuncs_dequeue_shared_queue_def)
qed

section \<open>Runs of host calls\<close>

text \<open>
  The calls of guests on the shared zones. Between two calls a guest (or another worker, with a
  memory of its own) runs, so every call comes with the memory it finds.
\<close>

datatype shared_call =
    Get_shared_data u32 u32 u32 u32 u32
  | Set_shared_data u32 u32 u32 u32 u32
  | Register_shared_queue u32 u32 u32
  | Enqueue_shared_queue u32 u32 u32
  | Dequeue_shared_queue u32 u32 u32

fun host_exec :: "bool \<Rightarrow> 'p nginx_env \<Rightarrow> 'g hguest \<Rightarrow> shared_call \<Rightarrow> ('p, 'g) host \<Rightarrow> (hfunc_ret \<times> ('p, 'g) host) option" where
  "host_exec dbg env G (Get_shared_data kp kl vp sp cp) st =
     ngx_proxy_wasm_hfuncs_get_shared_data env G (\<lambda>zs. zs) kp kl vp sp cp st"
| "host_exec dbg env G (Set_shared_data kp kl vp vl cas) st = ngx_proxy_wasm_hfuncs_set_shared_data env kp kl vp vl cas st"
| "host_exec dbg env G (Register_shared_queue np nl tp) st = ngx_proxy_wasm_hfuncs_register_shared_queue np nl tp st"
| "host_exec dbg env G (Enqueue_shared_queue t dp dl) st = ngx_proxy_wasm_hfuncs_enqueue_shared_queue dbg t dp dl st"
| "host_exec dbg env G (Dequeue_shared_queue t dp sp) st = ngx_proxy_wasm_hfuncs_dequeue_shared_queue dbg G t dp sp st"

fun host_run :: "bool \<Rightarrow> 'p nginx_env \<Rightarrow> 'g hguest \<Rightarrow> (bytes \<times> shared_call) list \<Rightarrow> ('p, 'g) host \<Rightarrow>
    (hfunc_ret list \<times> ('p, 'g) host) option" where
  "host_run dbg env G [] st = Some ([], st)"
| "host_run dbg env G ((mem, c) # cs) st = do {
     (r, st1) \<leftarrow> host_exec dbg env G c (st\<lparr>h_mem := mem\<rparr>);
     (rs, st2) \<leftarrow> host_run dbg env G cs st1;
     Some (r # rs, st2) }"

lemma host_inv_cong: "h_zones st' = h_zones st \<Longrightarrow> host_inv env live st' = host_inv env live st"
  by (simp add: host_inv_def)

lemma set_shared_data_inv:
  assumes laws: "nginx_laws env live" and inv: "host_inv env live st"
    and run: "ngx_proxy_wasm_hfuncs_set_shared_data env kp kl vp vl cas st = Some (r, st')"
  shows "host_inv env live st'"
proof (cases "st' = st")
  case False
  let ?mem = "h_mem st"
  from run False obtain ko vo i kv rc w kv1 where
    lift: "ngx_wavm_memory_lift ?mem kp kl 1 = Some ko" "ngx_wavm_memory_lift ?mem vp vl 1 = Some vo"
    and res: "ngx_wa_shm_kv_resolve_key (h_zones st) (read_slice ?mem ko kl) = (NGX_OK, Some (i, kv))"
    and set: "ngx_wa_shm_kv_set_locked env kv (read_slice ?mem ko kl)
        (case vo of None \<Rightarrow> None | Some _ \<Rightarrow> Some (unat vl, read_slice ?mem vo vl)) cas = Some (rc, w, kv1)"
    and st': "st' = put_zone i (Kv_zone kv1) st"
    by (auto simp: ngx_proxy_wasm_hfuncs_set_shared_data_def Let_def bind_eq_Some_conv
        split: option.splits prod.splits ngx_rc.splits)
  note kv = host_inv_kv [OF inv res]
  have "kv_inv env live kv1 \<and> values_ok kv1"
  proof (cases vo)
    case None
    with set delete_values_ok [OF laws kv, of "read_slice ?mem ko kl" cas] show ?thesis by auto
  next
    case (Some off)
    with lift have "unat vl = length (read_slice ?mem (Some off) vl)" by (simp add: length_read_slice)
    with Some set set_values_ok [OF laws kv, of "read_slice ?mem ko kl" "read_slice ?mem (Some off) vl" cas]
    show ?thesis by simp
  qed
  with inv st' show ?thesis by (simp add: host_inv_put zone_ok_def)
qed (use inv in simp)

lemma return_shared_value_zones:
  "return_shared_value G nd vd vs st = Some (r, st') \<Longrightarrow> h_zones st' = h_zones st"
  by (auto simp: return_shared_value_def Let_def bind_eq_Some_conv split: prod.splits if_split_asm option.split_asm)

lemma get_shared_data_inv:
  assumes inv: "host_inv env live st"
    and run: "ngx_proxy_wasm_hfuncs_get_shared_data env G (\<lambda>zs. zs) kp kl vp sp cp st = Some (r, st')"
  shows "host_inv env live st'"
proof (cases "st' = st")
  case False
  let ?mem = "h_mem st"
  from run False obtain ko vd vs co i kv where
    res: "ngx_wa_shm_kv_resolve_key (h_zones st) (read_slice ?mem ko kl) = (NGX_OK, Some (i, kv))"
    and get: "get_shared_value env G (\<lambda>zs. zs) i kv (read_slice ?mem ko kl) vd vs co st = Some (r, st')"
    by (auto simp: ngx_proxy_wasm_hfuncs_get_shared_data_def Let_def split: option.splits prod.splits ngx_rc.splits)
  note kv = host_inv_kv [OF inv res]
  from get obtain rc n kv1 where kv1: "ngx_wa_shm_kv_get_locked env kv (read_slice ?mem ko kl) None = Some (rc, n, kv1)"
    and st': "h_zones st' = h_zones (put_zone i (Kv_zone kv1) st)"
    by (auto simp: get_shared_value_def Let_def bind_eq_Some_conv dest!: return_shared_value_zones split: if_split_asm)
  from kv_get_spec [OF kv(1) refl, of "read_slice ?mem ko kl" None] kv1 kv(2) have "kv_inv env live kv1 \<and> values_ok kv1"
    by (auto simp: values_ok_def split: option.splits)
  with inv host_inv_cong [OF st'] show ?thesis by (simp add: host_inv_put zone_ok_def)
qed (use inv in simp)

lemma host_inv_queue:
  assumes "host_inv env live st" and "ngx_wa_shm_queue_resolve (h_zones st) token = (NGX_OK, Some (i, q))"
  obtains ms where "queue_rel q ms" "\<forall>m \<in> set ms. msg_ok m"
proof -
  obtain zs where "h_zones st = Some zs" "i = unat token" "i < length zs" "snd (zs ! i) = Queue_zone q"
    using assms(2) by (rule queue_resolve_OK)
  with host_inv_zone [OF assms(1)] that show thesis by (fastforce simp: zone_ok_def)
qed

lemma queue_push_keeps:
  assumes "queue_rel q ms" and "\<forall>m \<in> set ms. msg_ok m" and "msg_ok m"
    and "ngx_wa_shm_queue_push_locked dbg q m = Some (rc, q')"
  shows "zone_ok env live (Queue_zone q')"
proof (cases "queue_occupancy q + 4 + length m \<le> queue_capacity q")
  case True
  with queue_push_fits [OF assms(1) True, of dbg] assms show ?thesis by (fastforce simp: zone_ok_def)
next
  case False
  with queue_push_full [of q m dbg] assms show ?thesis by (auto simp: zone_ok_def)
qed

lemma queue_pop_keeps:
  assumes rel: "queue_rel q ms" and ok: "\<forall>m \<in> set ms. msg_ok m"
    and pop: "ngx_wa_shm_queue_pop_locked dbg alloc q = Some (rc, r, q')"
  shows "zone_ok env live (Queue_zone q')"
proof (cases ms)
  case Nil
  with queue_pop_empty [of q dbg alloc] rel pop show ?thesis by (auto simp: zone_ok_def)
next
  case (Cons m ms')
  have keep: "zone_ok env live (Queue_zone q)" using rel ok by (auto simp: zone_ok_def)
  show ?thesis
  proof (cases "m \<noteq> [] \<and> \<not> alloc (length m)")
    case True
    with queue_pop_no_memory [of q m ms' alloc dbg] rel ok pop Cons keep show ?thesis by auto
  next
    case False
    have "dbg \<Longrightarrow> m \<noteq> []" using queue_pop_empty_debug [of q ms' alloc] rel pop Cons by auto
    with queue_pop_head [of q m ms' alloc dbg] False rel ok pop Cons show ?thesis by (fastforce simp: zone_ok_def)
  qed
qed

lemma enqueue_shared_queue_inv:
  assumes inv: "host_inv env live st"
    and run: "ngx_proxy_wasm_hfuncs_enqueue_shared_queue dbg token data_ptr data_len st = Some (r, st')"
  shows "host_inv env live st'"
proof (cases "st' = st")
  case False
  from run False obtain dp i q rc q1 where res: "ngx_wa_shm_queue_resolve (h_zones st) token = (NGX_OK, Some (i, q))"
    and push: "ngx_wa_shm_queue_push_locked dbg q (read_slice (h_mem st) dp data_len) = Some (rc, q1)"
    and st': "st' = put_zone i (Queue_zone q1) st"
    by (auto simp: ngx_proxy_wasm_hfuncs_enqueue_shared_queue_def bind_eq_Some_conv
        split: option.splits prod.splits ngx_rc.splits)
  obtain ms where ms: "queue_rel q ms" "\<forall>m \<in> set ms. msg_ok m" using inv res by (rule host_inv_queue)
  have "length (read_slice (h_mem st) dp data_len) \<le> unat data_len" by (simp add: read_slice_def split: option.split)
  also have "unat data_len < 2 ^ LENGTH(32)" by (rule unsigned_less)
  finally have "msg_ok (read_slice (h_mem st) dp data_len)" by (simp add: msg_ok_def)
  from host_inv_put [OF inv queue_push_keeps [OF ms this push]] st' show ?thesis by simp
qed (use inv in simp)

lemma shared_queue_alloc_zones: "shared_queue_alloc G n st = (dst, st1) \<Longrightarrow> h_zones st1 = h_zones st"
  by (auto simp: shared_queue_alloc_def Let_def split: prod.splits)

lemma put_zone_cong: "h_zones st1 = h_zones st \<Longrightarrow> h_zones (put_zone i z st1) = h_zones (put_zone i z st)"
  by (simp add: put_zone_def)

lemma dequeue_value_zones:
  assumes "dequeue_value dbg G i q dp sp st = Some (r, st')"
  shows "\<exists>alloc rc msg q1. ngx_wa_shm_queue_pop_locked dbg alloc q = Some (rc, msg, q1) \<and>
    h_zones st' = h_zones (put_zone i (Queue_zone q1) st)"
proof -
  from assms obtain n where n: "next_len dbg q = Some n" by (auto simp: dequeue_value_def bind_eq_Some_conv)
  obtain dst st1 where a: "(if n = 0 then (None, st) else shared_queue_alloc G n st) = (dst, st1)" by (metis surj_pair)
  then have z: "h_zones st1 = h_zones st" by (auto dest: shared_queue_alloc_zones split: if_splits)
  from assms obtain rc msg q1 where "ngx_wa_shm_queue_pop_locked dbg (\<lambda>_. dst \<noteq> None) q = Some (rc, msg, q1)"
    and "h_zones st' = h_zones (put_zone i (Queue_zone q1) st1)"
    by (auto simp: dequeue_value_def n a bind_eq_Some_conv Let_def split: if_split_asm)
  with put_zone_cong [OF z] show ?thesis by metis
qed

lemma dequeue_shared_queue_inv:
  assumes inv: "host_inv env live st"
    and run: "ngx_proxy_wasm_hfuncs_dequeue_shared_queue dbg G token data_ptr size_ptr st = Some (r, st')"
  shows "host_inv env live st'"
proof (cases "st' = st")
  case False
  from run False obtain i q dp sp where res: "ngx_wa_shm_queue_resolve (h_zones st) token = (NGX_OK, Some (i, q))"
    and val: "dequeue_value dbg G i q dp sp st = Some (r, st')"
    by (auto simp: ngx_proxy_wasm_hfuncs_dequeue_shared_queue_def split: option.splits prod.splits ngx_rc.splits)
  from dequeue_value_zones [OF val] obtain alloc rc msg q1 where
    pop: "ngx_wa_shm_queue_pop_locked dbg alloc q = Some (rc, msg, q1)"
    and zones: "h_zones st' = h_zones (put_zone i (Queue_zone q1) st)" by blast
  obtain ms where ms: "queue_rel q ms" "\<forall>m \<in> set ms. msg_ok m" using inv res by (rule host_inv_queue)
  show ?thesis unfolding host_inv_cong [OF zones] by (rule host_inv_put [OF inv queue_pop_keeps [OF ms pop]])
qed (use inv in simp)

lemma host_exec_inv:
  assumes "nginx_laws env live" and "host_inv env live st" and "host_exec dbg env G c st = Some (r, st')"
  shows "host_inv env live st'"
proof (cases c)
  case (Register_shared_queue np nl tp)
  with assms(3) have "h_zones st' = h_zones st"
    by (cases "h_zones st") (auto simp: ngx_proxy_wasm_hfuncs_register_shared_queue_def bind_eq_Some_conv
        split: option.split_asm zone.split_asm)
  from assms(2) host_inv_cong [OF this] show ?thesis by simp
next
  case (Get_shared_data kp kl vp sp cp)
  with assms(3) show ?thesis by (auto intro: get_shared_data_inv [OF assms(2)])
next
  case (Set_shared_data kp kl vp vl cas)
  with assms(3) show ?thesis by (auto intro: set_shared_data_inv [OF assms(1,2)])
next
  case (Enqueue_shared_queue t dp dl)
  with assms(3) show ?thesis by (auto intro: enqueue_shared_queue_inv [OF assms(2)])
next
  case (Dequeue_shared_queue t dp sp)
  with assms(3) show ?thesis by (auto intro: dequeue_shared_queue_inv [OF assms(2)])
qed

lemma host_run_keeps:
  assumes "nginx_laws env live" and "host_inv env live st" and "host_run dbg env G cs st = Some (rs, st')"
  shows "host_inv env live st'"
  using assms(2,3)
proof (induction cs arbitrary: st rs)
  case (Cons mc cs)
  obtain mem c where mc: "mc = (mem, c)" by (cases mc)
  with Cons.prems obtain r st1 rs1 where st1: "host_exec dbg env G c (st\<lparr>h_mem := mem\<rparr>) = Some (r, st1)"
    and rest: "host_run dbg env G cs st1 = Some (rs1, st')" by (auto simp: bind_eq_Some_conv)
  have "host_inv env live (st\<lparr>h_mem := mem\<rparr>)" using Cons.prems(1) by (simp add: host_inv_def)
  from Cons.IH [OF host_exec_inv [OF assms(1) this st1] rest] show ?case .
qed simp

section \<open>A concrete host\<close>

text \<open>
  Two zones: the default zone with the store \<open>demo_lru\<close>, and a queue with one message. The memory has the key at 8 and a value
  at 16; the allocator of the guest always answers 64.
\<close>

definition demo_queue :: shm_queue where
  "demo_queue = \<lparr>buffer = [0, 0, 7, 8, 0, 0, 2, 0], push_ptr = 4, pop_ptr = 6, rising_occupancy = True\<rparr>"

definition demo_host :: "(pool, unit) host" where
  "demo_host = \<lparr>h_zones = Some [([42], Kv_zone demo_lru), ([113], Queue_zone demo_queue)],
     h_mem = (replicate 96 0)[8 := 1, 16 := 9], h_world = ()\<rparr>"

definition demo_hguest :: "unit hguest" where
  "demo_hguest = \<lparr>h_malloc = (\<lambda>n mem w. (64, mem, w))\<rparr>"

lemma demo_queue_rel: "queue_rel demo_queue [[7, 8]]"
  by (simp add: demo_queue_def queue_rel_def queue_wf_def queue_occupancy_def queue_capacity_def ring_def
      frame_def le32_def upt_rec)

lemma values_ok_entries:
  assumes "kv_inv env live kv"
    and "list_all (\<lambda>(h, a). case kv_heap kv a of None \<Rightarrow> True | Some n \<Rightarrow> length (nd_value n) = nd_value_len n) (rb_inorder (kv_rbtree kv))"
  shows "values_ok kv"
proof -
  from assms(1) have core: "kv_core env live kv" by (simp add: kv_inv_def)
  show ?thesis using assms(2) unfolding values_ok_def kv_map_Some_iff [OF core] by (auto simp: list_all_iff split: option.splits)
qed

lemma demo_host_inv: "host_inv demo_env pool_live demo_host"
proof -
  have "values_ok demo_lru" by (rule values_ok_entries [OF demo_lru_inv]) code_simp
  moreover have "\<forall>m \<in> set [[7, 8 :: byte]]. msg_ok m" by (simp add: msg_ok_def)
  ultimately show ?thesis using demo_lru_inv demo_queue_rel
    by (auto simp: host_inv_def demo_host_def zone_ok_def)
qed

lemma demo_args: "get_args (h_mem demo_host) 8 1 32 36 40 (Some 8) 32 36 40"
  by code_simp

lemma demo_key: "read_slice (h_mem demo_host) (Some 8) 1 = [1]"
  by code_simp

lemma demo_resolve: "ngx_wa_shm_kv_resolve_key (h_zones demo_host) [1] = (NGX_OK, Some (0, demo_lru))"
  by (simp add: demo_host_def ngx_wa_shm_kv_resolve_key_def key_namespace_def Let_def)

lemma demo_malloc:
  "length mem = 96 \<Longrightarrow> n \<le> 32 \<Longrightarrow> \<forall>a \<in> set ws. a + 4 \<le> 64 \<Longrightarrow> malloc_gives n mem ws (h_malloc demo_hguest n mem w)"
  by (auto simp: demo_hguest_def malloc_gives_def apart_def)

section \<open>Properties\<close>

text \<open>
  C11. The invariant of the shared zones: whatever host calls guests make, with whatever pointers and whatever memory, as long as
  none had an undefined outcome, every key/value store stays well formed with values of their recorded length, and
  every queue stays a sequence of whole messages.
\<close>

theorem host_run_inv:
  assumes "nginx_laws env live" and "host_inv env live st" and "host_run dbg env G cs st = Some (rs, st')"
  shows "host_inv env live st'"
  using assms by (rule host_run_keeps)

theorem host_run_inv_witness:
  "\<exists>st'. host_run True demo_env demo_hguest [(h_mem demo_host, Set_shared_data 8 1 16 1 1),
       (h_mem demo_host, Dequeue_shared_queue 1 32 36), (h_mem demo_host, Enqueue_shared_queue 1 16 1)] demo_host
     = Some ([Result RESULT_OK, Result RESULT_OK, Result RESULT_OK], st') \<and> host_inv demo_env pool_live st'"
proof -
  have "map_option fst (host_run True demo_env demo_hguest [(h_mem demo_host, Set_shared_data 8 1 16 1 1),
       (h_mem demo_host, Dequeue_shared_queue 1 32 36), (h_mem demo_host, Enqueue_shared_queue 1 16 1)] demo_host)
     = Some [Result RESULT_OK, Result RESULT_OK, Result RESULT_OK]" by code_simp
  then obtain st' where st': "host_run True demo_env demo_hguest [(h_mem demo_host, Set_shared_data 8 1 16 1 1),
       (h_mem demo_host, Dequeue_shared_queue 1 32 36), (h_mem demo_host, Enqueue_shared_queue 1 16 1)] demo_host
     = Some ([Result RESULT_OK, Result RESULT_OK, Result RESULT_OK], st')" by auto
  with host_run_inv [OF demo_laws demo_host_inv st'] show ?thesis by blast
qed

text \<open>
  C12. Shared data round trip: after a guest has stored a value under a key (a call that answered OK, with a value
  that is not NULL), a read of the key finds exactly these bytes, their length, and the
  counter to use for the next write, if the three words it passes do not overlap and its allocator gives memory.
\<close>

theorem shared_data_roundtrip:
  assumes laws: "nginx_laws env live" and inv: "host_inv env live st" and vp: "value_ptr \<noteq> 0"
    and set: "ngx_proxy_wasm_hfuncs_set_shared_data env key_ptr key_len value_ptr value_len cas st = Some (Result RESULT_OK, st1)"
    and args: "get_args (h_mem st) key_ptr key_len out_ptr size_ptr cas_ptr kp vd vs cp"
    and sep: "apart (vd, 4) (vs, 4)" "apart (vd, 4) (cp, 4)" "apart (vs, 4) (cp, 4)"
    and malloc: "\<And>mem. length mem = length (h_mem st) \<Longrightarrow>
      malloc_gives (unat value_len) mem [vd, vs, cp] (h_malloc G (unat value_len) mem (h_world st))"
  shows "\<exists>st2 p. ngx_proxy_wasm_hfuncs_get_shared_data env G (\<lambda>zs. zs) key_ptr key_len out_ptr size_ptr cas_ptr st1
      = Some (Result RESULT_OK, st2) \<and>
    buf_read (h_mem st2) vd 4 = Some (le32 p) \<and> buf_read (h_mem st2) vs 4 = Some (le32 value_len) \<and>
    buf_read (h_mem st2) cp 4 = Some (le32 (cas + 1)) \<and>
    buf_read (h_mem st2) (unat p) (unat value_len) = buf_read (h_mem st) (unat value_ptr) (unat value_len)"
proof -
  let ?key = "read_slice (h_mem st) kp key_len" and ?v = "read_slice (h_mem st) (Some (unat value_ptr)) value_len"
  obtain i kv kv1 where lift: "ngx_wavm_memory_lift (h_mem st) value_ptr value_len 1 = Some (Some (unat value_ptr))"
    and res: "ngx_wa_shm_kv_resolve_key (h_zones st) ?key = (NGX_OK, Some (i, kv))"
    and upd: "ngx_wa_shm_kv_set_locked env kv ?key (Some (unat value_len, ?v)) cas = Some (NGX_OK, Some True, kv1)"
    and st1: "st1 = put_zone i (Kv_zone kv1) st"
    using set_shared_data_OK [OF laws inv vp set] args by (auto simp: get_args_def)
  have len: "length ?v = unat value_len" using lift by (rule length_read_slice)
  obtain nd where kv1: "kv_inv env live kv1" and nd: "kv_map kv1 (crc32 env ?key) = Some nd" "nd_value nd = ?v"
      "nd_value_len nd = unat value_len" "nd_cas nd = cas + 1"
    using kv_set_value_spec [OF laws host_inv_kv(1) [OF inv res] refl upd] by (auto split: if_splits)
  obtain zs where zs: "h_zones st = Some zs" "i < length zs" using res by (rule resolve_key_OK)
  then have zs1: "h_zones st1 = Some (zs[i := (fst (zs ! i), Kv_zone kv1)])" "i < length (zs[i := (fst (zs ! i), Kv_zone kv1)])"
    by (simp_all add: st1 put_zone_zones)
  have mem: "h_mem st1 = h_mem st" "h_world st1 = h_world st" by (simp_all add: st1)
  have b: "vd + 4 \<le> length (h_mem st1)" "vs + 4 \<le> length (h_mem st1)" "cp + 4 \<le> length (h_mem st1)"
    using args mem by (auto simp: get_args_def dest: lift_u32_bounds)
  have n2: "length (nd_value nd) = nd_value_len nd" using nd len by simp
  have mal: "malloc_gives (nd_value_len nd) m [vd, vs, cp] (h_malloc G (nd_value_len nd) m (h_world st1))"
    if "length m = length (h_mem st1)" for m using malloc that nd mem by simp
  have "ngx_proxy_wasm_hfuncs_get_shared_data env G (\<lambda>zs. zs) key_ptr key_len out_ptr size_ptr cas_ptr st1 =
      get_shared_value env G (\<lambda>zs. zs) i kv1 ?key vd vs cp st1"
    using get_shared_data_resolved [of st1 key_ptr key_len out_ptr size_ptr cas_ptr kp vd vs cp i kv1] args mem
      resolve_key_put [OF res] st1 by simp
  moreover have "buf_read (h_mem st) (unat value_ptr) (unat value_len) = Some ?v"
    using memory_lift_bounds [OF lift] by (simp add: buf_read_def read_slice_def)
  ultimately show ?thesis using get_value_present [OF zs1 kv1 nd(1) n2 b sep mal] nd by simp
qed

theorem shared_data_roundtrip_witness:
  "\<exists>st1 st2 p. ngx_proxy_wasm_hfuncs_set_shared_data demo_env 8 1 16 1 1 demo_host = Some (Result RESULT_OK, st1) \<and>
     ngx_proxy_wasm_hfuncs_get_shared_data demo_env demo_hguest (\<lambda>zs. zs) 8 1 32 36 40 st1 = Some (Result RESULT_OK, st2) \<and>
     buf_read (h_mem st2) 32 4 = Some (le32 p) \<and> buf_read (h_mem st2) 40 4 = Some (le32 2) \<and>
     buf_read (h_mem st2) (unat p) 1 = Some [9]"
proof -
  have "map_option fst (ngx_proxy_wasm_hfuncs_set_shared_data demo_env 8 1 16 1 1 demo_host) = Some (Result RESULT_OK)"
    by code_simp
  then obtain st1 where st1: "ngx_proxy_wasm_hfuncs_set_shared_data demo_env 8 1 16 1 1 demo_host = Some (Result RESULT_OK, st1)"
    by auto
  have v: "buf_read (h_mem demo_host) (unat (16 :: u32)) (unat (1 :: u32)) = Some [9]" by code_simp
  have len: "length (h_mem demo_host) = 96" by (simp add: demo_host_def)
  have "\<exists>st2 p. ngx_proxy_wasm_hfuncs_get_shared_data demo_env demo_hguest (\<lambda>zs. zs) 8 1 32 36 40 st1
      = Some (Result RESULT_OK, st2) \<and>
    buf_read (h_mem st2) 32 4 = Some (le32 p) \<and> buf_read (h_mem st2) 36 4 = Some (le32 1) \<and>
    buf_read (h_mem st2) 40 4 = Some (le32 (1 + 1)) \<and>
    buf_read (h_mem st2) (unat p) (unat (1 :: u32)) = buf_read (h_mem demo_host) (unat (16 :: u32)) (unat (1 :: u32))"
    by (rule shared_data_roundtrip [OF demo_laws demo_host_inv _ st1 demo_args])
      (simp_all add: apart_def demo_malloc len)
  with st1 show ?thesis unfolding v by auto
qed

text \<open>
  C18. The copy after the unlock: when another worker deletes the entry between the unlock and
  the copy, the host function reads released memory.
\<close>

theorem get_shared_data_race:
  assumes laws: "nginx_laws env live" and inv: "host_inv env live st"
    and args: "get_args (h_mem st) key_ptr key_len value_ptr size_ptr cas_ptr kp vd vs cp"
    and key: "key = read_slice (h_mem st) kp key_len"
    and res: "ngx_wa_shm_kv_resolve_key (h_zones st) key = (NGX_OK, Some (i, kv))"
    and n: "kv_map kv (crc32 env key) = Some nd"
  shows "ngx_proxy_wasm_hfuncs_get_shared_data env G (other_delete env i key (nd_cas nd))
    key_ptr key_len value_ptr size_ptr cas_ptr st = None"
proof -
  obtain zs where zs: "h_zones st = Some zs" "i < length zs" using res by (rule resolve_key_OK)
  have "get_shared_value env G (other_delete env i key (nd_cas nd)) i kv key vd vs cp st = None"
    by (rule get_value_race [OF laws zs host_inv_kv(1) [OF inv res] n])
  with get_shared_data_resolved [OF args] res key show ?thesis by simp
qed

theorem get_shared_data_race_witness:
  "\<exists>nd. kv_map demo_lru 1 = Some nd \<and> nd_value nd = [7, 8] \<and>
     ngx_proxy_wasm_hfuncs_get_shared_data demo_env demo_hguest (other_delete demo_env 0 [1] (nd_cas nd)) 8 1 32 36 40 demo_host = None"
proof -
  have n: "kv_map demo_lru (crc32 demo_env [1]) = Some \<lparr>nd_key = [1], nd_value_len = 2, nd_value = [7, 8], nd_cas = 1\<rparr>"
    "crc32 demo_env [1] = 1"
    by code_simp+
  from get_shared_data_race [OF demo_laws demo_host_inv demo_args demo_key [symmetric] demo_resolve n(1), of demo_hguest] n
  show ?thesis by auto
qed

text \<open>
  C13. A dequeue with two aligned, separate slots for its results delivers the oldest message of the queue into memory that the guest
  allocates, and removes exactly that message; when the allocation fails the message stays in the queue; an empty queue answers EMPTY and writes nothing. For
  an empty message nothing is allocated: a release build answers with a null pointer and the length 0 and removes the
  message, a debug build fails an assertion. The messages have less than \<open>2 ^ 32\<close> bytes, as every enqueued one has.
\<close>

theorem dequeue_shared_queue_refines:
  assumes q: "ngx_wa_shm_queue_resolve (h_zones st) token = (NGX_OK, Some (i, q))" "queue_rel q ms"
    and ok: "\<forall>m \<in> set ms. msg_ok m"
    and slots: "lift_u32 (h_mem st) data_ptr = Some dp" "lift_u32 (h_mem st) size_ptr = Some sp" "apart (dp, 4) (sp, 4)"
  shows "case ms of
      [] \<Rightarrow> \<exists>st'. ngx_proxy_wasm_hfuncs_dequeue_shared_queue dbg G token data_ptr size_ptr st = Some (Result RESULT_EMPTY, st') \<and>
        h_mem st' = h_mem st \<and> ngx_wa_shm_queue_resolve (h_zones st') token = (NGX_OK, Some (i, q))
    | [] # ms' \<Rightarrow>
        (if dbg then ngx_proxy_wasm_hfuncs_dequeue_shared_queue dbg G token data_ptr size_ptr st = None
         else \<exists>st' q'. ngx_proxy_wasm_hfuncs_dequeue_shared_queue dbg G token data_ptr size_ptr st = Some (Result RESULT_OK, st') \<and>
            buf_read (h_mem st') dp 4 = Some (le32 0) \<and> buf_read (h_mem st') sp 4 = Some (le32 0) \<and>
            ngx_wa_shm_queue_resolve (h_zones st') token = (NGX_OK, Some (i, q')) \<and> queue_rel q' ms')
    | m # ms' \<Rightarrow>
        (malloc_gives (length m) (h_mem st) [dp, sp] (h_malloc G (length m) (h_mem st) (h_world st)) \<longrightarrow>
          (\<exists>st' p q'. ngx_proxy_wasm_hfuncs_dequeue_shared_queue dbg G token data_ptr size_ptr st = Some (Result RESULT_OK, st') \<and>
            buf_read (h_mem st') dp 4 = Some (le32 p) \<and> buf_read (h_mem st') sp 4 = Some (le32 (of_nat (length m))) \<and>
            buf_read (h_mem st') (unat p) (length m) = Some m \<and>
            ngx_wa_shm_queue_resolve (h_zones st') token = (NGX_OK, Some (i, q')) \<and> queue_rel q' ms')) \<and>
        (fst (h_malloc G (length m) (h_mem st) (h_world st)) = 0 \<longrightarrow>
          (\<exists>st'. ngx_proxy_wasm_hfuncs_dequeue_shared_queue dbg G token data_ptr size_ptr st =
              Some (Result RESULT_INTERNAL_FAILURE, st') \<and>
            ngx_wa_shm_queue_resolve (h_zones st') token = (NGX_OK, Some (i, q))))"
proof (cases ms)
  case Nil
  with dequeue_empty [OF q(1) _ slots(1,2), of dbg G] q(2) show ?thesis by simp
next
  case (Cons m ms')
  with q(2) ok have m: "queue_rel q (m # ms')" "msg_ok m" by simp_all
  show ?thesis
  proof (cases m)
    case Nil
    note none = dequeue_empty_message(1) [OF q(1) m(1) [unfolded Nil] slots, of G]
    from dequeue_empty_message(2) [OF q(1) m(1) [unfolded Nil] slots, of G] queue_resolve_put [OF q(1)]
    have "\<exists>st' q'. ngx_proxy_wasm_hfuncs_dequeue_shared_queue False G token data_ptr size_ptr st = Some (Result RESULT_OK, st') \<and>
        buf_read (h_mem st') dp 4 = Some (le32 0) \<and> buf_read (h_mem st') sp 4 = Some (le32 0) \<and>
        ngx_wa_shm_queue_resolve (h_zones st') token = (NGX_OK, Some (i, q')) \<and> queue_rel q' ms'" by blast
    with none show ?thesis unfolding Cons Nil by simp
  next
    case (Cons b bs)
    then have ne: "m \<noteq> []" by simp
    have "\<exists>st' p q'. ngx_proxy_wasm_hfuncs_dequeue_shared_queue dbg G token data_ptr size_ptr st = Some (Result RESULT_OK, st') \<and>
        buf_read (h_mem st') dp 4 = Some (le32 p) \<and> buf_read (h_mem st') sp 4 = Some (le32 (of_nat (length m))) \<and>
        buf_read (h_mem st') (unat p) (length m) = Some m \<and>
        ngx_wa_shm_queue_resolve (h_zones st') token = (NGX_OK, Some (i, q')) \<and> queue_rel q' ms'"
      if "malloc_gives (length m) (h_mem st) [dp, sp] (h_malloc G (length m) (h_mem st) (h_world st))"
      using dequeue_delivers [OF q(1) m ne slots that, of dbg] queue_resolve_put [OF q(1)] by blast
    with dequeue_no_memory [OF q(1) m ne slots(1,2), of G dbg] show ?thesis
      unfolding \<open>ms = m # ms'\<close> Cons list.case by blast
  qed
qed

theorem dequeue_shared_queue_refines_witness:
  "\<exists>st' p q'. ngx_proxy_wasm_hfuncs_dequeue_shared_queue True demo_hguest 1 32 36 demo_host = Some (Result RESULT_OK, st') \<and>
     buf_read (h_mem st') 32 4 = Some (le32 p) \<and> buf_read (h_mem st') (unat p) 2 = Some [7, 8] \<and> queue_rel q' []"
proof -
  have res: "ngx_wa_shm_queue_resolve (h_zones demo_host) 1 = (NGX_OK, Some (1, demo_queue))"
    by (simp add: demo_host_def ngx_wa_shm_queue_resolve_def)
  have ok: "\<forall>m \<in> set [[7, 8 :: byte]]. msg_ok m" by (simp add: msg_ok_def)
  have slots: "lift_u32 (h_mem demo_host) 32 = Some 32" "lift_u32 (h_mem demo_host) 36 = Some 36" by code_simp+
  have sep: "apart (32, 4) (36, 4)" by (simp add: apart_def)
  have gives: "malloc_gives (length [7, 8 :: byte]) (h_mem demo_host) [32, 36]
      (h_malloc demo_hguest (length [7, 8 :: byte]) (h_mem demo_host) (h_world demo_host))"
    by (rule demo_malloc) (simp_all add: demo_host_def)
  note run = dequeue_shared_queue_refines [OF res demo_queue_rel ok slots sep, of True demo_hguest, unfolded list.case]
  have "length [7, 8 :: byte] = 2" by simp
  with mp [OF conjunct1 [OF run] gives] show ?thesis by metis
qed

end
