(* ===== verification/Histogram.thy ===== *)
theory Histogram
  imports Shm_Kv_Store
begin

text \<open>
  The histograms of the metrics store (src/src/common/metrics/ngx_wa_histogram.c): the
  logarithmic bins that are created on demand, the user-defined bins, recording a value and
  summing the histograms of the workers. A histogram lives in the slab pool, so it comes with
  its address; its bins are the list of the \<open>n_bins\<close> allocated bins, and an access outside
  of it is an undefined outcome. So is an \<open>ngx_memcpy\<close> between overlapping bins, unless the platform is known to
  perform it as a move (\<open>memcpy_moves\<close>); C does not promise that.
\<close>

section \<open>Data\<close>

definition NGX_MAX_UINT32_VALUE :: u32 where
  "NGX_MAX_UINT32_VALUE = 0xffffffff"

definition BINS_INIT :: nat where "BINS_INIT = 5"
definition BINS_MAX :: nat where "BINS_MAX = 18"
definition BINS_INCREMENT :: nat where "BINS_INCREMENT = 4"

lemmas bins_consts = BINS_INIT_def BINS_MAX_def BINS_INCREMENT_def

datatype histogram_type = HISTOGRAM_LOG2 | HISTOGRAM_CUSTOM

record hist_bin =
  upper_bound :: u32
  bin_count :: u32

record histogram =
  h_type :: histogram_type
  hist_sum :: u64
  bins :: "hist_bin list"

abbreviation n_bins :: "histogram \<Rightarrow> nat" where
  "n_bins h \<equiv> length (bins h)"

text \<open>
  The platform: the sizes of the structures, which only the allocator sees, and whether its \<open>ngx_memcpy\<close> moves
  overlapping ranges correctly, like \<open>memmove\<close>, which C leaves undefined.
\<close>

record sizes =
  sizeof_histogram :: nat
  sizeof_bin :: nat
  sizeof_metric :: nat
  sizeof_metric_val :: nat
  memcpy_moves :: bool

definition zero_bin :: hist_bin where
  "zero_bin = \<lparr>upper_bound = 0, bin_count = 0\<rparr>"

section \<open>Operations\<close>

text \<open>\<open>for (n = n - 1; n >>= 1; upper_bound <<= 1)\<close>\<close>

fun log2_loop :: "nat \<Rightarrow> u32 \<Rightarrow> u32" where
  "log2_loop n ub = (if n div 2 = 0 then ub else log2_loop (n div 2) (push_bit 1 ub))"

declare log2_loop.simps [simp del]

definition bin_log2_upper_bound :: "u64 \<Rightarrow> u32" where
  "bin_log2_upper_bound n =
     (if n \<le> 1 then 1
      else if n > ucast (NGX_MAX_UINT32_VALUE div 2) then NGX_MAX_UINT32_VALUE
      else log2_loop (unat (n - 1)) 2)"

text \<open>
  \<open>histogram_grow\<close>: \<open>None\<close> when the histogram has its maximal size or memory is out; otherwise the
  new address, histogram and pool.
\<close>

definition histogram_grow ::
  "'p nginx_env \<Rightarrow> sizes \<Rightarrow> 'p \<Rightarrow> addr \<Rightarrow> histogram \<Rightarrow> (addr \<times> histogram \<times> 'p) option" where
  "histogram_grow env sz p a h =
     (if n_bins h = BINS_MAX then None
      else let n = min BINS_INCREMENT (BINS_MAX - n_bins h);
               old_size = sizeof_histogram sz + sizeof_bin sz * n_bins h in
        (case slab_calloc env p (old_size + sizeof_bin sz * n) of
           None \<Rightarrow> None
         | Some (a', p') \<Rightarrow> Some (a', h\<lparr>bins := bins h @ replicate n zero_bin\<rparr>, slab_free env p' a)))"

text \<open>The bin of a user-defined histogram: the first that bounds the value, or the last one.\<close>

fun custom_scan :: "hist_bin list \<Rightarrow> nat \<Rightarrow> u64 \<Rightarrow> nat option \<Rightarrow> nat option" where
  "custom_scan [] i n b = b"
| "custom_scan (x # xs) i n b =
     (if ucast (upper_bound x) \<ge> n then Some i else custom_scan xs (i + 1) n (Some i))"

definition histogram_custom_bin :: "histogram \<Rightarrow> u64 \<Rightarrow> nat option" where
  "histogram_custom_bin h n = custom_scan (bins h) 0 n None"

text \<open>
  The search loop of \<open>histogram_log2_bin\<close>: \<open>Inl i\<close> when bin \<open>i\<close> has the upper bound,
  otherwise the values of \<open>i\<close> and \<open>j\<close> after the loop.
\<close>

fun log2_scan :: "u32 \<Rightarrow> hist_bin list \<Rightarrow> nat \<Rightarrow> nat \<Rightarrow> nat + nat \<times> nat" where
  "log2_scan ub [] i j = Inr (i, j)"
| "log2_scan ub (b # bs) i j =
     (let j' = (if j = 0 \<and> ub < upper_bound b then i else j) in
      if upper_bound b = ub then Inl i
      else if upper_bound b = NGX_MAX_UINT32_VALUE then Inr (i + 1, j')
      else log2_scan ub bs (i + 1) j')"

text \<open>
  Copying the bins \<open>j..<i\<close> one up with \<open>ngx_memcpy\<close> and writing a new bin at \<open>j\<close>; the copy has to stay in the array, and its
  source and destination must not overlap unless the platform moves them. They overlap when at least two bins are copied.
\<close>

definition log2_copy_overlaps :: "nat \<Rightarrow> nat \<Rightarrow> bool" where
  "log2_copy_overlaps i j \<longleftrightarrow> Suc j < i"

definition shift_bins :: "sizes \<Rightarrow> hist_bin list \<Rightarrow> nat \<Rightarrow> nat \<Rightarrow> u32 \<Rightarrow> hist_bin list option" where
  "shift_bins sz bs i j ub =
     (if j \<le> i \<and> i < length bs \<and> (log2_copy_overlaps i j \<longrightarrow> memcpy_moves sz)
      then Some (take j bs @ \<lparr>upper_bound = ub, bin_count = 0\<rparr> # take (i - j) (drop j bs) @ drop (Suc i) bs)
      else None)"

lemma log2_copy_overlaps_iff: "log2_copy_overlaps i j \<longleftrightarrow> {j..<i} \<inter> {Suc j..<Suc i} \<noteq> {}"
proof
  assume "log2_copy_overlaps i j"
  then have "Suc j \<in> {j..<i} \<inter> {Suc j..<Suc i}" by (simp add: log2_copy_overlaps_def)
  then show "{j..<i} \<inter> {Suc j..<Suc i} \<noteq> {}" by blast
qed (auto simp: log2_copy_overlaps_def)

text \<open>
  \<open>histogram_log2_bin\<close>: the index of the bin, with the (possibly moved) histogram and the pool.
  \<open>out\<close> says whether the caller passed a place for a grown histogram.
\<close>

definition histogram_log2_bin ::
  "'p nginx_env \<Rightarrow> sizes \<Rightarrow> 'p \<Rightarrow> addr \<Rightarrow> histogram \<Rightarrow> u64 \<Rightarrow> bool \<Rightarrow>
   (nat \<times> addr \<times> histogram \<times> 'p) option" where
  "histogram_log2_bin env sz p a h n out =
     (let ub = bin_log2_upper_bound n in
      case log2_scan ub (bins h) 0 0 of
        Inl i \<Rightarrow> Some (i, a, h, p)
      | Inr (i, j) \<Rightarrow>
          (case (if i = n_bins h
                 then (if out then histogram_grow env sz p a h else None)
                 else Some (a, h, p)) of
             None \<Rightarrow> (if j < n_bins h then Some (j, a, h, p) else None)
           | Some (a', h', p') \<Rightarrow>
               (case shift_bins sz (bins h') i j ub of
                  None \<Rightarrow> None
                | Some bs \<Rightarrow> Some (j, a', h'\<lparr>bins := bs\<rparr>, p'))))"

definition inc_bin :: "hist_bin list \<Rightarrow> nat \<Rightarrow> u32 \<Rightarrow> hist_bin list option" where
  "inc_bin bs i n =
     (if i < length bs then Some (bs[i := (bs ! i)\<lparr>bin_count := bin_count (bs ! i) + n\<rparr>]) else None)"

definition ngx_wa_metrics_histogram_record ::
  "'p nginx_env \<Rightarrow> sizes \<Rightarrow> 'p \<Rightarrow> addr \<Rightarrow> histogram \<Rightarrow> u64 \<Rightarrow> (addr \<times> histogram \<times> 'p) option" where
  "ngx_wa_metrics_histogram_record env sz p a h n =
     (let h1 = h\<lparr>hist_sum := hist_sum h + n\<rparr> in
      case (case h_type h1 of
              HISTOGRAM_LOG2 \<Rightarrow> histogram_log2_bin env sz p a h1 n True
            | HISTOGRAM_CUSTOM \<Rightarrow> map_option (\<lambda>i. (i, a, h1, p)) (histogram_custom_bin h1 n)) of
        None \<Rightarrow> None
      | Some (i, a', h', p') \<Rightarrow>
          (case inc_bin (bins h') i 1 of
             None \<Rightarrow> None
           | Some bs \<Rightarrow> Some (a', h'\<lparr>bins := bs\<rparr>, p')))"

text \<open>
  \<open>ngx_wa_metrics_histogram_get\<close>: the inner loop over the bins of one worker (up to the
  bin without bound) and the outer loop over the workers, adding into \<open>out\<close>.
\<close>

fun hist_get_bins ::
  "'p nginx_env \<Rightarrow> sizes \<Rightarrow> 'p \<Rightarrow> histogram_type \<Rightarrow> hist_bin list \<Rightarrow> nat \<Rightarrow> histogram \<Rightarrow> histogram option" where
  "hist_get_bins env sz p ty [] j out = Some out"
| "hist_get_bins env sz p ty (b # bs) j out =
     (case (case ty of
              HISTOGRAM_LOG2 \<Rightarrow>
                map_option (\<lambda>(i, _, out', _). (i, out'))
                  (histogram_log2_bin env sz p 0 out (ucast (upper_bound b)) False)
            | HISTOGRAM_CUSTOM \<Rightarrow>
                if j < n_bins out
                then Some (j, out\<lparr>bins := (bins out)[j := (bins out ! j)\<lparr>upper_bound := upper_bound b\<rparr>]\<rparr>)
                else None) of
        None \<Rightarrow> None
      | Some (i, out') \<Rightarrow>
          (case inc_bin (bins out') i (bin_count b) of
             None \<Rightarrow> None
           | Some obs \<Rightarrow>
               if upper_bound b = NGX_MAX_UINT32_VALUE then Some (out'\<lparr>bins := obs\<rparr>)
               else hist_get_bins env sz p ty bs (j + 1) (out'\<lparr>bins := obs\<rparr>)))"

fun ngx_wa_metrics_histogram_get ::
  "'p nginx_env \<Rightarrow> sizes \<Rightarrow> 'p \<Rightarrow> histogram list \<Rightarrow> histogram \<Rightarrow> histogram option" where
  "ngx_wa_metrics_histogram_get env sz p [] out = Some out"
| "ngx_wa_metrics_histogram_get env sz p (h # hs) out =
     (case hist_get_bins env sz p (h_type h) (bins h) 0 out of
        None \<Rightarrow> None
      | Some out' \<Rightarrow>
          ngx_wa_metrics_histogram_get env sz p hs (out'\<lparr>hist_sum := hist_sum out' + hist_sum h\<rparr>))"

text \<open>The bins a new histogram starts with.\<close>

definition initial_bins :: "u32 list option \<Rightarrow> hist_bin list" where
  "initial_bins ubs =
     (case ubs of
        Some us \<Rightarrow> map (\<lambda>u. \<lparr>upper_bound = u, bin_count = 0\<rparr>) (us @ [NGX_MAX_UINT32_VALUE])
      | None \<Rightarrow> \<lparr>upper_bound = NGX_MAX_UINT32_VALUE, bin_count = 0\<rparr> # replicate (BINS_INIT - 1) zero_bin)"

text \<open>
  The allocation loop of \<open>ngx_wa_metrics_histogram_add_locked\<close>, one histogram per worker; on
  failure the ones allocated so far are released, last first.
\<close>

fun hist_add_loop ::
  "'p nginx_env \<Rightarrow> nat \<Rightarrow> histogram \<Rightarrow> nat \<Rightarrow> 'p \<Rightarrow> addr list \<Rightarrow> addr list option \<times> 'p" where
  "hist_add_loop env sz h 0 p done = (Some (rev done), p)"
| "hist_add_loop env sz h (Suc k) p done =
     (case slab_calloc env p sz of
        None \<Rightarrow> (None, foldl (slab_free env) p done)
      | Some (a, p') \<Rightarrow> hist_add_loop env sz h k p' (a # done))"

definition ngx_wa_metrics_histogram_add_locked ::
  "'p nginx_env \<Rightarrow> sizes \<Rightarrow> nat \<Rightarrow> u32 list option \<Rightarrow> 'p \<Rightarrow> ngx_rc \<times> (addr \<times> histogram) list \<times> 'p" where
  "ngx_wa_metrics_histogram_add_locked env sz workers ubs p =
     (if (case ubs of Some us \<Rightarrow> length us \<ge> BINS_MAX | None \<Rightarrow> False) then (NGX_ABORT, [], p)
      else let h = \<lparr>h_type = (if ubs = None then HISTOGRAM_LOG2 else HISTOGRAM_CUSTOM),
                    hist_sum = 0, bins = initial_bins ubs\<rparr> in
        (case hist_add_loop env (sizeof_histogram sz + sizeof_bin sz * n_bins h) h workers p [] of
           (None, p') \<Rightarrow> (NGX_ERROR, [], p')
         | (Some as, p') \<Rightarrow> (NGX_OK, map (\<lambda>a. (a, h)) as, p')))"

section \<open>The bins in use\<close>

text \<open>
  The bins up to the first one without bound are in use; the ones behind it are free. A
  logarithmic histogram has such a bin and no two bins in use with the same bound.
\<close>

definition bounded :: "hist_bin \<Rightarrow> bool" where
  "bounded b \<longleftrightarrow> upper_bound b \<noteq> NGX_MAX_UINT32_VALUE"

definition hist_live :: "hist_bin list \<Rightarrow> hist_bin list" where
  "hist_live bs = take (Suc (length (takeWhile bounded bs))) bs"

definition log2_ok :: "hist_bin list \<Rightarrow> bool" where
  "log2_ok bs \<longleftrightarrow> \<not> list_all bounded bs \<and> distinct (map upper_bound (hist_live bs)) \<and> length bs \<le> BINS_MAX"

definition hist_total :: "hist_bin list \<Rightarrow> u32" where
  "hist_total bs = sum_list (map bin_count (hist_live bs))"

definition hist_count :: "hist_bin list \<Rightarrow> u32 \<Rightarrow> u32" where
  "hist_count bs u = sum_list (map bin_count (filter (\<lambda>b. upper_bound b = u) (hist_live bs)))"

lemma hist_live_append:
  "list_all bounded us \<Longrightarrow> \<not> bounded m \<Longrightarrow> hist_live (us @ m # rest) = us @ [m]"
  by (simp add: hist_live_def takeWhile_tail list_all_iff takeWhile_append)

lemma log2_split:
  assumes "\<not> list_all bounded bs"
  obtains us m rest where "bs = us @ m # rest" "list_all bounded us" "\<not> bounded m"
  using assms split_list_first_prop [of bs "\<lambda>b. \<not> bounded b"] by (auto simp: list_all_iff)

lemma log2_okE:
  assumes "log2_ok bs"
  obtains us m rest where "bs = us @ m # rest" "list_all bounded us" "\<not> bounded m"
    "distinct (map upper_bound (us @ [m]))" "hist_live bs = us @ [m]" "length bs \<le> BINS_MAX"
proof -
  from assms log2_split obtain us m rest where s: "bs = us @ m # rest" "list_all bounded us" "\<not> bounded m"
    unfolding log2_ok_def by blast
  with assms show thesis by (intro that [OF s]) (simp_all add: log2_ok_def hist_live_append)
qed

lemma log2_okI:
  "list_all bounded us \<Longrightarrow> \<not> bounded m \<Longrightarrow> distinct (map upper_bound (us @ [m])) \<Longrightarrow>
     length (us @ m # rest) \<le> BINS_MAX \<Longrightarrow> log2_ok (us @ m # rest)"
  by (simp add: log2_ok_def hist_live_append)

text \<open>The search finds the bin, or stops behind the bin without bound.\<close>

lemma log2_scan_found:
  assumes "ub \<in> upper_bound ` set (us @ [m])" and "list_all bounded us" and "\<not> bounded m"
  shows "\<exists>k < Suc (length us). log2_scan ub (us @ m # rest) i j = Inl (i + k) \<and> upper_bound ((us @ [m]) ! k) = ub"
  using assms
proof (induction us arbitrary: i j)
  case (Cons b us)
  show ?case
  proof (cases "upper_bound b = ub")
    case True
    then show ?thesis by (intro exI [of _ 0]) simp
  next
    case False
    with Cons.prems have "ub \<in> upper_bound ` set (us @ [m])" "list_all bounded us" and b: "bounded b" by auto
    from Cons.IH [OF this(1,2) Cons.prems(3), of "Suc i" "if j = 0 \<and> ub < upper_bound b then i else j"]
    obtain k where "k < Suc (length us)"
      "log2_scan ub (us @ m # rest) (Suc i) (if j = 0 \<and> ub < upper_bound b then i else j) = Inl (Suc i + k)"
      "upper_bound ((us @ [m]) ! k) = ub" by blast
    with False b show ?thesis by (intro exI [of _ "Suc k"]) (simp add: bounded_def Let_def)
  qed
qed (simp add: Let_def)

lemma log2_scan_missing:
  assumes "ub \<notin> upper_bound ` set (us @ [m])" and "list_all bounded us" and "\<not> bounded m"
  shows "\<exists>j'. log2_scan ub (us @ m # rest) i j = Inr (i + Suc (length us), j') \<and> (j' = j \<or> i \<le> j' \<and> j' \<le> i + length us)"
  using assms
proof (induction us arbitrary: i j)
  case (Cons b us)
  let ?j = "if j = 0 \<and> ub < upper_bound b then i else j"
  from Cons.prems have "ub \<notin> upper_bound ` set (us @ [m])" "list_all bounded us" by auto
  from Cons.IH [OF this Cons.prems(3), of "Suc i" ?j] obtain j'
    where "log2_scan ub (us @ m # rest) (Suc i) ?j = Inr (Suc i + Suc (length us), j')"
      "j' = ?j \<or> Suc i \<le> j' \<and> j' \<le> Suc i + length us" by blast
  with Cons.prems show ?case by (intro exI [of _ j']) (auto simp: bounded_def Let_def split: if_splits)
qed (auto simp: bounded_def Let_def)

text \<open>Counting into one bin in use.\<close>

lemma length_takeWhile_bounded:
  "length (takeWhile bounded bs) = length (takeWhile (\<lambda>u. u \<noteq> NGX_MAX_UINT32_VALUE) (map upper_bound bs))"
  by (simp add: takeWhile_map bounded_def [abs_def] comp_def)

lemma list_all_bounded: "list_all bounded bs = list_all (\<lambda>u. u \<noteq> NGX_MAX_UINT32_VALUE) (map upper_bound bs)"
  by (simp add: list.pred_map bounded_def [abs_def] comp_def)

lemma sum_list_map_update:
  fixes f :: "'a \<Rightarrow> 'b :: ab_group_add"
  shows "i < length xs \<Longrightarrow> sum_list (map f (xs[i := x])) = sum_list (map f xs) + (f x - f (xs ! i))"
proof (induction xs arbitrary: i)
  case (Cons y xs)
  then show ?case by (cases i) (auto simp: algebra_simps)
qed simp

lemma hist_live_update:
  assumes "upper_bound b = upper_bound (bs ! i)" and "i < length bs"
  shows "hist_live (bs[i := b]) = (hist_live bs)[i := b]"
proof -
  have "map upper_bound (bs[i := b]) = map upper_bound bs"
    using assms by (simp add: map_update list_update_same_conv)
  then show ?thesis by (simp add: hist_live_def length_takeWhile_bounded take_update_swap)
qed

lemma hist_live_prefix: "i < length (hist_live bs) \<Longrightarrow> i < length bs \<and> hist_live bs ! i = bs ! i"
  by (simp add: hist_live_def)

lemma inc_bin_live:
  assumes ok: "log2_ok bs" and i: "i < length (hist_live bs)"
  shows "\<exists>bs'. inc_bin bs i c = Some bs' \<and> log2_ok bs' \<and> length bs' = length bs \<and>
     hist_total bs' = hist_total bs + c \<and>
     (\<forall>u. hist_count bs' u = hist_count bs u + (if u = upper_bound (bs ! i) then c else 0)) \<and>
     map upper_bound (hist_live bs') = map upper_bound (hist_live bs)"
proof -
  let ?b = "(bs ! i)\<lparr>bin_count := bin_count (bs ! i) + c\<rparr>"
  from hist_live_prefix [OF i] have i': "i < length bs" "hist_live bs ! i = bs ! i" by simp_all
  have live: "hist_live (bs[i := ?b]) = (hist_live bs)[i := ?b]" by (rule hist_live_update) (simp_all add: i')
  have ubs: "map upper_bound (bs[i := ?b]) = map upper_bound bs"
    using i' by (simp add: map_update list_update_same_conv)
  have ubs': "map upper_bound ((hist_live bs)[i := ?b]) = map upper_bound (hist_live bs)"
    using i i' by (simp add: map_update list_update_same_conv)
  have "log2_ok (bs[i := ?b])"
    using ok by (simp add: log2_ok_def live ubs' list_all_bounded ubs)
  moreover have "hist_total (bs[i := ?b]) = hist_total bs + c"
    by (simp add: hist_total_def live sum_list_map_update i i')
  moreover have "hist_count (bs[i := ?b]) u = hist_count bs u + (if u = upper_bound (bs ! i) then c else 0)" for u
    by (simp add: hist_count_def live sum_list_map_filter' sum_list_map_update i i')
  ultimately show ?thesis using i' live ubs' by (simp add: inc_bin_def)
qed

text \<open>
  The bin of a value: always one in use; the counts do not change. Its bound is the bound of the value
  when there is room: the bin exists, one is free, or the histogram can grow.
\<close>

definition log2_room :: "'p nginx_env \<Rightarrow> sizes \<Rightarrow> 'p \<Rightarrow> addr \<Rightarrow> histogram \<Rightarrow> u64 \<Rightarrow> bool \<Rightarrow> bool" where
  "log2_room env sz p a h n out \<longleftrightarrow>
     bin_log2_upper_bound n \<in> upper_bound ` set (hist_live (bins h)) \<or>
     length (hist_live (bins h)) < n_bins h \<or> out \<and> histogram_grow env sz p a h \<noteq> None"

text \<open>The new bin goes before at least two bins in use, so that the copy overlaps.\<close>

definition shifts_many :: "histogram \<Rightarrow> u64 \<Rightarrow> bool" where
  "shifts_many h n \<longleftrightarrow> (case log2_scan (bin_log2_upper_bound n) (bins h) 0 0 of Inl i \<Rightarrow> False | Inr (i, j) \<Rightarrow> log2_copy_overlaps i j)"

definition copy_undefined :: "'p nginx_env \<Rightarrow> sizes \<Rightarrow> 'p \<Rightarrow> addr \<Rightarrow> histogram \<Rightarrow> u64 \<Rightarrow> bool \<Rightarrow> bool" where
  "copy_undefined env sz p a h n out \<longleftrightarrow> log2_room env sz p a h n out \<and> shifts_many h n \<and> \<not> memcpy_moves sz"

lemma copy_defined [simp]: "memcpy_moves sz \<Longrightarrow> \<not> copy_undefined env sz p a h n out"
  by (simp add: copy_undefined_def)

lemma shift_bins_ok:
  assumes "list_all bounded us" and "\<not> bounded m" and "distinct (map upper_bound (us @ [m]))"
    and "ub \<notin> upper_bound ` set (us @ [m])" and "j \<le> length us" and "rest \<noteq> []"
    and "length (us @ m # rest) \<le> BINS_MAX" and "log2_copy_overlaps (Suc (length us)) j \<longrightarrow> memcpy_moves sz"
  shows "\<exists>bs. shift_bins sz (us @ m # rest) (Suc (length us)) j ub = Some bs \<and> log2_ok bs \<and>
     length bs = length (us @ m # rest) \<and> hist_total bs = hist_total (us @ m # rest) \<and>
     hist_count bs u = hist_count (us @ m # rest) u \<and>
     j < length (hist_live bs) \<and> upper_bound (bs ! j) = ub \<and>
     set (map upper_bound (hist_live bs)) = insert ub (set (map upper_bound (us @ [m])))"
proof -
  let ?b = "\<lparr>upper_bound = ub, bin_count = 0\<rparr>"
  let ?us = "take j us @ ?b # drop j us"
  obtain r rs where rest: "rest = r # rs" using assms(6) by (cases rest) auto
  have b: "bounded ?b" using assms(2,4) by (simp add: bounded_def)
  then have all: "list_all bounded ?us"
    using assms(1) by (auto simp: list_all_iff dest: in_set_takeD in_set_dropD)
  have bs: "shift_bins sz (us @ m # rest) (Suc (length us)) j ub = Some (?us @ m # rs)"
    using assms(5,8) by (simp add: shift_bins_def rest Suc_diff_le)
  have perm: "mset ?us = add_mset ?b (mset us)"
    by (metis append_take_drop_id mset.simps(2) mset_append union_mset_add_mset_right)
  have "image_mset upper_bound (mset ?us) = add_mset ub (image_mset upper_bound (mset us))" unfolding perm by simp
  then have perm': "mset (map upper_bound (?us @ [m])) = mset (ub # map upper_bound (us @ [m]))"
    by simp
  have "distinct (map upper_bound (?us @ [m]))"
    unfolding mset_eq_imp_distinct_iff [OF perm'] using assms(3,4) by auto
  moreover have "length (?us @ m # rs) = length (us @ m # rest)" using assms(5) by (simp add: rest)
  ultimately have "log2_ok (?us @ m # rs)" using log2_okI [OF all assms(2)] assms(7) by metis
  moreover have "sum_list (map f ?us) = f ?b + sum_list (map f us)" for f :: "hist_bin \<Rightarrow> u32"
    using perm by (metis image_mset_add_mset mset_map sum_mset.add_mset sum_mset_sum_list)
  then have "hist_total (?us @ m # rs) = hist_total (us @ m # rest)"
    "hist_count (?us @ m # rs) u = hist_count (us @ m # rest) u"
    unfolding hist_total_def hist_count_def hist_live_append [OF all assms(2)]
      hist_live_append [OF assms(1,2)] sum_list_map_filter' map_append sum_list_append by simp_all
  moreover have "set (map upper_bound (?us @ [m])) = insert ub (set (map upper_bound (us @ [m])))"
    using mset_eq_setD [OF perm'] by simp
  moreover have "j < length (hist_live (?us @ m # rs))" "upper_bound ((?us @ m # rs) ! j) = ub"
    using assms(5) by (simp_all add: hist_live_append [OF all assms(2), simplified] nth_append)
  ultimately show ?thesis
    using bs \<open>length (?us @ m # rs) = _\<close> unfolding hist_live_append [OF all assms(2), symmetric, of rs] by blast
qed

lemma histogram_grow_SomeD:
  assumes "histogram_grow env sz p a h = Some (a', h', p')" and "n_bins h \<le> BINS_MAX"
  shows "\<exists>n > 0. h' = h\<lparr>bins := bins h @ replicate n zero_bin\<rparr> \<and> n_bins h' \<le> BINS_MAX"
  using assms
  by (intro exI [of _ "min BINS_INCREMENT (BINS_MAX - n_bins h)"])
    (auto simp: histogram_grow_def Let_def bins_consts split: if_splits option.splits)

lemma histogram_log2_bin_spec:
  assumes ok: "log2_ok (bins h)" and ub: "ub = bin_log2_upper_bound n" and cp: "\<not> copy_undefined env sz p a h n out"
  shows "\<exists>i a' h' p'. histogram_log2_bin env sz p a h n out = Some (i, a', h', p') \<and> log2_ok (bins h') \<and>
     n_bins h \<le> n_bins h' \<and> (\<not> out \<longrightarrow> n_bins h' = n_bins h) \<and> h_type h' = h_type h \<and> hist_sum h' = hist_sum h \<and>
     i < length (hist_live (bins h')) \<and>
     hist_total (bins h') = hist_total (bins h) \<and> (\<forall>u. hist_count (bins h') u = hist_count (bins h) u) \<and>
     (if log2_room env sz p a h n out
      then upper_bound (bins h' ! i) = ub \<and>
           set (map upper_bound (hist_live (bins h'))) = insert ub (set (map upper_bound (hist_live (bins h))))
      else h' = h)"
proof -
  from ok obtain us m rest where s: "bins h = us @ m # rest" "list_all bounded us" "\<not> bounded m"
    "distinct (map upper_bound (us @ [m]))" and live: "hist_live (bins h) = us @ [m]" and len: "n_bins h \<le> BINS_MAX"
    by (rule log2_okE)
  show ?thesis
  proof (cases "ub \<in> upper_bound ` set (us @ [m])")
    case True
    from log2_scan_found [OF True s(2,3), of rest 0 0] obtain k
      where k: "k < Suc (length us)" "log2_scan ub (bins h) 0 0 = Inl k" "upper_bound ((us @ [m]) ! k) = ub"
      by (auto simp: s(1))
    have "upper_bound (bins h ! k) = ub" using k s(1) by (simp add: nth_append split: if_splits)
    moreover have "insert ub (set (map upper_bound (hist_live (bins h)))) = set (map upper_bound (hist_live (bins h)))"
      using True live by auto
    ultimately show ?thesis using k ok live by (simp add: histogram_log2_bin_def ub [symmetric])
  next
    case False
    from log2_scan_missing [OF False s(2,3), of rest 0 0] obtain j
      where j: "j \<le> length us" "log2_scan ub (bins h) 0 0 = Inr (Suc (length us), j)" by (auto simp: s(1))
    have many: "shifts_many h n = log2_copy_overlaps (Suc (length us)) j" using j(2) ub by (simp add: shifts_many_def)
    show ?thesis
    proof (cases "rest = []")
      case full: True
      show ?thesis
      proof (cases "out \<and> histogram_grow env sz p a h \<noteq> None")
        case True
        then obtain a' h' p' where g: "histogram_grow env sz p a h = Some (a', h', p')" by auto
        from histogram_grow_SomeD [OF g len] obtain k where k: "k > 0" "h' = h\<lparr>bins := bins h @ replicate k zero_bin\<rparr>"
          "n_bins h' \<le> BINS_MAX" by blast
        then have b': "bins h' = us @ m # replicate k zero_bin" and ne: "replicate k zero_bin \<noteq> []"
          using s(1) full by simp_all
        have le: "length (us @ m # replicate k zero_bin) \<le> BINS_MAX" using k(3) b' by simp
        have same: "hist_live (bins h') = hist_live (bins h)"
          unfolding b' live hist_live_append [OF s(2,3)] ..
        then have c: "hist_total (us @ m # replicate k zero_bin) = hist_total (bins h)"
          "hist_count (us @ m # replicate k zero_bin) u = hist_count (bins h) u" for u
          by (simp_all add: hist_total_def hist_count_def flip: b')
        have room: "log2_room env sz p a h n out" using True by (simp add: log2_room_def)
        then have mv: "log2_copy_overlaps (Suc (length us)) j \<longrightarrow> memcpy_moves sz" using cp many by (auto simp: copy_undefined_def)
        from shift_bins_ok [OF s(2-4) False j(1) ne le mv] obtain bs
          where bs: "shift_bins sz (bins h') (Suc (length us)) j ub = Some bs" "log2_ok bs" "length bs = n_bins h'"
            "hist_total bs = hist_total (bins h)" "j < length (hist_live bs)" "upper_bound (bs ! j) = ub"
            "set (map upper_bound (hist_live bs)) = insert ub (set (map upper_bound (us @ [m])))"
            unfolding b' c by blast
        have cnt: "hist_count bs u = hist_count (bins h) u" for u
          using shift_bins_ok [OF s(2-4) False j(1) ne le mv, of u] bs(1) unfolding b' c by auto
        have i: "Suc (length us) = n_bins h" using s(1) full by simp
        have "histogram_log2_bin env sz p a h n out = Some (j, a', h'\<lparr>bins := bs\<rparr>, p')"
          using True g j bs(1) by (simp add: histogram_log2_bin_def i flip: ub)
        moreover have "h_type h' = h_type h" "hist_sum h' = hist_sum h" "n_bins h \<le> n_bins h'" using k(2) by simp_all
        ultimately show ?thesis using bs cnt live True room by simp
      next
        case no: False
        then have "(if out then histogram_grow env sz p a h else None) = None" by metis
        with j s(1) full have "histogram_log2_bin env sz p a h n out = Some (j, a, h, p)"
          by (simp add: histogram_log2_bin_def flip: ub)
        moreover have "\<not> log2_room env sz p a h n out"
          using no False live full s(1) by (auto simp: log2_room_def simp flip: ub)
        ultimately show ?thesis using ok live j by simp
      qed
    next
      case ne: False
      have le: "length (us @ m # rest) \<le> BINS_MAX" using len s(1) by simp
      have room: "log2_room env sz p a h n out" using ne live s(1) by (simp add: log2_room_def)
      then have mv: "log2_copy_overlaps (Suc (length us)) j \<longrightarrow> memcpy_moves sz" using cp many by (auto simp: copy_undefined_def)
      from shift_bins_ok [OF s(2-4) False j(1) ne le mv] obtain bs
        where bs: "shift_bins sz (bins h) (Suc (length us)) j ub = Some bs" "log2_ok bs" "length bs = n_bins h"
          "hist_total bs = hist_total (bins h)" "j < length (hist_live bs)" "upper_bound (bs ! j) = ub"
          "set (map upper_bound (hist_live bs)) = insert ub (set (map upper_bound (us @ [m])))"
        unfolding s(1) by blast
      have cnt: "hist_count bs u = hist_count (bins h) u" for u
        using shift_bins_ok [OF s(2-4) False j(1) ne le mv, of u] bs(1) unfolding s(1) by auto
      have "histogram_log2_bin env sz p a h n out = Some (j, a, h\<lparr>bins := bs\<rparr>, p)"
        using ne j bs(1) s(1) by (simp add: histogram_log2_bin_def flip: ub)
      then show ?thesis using bs cnt live room by simp
    qed
  qed
qed

text \<open>The copy that overlaps, on a platform that does not promise to move.\<close>

lemma histogram_log2_bin_undefined:
  assumes "log2_ok (bins h)" and "copy_undefined env sz p a h n out"
  shows "histogram_log2_bin env sz p a h n out = None"
proof -
  let ?ub = "bin_log2_upper_bound n"
  from assms(1) obtain us m rest where s: "bins h = us @ m # rest" "list_all bounded us" "\<not> bounded m"
    and live: "hist_live (bins h) = us @ [m]" by (rule log2_okE)
  from assms(2) have room: "log2_room env sz p a h n out" and many: "shifts_many h n" and no: "\<not> memcpy_moves sz"
    by (simp_all add: copy_undefined_def)
  have new: "?ub \<notin> upper_bound ` set (us @ [m])"
    using log2_scan_found [OF _ s(2,3), of ?ub rest 0 0] many by (auto simp: shifts_many_def s(1))
  from log2_scan_missing [OF this s(2,3), of rest 0 0] obtain j
    where j: "log2_scan ?ub (bins h) 0 0 = Inr (Suc (length us), j)" by (auto simp: s(1))
  with many no have "shift_bins sz bs (Suc (length us)) j ?ub = None" for bs by (simp add: shifts_many_def shift_bins_def)
  moreover have "out \<and> histogram_grow env sz p a h \<noteq> None" if "Suc (length us) = n_bins h"
    using room new live that by (auto simp: log2_room_def)
  ultimately show ?thesis using j by (auto simp: histogram_log2_bin_def)
qed

section \<open>Upper bounds\<close>

lemma log2_loop_bounds:
  "0 < n \<Longrightarrow> \<exists>d. log2_loop n ub = push_bit d ub \<and> 2 ^ d \<le> n \<and> n < 2 ^ Suc d"
proof (induction n ub rule: log2_loop.induct)
  case (1 n ub)
  show ?case
  proof (cases "n div 2 = 0")
    case True
    then show ?thesis using 1 by (intro exI [of _ 0]) (auto simp: log2_loop.simps [of n ub])
  next
    case False
    with 1 obtain d where "log2_loop (n div 2) (push_bit 1 ub) = push_bit d (push_bit 1 ub)" "2 ^ d \<le> n div 2"
      "n div 2 < 2 ^ Suc d" by auto
    with False show ?thesis
      by (intro exI [of _ "Suc d"]) (auto simp: log2_loop.simps [of n ub] push_bit_push_bit)
  qed
qed

lemma max_half: "(ucast (NGX_MAX_UINT32_VALUE div 2) :: u64) = 2147483647"
  by (simp add: NGX_MAX_UINT32_VALUE_def)

lemma bin_log2_upper_bound_pow2:
  assumes "unat n < 2 ^ 31"
  shows "\<exists>k \<le> 31. unat (bin_log2_upper_bound n) = 2 ^ k \<and> unat n \<le> 2 ^ k \<and> (0 < k \<longrightarrow> 2 ^ (k - 1) < unat n)"
proof (cases "n \<le> 1")
  case True
  then have "unat n \<le> 1" by (simp add: word_le_nat_alt)
  with True show ?thesis by (intro exI [of _ 0]) (simp add: bin_log2_upper_bound_def)
next
  case False
  then have n1: "1 < unat n" by (simp add: word_le_nat_alt)
  have le: "\<not> n > ucast (NGX_MAX_UINT32_VALUE div 2)"
    using assms unfolding max_half by (simp add: word_less_nat_alt)
  have m: "unat (n - 1) = unat n - 1" using n1 by (simp add: unat_sub word_le_nat_alt)
  with n1 assms log2_loop_bounds [of "unat (n - 1)" 2] obtain d
    where d: "log2_loop (unat (n - 1)) 2 = push_bit d 2" "2 ^ d \<le> unat n - 1" "unat n - 1 < 2 ^ Suc d" by auto
  have "(2::nat) ^ d < 2 ^ 31" using d(2) n1 assms by linarith
  then have d31: "d < 31" by (rule power_less_imp_less_exp [rotated]) simp
  have "unat (push_bit d (2::u32)) = 2 ^ Suc d"
  proof -
    have "(2::nat) ^ Suc d < 2 ^ 32" using d31 by (intro power_strict_increasing) simp_all
    moreover have "push_bit d (2::u32) = of_nat (2 ^ Suc d)" by (simp add: push_bit_eq_mult)
    ultimately show ?thesis using unat_of_nat_u32 by metis
  qed
  moreover have "unat n \<le> 2 ^ Suc d" "2 ^ d < unat n" using d(2,3) n1 by linarith+
  ultimately show ?thesis using False le d(1) d31 by (intro exI [of _ "Suc d"]) (simp add: bin_log2_upper_bound_def)
qed

lemma bin_log2_upper_bound_top: "2 ^ 31 \<le> unat n \<Longrightarrow> bin_log2_upper_bound n = NGX_MAX_UINT32_VALUE"
  unfolding bin_log2_upper_bound_def max_half by (auto simp: word_le_nat_alt word_less_nat_alt)

section \<open>Recording and summing\<close>

lemma log2_room_sum: "log2_room env sz p a (h\<lparr>hist_sum := x\<rparr>) n out = log2_room env sz p a h n out"
  by (simp add: log2_room_def histogram_grow_def Let_def split: option.splits)

lemma copy_undefined_sum: "copy_undefined env sz p a (h\<lparr>hist_sum := x\<rparr>) n out = copy_undefined env sz p a h n out"
  by (simp add: copy_undefined_def log2_room_sum shifts_many_def)

lemma histogram_record_log2:
  assumes ok: "log2_ok (bins h)" and ty: "h_type h = HISTOGRAM_LOG2" and cp: "\<not> copy_undefined env sz p a h n True"
  shows "\<exists>a' h' p'. ngx_wa_metrics_histogram_record env sz p a h n = Some (a', h', p') \<and>
     log2_ok (bins h') \<and> h_type h' = HISTOGRAM_LOG2 \<and> hist_sum h' = hist_sum h + n \<and>
     hist_total (bins h') = hist_total (bins h) + 1 \<and>
     (log2_room env sz p a h n True \<longrightarrow> (\<forall>u. hist_count (bins h') u =
        hist_count (bins h) u + (if u = bin_log2_upper_bound n then 1 else 0)))"
proof -
  let ?h = "h\<lparr>hist_sum := hist_sum h + n\<rparr>"
  from histogram_log2_bin_spec [OF _ refl, of ?h env sz p a n True] ok cp obtain i a' h' p'
    where b: "histogram_log2_bin env sz p a ?h n True = Some (i, a', h', p')"
      and h': "log2_ok (bins h')" "h_type h' = h_type h" "hist_sum h' = hist_sum h + n" "i < length (hist_live (bins h'))"
        "hist_total (bins h') = hist_total (bins h)" "\<And>u. hist_count (bins h') u = hist_count (bins h) u"
        "log2_room env sz p a h n True \<Longrightarrow> upper_bound (bins h' ! i) = bin_log2_upper_bound n"
    by (fastforce simp: log2_room_sum copy_undefined_sum)
  from inc_bin_live [OF h'(1,4), of 1] obtain bs where "inc_bin (bins h') i 1 = Some bs" "log2_ok bs"
      "hist_total bs = hist_total (bins h') + 1"
      "\<forall>u. hist_count bs u = hist_count (bins h') u + (if u = upper_bound (bins h' ! i) then 1 else 0)" by blast
  with b h' ty show ?thesis by (simp add: ngx_wa_metrics_histogram_record_def)
qed

text \<open>
  Summing one worker into \<open>out\<close>. \<open>reported b\<close> is the bound under which the bin \<open>b\<close> is
  reported; \<open>counted bs u\<close> is what the bins \<open>bs\<close> add to the bound \<open>u\<close>.
\<close>

definition reported :: "hist_bin \<Rightarrow> u32" where
  "reported b = bin_log2_upper_bound (ucast (upper_bound b))"

definition counted :: "hist_bin list \<Rightarrow> u32 \<Rightarrow> u32" where
  "counted bs u = sum_list (map bin_count (filter (\<lambda>b. reported b = u) bs))"

lemma hist_live_Cons: "hist_live (b # bs) = (if bounded b then b # hist_live bs else [b])"
  by (simp add: hist_live_def)

lemma hist_live_Nil [simp]: "hist_live [] = []"
  by (simp add: hist_live_def)

lemma log2_room_card:
  assumes "set (map upper_bound (hist_live (bins out))) \<subseteq> U" and "bin_log2_upper_bound n \<in> U"
    and "finite U" and "card U \<le> n_bins out" and ok: "log2_ok (bins out)"
  shows "log2_room env sz p a out n False"
proof (rule ccontr)
  assume "\<not> ?thesis"
  then have nin: "bin_log2_upper_bound n \<notin> set (map upper_bound (hist_live (bins out)))"
    and full: "n_bins out \<le> length (hist_live (bins out))" by (auto simp: log2_room_def)
  from ok have "card (set (map upper_bound (hist_live (bins out)))) = length (hist_live (bins out))"
    by (metis distinct_card length_map log2_ok_def)
  moreover have "card (insert (bin_log2_upper_bound n) (set (map upper_bound (hist_live (bins out))))) \<le> card U"
    using assms(1-3) by (intro card_mono) auto
  ultimately show False using nin full assms(4) by simp
qed

lemma hist_get_bins_log2:
  assumes "log2_ok (bins out)" and "set (map upper_bound (hist_live (bins out))) \<subseteq> U"
    and "reported ` set (hist_live bs) \<subseteq> U" and "finite U" and "card U \<le> n_bins out" and "memcpy_moves sz"
  shows "\<exists>out'. hist_get_bins env sz p HISTOGRAM_LOG2 bs j out = Some out' \<and> log2_ok (bins out') \<and>
     n_bins out' = n_bins out \<and> hist_sum out' = hist_sum out \<and>
     set (map upper_bound (hist_live (bins out'))) \<subseteq> U \<and>
     hist_total (bins out') = hist_total (bins out) + hist_total bs \<and>
     (\<forall>u. hist_count (bins out') u = hist_count (bins out) u + counted (hist_live bs) u)"
  using assms
proof (induction bs arbitrary: j out)
  case Nil
  then show ?case by (simp add: hist_total_def counted_def)
next
  case (Cons b bs)
  let ?n = "ucast (upper_bound b) :: u64"
  have rb: "reported b \<in> U" using Cons.prems(3) by (simp add: hist_live_Cons split: if_splits)
  have room: "log2_room env sz p 0 out ?n False"
    by (rule log2_room_card [OF Cons.prems(2) _ Cons.prems(4,5,1)]) (use rb in \<open>simp add: reported_def\<close>)
  from histogram_log2_bin_spec [OF Cons.prems(1) refl, of env sz p 0 ?n False] Cons.prems(6) room obtain i a' o1 p'
    where o1: "histogram_log2_bin env sz p 0 out ?n False = Some (i, a', o1, p')" "log2_ok (bins o1)"
      "n_bins o1 = n_bins out" "hist_sum o1 = hist_sum out" "i < length (hist_live (bins o1))"
      "hist_total (bins o1) = hist_total (bins out)" "\<forall>u. hist_count (bins o1) u = hist_count (bins out) u"
      "upper_bound (bins o1 ! i) = reported b"
      "set (map upper_bound (hist_live (bins o1))) = insert (reported b) (set (map upper_bound (hist_live (bins out))))"
    unfolding reported_def by auto
  from inc_bin_live [OF o1(2,5), of "bin_count b"] obtain obs
    where obs: "inc_bin (bins o1) i (bin_count b) = Some obs" "log2_ok obs" "length obs = n_bins o1"
      "hist_total obs = hist_total (bins o1) + bin_count b"
      "\<forall>u. hist_count obs u = hist_count (bins o1) u + (if u = reported b then bin_count b else 0)"
      "map upper_bound (hist_live obs) = map upper_bound (hist_live (bins o1))"
    unfolding o1(8) by blast
  let ?o = "o1\<lparr>bins := obs\<rparr>"
  have "upper_bound ` set (hist_live obs) = insert (reported b) (upper_bound ` set (hist_live (bins out)))"
    using obs(6) o1(9) by (metis list.set_map)
  with rb Cons.prems(2) have sub: "set (map upper_bound (hist_live (bins ?o))) \<subseteq> U"
    and sub': "upper_bound ` set (hist_live obs) \<subseteq> U" by simp_all
  show ?case
  proof (cases "bounded b")
    case True
    have "reported ` set (hist_live bs) \<subseteq> U" using Cons.prems(3) True by (simp add: hist_live_Cons)
    from Cons.IH [OF _ sub this Cons.prems(4), of "j + 1"] obs o1 Cons.prems(5,6) obtain out'
      where "hist_get_bins env sz p HISTOGRAM_LOG2 bs (j + 1) ?o = Some out'" "log2_ok (bins out')"
        "n_bins out' = n_bins out" "hist_sum out' = hist_sum out"
        "set (map upper_bound (hist_live (bins out'))) \<subseteq> U" "hist_total (bins out') = hist_total obs + hist_total bs"
        "\<forall>u. hist_count (bins out') u = hist_count obs u + counted (hist_live bs) u" by auto
    with True obs o1 show ?thesis
      by (simp add: bounded_def hist_total_def counted_def hist_live_Cons)
  next
    case False
    with obs(1-5) o1(1-8) sub' show ?thesis by (simp add: bounded_def hist_total_def counted_def hist_live_Cons)
  qed
qed

lemma histogram_get_log2:
  assumes "log2_ok (bins out)" and "set (map upper_bound (hist_live (bins out))) \<subseteq> U"
    and "\<And>h. h \<in> set hs \<Longrightarrow> h_type h = HISTOGRAM_LOG2 \<and> reported ` set (hist_live (bins h)) \<subseteq> U"
    and "finite U" and "card U \<le> n_bins out" and "memcpy_moves sz"
  shows "\<exists>out'. ngx_wa_metrics_histogram_get env sz p hs out = Some out' \<and> log2_ok (bins out') \<and>
     hist_sum out' = hist_sum out + sum_list (map hist_sum hs) \<and>
     hist_total (bins out') = hist_total (bins out) + sum_list (map (\<lambda>h. hist_total (bins h)) hs) \<and>
     (\<forall>u. hist_count (bins out') u =
        hist_count (bins out) u + sum_list (map (\<lambda>h. counted (hist_live (bins h)) u) hs))"
  using assms
proof (induction hs arbitrary: out)
  case (Cons h hs)
  then have h: "h_type h = HISTOGRAM_LOG2" "reported ` set (hist_live (bins h)) \<subseteq> U" by auto
  from hist_get_bins_log2 [OF Cons.prems(1,2) h(2) Cons.prems(4-6), of env p 0] obtain o1
    where o1: "hist_get_bins env sz p HISTOGRAM_LOG2 (bins h) 0 out = Some o1" "log2_ok (bins o1)"
      "n_bins o1 = n_bins out" "hist_sum o1 = hist_sum out" "set (map upper_bound (hist_live (bins o1))) \<subseteq> U"
      "hist_total (bins o1) = hist_total (bins out) + hist_total (bins h)"
      "\<forall>u. hist_count (bins o1) u = hist_count (bins out) u + counted (hist_live (bins h)) u" by blast
  let ?o = "o1\<lparr>hist_sum := hist_sum o1 + hist_sum h\<rparr>"
  from Cons.IH [of ?o] Cons.prems o1 obtain out' where "ngx_wa_metrics_histogram_get env sz p hs ?o = Some out'"
    "log2_ok (bins out')" "hist_sum out' = hist_sum ?o + sum_list (map hist_sum hs)"
    "hist_total (bins out') = hist_total (bins o1) + sum_list (map (\<lambda>h. hist_total (bins h)) hs)"
    "\<forall>u. hist_count (bins out') u = hist_count (bins o1) u + sum_list (map (\<lambda>h. counted (hist_live (bins h)) u) hs)"
    by auto
  with h o1 show ?case by (simp add: add.assoc)
qed simp

text \<open>The bin of a user-defined histogram.\<close>

lemma custom_scan_spec:
  assumes "xs \<noteq> []"
  shows "\<exists>k < length xs. custom_scan xs i n b = Some (i + k) \<and> (\<forall>l < k. ucast (upper_bound (xs ! l)) < n) \<and>
     (n \<le> ucast (upper_bound (xs ! k)) \<or> k = length xs - 1)"
  using assms
proof (induction xs arbitrary: i b)
  case (Cons x xs)
  show ?case
  proof (cases "n \<le> ucast (upper_bound x) \<or> xs = []")
    case True
    then show ?thesis by (intro exI [of _ 0]) auto
  next
    case False
    with Cons.IH [of "i + 1" "Some i"] obtain k where "k < length xs"
      "custom_scan xs (i + 1) n (Some i) = Some (i + 1 + k)" "\<forall>l < k. ucast (upper_bound (xs ! l)) < n"
      "n \<le> ucast (upper_bound (xs ! k)) \<or> k = length xs - 1" by blast
    with False show ?thesis by (intro exI [of _ "Suc k"]) (auto simp: less_Suc_eq_0_disj)
  qed
qed simp

lemma hist_add_loop_spec:
  "hist_add_loop env sz h k p done = (r, p') \<Longrightarrow> (\<And>p a. live (slab_free env p a) = live p - {a}) \<Longrightarrow>
   (\<And>p n a p'. slab_calloc env p n = Some (a, p') \<Longrightarrow> a \<notin> live p \<and> live p' = insert a (live p)) \<Longrightarrow>
   distinct done \<Longrightarrow> set done \<subseteq> live p \<Longrightarrow>
   (case r of
      None \<Rightarrow> live p' = live p - set done
    | Some as \<Rightarrow> length as = length done + k \<and> distinct as \<and> live p' = live p \<union> set as \<and>
        set as \<inter> live p = set done)"
proof (induction k arbitrary: p "done")
  case (Suc k)
  show ?case
  proof (cases "slab_calloc env p sz")
    case None
    have fold: "live (foldl (slab_free env) q ds) = live q - set ds" for q ds
      by (induction ds arbitrary: q) (auto simp: Suc.prems(2))
    from None Suc.prems(1) show ?thesis by (auto simp: fold)
  next
    case (Some ap)
    obtain a q where ap: "ap = (a, q)" by force
    with Suc.prems(3) [of p sz a q] Some have a: "a \<notin> live p" "live q = insert a (live p)" by auto
    have "case r of None \<Rightarrow> live p' = live q - set (a # done)
      | Some as \<Rightarrow> length as = length (a # done) + k \<and> distinct as \<and> live p' = live q \<union> set as \<and>
          set as \<inter> live q = set (a # done)"
      by (rule Suc.IH) (use Suc.prems Some ap a in auto)
    with a Suc.prems(4,5) show ?thesis by (auto split: option.splits)
  qed
qed auto

lemma histogram_add_spec:
  assumes laws: "nginx_laws env live"
    and add: "ngx_wa_metrics_histogram_add_locked env sz workers ubs p = (rc, hs, p')"
  shows "if rc = NGX_OK
     then length hs = workers \<and> distinct (map fst hs) \<and> set (map fst hs) \<inter> live p = {} \<and>
          live p' = live p \<union> set (map fst hs) \<and>
          (\<forall>h \<in> snd ` set hs. h = \<lparr>h_type = (if ubs = None then HISTOGRAM_LOG2 else HISTOGRAM_CUSTOM),
             hist_sum = 0, bins = initial_bins ubs\<rparr>)
     else rc \<in> {NGX_ABORT, NGX_ERROR} \<and> live p' = live p"
proof -
  define h where "h = \<lparr>h_type = (if ubs = None then HISTOGRAM_LOG2 else HISTOGRAM_CUSTOM),
    hist_sum = 0, bins = initial_bins ubs\<rparr>"
  obtain r q where loop: "hist_add_loop env (sizeof_histogram sz + sizeof_bin sz * n_bins h) h workers p [] = (r, q)"
    by force
  have "case r of None \<Rightarrow> live q = live p
    | Some as \<Rightarrow> length as = workers \<and> distinct as \<and> live q = live p \<union> set as \<and> set as \<inter> live p = {}"
    using hist_add_loop_spec [OF loop, of live] laws by (simp add: nginx_laws_def split: option.splits)
  with add loop show ?thesis
    by (auto simp: ngx_wa_metrics_histogram_add_locked_def Let_def h_def comp_def image_image
        split: option.splits if_splits)
qed

section \<open>Properties\<close>

text \<open>A fresh histogram, and the sizes of the structures on a 64-bit build, for the witnesses.\<close>

definition fresh_log2 :: histogram where
  "fresh_log2 = \<lparr>h_type = HISTOGRAM_LOG2, hist_sum = 0, bins = initial_bins None\<rparr>"

definition lp64 :: sizes where
  "lp64 = \<lparr>sizeof_histogram = 16, sizeof_bin = 8, sizeof_metric = 8, sizeof_metric_val = 16, memcpy_moves = True\<rparr>"

lemma lp64_moves: "memcpy_moves lp64"
  by (simp add: lp64_def)

text \<open>The same sizes with the \<open>ngx_memcpy\<close> that C promises, and the bins 4, 16 and the one without bound.\<close>

definition lp64_strict :: sizes where
  "lp64_strict = lp64\<lparr>memcpy_moves := False\<rparr>"

definition bins_4_16 :: histogram where
  "bins_4_16 = \<lparr>h_type = HISTOGRAM_LOG2, hist_sum = 0,
     bins = map (\<lambda>u. \<lparr>upper_bound = u, bin_count = 0\<rparr>) [4, 16, NGX_MAX_UINT32_VALUE] @ replicate 2 zero_bin\<rparr>"

definition two_records :: "histogram option" where
  "two_records =
     (case ngx_wa_metrics_histogram_record demo_env lp64 (100, []) 0 fresh_log2 4 of
        None \<Rightarrow> None
      | Some (a, h, p) \<Rightarrow> map_option (fst \<circ> snd) (ngx_wa_metrics_histogram_record demo_env lp64 p a h 4))"

text \<open>
  The upper bound of a value below \<open>2^31\<close> is the smallest power of two that is not below it; for
  larger values it is the bin without bound.
\<close>

theorem bin_log2_upper_bound_least:
  "(\<exists>k \<le> 31. unat n < 2 ^ 31 \<and> unat (bin_log2_upper_bound n) = 2 ^ k \<and> unat n \<le> 2 ^ k \<and>
      (k = 0 \<or> 2 ^ (k - 1) < unat n)) \<or>
   (2 ^ 31 \<le> unat n \<and> bin_log2_upper_bound n = NGX_MAX_UINT32_VALUE)"
  using bin_log2_upper_bound_pow2 [of n] bin_log2_upper_bound_top [of n] by (cases "unat n < 2 ^ 31") auto



text \<open>
  Reading a logarithmic histogram adds up the workers: if the bounds to report are at most as
  many as the bins of the output, and the platform moves overlapping ranges, the result is defined and holds, for every bound, the sum
  of what the workers counted under it, and the sum of their sums.
\<close>

theorem histogram_get_adds:
  assumes "log2_ok (bins out)" and "set (map upper_bound (hist_live (bins out))) \<subseteq> U"
    and "\<And>h. h \<in> set hs \<Longrightarrow> h_type h = HISTOGRAM_LOG2 \<and> reported ` set (hist_live (bins h)) \<subseteq> U"
    and "finite U" and "card U \<le> n_bins out" and "memcpy_moves sz"
  shows "\<exists>out'. ngx_wa_metrics_histogram_get env sz p hs out = Some out' \<and> log2_ok (bins out') \<and>
     hist_sum out' = hist_sum out + sum_list (map hist_sum hs) \<and>
     hist_total (bins out') = hist_total (bins out) + sum_list (map (\<lambda>h. hist_total (bins h)) hs) \<and>
     (\<forall>u. hist_count (bins out') u =
        hist_count (bins out) u + sum_list (map (\<lambda>h. counted (hist_live (bins h)) u) hs))"
  using histogram_get_log2 [OF assms] .

theorem histogram_get_adds_witness:
  "\<exists>h out'. two_records = Some h \<and>
     ngx_wa_metrics_histogram_get demo_env lp64 (100, []) [h, h] fresh_log2 = Some out' \<and>
     hist_sum out' = 16 \<and> hist_count (bins out') 4 = 4"
proof -
  have "map_option (\<lambda>h. (h_type h, hist_sum h, map upper_bound (hist_live (bins h)), map bin_count (hist_live (bins h))))
      two_records = Some (HISTOGRAM_LOG2, 8, [4, NGX_MAX_UINT32_VALUE], [2, 0])" by code_simp
  then obtain h where h: "two_records = Some h" "h_type h = HISTOGRAM_LOG2" "hist_sum h = 8"
    "map upper_bound (hist_live (bins h)) = [4, NGX_MAX_UINT32_VALUE]" "map bin_count (hist_live (bins h)) = [2, 0]"
    by auto
  then obtain b c where live: "hist_live (bins h) = [b, c]" "upper_bound b = 4" "upper_bound c = NGX_MAX_UINT32_VALUE"
    "bin_count b = 2" by auto
  have rep: "bin_log2_upper_bound (ucast (4::u32)) = 4" "NGX_MAX_UINT32_VALUE \<noteq> (4::u32)"
    "bin_log2_upper_bound (ucast NGX_MAX_UINT32_VALUE) = NGX_MAX_UINT32_VALUE" by code_simp+
  have f: "log2_ok (bins fresh_log2)" "n_bins fresh_log2 = 5" "hist_sum fresh_log2 = 0"
    "hist_count (bins fresh_log2) 4 = 0" "map upper_bound (hist_live (bins fresh_log2)) = [NGX_MAX_UINT32_VALUE]"
    by code_simp+
  from histogram_get_adds [OF _ _ _ _ _ lp64_moves, of fresh_log2 "{4, NGX_MAX_UINT32_VALUE}" "[h, h]" demo_env "(100, [])"] f h rep live
  show ?thesis by (auto simp: counted_def reported_def card_insert_if)
qed

text \<open>
  A value is counted in the first user-defined bin that bounds it, or in the last bin.
\<close>

theorem histogram_custom_bin_first:
  assumes "bins h \<noteq> []"
  shows "\<exists>k < n_bins h. histogram_custom_bin h n = Some k \<and>
     (\<forall>l < k. ucast (upper_bound (bins h ! l)) < n) \<and>
     (n \<le> ucast (upper_bound (bins h ! k)) \<or> k = n_bins h - 1)"
  using custom_scan_spec [OF assms, of 0 n None] by (simp add: histogram_custom_bin_def)

theorem histogram_custom_bin_first_witness:
  "\<exists>k < 3. histogram_custom_bin (fresh_log2\<lparr>bins := initial_bins (Some [10, 20])\<rparr>) 15 = Some k"
proof -
  have "n_bins (fresh_log2\<lparr>bins := initial_bins (Some [10, 20])\<rparr>) = 3" by code_simp
  moreover have "bins (fresh_log2\<lparr>bins := initial_bins (Some [10, 20])\<rparr>) \<noteq> []" by code_simp
  ultimately show ?thesis using histogram_custom_bin_first [of "fresh_log2\<lparr>bins := initial_bins (Some [10, 20])\<rparr>" 15] by auto
qed

text \<open>
  Adding the histograms of a new metric is all or nothing: on success every worker has its own
  freshly allocated histogram; on failure (too many bins, or no memory) the allocator
  holds what it held before.
\<close>

theorem histogram_add_all_or_nothing:
  assumes laws: "nginx_laws env live"
    and add: "ngx_wa_metrics_histogram_add_locked env sz workers ubs p = (rc, hs, p')"
  shows "if rc = NGX_OK
     then length hs = workers \<and> distinct (map fst hs) \<and> set (map fst hs) \<inter> live p = {} \<and>
          live p' = live p \<union> set (map fst hs)
     else rc \<in> {NGX_ABORT, NGX_ERROR} \<and> live p' = live p"
  using histogram_add_spec [OF assms] by (auto split: if_splits)

theorem histogram_add_all_or_nothing_witness:
  "\<exists>hs p'. ngx_wa_metrics_histogram_add_locked demo_env lp64 2 None (200, []) = (NGX_OK, hs, p') \<and>
     length hs = 2 \<and> distinct (map fst hs)"
proof -
  have "fst (ngx_wa_metrics_histogram_add_locked demo_env lp64 2 None (200, [])) = NGX_OK" by code_simp
  then obtain hs p' where "ngx_wa_metrics_histogram_add_locked demo_env lp64 2 None (200, []) = (NGX_OK, hs, p')"
    by (metis prod.collapse)
  with histogram_add_all_or_nothing [OF demo_laws this] show ?thesis by simp
qed

text \<open>
  The bins are not kept in order: \<open>j == 0\<close> also holds after the first bin was chosen, so a
  value below the first bin is inserted behind it. Recording 4 and then 1 leaves the bins
  4, 1, none; the values are still counted under their own bounds.
\<close>

theorem histogram_bins_unsorted:
  "(case ngx_wa_metrics_histogram_record env sz p a
       \<lparr>h_type = HISTOGRAM_LOG2, hist_sum = 0, bins = initial_bins None\<rparr> 4 of
      None \<Rightarrow> None
    | Some (a', h', p') \<Rightarrow>
        map_option (\<lambda>(a'', h'', p''). map upper_bound (hist_live (bins h'')))
          (ngx_wa_metrics_histogram_record env sz p' a' h' 1))
   = Some [4, 1, NGX_MAX_UINT32_VALUE]"
proof -
  have "bin_log2_upper_bound 4 = 4" "bin_log2_upper_bound 1 = 1"
    "initial_bins None = [\<lparr>upper_bound = 0xffffffff, bin_count = 0\<rparr>, zero_bin, zero_bin, zero_bin, zero_bin]"
    by code_simp+
  then show ?thesis
    by (simp add: ngx_wa_metrics_histogram_record_def histogram_log2_bin_def
        zero_bin_def NGX_MAX_UINT32_VALUE_def shift_bins_def log2_copy_overlaps_def inc_bin_def hist_live_def bounded_def)
qed

text \<open>
  Values above \<open>2^30\<close> and below \<open>2^31\<close> are recorded under the bound \<open>2^31\<close>, but reported
  without bound: reading passes the bound through the same rounding, which sends \<open>2^31\<close> to the
  bin without bound.
\<close>

theorem histogram_top_bin_reported_unbounded:
  assumes "2 ^ 30 < unat n" and "unat n < 2 ^ 31"
  shows "bin_log2_upper_bound n = 2 ^ 31 \<and>
     reported \<lparr>upper_bound = bin_log2_upper_bound n, bin_count = c\<rparr> = NGX_MAX_UINT32_VALUE"
proof -
  from bin_log2_upper_bound_pow2 [OF assms(2)] obtain k
    where k: "k \<le> 31" "unat (bin_log2_upper_bound n) = 2 ^ k" "unat n \<le> 2 ^ k" by blast
  have "(2::nat) ^ 30 < 2 ^ k" using assms(1) k(3) by linarith
  then have "30 < k" by (rule power_less_imp_less_exp [rotated]) simp
  with k(1) have "k = 31" by simp
  with k(2) have "bin_log2_upper_bound n = 2 ^ 31" by (simp add: word_unat_eq_iff)
  moreover have "bin_log2_upper_bound (ucast (2 ^ 31 :: u32)) = NGX_MAX_UINT32_VALUE" by code_simp
  ultimately show ?thesis by (simp add: reported_def)
qed

theorem histogram_top_bin_reported_unbounded_witness:
  "bin_log2_upper_bound 2000000000 = 2 ^ 31 \<and>
     reported \<lparr>upper_bound = bin_log2_upper_bound 2000000000, bin_count = 1\<rparr> = NGX_MAX_UINT32_VALUE"
  by (rule histogram_top_bin_reported_unbounded) simp_all

end
