(* ===== verification/Metrics.thy ===== *)
theory Metrics
  imports Histogram
begin

text \<open>
  The metrics store (src/src/common/metrics/ngx_wa_metrics.c): counters, gauges and histograms in
  a key/value zone without eviction, one slot per worker, so that workers
  update their slots without a lock and a reader adds the slots up. The value of a node is a
  \<open>metric\<close>; updates go through the pointer that the lookup returned, that is, they
  write the node in the heap of the store. A slot that is read as the wrong member of the
  union, or that is outside of the array, is an undefined outcome.
\<close>

section \<open>Data\<close>

datatype metric_type = METRIC_COUNTER | METRIC_GAUGE | METRIC_HISTOGRAM | METRIC_UNKNOWN nat

datatype metric_val = VCounter u64 | VGauge u64 u64 | VHistogram addr histogram

record metric =
  m_type :: metric_type
  slots :: "metric_val list"

record 'p metrics =
  workers :: nat
  max_metric_name_length :: nat
  slab_size :: nat
  m_shm :: "('p, metric) kv_shm"

text \<open>The process that runs: \<open>Some ngx_worker\<close> in a worker, \<open>None\<close> otherwise; and \<open>ngx_current_msec\<close>.\<close>

record process =
  ngx_worker :: "nat option"
  ngx_current_msec :: u64

definition metric_slot :: "process \<Rightarrow> nat" where
  "metric_slot pr = (case ngx_worker pr of Some w \<Rightarrow> w | None \<Rightarrow> 0)"

definition ngx_wa_metric_type_name :: "metric_type \<Rightarrow> string" where
  "ngx_wa_metric_type_name ty =
     (case ty of
        METRIC_COUNTER \<Rightarrow> ''counter''
      | METRIC_GAUGE \<Rightarrow> ''gauge''
      | METRIC_HISTOGRAM \<Rightarrow> ''histogram''
      | METRIC_UNKNOWN _ \<Rightarrow> ''unknown'')"

section \<open>Reading the slots\<close>

fun get_counter_from :: "metric_val list \<Rightarrow> u64 \<Rightarrow> u64 option" where
  "get_counter_from [] val = Some val"
| "get_counter_from (VCounter c # vs) val = get_counter_from vs (val + c)"
| "get_counter_from _ val = None"

definition get_counter :: "metric \<Rightarrow> nat \<Rightarrow> u64 option" where
  "get_counter m n = (if n \<le> length (slots m) then get_counter_from (take n (slots m)) 0 else None)"

fun get_gauge_from :: "metric_val list \<Rightarrow> u64 \<Rightarrow> u64 \<Rightarrow> u64 option" where
  "get_gauge_from [] val l = Some val"
| "get_gauge_from (VGauge v t # vs) val l =
     (if t > l then get_gauge_from vs v t else get_gauge_from vs val l)"
| "get_gauge_from _ val l = None"

definition get_gauge :: "metric \<Rightarrow> nat \<Rightarrow> u64 option" where
  "get_gauge m n =
     (case take (max 1 n) (slots m) of
        VGauge v t # vs \<Rightarrow> if n \<le> length (slots m) then get_gauge_from vs v t else None
      | _ \<Rightarrow> None)"

fun get_histograms :: "metric_val list \<Rightarrow> histogram list option" where
  "get_histograms [] = Some []"
| "get_histograms (VHistogram a h # vs) = map_option ((#) h) (get_histograms vs)"
| "get_histograms _ = None"

section \<open>Operations\<close>

text \<open>Writing a metric through the pointer a lookup returned.\<close>

definition put_metric :: "'p metrics \<Rightarrow> addr \<Rightarrow> metric kv_node \<Rightarrow> metric \<Rightarrow> 'p metrics" where
  "put_metric M a n m =
     M\<lparr>m_shm := (m_shm M)\<lparr>kv_heap := (kv_heap (m_shm M))(a \<mapsto> n\<lparr>nd_value := m\<rparr>)\<rparr>\<rparr>"

definition zero_slot :: "metric_type \<Rightarrow> metric_val" where
  "zero_slot ty = (if ty = METRIC_GAUGE then VGauge 0 0 else VCounter 0)"

text \<open>
  \<open>ngx_wa_metrics_define\<close>. The second component of the result is \<open>*out\<close>, which is only set on success.
\<close>

definition ngx_wa_metrics_define ::
  "'p nginx_env \<Rightarrow> sizes \<Rightarrow> 'p metrics \<Rightarrow> bytes \<Rightarrow> metric_type \<Rightarrow> u32 list option \<Rightarrow>
   (ngx_rc \<times> u32 option \<times> 'p metrics) option" where
  "ngx_wa_metrics_define env sz M name ty ubs =
     (if ty \<noteq> METRIC_COUNTER \<and> ty \<noteq> METRIC_GAUGE \<and> ty \<noteq> METRIC_HISTOGRAM then Some (NGX_ABORT, None, M)
      else if length name > max_metric_name_length M then Some (NGX_BUSY, None, M)
      else let mid = crc32 env name; vlen = sizeof_metric sz + sizeof_metric_val sz * workers M in
        (case ngx_wa_shm_kv_get_locked env (m_shm M) [] (Some mid) of
           None \<Rightarrow> None
         | Some (rc, _, s) \<Rightarrow>
             if rc = NGX_OK then Some (NGX_OK, Some mid, M\<lparr>m_shm := s\<rparr>)
             else
               (case (if ty = METRIC_HISTOGRAM
                      then (let (rc, hs, p) = ngx_wa_metrics_histogram_add_locked env sz (workers M) ubs (shpool s)
                            in (rc, map (\<lambda>(a, h). VHistogram a h) hs, s\<lparr>shpool := p\<rparr>))
                      else (NGX_OK, replicate (workers M) (zero_slot ty), s)) of
                  (rc1, vals, s1) \<Rightarrow>
                    if rc1 \<noteq> NGX_OK then Some (rc1, None, M\<lparr>m_shm := s1\<rparr>)
                    else
                      (case ngx_wa_shm_kv_set_locked env s1 name (Some (vlen, \<lparr>m_type = ty, slots = vals\<rparr>)) 0 of
                         None \<Rightarrow> None
                       | Some (rc2, _, s2) \<Rightarrow>
                           Some (rc2, if rc2 = NGX_OK then Some mid else None, M\<lparr>m_shm := s2\<rparr>)))))"

definition ngx_wa_metrics_increment ::
  "'p nginx_env \<Rightarrow> process \<Rightarrow> 'p metrics \<Rightarrow> u32 \<Rightarrow> u64 \<Rightarrow> (ngx_rc \<times> 'p metrics) option" where
  "ngx_wa_metrics_increment env pr M mid n =
     (let slot = metric_slot pr in
      case ngx_wa_shm_kv_get_locked env (m_shm M) [] (Some mid) of
        Some (NGX_OK, Some (a, nd), s) \<Rightarrow>
          (let m = nd_value nd in
           if m_type m \<noteq> METRIC_COUNTER then Some (NGX_ABORT, M\<lparr>m_shm := s\<rparr>)
           else if slot < length (slots m)
           then (case slots m ! slot of
                   VCounter c \<Rightarrow>
                     Some (NGX_OK, put_metric (M\<lparr>m_shm := s\<rparr>) a nd
                                     (m\<lparr>slots := (slots m)[slot := VCounter (c + n)]\<rparr>))
                 | _ \<Rightarrow> None)
           else None)
      | Some (rc, _, s) \<Rightarrow> Some (rc, M\<lparr>m_shm := s\<rparr>)
      | None \<Rightarrow> None)"

definition ngx_wa_metrics_record ::
  "'p nginx_env \<Rightarrow> sizes \<Rightarrow> process \<Rightarrow> 'p metrics \<Rightarrow> u32 \<Rightarrow> u64 \<Rightarrow> (ngx_rc \<times> 'p metrics) option" where
  "ngx_wa_metrics_record env sz pr M mid n =
     (let slot = metric_slot pr in
      case ngx_wa_shm_kv_get_locked env (m_shm M) [] (Some mid) of
        Some (NGX_OK, Some (a, nd), s) \<Rightarrow>
          (let m = nd_value nd in
           case m_type m of
             METRIC_GAUGE \<Rightarrow>
               if slot < length (slots m)
               then Some (NGX_OK, put_metric (M\<lparr>m_shm := s\<rparr>) a nd
                                    (m\<lparr>slots := (slots m)[slot := VGauge n (ngx_current_msec pr)]\<rparr>))
               else None
           | METRIC_HISTOGRAM \<Rightarrow>
               if slot < length (slots m)
               then (case slots m ! slot of
                       VHistogram ha h \<Rightarrow>
                         (case ngx_wa_metrics_histogram_record env sz (shpool s) ha h n of
                            None \<Rightarrow> None
                          | Some (ha', h', p') \<Rightarrow>
                              Some (NGX_OK, put_metric (M\<lparr>m_shm := s\<lparr>shpool := p'\<rparr>\<rparr>) a nd
                                              (m\<lparr>slots := (slots m)[slot := VHistogram ha' h']\<rparr>)))
                     | _ \<Rightarrow> None)
               else None
           | _ \<Rightarrow> Some (NGX_ABORT, M\<lparr>m_shm := s\<rparr>))
      | Some (rc, _, s) \<Rightarrow> Some (rc, M\<lparr>m_shm := s\<rparr>)
      | None \<Rightarrow> None)"

text \<open>
  \<open>ngx_wa_metrics_get\<close>: \<open>out\<close> is the histogram behind \<open>out->slots[0]\<close>. The result is a metric
  with one slot; the gauge has no time of update.
\<close>

definition ngx_wa_metrics_get ::
  "'p nginx_env \<Rightarrow> sizes \<Rightarrow> 'p metrics \<Rightarrow> u32 \<Rightarrow> histogram \<Rightarrow>
   (ngx_rc \<times> metric option \<times> 'p metrics) option" where
  "ngx_wa_metrics_get env sz M mid out =
     (case ngx_wa_shm_kv_get_locked env (m_shm M) [] (Some mid) of
        Some (NGX_OK, Some (a, nd), s) \<Rightarrow>
          (let m = nd_value nd; M' = M\<lparr>m_shm := s\<rparr> in
           case m_type m of
             METRIC_COUNTER \<Rightarrow>
               map_option (\<lambda>c. (NGX_OK, Some \<lparr>m_type = m_type m, slots = [VCounter c]\<rparr>, M')) (get_counter m (workers M))
           | METRIC_GAUGE \<Rightarrow>
               map_option (\<lambda>v. (NGX_OK, Some \<lparr>m_type = m_type m, slots = [VGauge v 0]\<rparr>, M')) (get_gauge m (workers M))
           | METRIC_HISTOGRAM \<Rightarrow>
               (case get_histograms (take (workers M) (slots m)) of
                  None \<Rightarrow> None
                | Some hs \<Rightarrow>
                    map_option (\<lambda>h. (NGX_OK, Some \<lparr>m_type = m_type m, slots = [VHistogram 0 h]\<rparr>, M'))
                      (ngx_wa_metrics_histogram_get env sz (shpool s) hs out))
           | METRIC_UNKNOWN _ \<Rightarrow> Some (NGX_ERROR, None, M'))
      | Some (rc, _, s) \<Rightarrow> Some (rc, None, M\<lparr>m_shm := s\<rparr>)
      | None \<Rightarrow> None)"

section \<open>Reloading the configuration\<close>

text \<open>
  \<open>realloc_histogram\<close>: the slots of the old metric are added into the first histogram of the
  metric with id \<open>mid\<close> of the new store.
\<close>

definition realloc_histogram ::
  "'p nginx_env \<Rightarrow> sizes \<Rightarrow> 'p metrics \<Rightarrow> nat \<Rightarrow> metric \<Rightarrow> u32 \<Rightarrow> (ngx_rc \<times> 'p metrics) option" where
  "realloc_histogram env sz M old_workers old_m mid =
     (case ngx_wa_shm_kv_get_locked env (m_shm M) [] (Some mid) of
        Some (NGX_OK, Some (a, nd), s) \<Rightarrow>
          (case (slots (nd_value nd), get_histograms (take old_workers (slots old_m))) of
             (VHistogram ha h # vs, Some hs) \<Rightarrow>
               (case ngx_wa_metrics_histogram_get env sz (shpool s) hs h of
                  None \<Rightarrow> None
                | Some h' \<Rightarrow>
                    Some (NGX_OK, put_metric (M\<lparr>m_shm := s\<rparr>) a nd
                                    ((nd_value nd)\<lparr>slots := VHistogram ha h' # vs\<rparr>)))
           | _ \<Rightarrow> None)
      | Some (rc, _, s) \<Rightarrow> Some (rc, M\<lparr>m_shm := s\<rparr>)
      | None \<Rightarrow> None)"

text \<open>One node of the old tree: redefine the metric and carry its value over.\<close>

definition realloc_metric ::
  "'p nginx_env \<Rightarrow> sizes \<Rightarrow> process \<Rightarrow> nat \<Rightarrow> metric kv_node \<Rightarrow> 'p metrics \<Rightarrow> (ngx_rc \<times> 'p metrics) option" where
  "realloc_metric env sz pr old_workers n M =
     (let m = nd_value n in
      case ngx_wa_metrics_define env sz M (nd_key n) (m_type m) None of
        None \<Rightarrow> None
      | Some (NGX_OK, Some mid, M1) \<Rightarrow>
          (case (case m_type m of
                   METRIC_COUNTER \<Rightarrow>
                     (case get_counter m old_workers of
                        None \<Rightarrow> None | Some v \<Rightarrow> ngx_wa_metrics_increment env pr M1 mid v)
                 | METRIC_GAUGE \<Rightarrow>
                     (case get_gauge m old_workers of
                        None \<Rightarrow> None | Some v \<Rightarrow> ngx_wa_metrics_record env sz pr M1 mid v)
                 | METRIC_HISTOGRAM \<Rightarrow> realloc_histogram env sz M1 old_workers m mid
                 | METRIC_UNKNOWN _ \<Rightarrow> Some (NGX_ERROR, M1)) of
             None \<Rightarrow> None
           | Some (rc, M2) \<Rightarrow> Some (if rc \<noteq> NGX_OK then NGX_ERROR else NGX_OK, M2))
      | Some (_, _, M1) \<Rightarrow> Some (NGX_ERROR, M1))"

fun realloc_metrics ::
  "'p nginx_env \<Rightarrow> sizes \<Rightarrow> process \<Rightarrow> nat \<Rightarrow> (addr \<rightharpoonup> metric kv_node) \<Rightarrow> rbtree \<Rightarrow> 'p metrics \<Rightarrow>
   (ngx_rc \<times> 'p metrics) option" where
  "realloc_metrics env sz pr old_workers old_heap Sentinel M = Some (NGX_OK, M)"
| "realloc_metrics env sz pr old_workers old_heap (RbNode l k a r) M =
     (case old_heap a of
        None \<Rightarrow> None
      | Some n \<Rightarrow>
          (case realloc_metric env sz pr old_workers n M of
             Some (NGX_OK, M1) \<Rightarrow>
               (case realloc_metrics env sz pr old_workers old_heap l M1 of
                  Some (NGX_OK, M2) \<Rightarrow>
                    (case realloc_metrics env sz pr old_workers old_heap r M2 of
                       Some (NGX_OK, M3) \<Rightarrow> Some (NGX_OK, M3)
                     | Some (_, M3) \<Rightarrow> Some (NGX_ERROR, M3)
                     | None \<Rightarrow> None)
                | Some (_, M2) \<Rightarrow> Some (NGX_ERROR, M2)
                | None \<Rightarrow> None)
           | Some (_, M1) \<Rightarrow> Some (NGX_ERROR, M1)
           | None \<Rightarrow> None))"

text \<open>
  \<open>ngx_wa_metrics_init_conf\<close>, as far as it decides: the defaults of the settings and whether the old
  zone is reused. \<open>None\<close> stands for an unset size, \<open>old\<close> for the metrics of the previous cycle.
\<close>

definition NGX_WA_METRICS_DEFAULT_MAX_NAME_LEN :: nat where
  "NGX_WA_METRICS_DEFAULT_MAX_NAME_LEN = 256"

definition NGX_WA_METRICS_DEFAULT_SLAB_SIZE :: nat where
  "NGX_WA_METRICS_DEFAULT_SLAB_SIZE = 5 * 1024 * 1024"

definition ngx_wa_metrics_init_conf ::
  "nat option \<Rightarrow> nat option \<Rightarrow> nat \<Rightarrow> 'p metrics option \<Rightarrow> ('p, metric) kv_shm \<Rightarrow> 'p metrics \<times> bool" where
  "ngx_wa_metrics_init_conf conf_slab_size conf_max_name worker_processes old shm =
     (let M = \<lparr>workers = worker_processes,
               max_metric_name_length = (case conf_max_name of
                                           None \<Rightarrow> NGX_WA_METRICS_DEFAULT_MAX_NAME_LEN | Some n \<Rightarrow> n),
               slab_size = (case conf_slab_size of
                              None \<Rightarrow> NGX_WA_METRICS_DEFAULT_SLAB_SIZE | Some n \<Rightarrow> n),
               m_shm = shm\<rparr> in
      (M, case old of
            None \<Rightarrow> False
          | Some old_M \<Rightarrow> workers M \<noteq> workers old_M \<or> slab_size M \<noteq> slab_size old_M))"

text \<open>
  \<open>ngx_wa_metrics_shm_init\<close>: the old store as it is, or a new one into which the old metrics are
  carried over. \<open>sizeof_kv\<close> and \<open>sizeof_queue\<close> are for the allocation of the store.
\<close>

definition ngx_wa_metrics_shm_init ::
  "'p nginx_env \<Rightarrow> sizes \<Rightarrow> process \<Rightarrow> nat \<Rightarrow> nat \<Rightarrow> 'p metrics option \<Rightarrow> bool \<Rightarrow> 'p metrics \<Rightarrow>
   (ngx_rc \<times> 'p metrics) option" where
  "ngx_wa_metrics_shm_init env sz pr sizeof_kv sizeof_queue old noreuse M =
     (case old of
        Some old_M \<Rightarrow>
          if \<not> noreuse then Some (NGX_OK, M\<lparr>m_shm := m_shm old_M\<rparr>)
          else (case ngx_wa_shm_kv_init env sizeof_kv sizeof_queue (m_shm M) of
                  (rc, s) \<Rightarrow>
                    if rc \<noteq> NGX_OK then Some (rc, M\<lparr>m_shm := s\<rparr>)
                    else realloc_metrics env sz pr (workers old_M) (kv_heap (m_shm old_M)) (kv_rbtree (m_shm old_M)) (M\<lparr>m_shm := s\<rparr>))
      | None \<Rightarrow>
          (case ngx_wa_shm_kv_init env sizeof_kv sizeof_queue (m_shm M) of
             (rc, s) \<Rightarrow> Some (rc, M\<lparr>m_shm := s\<rparr>)))"

section \<open>Well-formed metrics\<close>

text \<open>
  Every stored metric has one slot per worker, of the kind its type says. Histograms
  are memory of their own: no two slots share one, and none is a node of the store.
\<close>

definition wf_hist :: "histogram \<Rightarrow> bool" where
  "wf_hist h \<longleftrightarrow> (case h_type h of HISTOGRAM_LOG2 \<Rightarrow> log2_ok (bins h) | HISTOGRAM_CUSTOM \<Rightarrow> bins h \<noteq> [])"

fun wf_slot :: "metric_type \<Rightarrow> metric_val \<Rightarrow> bool" where
  "wf_slot METRIC_COUNTER (VCounter c) = True"
| "wf_slot METRIC_GAUGE (VGauge v t) = True"
| "wf_slot METRIC_HISTOGRAM (VHistogram a h) = wf_hist h"
| "wf_slot _ _ = False"

definition wf_metric :: "nat \<Rightarrow> metric \<Rightarrow> bool" where
  "wf_metric n m \<longleftrightarrow> length (slots m) = n \<and> list_all (wf_slot (m_type m)) (slots m) \<and> (\<forall>k. m_type m \<noteq> METRIC_UNKNOWN k)"

fun slot_addr :: "metric_val \<Rightarrow> addr option" where
  "slot_addr (VHistogram a h) = Some a"
| "slot_addr _ = None"

definition hist_at :: "metric \<Rightarrow> nat \<Rightarrow> addr option" where
  "hist_at m i = (if i < length (slots m) then slot_addr (slots m ! i) else None)"

definition metric_of :: "'p metrics \<Rightarrow> u32 \<Rightarrow> metric option" where
  "metric_of M mid = map_option nd_value (kv_map (m_shm M) mid)"

definition hist_loc :: "(u32 \<Rightarrow> metric option) \<Rightarrow> u32 \<times> nat \<rightharpoonup> addr" where
  "hist_loc ms = (\<lambda>(g, i). case ms g of None \<Rightarrow> None | Some m \<Rightarrow> hist_at m i)"

definition metrics_sep :: "addr set \<Rightarrow> addr set \<Rightarrow> ('k \<rightharpoonup> addr) \<Rightarrow> bool" where
  "metrics_sep alive nodes loc \<longleftrightarrow> ran loc \<subseteq> alive - nodes \<and> inj_on loc (dom loc)"

definition metrics_inv :: "'p nginx_env \<Rightarrow> ('p \<Rightarrow> addr set) \<Rightarrow> 'p metrics \<Rightarrow> bool" where
  "metrics_inv env live M \<longleftrightarrow>
     kv_inv env live (m_shm M) \<and> eviction (m_shm M) = EVICTION_NONE \<and>
     (\<forall>g m. metric_of M g = Some m \<longrightarrow> wf_metric (workers M) m) \<and>
     metrics_sep (live (shpool (m_shm M))) (dom (kv_heap (m_shm M))) (hist_loc (metric_of M))"

lemma metrics_lookup:
  assumes "metrics_inv env live M"
  obtains (missing) "metric_of M mid = None"
      "ngx_wa_shm_kv_get_locked env (m_shm M) [] (Some mid) = Some (NGX_DECLINED, None, m_shm M)"
  | (found) a nd where "metric_of M mid = Some (nd_value nd)" "wf_metric (workers M) (nd_value nd)"
      "ngx_wa_shm_kv_get_locked env (m_shm M) [] (Some mid) = Some (NGX_OK, Some (a, nd), m_shm M)"
      "(mid, a) \<in> rb_entries (kv_rbtree (m_shm M))" "kv_heap (m_shm M) a = Some nd"
proof -
  from assms have core: "kv_core env live (m_shm M)" and ne: "\<not> evicting (m_shm M)"
    and wf: "\<And>m. metric_of M mid = Some m \<Longrightarrow> wf_metric (workers M) m"
    by (auto simp: metrics_inv_def kv_inv_def evicting_def)
  note defs = ngx_wa_shm_kv_get_locked_def kv_deref_def metric_of_def
  from kv_deref_lookup [OF core, of mid] show thesis
  proof (elim disjE exE conjE)
    assume "kv_map (m_shm M) mid = None" "ngx_wa_shm_rbtree_lookup (kv_rbtree (m_shm M)) mid = None"
    then show thesis by (intro missing) (simp_all add: defs)
  next
    fix a nd assume "kv_map (m_shm M) mid = Some nd" "ngx_wa_shm_rbtree_lookup (kv_rbtree (m_shm M)) mid = Some a"
      "(mid, a) \<in> rb_entries (kv_rbtree (m_shm M))" "kv_heap (m_shm M) a = Some nd"
    then show thesis using ne wf by (intro found [of nd a]) (simp_all add: defs)
  qed
qed

lemma metrics_sep_mono:
  assumes "metrics_sep alive nodes loc" and "alive \<subseteq> alive'" and "nodes' \<inter> alive \<subseteq> nodes"
  shows "metrics_sep alive' nodes' loc"
  using assms by (auto simp: metrics_sep_def)

text \<open>A histogram that moves to fresh memory, and a new metric with fresh histograms.\<close>

lemma metrics_sep_move:
  assumes sep: "metrics_sep alive nodes loc" and p: "loc p = Some a" and b: "b \<notin> alive" "b \<notin> nodes"
  shows "metrics_sep (insert b alive - {a}) nodes (loc(p \<mapsto> b))"
proof -
  from sep have ran: "ran loc \<subseteq> alive - nodes" and inj: "inj_on loc (dom loc)" by (simp_all add: metrics_sep_def)
  have ne: "c \<in> alive - nodes - {a}" if "loc q = Some c" "q \<noteq> p" for q c
  proof -
    from that ran have "c \<in> alive - nodes" by (auto simp: ran_def)
    moreover have "c \<noteq> a" using that p inj_onD [OF inj, of q p] by auto
    ultimately show ?thesis by blast
  qed
  from p ran have "a \<in> alive" by (auto simp: ran_def)
  with b have "ran (loc(p \<mapsto> b)) \<subseteq> insert b alive - {a} - nodes"
    using ne by (auto simp: ran_def split: if_splits)
  moreover have "inj_on (loc(p \<mapsto> b)) (dom (loc(p \<mapsto> b)))"
  proof (rule inj_onI)
    fix x y assume "x \<in> dom (loc(p \<mapsto> b))" "y \<in> dom (loc(p \<mapsto> b))" "(loc(p \<mapsto> b)) x = (loc(p \<mapsto> b)) y"
    then show "x = y" using ne b inj_onD [OF inj, of x y]
      by (cases "x = p"; cases "y = p") (auto simp: dom_def)
  qed
  ultimately show ?thesis by (simp add: metrics_sep_def)
qed

lemma metrics_sep_add:
  assumes sep: "metrics_sep alive nodes loc" and new: "\<And>p. p \<in> dom new \<Longrightarrow> loc p = None"
    and fresh: "ran new \<inter> alive = {}" "ran new \<inter> nodes = {}" and inj: "inj_on new (dom new)"
  shows "metrics_sep (alive \<union> ran new) nodes (loc ++ new)"
proof -
  from sep have ran: "ran loc \<subseteq> alive - nodes" and injl: "inj_on loc (dom loc)" by (simp_all add: metrics_sep_def)
  have "ran (loc ++ new) \<subseteq> ran loc \<union> ran new" by (auto simp: ran_def map_add_def split: option.splits)
  with ran fresh have "ran (loc ++ new) \<subseteq> alive \<union> ran new - nodes" by blast
  moreover have "inj_on (loc ++ new) (dom (loc ++ new))"
  proof (rule inj_onI)
    fix x y assume xy: "x \<in> dom (loc ++ new)" "y \<in> dom (loc ++ new)" "(loc ++ new) x = (loc ++ new) y"
    have d: "loc p \<noteq> new q" if "p \<in> dom loc" for p q
    proof
      assume eq: "loc p = new q"
      from that obtain c where "loc p = Some c" by blast
      then have "c \<in> ran loc" "c \<in> ran new" using eq by (auto intro: ranI)
      with ran fresh(1) show False by blast
    qed
    show "x = y"
    proof (cases "x \<in> dom new"; cases "y \<in> dom new")
      assume "x \<in> dom new" "y \<in> dom new"
      with xy inj_onD [OF inj, of x y] show ?thesis by (simp add: map_add_dom_app_simps)
    next
      assume "x \<in> dom new" "y \<notin> dom new"
      with xy d [of y x] show ?thesis by (auto simp: map_add_dom_app_simps)
    next
      assume "x \<notin> dom new" "y \<in> dom new"
      with xy d [of x y] show ?thesis by (auto simp: map_add_dom_app_simps)
    next
      assume "x \<notin> dom new" "y \<notin> dom new"
      with xy inj_onD [OF injl, of x y] show ?thesis by (auto simp: map_add_dom_app_simps)
    qed
  qed
  ultimately show ?thesis by (simp add: metrics_sep_def)
qed

text \<open>Writing a metric through a pointer.\<close>

lemma put_metric_spec:
  assumes inv: "kv_inv env live (m_shm M)" and e: "(mid, a) \<in> rb_entries (kv_rbtree (m_shm M))"
    and nd: "kv_heap (m_shm M) a = Some nd"
  shows "kv_inv env live (m_shm (put_metric M a nd m))"
    and "metric_of (put_metric M a nd m) = (metric_of M)(mid \<mapsto> m)"
    and "shpool (m_shm (put_metric M a nd m)) = shpool (m_shm M)"
    and "eviction (m_shm (put_metric M a nd m)) = eviction (m_shm M)"
    and "dom (kv_heap (m_shm (put_metric M a nd m))) = dom (kv_heap (m_shm M))"
    and "workers (put_metric M a nd m) = workers M"
proof -
  from inv have core: "kv_core env live (m_shm M)" by (simp add: kv_inv_def)
  note w = kv_core_write [OF core e nd, of "nd\<lparr>nd_value := m\<rparr>", simplified]
  show dom: "dom (kv_heap (m_shm (put_metric M a nd m))) = dom (kv_heap (m_shm M))"
    using nd by (auto simp: put_metric_def)
  show "kv_inv env live (m_shm (put_metric M a nd m))"
    using inv w(1) unfolding kv_inv_def dom by (simp add: put_metric_def)
  show "metric_of (put_metric M a nd m) = (metric_of M)(mid \<mapsto> m)"
    using w(2) by (auto simp: metric_of_def put_metric_def)
qed (simp_all add: put_metric_def)

section \<open>The operations keep the metrics well-formed\<close>

lemma wf_metric_update:
  "wf_metric n m \<Longrightarrow> i < n \<Longrightarrow> wf_slot (m_type m) v \<Longrightarrow> wf_metric n (m\<lparr>slots := (slots m)[i := v]\<rparr>)"
  by (auto simp: wf_metric_def list_all_length nth_list_update)

lemma hist_at_update:
  "i < length (slots m) \<Longrightarrow> hist_at (m\<lparr>slots := (slots m)[i := v]\<rparr>) = (hist_at m)(i := slot_addr v)"
  by (auto simp: hist_at_def)

lemma hist_loc_update: "hist_loc (ms(g \<mapsto> m)) = (\<lambda>(h, i). if h = g then hist_at m i else hist_loc ms (h, i))"
  by (auto simp: hist_loc_def)

lemma hist_loc_same:
  assumes "ms g = Some m" and "i < length (slots m)" and "slot_addr v = slot_addr (slots m ! i)"
  shows "hist_loc (ms(g \<mapsto> m\<lparr>slots := (slots m)[i := v]\<rparr>)) = hist_loc ms"
proof
  fix p show "hist_loc (ms(g \<mapsto> m\<lparr>slots := (slots m)[i := v]\<rparr>)) p = hist_loc ms p"
    using assms by (cases p) (auto simp: hist_loc_def hist_at_def nth_list_update)
qed

lemma hist_loc_moved:
  assumes "ms g = Some m" and "i < length (slots m)"
  shows "hist_loc (ms(g \<mapsto> m\<lparr>slots := (slots m)[i := VHistogram b h]\<rparr>)) = (hist_loc ms)((g, i) \<mapsto> b)"
proof
  fix p show "hist_loc (ms(g \<mapsto> m\<lparr>slots := (slots m)[i := VHistogram b h]\<rparr>)) p = ((hist_loc ms)((g, i) \<mapsto> b)) p"
    using assms by (cases p) (auto simp: hist_loc_def hist_at_def nth_list_update)
qed

text \<open>Writing one slot of a stored metric, with the pool unchanged or with the histogram moved.\<close>

lemma put_slot_inv:
  assumes laws: "nginx_laws env live" and inv: "metrics_inv env live M"
    and e: "(mid, a) \<in> rb_entries (kv_rbtree (m_shm M))" "kv_heap (m_shm M) a = Some nd"
    and m: "metric_of M mid = Some (nd_value nd)" "slot < workers M" "wf_slot (m_type (nd_value nd)) v"
    and v: "slot_addr v = slot_addr (slots (nd_value nd) ! slot) \<and> p = shpool (m_shm M) \<or>
       (\<exists>ha b h. slots (nd_value nd) ! slot = VHistogram ha h \<and> slot_addr v = Some b \<and>
          b \<notin> live (shpool (m_shm M)) \<and> live p = insert b (live (shpool (m_shm M))) - {ha})"
    and M': "M' = put_metric (M\<lparr>m_shm := (m_shm M)\<lparr>shpool := p\<rparr>\<rparr>) a nd ((nd_value nd)\<lparr>slots := (slots (nd_value nd))[slot := v]\<rparr>)"
  shows "metrics_inv env live M' \<and> workers M' = workers M \<and>
     metric_of M' = (metric_of M)(mid \<mapsto> (nd_value nd)\<lparr>slots := (slots (nd_value nd))[slot := v]\<rparr>)"
proof -
  let ?m = "nd_value nd" let ?M = "M\<lparr>m_shm := (m_shm M)\<lparr>shpool := p\<rparr>\<rparr>"
  let ?live = "live (shpool (m_shm M))" and ?nodes = "dom (kv_heap (m_shm M))" and ?loc = "hist_loc (metric_of M)"
  from inv have kv: "kv_inv env live (m_shm M)" and ev: "eviction (m_shm M) = EVICTION_NONE"
    and wf: "\<And>g m. metric_of M g = Some m \<Longrightarrow> wf_metric (workers M) m" and sep: "metrics_sep ?live ?nodes ?loc"
    by (auto simp: metrics_inv_def)
  from kv have nodes: "?nodes \<subseteq> ?live" unfolding kv_inv_def by (blast dest: kv_coreD(6))
  from wf [OF m(1)] m(2) have len: "slot < length (slots ?m)" by (simp add: wf_metric_def)
  have lp: "?nodes \<subseteq> live p \<and> metrics_sep (live p) ?nodes (hist_loc ((metric_of M)(mid \<mapsto> ?m\<lparr>slots := (slots ?m)[slot := v]\<rparr>)))"
    using v
  proof (elim disjE conjE exE)
    assume "slot_addr v = slot_addr (slots ?m ! slot)" "p = shpool (m_shm M)"
    with hist_loc_same [of "metric_of M", OF m(1) len] sep nodes show ?thesis by simp
  next
    fix ha b h assume b: "slots ?m ! slot = VHistogram ha h" "slot_addr v = Some b" "b \<notin> ?live"
      "live p = insert b ?live - {ha}"
    then obtain h' where v': "v = VHistogram b h'" by (cases v) auto
    have at: "?loc (mid, slot) = Some ha" using m(1) len b(1) by (simp add: hist_loc_def hist_at_def)
    then have "ha \<notin> ?nodes" using sep by (auto simp: metrics_sep_def ran_def)
    with b nodes have "?nodes \<subseteq> live p" by auto
    moreover have "b \<notin> ?nodes" using b(3) nodes by blast
    ultimately show ?thesis
      using metrics_sep_move [OF sep at b(3)] hist_loc_moved [of "metric_of M", OF m(1) len] by (simp add: v' b(4))
  qed
  have inv': "kv_inv env live (m_shm ?M)"
    using kv_core_shpool [of env live "m_shm M" p] kv lp by (simp add: kv_inv_def)
  have e': "(mid, a) \<in> rb_entries (kv_rbtree (m_shm ?M))" "kv_heap (m_shm ?M) a = Some nd" using e by simp_all
  note put = put_metric_spec [OF inv' e', of "?m\<lparr>slots := (slots ?m)[slot := v]\<rparr>", folded M']
  have same: "metric_of ?M = metric_of M"
    using kv_map_cong [of "(m_shm M)\<lparr>shpool := p\<rparr>" "m_shm M"] by (simp add: metric_of_def [abs_def])
  have "metrics_inv env live M'"
    unfolding metrics_inv_def put(2-6) same using put(1) ev lp wf
      wf_metric_update [OF wf [OF m(1)] m(2,3)] by auto
  with put same show ?thesis by simp
qed

text \<open>Recording in a histogram: it stays where it is, or moves to fresh memory.\<close>

lemma histogram_log2_bin_pool:
  assumes laws: "nginx_laws env live" and "histogram_log2_bin env sz p a h n out = Some (i, a', h', p')"
  shows "a' = a \<and> p' = p \<or> a' \<notin> live p \<and> live p' = insert a' (live p) - {a}"
  using assms
  by (auto simp: histogram_log2_bin_def histogram_grow_def nginx_laws_def Let_def
      split: sum.splits option.splits if_splits prod.splits)

lemma histogram_record_wf:
  assumes laws: "nginx_laws env live" and mv: "memcpy_moves sz" and wf: "wf_hist h"
  shows "\<exists>a' h' p'. ngx_wa_metrics_histogram_record env sz p a h n = Some (a', h', p') \<and> wf_hist h' \<and>
     (a' = a \<and> p' = p \<or> a' \<notin> live p \<and> live p' = insert a' (live p) - {a})"
proof (cases "h_type h")
  case HISTOGRAM_LOG2
  with wf have "log2_ok (bins h)" by (simp add: wf_hist_def)
  from histogram_record_log2 [OF this HISTOGRAM_LOG2, of env sz p a n] mv obtain a' h' p'
    where r: "ngx_wa_metrics_histogram_record env sz p a h n = Some (a', h', p')"
      "log2_ok (bins h')" "h_type h' = HISTOGRAM_LOG2" by auto
  moreover from r(1) HISTOGRAM_LOG2 obtain i h1
    where "histogram_log2_bin env sz p a (h\<lparr>hist_sum := hist_sum h + n\<rparr>) n True = Some (i, a', h1, p')"
    by (auto simp: ngx_wa_metrics_histogram_record_def split: option.splits)
  from histogram_log2_bin_pool [OF laws this] r show ?thesis by (auto simp: wf_hist_def)
next
  case HISTOGRAM_CUSTOM
  with wf have ne: "bins h \<noteq> []" by (simp add: wf_hist_def)
  from custom_scan_spec [OF ne, of 0 n None] obtain k
    where "k < n_bins h" "custom_scan (bins h) 0 n None = Some k" by auto
  with HISTOGRAM_CUSTOM ne show ?thesis
    by (auto simp: ngx_wa_metrics_histogram_record_def histogram_custom_bin_def inc_bin_def wf_hist_def)
qed

lemma metrics_increment_spec:
  assumes laws: "nginx_laws env live" and inv: "metrics_inv env live M" and slot: "metric_slot pr < workers M"
  shows "case metric_of M mid of
      None \<Rightarrow> ngx_wa_metrics_increment env pr M mid n = Some (NGX_DECLINED, M)
    | Some m \<Rightarrow>
        if m_type m \<noteq> METRIC_COUNTER then ngx_wa_metrics_increment env pr M mid n = Some (NGX_ABORT, M)
        else \<exists>c M'. slots m ! metric_slot pr = VCounter c \<and>
          ngx_wa_metrics_increment env pr M mid n = Some (NGX_OK, M') \<and>
          metrics_inv env live M' \<and> workers M' = workers M \<and>
          metric_of M' = (metric_of M)(mid \<mapsto> m\<lparr>slots := (slots m)[metric_slot pr := VCounter (c + n)]\<rparr>)"
proof (cases rule: metrics_lookup [OF inv, of mid])
  case 1
  then show ?thesis by (simp add: ngx_wa_metrics_increment_def)
next
  case (2 a nd)
  let ?m = "nd_value nd" and ?slot = "metric_slot pr"
  show ?thesis
  proof (cases "m_type ?m = METRIC_COUNTER")
    case True
    from 2(2) slot have len: "?slot < length (slots ?m)" by (simp add: wf_metric_def)
    from 2(2) len True have "wf_slot METRIC_COUNTER (slots ?m ! ?slot)" by (simp add: wf_metric_def list_all_length)
    then obtain c where c: "slots ?m ! ?slot = VCounter c" by (cases "slots ?m ! ?slot") auto
    let ?M' = "put_metric M a nd (?m\<lparr>slots := (slots ?m)[?slot := VCounter (c + n)]\<rparr>)"
    have "metrics_inv env live ?M' \<and> workers ?M' = workers M \<and>
       metric_of ?M' = (metric_of M)(mid \<mapsto> ?m\<lparr>slots := (slots ?m)[?slot := VCounter (c + n)]\<rparr>)"
      by (rule put_slot_inv [OF laws inv 2(4,5,1) slot, where p = "shpool (m_shm M)"]) (use True c in simp_all)
    with 2 True c len show ?thesis by (simp add: ngx_wa_metrics_increment_def Let_def)
  next
    case False
    with 2 show ?thesis by (simp add: ngx_wa_metrics_increment_def Let_def)
  qed
qed

lemma metrics_record_spec:
  assumes laws: "nginx_laws env live" and mv: "memcpy_moves sz" and inv: "metrics_inv env live M" and slot: "metric_slot pr < workers M"
  shows "case metric_of M mid of
      None \<Rightarrow> ngx_wa_metrics_record env sz pr M mid n = Some (NGX_DECLINED, M)
    | Some m \<Rightarrow>
        if m_type m = METRIC_COUNTER then ngx_wa_metrics_record env sz pr M mid n = Some (NGX_ABORT, M)
        else \<exists>v M'. ngx_wa_metrics_record env sz pr M mid n = Some (NGX_OK, M') \<and>
          metrics_inv env live M' \<and> workers M' = workers M \<and>
          (m_type m = METRIC_GAUGE \<longrightarrow> v = VGauge n (ngx_current_msec pr)) \<and>
          metric_of M' = (metric_of M)(mid \<mapsto> m\<lparr>slots := (slots m)[metric_slot pr := v]\<rparr>)"
proof (cases rule: metrics_lookup [OF inv, of mid])
  case 1
  then show ?thesis by (simp add: ngx_wa_metrics_record_def)
next
  case (2 a nd)
  let ?m = "nd_value nd" and ?slot = "metric_slot pr"
  from 2(2) slot have len: "?slot < length (slots ?m)" by (simp add: wf_metric_def)
  from 2(2) len have wfs: "wf_slot (m_type ?m) (slots ?m ! ?slot)" by (simp add: wf_metric_def list_all_length)
  show ?thesis
  proof (cases "m_type ?m")
    case METRIC_COUNTER
    with 2 show ?thesis by (simp add: ngx_wa_metrics_record_def Let_def)
  next
    case METRIC_GAUGE
    let ?v = "VGauge n (ngx_current_msec pr)"
    let ?M' = "put_metric M a nd (?m\<lparr>slots := (slots ?m)[?slot := ?v]\<rparr>)"
    from METRIC_GAUGE wfs have "slot_addr (slots ?m ! ?slot) = None" by (cases "slots ?m ! ?slot") auto
    then have "metrics_inv env live ?M' \<and> workers ?M' = workers M \<and>
       metric_of ?M' = (metric_of M)(mid \<mapsto> ?m\<lparr>slots := (slots ?m)[?slot := ?v]\<rparr>)"
      by (intro put_slot_inv [OF laws inv 2(4,5,1) slot, where p = "shpool (m_shm M)"]) (use METRIC_GAUGE in simp_all)
    moreover have "ngx_wa_metrics_record env sz pr M mid n = Some (NGX_OK, ?M')"
      using 2 METRIC_GAUGE len by (simp add: ngx_wa_metrics_record_def Let_def)
    ultimately show ?thesis using METRIC_GAUGE unfolding 2(1) option.case by simp
  next
    case METRIC_HISTOGRAM
    from METRIC_HISTOGRAM wfs obtain ha h where h: "slots ?m ! ?slot = VHistogram ha h" "wf_hist h"
      by (cases "slots ?m ! ?slot") auto
    from histogram_record_wf [OF laws mv h(2), of "shpool (m_shm M)" ha n] obtain b h' p
      where r: "ngx_wa_metrics_histogram_record env sz (shpool (m_shm M)) ha h n = Some (b, h', p)" "wf_hist h'"
        "b = ha \<and> p = shpool (m_shm M) \<or>
         b \<notin> live (shpool (m_shm M)) \<and> live p = insert b (live (shpool (m_shm M))) - {ha}" by blast
    let ?v = "VHistogram b h'"
    let ?M' = "put_metric (M\<lparr>m_shm := (m_shm M)\<lparr>shpool := p\<rparr>\<rparr>) a nd (?m\<lparr>slots := (slots ?m)[?slot := ?v]\<rparr>)"
    have "metrics_inv env live ?M' \<and> workers ?M' = workers M \<and>
       metric_of ?M' = (metric_of M)(mid \<mapsto> ?m\<lparr>slots := (slots ?m)[?slot := ?v]\<rparr>)"
      by (rule put_slot_inv [OF laws inv 2(4,5,1) slot]) (use METRIC_HISTOGRAM h r in auto)
    moreover have "ngx_wa_metrics_record env sz pr M mid n = Some (NGX_OK, ?M')"
      using 2 METRIC_HISTOGRAM len h r(1) by (simp add: ngx_wa_metrics_record_def Let_def)
    ultimately show ?thesis using METRIC_HISTOGRAM unfolding 2(1) option.case by auto
  next
    case (METRIC_UNKNOWN k)
    with 2(2) show ?thesis by (simp add: wf_metric_def)
  qed
qed

text \<open>Storing a new metric whose histograms were just allocated.\<close>

lemma hist_loc_new:
  assumes "ms g = None"
  shows "hist_loc (ms(g \<mapsto> m)) = hist_loc ms ++ (\<lambda>(h, i). if h = g then hist_at m i else None)"
  using assms by (auto simp: hist_loc_def map_add_def fun_eq_iff split: option.splits)

lemma metrics_store_new:
  assumes laws: "nginx_laws env live" and inv: "metrics_inv env live M" and mid: "mid = crc32 env name"
    and absent: "metric_of M mid = None" and m: "wf_metric (workers M) m"
    and p: "live p = live (shpool (m_shm M)) \<union> ran (hist_at m)" "ran (hist_at m) \<inter> live (shpool (m_shm M)) = {}"
      "inj_on (hist_at m) (dom (hist_at m))"
  shows "\<exists>rc w s2. ngx_wa_shm_kv_set_locked env ((m_shm M)\<lparr>shpool := p\<rparr>) name (Some (vlen, m)) 0 = Some (rc, w, s2) \<and>
     metrics_inv env live (M\<lparr>m_shm := s2\<rparr>) \<and>
     (rc = NGX_OK \<and> metric_of (M\<lparr>m_shm := s2\<rparr>) = (metric_of M)(mid \<mapsto> m) \<or>
      rc = NGX_ERROR \<and> metric_of (M\<lparr>m_shm := s2\<rparr>) = metric_of M)"
proof -
  let ?s = "(m_shm M)\<lparr>shpool := p\<rparr>"
  let ?live = "live (shpool (m_shm M))" and ?nodes = "dom (kv_heap (m_shm M))"
  from inv have kv: "kv_inv env live (m_shm M)" and ev: "eviction (m_shm M) = EVICTION_NONE"
    and wf: "\<And>g m. metric_of M g = Some m \<Longrightarrow> wf_metric (workers M) m"
    and sep: "metrics_sep ?live ?nodes (hist_loc (metric_of M))"
    by (auto simp: metrics_inv_def)
  from kv have nodes: "?nodes \<subseteq> ?live" unfolding kv_inv_def by (blast dest: kv_coreD(6))
  have kv1: "kv_inv env live ?s" by (rule kv_inv_shpool(1) [OF kv]) (use p(1) in blast)
  have ne: "\<not> evicting ?s" using ev by (simp add: evicting_def)
  have absent1: "kv_map ?s (crc32 env name) = None" using absent by (simp add: metric_of_def mid)
  show ?thesis
  proof (rule kv_set_fresh [OF laws kv1 ne absent1, of vlen m])
    assume "ngx_wa_shm_kv_set_locked env ?s name (Some (vlen, m)) 0 = Some (NGX_ERROR, None, ?s)"
    moreover have "metric_of (M\<lparr>m_shm := ?s\<rparr>) = metric_of M" by (simp add: metric_of_def [abs_def])
    moreover have "metrics_sep (live p) ?nodes (hist_loc (metric_of M))"
      by (rule metrics_sep_mono [OF sep]) (use p in auto)
    ultimately show ?thesis using kv1 ev wf by (simp add: metrics_inv_def)
  next
    fix a n s'
    assume set: "ngx_wa_shm_kv_set_locked env ?s name (Some (vlen, m)) 0 = Some (NGX_OK, Some True, s')"
      and s': "kv_inv env live s'" "eviction s' = eviction ?s" "kv_map s' = (kv_map ?s)(crc32 env name \<mapsto> n)"
        "nd_value n = m" "a \<notin> live (shpool ?s)" "live (shpool s') = insert a (live (shpool ?s))"
        "dom (kv_heap s') = insert a (dom (kv_heap ?s))"
    have ms: "metric_of (M\<lparr>m_shm := s'\<rparr>) = (metric_of M)(mid \<mapsto> m)"
      using s'(3,4) by (auto simp: metric_of_def mid)
    let ?new = "\<lambda>(h, i). if h = mid then hist_at m i else None"
    have rn: "ran ?new = ran (hist_at m)" by (auto simp: ran_def split: if_splits)
    have "inj_on ?new (dom ?new)"
      using p(3) by (auto simp: inj_on_def dom_def split: if_splits)
    then have "metrics_sep (?live \<union> ran ?new) ?nodes (hist_loc (metric_of M) ++ ?new)"
      by (intro metrics_sep_add [OF sep])
        (use p(2) nodes rn absent in \<open>auto simp: hist_loc_def split: if_splits\<close>)
    then have "metrics_sep (live (shpool s')) (dom (kv_heap s')) (hist_loc ((metric_of M)(mid \<mapsto> m)))"
      unfolding hist_loc_new [of "metric_of M", OF absent] rn
      by (rule metrics_sep_mono) (use s'(5-7) p(1) in auto)
    with set s' ms ev wf m show ?thesis by (auto simp: metrics_inv_def)
  qed
qed

lemma wf_initial_hist:
  "wf_hist \<lparr>h_type = (if ubs = None then HISTOGRAM_LOG2 else HISTOGRAM_CUSTOM), hist_sum = 0, bins = initial_bins ubs\<rparr>"
proof (cases ubs)
  case None
  have "log2_ok (initial_bins None)" by code_simp
  with None show ?thesis by (simp add: wf_hist_def)
qed (simp add: wf_hist_def initial_bins_def)

lemma hist_at_histograms:
  assumes "m = \<lparr>m_type = METRIC_HISTOGRAM, slots = map (\<lambda>(a, h). VHistogram a h) hs\<rparr>" and "distinct (map fst hs)"
  shows "ran (hist_at m) = set (map fst hs)" and "inj_on (hist_at m) (dom (hist_at m))"
proof -
  have at: "hist_at m i = (if i < length hs then Some (fst (hs ! i)) else None)" for i
    by (simp add: assms(1) hist_at_def split: prod.split)
  have "ran (hist_at m) = {fst (hs ! i) | i. i < length hs}" by (auto simp: ran_def at split: if_splits)
  then show "ran (hist_at m) = set (map fst hs)" unfolding list.set_map by (auto simp: set_conv_nth [of hs])
  show "inj_on (hist_at m) (dom (hist_at m))"
    using assms(2) by (auto simp: inj_on_def dom_def at distinct_conv_nth split: if_splits)
qed

definition fresh_metric :: "nat \<Rightarrow> metric_type \<Rightarrow> u32 list option \<Rightarrow> metric \<Rightarrow> bool" where
  "fresh_metric n ty ubs m \<longleftrightarrow> m_type m = ty \<and> length (slots m) = n \<and>
     (if ty = METRIC_HISTOGRAM
      then \<forall>v \<in> set (slots m). \<exists>a. v = VHistogram a
             \<lparr>h_type = (if ubs = None then HISTOGRAM_LOG2 else HISTOGRAM_CUSTOM), hist_sum = 0, bins = initial_bins ubs\<rparr>
      else slots m = replicate n (zero_slot ty))"

lemma metrics_define_spec:
  assumes laws: "nginx_laws env live" and inv: "metrics_inv env live M"
    and ty: "ty = METRIC_COUNTER \<or> ty = METRIC_GAUGE \<or> ty = METRIC_HISTOGRAM"
    and len: "length name \<le> max_metric_name_length M" and mid: "mid = crc32 env name"
  shows "\<exists>rc out M'. ngx_wa_metrics_define env sz M name ty ubs = Some (rc, out, M') \<and>
     metrics_inv env live M' \<and> workers M' = workers M \<and> max_metric_name_length M' = max_metric_name_length M \<and>
     (if metric_of M mid \<noteq> None then rc = NGX_OK \<and> out = Some mid \<and> M' = M
      else rc = NGX_OK \<and> out = Some mid \<and>
             (\<exists>m. fresh_metric (workers M) ty ubs m \<and> metric_of M' = (metric_of M)(mid \<mapsto> m))
         \<or> rc \<in> {NGX_ERROR, NGX_ABORT} \<and> out = None \<and> metric_of M' = metric_of M)"
proof (cases rule: metrics_lookup [OF inv, of mid])
  case (2 a nd)
  with inv ty len show ?thesis by (auto simp: ngx_wa_metrics_define_def Let_def simp flip: mid)
next
  case 1
  let ?vlen = "sizeof_metric sz + sizeof_metric_val sz * workers M"
  have store: ?thesis
    if m: "fresh_metric (workers M) ty ubs m" "wf_metric (workers M) m"
      and p: "live p = live (shpool (m_shm M)) \<union> ran (hist_at m)" "ran (hist_at m) \<inter> live (shpool (m_shm M)) = {}"
        "inj_on (hist_at m) (dom (hist_at m))"
      and def: "ngx_wa_metrics_define env sz M name ty ubs =
        (case ngx_wa_shm_kv_set_locked env ((m_shm M)\<lparr>shpool := p\<rparr>) name (Some (?vlen, m)) 0 of
           None \<Rightarrow> None | Some (rc2, _, s2) \<Rightarrow> Some (rc2, if rc2 = NGX_OK then Some mid else None, M\<lparr>m_shm := s2\<rparr>))"
    for m p
    using metrics_store_new [OF laws inv mid 1(1) m(2) p, of ?vlen] m(1) 1(1) unfolding def by auto
  show ?thesis
  proof (cases "ty = METRIC_HISTOGRAM")
    case False
    let ?m = "\<lparr>m_type = ty, slots = replicate (workers M) (zero_slot ty)\<rparr>"
    have at: "hist_at ?m = Map.empty" by (auto simp: hist_at_def zero_slot_def)
    show ?thesis
    proof (rule store [of ?m "shpool (m_shm M)"])
      show "wf_metric (workers M) ?m" using False ty by (auto simp: wf_metric_def zero_slot_def list_all_length)
      show "ngx_wa_metrics_define env sz M name ty ubs = (case ngx_wa_shm_kv_set_locked env
          ((m_shm M)\<lparr>shpool := shpool (m_shm M)\<rparr>) name (Some (?vlen, ?m)) 0 of
           None \<Rightarrow> None | Some (rc2, _, s2) \<Rightarrow> Some (rc2, if rc2 = NGX_OK then Some mid else None, M\<lparr>m_shm := s2\<rparr>))"
        using 1 False ty len by (auto simp: ngx_wa_metrics_define_def Let_def simp flip: mid)
    qed (use False in \<open>auto simp: at fresh_metric_def\<close>)
  next
    case True
    obtain rc hs p where add: "ngx_wa_metrics_histogram_add_locked env sz (workers M) ubs (shpool (m_shm M)) = (rc, hs, p)"
      by (metis prod_cases3)
    note spec = histogram_add_spec [OF laws add]
    show ?thesis
    proof (cases "rc = NGX_OK")
      case ok: True
      let ?m = "\<lparr>m_type = METRIC_HISTOGRAM, slots = map (\<lambda>(a, h). VHistogram a h) hs\<rparr>"
      let ?h = "\<lparr>h_type = (if ubs = None then HISTOGRAM_LOG2 else HISTOGRAM_CUSTOM), hist_sum = 0, bins = initial_bins ubs\<rparr>"
      from spec ok have hs: "length hs = workers M" "distinct (map fst hs)" "set (map fst hs) \<inter> live (shpool (m_shm M)) = {}"
        "live p = live (shpool (m_shm M)) \<union> set (map fst hs)" "\<And>a h. (a, h) \<in> set hs \<Longrightarrow> h = ?h" by force+
      note at = hist_at_histograms [OF refl hs(2)]
      show ?thesis
      proof (rule store [of ?m p])
        show "fresh_metric (workers M) ty ubs ?m"
          unfolding fresh_metric_def using True hs(1) by (auto dest!: hs(5))
        show "wf_metric (workers M) ?m"
          unfolding wf_metric_def list_all_iff using hs(1) wf_initial_hist by (auto dest!: hs(5))
        show "ngx_wa_metrics_define env sz M name ty ubs = (case ngx_wa_shm_kv_set_locked env
            ((m_shm M)\<lparr>shpool := p\<rparr>) name (Some (?vlen, ?m)) 0 of
             None \<Rightarrow> None | Some (rc2, _, s2) \<Rightarrow> Some (rc2, if rc2 = NGX_OK then Some mid else None, M\<lparr>m_shm := s2\<rparr>))"
          using 1 True len add ok by (simp add: ngx_wa_metrics_define_def Let_def flip: mid)
      qed (use hs(3,4) at in simp_all)
    next
      case err: False
      with spec have rc: "rc \<in> {NGX_ERROR, NGX_ABORT}" and lp: "live p = live (shpool (m_shm M))" by auto
      let ?M = "M\<lparr>m_shm := (m_shm M)\<lparr>shpool := p\<rparr>\<rparr>"
      have same: "metric_of ?M = metric_of M" by (simp add: metric_of_def [abs_def])
      have "metrics_inv env live ?M"
        using inv kv_inv_shpool(1) [of env live "m_shm M" p] lp unfolding metrics_inv_def same by simp
      moreover have "ngx_wa_metrics_define env sz M name ty ubs = Some (rc, None, ?M)"
        using 1 True len add err by (simp add: ngx_wa_metrics_define_def Let_def flip: mid)
      ultimately show ?thesis using rc 1(1) same by simp
    qed
  qed
qed

section \<open>Counters and gauges\<close>

fun slot_count :: "metric_val \<Rightarrow> u64" where
  "slot_count (VCounter c) = c"
| "slot_count _ = 0"

definition counter_value :: "metric \<Rightarrow> u64" where
  "counter_value m = sum_list (map slot_count (slots m))"

lemma get_counter_from_sum:
  "list_all (wf_slot METRIC_COUNTER) vs \<Longrightarrow> get_counter_from vs val = Some (val + sum_list (map slot_count vs))"
proof (induction vs arbitrary: val)
  case (Cons v vs)
  then show ?case by (cases v) (simp_all add: add.assoc)
qed simp

lemma get_counter_value:
  "wf_metric n m \<Longrightarrow> m_type m = METRIC_COUNTER \<Longrightarrow> get_counter m n = Some (counter_value m)"
  by (auto simp: get_counter_def wf_metric_def get_counter_from_sum counter_value_def)

lemma counter_value_update:
  assumes "i < length (slots m)" and "slots m ! i = VCounter c"
  shows "counter_value (m\<lparr>slots := (slots m)[i := VCounter (c + n)]\<rparr>) = counter_value m + n"
  using assms by (simp add: counter_value_def sum_list_map_update)

text \<open>A run of increments by workers: each with its worker, the metric and the amount.\<close>

fun run_increments :: "'p nginx_env \<Rightarrow> u64 \<Rightarrow> 'p metrics \<Rightarrow> (nat \<times> u32 \<times> u64) list \<Rightarrow> 'p metrics option" where
  "run_increments env now M [] = Some M"
| "run_increments env now M ((w, mid, n) # ops) =
     (case ngx_wa_metrics_increment env \<lparr>ngx_worker = Some w, ngx_current_msec = now\<rparr> M mid n of
        None \<Rightarrow> None
      | Some (rc, M') \<Rightarrow> run_increments env now M' ops)"

lemma run_increments_spec:
  assumes laws: "nginx_laws env live"
  shows "metrics_inv env live M \<Longrightarrow> \<forall>op \<in> set ops. fst op < workers M \<Longrightarrow>
     metric_of M mid = Some m \<Longrightarrow> m_type m = METRIC_COUNTER \<Longrightarrow>
     \<exists>M' m'. run_increments env now M ops = Some M' \<and> metrics_inv env live M' \<and> workers M' = workers M \<and>
       metric_of M' mid = Some m' \<and> m_type m' = METRIC_COUNTER \<and>
       counter_value m' = counter_value m + sum_list (map (\<lambda>(w, g, n). if g = mid then n else 0) ops)"
proof (induction ops arbitrary: M m)
  case Nil
  then show ?case by simp
next
  case (Cons op ops)
  obtain w g n where op: "op = (w, g, n)" by (cases op) auto
  let ?pr = "\<lparr>ngx_worker = Some w, ngx_current_msec = now\<rparr>"
  have slot: "metric_slot ?pr = w" by (simp add: metric_slot_def)
  from Cons.prems(2) have w: "w < workers M" by (simp add: op)
  have "\<exists>rc M1 m1. ngx_wa_metrics_increment env ?pr M g n = Some (rc, M1) \<and> metrics_inv env live M1 \<and>
     workers M1 = workers M \<and> metric_of M1 mid = Some m1 \<and> m_type m1 = METRIC_COUNTER \<and>
     counter_value m1 = counter_value m + (if g = mid then n else 0)"
  proof (cases "\<exists>m0. metric_of M g = Some m0 \<and> m_type m0 = METRIC_COUNTER")
    case True
    then obtain m0 where m0: "metric_of M g = Some m0" "m_type m0 = METRIC_COUNTER" by blast
    have len: "w < length (slots m0)" using Cons.prems(1) m0(1) w by (auto simp: metrics_inv_def wf_metric_def)
    from metrics_increment_spec [OF laws Cons.prems(1), of ?pr g n] m0 w slot obtain c M1
      where c: "slots m0 ! w = VCounter c" "ngx_wa_metrics_increment env ?pr M g n = Some (NGX_OK, M1)"
        "metrics_inv env live M1" "workers M1 = workers M"
        "metric_of M1 = (metric_of M)(g \<mapsto> m0\<lparr>slots := (slots m0)[w := VCounter (c + n)]\<rparr>)" by auto
    show ?thesis
    proof (cases "g = mid")
      case True
      with m0 Cons.prems(3) have "m0 = m" by simp
      with c m0 True counter_value_update [OF len c(1), of n] show ?thesis by auto
    next
      case False
      with c Cons.prems(3,4) show ?thesis by auto
    qed
  next
    case False
    then have ne: "g \<noteq> mid" using Cons.prems(3,4) by auto
    from False metrics_increment_spec [OF laws Cons.prems(1), of ?pr g n] w slot
    obtain rc where "ngx_wa_metrics_increment env ?pr M g n = Some (rc, M)" by (cases "metric_of M g") auto
    with ne Cons.prems show ?thesis by auto
  qed
  then obtain rc M1 m1 where M1: "ngx_wa_metrics_increment env ?pr M g n = Some (rc, M1)" "metrics_inv env live M1"
    "workers M1 = workers M" "metric_of M1 mid = Some m1" "m_type m1 = METRIC_COUNTER"
    "counter_value m1 = counter_value m + (if g = mid then n else 0)" by blast
  have "\<forall>op \<in> set ops. fst op < workers M1" using Cons.prems(2) M1(3) by simp
  from Cons.IH [OF M1(2) this M1(4,5)] M1 show ?case by (auto simp: op add.assoc)
qed

lemma metrics_get_counter:
  assumes inv: "metrics_inv env live M" and m: "metric_of M mid = Some m" "m_type m = METRIC_COUNTER"
  shows "ngx_wa_metrics_get env sz M mid out =
     Some (NGX_OK, Some \<lparr>m_type = METRIC_COUNTER, slots = [VCounter (counter_value m)]\<rparr>, M)"
proof (cases rule: metrics_lookup [OF inv, of mid])
  case (2 a nd)
  with m get_counter_value [OF 2(2)] show ?thesis by (simp add: ngx_wa_metrics_get_def Let_def)
qed (use m in simp)

text \<open>The value of a gauge is one with the latest update.\<close>

lemma get_gauge_from_latest:
  assumes "list_all (wf_slot METRIC_GAUGE) vs"
  shows "\<exists>v t. get_gauge_from vs val l = Some v \<and> VGauge v t \<in> set (VGauge val l # vs) \<and>
     (\<forall>v' t'. VGauge v' t' \<in> set (VGauge val l # vs) \<longrightarrow> t' \<le> t)"
  using assms
proof (induction vs arbitrary: val l)
  case (Cons x vs)
  then obtain v0 t0 where x: "x = VGauge v0 t0" by (cases x) auto
  show ?case
  proof (cases "t0 > l")
    case True
    with Cons.IH [of v0 t0] Cons.prems x obtain v t where "get_gauge_from vs v0 t0 = Some v"
      "VGauge v t \<in> set (VGauge v0 t0 # vs)" "\<forall>v' t'. VGauge v' t' \<in> set (VGauge v0 t0 # vs) \<longrightarrow> t' \<le> t" by auto
    moreover from this(3) have "t0 \<le> t" by simp
    ultimately show ?thesis using x True by (intro exI [of _ v] exI [of _ t]) auto
  next
    case False
    with Cons.IH [of val l] Cons.prems x obtain v t where "get_gauge_from vs val l = Some v"
      "VGauge v t \<in> set (VGauge val l # vs)" "\<forall>v' t'. VGauge v' t' \<in> set (VGauge val l # vs) \<longrightarrow> t' \<le> t" by auto
    moreover from this(3) have "l \<le> t" by simp
    ultimately show ?thesis using x False by (intro exI [of _ v] exI [of _ t]) auto
  qed
qed auto

lemma get_gauge_latest:
  assumes "wf_metric n m" and "m_type m = METRIC_GAUGE" and "0 < n"
  shows "\<exists>v t. get_gauge m n = Some v \<and> VGauge v t \<in> set (slots m) \<and>
     (\<forall>v' t'. VGauge v' t' \<in> set (slots m) \<longrightarrow> t' \<le> t)"
proof -
  from assms obtain x vs where s: "slots m = x # vs" by (cases "slots m") (auto simp: wf_metric_def)
  with assms obtain val l where "x = VGauge val l" by (cases x) (auto simp: wf_metric_def)
  with s assms get_gauge_from_latest [of vs val l] show ?thesis
    by (auto simp: get_gauge_def wf_metric_def max_def)
qed

section \<open>Reloading\<close>

text \<open>Adding logarithmic histograms into a logarithmic one is defined and keeps it well-formed.\<close>

lemma hist_get_bins_ok:
  "memcpy_moves sz \<Longrightarrow> log2_ok (bins out) \<Longrightarrow>
     \<exists>out'. hist_get_bins env sz p HISTOGRAM_LOG2 bs j out = Some out' \<and> log2_ok (bins out') \<and> h_type out' = h_type out"
proof (induction bs arbitrary: j out)
  case (Cons b bs)
  from histogram_log2_bin_spec [OF Cons.prems(2) refl copy_defined [OF Cons.prems(1)], of env p 0 "ucast (upper_bound b)" False] obtain i a' o1 p'
    where o1: "histogram_log2_bin env sz p 0 out (ucast (upper_bound b)) False = Some (i, a', o1, p')"
      "log2_ok (bins o1)" "h_type o1 = h_type out" "i < length (hist_live (bins o1))" by blast
  from inc_bin_live [OF o1(2,4), of "bin_count b"] obtain obs
    where obs: "inc_bin (bins o1) i (bin_count b) = Some obs" "log2_ok obs" by blast
  with Cons.IH [OF Cons.prems(1), of "o1\<lparr>bins := obs\<rparr>" "j + 1"] o1 show ?case by auto
qed simp

lemma histogram_get_ok:
  "memcpy_moves sz \<Longrightarrow> log2_ok (bins out) \<Longrightarrow> \<forall>h \<in> set hs. h_type h = HISTOGRAM_LOG2 \<Longrightarrow>
     \<exists>out'. ngx_wa_metrics_histogram_get env sz p hs out = Some out' \<and> log2_ok (bins out') \<and> h_type out' = h_type out"
proof (induction hs arbitrary: out)
  case (Cons h hs)
  from hist_get_bins_ok [OF Cons.prems(1,2), of env p "bins h" 0] obtain o1
    where "hist_get_bins env sz p HISTOGRAM_LOG2 (bins h) 0 out = Some o1" "log2_ok (bins o1)" "h_type o1 = h_type out"
    by blast
  with Cons.IH [of "o1\<lparr>hist_sum := hist_sum o1 + hist_sum h\<rparr>"] Cons.prems show ?case by auto
qed simp

definition log2_only :: "metric \<Rightarrow> bool" where
  "log2_only m \<longleftrightarrow> (\<forall>a h. VHistogram a h \<in> set (slots m) \<longrightarrow> h_type h = HISTOGRAM_LOG2)"

lemma get_histograms_ok:
  "list_all (wf_slot METRIC_HISTOGRAM) vs \<Longrightarrow>
     \<exists>hs. get_histograms vs = Some hs \<and> (\<forall>h \<in> set hs. \<exists>a. VHistogram a h \<in> set vs)"
proof (induction vs)
  case (Cons v vs)
  then obtain a h where "v = VHistogram a h" by (cases v) auto
  with Cons show ?case by auto blast+
qed simp

text \<open>
  Carrying one well-formed metric over into a store that does not have it: the other metrics are kept,
  and a counter or a gauge reads as before.
\<close>

definition carried :: "nat \<Rightarrow> nat \<Rightarrow> metric \<Rightarrow> metric \<Rightarrow> bool" where
  "carried old_workers new_workers m m' \<longleftrightarrow> m_type m' = m_type m \<and>
     (m_type m = METRIC_COUNTER \<longrightarrow> get_counter m' new_workers = get_counter m old_workers) \<and>
     (m_type m = METRIC_GAUGE \<longrightarrow> get_gauge m' new_workers = get_gauge m old_workers)"

lemma increment_keeps_conf:
  "ngx_wa_metrics_increment env pr M mid n = Some (rc, M') \<Longrightarrow> max_metric_name_length M' = max_metric_name_length M"
  by (auto simp: ngx_wa_metrics_increment_def put_metric_def Let_def
      split: option.splits if_splits metric_val.splits ngx_rc.splits)

lemma record_keeps_conf:
  "ngx_wa_metrics_record env sz pr M mid n = Some (rc, M') \<Longrightarrow> max_metric_name_length M' = max_metric_name_length M"
  by (auto simp: ngx_wa_metrics_record_def put_metric_def Let_def
      split: option.splits if_splits metric_val.splits ngx_rc.splits metric_type.splits)

lemma get_gauge_from_zeros: "get_gauge_from (replicate k (VGauge 0 0)) v t = Some v"
  by (induction k) auto

lemma realloc_histogram_spec:
  assumes laws: "nginx_laws env live" and mv: "memcpy_moves sz" and inv: "metrics_inv env live M" and w: "0 < workers M"
    and old: "wf_metric old_workers old_m" "log2_only old_m" "m_type old_m = METRIC_HISTOGRAM"
    and m: "metric_of M mid = Some m" "m_type m = METRIC_HISTOGRAM" "log2_only m"
  shows "\<exists>M' m'. realloc_histogram env sz M old_workers old_m mid = Some (NGX_OK, M') \<and> metrics_inv env live M' \<and>
     workers M' = workers M \<and> max_metric_name_length M' = max_metric_name_length M \<and>
     metric_of M' = (metric_of M)(mid \<mapsto> m') \<and> m_type m' = METRIC_HISTOGRAM"
proof (cases rule: metrics_lookup [OF inv, of mid])
  case (2 a nd)
  let ?m = "nd_value nd"
  from 2(1) m have m': "?m = m" by simp
  from 2(2) w m(2) obtain v vs where vs: "slots ?m = v # vs" "wf_slot METRIC_HISTOGRAM v"
    unfolding m' by (cases "slots m") (auto simp: wf_metric_def)
  then obtain ha h where v: "v = VHistogram ha h" "wf_hist h" by (cases v) auto
  from vs v m(3) have h: "h_type h = HISTOGRAM_LOG2" unfolding m' log2_only_def by auto
  with v(2) have ok: "log2_ok (bins h)" by (simp add: wf_hist_def)
  from old get_histograms_ok [of "slots old_m"] obtain hs where hs0: "get_histograms (slots old_m) = Some hs"
    "\<forall>h \<in> set hs. \<exists>a. VHistogram a h \<in> set (slots old_m)" by (auto simp: wf_metric_def)
  then have hs: "get_histograms (slots old_m) = Some hs" "\<forall>h \<in> set hs. h_type h = HISTOGRAM_LOG2"
    using old(2) unfolding log2_only_def by blast+
  from old(1) have take: "take old_workers (slots old_m) = slots old_m" by (simp add: wf_metric_def)
  from histogram_get_ok [OF mv ok hs(2), of env "shpool (m_shm M)"] obtain h'
    where h': "ngx_wa_metrics_histogram_get env sz (shpool (m_shm M)) hs h = Some h'" "log2_ok (bins h')"
      "h_type h' = h_type h" by blast
  let ?M' = "put_metric M a nd (?m\<lparr>slots := (slots ?m)[0 := VHistogram ha h']\<rparr>)"
  have "metrics_inv env live ?M' \<and> workers ?M' = workers M \<and>
     metric_of ?M' = (metric_of M)(mid \<mapsto> ?m\<lparr>slots := (slots ?m)[0 := VHistogram ha h']\<rparr>)"
    by (rule put_slot_inv [OF laws inv 2(4,5,1) w, where p = "shpool (m_shm M)"])
      (use h h' vs v m(2) m' in \<open>simp_all add: wf_hist_def\<close>)
  moreover have "realloc_histogram env sz M old_workers old_m mid = Some (NGX_OK, ?M')"
    using 2(3) vs v hs h' by (simp add: realloc_histogram_def take)
  moreover have "max_metric_name_length ?M' = max_metric_name_length M" by (simp add: put_metric_def)
  ultimately show ?thesis using m(2) m' by auto
qed (use m in simp)

lemma realloc_metric_spec:
  assumes laws: "nginx_laws env live" and mv: "memcpy_moves sz" and inv: "metrics_inv env live M"
    and m: "wf_metric old_workers (nd_value n)" "log2_only (nd_value n)" "0 < old_workers"
    and pr: "ngx_worker pr = None" "0 < workers M"
    and absent: "metric_of M (crc32 env (nd_key n)) = None"
    and len: "length (nd_key n) \<le> max_metric_name_length M"
  shows "\<exists>rc M'. realloc_metric env sz pr old_workers n M = Some (rc, M') \<and> metrics_inv env live M' \<and>
     workers M' = workers M \<and> max_metric_name_length M' = max_metric_name_length M \<and> rc \<in> {NGX_OK, NGX_ERROR} \<and>
     (\<forall>g. g \<noteq> crc32 env (nd_key n) \<longrightarrow> metric_of M' g = metric_of M g) \<and>
     (rc = NGX_OK \<longrightarrow> (\<exists>m'. metric_of M' (crc32 env (nd_key n)) = Some m' \<and>
        carried old_workers (workers M) (nd_value n) m'))"
proof -
  let ?m = "nd_value n" and ?mid = "crc32 env (nd_key n)"
  have ty: "m_type ?m = METRIC_COUNTER \<or> m_type ?m = METRIC_GAUGE \<or> m_type ?m = METRIC_HISTOGRAM"
    using m(1) by (cases "m_type ?m") (auto simp: wf_metric_def)
  have slot: "metric_slot pr = 0" using pr(1) by (simp add: metric_slot_def)
  from metrics_define_spec [OF laws inv ty len refl, of sz None] absent obtain rc out M1
    where def: "ngx_wa_metrics_define env sz M (nd_key n) (m_type ?m) None = Some (rc, out, M1)"
      and M1: "metrics_inv env live M1" "workers M1 = workers M" "max_metric_name_length M1 = max_metric_name_length M"
      and out: "rc = NGX_OK \<and> out = Some ?mid \<and>
          (\<exists>m'. fresh_metric (workers M) (m_type ?m) None m' \<and> metric_of M1 = (metric_of M)(?mid \<mapsto> m'))
         \<or> rc \<in> {NGX_ERROR, NGX_ABORT} \<and> out = None \<and> metric_of M1 = metric_of M"
    by (auto simp del: insert_iff)
  from out show ?thesis
  proof (elim disjE conjE exE)
    assume "rc \<in> {NGX_ERROR, NGX_ABORT}" "out = None" "metric_of M1 = metric_of M"
    with def M1 show ?thesis by (auto simp: realloc_metric_def Let_def)
  next
    fix m' assume rc: "rc = NGX_OK" "out = Some ?mid" and m': "fresh_metric (workers M) (m_type ?m) None m'"
      "metric_of M1 = (metric_of M)(?mid \<mapsto> m')"
    have w1: "metric_slot pr < workers M1" using slot pr(2) M1(2) by simp
    have found: "metric_of M1 ?mid = Some m'" using m'(2) by simp
    from pr(2) obtain k where k: "workers M = Suc k" by (cases "workers M") auto
    from ty show ?thesis
    proof (elim disjE)
      assume t: "m_type ?m = METRIC_COUNTER"
      with m' have mt: "m_type m' = METRIC_COUNTER" "slots m' = VCounter 0 # replicate k (VCounter 0)"
        by (simp_all add: fresh_metric_def zero_slot_def k)
      from metrics_increment_spec [OF laws M1(1) w1, of ?mid "counter_value ?m"] found mt slot obtain M2
        where M2: "ngx_wa_metrics_increment env pr M1 ?mid (counter_value ?m) = Some (NGX_OK, M2)" "metrics_inv env live M2"
          "workers M2 = workers M1"
          "metric_of M2 = (metric_of M1)(?mid \<mapsto> m'\<lparr>slots := VCounter (counter_value ?m) # replicate k (VCounter 0)\<rparr>)"
        by auto
      let ?m2 = "m'\<lparr>slots := VCounter (counter_value ?m) # replicate k (VCounter 0)\<rparr>"
      have "metric_of M2 ?mid = Some ?m2" using M2(4) by simp
      then have "wf_metric (workers M) ?m2" using M2(2,3) M1(2) unfolding metrics_inv_def by metis
      from get_counter_value [OF this] mt have "get_counter ?m2 (workers M) = Some (counter_value ?m)"
        by (simp add: counter_value_def sum_list_replicate)
      then have "carried old_workers (workers M) ?m ?m2"
        using t mt get_counter_value [OF m(1) t] by (simp add: carried_def)
      with M2 M1 m'(2) def rc t get_counter_value [OF m(1) t] increment_keeps_conf [OF M2(1)] show ?thesis
        by (simp add: realloc_metric_def Let_def)
    next
      assume t: "m_type ?m = METRIC_GAUGE"
      with m' have mt: "m_type m' = METRIC_GAUGE" "slots m' = VGauge 0 0 # replicate k (VGauge 0 0)"
        by (simp_all add: fresh_metric_def zero_slot_def k)
      from get_gauge_latest [OF m(1) t m(3)] obtain v where v: "get_gauge ?m old_workers = Some v" by blast
      from metrics_record_spec [where mid = ?mid and n = v, OF laws mv M1(1) w1] found mt slot obtain M2
        where M2: "ngx_wa_metrics_record env sz pr M1 ?mid v = Some (NGX_OK, M2)" "metrics_inv env live M2"
          "workers M2 = workers M1"
          "metric_of M2 = (metric_of M1)(?mid \<mapsto> m'\<lparr>slots := VGauge v (ngx_current_msec pr) # replicate k (VGauge 0 0)\<rparr>)"
        by auto
      let ?m2 = "m'\<lparr>slots := VGauge v (ngx_current_msec pr) # replicate k (VGauge 0 0)\<rparr>"
      have "carried old_workers (workers M) ?m ?m2"
        using t mt v by (simp add: carried_def get_gauge_def k get_gauge_from_zeros)
      with M2 M1 m'(2) def rc t v record_keeps_conf [OF M2(1)] show ?thesis
        by (simp add: realloc_metric_def Let_def)
    next
      assume t: "m_type ?m = METRIC_HISTOGRAM"
      with m' have mt: "m_type m' = METRIC_HISTOGRAM" "log2_only m'"
        by (auto simp: fresh_metric_def log2_only_def)
      from realloc_histogram_spec [OF laws mv M1(1) _ m(1,2) t found mt] w1 obtain M2 m2
        where "realloc_histogram env sz M1 old_workers ?m ?mid = Some (NGX_OK, M2)" "metrics_inv env live M2"
          "workers M2 = workers M1" "max_metric_name_length M2 = max_metric_name_length M1"
          "metric_of M2 = (metric_of M1)(?mid \<mapsto> m2)" "m_type m2 = METRIC_HISTOGRAM" by fastforce
      with M1 m'(2) def rc t show ?thesis by (simp add: realloc_metric_def Let_def carried_def)
    qed
  qed
qed

text \<open>The whole old tree. Its nodes are well-formed metrics under the hash of their name.\<close>

definition old_nodes_ok ::
  "'p nginx_env \<Rightarrow> nat \<Rightarrow> nat \<Rightarrow> (addr \<rightharpoonup> metric kv_node) \<Rightarrow> rbtree \<Rightarrow> bool" where
  "old_nodes_ok env old_workers max_name old_heap t \<longleftrightarrow>
     (\<forall>(k, a) \<in> rb_entries t. \<exists>n. old_heap a = Some n \<and> crc32 env (nd_key n) = k \<and>
        length (nd_key n) \<le> max_name \<and> wf_metric old_workers (nd_value n) \<and> log2_only (nd_value n))"

lemma realloc_metrics_spec:
  assumes laws: "nginx_laws env live" and mv: "memcpy_moves sz" and pr: "ngx_worker pr = None" and old: "0 < old_workers"
  shows "metrics_inv env live M \<Longrightarrow> 0 < workers M \<Longrightarrow> rb_bst t \<Longrightarrow>
     old_nodes_ok env old_workers (max_metric_name_length M) old_heap t \<Longrightarrow>
     (\<forall>k \<in> fst ` rb_entries t. metric_of M k = None) \<Longrightarrow>
     \<exists>rc M'. realloc_metrics env sz pr old_workers old_heap t M = Some (rc, M') \<and> metrics_inv env live M' \<and>
       workers M' = workers M \<and> max_metric_name_length M' = max_metric_name_length M \<and> rc \<in> {NGX_OK, NGX_ERROR} \<and>
       (\<forall>g. g \<notin> fst ` rb_entries t \<longrightarrow> metric_of M' g = metric_of M g) \<and>
       (rc = NGX_OK \<longrightarrow> (\<forall>(k, a) \<in> rb_entries t. \<exists>n m'. old_heap a = Some n \<and> metric_of M' k = Some m' \<and>
          carried old_workers (workers M) (nd_value n) m'))"
proof (induction t arbitrary: M)
  case Sentinel
  then show ?case by simp
next
  case (RbNode l k a r)
  from RbNode.prems(3) have bst: "rb_bst l" "rb_bst r" and lt: "\<And>x. x \<in> fst ` rb_entries l \<Longrightarrow> x < k"
    and gt: "\<And>x. x \<in> fst ` rb_entries r \<Longrightarrow> k < x" by (auto simp: rb_bst_node)
  from RbNode.prems(4) obtain n where n: "old_heap a = Some n" "crc32 env (nd_key n) = k"
    "length (nd_key n) \<le> max_metric_name_length M" "wf_metric old_workers (nd_value n)" "log2_only (nd_value n)"
    and ok: "old_nodes_ok env old_workers (max_metric_name_length M) old_heap l"
      "old_nodes_ok env old_workers (max_metric_name_length M) old_heap r"
    by (auto simp: old_nodes_ok_def)
  have abs: "metric_of M (crc32 env (nd_key n)) = None" using RbNode.prems(5) n(2) by simp
  from realloc_metric_spec [OF laws mv RbNode.prems(1) n(4,5) old pr RbNode.prems(2) abs n(3)]
  obtain rc1 M1 where M1: "realloc_metric env sz pr old_workers n M = Some (rc1, M1)" "metrics_inv env live M1"
    "workers M1 = workers M" "max_metric_name_length M1 = max_metric_name_length M" "rc1 \<in> {NGX_OK, NGX_ERROR}"
    "\<forall>g. g \<noteq> k \<longrightarrow> metric_of M1 g = metric_of M g"
    "rc1 = NGX_OK \<longrightarrow> (\<exists>m'. metric_of M1 k = Some m' \<and> carried old_workers (workers M) (nd_value n) m')"
    unfolding n(2) by blast
  show ?case
  proof (cases "rc1 = NGX_OK")
    case False
    with M1 n show ?thesis by auto
  next
    case ok1: True
    have "\<forall>x \<in> fst ` rb_entries l. metric_of M1 x = None"
    proof
      fix x assume x: "x \<in> fst ` rb_entries l"
      then have "x \<noteq> k" "metric_of M x = None" using lt RbNode.prems(5) by auto
      with M1(6) show "metric_of M1 x = None" by simp
    qed
    from RbNode.IH(1) [OF M1(2) _ bst(1) _ this] M1(3,4) ok(1) RbNode.prems(2)
    obtain rc2 M2 where M2: "realloc_metrics env sz pr old_workers old_heap l M1 = Some (rc2, M2)" "metrics_inv env live M2"
      "workers M2 = workers M" "max_metric_name_length M2 = max_metric_name_length M" "rc2 \<in> {NGX_OK, NGX_ERROR}"
      "\<forall>g. g \<notin> fst ` rb_entries l \<longrightarrow> metric_of M2 g = metric_of M1 g"
      "rc2 = NGX_OK \<longrightarrow> (\<forall>(k, a) \<in> rb_entries l. \<exists>n m'. old_heap a = Some n \<and> metric_of M2 k = Some m' \<and>
          carried old_workers (workers M) (nd_value n) m')" by auto
    show ?thesis
    proof (cases "rc2 = NGX_OK")
      case False
      with M1 M2 n ok1 show ?thesis by auto
    next
      case ok2: True
      have "\<forall>x \<in> fst ` rb_entries r. metric_of M2 x = None"
      proof
        fix x assume x: "x \<in> fst ` rb_entries r"
        then have "x \<noteq> k" "x \<notin> fst ` rb_entries l" using lt gt by (metis less_asym less_irrefl)+
        with x RbNode.prems(5) M1(6) M2(6) show "metric_of M2 x = None" by auto
      qed
      from RbNode.IH(2) [OF M2(2) _ bst(2) _ this] M2(3,4) ok(2) RbNode.prems(2)
      obtain rc3 M3 where M3: "realloc_metrics env sz pr old_workers old_heap r M2 = Some (rc3, M3)" "metrics_inv env live M3"
        "workers M3 = workers M" "max_metric_name_length M3 = max_metric_name_length M" "rc3 \<in> {NGX_OK, NGX_ERROR}"
        "\<forall>g. g \<notin> fst ` rb_entries r \<longrightarrow> metric_of M3 g = metric_of M2 g"
        "rc3 = NGX_OK \<longrightarrow> (\<forall>(k, a) \<in> rb_entries r. \<exists>n m'. old_heap a = Some n \<and> metric_of M3 k = Some m' \<and>
            carried old_workers (workers M) (nd_value n) m')" by auto
      have keep: "metric_of M3 k = metric_of M1 k" "\<And>x. x \<in> fst ` rb_entries l \<Longrightarrow> metric_of M3 x = metric_of M2 x"
        using M2(6) M3(6) lt gt by (metis less_asym less_irrefl)+
      have "realloc_metrics env sz pr old_workers old_heap (RbNode l k a r) M = Some (rc3, M3)"
        using M1(1) M2(1) M3(1,5) n(1) ok1 ok2 by auto
      moreover have "\<forall>g. g \<notin> fst ` rb_entries (RbNode l k a r) \<longrightarrow> metric_of M3 g = metric_of M g"
        using M1(6) M2(6) M3(6) by (simp add: image_Un)
      moreover have "\<exists>n m'. old_heap b = Some n \<and> metric_of M3 x = Some m' \<and> carried old_workers (workers M) (nd_value n) m'"
        if "(x, b) \<in> rb_entries (RbNode l k a r)" "rc3 = NGX_OK" for x b
      proof -
        from that(1) consider "(x, b) \<in> rb_entries l" | "x = k" "b = a" | "(x, b) \<in> rb_entries r" by auto
        then show ?thesis
        proof cases
          case 1
          then have "x \<in> fst ` rb_entries l" by (metis fst_conv image_eqI)
          from keep(2) [OF this] 1 M2(7) ok2 show ?thesis by auto
        next
          case 2
          with keep(1) M1(7) ok1 n(1) show ?thesis by simp
        next
          case 3
          with M3(7) that(2) show ?thesis by auto
        qed
      qed
      ultimately show ?thesis using M3(2-5) by blast
    qed
  qed
qed

lemma hist_get_bins_custom_overflow:
  "j \<le> n_bins out \<Longrightarrow> j + length (hist_live bs) > n_bins out \<Longrightarrow>
     hist_get_bins env sz p HISTOGRAM_CUSTOM bs j out = None"
proof (induction bs arbitrary: j out)
  case (Cons b bs)
  show ?case
  proof (cases "j < n_bins out")
    case True
    with Cons.prems have b: "bounded b" by (simp add: hist_live_Cons split: if_splits)
    let ?o = "out\<lparr>bins := (bins out)[j := (bins out ! j)\<lparr>upper_bound := upper_bound b\<rparr>]\<rparr>"
    from True obtain obs where obs: "inc_bin (bins ?o) j (bin_count b) = Some obs" "length obs = n_bins out"
      by (simp add: inc_bin_def)
    with Cons.IH [of "j + 1" "?o\<lparr>bins := obs\<rparr>"] Cons.prems True b show ?thesis
      by (simp add: hist_live_Cons bounded_def)
  qed simp
qed simp

section \<open>Properties\<close>

text \<open>The metrics of the witnesses: two workers, an empty store.\<close>

definition demo_metrics :: "pool metrics" where
  "demo_metrics = \<lparr>workers = 2, max_metric_name_length = 256, slab_size = 1000,
     m_shm = demo_store EVICTION_NONE 1000\<rparr>"

lemma demo_metrics_inv: "metrics_inv demo_env pool_live demo_metrics" "\<And>g. metric_of demo_metrics g = None"
proof -
  have kv: "kv_inv demo_env pool_live (demo_store EVICTION_NONE 1000)" and ev: "eviction (demo_store EVICTION_NONE 1000) = EVICTION_NONE"
    by (rule demo_store_inv, simp)+
  show none: "metric_of demo_metrics g = None" for g
    by (simp add: demo_metrics_def metric_of_def demo_store_def ngx_wa_shm_kv_init_def demo_zone_def demo_env_def
        pool_alloc_def kv_map_def Let_def)
  then have "hist_loc (metric_of demo_metrics) = Map.empty" by (auto simp: hist_loc_def)
  with kv ev none show "metrics_inv demo_env pool_live demo_metrics"
    by (simp add: metrics_inv_def metrics_sep_def) (simp add: demo_metrics_def)
qed

definition demo_counter :: "pool metrics" where
  "demo_counter = snd (snd (the (ngx_wa_metrics_define demo_env lp64 demo_metrics [99] METRIC_COUNTER None)))"

lemma demo_counter_spec:
  "metrics_inv demo_env pool_live demo_counter" "workers demo_counter = 2"
  "\<exists>m. metric_of demo_counter 1 = Some m \<and> m_type m = METRIC_COUNTER \<and> counter_value m = 0"
proof -
  have mid: "crc32 demo_env [99] = 1" by code_simp
  have "length ([99] :: bytes) \<le> max_metric_name_length demo_metrics" by (simp add: demo_metrics_def)
  from metrics_define_spec [OF demo_laws demo_metrics_inv(1) _ this refl, of METRIC_COUNTER lp64 None]
  obtain rc out M' where M': "ngx_wa_metrics_define demo_env lp64 demo_metrics [99] METRIC_COUNTER None = Some (rc, out, M')"
    "metrics_inv demo_env pool_live M'" "workers M' = workers demo_metrics"
    and or: "(rc = NGX_OK \<and> (\<exists>m. fresh_metric (workers demo_metrics) METRIC_COUNTER None m \<and>
        metric_of M' = (metric_of demo_metrics)(1 \<mapsto> m))) \<or> rc \<noteq> NGX_OK"
    unfolding mid demo_metrics_inv(2) by auto
  have "map_option fst (ngx_wa_metrics_define demo_env lp64 demo_metrics [99] METRIC_COUNTER None) = Some NGX_OK" by code_simp
  with M'(1) have "rc = NGX_OK" by simp
  with or show "\<exists>m. metric_of demo_counter 1 = Some m \<and> m_type m = METRIC_COUNTER \<and> counter_value m = 0"
    by (auto simp: demo_counter_def M'(1) fresh_metric_def counter_value_def zero_slot_def sum_list_replicate)
  show "metrics_inv demo_env pool_live demo_counter" "workers demo_counter = 2"
    using M' by (simp_all add: demo_counter_def demo_metrics_def)
qed

text \<open>
  Defining a metric: an existing name returns its id and changes nothing; a new name adds exactly
  one metric of the type, with zero counters or empty histograms for every worker, or fails
  without adding one (no memory, or too many bins); the store stays well-formed.
\<close>

theorem metrics_define_effect:
  assumes "nginx_laws env live" and "metrics_inv env live M"
    and "ty = METRIC_COUNTER \<or> ty = METRIC_GAUGE \<or> ty = METRIC_HISTOGRAM"
    and "length name \<le> max_metric_name_length M"
  shows "\<exists>rc out M'. ngx_wa_metrics_define env sz M name ty ubs = Some (rc, out, M') \<and> metrics_inv env live M' \<and>
     (if metric_of M (crc32 env name) \<noteq> None then rc = NGX_OK \<and> out = Some (crc32 env name) \<and> M' = M
      else rc = NGX_OK \<and> out = Some (crc32 env name) \<and>
             (\<exists>m. fresh_metric (workers M) ty ubs m \<and> metric_of M' = (metric_of M)(crc32 env name \<mapsto> m))
         \<or> rc \<in> {NGX_ERROR, NGX_ABORT} \<and> out = None \<and> metric_of M' = metric_of M)"
  using metrics_define_spec [OF assms refl, of sz ubs] by blast

theorem metrics_define_effect_witness:
  "\<exists>out M'. ngx_wa_metrics_define demo_env lp64 demo_metrics [99] METRIC_COUNTER None = Some (NGX_OK, out, M') \<and>
     out = Some 1 \<and> metrics_inv demo_env pool_live M'"
proof -
  have mid: "crc32 demo_env [99] = 1" by code_simp
  have ok: "map_option fst (ngx_wa_metrics_define demo_env lp64 demo_metrics [99] METRIC_COUNTER None) = Some NGX_OK"
    by code_simp
  have "length ([99] :: bytes) \<le> max_metric_name_length demo_metrics" by (simp add: demo_metrics_def)
  from metrics_define_effect [OF demo_laws demo_metrics_inv(1) _ this, of METRIC_COUNTER lp64 None] ok show ?thesis
    unfolding mid demo_metrics_inv(2) by auto
qed

text \<open>
  C19. Counters lose no increment: whatever increments workers make, in whatever order, a reader gets
  the old value of the counter plus the amounts for that counter (modulo \<open>2^64\<close>).
\<close>

theorem metrics_counter_total:
  assumes "nginx_laws env live" and "metrics_inv env live M" and "\<forall>op \<in> set ops. fst op < workers M"
    and "metric_of M mid = Some m" and "m_type m = METRIC_COUNTER"
  shows "\<exists>M'. run_increments env now M ops = Some M' \<and>
     ngx_wa_metrics_get env sz M' mid out = Some (NGX_OK, Some \<lparr>m_type = METRIC_COUNTER,
       slots = [VCounter (counter_value m + sum_list (map (\<lambda>(w, g, n). if g = mid then n else 0) ops))]\<rparr>, M')"
proof -
  from run_increments_spec [OF assms, of now] obtain M' m'
    where "run_increments env now M ops = Some M'" "metrics_inv env live M'"
      "metric_of M' mid = Some m'" "m_type m' = METRIC_COUNTER"
      "counter_value m' = counter_value m + sum_list (map (\<lambda>(w, g, n). if g = mid then n else 0) ops)" by blast
  with metrics_get_counter [of env live M' mid m' sz out] show ?thesis by auto
qed

theorem metrics_counter_total_witness:
  "\<exists>M'. run_increments demo_env 0 demo_counter [(0, 1, 5), (1, 1, 7), (1, 2, 9)] = Some M' \<and>
     ngx_wa_metrics_get demo_env lp64 M' 1 fresh_log2 =
       Some (NGX_OK, Some \<lparr>m_type = METRIC_COUNTER, slots = [VCounter 12]\<rparr>, M')"
proof -
  obtain m where m: "metric_of demo_counter 1 = Some m" "m_type m = METRIC_COUNTER" "counter_value m = 0"
    using demo_counter_spec(3) by blast
  have "\<forall>op \<in> set [(0, 1, 5), (1, 1, 7), (1, 2, 9 :: u64)]. fst op < workers demo_counter"
    by (simp add: demo_counter_spec(2))
  from metrics_counter_total [OF demo_laws demo_counter_spec(1) this m(1,2), of 0 lp64 fresh_log2] m(3)
  show ?thesis by simp
qed

text \<open>
  A gauge reads as one of the values with the latest time of update among the workers.
\<close>

theorem metrics_gauge_latest:
  assumes inv: "metrics_inv env live M" and m: "metric_of M mid = Some m" "m_type m = METRIC_GAUGE"
    and w: "0 < workers M"
  shows "\<exists>v t. ngx_wa_metrics_get env sz M mid out =
       Some (NGX_OK, Some \<lparr>m_type = METRIC_GAUGE, slots = [VGauge v 0]\<rparr>, M) \<and>
     VGauge v t \<in> set (slots m) \<and> (\<forall>v' t'. VGauge v' t' \<in> set (slots m) \<longrightarrow> t' \<le> t)"
proof (cases rule: metrics_lookup [OF inv, of mid])
  case (2 a nd)
  with m get_gauge_latest [OF 2(2) _ w] show ?thesis by (auto simp: ngx_wa_metrics_get_def Let_def)
qed (use m in simp)

definition demo_gauge :: "pool metrics" where
  "demo_gauge = snd (snd (the (ngx_wa_metrics_define demo_env lp64 demo_metrics [99] METRIC_GAUGE None)))"

lemma demo_gauge_inv: "metrics_inv demo_env pool_live demo_gauge"
proof -
  have "length ([99] :: bytes) \<le> max_metric_name_length demo_metrics" by (simp add: demo_metrics_def)
  from metrics_define_spec [OF demo_laws demo_metrics_inv(1) _ this refl, of METRIC_GAUGE lp64 None] show ?thesis
    by (auto simp: demo_gauge_def)
qed

theorem metrics_gauge_latest_witness:
  "\<exists>v. ngx_wa_metrics_get demo_env lp64 demo_gauge 1 fresh_log2 =
     Some (NGX_OK, Some \<lparr>m_type = METRIC_GAUGE, slots = [VGauge v 0]\<rparr>, demo_gauge)"
proof -
  have "map_option m_type (metric_of demo_gauge 1) = Some METRIC_GAUGE" "0 < workers demo_gauge" by code_simp+
  then obtain m where "metric_of demo_gauge 1 = Some m" "m_type m = METRIC_GAUGE" by auto
  from metrics_gauge_latest [OF demo_gauge_inv this \<open>0 < workers demo_gauge\<close>] show ?thesis by blast
qed

text \<open>
  Recording by a worker changes that worker's slot of that metric and nothing else; an unknown
  metric is declined, a counter refused, and (on a platform that moves overlapping ranges) the store stays well-formed (no two slots ever share
  a histogram, although histograms move in memory when they grow).
\<close>

theorem metrics_record_own_slot:
  assumes "nginx_laws env live" and "memcpy_moves sz" and "metrics_inv env live M" and "metric_slot pr < workers M"
  shows "case metric_of M mid of
      None \<Rightarrow> ngx_wa_metrics_record env sz pr M mid n = Some (NGX_DECLINED, M)
    | Some m \<Rightarrow>
        if m_type m = METRIC_COUNTER then ngx_wa_metrics_record env sz pr M mid n = Some (NGX_ABORT, M)
        else \<exists>v M'. ngx_wa_metrics_record env sz pr M mid n = Some (NGX_OK, M') \<and>
          metrics_inv env live M' \<and> workers M' = workers M \<and>
          (m_type m = METRIC_GAUGE \<longrightarrow> v = VGauge n (ngx_current_msec pr)) \<and>
          metric_of M' = (metric_of M)(mid \<mapsto> m\<lparr>slots := (slots m)[metric_slot pr := v]\<rparr>)"
  using metrics_record_spec [OF assms] .

theorem metrics_record_own_slot_witness:
  "\<exists>M'. ngx_wa_metrics_record demo_env lp64 \<lparr>ngx_worker = Some 1, ngx_current_msec = 3\<rparr> demo_gauge 1 42 =
     Some (NGX_OK, M') \<and> metrics_inv demo_env pool_live M'"
proof -
  let ?pr = "\<lparr>ngx_worker = Some 1, ngx_current_msec = 3\<rparr>"
  have "map_option m_type (metric_of demo_gauge 1) = Some METRIC_GAUGE" "metric_slot ?pr < workers demo_gauge" by code_simp+
  then obtain m where "metric_of demo_gauge 1 = Some m" "m_type m = METRIC_GAUGE" by auto
  with metrics_record_own_slot [where mid = 1 and n = 42,
      OF demo_laws lp64_moves demo_gauge_inv \<open>metric_slot ?pr < workers demo_gauge\<close>]
  show ?thesis by auto
qed

text \<open>
  A reload that changes the number of workers or the size of the zone carries the metrics over: the
  master process redefines every metric of the old store in the new one, and counters and
  gauges read as before, on a platform whose \<open>ngx_memcpy\<close> moves overlapping ranges. (Histograms with user-defined bins are excluded, see below; a
  reload may still fail for lack of memory.)
\<close>

theorem metrics_reload_carries:
  assumes laws: "nginx_laws env live" and mv: "memcpy_moves sz" and pr: "ngx_worker pr = None"
    and old: "metrics_inv env live old_M" "0 < workers old_M"
      "\<forall>g n. kv_map (m_shm old_M) g = Some n \<longrightarrow> log2_only (nd_value n) \<and> length (nd_key n) \<le> max_metric_name_length M"
    and zone: "min_shift (m_shm M) \<le> ngx_pagesize_shift (m_shm M)" "eviction (m_shm M) = EVICTION_NONE" "0 < workers M"
    and init: "ngx_wa_shm_kv_init env sizeof_kv sizeof_queue (m_shm M) = (NGX_OK, s)"
  shows "\<exists>rc M'. ngx_wa_metrics_shm_init env sz pr sizeof_kv sizeof_queue (Some old_M) True M = Some (rc, M') \<and>
     metrics_inv env live M' \<and> rc \<in> {NGX_OK, NGX_ERROR} \<and>
     (rc = NGX_OK \<longrightarrow> (\<forall>g m. metric_of old_M g = Some m \<longrightarrow>
        (\<exists>m'. metric_of M' g = Some m' \<and> carried (workers old_M) (workers M) m m')))"
proof -
  let ?M = "M\<lparr>m_shm := s\<rparr>" and ?t = "kv_rbtree (m_shm old_M)" and ?hp = "kv_heap (m_shm old_M)"
  note i = kv_init_inv [OF zone(1) init]
  have none: "metric_of ?M g = None" for g using i(2) by (simp add: metric_of_def)
  then have "hist_loc (metric_of ?M) = Map.empty" by (auto simp: hist_loc_def)
  with i none zone(2) have inv: "metrics_inv env live ?M" by (simp add: metrics_inv_def metrics_sep_def)
  from old(1) have core: "kv_core env live (m_shm old_M)" by (simp add: metrics_inv_def kv_inv_def)
  have nodes: "old_nodes_ok env (workers old_M) (max_metric_name_length ?M) ?hp ?t"
    unfolding old_nodes_ok_def
  proof clarify
    fix k a assume e: "(k, a) \<in> rb_entries ?t"
    obtain n where n: "?hp a = Some n" "kv_map (m_shm old_M) k = Some n" "crc32 env (nd_key n) = k"
      by (rule kv_core_entry [OF core e])
    then have "metric_of old_M k = Some (nd_value n)" by (simp add: metric_of_def)
    with old(1) have "wf_metric (workers old_M) (nd_value n)" unfolding metrics_inv_def by blast
    with n old(3) show "\<exists>n. ?hp a = Some n \<and> crc32 env (nd_key n) = k \<and> length (nd_key n) \<le> max_metric_name_length ?M \<and>
        wf_metric (workers old_M) (nd_value n) \<and> log2_only (nd_value n)" by auto
  qed
  have w: "0 < workers ?M" "\<forall>k \<in> fst ` rb_entries ?t. metric_of ?M k = None" using zone(3) none by simp_all
  from realloc_metrics_spec [OF laws mv pr old(2) inv w(1) kv_coreD(1) [OF core] nodes w(2)]
  obtain rc M' where M': "realloc_metrics env sz pr (workers old_M) ?hp ?t ?M = Some (rc, M')" "metrics_inv env live M'"
    "rc \<in> {NGX_OK, NGX_ERROR}"
    "rc = NGX_OK \<longrightarrow> (\<forall>(k, a) \<in> rb_entries ?t. \<exists>n m'. ?hp a = Some n \<and> metric_of M' k = Some m' \<and>
        carried (workers old_M) (workers M) (nd_value n) m')" by auto
  have "\<exists>m'. metric_of M' g = Some m' \<and> carried (workers old_M) (workers M) m m'"
    if rc: "rc = NGX_OK" and m: "metric_of old_M g = Some m" for g m
  proof -
    from m obtain n where n: "kv_map (m_shm old_M) g = Some n" "nd_value n = m" by (auto simp: metric_of_def)
    then obtain a where "(g, a) \<in> rb_entries ?t" "?hp a = Some n" using kv_map_Some_iff [OF core] by blast
    with M'(4) rc n show ?thesis by fastforce
  qed
  moreover have "ngx_wa_metrics_shm_init env sz pr sizeof_kv sizeof_queue (Some old_M) True M = Some (rc, M')"
    using init M'(1) by (simp add: ngx_wa_metrics_shm_init_def)
  ultimately show ?thesis using M'(2,3) by blast
qed

text \<open>
  A histogram with more than five user-defined bins is carried over out of bounds: the metric is
  redefined without its bins, as a logarithmic histogram with room for five, and the
  old bins are then written one by one over its array.
\<close>

theorem metrics_realloc_custom_overflow:
  assumes laws: "nginx_laws env live" and inv: "metrics_inv env live M" and w: "0 < workers M" "0 < old_workers"
    and absent: "metric_of M (crc32 env (nd_key n)) = None" "length (nd_key n) \<le> max_metric_name_length M"
    and m: "wf_metric old_workers (nd_value n)" "m_type (nd_value n) = METRIC_HISTOGRAM"
      "slots (nd_value n) ! 0 = VHistogram ha h" "h_type h = HISTOGRAM_CUSTOM" "length (hist_live (bins h)) > BINS_INIT"
    and define_ok: "ngx_wa_metrics_define env sz M (nd_key n) METRIC_HISTOGRAM None = Some (NGX_OK, out, M1)"
  shows "realloc_metric env sz pr old_workers n M = None"
proof -
  let ?mid = "crc32 env (nd_key n)"
  from metrics_define_spec [OF laws inv _ absent(2) refl, of METRIC_HISTOGRAM sz None] absent(1) define_ok obtain m'
    where M1: "metrics_inv env live M1" "out = Some ?mid" "fresh_metric (workers M) METRIC_HISTOGRAM None m'"
      "metric_of M1 = (metric_of M)(?mid \<mapsto> m')" by auto
  from M1(3) w(1) obtain a' vs where s': "slots m' = VHistogram a' \<lparr>h_type = HISTOGRAM_LOG2, hist_sum = 0,
      bins = initial_bins None\<rparr> # vs" by (cases "slots m'") (auto simp: fresh_metric_def)
  have five: "n_bins \<lparr>h_type = HISTOGRAM_LOG2, hist_sum = 0, bins = initial_bins None\<rparr> = BINS_INIT"
    by (simp add: initial_bins_def bins_consts)
  from m(1) w(2) obtain v ws where ws: "slots (nd_value n) = v # ws" by (cases "slots (nd_value n)") (auto simp: wf_metric_def)
  with m(1,2) get_histograms_ok [of "slots (nd_value n)"] obtain hs where hs: "get_histograms (slots (nd_value n)) = Some hs"
    by (auto simp: wf_metric_def)
  from hs ws m(3) obtain hs' where "hs = h # hs'" by auto
  moreover have take: "take old_workers (slots (nd_value n)) = slots (nd_value n)" using m(1) by (simp add: wf_metric_def)
  moreover have "ngx_wa_metrics_histogram_get env sz p (h # hs')
      \<lparr>h_type = HISTOGRAM_LOG2, hist_sum = 0, bins = initial_bins None\<rparr> = None" for p
    using hist_get_bins_custom_overflow [of 0 "\<lparr>h_type = HISTOGRAM_LOG2, hist_sum = 0, bins = initial_bins None\<rparr>"
        "bins h" env sz p] m(4,5) five by simp
  ultimately have over: "get_histograms (take old_workers (slots (nd_value n))) = Some (h # hs')"
    "\<And>p. ngx_wa_metrics_histogram_get env sz p (h # hs') \<lparr>h_type = HISTOGRAM_LOG2, hist_sum = 0, bins = initial_bins None\<rparr> = None"
    using hs by simp_all
  have "realloc_histogram env sz M1 old_workers (nd_value n) ?mid = None"
  proof (cases rule: metrics_lookup [OF M1(1), of ?mid])
    case (2 a nd)
    with M1(4) have "nd_value nd = m'" by simp
    with 2(3) s' over show ?thesis by (simp add: realloc_histogram_def)
  qed (use M1(4) in simp)
  with define_ok M1(2) m(2) show ?thesis by (simp add: realloc_metric_def Let_def)
qed

text \<open>Witnesses of the reload: a counter that is carried over, and an old histogram with six bins.\<close>

definition demo_new :: "pool metrics" where
  "demo_new = demo_metrics\<lparr>workers := 3, m_shm := demo_zone EVICTION_NONE 1000\<rparr>"

definition demo_master :: process where
  "demo_master = \<lparr>ngx_worker = None, ngx_current_msec = 9\<rparr>"

theorem metrics_reload_carries_witness:
  "\<exists>M' m'. ngx_wa_metrics_shm_init demo_env lp64 demo_master 20 2 (Some demo_counter) True demo_new = Some (NGX_OK, M') \<and>
     metric_of M' 1 = Some m' \<and> m_type m' = METRIC_COUNTER"
proof -
  obtain m where m: "metric_of demo_counter 1 = Some m" "m_type m = METRIC_COUNTER"
    using demo_counter_spec(3) by blast
  have t: "rb_inorder (kv_rbtree (m_shm demo_counter)) = [(1, 2)]"
    "map_option (\<lambda>n. (map slot_addr (slots (nd_value n)), nd_key n)) (kv_heap (m_shm demo_counter) 2) = Some ([None, None], [99])"
    by code_simp+
  have core: "kv_core demo_env pool_live (m_shm demo_counter)"
    using demo_counter_spec(1) by (simp add: metrics_inv_def kv_inv_def)
  have nodes: "\<forall>g n. kv_map (m_shm demo_counter) g = Some n \<longrightarrow>
      log2_only (nd_value n) \<and> length (nd_key n) \<le> max_metric_name_length demo_new"
  proof (intro allI impI)
    fix g n assume "kv_map (m_shm demo_counter) g = Some n"
    then have "kv_heap (m_shm demo_counter) 2 = Some n" unfolding kv_map_Some_iff [OF core] by (simp add: t)
    with t(2) have n: "map slot_addr (slots (nd_value n)) = [None, None]" "nd_key n = [99]" by simp_all
    have "None = slot_addr (VHistogram a h)" if "VHistogram a h \<in> set (slots (nd_value n))" for a h
      using n(1) that by (auto simp: map_eq_Cons_conv)
    then show "log2_only (nd_value n) \<and> length (nd_key n) \<le> max_metric_name_length demo_new"
      using n(2) by (auto simp: log2_only_def demo_new_def demo_metrics_def)
  qed
  have z: "min_shift (m_shm demo_new) \<le> ngx_pagesize_shift (m_shm demo_new)" "eviction (m_shm demo_new) = EVICTION_NONE"
    "0 < workers demo_new" "ngx_worker demo_master = None" "0 < workers demo_counter"
    by (simp_all add: demo_new_def demo_zone_def demo_master_def demo_counter_spec(2))
  have "fst (ngx_wa_shm_kv_init demo_env 20 2 (m_shm demo_new)) = NGX_OK" by code_simp
  then obtain s where s: "ngx_wa_shm_kv_init demo_env 20 2 (m_shm demo_new) = (NGX_OK, s)" by (metis prod.collapse)
  have "map_option fst (ngx_wa_metrics_shm_init demo_env lp64 demo_master 20 2 (Some demo_counter) True demo_new) = Some NGX_OK"
    by code_simp
  with metrics_reload_carries [OF demo_laws lp64_moves z(4) demo_counter_spec(1) z(5) nodes z(1-3) s]
  obtain M' where M': "ngx_wa_metrics_shm_init demo_env lp64 demo_master 20 2 (Some demo_counter) True demo_new = Some (NGX_OK, M')"
    "\<forall>g m. metric_of demo_counter g = Some m \<longrightarrow>
       (\<exists>m'. metric_of M' g = Some m' \<and> carried (workers demo_counter) (workers demo_new) m m')" by auto
  from M'(2) m(1) obtain m' where "metric_of M' 1 = Some m'" "carried (workers demo_counter) (workers demo_new) m m'" by blast
  with M'(1) m(2) show ?thesis by (auto simp: carried_def)
qed

definition demo_custom :: "metric kv_node" where
  "demo_custom = \<lparr>nd_key = [1, 2], nd_value_len = 0, nd_value = \<lparr>m_type = METRIC_HISTOGRAM,
     slots = [VHistogram 7 \<lparr>h_type = HISTOGRAM_CUSTOM, hist_sum = 0, bins = initial_bins (Some [1, 2, 3, 4, 5])\<rparr>]\<rparr>,
     nd_cas = 1\<rparr>"

theorem metrics_realloc_custom_overflow_witness:
  "realloc_metric demo_env lp64 demo_master 1 demo_custom demo_metrics = None"
proof -
  have "map_option fst (ngx_wa_metrics_define demo_env lp64 demo_metrics (nd_key demo_custom) METRIC_HISTOGRAM None) = Some NGX_OK"
    by code_simp
  then obtain out M1 where d: "ngx_wa_metrics_define demo_env lp64 demo_metrics (nd_key demo_custom) METRIC_HISTOGRAM None =
      Some (NGX_OK, out, M1)" by auto
  have len: "length (hist_live (initial_bins (Some [1, 2, 3, 4, 5]))) > BINS_INIT" "initial_bins (Some [1, 2, 3, 4, 5]) \<noteq> []"
    by code_simp+
  show ?thesis
    by (rule metrics_realloc_custom_overflow [where ha = 7 and
          h = "\<lparr>h_type = HISTOGRAM_CUSTOM, hist_sum = 0, bins = initial_bins (Some [1, 2, 3, 4, 5])\<rparr>",
          OF demo_laws demo_metrics_inv(1) _ _ demo_metrics_inv(2) _ _ _ _ _ _ d])
      (use len in \<open>simp_all add: demo_metrics_def demo_custom_def wf_metric_def wf_hist_def\<close>)
qed

end
