(* ===== verification/Host_Metrics.thy ===== *)
theory Host_Metrics
  imports Host_Shared Metrics
begin

text \<open>
  The host functions for metrics (src/src/common/proxy_wasm/ngx_proxy_wasm_host.c): defining, reading, recording and
  incrementing a metric by its id. The state of the host is extended by the metrics store.
\<close>

record ('p, 'g) mhost = "('p, 'g) host" +
  h_metrics :: "'p metrics"

section \<open>Metrics\<close>

definition metric_type_of :: "u32 \<Rightarrow> metric_type option" where
  "metric_type_of t = (if t = 0 then Some METRIC_COUNTER else if t = 1 then Some METRIC_GAUGE
     else if t = 2 then Some METRIC_HISTOGRAM else None)"

text \<open>The name of a metric of a filter: \<open>pw:\<close>, the name of the filter, a colon and the name.\<close>

definition prefixed_name :: "bytes \<Rightarrow> bytes \<Rightarrow> bytes" where
  "prefixed_name filter_name name = [112, 119, 58] @ filter_name @ [58] @ name"

text \<open>
  The error messages are formatted without a bound into a buffer of \<open>NGX_MAX_ERROR_STR\<close> bytes (a parameter, a constant of nginx): \<open>trap_fits\<close>
  says whether a message with its terminating zero fits, otherwise the stack is overwritten. (The
  message is then passed on as a format string; what the formatter does with a percent sign in the name is not
  modelled.)
\<close>

definition trap_fits :: "nat \<Rightarrow> nat \<Rightarrow> bool" where
  "trap_fits max_error_str len \<longleftrightarrow> len < max_error_str"

fun dec_len :: "nat \<Rightarrow> nat" where
  "dec_len n = (if n < 10 then 1 else Suc (dec_len (n div 10)))"

declare dec_len.simps [simp del]

definition ngx_proxy_wasm_hfuncs_define_metric ::
  "'p nginx_env \<Rightarrow> sizes \<Rightarrow> nat \<Rightarrow> bytes \<Rightarrow> u32 \<Rightarrow> u32 \<Rightarrow> u32 \<Rightarrow> u32 \<Rightarrow> ('p, 'g) mhost \<Rightarrow> (hfunc_ret \<times> ('p, 'g) mhost) option" where
  "ngx_proxy_wasm_hfuncs_define_metric env sz max_error_str filter_name ty name_ptr name_len id_ptr st =
     (case (ngx_wavm_memory_lift (h_mem st) name_ptr name_len 1, ngx_wavm_memory_lift (h_mem st) id_ptr 4 1) of
        (Some np, Some (Some ip)) \<Rightarrow>
          let name = read_slice (h_mem st) np name_len in
          (case metric_type_of ty of
             None \<Rightarrow>
               if trap_fits max_error_str (25 + length name + 17 + dec_len (unat ty) + 1) then Some (Wavm_error, st) else None
           | Some t \<Rightarrow>
               if 4 + length filter_name + length name > max_metric_name_length (h_metrics st)
               then (if trap_fits max_error_str (31 + length name + 10) then Some (Wavm_error, st) else None)
               else do {
                 (rc, out, M) \<leftarrow> ngx_wa_metrics_define env sz (h_metrics st) (prefixed_name filter_name name) t None;
                 let st1 = st\<lparr>h_metrics := M\<rparr>;
                 if rc = NGX_ERROR
                 then (if trap_fits max_error_str (25 + length name + 45) then Some (Wavm_error, st1) else None)
                 else if rc \<noteq> NGX_OK then Some (Wavm_error, st1)
                 else do {
                   mid \<leftarrow> out;
                   mem1 \<leftarrow> buf_write (h_mem st1) ip (le32 mid);
                   Some (Result RESULT_OK, st1\<lparr>h_mem := mem1\<rparr>) } })
      | _ \<Rightarrow> Some (Bad_usage, st))"

text \<open>The image of a 64-bit word.\<close>

definition le64 :: "u64 \<Rightarrow> bytes" where
  "le64 w = le32 (ucast w) @ le32 (ucast (drop_bit 32 w))"

text \<open>\<open>hbuf\<close> is the buffer for the histogram on the stack.\<close>

definition ngx_proxy_wasm_hfuncs_get_metric ::
  "'p nginx_env \<Rightarrow> sizes \<Rightarrow> histogram \<Rightarrow> u32 \<Rightarrow> u32 \<Rightarrow> ('p, 'g) mhost \<Rightarrow> (hfunc_ret \<times> ('p, 'g) mhost) option" where
  "ngx_proxy_wasm_hfuncs_get_metric env sz hbuf mid ret_ptr st =
     (case ngx_wavm_memory_lift (h_mem st) ret_ptr 8 8 of
        Some (Some rp) \<Rightarrow> do {
          (rc, m, M) \<leftarrow> ngx_wa_metrics_get env sz (h_metrics st) mid hbuf;
          let st1 = st\<lparr>h_metrics := M\<rparr>;
          case m of
            None \<Rightarrow> Some (Wavm_error, st1)
          | Some x \<Rightarrow>
              (case slots x of
                 [VCounter c] \<Rightarrow> do { mem1 \<leftarrow> buf_write (h_mem st1) rp (le64 c); Some (Result RESULT_OK, st1\<lparr>h_mem := mem1\<rparr>) }
               | [VGauge v _] \<Rightarrow> do { mem1 \<leftarrow> buf_write (h_mem st1) rp (le64 v); Some (Result RESULT_OK, st1\<lparr>h_mem := mem1\<rparr>) }
               | _ \<Rightarrow> Some (Wavm_error, st1)) }
      | _ \<Rightarrow> Some (Bad_usage, st))"

text \<open>The assertion in the default branch of the error messages can only fail: other codes are not allowed.\<close>

definition ngx_proxy_wasm_hfuncs_record_metric ::
  "'p nginx_env \<Rightarrow> sizes \<Rightarrow> bool \<Rightarrow> process \<Rightarrow> u32 \<Rightarrow> u64 \<Rightarrow> ('p, 'g) mhost \<Rightarrow> (hfunc_ret \<times> ('p, 'g) mhost) option" where
  "ngx_proxy_wasm_hfuncs_record_metric env sz dbg pr mid val st = do {
     (rc, M) \<leftarrow> ngx_wa_metrics_record env sz pr (h_metrics st) mid val;
     if \<not> ngx_wa_assert dbg (rc = NGX_OK \<or> rc = NGX_DECLINED \<or> rc = NGX_ABORT) then None
     else Some (if rc = NGX_OK then Result RESULT_OK else Wavm_error, st\<lparr>h_metrics := M\<rparr>) }"

definition ngx_proxy_wasm_hfuncs_increment_metric ::
  "'p nginx_env \<Rightarrow> bool \<Rightarrow> process \<Rightarrow> u32 \<Rightarrow> u64 \<Rightarrow> ('p, 'g) mhost \<Rightarrow> (hfunc_ret \<times> ('p, 'g) mhost) option" where
  "ngx_proxy_wasm_hfuncs_increment_metric env dbg pr mid n st = do {
     (rc, M) \<leftarrow> ngx_wa_metrics_increment env pr (h_metrics st) mid n;
     if \<not> ngx_wa_assert dbg (rc = NGX_OK \<or> rc = NGX_DECLINED \<or> rc = NGX_ABORT) then None
     else Some (if rc = NGX_OK then Result RESULT_OK else Wavm_error, st\<lparr>h_metrics := M\<rparr>) }"

section \<open>Properties\<close>

lemma length_le64 [simp]: "length (le64 w) = 8"
  by (simp add: le64_def)

lemma lift_u64_bounds: "ngx_wavm_memory_lift mem p 8 8 = Some (Some off) \<Longrightarrow> off + 8 \<le> length mem"
  by (drule memory_lift_bounds) simp

text \<open>
  Metrics through the host functions: an increment of a counter answers OK, and a read of the metric then writes the value with the
  increment to the memory of the guest (as 8 bytes); an increment of an unknown metric or of another kind of metric
  traps and changes nothing. No assertion fails in any of these cases.
\<close>

theorem host_increment_metric:
  assumes laws: "nginx_laws env live" and inv: "metrics_inv env live (h_metrics st)"
    and slot: "metric_slot pr < workers (h_metrics st)"
    and lift: "ngx_wavm_memory_lift (h_mem st) ret_ptr 8 8 = Some (Some rp)"
  shows "case metric_of (h_metrics st) mid of
      None \<Rightarrow> ngx_proxy_wasm_hfuncs_increment_metric env dbg pr mid n st = Some (Wavm_error, st)
    | Some m \<Rightarrow>
        if m_type m \<noteq> METRIC_COUNTER
        then ngx_proxy_wasm_hfuncs_increment_metric env dbg pr mid n st = Some (Wavm_error, st)
        else \<exists>st1 st2. ngx_proxy_wasm_hfuncs_increment_metric env dbg pr mid n st = Some (Result RESULT_OK, st1) \<and>
          ngx_proxy_wasm_hfuncs_get_metric env sz hbuf mid ret_ptr st1 = Some (Result RESULT_OK, st2) \<and>
          buf_read (h_mem st2) rp 8 = Some (le64 (counter_value m + n))"
proof (cases "\<exists>m. metric_of (h_metrics st) mid = Some m \<and> m_type m = METRIC_COUNTER")
  case False
  with metrics_increment_spec [OF laws inv slot, of mid n] show ?thesis
    by (auto simp: ngx_proxy_wasm_hfuncs_increment_metric_def split: option.splits)
next
  case True
  then obtain m where m: "metric_of (h_metrics st) mid = Some m" "m_type m = METRIC_COUNTER" by blast
  with metrics_increment_spec [OF laws inv slot, of mid n] obtain c M' where c: "slots m ! metric_slot pr = VCounter c"
    and M': "ngx_wa_metrics_increment env pr (h_metrics st) mid n = Some (NGX_OK, M')" "metrics_inv env live M'"
      "metric_of M' = (metric_of (h_metrics st))(mid \<mapsto> m\<lparr>slots := (slots m)[metric_slot pr := VCounter (c + n)]\<rparr>)"
    by auto
  have len: "metric_slot pr < length (slots m)" using inv m(1) slot by (auto simp: metrics_inv_def wf_metric_def)
  note get = metrics_get_counter [OF M'(2), of mid "m\<lparr>slots := (slots m)[metric_slot pr := VCounter (c + n)]\<rparr>" sz hbuf]
  obtain mem1 where w: "buf_write (h_mem st) rp (le64 (counter_value m + n)) = Some mem1"
    using lift_u64_bounds [OF lift] buf_write_ok [of rp "le64 (counter_value m + n)"] by auto
  have "ngx_proxy_wasm_hfuncs_get_metric env sz hbuf mid ret_ptr (st\<lparr>h_metrics := M'\<rparr>) =
      Some (Result RESULT_OK, st\<lparr>h_metrics := M', h_mem := mem1\<rparr>)"
    using get M'(3) m(2) w lift counter_value_update [OF len c, of n] by (simp add: ngx_proxy_wasm_hfuncs_get_metric_def)
  with M'(1) m buf_read_written [OF w] show ?thesis by (simp add: ngx_proxy_wasm_hfuncs_increment_metric_def)
qed

definition demo_mhost :: "(pool, unit) mhost" where
  "demo_mhost = \<lparr>h_zones = None, h_mem = replicate 32 0, h_world = (), h_metrics = demo_counter\<rparr>"

theorem host_increment_metric_witness:
  "\<exists>st1 st2. ngx_proxy_wasm_hfuncs_increment_metric demo_env True \<lparr>ngx_worker = Some 1, ngx_current_msec = 0\<rparr> 1 5 demo_mhost
       = Some (Result RESULT_OK, st1) \<and>
     ngx_proxy_wasm_hfuncs_get_metric demo_env lp64 fresh_log2 1 8 st1 = Some (Result RESULT_OK, st2) \<and>
     buf_read (h_mem st2) 8 8 = Some (le64 5)"
proof -
  obtain m where m: "metric_of demo_counter 1 = Some m" "m_type m = METRIC_COUNTER" "counter_value m = 0"
    using demo_counter_spec(3) by blast
  have M: "h_metrics demo_mhost = demo_counter" by (simp add: demo_mhost_def)
  have inv: "metrics_inv demo_env pool_live (h_metrics demo_mhost)" unfolding M by (rule demo_counter_spec(1))
  have slot: "metric_slot \<lparr>ngx_worker = Some 1, ngx_current_msec = 0\<rparr> < workers (h_metrics demo_mhost)"
    unfolding M by (simp add: metric_slot_def demo_counter_spec(2))
  have lift: "ngx_wavm_memory_lift (h_mem demo_mhost) 8 8 8 = Some (Some 8)" by (simp add: demo_mhost_def) code_simp
  from host_increment_metric [OF demo_laws inv slot lift, where mid = 1 and dbg = True and n = 5 and sz = lp64 and hbuf = fresh_log2] m show ?thesis unfolding M by simp
qed

text \<open>
  Defining a metric whose name exceeds the configured limit is meant to trap with a message, but the message repeats the name
  without a bound: a guest that passes a name of (about) \<open>NGX_MAX_ERROR_STR\<close> bytes overwrites the
  stack of the worker. Shorter names trap and leave the host as it was.
\<close>

theorem define_metric_long_name:
  assumes name: "ngx_wavm_memory_lift (h_mem st) name_ptr name_len 1 = Some (Some off)"
    and id: "ngx_wavm_memory_lift (h_mem st) id_ptr 4 1 = Some (Some ip)"
    and ty: "ty \<in> {0, 1, 2}"
    and long: "max_metric_name_length (h_metrics st) < 4 + length filter_name + unat name_len"
  shows "ngx_proxy_wasm_hfuncs_define_metric env sz max_error_str filter_name ty name_ptr name_len id_ptr st =
    (if unat name_len + 41 < max_error_str then Some (Wavm_error, st) else None)"
proof -
  have t: "metric_type_of ty \<noteq> None" using ty by (auto simp: metric_type_of_def)
  have "length (read_slice (h_mem st) (Some off) name_len) = unat name_len"
    using name by (rule length_read_slice)
  with t name id long show ?thesis
    by (auto simp: ngx_proxy_wasm_hfuncs_define_metric_def trap_fits_def Let_def)
qed

theorem define_metric_long_name_witness:
  "ngx_proxy_wasm_hfuncs_define_metric demo_env lp64 2048 [102] 0 8 2100 4 (demo_mhost\<lparr>h_mem := replicate 4096 0\<rparr>) = None"
proof -
  let ?st = "demo_mhost\<lparr>h_mem := replicate 4096 0\<rparr>"
  have m: "max_metric_name_length (h_metrics demo_mhost) = 256" by code_simp
  have l: "ngx_wavm_memory_lift (h_mem ?st) 8 2100 1 = Some (Some 8)" "ngx_wavm_memory_lift (h_mem ?st) 4 4 1 = Some (Some 4)"
    by (simp_all add: ngx_wavm_memory_lift_def)
  show ?thesis
    by (subst define_metric_long_name [OF l]) (simp_all add: m)
qed

end
