(* ===== verification/Buf_Chain.thy ===== *)
theory Buf_Chain
  imports Wasmx_Prelude "HOL-Library.Monad_Syntax"
begin

text \<open>
  Chains of buffers (src/src/wasm/ngx_wasm_util.c): their length, clearing them from an offset, free buffers, prepending and
  appending a string. Bodies of requests and responses are such chains.

  Links are objects in a heap, because the operations change \<open>next\<close> pointers of links that other links still
  point to. A link that was given back to the pool is no longer in the heap.
\<close>

section \<open>State\<close>

text \<open>
  \<open>b_data\<close> are the bytes from \<open>pos\<close> to \<open>last\<close>, \<open>b_off\<close> is \<open>pos - start\<close>, and \<open>b_cap\<close> is \<open>end - start\<close>,
  or \<open>None\<close> when \<open>start\<close> is NULL. \<open>b_file\<close> is the number of bytes that a buffer which is not in memory has in its file.
\<close>

record ngx_buf =
  b_data :: bytes
  b_off :: nat
  b_cap :: "nat option"
  b_memory :: bool
  b_file :: nat
  b_tag :: nat
  b_flush :: bool
  b_last_buf :: bool
  b_last_in_chain :: bool

record ngx_link =
  l_buf :: ngx_buf
  l_next :: "nat option"

type_synonym links = "nat \<rightharpoonup> ngx_link"

text \<open>The pool of nginx: the link and the memory it gives.\<close>

record chain_pool =
  link_alloc :: "links \<Rightarrow> nat option"
  mem_alloc :: "nat \<Rightarrow> bool"

definition ngx_buf_size :: "ngx_buf \<Rightarrow> nat" where
  "ngx_buf_size b = (if b_memory b then length (b_data b) else b_file b)"

definition upd_buf :: "nat \<Rightarrow> (ngx_buf \<Rightarrow> ngx_buf) \<Rightarrow> links \<Rightarrow> links option" where
  "upd_buf a f h = do { l \<leftarrow> h a; Some (h(a \<mapsto> l\<lparr>l_buf := f (l_buf l)\<rparr>)) }"

definition upd_next :: "nat \<Rightarrow> nat option \<Rightarrow> links \<Rightarrow> links option" where
  "upd_next a p h = do { l \<leftarrow> h a; Some (h(a \<mapsto> l\<lparr>l_next := p\<rparr>)) }"

section \<open>Length and clearing\<close>

text \<open>The answer has the length and whether a last buffer was seen. A chain that ends in a cycle has no answer.\<close>

partial_function (option) chain_len_loop :: "links \<Rightarrow> nat option \<Rightarrow> nat \<Rightarrow> (nat \<times> bool) option" where
  "chain_len_loop h cl len =
     (case cl of
        None \<Rightarrow> Some (len, False)
      | Some a \<Rightarrow> do {
          l \<leftarrow> h a;
          let len1 = len + ngx_buf_size (l_buf l);
          if b_last_buf (l_buf l) \<or> b_last_in_chain (l_buf l) then Some (len1, True)
          else chain_len_loop h (l_next l) len1 })"

definition ngx_wasm_chain_len :: "links \<Rightarrow> nat option \<Rightarrow> (nat \<times> bool) option" where
  "ngx_wasm_chain_len h p = chain_len_loop h p 0"

text \<open>What the loop of \<open>ngx_wasm_chain_clear\<close> does to one buffer, with the position before and after it.\<close>

definition clear_buf :: "nat \<Rightarrow> nat \<Rightarrow> ngx_buf \<Rightarrow> nat \<times> ngx_buf" where
  "clear_buf offset pos b =
     (let len = length (b_data b);
          done = (\<lambda>b. b\<lparr>b_flush := False, b_last_buf := False, b_last_in_chain := False\<rparr>) in
      if offset \<noteq> 0 \<and> pos + len > offset
      then (let n = len - ((pos + len) - offset) in (pos + n, done (b\<lparr>b_data := take n (b_data b)\<rparr>)))
      else if pos = offset then (pos, done (b\<lparr>b_data := [], b_off := b_off b + len\<rparr>))
      else (pos + len, done b))"

partial_function (option) chain_clear_loop ::
  "bool \<Rightarrow> nat \<Rightarrow> nat option \<Rightarrow> links \<Rightarrow> nat \<Rightarrow> bool \<Rightarrow> bool \<Rightarrow> (links \<times> nat \<times> bool \<times> bool) option" where
  "chain_clear_loop dbg offset cl h pos eof flush =
     (case cl of
        None \<Rightarrow> Some (h, pos, eof, flush)
      | Some a \<Rightarrow> do {
          l \<leftarrow> h a;
          let b = l_buf l;
          let pos1 = fst (clear_buf offset pos b);
          if offset \<noteq> 0 \<and> pos + length (b_data b) > offset \<and> \<not> ngx_wa_assert dbg (pos1 = offset) then None
          else chain_clear_loop dbg offset (l_next l) (h(a \<mapsto> l\<lparr>l_buf := snd (clear_buf offset pos b)\<rparr>)) pos1
                 (eof \<or> b_last_buf b \<or> b_last_in_chain b) (flush \<or> b_flush b) })"

text \<open>
  \<open>ngx_wasm_chain_clear\<close>, called with both flags: the number of bytes missing up to the offset, and the flags.
\<close>

definition ngx_wasm_chain_clear :: "bool \<Rightarrow> nat option \<Rightarrow> nat \<Rightarrow> links \<Rightarrow> (nat \<times> bool \<times> bool \<times> links) option" where
  "ngx_wasm_chain_clear dbg p offset h = do {
     (h1, pos, eof, flush) \<leftarrow> chain_clear_loop dbg offset p h 0 False False;
     let fill = (if pos < offset then offset - pos else 0);
     if ngx_wa_assert dbg (pos + fill = offset) then Some (fill, eof, flush, h1) else None }"

section \<open>Free buffers\<close>

definition no_buf :: ngx_buf where
  "no_buf = \<lparr>b_data = [], b_off = 0, b_cap = None, b_memory = False, b_file = 0, b_tag = 0, b_flush = False, b_last_buf = False,
     b_last_in_chain = False\<rparr>"

text \<open>
  A buffer for \<open>len\<close> bytes: the first of the free list when \<open>reuse\<close> is set and there is one, with its memory when that is large
  enough, and a new link otherwise. The answer is the link (\<open>None\<close> for NULL), the free list and the heap.
\<close>

definition ngx_wasm_chain_get_free_buf ::
  "chain_pool \<Rightarrow> nat option \<Rightarrow> nat \<Rightarrow> nat \<Rightarrow> bool \<Rightarrow> links \<Rightarrow> (nat option \<times> nat option \<times> links) option" where
  "ngx_wasm_chain_get_free_buf P free len tag reuse h =
     (case (reuse, free) of
        (True, Some a) \<Rightarrow> do {
          l \<leftarrow> h a;
          let b = l_buf l;
          Some (case b_cap b of
              Some n \<Rightarrow>
                if n \<ge> len
                then (Some a, l_next l, h(a \<mapsto> \<lparr>l_buf = no_buf\<lparr>b_cap := Some n, b_tag := tag, b_memory := (len \<noteq> 0)\<rparr>, l_next = None\<rparr>))
                else if \<not> mem_alloc P len then (None, l_next l, h(a \<mapsto> \<lparr>l_buf = no_buf, l_next = None\<rparr>))
                else (Some a, l_next l, h(a \<mapsto> \<lparr>l_buf = no_buf\<lparr>b_cap := Some len, b_tag := tag, b_memory := True\<rparr>, l_next = None\<rparr>))
            | None \<Rightarrow>
                if len = 0 then (Some a, l_next l, h(a \<mapsto> \<lparr>l_buf = no_buf, l_next = None\<rparr>))
                else if \<not> mem_alloc P len then (None, l_next l, h(a \<mapsto> \<lparr>l_buf = no_buf, l_next = None\<rparr>))
                else (Some a, l_next l, h(a \<mapsto> \<lparr>l_buf = no_buf\<lparr>b_cap := Some len, b_tag := tag, b_memory := True\<rparr>, l_next = None\<rparr>))) }
      | _ \<Rightarrow>
          (case link_alloc P h of
             None \<Rightarrow> Some (None, free, h)
           | Some a \<Rightarrow>
               if \<not> mem_alloc P len then Some (None, free, h)
               else Some (Some a, free,
                 h(a \<mapsto> \<lparr>l_buf = no_buf\<lparr>b_cap := (if len = 0 then None else Some len), b_tag := tag, b_memory := (len \<noteq> 0)\<rparr>, l_next = None\<rparr>))))"

text \<open>Copying a string to the end of a buffer: \<open>None\<close> when it leaves the memory of the buffer.\<close>

definition buf_append :: "bytes \<Rightarrow> ngx_buf \<Rightarrow> ngx_buf option" where
  "buf_append s b =
     (if s = [] \<or> (\<exists>n. b_cap b = Some n \<and> b_off b + length (b_data b) + length s \<le> n)
      then Some (b\<lparr>b_data := b_data b @ s\<rparr>) else None)"

lemma buf_append_code [code]:
  "buf_append s b =
     (if s = [] then Some b
      else case b_cap b of
        None \<Rightarrow> None
      | Some n \<Rightarrow> if b_off b + length (b_data b) + length s \<le> n then Some (b\<lparr>b_data := b_data b @ s\<rparr>) else None)"
  by (auto simp: buf_append_def split: option.split)

section \<open>Prepending and appending\<close>

text \<open>The answer has the first link and the free list.\<close>

definition ngx_wasm_chain_prepend ::
  "chain_pool \<Rightarrow> nat option \<Rightarrow> bytes \<Rightarrow> nat option \<Rightarrow> nat \<Rightarrow> links \<Rightarrow> (ngx_rc \<times> nat option \<times> nat option \<times> links) option" where
  "ngx_wasm_chain_prepend P p str free tag h = do {
     (first, free1, h1) \<leftarrow> ngx_wasm_chain_get_free_buf P free (length str) tag True h;
     case first of
       None \<Rightarrow> Some (NGX_ERROR, p, free1, h1)
     | Some a \<Rightarrow> do {
         l \<leftarrow> h1 a;
         b \<leftarrow> buf_append str (l_buf l);
         Some (NGX_OK, Some a, free1, h1(a \<mapsto> \<lparr>l_buf = b, l_next = p\<rparr>)) } }"

text \<open>
  The loop that finds the last link with data (\<open>ll\<close>) and takes the empty ones out: links of nginx go back to the pool, links
  of this module to the free list, when there is one.
\<close>

partial_function (option) tail_loop ::
  "nat \<Rightarrow> nat option \<Rightarrow> nat option \<Rightarrow> nat option \<Rightarrow> links \<Rightarrow> (nat option \<times> nat option \<times> links) option" where
  "tail_loop tag cl ll free h =
     (case cl of
        None \<Rightarrow> Some (ll, free, h)
      | Some a \<Rightarrow> do {
          l \<leftarrow> h a;
          if ngx_buf_size (l_buf l) \<noteq> 0 then tail_loop tag (l_next l) (Some a) free h
          else if b_tag (l_buf l) \<noteq> tag
          then (case ll of
              None \<Rightarrow> tail_loop tag None ll free (h(a := None))
            | Some b \<Rightarrow> do {
                h1 \<leftarrow> upd_next b (l_next l) h;
                tail_loop tag (l_next l) ll free (h1(a := None)) })
          else tail_loop tag (l_next l) ll (if free = None then None else Some a)
                 (h(a \<mapsto> \<lparr>l_buf = (l_buf l)\<lparr>b_data := [], b_off := 0\<rparr>, l_next = free\<rparr>)) })"

text \<open>\<open>ngx_wasm_chain_append\<close>, which is only called with \<open>extend\<close> = 0.\<close>

definition ngx_wasm_chain_append ::
  "bool \<Rightarrow> chain_pool \<Rightarrow> nat option \<Rightarrow> nat \<Rightarrow> bytes \<Rightarrow> nat option \<Rightarrow> nat \<Rightarrow> links \<Rightarrow>
    (ngx_rc \<times> nat option \<times> nat option \<times> links) option" where
  "ngx_wasm_chain_append dbg P p at str free tag h = do {
     (_, eof, flush, h1) \<leftarrow> ngx_wasm_chain_clear dbg p at h;
     (ll, free1, h2) \<leftarrow> tail_loop tag p None free h1;
     (nl, free2, h3) \<leftarrow> ngx_wasm_chain_get_free_buf P free1 (length str) tag True h2;
     case nl of
       None \<Rightarrow> Some (NGX_ERROR, p, free2, h3)
     | Some a \<Rightarrow> do {
         l \<leftarrow> h3 a;
         b \<leftarrow> buf_append str (l_buf l);
         let b1 = b\<lparr>b_flush := (b_flush b \<or> flush), b_last_buf := (b_last_buf b \<or> eof), b_last_in_chain := (b_last_in_chain b \<or> eof)\<rparr>;
         let h4 = h3(a \<mapsto> l\<lparr>l_buf := b1\<rparr>);
         case ll of
           None \<Rightarrow> Some (NGX_OK, Some a, free2, h4)
         | Some q \<Rightarrow> do {
             h5 \<leftarrow> upd_next q (Some a) h4;
             Some (NGX_OK, p, free2, h5) } } }"

section \<open>Chains as lists\<close>

fun chain :: "links \<Rightarrow> nat option \<Rightarrow> nat list \<Rightarrow> bool" where
  "chain h p [] \<longleftrightarrow> p = None"
| "chain h p (a # as) \<longleftrightarrow> p = Some a \<and> (\<exists>l. h a = Some l \<and> chain h (l_next l) as)"

definition bufs :: "links \<Rightarrow> nat list \<Rightarrow> ngx_buf list" where
  "bufs h as = map (\<lambda>a. l_buf (the (h a))) as"

definition contents :: "ngx_buf list \<Rightarrow> bytes" where
  "contents bs = concat (map b_data bs)"

lemma bufs_simps [simp]: "bufs h [] = []" "bufs h (a # as) = l_buf (the (h a)) # bufs h as" "bufs h (as @ bs) = bufs h as @ bufs h bs"
  by (simp_all add: bufs_def)

lemma contents_simps [simp]: "contents [] = []" "contents (b # bs) = b_data b @ contents bs" "contents (xs @ ys) = contents xs @ contents ys"
  by (simp_all add: contents_def)

lemma chain_cong: "(\<And>a. a \<in> set as \<Longrightarrow> map_option l_next (h a) = map_option l_next (h1 a)) \<Longrightarrow> chain h p as = chain h1 p as"
proof (induction as arbitrary: p)
  case (Cons a as)
  then have "map_option l_next (h a) = map_option l_next (h1 a)" "\<And>p. chain h p as = chain h1 p as" by auto
  then show ?case by (cases "h a"; cases "h1 a") auto
qed simp

lemma chain_upd [simp]: "a \<notin> set as \<Longrightarrow> chain (h(a := v)) p as = chain h p as"
  by (intro chain_cong) auto

lemma bufs_upd [simp]: "a \<notin> set as \<Longrightarrow> bufs (h(a := v)) as = bufs h as"
  by (auto simp: bufs_def)

lemma chain_dom: "chain h p as \<Longrightarrow> a \<in> set as \<Longrightarrow> \<exists>l. h a = Some l"
  by (induction as arbitrary: p) auto

lemma same_on:
  assumes "\<forall>x \<in> set as. h1 x = h x"
  shows "chain h1 p as = chain h p as" and "bufs h1 as = bufs h as"
  using assms chain_cong [of as h1 h p] by (simp_all add: bufs_def)

fun buf_lens :: "ngx_buf list \<Rightarrow> nat \<times> bool" where
  "buf_lens [] = (0, False)"
| "buf_lens (b # bs) =
     (if b_last_buf b \<or> b_last_in_chain b then (ngx_buf_size b, True)
      else (ngx_buf_size b + fst (buf_lens bs), snd (buf_lens bs)))"

lemma chain_len_loop: "chain h p as \<Longrightarrow> chain_len_loop h p n = Some (n + fst (buf_lens (bufs h as)), snd (buf_lens (bufs h as)))"
proof (induction as arbitrary: p n)
  case Nil
  then show ?case by (subst chain_len_loop.simps) simp
next
  case (Cons a as)
  then show ?case by (subst chain_len_loop.simps) auto
qed

text \<open>Clearing, on the list of buffers.\<close>

fun clears :: "nat \<Rightarrow> nat \<Rightarrow> ngx_buf list \<Rightarrow> ngx_buf list" where
  "clears offset pos [] = []"
| "clears offset pos (b # bs) = snd (clear_buf offset pos b) # clears offset (fst (clear_buf offset pos b)) bs"

fun clear_end :: "nat \<Rightarrow> nat \<Rightarrow> ngx_buf list \<Rightarrow> nat" where
  "clear_end offset pos [] = pos"
| "clear_end offset pos (b # bs) = clear_end offset (fst (clear_buf offset pos b)) bs"

lemma clear_buf_pos: "pos \<le> offset \<Longrightarrow> fst (clear_buf offset pos b) = min offset (pos + length (b_data b))"
  by (auto simp: clear_buf_def Let_def)

lemma clear_buf_data: "pos \<le> offset \<Longrightarrow> b_data (snd (clear_buf offset pos b)) = take (offset - pos) (b_data b)"
  by (auto simp: clear_buf_def Let_def)

lemma clear_buf_flags [simp]:
  "b_flush (snd (clear_buf offset pos b)) = False" "b_last_buf (snd (clear_buf offset pos b)) = False"
  "b_last_in_chain (snd (clear_buf offset pos b)) = False" "b_memory (snd (clear_buf offset pos b)) = b_memory b"
  "b_file (snd (clear_buf offset pos b)) = b_file b" "b_tag (snd (clear_buf offset pos b)) = b_tag b"
  by (auto simp: clear_buf_def Let_def)

lemma clear_end_le: "pos \<le> offset \<Longrightarrow> clear_end offset pos bs = min offset (pos + length (contents bs))"
  by (induction bs arbitrary: pos) (auto simp: clear_buf_pos)

lemma contents_clears: "pos \<le> offset \<Longrightarrow> contents (clears offset pos bs) = take (offset - pos) (contents bs)"
proof (induction bs arbitrary: pos)
  case (Cons b bs)
  have "offset - min offset (pos + length (b_data b)) = offset - pos - length (b_data b)" by auto
  then show ?case using Cons.prems by (simp add: Cons.IH clear_buf_pos clear_buf_data)
qed simp

definition ends :: "ngx_buf list \<Rightarrow> bool" where
  "ends bs \<longleftrightarrow> (\<exists>b \<in> set bs. b_last_buf b \<or> b_last_in_chain b)"

definition flushes :: "ngx_buf list \<Rightarrow> bool" where
  "flushes bs \<longleftrightarrow> (\<exists>b \<in> set bs. b_flush b)"

lemma flags_simps [simp]:
  "ends [] = False" "ends (b # bs) = (b_last_buf b \<or> b_last_in_chain b \<or> ends bs)"
  "flushes [] = False" "flushes (b # bs) = (b_flush b \<or> flushes bs)"
  by (auto simp: ends_def flushes_def)

text \<open>The heap after clearing: the buffers are cleared, nothing else changes.\<close>

definition cleared :: "nat \<Rightarrow> nat \<Rightarrow> nat list \<Rightarrow> links \<Rightarrow> links \<Rightarrow> bool" where
  "cleared offset pos as h h1 \<longleftrightarrow> bufs h1 as = clears offset pos (bufs h as) \<and>
     (\<forall>a. map_option l_next (h1 a) = map_option l_next (h a)) \<and> (\<forall>a. a \<notin> set as \<longrightarrow> h1 a = h a)"

lemma chain_clear_loop:
  "chain h p as \<Longrightarrow> distinct as \<Longrightarrow> pos \<le> offset \<Longrightarrow>
    \<exists>h1. chain_clear_loop dbg offset p h pos eof flush =
      Some (h1, clear_end offset pos (bufs h as), eof \<or> ends (bufs h as), flush \<or> flushes (bufs h as)) \<and> cleared offset pos as h h1"
proof (induction as arbitrary: p h pos eof flush)
  case Nil
  then show ?case by (subst chain_clear_loop.simps) (simp add: cleared_def)
next
  case (Cons a as)
  then obtain l where l: "p = Some a" "h a = Some l" "chain h (l_next l) as" by auto
  let ?b = "l_buf l"
  let ?h = "h(a \<mapsto> l\<lparr>l_buf := snd (clear_buf offset pos ?b)\<rparr>)"
  let ?p = "fst (clear_buf offset pos ?b)"
  have a: "a \<notin> set as" "distinct as" using Cons.prems(2) by auto
  have pos: "?p = min offset (pos + length (b_data ?b))" using clear_buf_pos [OF Cons.prems(3)] .
  have ok: "ngx_wa_assert dbg (?p = offset)" if "offset < pos + length (b_data ?b)" using that pos by simp
  have c: "chain ?h (l_next l) as" and b: "bufs ?h as = bufs h as" and le: "?p \<le> offset" using l a pos by auto
  from Cons.IH [OF c a(2) le, of "eof \<or> b_last_buf ?b \<or> b_last_in_chain ?b" "flush \<or> b_flush ?b", unfolded b]
  obtain h1 where h1: "chain_clear_loop dbg offset (l_next l) ?h ?p (eof \<or> b_last_buf ?b \<or> b_last_in_chain ?b) (flush \<or> b_flush ?b) =
      Some (h1, clear_end offset ?p (bufs h as), (eof \<or> b_last_buf ?b \<or> b_last_in_chain ?b) \<or> ends (bufs h as),
        (flush \<or> b_flush ?b) \<or> flushes (bufs h as))" and cl: "cleared offset ?p as ?h h1" by blast
  have "map_option l_next (h1 b) = map_option l_next (?h b)" for b using cl by (simp add: cleared_def)
  then have "map_option l_next (h1 b) = map_option l_next (h b)" for b using l(2) by (auto split: if_split_asm)
  moreover have "h1 b = ?h b" if "b \<notin> set as" for b using cl that unfolding cleared_def by blast
  ultimately have "cleared offset pos (a # as) h h1"
    using cl a l(2) b unfolding cleared_def by simp
  moreover have "chain_clear_loop dbg offset p h pos eof flush = chain_clear_loop dbg offset (l_next l) ?h ?p
      (eof \<or> b_last_buf ?b \<or> b_last_in_chain ?b) (flush \<or> b_flush ?b)"
    using l ok by (subst chain_clear_loop.simps) (auto simp: Let_def)
  ultimately show ?case using h1 l(2) by (intro exI [of _ h1]) auto
qed

lemma chain_clear:
  assumes "chain h p as" and "distinct as"
  shows "\<exists>h1. ngx_wasm_chain_clear dbg p offset h =
    Some (offset - length (contents (bufs h as)), ends (bufs h as), flushes (bufs h as), h1) \<and> cleared offset 0 as h h1"
  using chain_clear_loop [OF assms, of 0 offset dbg False False]
  by (auto simp: ngx_wasm_chain_clear_def clear_end_le min_def)

text \<open>Skipping the links with data.\<close>

fun last_or :: "'a option \<Rightarrow> 'a list \<Rightarrow> 'a option" where
  "last_or p [] = p"
| "last_or p (x # xs) = last_or (Some x) xs"

lemma tail_loop_full:
  "chain h p (ys @ zs) \<Longrightarrow> \<forall>b \<in> set (bufs h ys). ngx_buf_size b \<noteq> 0 \<Longrightarrow>
    \<exists>q. chain h q zs \<and> tail_loop tag p ll free h = tail_loop tag q (last_or ll ys) free h"
proof (induction ys arbitrary: p ll)
  case (Cons a ys)
  then obtain l where l: "p = Some a" "h a = Some l" "chain h (l_next l) (ys @ zs)" by auto
  with Cons.prems(2) have "tail_loop tag p ll free h = tail_loop tag (l_next l) (Some a) free h"
    by (subst tail_loop.simps) simp
  with Cons.IH [OF l(3), of "Some a"] Cons.prems(2) show ?case by auto
qed auto

text \<open>
  Taking the empty links out: the links elsewhere stay as they are, but for the \<open>next\<close> pointer of the last one with data, and the
  free list has links of the old free list and of the empty ones.
\<close>

definition taken_out :: "nat option \<Rightarrow> nat set \<Rightarrow> links \<Rightarrow> links \<Rightarrow> bool" where
  "taken_out ll Z h h1 \<longleftrightarrow>
     (\<forall>a. a \<notin> Z \<longrightarrow> map_option l_buf (h1 a) = map_option l_buf (h a) \<and> (ll \<noteq> Some a \<longrightarrow> h1 a = h a))"

lemma taken_out_step:
  assumes "taken_out ll Z h1 h2"
    and "\<forall>x. x \<noteq> a \<longrightarrow> map_option l_buf (h1 x) = map_option l_buf (h x) \<and> (ll \<noteq> Some x \<longrightarrow> h1 x = h x)"
  shows "taken_out ll (insert a Z) h h2"
  using assms unfolding taken_out_def by auto

lemma taken_out_dom: "taken_out ll Z h h1 \<Longrightarrow> x \<notin> Z \<Longrightarrow> h x = Some l \<Longrightarrow> h1 x \<noteq> None"
  unfolding taken_out_def by (metis option.map_disc_iff option.distinct(1))

lemma tail_loop_empty:
  assumes "chain h p zs" and "chain h free fs" and "distinct (zs @ fs)" and "\<forall>b \<in> set (bufs h zs). ngx_buf_size b = 0"
    and "\<forall>a. ll = Some a \<longrightarrow> a \<notin> set zs \<and> a \<notin> set fs \<and> h a \<noteq> None"
  shows "\<exists>free1 fs1 h1. tail_loop tag p ll free h = Some (ll, free1, h1) \<and> chain h1 free1 fs1 \<and>
    set fs1 \<subseteq> set zs \<union> set fs \<and> distinct fs1 \<and> taken_out ll (set zs) h h1"
  using assms
proof (induction zs arbitrary: h p free fs)
  case Nil
  then show ?case by (subst tail_loop.simps) (auto simp: taken_out_def intro!: exI [of _ fs])
next
  case (Cons a zs)
  then obtain l where l: "p = Some a" "h a = Some l" "chain h (l_next l) zs" by auto
  have a: "a \<notin> set zs" "a \<notin> set fs" "ll \<noteq> Some a" using Cons.prems(3,5) by auto
  have z: "ngx_buf_size (l_buf l) = 0" using Cons.prems(4) l(2) by simp
  show ?case
  proof (cases "b_tag (l_buf l) = tag")
    case True
    let ?h = "h(a \<mapsto> \<lparr>l_buf = (l_buf l)\<lparr>b_data := [], b_off := 0\<rparr>, l_next = free\<rparr>)"
    let ?free = "if free = None then None else Some a"
    let ?fs = "if free = None then [] else a # fs"
    have c: "chain ?h (l_next l) zs" using l(3) a by simp
    have f: "chain ?h ?free ?fs" using Cons.prems(2) a by auto
    have d: "distinct (zs @ ?fs)" using Cons.prems(3) by auto
    have e: "\<forall>b \<in> set (bufs ?h zs). ngx_buf_size b = 0" using Cons.prems(4) a by simp
    have "\<forall>b. ll = Some b \<longrightarrow> b \<notin> set zs \<and> b \<notin> set ?fs \<and> ?h b \<noteq> None" using Cons.prems(5) by auto
    from Cons.IH [OF c f d e this]
    obtain free1 fs1 h1 where h1: "tail_loop tag (l_next l) ll ?free ?h = Some (ll, free1, h1)" "chain h1 free1 fs1"
      "set fs1 \<subseteq> set zs \<union> set ?fs" "distinct fs1" "taken_out ll (set zs) ?h h1" by blast
    have "tail_loop tag p ll free h = Some (ll, free1, h1)" using l z True h1(1) by (subst tail_loop.simps) simp
    moreover have "taken_out ll (set (a # zs)) h h1" using taken_out_step [OF h1(5), of a h] by simp
    ultimately show ?thesis using h1 by (intro exI [of _ free1] exI [of _ fs1] exI [of _ h1]) (auto split: if_split_asm)
  next
    case False
    show ?thesis
    proof (cases ll)
      case None
      have "tail_loop tag p ll free h = Some (ll, free, h(a := None))"
        using l z False None by (subst tail_loop.simps, subst tail_loop.simps) simp
      moreover have "taken_out ll (set (a # zs)) h (h(a := None))" by (auto simp: taken_out_def)
      moreover have "chain (h(a := None)) free fs" "set fs \<subseteq> set (a # zs) \<union> set fs" "distinct fs" using Cons.prems(2,3) a by auto
      ultimately show ?thesis by blast
    next
      case (Some b)
      then obtain m where m: "h b = Some m" and b: "b \<notin> set (a # zs)" "b \<notin> set fs" using Cons.prems(5) by auto
      let ?h = "h(b \<mapsto> m\<lparr>l_next := l_next l\<rparr>, a := None)"
      have c: "chain ?h (l_next l) zs" and f: "chain ?h free fs" and d: "distinct (zs @ fs)"
        using l(3) a b Cons.prems(2,3) by auto
      have e: "\<forall>b \<in> set (bufs ?h zs). ngx_buf_size b = 0" using Cons.prems(4) a b by simp
      have "\<forall>b. ll = Some b \<longrightarrow> b \<notin> set zs \<and> b \<notin> set fs \<and> ?h b \<noteq> None" using Cons.prems(5) Some b m by auto
      from Cons.IH [OF c f d e this]
      obtain free1 fs1 h1 where h1: "tail_loop tag (l_next l) ll free ?h = Some (ll, free1, h1)" "chain h1 free1 fs1"
        "set fs1 \<subseteq> set zs \<union> set fs" "distinct fs1" "taken_out ll (set zs) ?h h1" by blast
      have "tail_loop tag p ll free h = Some (ll, free1, h1)"
        using l z False Some m h1(1) by (subst tail_loop.simps) (simp add: upd_next_def)
      moreover have "taken_out ll (set (a # zs)) h h1" using taken_out_step [OF h1(5), of a h] m b Some by simp
      ultimately show ?thesis using h1 by (intro exI [of _ free1] exI [of _ fs1] exI [of _ h1]) auto
    qed
  qed
qed

section \<open>A fresh buffer\<close>

text \<open>What is relied on of the pool: a new link is not in use.\<close>

definition pool_laws :: "chain_pool \<Rightarrow> bool" where
  "pool_laws P \<longleftrightarrow> (\<forall>h a. link_alloc P h = Some a \<longrightarrow> h a = None)"

text \<open>A pool that does not run out of memory while no more than the links of \<open>h\<close> are in use.\<close>

definition pool_gives :: "chain_pool \<Rightarrow> links \<Rightarrow> bool" where
  "pool_gives P h \<longleftrightarrow> (\<forall>h1. dom h1 \<subseteq> dom h \<longrightarrow> link_alloc P h1 \<noteq> None) \<and> (\<forall>n. mem_alloc P n)"

lemma pool_gives_mono: "pool_gives P h \<Longrightarrow> dom h1 \<subseteq> dom h \<Longrightarrow> pool_gives P h1"
  by (auto simp: pool_gives_def)

definition fresh_buf :: "nat \<Rightarrow> ngx_buf \<Rightarrow> bool" where
  "fresh_buf len b \<longleftrightarrow> b_data b = [] \<and> b_off b = 0 \<and> (len \<noteq> 0 \<longrightarrow> b_memory b \<and> (\<exists>n \<ge> len. b_cap b = Some n)) \<and> b_file b = 0 \<and>
     \<not> b_flush b \<and> \<not> b_last_buf b \<and> \<not> b_last_in_chain b"

lemma get_free_buf:
  assumes "pool_laws P" and "chain h free fs" and "distinct fs"
  shows "\<exists>nl free1 fs1 h1. ngx_wasm_chain_get_free_buf P free len tag True h = Some (nl, free1, h1) \<and> (nl = None \<longrightarrow> \<not> pool_gives P h) \<and>
    (\<forall>a. nl = Some a \<longrightarrow> (a \<in> set fs \<or> h a = None) \<and> (\<exists>b. h1 a = Some \<lparr>l_buf = b, l_next = None\<rparr> \<and> fresh_buf len b) \<and>
      (\<forall>x. x \<noteq> a \<longrightarrow> h1 x = h x) \<and> chain h1 free1 fs1 \<and> set fs1 \<subseteq> set fs - {a} \<and> distinct fs1)"
proof (cases fs)
  case Nil
  then have free: "free = None" using assms(2) by simp
  show ?thesis
  proof (cases "link_alloc P h")
    case None
    then show ?thesis using free by (auto simp: ngx_wasm_chain_get_free_buf_def pool_gives_def)
  next
    case (Some a)
    then have "h a = None" using assms(1) by (simp add: pool_laws_def)
    with Some free Nil show ?thesis
      by (auto simp: ngx_wasm_chain_get_free_buf_def pool_gives_def fresh_buf_def no_buf_def intro!: exI [of _ "[]"])
  qed
next
  case (Cons a gs)
  then obtain l where l: "free = Some a" "h a = Some l" "chain h (l_next l) gs" "a \<notin> set gs" "distinct gs" using assms(2,3) by auto
  then have "\<And>v. chain (h(a := v)) (l_next l) gs" by simp
  with Cons l show ?thesis
    by (auto simp: ngx_wasm_chain_get_free_buf_def pool_gives_def fresh_buf_def no_buf_def simp del: fun_upd_apply split: option.split
      intro!: exI [of _ gs]) auto
qed

lemma buf_append_fresh: "fresh_buf (length s) b \<Longrightarrow> buf_append s b = Some (b\<lparr>b_data := s\<rparr>)"
  by (auto simp: fresh_buf_def buf_append_def)

section \<open>Appending\<close>

text \<open>The chains the operations are used on: links with data in memory, then links without any.\<close>

definition full_buf :: "ngx_buf \<Rightarrow> bool" where
  "full_buf b \<longleftrightarrow> b_memory b \<and> b_data b \<noteq> []"

definition empty_buf :: "ngx_buf \<Rightarrow> bool" where
  "empty_buf b \<longleftrightarrow> b_data b = [] \<and> ngx_buf_size b = 0"

definition tidy :: "ngx_buf list \<Rightarrow> bool" where
  "tidy bs \<longleftrightarrow> list_all empty_buf (dropWhile full_buf bs)"

lemma full_not_empty: "full_buf b \<Longrightarrow> ngx_buf_size b \<noteq> 0"
  by (simp add: full_buf_def ngx_buf_size_def)

lemma tidy_Cons: "tidy (b # bs) \<longleftrightarrow> (if full_buf b then tidy bs else empty_buf b \<and> list_all empty_buf bs)"
  by (simp add: tidy_def)

lemma empty_tidy: "list_all empty_buf bs \<Longrightarrow> tidy bs"
  by (cases bs) (auto simp: tidy_Cons tidy_def full_buf_def empty_buf_def)

lemma clear_empty: "empty_buf b \<Longrightarrow> pos \<le> offset \<Longrightarrow> empty_buf (snd (clear_buf offset pos b))"
  by (auto simp: empty_buf_def clear_buf_data ngx_buf_size_def)

lemma clears_empty: "list_all empty_buf bs \<Longrightarrow> pos \<le> offset \<Longrightarrow> list_all empty_buf (clears offset pos bs)"
  by (induction bs arbitrary: pos) (auto simp: clear_empty clear_buf_pos)

lemma clears_past: "tidy bs \<Longrightarrow> list_all empty_buf (clears offset offset bs)"
proof (induction bs)
  case (Cons b bs)
  have full: "full_buf b \<Longrightarrow> empty_buf (snd (clear_buf offset offset b))"
    by (simp add: full_buf_def empty_buf_def clear_buf_data ngx_buf_size_def)
  from Cons show ?case by (auto simp: tidy_Cons clear_buf_pos full clear_empty empty_tidy split: if_split_asm)
qed simp

lemma tidy_clears: "tidy bs \<Longrightarrow> pos \<le> offset \<Longrightarrow> tidy (clears offset pos bs)"
proof (induction bs arbitrary: pos)
  case (Cons b bs)
  show ?case
  proof (cases "full_buf b")
    case False
    then have e: "list_all empty_buf (b # bs)" using Cons.prems(1) by (simp add: tidy_Cons)
    then show ?thesis using clears_empty [OF e Cons.prems(2)] empty_tidy by blast
  next
    case full: True
    then have t: "tidy bs" using Cons.prems(1) by (simp add: tidy_Cons)
    show ?thesis
    proof (cases "pos = offset")
      case True
      with clears_past [OF Cons.prems(1)] empty_tidy show ?thesis by blast
    next
      case False
      then have "full_buf (snd (clear_buf offset pos b))" using full Cons.prems(2) by (simp add: full_buf_def clear_buf_data)
      with t Cons.IH show ?thesis by (simp add: tidy_Cons clear_buf_pos Cons.prems(2))
    qed
  qed
qed simp

lemma tidy_split:
  assumes "tidy (bufs h as)"
  obtains ys zs where "as = ys @ zs" and "\<forall>b \<in> set (bufs h ys). full_buf b" and "\<forall>b \<in> set (bufs h zs). empty_buf b"
proof -
  let ?P = "\<lambda>a. full_buf (l_buf (the (h a)))"
  have "list_all empty_buf (bufs h (dropWhile ?P as))" using assms by (simp add: tidy_def bufs_def dropWhile_map comp_def)
  moreover have "\<forall>b \<in> set (bufs h (takeWhile ?P as)). full_buf b" by (auto simp: bufs_def dest: set_takeWhileD)
  ultimately show ?thesis using that [of "takeWhile ?P as" "dropWhile ?P as"] by (simp add: list_all_iff)
qed

lemma last_or_None: "last_or None ys = (if ys = [] then None else Some (last ys))"
proof -
  have "last_or p ys = (if ys = [] then p else Some (last ys))" for p by (induction ys arbitrary: p) auto
  then show ?thesis by simp
qed

lemma chain_snoc:
  assumes "chain h p (ys @ zs)" and "ys \<noteq> []" and "\<And>x. x \<in> set (butlast ys) \<Longrightarrow> map_option l_next (h1 x) = map_option l_next (h x)"
    and "map_option l_next (h1 (last ys)) = Some (Some a)" and "map_option l_next (h1 a) = Some None"
  shows "chain h1 p (ys @ [a])"
  using assms(1-4)
proof (induction ys arbitrary: p)
  case (Cons y ys)
  show ?case
  proof (cases "ys = []")
    case True
    with Cons.prems assms(5) show ?thesis by (auto simp: map_option_case split: option.split_asm)
  next
    case False
    from Cons.prems(1) obtain l where l: "p = Some y" "h y = Some l" "chain h (l_next l) (ys @ zs)" by auto
    have "map_option l_next (h1 y) = Some (l_next l)" using Cons.prems(3) [of y] False l(2) by simp
    moreover have "chain h1 (l_next l) (ys @ [a])" using Cons.IH [OF l(3) False] Cons.prems(3,4) False by simp
    ultimately show ?thesis using l(1) by auto
  qed
qed simp

lemma bufs_cong:
  assumes "\<And>a. a \<in> set as \<Longrightarrow> \<exists>l. h a = Some l \<and> map_option l_buf (h1 a) = Some (l_buf l)"
  shows "bufs h1 as = bufs h as"
  using assms by (fastforce simp: bufs_def)

text \<open>
  The new link behind the links with data.
\<close>

lemma linked:
  assumes c: "chain h1 p (ys @ zs)" and d: "distinct (ys @ zs)" and t: "taken_out (last_or None ys) (set zs) h1 h2"
    and a: "a \<notin> set ys" and h3: "\<forall>x. x \<noteq> a \<longrightarrow> h3 x = h2 x" and ha: "h3 a = Some l" "l_next l = None"
  shows "\<exists>h5. (case last_or None ys of None \<Rightarrow> Some (NGX_OK, Some a, f, h3)
         | Some q \<Rightarrow> do { h5 \<leftarrow> upd_next q (Some a) h3; Some (NGX_OK, p, f, h5) }) =
       Some (NGX_OK, case ys of [] \<Rightarrow> Some a | _ \<Rightarrow> p, f, h5) \<and>
     chain h5 (case ys of [] \<Rightarrow> Some a | _ \<Rightarrow> p) (ys @ [a]) \<and> bufs h5 (ys @ [a]) = bufs h1 ys @ [l_buf l] \<and>
     (\<forall>x. x \<notin> set ys \<longrightarrow> h5 x = h3 x)"
proof (cases "ys = []")
  case True
  with ha show ?thesis by simp
next
  case False
  let ?q = "last ys"
  have q: "?q \<in> set ys" "last_or None ys = Some ?q" using False by (simp_all add: last_or_None)
  have out: "x \<notin> set zs" if "x \<in> set ys" for x using d that by auto
  have b: "map_option l_buf (h3 x) = map_option l_buf (h1 x)" if "x \<in> set ys" for x
    using t out [OF that] h3 a that unfolding taken_out_def by metis
  obtain m where "h1 ?q = Some m" using chain_dom [OF c, of ?q] q(1) by auto
  with b [OF q(1)] obtain m3 where m3: "h3 ?q = Some m3" by (auto simp: map_option_case split: option.split_asm)
  let ?h = "h3(?q \<mapsto> m3\<lparr>l_next := Some a\<rparr>)"
  have aq: "a \<noteq> ?q" using a q(1) by blast
  have "map_option l_next (?h x) = map_option l_next (h1 x)" if x: "x \<in> set (butlast ys)" for x
  proof -
    have "x \<in> set ys" "x \<noteq> ?q" using x d False by (auto dest: in_set_butlastD) (metis append_butlast_last_id distinct_append disjoint_iff list.set_intros(1))
    then show ?thesis using t out h3 a q(2) unfolding taken_out_def by (metis fun_upd_other option.inject)
  qed
  with chain_snoc [OF c False, of ?h a] ha aq have "chain ?h p (ys @ [a])" by simp
  moreover have "bufs ?h ys = bufs h1 ys"
  proof (rule bufs_cong)
    fix x assume x: "x \<in> set ys"
    obtain l1 where "h1 x = Some l1" using chain_dom [OF c, of x] x by auto
    then show "\<exists>l. h1 x = Some l \<and> map_option l_buf (?h x) = Some (l_buf l)" using b [OF x] m3 by auto
  qed
  ultimately show ?thesis using False q m3 ha aq
    by (intro exI [of _ ?h]) (auto simp: upd_next_def split: list.split)
qed

lemma last_or_mem: "last_or None ys = Some a \<Longrightarrow> a \<in> set ys"
  by (auto simp: last_or_None split: if_split_asm)

text \<open>The first half: the chain is cleared behind the offset and the empty links are taken out.\<close>

lemma append_prepare:
  assumes c: "chain h p as" and f: "chain h free fs" and d: "distinct (as @ fs)" and t: "tidy (bufs h as)"
  obtains ys zs h1 h2 free1 fs1 where "as = ys @ zs" and "chain h1 p (ys @ zs)" and "\<forall>b \<in> set (bufs h1 ys). full_buf b"
    and "contents (bufs h1 ys) = take at (contents (bufs h as))" and "\<not> ends (bufs h1 ys)"
    and "ngx_wasm_chain_clear dbg p at h = Some (at - length (contents (bufs h as)), ends (bufs h as), flushes (bufs h as), h1)"
    and "tail_loop tag p None free h1 = Some (last_or None ys, free1, h2)" and "chain h2 free1 fs1"
    and "set fs1 \<subseteq> set zs \<union> set fs" and "distinct fs1" and "taken_out (last_or None ys) (set zs) h1 h2"
    and "dom h2 \<subseteq> dom h"
proof -
  obtain h1 where h1: "ngx_wasm_chain_clear dbg p at h =
      Some (at - length (contents (bufs h as)), ends (bufs h as), flushes (bufs h as), h1)" and cl: "cleared at 0 as h h1"
    using chain_clear [OF c, of dbg at] d by auto
  have nx: "map_option l_next (h1 a) = map_option l_next (h a)" for a using cl by (simp add: cleared_def)
  have c1: "chain h1 p as" and f1: "chain h1 free fs" using c f chain_cong nx by metis+
  have b1: "bufs h1 as = clears at 0 (bufs h as)" using cl by (simp add: cleared_def)
  with tidy_clears [OF t] have "tidy (bufs h1 as)" by simp
  then obtain ys zs where as: "as = ys @ zs" "\<forall>b \<in> set (bufs h1 ys). full_buf b" "\<forall>b \<in> set (bufs h1 zs). empty_buf b"
    by (rule tidy_split)
  have full: "\<forall>b \<in> set (bufs h1 ys). ngx_buf_size b \<noteq> 0" using as(2) full_not_empty by blast
  from tail_loop_full [OF c1 [unfolded as(1)] full, of tag None free] obtain q where
    q: "chain h1 q zs" "tail_loop tag p None free h1 = tail_loop tag q (last_or None ys) free h1" by blast
  have e: "\<forall>b \<in> set (bufs h1 zs). ngx_buf_size b = 0" using as(3) by (simp add: empty_buf_def)
  have dz: "distinct (zs @ fs)" using d as(1) by auto
  have "\<forall>a. last_or None ys = Some a \<longrightarrow> a \<notin> set zs \<and> a \<notin> set fs \<and> h1 a \<noteq> None"
    using d as(1) chain_dom [OF c1] by (auto dest!: last_or_mem)
  from tail_loop_empty [OF q(1) f1 dz e this, of tag] obtain free1 fs1 h2 where
    "tail_loop tag p None free h1 = Some (last_or None ys, free1, h2)" "chain h2 free1 fs1"
    "set fs1 \<subseteq> set zs \<union> set fs" "distinct fs1" "taken_out (last_or None ys) (set zs) h1 h2"
    unfolding q(2) by blast
  moreover have "dom h2 \<subseteq> dom h"
  proof
    fix a assume "a \<in> dom h2"
    then have "a \<in> dom h1"
      using \<open>taken_out (last_or None ys) (set zs) h1 h2\<close> chain_dom [OF q(1), of a]
      by (cases "a \<in> set zs") (auto simp: taken_out_def dest: spec [of _ a] split: option.splits)
    then show "a \<in> dom h" using nx [of a] by (cases "h a") auto
  qed
  moreover have "contents (bufs h1 zs) = []" using as(3) by (auto simp: contents_def empty_buf_def)
  then have "contents (bufs h1 ys) = contents (bufs h1 as)" by (simp add: as(1))
  then have "contents (bufs h1 ys) = take at (contents (bufs h as))"
    unfolding b1 using contents_clears [of 0 at "bufs h as"] by simp
  moreover have "\<not> ends (clears at n bs)" for n bs by (induction bs arbitrary: n) auto
  then have "\<not> ends (bufs h1 ys)" using b1 as(1) by (metis bufs_simps(3) ends_def Un_iff set_append)
  ultimately show ?thesis using that as c1 h1 by blast
qed

lemma buf_lens_full: "\<forall>b \<in> set bs. full_buf b \<Longrightarrow> \<not> ends bs \<Longrightarrow>
    fst (buf_lens (bs @ [b])) = length (contents bs) + ngx_buf_size b"
  by (induction bs) (auto simp: full_buf_def ngx_buf_size_def)

lemma tidy_snoc: "\<forall>b \<in> set bs. full_buf b \<Longrightarrow> full_buf b \<or> empty_buf b \<Longrightarrow> tidy (bs @ [b])"
  by (induction bs) (auto simp: tidy_Cons tidy_def)

text \<open>
  Appending a string to a chain at an offset: the chain then has the bytes before the offset and the string behind them (directly, also when the
  chain is shorter than the offset), the flags that mark the end of the stream move to the new link, and the links, the
  free list and the heap stay well-formed, so that operations can follow each other. The only failure is an allocation.
\<close>

lemma chain_append_spec:
  assumes P: "pool_laws P" and c: "chain h p as" and f: "chain h free fs" and d: "distinct (as @ fs)" and t: "tidy (bufs h as)"
  shows "\<exists>rc p1 free1 h1. ngx_wasm_chain_append dbg P p at str free tag h = Some (rc, p1, free1, h1) \<and>
    (rc = NGX_ERROR \<and> \<not> pool_gives P h \<or>
     rc = NGX_OK \<and> (\<exists>as1 fs1. chain h1 p1 as1 \<and> chain h1 free1 fs1 \<and> distinct (as1 @ fs1) \<and> tidy (bufs h1 as1) \<and>
       contents (bufs h1 as1) = take at (contents (bufs h as)) @ str \<and> ends (bufs h1 as1) = ends (bufs h as) \<and>
       fst (buf_lens (bufs h1 as1)) = length (contents (bufs h1 as1))))"
proof -
  obtain ys zs h1 h2 free1 fs1 where as: "as = ys @ zs" and c1: "chain h1 p (ys @ zs)" and full: "\<forall>b \<in> set (bufs h1 ys). full_buf b"
    and ys: "contents (bufs h1 ys) = take at (contents (bufs h as))" "\<not> ends (bufs h1 ys)"
    and cl: "ngx_wasm_chain_clear dbg p at h = Some (at - length (contents (bufs h as)), ends (bufs h as), flushes (bufs h as), h1)"
    and tl: "tail_loop tag p None free h1 = Some (last_or None ys, free1, h2)" and f2: "chain h2 free1 fs1"
    and fs1: "set fs1 \<subseteq> set zs \<union> set fs" "distinct fs1" and to: "taken_out (last_or None ys) (set zs) h1 h2"
    and dom: "dom h2 \<subseteq> dom h"
    by (rule append_prepare [OF c f d t])
  from get_free_buf [OF P f2 fs1(2), of "length str" tag] obtain nl free2 fs2 h3 where
    gf: "ngx_wasm_chain_get_free_buf P free1 (length str) tag True h2 = Some (nl, free2, h3)" "nl = None \<longrightarrow> \<not> pool_gives P h2" and
    nl: "\<And>a. nl = Some a \<Longrightarrow> (a \<in> set fs1 \<or> h2 a = None) \<and> (\<exists>b. h3 a = Some \<lparr>l_buf = b, l_next = None\<rparr> \<and> fresh_buf (length str) b) \<and>
      (\<forall>x. x \<noteq> a \<longrightarrow> h3 x = h2 x) \<and> chain h3 free2 fs2 \<and> set fs2 \<subseteq> set fs1 - {a} \<and> distinct fs2" by blast
  show ?thesis
  proof (cases nl)
    case None
    with cl tl gf pool_gives_mono [OF _ dom] show ?thesis by (auto simp: ngx_wasm_chain_append_def)
  next
    case (Some a)
    then obtain b where a: "a \<in> set fs1 \<or> h2 a = None" and b: "h3 a = Some \<lparr>l_buf = b, l_next = None\<rparr>" "fresh_buf (length str) b"
      and h3: "\<forall>x. x \<noteq> a \<longrightarrow> h3 x = h2 x" and fs2: "chain h3 free2 fs2" "set fs2 \<subseteq> set fs1 - {a}" "distinct fs2"
      using nl by blast
    have "\<forall>x \<in> set ys. h2 x \<noteq> None"
    proof
      fix x assume "x \<in> set ys"
      then show "h2 x \<noteq> None" using chain_dom [OF c1, of x] taken_out_dom [OF to, of x] d as by auto
    qed
    with a fs1(1) d as have ay: "a \<notin> set ys" by auto
    let ?e = "ends (bufs h as)"
    let ?b = "b\<lparr>b_data := str, b_flush := flushes (bufs h as), b_last_buf := ?e, b_last_in_chain := ?e\<rparr>"
    let ?h = "h3(a \<mapsto> \<lparr>l_buf = ?b, l_next = None\<rparr>)"
    have "distinct (ys @ zs)" using d as by auto
    from linked [OF c1 this to ay, of ?h "\<lparr>l_buf = ?b, l_next = None\<rparr>" free2] h3 obtain h5 where
      h5: "(case last_or None ys of None \<Rightarrow> Some (NGX_OK, Some a, free2, ?h)
         | Some q \<Rightarrow> do { h5 \<leftarrow> upd_next q (Some a) ?h; Some (NGX_OK, p, free2, h5) }) =
       Some (NGX_OK, case ys of [] \<Rightarrow> Some a | _ \<Rightarrow> p, free2, h5)"
      "chain h5 (case ys of [] \<Rightarrow> Some a | _ \<Rightarrow> p) (ys @ [a])" "bufs h5 (ys @ [a]) = bufs h1 ys @ [?b]"
      "\<forall>x. x \<notin> set ys \<longrightarrow> h5 x = ?h x" by auto
    have run: "ngx_wasm_chain_append dbg P p at str free tag h = Some (NGX_OK, case ys of [] \<Rightarrow> Some a | _ \<Rightarrow> p, free2, h5)"
      using cl tl gf Some b h5(1) by (simp add: ngx_wasm_chain_append_def buf_append_fresh fresh_buf_def)
    have "x \<notin> set ys \<and> x \<noteq> a" if "x \<in> set fs2" for x using that fs2(2) fs1(1) d as by auto
    then have "chain h5 free2 fs2" "distinct ((ys @ [a]) @ fs2)" using fs2 h5(4) ay d as same_on [of fs2 h5 h3] by auto
    moreover have "full_buf ?b \<or> empty_buf ?b" "ngx_buf_size ?b = length str"
      using b(2) by (auto simp: fresh_buf_def full_buf_def empty_buf_def ngx_buf_size_def)
    then have "tidy (bufs h5 (ys @ [a]))" "fst (buf_lens (bufs h5 (ys @ [a]))) = length (contents (bufs h5 (ys @ [a])))"
      using tidy_snoc [OF full] buf_lens_full [OF full ys(2)] unfolding h5(3) by simp_all
    moreover have "contents (bufs h5 (ys @ [a])) = take at (contents (bufs h as)) @ str" "ends (bufs h5 (ys @ [a])) = ?e"
      using ys unfolding h5(3) by (simp_all add: ends_def)
    ultimately show ?thesis using run h5(2) by blast
  qed
qed

text \<open>
  Appending behind a chain that starts with an empty buffer of nginx loses the chain: the loop that looks for the last link stops at that
  buffer, the string becomes the whole chain, and the caller is told \<open>NGX_OK\<close>.
\<close>

theorem chain_append_loses:
  assumes P: "\<forall>n. mem_alloc P n" "\<forall>g. dom g \<subseteq> dom h \<longrightarrow> link_alloc P g \<noteq> None"
    and c: "chain h p (a # as)" and d: "distinct (a # as)"
    and e: "ngx_buf_size (l_buf (the (h a))) = 0" "b_data (l_buf (the (h a))) = []" "b_tag (l_buf (the (h a))) \<noteq> tag"
  shows "\<exists>p1 free1 h1 b. ngx_wasm_chain_append dbg P p at str None tag h = Some (NGX_OK, p1, free1, h1) \<and>
    chain h1 p1 [b] \<and> contents (bufs h1 [b]) = str"
proof -
  obtain h1 where cl: "ngx_wasm_chain_clear dbg p at h =
      Some (at - length (contents (bufs h (a # as))), ends (bufs h (a # as)), flushes (bufs h (a # as)), h1)" and h1: "cleared at 0 (a # as) h h1"
    using chain_clear [OF c d, of dbg at] by blast
  obtain l where l: "p = Some a" "h a = Some l" using c by auto
  have nx: "map_option l_next (h1 x) = map_option l_next (h x)" for x using h1 by (simp add: cleared_def)
  then have dom: "dom h1 = dom h" by (metis (no_types, lifting) dom_map_option_comp comp_apply ext)
  from nx [of a] obtain l1 where l1: "h1 a = Some l1" using l(2) by auto
  moreover have "l_buf (the (h1 a)) = snd (clear_buf at 0 (l_buf l))" using h1 l(2) by (simp add: cleared_def)
  ultimately have "ngx_buf_size (l_buf l1) = 0" "b_tag (l_buf l1) \<noteq> tag"
    using e l(2) by (auto simp: ngx_buf_size_def clear_buf_data)
  then have tl: "tail_loop tag p None None h1 = Some (None, None, h1(a := None))"
    using l(1) l1 by (subst tail_loop.simps, subst tail_loop.simps) simp
  have "dom (h1(a := None)) \<subseteq> dom h" using dom by auto
  with P(2) obtain b where "link_alloc P (h1(a := None)) = Some b" by (metis not_None_eq)
  then have "ngx_wasm_chain_get_free_buf P None (length str) tag True (h1(a := None)) =
      Some (Some b, None, (h1(a := None))(b \<mapsto> \<lparr>l_buf = no_buf\<lparr>b_cap := (if length str = 0 then None else Some (length str)),
        b_tag := tag, b_memory := (length str \<noteq> 0)\<rparr>, l_next = None\<rparr>))"
    using P(1) by (simp add: ngx_wasm_chain_get_free_buf_def)
  with cl tl show ?thesis
    by (auto simp: ngx_wasm_chain_append_def buf_append_def no_buf_def)
qed

definition demo_pool :: chain_pool where
  "demo_pool = \<lparr>link_alloc = (\<lambda>h. if h 100 = None then Some 100 else None), mem_alloc = (\<lambda>n. True)\<rparr>"

theorem chain_append_loses_witness:
  "\<exists>p1 free1 h1 b. ngx_wasm_chain_append True demo_pool (Some 1) 3 [9] None 5
      [1 \<mapsto> \<lparr>l_buf = no_buf, l_next = Some 2\<rparr>, 2 \<mapsto> \<lparr>l_buf = no_buf\<lparr>b_data := [1, 2, 3], b_memory := True\<rparr>, l_next = None\<rparr>] =
    Some (NGX_OK, p1, free1, h1) \<and> chain h1 p1 [b] \<and> contents (bufs h1 [b]) = [9]"
proof (rule chain_append_loses [where a = 1 and as = "[2]"])
  show "\<forall>g. dom g \<subseteq> dom [1 \<mapsto> \<lparr>l_buf = no_buf, l_next = Some 2\<rparr>,
      2 \<mapsto> \<lparr>l_buf = no_buf\<lparr>b_data := [1, 2, 3], b_memory := True\<rparr>, l_next = None\<rparr>] \<longrightarrow> link_alloc demo_pool g \<noteq> None"
    by (auto simp: demo_pool_def)
qed (simp_all add: demo_pool_def no_buf_def ngx_buf_size_def)

section \<open>Prepending\<close>

lemma chain_prepend_spec:
  assumes P: "pool_laws P" and c: "chain h p as" and f: "chain h free fs" and d: "distinct (as @ fs)"
  shows "\<exists>rc p1 free1 h1. ngx_wasm_chain_prepend P p str free tag h = Some (rc, p1, free1, h1) \<and>
    (rc = NGX_ERROR \<and> \<not> pool_gives P h \<or>
     rc = NGX_OK \<and> (\<exists>a fs1 b. chain h1 p1 (a # as) \<and> chain h1 free1 fs1 \<and> distinct ((a # as) @ fs1) \<and>
       bufs h1 (a # as) = b\<lparr>b_data := str\<rparr> # bufs h as \<and> fresh_buf (length str) b))"
proof -
  from get_free_buf [OF P f, of "length str" tag] d obtain nl free1 fs1 h1 where
    gf: "ngx_wasm_chain_get_free_buf P free (length str) tag True h = Some (nl, free1, h1)" "nl = None \<longrightarrow> \<not> pool_gives P h" and
    nl: "\<And>a. nl = Some a \<Longrightarrow> (a \<in> set fs \<or> h a = None) \<and> (\<exists>b. h1 a = Some \<lparr>l_buf = b, l_next = None\<rparr> \<and> fresh_buf (length str) b) \<and>
      (\<forall>x. x \<noteq> a \<longrightarrow> h1 x = h x) \<and> chain h1 free1 fs1 \<and> set fs1 \<subseteq> set fs - {a} \<and> distinct fs1" by auto
  show ?thesis
  proof (cases nl)
    case None
    with gf show ?thesis by (simp add: ngx_wasm_chain_prepend_def)
  next
    case (Some a)
    then obtain b where a: "a \<in> set fs \<or> h a = None" and b: "h1 a = Some \<lparr>l_buf = b, l_next = None\<rparr>" "fresh_buf (length str) b"
      and h1: "\<forall>x. x \<noteq> a \<longrightarrow> h1 x = h x" and fs1: "chain h1 free1 fs1" "set fs1 \<subseteq> set fs - {a}" "distinct fs1"
      using nl by blast
    have aa: "a \<notin> set as" using a d chain_dom [OF c, of a] by auto
    let ?h = "h1(a \<mapsto> \<lparr>l_buf = b\<lparr>b_data := str\<rparr>, l_next = p\<rparr>)"
    have "\<forall>x \<in> set as. h1 x = h x" using h1 aa by auto
    from same_on [OF this] c have "chain h1 p as" "bufs h1 as = bufs h as" by simp_all
    then have "chain ?h (Some a) (a # as)" "bufs ?h (a # as) = b\<lparr>b_data := str\<rparr> # bufs h as" using aa by auto
    moreover have "a \<notin> set fs1" using fs1(2) by auto
    then have "chain ?h free1 fs1" "distinct ((a # as) @ fs1)" using fs1 aa d by auto
    moreover have "ngx_wasm_chain_prepend P p str free tag h = Some (NGX_OK, Some a, free1, ?h)"
      using gf Some b by (simp add: ngx_wasm_chain_prepend_def buf_append_fresh)
    ultimately show ?thesis using b(2) by blast
  qed
qed

end
