(* ===== verification/Host_Buffers.thy ===== *)
theory Host_Buffers
  imports Buf_Chain Guest_Memory Proxy_Wasm_Instance
begin

text \<open>
  Bodies of requests and responses, and the host functions that read and write them: \<open>proxy_get_buffer_bytes\<close> and
  \<open>proxy_set_buffer_bytes\<close> of src/src/common/proxy_wasm/ngx_proxy_wasm_host.c, with the operations on bodies of
  src/src/http/ngx_http_wasm_util.c.
\<close>

section \<open>State\<close>

text \<open>
  The request body is \<open>None\<close> while the request has none, and otherwise the first link of its chain. \<open>dispatch_body\<close> is the length and
  the chain of the response to a dispatched call, when there is a current one, and \<open>foreign_args\<close> the chain of arguments of a
  foreign call.
\<close>

record 'g buffers =
  bf_mem :: bytes
  bf_world :: 'g
  bf_links :: links
  free_bufs :: "nat option"
  request_body :: "nat option option"
  body_in_file :: bool
  body_length_n :: nat
  resp_chunk :: "nat option"
  resp_chunk_len :: nat
  resp_chunk_eof :: bool
  dispatch_body :: "(nat \<times> nat option) option"
  foreign_args :: "nat option option"
  entered_header_filter :: bool
  entered_body_filter :: bool
  entered_log_phase :: bool

datatype buffer_type =
    BUFFER_HTTP_REQUEST_BODY | BUFFER_HTTP_RESPONSE_BODY | BUFFER_DOWNSTREAM_DATA | BUFFER_UPSTREAM_DATA
  | BUFFER_HTTP_CALL_RESPONSE_BODY | BUFFER_GRPC_RECEIVE_BUFFER | BUFFER_VM_CONFIGURATION | BUFFER_PLUGIN_CONFIGURATION
  | BUFFER_FOREIGN_FUNCTION_ARGUMENTS | BUFFER_UPSTREAM_CONFIGURATION

section \<open>Bodies\<close>

definition get_request_body :: "chain_pool \<Rightarrow> nat \<Rightarrow> 'g buffers \<Rightarrow> nat option option \<times> 'g buffers" where
  "get_request_body P rb_size st =
     (case request_body st of
        None \<Rightarrow> if mem_alloc P rb_size then (Some None, st\<lparr>request_body := Some None\<rparr>) else (None, st)
      | Some rb \<Rightarrow> (Some rb, st))"

text \<open>\<open>rb_size\<close> is the size of the structure of a request body, which is allocated when there is none.\<close>

definition ngx_http_wasm_set_req_body ::
  "bool \<Rightarrow> chain_pool \<Rightarrow> nat \<Rightarrow> nat \<Rightarrow> bytes \<Rightarrow> nat \<Rightarrow> nat \<Rightarrow> 'g buffers \<Rightarrow> (ngx_rc \<times> 'g buffers) option" where
  "ngx_http_wasm_set_req_body dbg P rb_size tag body at lim st =
     (if entered_header_filter st then Some (NGX_ABORT, st)
      else case get_request_body P rb_size st of
        (None, st1) \<Rightarrow> Some (NGX_ERROR, st1)
      | (Some rb, st1) \<Rightarrow> do {
          (rc, rb1, free1, h1) \<leftarrow> ngx_wasm_chain_append dbg P rb at (take lim body) (free_bufs st1) tag (bf_links st1);
          let st2 = st1\<lparr>request_body := Some rb1, free_bufs := free1, bf_links := h1\<rparr>;
          if rc \<noteq> NGX_OK then Some (NGX_ERROR, st2)
          else do {
            (n, _) \<leftarrow> ngx_wasm_chain_len h1 rb1;
            Some (NGX_OK, st2\<lparr>body_length_n := n\<rparr>) } })"

definition ngx_http_wasm_prepend_req_body ::
  "chain_pool \<Rightarrow> nat \<Rightarrow> nat \<Rightarrow> bytes \<Rightarrow> 'g buffers \<Rightarrow> (ngx_rc \<times> 'g buffers) option" where
  "ngx_http_wasm_prepend_req_body P rb_size tag body st =
     (if entered_header_filter st then Some (NGX_ABORT, st)
      else case get_request_body P rb_size st of
        (None, st1) \<Rightarrow> Some (NGX_ERROR, st1)
      | (Some rb, st1) \<Rightarrow> do {
          (rc, rb1, free1, h1) \<leftarrow> ngx_wasm_chain_prepend P rb body (free_bufs st1) tag (bf_links st1);
          let st2 = st1\<lparr>request_body := Some rb1, free_bufs := free1, bf_links := h1\<rparr>;
          if rc \<noteq> NGX_OK then Some (NGX_ERROR, st2)
          else do {
            (n, _) \<leftarrow> ngx_wasm_chain_len h1 rb1;
            Some (NGX_OK, st2\<lparr>body_length_n := n\<rparr>) } })"

definition resp_body_chunk :: "chain_pool \<Rightarrow> nat \<Rightarrow> nat \<Rightarrow> 'g buffers \<Rightarrow> (ngx_rc \<times> 'g buffers) option" where
  "resp_body_chunk P tag len st =
     (if resp_chunk st \<noteq> None then Some (NGX_OK, st)
      else if entered_log_phase st then Some (NGX_ABORT, st)
      else do {
        (cl, free1, h1) \<leftarrow> ngx_wasm_chain_get_free_buf P (free_bufs st) len tag True (bf_links st);
        Some (if cl = None then NGX_ERROR else NGX_OK, st\<lparr>resp_chunk := cl, free_bufs := free1, bf_links := h1\<rparr>) })"

text \<open>\<open>blen\<close> is the length of the string, and \<open>body\<close> its bytes up to the limit.\<close>

definition ngx_http_wasm_set_resp_body ::
  "bool \<Rightarrow> chain_pool \<Rightarrow> nat \<Rightarrow> nat \<Rightarrow> bytes \<Rightarrow> nat \<Rightarrow> nat \<Rightarrow> 'g buffers \<Rightarrow> (ngx_rc \<times> 'g buffers) option" where
  "ngx_http_wasm_set_resp_body dbg P tag blen body at lim st = do {
     (rc0, st1) \<leftarrow> resp_body_chunk P tag blen st;
     if rc0 \<noteq> NGX_OK then Some (rc0, st1)
     else do {
       (rc, cl, free1, h1) \<leftarrow> ngx_wasm_chain_append dbg P (resp_chunk st1) at (take lim body) (free_bufs st1) tag (bf_links st1);
       let st2 = st1\<lparr>resp_chunk := cl, free_bufs := free1, bf_links := h1\<rparr>;
       if rc \<noteq> NGX_OK then Some (NGX_ERROR, st2)
       else do {
         (n, eof) \<leftarrow> ngx_wasm_chain_len h1 cl;
         let st3 = st2\<lparr>resp_chunk_len := n, resp_chunk_eof := (resp_chunk_eof st2 \<or> eof)\<rparr>;
         if n \<noteq> 0 then Some (NGX_OK, st3)
         else if entered_body_filter st3 then Some (NGX_OK, st3\<lparr>resp_chunk := None\<rparr>)
         else do {
           a \<leftarrow> cl;
           h2 \<leftarrow> upd_buf a (\<lambda>b. b\<lparr>b_last_buf := True, b_last_in_chain := True\<rparr>) h1;
           Some (NGX_OK, st3\<lparr>bf_links := h2\<rparr>) } } } }"

definition ngx_http_wasm_prepend_resp_body ::
  "bool \<Rightarrow> chain_pool \<Rightarrow> nat \<Rightarrow> bytes \<Rightarrow> 'g buffers \<Rightarrow> (ngx_rc \<times> 'g buffers) option" where
  "ngx_http_wasm_prepend_resp_body dbg P tag body st =
     (if resp_chunk st = None then Some (NGX_ABORT, st)
      else do {
        (rc, cl, free1, h1) \<leftarrow> ngx_wasm_chain_prepend P (resp_chunk st) body (free_bufs st) tag (bf_links st);
        let st1 = st\<lparr>resp_chunk := cl, free_bufs := free1, bf_links := h1\<rparr>;
        if rc \<noteq> NGX_OK then Some (NGX_ERROR, st1)
        else do {
          (n, eof) \<leftarrow> ngx_wasm_chain_len h1 cl;
          if \<not> ngx_wa_assert dbg (n \<noteq> 0) then None
          else Some (NGX_OK, st1\<lparr>resp_chunk_len := n, resp_chunk_eof := (resp_chunk_eof st1 \<or> eof)\<rparr>) } })"

section \<open>Reading a buffer\<close>

text \<open>
  \<open>ngx_proxy_wasm_get_buffer_helper\<close>: a chain, or the reason for none: a trap, nothing there, or a bad argument.
\<close>

datatype no_buffer = Buffer_trap | Buffer_none | Buffer_badarg

definition ngx_proxy_wasm_get_buffer_helper :: "bool \<Rightarrow> buffer_type \<Rightarrow> pw_step \<Rightarrow> 'g buffers \<Rightarrow> (no_buffer + nat) option" where
  "ngx_proxy_wasm_get_buffer_helper dbg t stp st =
     (case t of
        BUFFER_HTTP_REQUEST_BODY \<Rightarrow>
          if stp \<noteq> STEP_REQ_HEADERS \<and> stp \<noteq> STEP_REQ_BODY \<and> stp \<noteq> STEP_LOG then Some (Inl Buffer_trap)
          else (case request_body st of
              Some (Some a) \<Rightarrow> if body_in_file st then Some (Inl Buffer_none) else Some (Inr a)
            | _ \<Rightarrow> Some (Inl Buffer_none))
      | BUFFER_HTTP_RESPONSE_BODY \<Rightarrow>
          if stp \<noteq> STEP_RESP_BODY then Some (Inl Buffer_trap)
          else (case resp_chunk st of None \<Rightarrow> Some (Inl Buffer_none) | Some a \<Rightarrow> Some (Inr a))
      | BUFFER_HTTP_CALL_RESPONSE_BODY \<Rightarrow>
          if stp \<noteq> STEP_DISPATCH_RESPONSE \<and> stp \<noteq> STEP_LOG then Some (Inl Buffer_trap)
          else (case dispatch_body st of
              None \<Rightarrow> Some (Inl Buffer_badarg)
            | Some (n, body) \<Rightarrow>
                if n = 0 then Some (Inl Buffer_none)
                else (case body of None \<Rightarrow> if dbg then None else Some (Inl Buffer_badarg) | Some a \<Rightarrow> Some (Inr a)))
      | BUFFER_FOREIGN_FUNCTION_ARGUMENTS \<Rightarrow>
          (case foreign_args st of
             None \<Rightarrow> Some (Inl Buffer_badarg)
           | Some None \<Rightarrow> if dbg then None else Some (Inl Buffer_badarg)
           | Some (Some a) \<Rightarrow> Some (Inr a))
      | _ \<Rightarrow> Some (Inl Buffer_badarg))"

text \<open>An argument of the guest as a \<open>size_t\<close>: the sign of the 32-bit integer is extended.\<close>

definition size_arg :: "u32 \<Rightarrow> nat" where
  "size_arg w = (if w < 0x80000000 then unat w else unat w + 2 ^ 64 - 2 ^ 32)"

text \<open>\<open>ngx_wavm_memory_cpymem\<close>: the pointer behind the copy, 0 when the copy is refused.\<close>

definition ngx_wavm_memory_cpymem :: "bytes \<Rightarrow> u32 \<Rightarrow> bytes \<Rightarrow> (u32 \<times> bytes) option" where
  "ngx_wavm_memory_cpymem mem p bs =
     (case ngx_wavm_memory_lift mem p (of_nat (length bs)) 1 of
        None \<Rightarrow> Some (0, mem)
      | Some None \<Rightarrow> if bs = [] then Some (p, mem) else None
      | Some (Some off) \<Rightarrow> do { mem1 \<leftarrow> buf_write mem off bs; Some (p + of_nat (length bs), mem1) })"

text \<open>
  Copying the buffers of a chain one after the other. The length is set to 0 when the limit is passed.
\<close>

partial_function (option) copy_chunks :: "links \<Rightarrow> nat option \<Rightarrow> u32 \<Rightarrow> nat \<Rightarrow> nat \<Rightarrow> bytes \<Rightarrow> (hfunc_ret \<times> bytes) option" where
  "copy_chunks h cl p len max_len mem =
     (case cl of
        None \<Rightarrow> Some (Result RESULT_OK, mem)
      | Some a \<Rightarrow> do {
          l \<leftarrow> h a;
          let chunk = b_data (l_buf l);
          let len1 = len + length chunk;
          let n = (if len1 > max_len then length chunk - (len1 - max_len) else length chunk);
          let len2 = (if len1 > max_len then 0 else len1);
          (q, mem1) \<leftarrow> (if n = 0 then Some (p, mem) else ngx_wavm_memory_cpymem mem p (take n chunk));
          if n \<noteq> 0 \<and> q = 0 then Some (Result RESULT_INVALID_MEM_ACCESS, mem1)
          else if b_last_buf (l_buf l) \<or> b_last_in_chain (l_buf l) then Some (Result RESULT_OK, mem1)
          else copy_chunks h (l_next l) q len2 max_len mem1 })"

text \<open>
  What is read: a string in memory of the host (a configuration), or a chain. \<open>confs\<close> has the configurations of the plugin and of the VM;
  the answer of \<open>ngx_http_wasm_get_upstreams\<close> is a parameter: an error, nothing, or a string.
\<close>

record confs =
  plugin_conf :: bytes
  vm_conf :: bytes
  upstreams :: "ngx_rc \<times> bytes"

datatype buffer_source = Source_string bytes | Source_chain nat | Source_ret hfunc_ret

definition buffer_source_of :: "bool \<Rightarrow> confs \<Rightarrow> buffer_type \<Rightarrow> pw_step \<Rightarrow> 'g buffers \<Rightarrow> buffer_source option" where
  "buffer_source_of dbg C t stp st =
     (case t of
        BUFFER_PLUGIN_CONFIGURATION \<Rightarrow> Some (Source_string (plugin_conf C))
      | BUFFER_VM_CONFIGURATION \<Rightarrow> Some (Source_string (vm_conf C))
      | BUFFER_UPSTREAM_CONFIGURATION \<Rightarrow>
          (case upstreams C of
             (rc, s) \<Rightarrow> Some (if rc = NGX_DECLINED then Source_string []
               else if rc = NGX_ERROR then Source_ret (Result RESULT_INTERNAL_FAILURE) else Source_string s))
      | _ \<Rightarrow> do {
          r \<leftarrow> ngx_proxy_wasm_get_buffer_helper dbg t stp st;
          Some (case r of
            Inr a \<Rightarrow> Source_chain a
          | Inl Buffer_trap \<Rightarrow> Source_ret Bad_usage
          | Inl Buffer_none \<Rightarrow> Source_ret (Result RESULT_NOT_FOUND)
          | Inl Buffer_badarg \<Rightarrow> Source_ret (Result RESULT_BAD_ARGUMENT)) })"

text \<open>Copying the source to the memory of the guest at \<open>p\<close>.\<close>

definition copy_source :: "links \<Rightarrow> buffer_source \<Rightarrow> u32 \<Rightarrow> nat \<Rightarrow> nat \<Rightarrow> bytes \<Rightarrow> (hfunc_ret \<times> bytes) option" where
  "copy_source h src p len max_len mem =
     (let single = (\<lambda>s. do {
          bs \<leftarrow> buf_read s 0 len;
          (q, mem1) \<leftarrow> ngx_wavm_memory_cpymem mem p bs;
          Some (if ngx_wavm_memory_lift mem p (of_nat len) 1 = None then Result RESULT_INVALID_MEM_ACCESS else Result RESULT_OK, mem1) }) in
      case src of
        Source_string s \<Rightarrow> single s
      | Source_chain a \<Rightarrow> do {
          l \<leftarrow> h a;
          if l_next l = None then single (b_data (l_buf l)) else copy_chunks h (Some a) p 0 max_len mem }
      | Source_ret r \<Rightarrow> Some (r, mem))"

definition source_len :: "links \<Rightarrow> buffer_source \<Rightarrow> nat option" where
  "source_len h src = (case src of Source_string s \<Rightarrow> Some (length s) | Source_chain a \<Rightarrow> map_option fst (ngx_wasm_chain_len h (Some a))
     | Source_ret r \<Rightarrow> Some 0)"

definition ngx_proxy_wasm_hfuncs_get_buffer ::
  "bool \<Rightarrow> 'g hguest \<Rightarrow> confs \<Rightarrow> pw_step \<Rightarrow> buffer_type \<Rightarrow> u32 \<Rightarrow> u32 \<Rightarrow> u32 \<Rightarrow> u32 \<Rightarrow> 'g buffers \<Rightarrow> (hfunc_ret \<times> 'g buffers) option" where
  "ngx_proxy_wasm_hfuncs_get_buffer dbg G C stp t offset max_arg rbuf_ptr rlen_ptr st =
     (case (lift_u32 (bf_mem st) rbuf_ptr, lift_u32 (bf_mem st) rlen_ptr) of
        (Some rbuf, Some rlen) \<Rightarrow> do {
          src \<leftarrow> buffer_source_of dbg C t stp st;
          case src of
            Source_ret r \<Rightarrow> Some (r, st)
          | _ \<Rightarrow> do {
              n \<leftarrow> source_len (bf_links st) src;
              let len = min n (size_arg max_arg);
              if size_arg offset + len \<ge> 2 ^ 64 then Some (Result RESULT_INTERNAL_FAILURE, st)
              else if len = 0 then Some (Result RESULT_OK, st)
              else (case h_malloc G len (bf_mem st) (bf_world st) of
                (p, mem1, w) \<Rightarrow>
                  if p = 0 then Some (Result RESULT_INTERNAL_FAILURE, st\<lparr>bf_mem := mem1, bf_world := w\<rparr>)
                  else do {
                    mem2 \<leftarrow> buf_write mem1 rbuf (le32 p);
                    mem3 \<leftarrow> buf_write mem2 rlen (le32 (of_nat len));
                    (r, mem4) \<leftarrow> copy_source (bf_links st) src p len (size_arg max_arg) mem3;
                    Some (r, st\<lparr>bf_mem := mem4, bf_world := w\<rparr>) }) } }
      | _ \<Rightarrow> Some (Bad_usage, st))"

section \<open>Writing a buffer\<close>

text \<open>The number of bytes to write, and the return code as a result.\<close>

definition set_buffer_max :: "nat \<Rightarrow> nat \<Rightarrow> nat \<Rightarrow> nat" where
  "set_buffer_max offset lim len = (if offset > 0 \<and> lim = 0 \<and> len > 0 then len else lim)"

definition set_buffer_ret :: "bool \<Rightarrow> ngx_rc \<times> 'g buffers \<Rightarrow> (hfunc_ret \<times> 'g buffers) option" where
  "set_buffer_ret dbg r =
     (if \<not> ngx_wa_assert dbg (fst r \<noteq> NGX_ABORT) then None
      else Some (if fst r \<noteq> NGX_OK then Result RESULT_INTERNAL_FAILURE else Result RESULT_OK, snd r))"

text \<open>The bytes of the guest that are used: all of them in front of a body, up to the limit otherwise.\<close>

definition slice_bytes :: "bytes \<Rightarrow> nat option \<Rightarrow> nat \<Rightarrow> bytes option" where
  "slice_bytes mem p n = (case p of None \<Rightarrow> Some [] | Some off \<Rightarrow> buf_read mem off n)"

definition set_request_body ::
  "bool \<Rightarrow> chain_pool \<Rightarrow> nat \<Rightarrow> nat \<Rightarrow> nat option \<Rightarrow> nat \<Rightarrow> nat \<Rightarrow> nat \<Rightarrow> 'g buffers \<Rightarrow> (hfunc_ret \<times> 'g buffers) option" where
  "set_request_body dbg P rb_size tag p len offset lim st =
     (if offset = 0 \<and> lim = 0 \<and> len > 0
      then do {
        body \<leftarrow> slice_bytes (bf_mem st) p len;
        r \<leftarrow> ngx_http_wasm_prepend_req_body P rb_size tag body st;
        set_buffer_ret dbg r }
      else do {
        body \<leftarrow> slice_bytes (bf_mem st) p (min len lim);
        r \<leftarrow> ngx_http_wasm_set_req_body dbg P rb_size tag body offset lim st;
        set_buffer_ret dbg r })"

definition set_response_body ::
  "bool \<Rightarrow> chain_pool \<Rightarrow> nat \<Rightarrow> nat option \<Rightarrow> nat \<Rightarrow> nat \<Rightarrow> nat \<Rightarrow> 'g buffers \<Rightarrow> (hfunc_ret \<times> 'g buffers) option" where
  "set_response_body dbg P tag p len offset lim st =
     (if offset = 0 \<and> lim = 0 \<and> len > 0
      then do {
        body \<leftarrow> slice_bytes (bf_mem st) p len;
        r \<leftarrow> ngx_http_wasm_prepend_resp_body dbg P tag body st;
        set_buffer_ret dbg r }
      else do {
        body \<leftarrow> slice_bytes (bf_mem st) p (min len lim);
        r \<leftarrow> ngx_http_wasm_set_resp_body dbg P tag len body offset lim st;
        set_buffer_ret dbg r })"

definition ngx_proxy_wasm_hfuncs_set_buffer ::
  "bool \<Rightarrow> chain_pool \<Rightarrow> nat \<Rightarrow> nat \<Rightarrow> pw_step \<Rightarrow> buffer_type \<Rightarrow> u32 \<Rightarrow> u32 \<Rightarrow> u32 \<Rightarrow> u32 \<Rightarrow> 'g buffers \<Rightarrow> (hfunc_ret \<times> 'g buffers) option" where
  "ngx_proxy_wasm_hfuncs_set_buffer dbg P rb_size tag stp t offset_arg max_arg data_ptr data_len st =
     (case ngx_wavm_memory_lift (bf_mem st) data_ptr data_len 1 of
        None \<Rightarrow> Some (Bad_usage, st)
      | Some p \<Rightarrow>
          let offset = size_arg offset_arg; len = size_arg data_len; lim = set_buffer_max offset (size_arg max_arg) len in
          (case t of
             BUFFER_HTTP_REQUEST_BODY \<Rightarrow>
               if stp \<noteq> STEP_REQ_HEADERS \<and> stp \<noteq> STEP_REQ_BODY then Some (Bad_usage, st)
               else set_request_body dbg P rb_size tag p len offset lim st
           | BUFFER_HTTP_RESPONSE_BODY \<Rightarrow>
               if stp \<noteq> STEP_RESP_BODY then Some (Bad_usage, st)
               else set_response_body dbg P tag p len offset lim st
           | _ \<Rightarrow> Some (Result RESULT_BAD_ARGUMENT, st)))"

end
