(* ===== verification/Host_Buffers_Props.thy ===== *)
theory Host_Buffers_Props
  imports Host_Buffers
begin

text \<open>
  Properties of the host functions on bodies: what a guest reads and writes, and where a read leaves the memory that was allocated
  for it.
\<close>

section \<open>Writing the request body\<close>

definition rb_first :: "'g buffers \<Rightarrow> nat option" where
  "rb_first st = (case request_body st of None \<Rightarrow> None | Some p \<Rightarrow> p)"

definition body_ok :: "'g buffers \<Rightarrow> nat list \<Rightarrow> nat list \<Rightarrow> bool" where
  "body_ok st as fs \<longleftrightarrow> chain (bf_links st) (rb_first st) as \<and> chain (bf_links st) (free_bufs st) fs \<and> distinct (as @ fs) \<and>
     tidy (bufs (bf_links st) as) \<and> fst (buf_lens (bufs (bf_links st) as)) = length (contents (bufs (bf_links st) as))"

definition body_bytes :: "'g buffers \<Rightarrow> nat list \<Rightarrow> bytes" where
  "body_bytes st as = contents (bufs (bf_links st) as)"

lemma get_request_body:
  "get_request_body P n st = (r, st1) \<Longrightarrow> r = None \<and> \<not> pool_gives P (bf_links st) \<or> r = Some (rb_first st) \<and> bf_links st1 = bf_links st \<and> free_bufs st1 = free_bufs st"
  by (auto simp: get_request_body_def rb_first_def pool_gives_def split: option.split_asm if_split_asm)

lemma chain_len_whole:
  "chain h p as \<Longrightarrow> ngx_wasm_chain_len h p = Some (fst (buf_lens (bufs h as)), snd (buf_lens (bufs h as)))"
  by (simp add: ngx_wasm_chain_len_def chain_len_loop)

text \<open>What an operation on the request body makes of it.\<close>

definition body_result :: "bool \<Rightarrow> bytes \<Rightarrow> (ngx_rc \<times> 'g buffers) option \<Rightarrow> bool" where
  "body_result g bs res \<longleftrightarrow> (\<exists>rc st1. res = Some (rc, st1) \<and>
     (rc = NGX_ERROR \<and> \<not> g \<or> rc = NGX_OK \<and> (\<exists>as fs. body_ok st1 as fs \<and> body_bytes st1 as = bs \<and> body_length_n st1 = length bs)))"

lemma body_resultI:
  "res = Some (NGX_OK, st1) \<Longrightarrow> body_ok st1 as fs \<Longrightarrow> body_bytes st1 as = bs \<Longrightarrow> body_length_n st1 = length bs \<Longrightarrow> body_result g bs res"
  by (auto simp: body_result_def)

lemma set_req_body:
  assumes P: "pool_laws P" and st: "body_ok st as fs" and e: "\<not> entered_header_filter st"
  shows "body_result (pool_gives P (bf_links st)) (take at (body_bytes st as) @ take lim body) (ngx_http_wasm_set_req_body dbg P n tag body at lim st)"
proof (cases "fst (get_request_body P n st)")
  case None
  then show ?thesis using e by (auto simp: body_result_def ngx_http_wasm_set_req_body_def split: prod.split dest: get_request_body)
next
  case (Some rb)
  then obtain st0 where g: "get_request_body P n st = (Some rb, st0)" by (cases "get_request_body P n st") auto
  from get_request_body [OF this] have st0: "rb = rb_first st" "bf_links st0 = bf_links st" "free_bufs st0 = free_bufs st" by auto
  from st have ok: "chain (bf_links st) (rb_first st) as" "chain (bf_links st) (free_bufs st) fs" "distinct (as @ fs)" "tidy (bufs (bf_links st) as)"
    by (auto simp: body_ok_def)
  from chain_append_spec [OF P ok, of dbg at "take lim body" tag] obtain rc p1 free1 h1 where
    app: "ngx_wasm_chain_append dbg P (rb_first st) at (take lim body) (free_bufs st) tag (bf_links st) = Some (rc, p1, free1, h1)" and
    res: "rc = NGX_ERROR \<and> \<not> pool_gives P (bf_links st) \<or> rc = NGX_OK \<and> (\<exists>as1 fs1. chain h1 p1 as1 \<and> chain h1 free1 fs1 \<and> distinct (as1 @ fs1) \<and> tidy (bufs h1 as1) \<and>
       contents (bufs h1 as1) = take at (contents (bufs (bf_links st) as)) @ take lim body \<and> ends (bufs h1 as1) = ends (bufs (bf_links st) as) \<and>
       fst (buf_lens (bufs h1 as1)) = length (contents (bufs h1 as1)))" by blast
  from res show ?thesis
  proof
    assume "rc = NGX_ERROR \<and> \<not> pool_gives P (bf_links st)"
    with e g st0 app show ?thesis by (simp add: body_result_def ngx_http_wasm_set_req_body_def Let_def)
  next
    assume "rc = NGX_OK \<and> (\<exists>as1 fs1. chain h1 p1 as1 \<and> chain h1 free1 fs1 \<and> distinct (as1 @ fs1) \<and> tidy (bufs h1 as1) \<and>
       contents (bufs h1 as1) = take at (contents (bufs (bf_links st) as)) @ take lim body \<and> ends (bufs h1 as1) = ends (bufs (bf_links st) as) \<and>
       fst (buf_lens (bufs h1 as1)) = length (contents (bufs h1 as1)))"
    then obtain as1 fs1 where rc: "rc = NGX_OK" and a: "chain h1 p1 as1" "chain h1 free1 fs1" "distinct (as1 @ fs1)" "tidy (bufs h1 as1)"
      "contents (bufs h1 as1) = take at (contents (bufs (bf_links st) as)) @ take lim body"
      "fst (buf_lens (bufs h1 as1)) = length (contents (bufs h1 as1))" by blast
    let ?st = "st0\<lparr>request_body := Some p1, free_bufs := free1, bf_links := h1, body_length_n := fst (buf_lens (bufs h1 as1))\<rparr>"
    have "ngx_http_wasm_set_req_body dbg P n tag body at lim st = Some (NGX_OK, ?st)"
      using e g st0 app rc chain_len_whole [OF a(1)] by (simp add: ngx_http_wasm_set_req_body_def Let_def case_prod_beta)
    then show ?thesis by (rule body_resultI [where as = as1 and fs = fs1]) (use a in \<open>simp_all add: body_ok_def rb_first_def body_bytes_def\<close>)
  qed
qed

lemma prepend_req_body:
  assumes P: "pool_laws P" and st: "body_ok st as fs" and e: "\<not> entered_header_filter st" and b: "body \<noteq> []"
  shows "body_result (pool_gives P (bf_links st)) (body @ body_bytes st as) (ngx_http_wasm_prepend_req_body P n tag body st)"
proof (cases "fst (get_request_body P n st)")
  case None
  then show ?thesis using e by (auto simp: body_result_def ngx_http_wasm_prepend_req_body_def split: prod.split dest: get_request_body)
next
  case (Some rb)
  then obtain st0 where g: "get_request_body P n st = (Some rb, st0)" by (cases "get_request_body P n st") auto
  from get_request_body [OF this] have st0: "rb = rb_first st" "bf_links st0 = bf_links st" "free_bufs st0 = free_bufs st" by auto
  from st have ok: "chain (bf_links st) (rb_first st) as" "chain (bf_links st) (free_bufs st) fs" "distinct (as @ fs)"
    by (auto simp: body_ok_def)
  from chain_prepend_spec [OF P ok, of body tag] obtain rc p1 free1 h1 where
    pre: "ngx_wasm_chain_prepend P (rb_first st) body (free_bufs st) tag (bf_links st) = Some (rc, p1, free1, h1)" and
    res: "rc = NGX_ERROR \<and> \<not> pool_gives P (bf_links st) \<or> rc = NGX_OK \<and> (\<exists>a fs1 b. chain h1 p1 (a # as) \<and> chain h1 free1 fs1 \<and> distinct ((a # as) @ fs1) \<and>
       bufs h1 (a # as) = b\<lparr>b_data := body\<rparr> # bufs (bf_links st) as \<and> fresh_buf (length body) b)" by blast
  show ?thesis
  proof (cases "rc = NGX_ERROR")
    case True
    with e g st0 pre res show ?thesis by (simp add: body_result_def ngx_http_wasm_prepend_req_body_def Let_def)
  next
    case False
    with res obtain a fs1 b where rc: "rc = NGX_OK" and a: "chain h1 p1 (a # as)" "chain h1 free1 fs1" "distinct ((a # as) @ fs1)"
      "bufs h1 (a # as) = b\<lparr>b_data := body\<rparr> # bufs (bf_links st) as" "fresh_buf (length body) b" by blast
    let ?st = "st0\<lparr>request_body := Some p1, free_bufs := free1, bf_links := h1, body_length_n := fst (buf_lens (bufs h1 (a # as)))\<rparr>"
    have "ngx_http_wasm_prepend_req_body P n tag body st = Some (NGX_OK, ?st)"
      using e g st0 pre rc chain_len_whole [OF a(1)] by (simp add: ngx_http_wasm_prepend_req_body_def Let_def case_prod_beta del: bufs_simps)
    then show ?thesis
      by (rule body_resultI [where as = "a # as" and fs = fs1])
        (use a st b in \<open>auto simp: rb_first_def body_ok_def body_bytes_def tidy_Cons full_buf_def fresh_buf_def ngx_buf_size_def
          simp del: bufs_simps\<close>)
  qed
qed

lemma set_buffer_ret:
  assumes "body_result g bs res"
  shows "\<exists>r st1. Option.bind res (set_buffer_ret dbg) = Some (Result r, st1) \<and> (r = RESULT_INTERNAL_FAILURE \<and> \<not> g \<or>
    r = RESULT_OK \<and> (\<exists>as fs. body_ok st1 as fs \<and> body_length_n st1 = length (body_bytes st1 as) \<and> body_bytes st1 as = bs))"
  using assms unfolding body_result_def set_buffer_ret_def by fastforce

text \<open>
  C26. Writing the request body: a guest that sets the bytes of the buffer during the request replaces everything behind the offset with its data (no more than the given
  number of bytes), or, with offset and number both 0, puts its data in front. The body then holds exactly these bytes, in a
  well-formed chain, and the content length of the request is their number. This is what happens unless an allocation fails, which is reported as an internal failure.
\<close>

theorem set_buffer_request_body:
  assumes P: "pool_laws P" and st: "body_ok st as fs" "\<not> entered_header_filter st" and s: "stp = STEP_REQ_HEADERS \<or> stp = STEP_REQ_BODY"
    and len: "data_len < 0x80000000" and p: "ngx_wavm_memory_lift (bf_mem st) data_ptr data_len 1 = Some (Some off)"
  shows "\<exists>r st1. ngx_proxy_wasm_hfuncs_set_buffer dbg P n tag stp BUFFER_HTTP_REQUEST_BODY offset lim data_ptr data_len st = Some (Result r, st1) \<and>
    (r = RESULT_INTERNAL_FAILURE \<and> \<not> pool_gives P (bf_links st) \<or>
     r = RESULT_OK \<and> (\<exists>as1 fs1. body_ok st1 as1 fs1 \<and> body_length_n st1 = length (body_bytes st1 as1) \<and>
       body_bytes st1 as1 =
         (let data = read_slice (bf_mem st) (Some off) data_len; at = size_arg offset; m = size_arg lim in
          if at = 0 \<and> m = 0 \<and> data \<noteq> [] then data @ body_bytes st as
          else take at (body_bytes st as) @ take (if 0 < at \<and> m = 0 then length data else m) data)))"
proof -
  let ?data = "read_slice (bf_mem st) (Some off) data_len"
  let ?at = "size_arg offset"
  let ?lim = "set_buffer_max ?at (size_arg lim) (unat data_len)"
  have l: "size_arg data_len = unat data_len" "length ?data = unat data_len" using len length_read_slice [OF p] by (simp_all add: size_arg_def)
  have rd: "slice_bytes (bf_mem st) (Some off) k = Some (take k ?data)" if "k \<le> unat data_len" for k
    using memory_lift_bounds [OF p] that by (simp add: slice_bytes_def buf_read_def read_slice_def min_def)
  have run: "ngx_proxy_wasm_hfuncs_set_buffer dbg P n tag stp BUFFER_HTTP_REQUEST_BODY offset lim data_ptr data_len st =
      set_request_body dbg P n tag (Some off) (unat data_len) ?at ?lim st"
    using s p l by (auto simp: ngx_proxy_wasm_hfuncs_set_buffer_def Let_def)
  show ?thesis
  proof (cases "?at = 0 \<and> ?lim = 0 \<and> unat data_len > 0")
    case True
    then have d: "?data \<noteq> []" "size_arg lim = 0" and cond: "?at = 0" "?lim = 0" "0 < unat data_len" using l by (auto simp: set_buffer_max_def)
    have "set_request_body dbg P n tag (Some off) (unat data_len) ?at ?lim st =
        Option.bind (ngx_http_wasm_prepend_req_body P n tag ?data st) (set_buffer_ret dbg)"
      using rd [of "unat data_len"] l cond d(2) by (simp add: set_request_body_def set_buffer_max_def)
    with set_buffer_ret [OF prepend_req_body [OF P st d(1), of n tag], of dbg] run True d show ?thesis by (simp add: Let_def)
  next
    case False
    let ?body = "take (min (unat data_len) ?lim) ?data"
    have "set_request_body dbg P n tag (Some off) (unat data_len) ?at ?lim st =
        Option.bind (ngx_http_wasm_set_req_body dbg P n tag ?body ?at ?lim st) (set_buffer_ret dbg)"
      using False rd [of "min (unat data_len) ?lim"] by (auto simp: set_request_body_def)
    moreover have "take ?lim ?body = take (if 0 < ?at \<and> size_arg lim = 0 then length ?data else size_arg lim) ?data"
      "\<not> (?at = 0 \<and> size_arg lim = 0 \<and> ?data \<noteq> [])"
      using l False by (auto simp: set_buffer_max_def min_def)
    ultimately show ?thesis
      using set_buffer_ret [OF set_req_body [OF P st, of ?at ?lim ?body dbg n tag], of dbg] run by (simp only: Let_def if_False)
  qed
qed

section \<open>Reading\<close>

text \<open>A copy into memory that is there.\<close>

lemma lift_inside:
  assumes "p \<noteq> 0" and "unat p + n \<le> length mem" and "length mem < 2 ^ 32"
  shows "ngx_wavm_memory_lift mem p (of_nat n) 1 = Some (Some (unat p))" and "unat (p + of_nat n) = unat p + n"
proof -
  have n: "unat (of_nat n :: u32) = n" using assms by (intro unat_of_nat_u32) simp
  have "unat p + unat (of_nat n :: u32) < 2 ^ LENGTH(32)" using assms n by simp
  then have sum: "unat (p + of_nat n) = unat p + n" "p \<le> p + of_nat n"
    using unat_add_lem [of p "of_nat n"] no_olen_add_nat [of p "of_nat n"] n by simp_all
  then show "unat (p + of_nat n) = unat p + n" by simp
  from sum assms show "ngx_wavm_memory_lift mem p (of_nat n) 1 = Some (Some (unat p))" by (auto simp: ngx_wavm_memory_lift_def)
qed

lemma cpymem_inside:
  assumes "p \<noteq> 0" and "unat p + length bs \<le> length mem" and "length mem < 2 ^ 32"
  shows "ngx_wavm_memory_cpymem mem p bs =
    Some (p + of_nat (length bs), take (unat p) mem @ bs @ drop (unat p + length bs) mem)"
  using lift_inside(1) [OF assms] assms(2) by (simp add: ngx_wavm_memory_cpymem_def buf_write_def)

text \<open>Copying a whole chain.\<close>

lemma copy_chunks_whole:
  "chain h cl as \<Longrightarrow> \<not> ends (bufs h (butlast as)) \<Longrightarrow> len + length (contents (bufs h as)) \<le> lim \<Longrightarrow> p \<noteq> 0 \<Longrightarrow>
    unat p + length (contents (bufs h as)) \<le> length mem \<Longrightarrow> length mem < 2 ^ 32 \<Longrightarrow>
    copy_chunks h cl p len lim mem = Some (Result RESULT_OK,
      take (unat p) mem @ contents (bufs h as) @ drop (unat p + length (contents (bufs h as))) mem)"
proof (induction as arbitrary: cl p len mem)
  case Nil
  then show ?case by (subst copy_chunks.simps) simp
next
  case (Cons a as)
  then obtain l where l: "cl = Some a" "h a = Some l" "chain h (l_next l) as" by auto
  let ?c = "b_data (l_buf l)"
  let ?rest = "contents (bufs h as)"
  let ?q = "p + of_nat (length ?c)"
  let ?mem = "take (unat p) mem @ ?c @ drop (unat p + length ?c) mem"
  have fit: "unat p + length ?c + length ?rest \<le> length mem" "len + length ?c + length ?rest \<le> lim"
    using Cons.prems(3,5) l(2) by simp_all
  have q: "unat ?q = unat p + length ?c" using lift_inside(2) [of p "length ?c" mem] fit Cons.prems(4,6) by simp
  have pos: "0 < unat p" using Cons.prems(4) by (metis gr_zeroI unat_0 unat_eq_zero)
  then have "?q \<noteq> 0" using q by (metis add_gr_0 less_irrefl unat_0)
  have copy: "ngx_wavm_memory_cpymem mem p ?c = Some (?q, ?mem)"
    using cpymem_inside [of p ?c mem] fit Cons.prems(4,6) by simp
  have mem: "length ?mem = length mem" using fit by simp
  show ?case
  proof (cases "b_last_buf (l_buf l) \<or> b_last_in_chain (l_buf l)")
    case True
    then have "as = []" using Cons.prems(2) l(2) by (cases as) auto
    then show ?thesis using True l copy fit \<open>?q \<noteq> 0\<close> by (subst copy_chunks.simps) (auto simp: Let_def)
  next
    case False
    have "copy_chunks h cl p len lim mem = copy_chunks h (l_next l) ?q (len + length ?c) lim ?mem"
      using False l copy fit \<open>?q \<noteq> 0\<close> by (subst copy_chunks.simps) (auto simp: Let_def)
    also have "\<dots> = Some (Result RESULT_OK, take (unat ?q) ?mem @ ?rest @ drop (unat ?q + length ?rest) ?mem)"
      using Cons.prems(2,6) fit q mem \<open>?q \<noteq> 0\<close> by (intro Cons.IH [OF l(3)]) (auto split: if_split_asm simp del: length_append)
    finally show ?thesis using l(2) q fit by (simp add: ac_simps)
  qed
qed

text \<open>
  What a buffer holds: a string, or the bytes of a chain of buffers in memory, with nothing behind the last one. With more than one buffer the reader
  has to ask for all of them.
\<close>

fun source_holds :: "links \<Rightarrow> nat \<Rightarrow> buffer_source \<Rightarrow> bytes \<Rightarrow> bool" where
  "source_holds h lim (Source_string s) bs \<longleftrightarrow> bs = s"
| "source_holds h lim (Source_chain a) bs \<longleftrightarrow> (\<exists>as. chain h (Some a) as \<and> (\<forall>b \<in> set (bufs h as). b_memory b) \<and>
     \<not> ends (bufs h (butlast as)) \<and> bs = contents (bufs h as) \<and> (length as = 1 \<or> length bs \<le> lim))"
| "source_holds h lim (Source_ret r) bs \<longleftrightarrow> False"

lemma buf_lens_whole: "\<forall>b \<in> set bs. b_memory b \<Longrightarrow> \<not> ends (butlast bs) \<Longrightarrow> fst (buf_lens bs) = length (contents bs)"
  by (induction bs) (auto simp: ngx_buf_size_def split: if_split_asm)

lemma bufs_butlast: "bufs h (butlast as) = butlast (bufs h as)"
  by (simp add: bufs_def map_butlast)

lemma source_len_holds: "source_holds h lim src bs \<Longrightarrow> source_len h src = Some (length bs)"
  by (cases src) (auto simp: source_len_def bufs_butlast chain_len_whole buf_lens_whole simp del: chain.simps)

lemma copy_source_holds:
  assumes src: "source_holds h lim src bs" and p: "p \<noteq> 0" "unat p + min (length bs) lim \<le> length mem" "length mem < 2 ^ 32"
  shows "copy_source h src p (min (length bs) lim) lim mem = Some (Result RESULT_OK,
    take (unat p) mem @ take lim bs @ drop (unat p + min (length bs) lim) mem)"
proof -
  let ?n = "min (length bs) lim"
  have one: "buf_read bs 0 ?n = Some (take lim bs)" "length (take lim bs) = ?n" by (auto simp: buf_read_def min_def)
  have copy: "ngx_wavm_memory_cpymem mem p (take lim bs) = Some (p + of_nat ?n, take (unat p) mem @ take lim bs @ drop (unat p + ?n) mem)"
    using cpymem_inside [of p "take lim bs" mem] p one(2) by simp
  note single = one copy lift_inside(1) [OF p]
  show ?thesis
  proof (cases src)
    case (Source_string s)
    with src single show ?thesis by (simp add: copy_source_def)
  next
    case (Source_chain a)
    with src obtain as where as: "chain h (Some a) as" "\<not> ends (bufs h (butlast as))" "bs = contents (bufs h as)" "length as = 1 \<or> length bs \<le> lim"
      by auto
    then obtain bs' l where l: "as = a # bs'" "h a = Some l" "chain h (l_next l) bs'" by (cases as) auto
    show ?thesis
    proof (cases "l_next l")
      case None
      with l have "bs = b_data (l_buf l)" using as(3) by (cases bs') auto
      with Source_chain None l single show ?thesis by (simp add: copy_source_def)
    next
      case (Some b)
      with l as(4) have "length bs \<le> lim" by (cases bs') auto
      moreover from this p as(3) have "copy_chunks h (Some a) p 0 lim mem = Some (Result RESULT_OK,
          take (unat p) mem @ bs @ drop (unat p + length bs) mem)"
        using copy_chunks_whole [OF as(1,2), of 0 lim p mem] by simp
      ultimately show ?thesis using Source_chain Some l by (simp add: copy_source_def min_absorb1)
    qed
  qed (use src in simp)
qed

text \<open>
  C27. Reading a buffer: a guest that asks for a configuration or a body gets its first bytes, up to the limit it gives, in memory that it
  allocated for exactly that many, with the pointer and the length in the words it named. This holds for every offset the guest passes: the offset is
  only checked, and the bytes are read from the start.
\<close>

theorem get_buffer_reads:
  assumes r: "lift_u32 (bf_mem st) rbuf_ptr = Some rbuf" "lift_u32 (bf_mem st) rlen_ptr = Some rlen" "apart (rbuf, 4) (rlen, 4)"
    and src: "buffer_source_of dbg C t stp st = Some src" "source_holds (bf_links st) (size_arg lim) src bs"
    and n: "n = min (length bs) (size_arg lim)" "n \<noteq> 0" "size_arg offset + n < 2 ^ 64"
    and m: "h_malloc G n (bf_mem st) (bf_world st) = (p, mem1, w)" "malloc_gives n (bf_mem st) [rbuf, rlen] (p, mem1, w)"
  shows "\<exists>st1. ngx_proxy_wasm_hfuncs_get_buffer dbg G C stp t offset lim rbuf_ptr rlen_ptr st = Some (Result RESULT_OK, st1) \<and>
    buf_read (bf_mem st1) (unat p) n = Some (take n bs) \<and>
    buf_read (bf_mem st1) rbuf 4 = Some (le32 p) \<and> buf_read (bf_mem st1) rlen 4 = Some (le32 (of_nat n))"
proof -
  have ns: "\<forall>x. src \<noteq> Source_ret x" using src(2) by auto
  have mg: "p \<noteq> 0" "length (bf_mem st) \<le> length mem1" "length mem1 < 2 ^ 32" "unat p + n \<le> length mem1"
    "apart (unat p, n) (rbuf, 4)" "apart (unat p, n) (rlen, 4)" using m(2) by (simp_all add: malloc_gives_def)
  have b: "rbuf + 4 \<le> length mem1" "rlen + 4 \<le> length mem1" using lift_u32_bounds [OF r(1)] lift_u32_bounds [OF r(2)] mg(2) by simp_all
  obtain mem2 where mem2: "buf_write mem1 rbuf (le32 p) = Some mem2" using buf_write_ok [of rbuf "le32 p" mem1] b by auto
  have l2: "length mem2 = length mem1" using length_buf_write [OF mem2] .
  obtain mem3 where mem3: "buf_write mem2 rlen (le32 (of_nat n)) = Some mem3" using buf_write_ok [of rlen "le32 (of_nat n)" mem2] b l2 by auto
  have l3: "length mem3 = length mem1" using length_buf_write [OF mem3] l2 by simp
  let ?mem = "take (unat p) mem3 @ take n bs @ drop (unat p + n) mem3"
  have bs: "take (size_arg lim) bs = take n bs" "length (take n bs) = n" using n(1) by (auto simp: min_def)
  have copy: "copy_source (bf_links st) src p n (size_arg lim) mem3 = Some (Result RESULT_OK, ?mem)"
    using copy_source_holds [OF src(2) mg(1), of mem3] mg(3,4) l3 n(1) bs by simp
  have w: "buf_write mem3 (unat p) (take n bs) = Some ?mem" using mg(4) l3 bs by (simp add: buf_write_def)
  have "ngx_proxy_wasm_hfuncs_get_buffer dbg G C stp t offset lim rbuf_ptr rlen_ptr st =
      Some (Result RESULT_OK, st\<lparr>bf_mem := ?mem, bf_world := w\<rparr>)"
    using r src(1) n(2,3) m(1) mg(1) mem2 mem3 copy source_len_holds [OF src(2)] ns
    by (cases src) (simp_all add: ngx_proxy_wasm_hfuncs_get_buffer_def Let_def n(1) [symmetric])
  moreover have "buf_read ?mem (unat p) n = Some (take n bs)" using buf_read_written [OF w] bs by simp
  moreover have "buf_read ?mem rbuf 4 = Some (le32 p)" "buf_read ?mem rlen 4 = Some (le32 (of_nat n))"
    using buf_read_kept [OF w] mg(5,6) bs buf_read_kept [OF mem3, of rbuf 4] buf_read_written [OF mem3] buf_read_written [OF mem2] r(3)
    by (auto simp: apart_def)
  ultimately show ?thesis by auto
qed

text \<open>
  C29. A read that asks for fewer bytes than the first of several buffers has writes behind the memory that was allocated for it: the copy sets its count
  back to 0 where it means to stop, goes on with the next buffer, and puts its bytes behind the end.
\<close>

theorem get_buffer_overruns:
  assumes r: "lift_u32 (bf_mem st) rbuf_ptr = Some rbuf" "lift_u32 (bf_mem st) rlen_ptr = Some rlen"
    and src: "buffer_source_of dbg C t stp st = Some (Source_chain a)" "chain (bf_links st) (Some a) [a, b]"
    and bs: "bufs (bf_links st) [a, b] = [A, B]" "b_memory A" "b_memory B" "\<not> b_last_buf A" "\<not> b_last_in_chain A"
    and n: "n = size_arg lim" "0 < n" "n < length (b_data A)" "b_data B \<noteq> []" "length (b_data B) \<le> n" "size_arg offset + n < 2 ^ 64"
    and m: "h_malloc G n (bf_mem st) (bf_world st) = (p, mem1, w)" "p \<noteq> 0" "length (bf_mem st) \<le> length mem1"
      "unat p + n + length (b_data B) \<le> length mem1" "length mem1 < 2 ^ 32"
  shows "\<exists>st1. ngx_proxy_wasm_hfuncs_get_buffer dbg G C stp t offset lim rbuf_ptr rlen_ptr st = Some (Result RESULT_OK, st1) \<and>
    buf_read (bf_mem st1) (unat p + n) (length (b_data B)) = Some (b_data B)"
proof -
  obtain la lb where l: "bf_links st a = Some la" "bf_links st b = Some lb" "l_next la = Some b" "l_next lb = None" "l_buf la = A" "l_buf lb = B"
    using src(2) bs(1) by auto
  have len: "ngx_wasm_chain_len (bf_links st) (Some a) = Some (length (b_data A) + length (b_data B), b_last_buf B \<or> b_last_in_chain B)"
    using chain_len_whole [OF src(2)] bs by (simp add: ngx_buf_size_def)
  have bd: "rbuf + 4 \<le> length mem1" "rlen + 4 \<le> length mem1" using lift_u32_bounds [OF r(1)] lift_u32_bounds [OF r(2)] m(3) by simp_all
  obtain mem2 where mem2: "buf_write mem1 rbuf (le32 p) = Some mem2" using buf_write_ok [of rbuf "le32 p" mem1] bd by auto
  obtain mem3 where mem3: "buf_write mem2 rlen (le32 (of_nat n)) = Some mem3"
    using buf_write_ok [of rlen "le32 (of_nat n)" mem2] bd length_buf_write [OF mem2] by auto
  have l3: "length mem3 = length mem1" using length_buf_write [OF mem3] length_buf_write [OF mem2] by simp
  let ?q = "p + of_nat n"
  let ?mem4 = "take (unat p) mem3 @ take n (b_data A) @ drop (unat p + n) mem3"
  have q: "unat ?q = unat p + n" using lift_inside(2) [of p n mem3] m l3 by simp
  then have q0: "?q \<noteq> 0" "?q + of_nat (length (b_data B)) \<noteq> 0"
    using lift_inside(2) [of ?q "length (b_data B)" mem3] m(4,5) l3 n(2,4) by (auto simp: unat_eq_zero [symmetric])
  have c1: "ngx_wavm_memory_cpymem mem3 p (take n (b_data A)) = Some (?q, ?mem4)"
    using cpymem_inside [of p "take n (b_data A)" mem3] m l3 n(3) by simp
  have l4: "length ?mem4 = length mem1" using l3 m(4) n(3) by simp
  let ?mem5 = "take (unat ?q) ?mem4 @ b_data B @ drop (unat ?q + length (b_data B)) ?mem4"
  have c2: "ngx_wavm_memory_cpymem ?mem4 ?q (b_data B) = Some (?q + of_nat (length (b_data B)), ?mem5)"
    using cpymem_inside [of ?q "b_data B" ?mem4] q q0 m l4 by simp
  have "copy_chunks (bf_links st) (Some b) ?q 0 n ?mem4 = Some (Result RESULT_OK, ?mem5)"
    using l c2 q0 n(4,5) by (subst copy_chunks.simps, subst copy_chunks.simps) (simp add: Let_def)
  then have "copy_chunks (bf_links st) (Some a) p 0 n mem3 = Some (Result RESULT_OK, ?mem5)"
    using l bs c1 q0 n(2,3) by (subst copy_chunks.simps) (simp add: Let_def)
  then have "ngx_proxy_wasm_hfuncs_get_buffer dbg G C stp t offset lim rbuf_ptr rlen_ptr st = Some (Result RESULT_OK, st\<lparr>bf_mem := ?mem5, bf_world := w\<rparr>)"
    using r src(1) n m(1,2) mem2 mem3 len l
    by (simp add: ngx_proxy_wasm_hfuncs_get_buffer_def Let_def source_len_def copy_source_def min_absorb2)
  moreover have "buf_write ?mem4 (unat ?q) (b_data B) = Some ?mem5" using m(4) l4 q by (simp add: buf_write_def)
  ultimately show ?thesis using buf_read_written [OF _ refl] q by (auto simp del: append_assoc)
qed

section \<open>Concrete instances\<close>

definition demo_buf :: "bytes \<Rightarrow> ngx_buf" where
  "demo_buf bs = no_buf\<lparr>b_data := bs, b_memory := True, b_cap := Some (length bs)\<rparr>"

definition demo_links :: links where
  "demo_links = [1 \<mapsto> \<lparr>l_buf = demo_buf [1, 2, 3], l_next = Some 2\<rparr>, 2 \<mapsto> \<lparr>l_buf = demo_buf [4], l_next = None\<rparr>]"

definition demo_buffers :: "unit buffers" where
  "demo_buffers = \<lparr>bf_mem = replicate 64 7, bf_world = (), bf_links = demo_links, free_bufs = None, request_body = Some (Some 1), body_in_file = False,
     body_length_n = 4, resp_chunk = Some 1, resp_chunk_len = 4, resp_chunk_eof = False, dispatch_body = None, foreign_args = None,
     entered_header_filter = False, entered_body_filter = False, entered_log_phase = False\<rparr>"

definition demo_malloc :: "unit hguest" where
  "demo_malloc = \<lparr>h_malloc = (\<lambda>n mem w. (16, mem, w))\<rparr>"

definition demo_confs :: confs where
  "demo_confs = \<lparr>plugin_conf = [9, 8, 7], vm_conf = [], upstreams = (NGX_DECLINED, [])\<rparr>"

lemma demo_pool_laws: "pool_laws demo_pool"
  by (simp add: pool_laws_def demo_pool_def)

theorem set_buffer_request_body_witness:
  "\<exists>r st1. ngx_proxy_wasm_hfuncs_set_buffer True demo_pool 1 9 STEP_REQ_BODY BUFFER_HTTP_REQUEST_BODY 2 5 8 3 demo_buffers = Some (Result r, st1) \<and>
    r = RESULT_OK \<and> (\<exists>as1 fs1. body_ok st1 as1 fs1 \<and> body_bytes st1 as1 = [1, 2, 7, 7, 7])"
proof -
  have st: "body_ok demo_buffers [1, 2] []" "\<not> entered_header_filter demo_buffers"
    by (simp_all add: body_ok_def demo_buffers_def demo_links_def demo_buf_def no_buf_def rb_first_def tidy_def full_buf_def ngx_buf_size_def)
  have p: "ngx_wavm_memory_lift (bf_mem demo_buffers) 8 3 1 = Some (Some 8)" by code_simp
  have len: "(3 :: u32) < 0x80000000" by simp
  have "read_slice (bf_mem demo_buffers) (Some 8) 3 = [7, 7, 7]" "size_arg 2 = 2" "size_arg 5 = 5" by code_simp+
  moreover have "body_bytes demo_buffers [1, 2] = [1, 2, 3, 4]"
    by (simp add: body_bytes_def demo_buffers_def demo_links_def demo_buf_def)
  moreover have "pool_gives demo_pool (bf_links demo_buffers)"
    by (auto simp: pool_gives_def demo_pool_def demo_buffers_def demo_links_def)
  ultimately show ?thesis
    using set_buffer_request_body [OF demo_pool_laws st disjI2 [OF refl] len p, where dbg = True and n = 1 and tag = 9 and offset = 2 and lim = 5]
    by (auto simp: Let_def)
qed

theorem get_buffer_reads_witness:
  "\<exists>st1. ngx_proxy_wasm_hfuncs_get_buffer True demo_malloc demo_confs STEP_LOG BUFFER_PLUGIN_CONFIGURATION 1 2 4 8 demo_buffers = Some (Result RESULT_OK, st1) \<and>
    buf_read (bf_mem st1) 16 2 = Some [9, 8]"
proof -
  have r: "lift_u32 (bf_mem demo_buffers) 4 = Some 4" "lift_u32 (bf_mem demo_buffers) 8 = Some 8" "apart (4, 4) (8, 4)" by code_simp+
  have src: "buffer_source_of True demo_confs BUFFER_PLUGIN_CONFIGURATION STEP_LOG demo_buffers = Some (Source_string [9, 8, 7])"
    "source_holds (bf_links demo_buffers) (size_arg 2) (Source_string [9, 8, 7]) [9, 8, 7]"
    by (simp_all add: buffer_source_of_def demo_confs_def)
  have n: "2 = min (length [9, 8, 7 :: byte]) (size_arg 2)" "(2 :: nat) \<noteq> 0" "size_arg 1 + 2 < 2 ^ 64" by (simp_all add: size_arg_def)
  have m: "h_malloc demo_malloc 2 (bf_mem demo_buffers) (bf_world demo_buffers) = (16, bf_mem demo_buffers, ())"
    "malloc_gives 2 (bf_mem demo_buffers) [4, 8] (16, bf_mem demo_buffers, ())"
    by (simp_all add: demo_malloc_def demo_buffers_def malloc_gives_def apart_def)
  have "unat (16 :: u32) = 16" by simp
  with get_buffer_reads [OF r src n m] show ?thesis by auto
qed

theorem get_buffer_overruns_witness:
  "\<exists>st1. ngx_proxy_wasm_hfuncs_get_buffer True demo_malloc demo_confs STEP_RESP_BODY BUFFER_HTTP_RESPONSE_BODY 0 1 4 8 demo_buffers = Some (Result RESULT_OK, st1) \<and>
    buf_read (bf_mem st1) 17 1 = Some [4]"
proof -
  have r: "lift_u32 (bf_mem demo_buffers) 4 = Some 4" "lift_u32 (bf_mem demo_buffers) 8 = Some 8" by code_simp+
  have src: "buffer_source_of True demo_confs BUFFER_HTTP_RESPONSE_BODY STEP_RESP_BODY demo_buffers = Some (Source_chain 1)"
    "chain (bf_links demo_buffers) (Some 1) [1, 2]" "bufs (bf_links demo_buffers) [1, 2] = [demo_buf [1, 2, 3], demo_buf [4]]"
    by (simp_all add: buffer_source_of_def ngx_proxy_wasm_get_buffer_helper_def demo_buffers_def demo_links_def)
  have b: "b_memory (demo_buf [1, 2, 3])" "b_memory (demo_buf [4])" "\<not> b_last_buf (demo_buf [1, 2, 3])" "\<not> b_last_in_chain (demo_buf [1, 2, 3])"
    by code_simp+
  have n: "1 = size_arg 1" "(0 :: nat) < 1" "1 < length (b_data (demo_buf [1, 2, 3]))" "b_data (demo_buf [4]) \<noteq> []"
    "length (b_data (demo_buf [4])) \<le> 1" "size_arg 0 + 1 < 2 ^ 64" by (simp_all add: size_arg_def demo_buf_def)
  have m: "h_malloc demo_malloc 1 (bf_mem demo_buffers) (bf_world demo_buffers) = (16, bf_mem demo_buffers, ())" "(16 :: u32) \<noteq> 0"
    "length (bf_mem demo_buffers) \<le> length (bf_mem demo_buffers)" "unat (16 :: u32) + 1 + length (b_data (demo_buf [4])) \<le> length (bf_mem demo_buffers)"
    "length (bf_mem demo_buffers) < 2 ^ 32"
    by (simp_all add: demo_malloc_def demo_buffers_def demo_buf_def)
  have "b_data (demo_buf [4]) = [4]" "unat (16 :: u32) = 16" by (simp_all add: demo_buf_def)
  with get_buffer_overruns [OF r src b n m] show ?thesis by auto
qed

end
