(* ===== verification/Http_Escape.thy ===== *)
theory Http_Escape
  imports Wasmx_Prelude "HOL-Library.Monad_Syntax"
begin

text \<open>
  Escaping of bytes in URIs and headers (src/src/http/ngx_http_wasm_escape.c, and \<open>ngx_http_copy_escaped\<close> of
  src/src/http/ngx_http_wasm_util.c), which every header name and value that a guest sets goes through. Each kind has a table of 256 bits. The function is called twice:
  without a destination it counts the bytes to escape, with one it writes.
\<close>

section \<open>Definitions\<close>

datatype escape_kind = ESCAPE_URI | ESCAPE_URI_COMPONENT | ESCAPE_ARGS | ESCAPE_HEADER_NAME | ESCAPE_HEADER_VALUE

fun escape_map :: "escape_kind \<Rightarrow> u32 list" where
  "escape_map ESCAPE_URI =
     [0xffffffff, 0x80000029, 0x00000000, 0x80000000, 0xffffffff, 0xffffffff, 0xffffffff, 0xffffffff]"
| "escape_map ESCAPE_URI_COMPONENT =
     [0xffffffff, 0xfc00987d, 0x78000001, 0xb8000001, 0xffffffff, 0xffffffff, 0xffffffff, 0xffffffff]"
| "escape_map ESCAPE_ARGS =
     [0xffffffff, 0x80000829, 0x00000000, 0x80000000, 0xffffffff, 0xffffffff, 0xffffffff, 0xffffffff]"
| "escape_map ESCAPE_HEADER_NAME =
     [0xffffffff, 0xfc009305, 0x38000001, 0xa8000000, 0xffffffff, 0xffffffff, 0xffffffff, 0xffffffff]"
| "escape_map ESCAPE_HEADER_VALUE =
     [0xfffffdff, 0x00000000, 0x00000000, 0x80000000, 0x00000000, 0x00000000, 0x00000000, 0x00000000]"

text \<open>\<open>escape[*src >> 5] & (1 << (*src & 0x1f))\<close>\<close>

definition must_escape :: "escape_kind \<Rightarrow> byte \<Rightarrow> bool" where
  "must_escape kind b = bit (escape_map kind ! unat (drop_bit 5 b)) (unat (b AND 0x1f))"

text \<open>The table \<open>hex\<close>: \<open>0123456789ABCDEF\<close>.\<close>

definition hex :: bytes where
  "hex = [48, 49, 50, 51, 52, 53, 54, 55, 56, 57, 65, 66, 67, 68, 69, 70]"

fun escape_count :: "escape_kind \<Rightarrow> bytes \<Rightarrow> nat" where
  "escape_count kind [] = 0"
| "escape_count kind (b # src) = (if must_escape kind b then Suc (escape_count kind src) else escape_count kind src)"

fun escape_write :: "escape_kind \<Rightarrow> bytes \<Rightarrow> nat \<Rightarrow> bytes \<Rightarrow> bytes option" where
  "escape_write kind buf pos [] = Some buf"
| "escape_write kind buf pos (b # src) =
     (if must_escape kind b
      then do {
        buf1 \<leftarrow> buf_write buf pos [37, hex ! unat (drop_bit 4 b), hex ! unat (b AND 0xf)];
        escape_write kind buf1 (pos + 3) src }
      else do {
        buf1 \<leftarrow> buf_write buf pos [b];
        escape_write kind buf1 (pos + 1) src })"

text \<open>
  \<open>ngx_http_wasm_escape\<close>: the number that is returned, and the destination afterwards.
\<close>

definition ngx_http_wasm_escape :: "bytes option \<Rightarrow> bytes \<Rightarrow> escape_kind \<Rightarrow> (nat \<times> bytes option) option" where
  "ngx_http_wasm_escape dst src kind =
     (case dst of
        None \<Rightarrow> Some (escape_count kind src, None)
      | Some buf \<Rightarrow> map_option (\<lambda>b. (0, Some b)) (escape_write kind buf 0 src))"

text \<open>
  \<open>ngx_http_copy_escaped\<close>: \<open>alloc n\<close> is the block that the pool gives for \<open>n\<close> bytes, with arbitrary contents. An inner
  \<open>None\<close> is NULL. The result is the string; the terminating zero stands behind it.
\<close>

definition ngx_http_copy_escaped :: "(nat \<Rightarrow> bytes option) \<Rightarrow> bytes \<Rightarrow> escape_kind \<Rightarrow> bytes option option" where
  "ngx_http_copy_escaped alloc data kind = do {
     (n, _) \<leftarrow> ngx_http_wasm_escape None data kind;
     if n > 0
     then (let len = length data + 2 * n in
       case alloc (len + 1) of
         None \<Rightarrow> Some None
       | Some buf \<Rightarrow> do {
           (_, dst) \<leftarrow> ngx_http_wasm_escape (Some buf) data kind;
           buf1 \<leftarrow> dst;
           buf2 \<leftarrow> buf_write buf1 len [0];
           Some (Some (take len buf2)) })
     else Some (Some data) }"

section \<open>The escaped string\<close>

definition escape_byte :: "escape_kind \<Rightarrow> byte \<Rightarrow> bytes" where
  "escape_byte kind b =
     (if must_escape kind b then [37, hex ! unat (drop_bit 4 b), hex ! unat (b AND 0xf)] else [b])"

definition escaped :: "escape_kind \<Rightarrow> bytes \<Rightarrow> bytes" where
  "escaped kind src = concat (map (escape_byte kind) src)"

lemma escaped_Cons [simp]: "escaped kind (b # src) = escape_byte kind b @ escaped kind src"
  and escaped_Nil [simp]: "escaped kind [] = []"
  by (simp_all add: escaped_def)

lemma length_escaped: "length (escaped kind src) = length src + 2 * escape_count kind src"
  by (induction src) (auto simp: escape_byte_def)

lemma escape_write_Cons: "escape_write kind buf pos (b # src) =
    (case buf_write buf pos (escape_byte kind b) of
       None \<Rightarrow> None | Some buf1 \<Rightarrow> escape_write kind buf1 (pos + length (escape_byte kind b)) src)"
  by (simp add: escape_byte_def numeral_3_eq_3 split: option.split)

text \<open>The writing pass writes exactly the escaped string.\<close>

lemma escape_write_spec:
  "pos + length (escaped kind src) \<le> length buf \<Longrightarrow>
   escape_write kind buf pos src = Some (take pos buf @ escaped kind src @ drop (pos + length (escaped kind src)) buf)"
proof (induction src arbitrary: pos buf)
  case (Cons b src)
  let ?e = "escape_byte kind b"
  have w: "buf_write buf pos ?e = Some (take pos buf @ ?e @ drop (pos + length ?e) buf)"
    using Cons.prems by (simp add: buf_write_def)
  have len: "length (take pos buf @ ?e) = pos + length ?e" using Cons.prems by simp
  show ?case
    unfolding escape_write_Cons w option.case
    by (subst Cons.IH) (use Cons.prems len in \<open>simp_all add: ac_simps\<close>)
qed simp

lemma escape_count_0: "escape_count kind src = 0 \<Longrightarrow> escaped kind src = src"
  by (induction src) (auto simp: escape_byte_def split: if_splits)

section \<open>Properties of the tables\<close>

lemma byte_cases:
  assumes "list_all (\<lambda>n. P (of_nat n)) [0..<256]"
  shows "P (b :: byte)"
proof -
  have "unat b < 2 ^ LENGTH(8)" by (rule unsigned_less)
  then have "unat b \<in> set [0..<256]" by simp
  with assms have "P (of_nat (unat b))" unfolding list_all_iff by blast
  then show ?thesis by simp
qed

definition unhex :: "byte \<Rightarrow> byte" where
  "unhex c = (if c < 58 then c - 48 else c - 55)"

lemma unhex_hex: "push_bit 4 (unhex (hex ! unat (drop_bit 4 b))) OR unhex (hex ! unat (b AND 0xf)) = (b :: byte)"
  by (rule byte_cases [where P = "\<lambda>b. push_bit 4 (unhex (hex ! unat (drop_bit 4 b))) OR unhex (hex ! unat (b AND 0xf)) = b"]) code_simp

lemma hex_digits: "hex ! unat (drop_bit 4 b) \<in> set hex \<and> hex ! unat (b AND 0xf) \<in> set hex" for b :: byte
  by (rule byte_cases [where P = "\<lambda>b. hex ! unat (drop_bit 4 b) \<in> set hex \<and> hex ! unat (b AND 0xf) \<in> set hex"]) code_simp

text \<open>
  The characters of a token (RFC 7230): letters, digits and some punctuation. A header value has visible characters, spaces and
  tabs.
\<close>

definition tchar :: "byte \<Rightarrow> bool" where
  "tchar b \<longleftrightarrow> 48 \<le> b \<and> b \<le> 57 \<or> 65 \<le> b \<and> b \<le> 90 \<or> 97 \<le> b \<and> b \<le> 122 \<or>
     b \<in> set [33, 35, 36, 37, 38, 39, 42, 43, 45, 46, 94, 95, 96, 124, 126]"

definition value_char :: "byte \<Rightarrow> bool" where
  "value_char b \<longleftrightarrow> b = 9 \<or> 32 \<le> b \<and> b \<noteq> 127"

lemma header_name_table: "must_escape ESCAPE_HEADER_NAME b \<longleftrightarrow> \<not> tchar b"
  by (rule byte_cases [where P = "\<lambda>b. must_escape ESCAPE_HEADER_NAME b \<longleftrightarrow> \<not> tchar b"]) code_simp

lemma header_value_table: "must_escape ESCAPE_HEADER_VALUE b \<longleftrightarrow> \<not> value_char b"
  by (rule byte_cases [where P = "\<lambda>b. must_escape ESCAPE_HEADER_VALUE b \<longleftrightarrow> \<not> value_char b"]) code_simp

lemma hex_chars: "c \<in> set hex \<Longrightarrow> tchar c \<and> value_char c"
  by (auto simp: hex_def tchar_def value_char_def)

text \<open>Reading the escapes back.\<close>

fun unescape :: "bytes \<Rightarrow> bytes" where
  "unescape (c # h # l # bs) =
     (if c = 37 then (push_bit 4 (unhex h) OR unhex l) # unescape bs else c # unescape (h # l # bs))"
| "unescape bs = bs"

lemma unescape_plain: "c \<noteq> 37 \<Longrightarrow> unescape (c # bs) = c # unescape bs"
  by (cases bs rule: unescape.cases) auto

lemma unescape_escaped:
  assumes "must_escape kind 37"
  shows "unescape (escaped kind src) = src"
proof (induction src)
  case (Cons b src)
  show ?case
  proof (cases "must_escape kind b")
    case True
    with Cons show ?thesis by (simp add: escape_byte_def unhex_hex)
  next
    case False
    with assms have "b \<noteq> 37" by auto
    with Cons False show ?thesis by (simp add: escape_byte_def unescape_plain)
  qed
qed simp

lemma copy_escaped_spec:
  assumes "\<And>n buf. alloc n = Some buf \<Longrightarrow> length buf = n"
  shows "ngx_http_copy_escaped alloc data kind =
    (if escape_count kind data = 0 then Some (Some data)
     else if alloc (length data + 2 * escape_count kind data + 1) = None then Some None
     else Some (Some (escaped kind data)))"
proof (cases "escape_count kind data = 0 \<or> alloc (length data + 2 * escape_count kind data + 1) = None")
  case True
  then show ?thesis by (auto simp: ngx_http_copy_escaped_def ngx_http_wasm_escape_def)
next
  case False
  then obtain buf where buf: "alloc (length data + 2 * escape_count kind data + 1) = Some buf" by auto
  then have len: "length buf = length (escaped kind data) + 1" using assms [OF buf] by (simp add: length_escaped)
  then have "escape_write kind buf 0 data = Some (escaped kind data @ drop (length (escaped kind data)) buf)"
    using escape_write_spec [of 0 kind data buf] by simp
  with False buf len show ?thesis
    by (simp add: ngx_http_copy_escaped_def ngx_http_wasm_escape_def buf_write_def length_escaped Let_def)
qed

section \<open>Properties\<close>

text \<open>
  Escaping a string for a header or URI never leaves the buffer: the size that the counting pass asks for is the size that the
  writing pass fills (and the terminating zero fits), so that the result is the escaped string; when the pool
  has no memory the result is NULL.
\<close>

theorem copy_escaped_exact:
  assumes "\<And>n buf. alloc n = Some buf \<Longrightarrow> length buf = n"
  shows "ngx_http_copy_escaped alloc data kind =
    (if escape_count kind data = 0 then Some (Some data)
     else if alloc (length data + 2 * escape_count kind data + 1) = None then Some None
     else Some (Some (escaped kind data)))"
  using assms by (rule copy_escaped_spec)

theorem copy_escaped_exact_witness:
  "ngx_http_copy_escaped (\<lambda>n. Some (replicate n 0)) [65, 13, 10] ESCAPE_HEADER_VALUE = Some (Some [65, 37, 48, 68, 37, 48, 65])"
proof -
  have "ngx_http_copy_escaped (\<lambda>n. Some (replicate n 0)) [65, 13, 10] ESCAPE_HEADER_VALUE =
      Some (Some (escaped ESCAPE_HEADER_VALUE [65, 13, 10]))"
    by (subst copy_escaped_exact) (simp, code_simp)
  moreover have "escaped ESCAPE_HEADER_VALUE [65, 13, 10] = [65, 37, 48, 68, 37, 48, 65]" by code_simp
  ultimately show ?thesis by simp
qed

lemma escaped_name_safe: "list_all tchar (escaped ESCAPE_HEADER_NAME bs)"
  using hex_digits hex_chars by (induction bs) (auto simp: escape_byte_def header_name_table tchar_def [of 37])

lemma escaped_value_safe: "list_all value_char (escaped ESCAPE_HEADER_VALUE bs)"
  using hex_digits hex_chars by (induction bs) (auto simp: escape_byte_def header_value_table value_char_def [of 37])

text \<open>
  No header injection: whatever bytes a guest passes, the name that is set has only token characters, and the value has no
  control characters but tabs (no line break, no zero byte).
\<close>

theorem copy_escaped_header_safe:
  assumes alloc: "\<And>n buf. alloc n = Some buf \<Longrightarrow> length buf = n"
    and name: "ngx_http_copy_escaped alloc name ESCAPE_HEADER_NAME = Some (Some name')"
    and val: "ngx_http_copy_escaped alloc val ESCAPE_HEADER_VALUE = Some (Some val')"
  shows "list_all tchar name' \<and> list_all value_char val'"
proof -
  have "name' = escaped ESCAPE_HEADER_NAME name"
    using name escape_count_0 copy_escaped_spec [OF alloc] by (auto split: if_splits)
  moreover have "val' = escaped ESCAPE_HEADER_VALUE val"
    using val escape_count_0 copy_escaped_spec [OF alloc] by (auto split: if_splits)
  ultimately show ?thesis by (simp add: escaped_name_safe escaped_value_safe)
qed

theorem copy_escaped_header_safe_witness:
  "list_all tchar [65, 37, 51, 65] \<and> list_all value_char [65, 37, 48, 68, 37, 48, 65]"
proof -
  have "ngx_http_copy_escaped (\<lambda>n. Some (replicate n 0)) [65, 58] ESCAPE_HEADER_NAME = Some (Some [65, 37, 51, 65])"
    "ngx_http_copy_escaped (\<lambda>n. Some (replicate n 0)) [65, 13, 10] ESCAPE_HEADER_VALUE = Some (Some [65, 37, 48, 68, 37, 48, 65])"
    by code_simp+
  from copy_escaped_header_safe [OF _ this] show ?thesis by simp
qed

text \<open>
  Escaping for a URI, a URI component or arguments loses nothing: percent-decoding the result gives the input. (It does
  for these kinds, which escape the percent sign; header names and values keep it.)
\<close>

theorem copy_escaped_roundtrip:
  assumes alloc: "\<And>n buf. alloc n = Some buf \<Longrightarrow> length buf = n"
    and kind: "kind \<in> {ESCAPE_URI, ESCAPE_URI_COMPONENT, ESCAPE_ARGS}"
    and copy: "ngx_http_copy_escaped alloc data kind = Some (Some data')"
  shows "unescape data' = data"
proof -
  have "must_escape ESCAPE_URI 37" "must_escape ESCAPE_URI_COMPONENT 37" "must_escape ESCAPE_ARGS 37" by code_simp+
  with kind have "must_escape kind 37" by auto
  moreover have "data' = escaped kind data"
    using copy escape_count_0 copy_escaped_spec [OF alloc] by (auto split: if_splits)
  ultimately show ?thesis by (simp add: unescape_escaped)
qed

theorem copy_escaped_roundtrip_witness: "unescape [97, 37, 50, 48, 37, 50, 53] = [97, 32, 37]"
proof -
  have "ngx_http_copy_escaped (\<lambda>n. Some (replicate n 0)) [97, 32, 37] ESCAPE_URI = Some (Some [97, 37, 50, 48, 37, 50, 53])"
    by code_simp
  from copy_escaped_roundtrip [OF _ _ this] show ?thesis by simp
qed

end
