(* ===== verification/Http_Headers.thy ===== *)
theory Http_Headers
  imports Http_Escape
begin

text \<open>
  Setting, adding and removing headers of a request and of its response (src/src/http/ngx_http_wasm_headers.c,
  ngx_http_wasm_headers_request.c, ngx_http_wasm_headers_response.c), and looking a header up
  (\<open>ngx_wasm_get_list_elem\<close> of src/src/wasm/ngx_wasm_util.c), for nginx 1.23 and later.

  The headers are a list of nginx, whose elements never move: an element is named by its position. An element with the hash 0
  is removed. The headers that nginx itself uses are also pointed to from fields of the request; a field is
  named by the member of the C structure, and holds the position of its element. String functions of nginx are
  parameters.
\<close>

section \<open>State\<close>

record ngx_strings =
  hash_key_lc :: "bytes \<Rightarrow> nat"
  strncase_eq :: "bytes \<Rightarrow> bytes \<Rightarrow> bool"
  strstrn :: "bytes \<Rightarrow> bytes \<Rightarrow> nat option"
  strcasestrn :: "bytes \<Rightarrow> bytes \<Rightarrow> nat \<Rightarrow> bool"
  atoof :: "bytes \<Rightarrow> int option"
  parse_time :: "bytes \<Rightarrow> int"
  pnalloc :: "nat \<Rightarrow> bytes option"
  list_push_ok :: "nat \<Rightarrow> bool"

text \<open>\<open>strstrn s p\<close> is the position of \<open>p\<close> in \<open>s\<close>; \<open>strcasestrn\<close> has the number of characters of its second argument, less one, as its third.\<close>

record header_elt =
  e_hash :: nat
  e_key :: bytes
  e_value :: bytes
  e_next :: "nat option"

record headers =
  elts :: "header_elt list"
  builtins :: "string \<Rightarrow> nat option"

datatype conn_type = CONNECTION_NONE | CONNECTION_CLOSE | CONNECTION_KEEP_ALIVE

record ua_flags =
  msie :: bool
  msie6 :: bool
  opera :: bool
  gecko :: bool
  chrome :: bool
  safari :: bool
  konqueror :: bool

text \<open>
  The request: both header lists and the fields that the handlers keep in step with them. \<open>has_rctx\<close> says whether the context of the module can
  be had for the request, \<open>upstream_select\<close> whether its filters are in the step that selects an upstream.
\<close>

record http_request =
  headers_in :: headers
  headers_out :: headers
  in_server :: bytes
  in_content_length_n :: int
  keep_alive_n :: int
  connection_type :: conn_type
  keepalive :: bool
  req_keepalive :: bool
  ua :: ua_flags
  has_rctx :: bool
  upstream_select :: bool
  peer_host :: bytes
  out_content_length_n :: int
  last_modified_time :: int
  content_type :: bytes
  content_type_len :: nat
  content_type_hash :: nat
  out_status :: nat

datatype headers_type = HEADERS_REQUEST | HEADERS_RESPONSE
datatype set_mode = HEADERS_SET | HEADERS_APPEND | HEADERS_REMOVE

text \<open>
  The context of a set operation. The value is \<open>None\<close> for the null string, whose data is a NULL pointer.
\<close>

record header_set_ctx =
  hv_offset :: string
  hv_key :: bytes
  hv_value :: "bytes option"
  hv_htype :: headers_type
  hv_mode :: set_mode
  hv_hash :: nat

definition str_of :: "bytes option \<Rightarrow> bytes" where
  "str_of v = (case v of None \<Rightarrow> [] | Some bs \<Rightarrow> bs)"

definition ngx_http_wasm_htype_list :: "http_request \<Rightarrow> headers_type \<Rightarrow> headers" where
  "ngx_http_wasm_htype_list r ht = (case ht of HEADERS_REQUEST \<Rightarrow> headers_in r | HEADERS_RESPONSE \<Rightarrow> headers_out r)"

definition put_list :: "headers_type \<Rightarrow> headers \<Rightarrow> http_request \<Rightarrow> http_request" where
  "put_list ht h r = (case ht of HEADERS_REQUEST \<Rightarrow> r\<lparr>headers_in := h\<rparr> | HEADERS_RESPONSE \<Rightarrow> r\<lparr>headers_out := h\<rparr>)"

section \<open>Searching and setting\<close>

definition elt_matches :: "ngx_strings \<Rightarrow> header_set_ctx \<Rightarrow> header_elt \<Rightarrow> bool" where
  "elt_matches S hv e \<longleftrightarrow> e_hash e = hv_hash hv \<and> length (e_key e) = length (hv_key hv) \<and> strncase_eq S (hv_key hv) (e_key e)"

text \<open>
  One pass of the loop behind the label \<open>again\<close>, over the positions that are left. The answer says whether the search starts again
  (an element was cleared), and has \<open>found\<close>, the output pointer (\<open>None\<close> while it was not written) and
  the elements.
\<close>

fun search_pass :: "ngx_strings \<Rightarrow> header_set_ctx \<Rightarrow> nat list \<Rightarrow> bool \<Rightarrow> nat option option \<Rightarrow> header_elt list \<Rightarrow>
    bool \<times> bool \<times> nat option option \<times> header_elt list" where
  "search_pass S hv [] found out es = (False, found, out, es)"
| "search_pass S hv (i # is) found out es =
     (if elt_matches S hv (es ! i)
      then (if hv_mode hv = HEADERS_REMOVE \<or> found
            then (True, True, Some None, es[i := (es ! i)\<lparr>e_hash := 0\<rparr>])
            else search_pass S hv is True (Some (Some i))
                   (es[i := (es ! i)\<lparr>e_key := hv_key hv, e_value := str_of (hv_value hv), e_hash := hv_hash hv\<rparr>]))
      else search_pass S hv is found out es)"

partial_function (option) search_again ::
  "ngx_strings \<Rightarrow> header_set_ctx \<Rightarrow> bool \<Rightarrow> nat option option \<Rightarrow> header_elt list \<Rightarrow>
    (bool \<times> nat option option \<times> header_elt list) option" where
  "search_again S hv found out es =
     (case search_pass S hv [0..<length es] found out es of
        (again, found1, out1, es1) \<Rightarrow>
          if again then search_again S hv found1 out1 es1 else Some (found1, out1, es1))"

declare search_again.simps [code]

text \<open>\<open>ngx_http_wasm_set_header_helper\<close>: the output pointer is \<open>None\<close> when it was not written.\<close>

definition ngx_http_wasm_set_header_helper ::
  "ngx_strings \<Rightarrow> header_set_ctx \<Rightarrow> headers \<Rightarrow> (ngx_rc \<times> nat option option \<times> headers) option" where
  "ngx_http_wasm_set_header_helper S hv h = do {
     (found, out, es) \<leftarrow> (if hv_mode hv = HEADERS_APPEND then Some (False, None, elts h)
                            else search_again S hv False None (elts h));
     if found \<or> hv_mode hv = HEADERS_REMOVE then Some (NGX_OK, out, h\<lparr>elts := es\<rparr>)
     else if \<not> list_push_ok S (length es) then Some (NGX_ERROR, out, h\<lparr>elts := es\<rparr>)
     else let h1 = h\<lparr>elts := es @ [\<lparr>e_hash = hv_hash hv, e_key = hv_key hv, e_value = str_of (hv_value hv), e_next = None\<rparr>]\<rparr> in
       if pnalloc S (length (hv_key hv)) = None then Some (NGX_ERROR, out, h1)
       else Some (NGX_OK, Some (Some (length es)), h1) }"

text \<open>Handlers work on the request; the list is the one of the context.\<close>

definition set_header_in :: "ngx_strings \<Rightarrow> header_set_ctx \<Rightarrow> http_request \<Rightarrow> (ngx_rc \<times> nat option option \<times> http_request) option" where
  "set_header_in S hv r = do {
     (rc, out, h) \<leftarrow> ngx_http_wasm_set_header_helper S hv (ngx_http_wasm_htype_list r (hv_htype hv));
     Some (rc, out, put_list (hv_htype hv) h r) }"

definition ngx_http_wasm_set_header_handler :: "ngx_strings \<Rightarrow> header_set_ctx \<Rightarrow> http_request \<Rightarrow> (ngx_rc \<times> http_request) option" where
  "ngx_http_wasm_set_header_handler S hv r = do { (rc, out, r1) \<leftarrow> set_header_in S hv r; Some (rc, r1) }"

definition put_field :: "header_set_ctx \<Rightarrow> nat option \<Rightarrow> http_request \<Rightarrow> http_request" where
  "put_field hv p r =
     (let h = ngx_http_wasm_htype_list r (hv_htype hv) in
      put_list (hv_htype hv) (h\<lparr>builtins := (builtins h)(hv_offset hv := p)\<rparr>) r)"

definition put_elt :: "header_set_ctx \<Rightarrow> nat \<Rightarrow> (header_elt \<Rightarrow> header_elt) \<Rightarrow> http_request \<Rightarrow> http_request option" where
  "put_elt hv i f r =
     (let h = ngx_http_wasm_htype_list r (hv_htype hv) in
      if i < length (elts h) then Some (put_list (hv_htype hv) (h\<lparr>elts := (elts h)[i := f (elts h ! i)]\<rparr>) r) else None)"

definition ngx_http_wasm_set_builtin_header_handler ::
  "bool \<Rightarrow> ngx_strings \<Rightarrow> header_set_ctx \<Rightarrow> http_request \<Rightarrow> (ngx_rc \<times> http_request) option" where
  "ngx_http_wasm_set_builtin_header_handler dbg S hv r =
     (case (builtins (ngx_http_wasm_htype_list r (hv_htype hv)) (hv_offset hv), hv_mode hv) of
        (None, HEADERS_REMOVE) \<Rightarrow> Some (NGX_OK, r)
      | (None, _) \<Rightarrow> do {
          (rc, out, r1) \<leftarrow> set_header_in S hv r;
          Some (rc, case out of None \<Rightarrow> r1 | Some p \<Rightarrow> put_field hv p r1) }
      | (Some i, HEADERS_REMOVE) \<Rightarrow> do {
          r1 \<leftarrow> put_elt hv i (\<lambda>e. e\<lparr>e_hash := 0\<rparr>) r;
          Some (NGX_OK, r1) }
      | (Some i, HEADERS_APPEND) \<Rightarrow> Some (NGX_DECLINED, r)
      | (Some i, HEADERS_SET) \<Rightarrow> do {
          r1 \<leftarrow> put_elt hv i (\<lambda>e. e\<lparr>e_hash := hv_hash hv, e_key := hv_key hv, e_value := str_of (hv_value hv)\<rparr>) r;
          Some (NGX_OK, r1) })"

section \<open>Looking up\<close>

fun ngx_wasm_get_list_elem :: "ngx_strings \<Rightarrow> header_elt list \<Rightarrow> bytes \<Rightarrow> bytes option" where
  "ngx_wasm_get_list_elem S [] key = None"
| "ngx_wasm_get_list_elem S (e # es) key =
     (if length key = length (e_key e) \<and> strncase_eq S (e_key e) key then Some (e_value e)
      else ngx_wasm_get_list_elem S es key)"

fun ngx_wasm_list_nelts :: "header_elt list \<Rightarrow> nat" where
  "ngx_wasm_list_nelts [] = 0"
| "ngx_wasm_list_nelts (e # es) = (if e_hash e \<noteq> 0 then Suc (ngx_wasm_list_nelts es) else ngx_wasm_list_nelts es)"

section \<open>Handlers of request headers\<close>

definition ngx_http_wasm_set_host_header_handler ::
  "bool \<Rightarrow> ngx_strings \<Rightarrow> header_set_ctx \<Rightarrow> http_request \<Rightarrow> (ngx_rc \<times> http_request) option" where
  "ngx_http_wasm_set_host_header_handler dbg S hv r =
     (if has_rctx r \<and> upstream_select r then Some (NGX_OK, r\<lparr>peer_host := str_of (hv_value hv)\<rparr>)
      else do {
        (rc, r1) \<leftarrow> ngx_http_wasm_set_builtin_header_handler dbg S hv r;
        Some (if rc \<noteq> NGX_OK then (rc, r1) else (NGX_OK, r1\<lparr>in_server := str_of (hv_value hv)\<rparr>)) })"

definition req_connection_header ::
  "bool \<Rightarrow> ngx_strings \<Rightarrow> header_set_ctx \<Rightarrow> http_request \<Rightarrow> (ngx_rc \<times> http_request) option" where
  "req_connection_header dbg S hv r = do {
     (rc, r1) \<leftarrow> ngx_http_wasm_set_builtin_header_handler dbg S hv r;
     let v = str_of (hv_value hv);
     Some (if rc \<noteq> NGX_OK then (rc, r1)
       else if v = [] then (NGX_OK, r1)
       else if \<not> has_rctx r1 then (NGX_ERROR, r1)
       else if strcasestrn S v (bytes_of_string ''close'') 4
         then (NGX_OK, r1\<lparr>connection_type := CONNECTION_CLOSE, keep_alive_n := - 1, keepalive := False, req_keepalive := False\<rparr>)
       else if strcasestrn S v (bytes_of_string ''keep-alive'') 9
         then (NGX_OK, r1\<lparr>connection_type := CONNECTION_KEEP_ALIVE, keepalive := True, req_keepalive := True\<rparr>)
       else (NGX_OK, r1)) }"

definition no_ua :: ua_flags where
  "no_ua = \<lparr>msie = False, msie6 = False, opera = False, gecko = False, chrome = False, safari = False, konqueror = False\<rparr>"

definition ua_msie :: "ngx_strings \<Rightarrow> bytes \<Rightarrow> ua_flags \<Rightarrow> ua_flags" where
  "ua_msie S v f =
     (case strstrn S v (bytes_of_string ''MSIE '') of
        None \<Rightarrow> f
      | Some p \<Rightarrow>
          if p + 7 < length v
          then (let f1 = f\<lparr>msie := True\<rparr> in
            if v ! (p + 6) = 46
            then (if v ! (p + 5) = 52 \<or> v ! (p + 5) = 53 then f1\<lparr>msie6 := True\<rparr>
                  else if v ! (p + 5) = 54 \<and> strstrn S (drop (p + 8) v) (bytes_of_string ''SV1'') = None then f1\<lparr>msie6 := True\<rparr>
                  else f1)
            else f1)
          else f)"

definition ua_browser :: "ngx_strings \<Rightarrow> bytes \<Rightarrow> ua_flags \<Rightarrow> ua_flags" where
  "ua_browser S v f =
     (let has = (\<lambda>p. strstrn S v (bytes_of_string p) \<noteq> None);
          f1 = (if has ''Opera'' then f\<lparr>opera := True, msie := False, msie6 := False\<rparr> else f) in
      if \<not> msie f1 \<and> \<not> opera f1
      then (if has ''Gecko/'' then f1\<lparr>gecko := True\<rparr>
            else if has ''Chrome/'' then f1\<lparr>chrome := True\<rparr>
            else if has ''Safari/'' \<and> has ''Mac OS X'' then f1\<lparr>safari := True\<rparr>
            else if has ''Konqueror'' then f1\<lparr>konqueror := True\<rparr>
            else f1)
      else f1)"

definition ngx_http_wasm_set_ua_header_handler ::
  "bool \<Rightarrow> ngx_strings \<Rightarrow> header_set_ctx \<Rightarrow> http_request \<Rightarrow> (ngx_rc \<times> http_request) option" where
  "ngx_http_wasm_set_ua_header_handler dbg S hv r = do {
     (rc, r1) \<leftarrow> ngx_http_wasm_set_builtin_header_handler dbg S hv r;
     if rc \<noteq> NGX_OK then Some (rc, r1)
     else (case hv_value hv of
       None \<Rightarrow> if ngx_wa_assert dbg (hv_mode hv = HEADERS_REMOVE) then Some (NGX_OK, r1\<lparr>ua := no_ua\<rparr>) else None
     | Some v \<Rightarrow> Some (NGX_OK, r1\<lparr>ua := ua_browser S v (ua_msie S v no_ua)\<rparr>)) }"

definition ngx_http_wasm_set_cl_header_handler ::
  "bool \<Rightarrow> ngx_strings \<Rightarrow> header_set_ctx \<Rightarrow> http_request \<Rightarrow> (ngx_rc \<times> http_request) option" where
  "ngx_http_wasm_set_cl_header_handler dbg S hv r =
     (let v = str_of (hv_value hv); bad = r\<lparr>in_content_length_n := - 1\<rparr> in
      if v \<noteq> [] \<and> atoof S v = None then Some (NGX_DECLINED, bad)
      else if v = [] \<and> hv_mode hv = HEADERS_APPEND then Some (NGX_DECLINED, bad)
      else if v = [] \<and> \<not> ngx_wa_assert dbg (hv_mode hv = HEADERS_REMOVE) then None
      else do {
        (rc, r1) \<leftarrow> ngx_http_wasm_set_builtin_header_handler dbg S hv r;
        Some (if rc \<noteq> NGX_OK then (rc, r1\<lparr>in_content_length_n := - 1\<rparr>)
              else (NGX_OK, r1\<lparr>in_content_length_n := (if v = [] then - 1 else the (atoof S v))\<rparr>)) })"

text \<open>The last element of the chain that starts at an element, through the \<open>next\<close> pointers.\<close>

partial_function (option) chain_last :: "header_elt list \<Rightarrow> nat \<Rightarrow> nat option" where
  "chain_last es i =
     (if i < length es then (case e_next (es ! i) of None \<Rightarrow> Some i | Some j \<Rightarrow> chain_last es j) else None)"

declare chain_last.simps [code]

text \<open>
  Appending an element to the chain of a field with several values. \<open>h\<close> is what the output pointer of the search holds; when it was not
  written it is an uninitialised variable.
\<close>

definition link_multi :: "header_set_ctx \<Rightarrow> nat option option \<Rightarrow> http_request \<Rightarrow> (ngx_rc \<times> http_request) option" where
  "link_multi hv out r = do {
     h \<leftarrow> out;
     r1 \<leftarrow> (case builtins (ngx_http_wasm_htype_list r (hv_htype hv)) (hv_offset hv) of
        None \<Rightarrow> Some (put_field hv h r)
      | Some i \<Rightarrow> do {
          l \<leftarrow> chain_last (elts (ngx_http_wasm_htype_list r (hv_htype hv))) i;
          put_elt hv l (\<lambda>e. e\<lparr>e_next := h\<rparr>) r });
     r2 \<leftarrow> (case h of None \<Rightarrow> Some r1 | Some i \<Rightarrow> put_elt hv i (\<lambda>e. e\<lparr>e_next := None\<rparr>) r1);
     Some (NGX_OK, r2) }"

definition req_multi_header :: "ngx_strings \<Rightarrow> header_set_ctx \<Rightarrow> http_request \<Rightarrow> (ngx_rc \<times> http_request) option" where
  "req_multi_header S hv r =
     (let r0 = (if hv_mode hv = HEADERS_SET \<or> hv_mode hv = HEADERS_REMOVE then put_field hv None r else r) in do {
        (rc, out, r1) \<leftarrow> set_header_in S hv r0;
        if rc = NGX_ERROR then Some (NGX_ERROR, r1) else link_multi hv out r1 })"

section \<open>Handlers of response headers\<close>

definition ngx_http_set_location_header_handler ::
  "bool \<Rightarrow> ngx_strings \<Rightarrow> header_set_ctx \<Rightarrow> http_request \<Rightarrow> (ngx_rc \<times> http_request) option" where
  "ngx_http_set_location_header_handler dbg S hv r = do {
     (rc, r1) \<leftarrow> ngx_http_wasm_set_builtin_header_handler dbg S hv r;
     if rc \<noteq> NGX_OK then Some (rc, r1)
     else (case builtins (headers_out r1) ''location'' of
       None \<Rightarrow> Some (NGX_OK, r1)
     | Some i \<Rightarrow>
         if i < length (elts (headers_out r1))
         then (let v = e_value (elts (headers_out r1) ! i) in
           Some (NGX_OK, if v \<noteq> [] \<and> hd v = 47
             then r1\<lparr>headers_out := (headers_out r1)\<lparr>builtins := (builtins (headers_out r1))(''location'' := None)\<rparr>\<rparr> else r1))
         else None) }"

text \<open>
  \<open>clear_last_modified\<close> and \<open>clear_content_length\<close> are macros of nginx, and parameters.
\<close>

record ngx_clears =
  clear_last_modified :: "http_request \<Rightarrow> http_request"
  clear_content_length :: "http_request \<Rightarrow> http_request"

definition ngx_http_set_last_modified_header_handler ::
  "bool \<Rightarrow> ngx_strings \<Rightarrow> ngx_clears \<Rightarrow> header_set_ctx \<Rightarrow> http_request \<Rightarrow> (ngx_rc \<times> http_request) option" where
  "ngx_http_set_last_modified_header_handler dbg S C hv r =
     (if hv_mode hv = HEADERS_REMOVE then Some (NGX_OK, clear_last_modified C r)
      else do {
        (rc, r1) \<leftarrow> ngx_http_wasm_set_builtin_header_handler dbg S hv r;
        Some (if rc \<noteq> NGX_OK then (rc, r1) else (NGX_OK, r1\<lparr>last_modified_time := parse_time S (str_of (hv_value hv))\<rparr>)) })"

definition ngx_http_set_content_length_header_handler ::
  "bool \<Rightarrow> ngx_strings \<Rightarrow> ngx_clears \<Rightarrow> header_set_ctx \<Rightarrow> http_request \<Rightarrow> (ngx_rc \<times> http_request) option" where
  "ngx_http_set_content_length_header_handler dbg S C hv r =
     (if hv_mode hv = HEADERS_REMOVE then Some (NGX_OK, clear_content_length C r)
      else case atoof S (str_of (hv_value hv)) of
        None \<Rightarrow> Some (NGX_DECLINED, r)
      | Some len \<Rightarrow> do {
          (rc, r1) \<leftarrow> ngx_http_wasm_set_builtin_header_handler dbg S hv r;
          Some (if rc \<noteq> NGX_OK then (rc, r1) else (NGX_OK, r1\<lparr>out_content_length_n := len\<rparr>)) })"

definition ngx_http_set_content_type_header_handler :: "header_set_ctx \<Rightarrow> http_request \<Rightarrow> (ngx_rc \<times> http_request) option" where
  "ngx_http_set_content_type_header_handler hv r =
     (let v = str_of (hv_value hv) in
      Some (NGX_OK, r\<lparr>content_type_len := length (takeWhile (\<lambda>b. b \<noteq> 59) v), content_type := v, content_type_hash := hv_hash hv\<rparr>))"

definition resp_multi_header :: "ngx_strings \<Rightarrow> header_set_ctx \<Rightarrow> http_request \<Rightarrow> (ngx_rc \<times> http_request) option" where
  "resp_multi_header S hv r = do {
     (rc, out, r1) \<leftarrow> set_header_in S hv r;
     if rc = NGX_ERROR then Some (NGX_ERROR, r1) else link_multi hv out r1 }"

text \<open>The value is searched in with its own length (less one, as a \<open>size_t\<close>); its data is dereferenced.\<close>

definition resp_connection_header :: "ngx_strings \<Rightarrow> header_set_ctx \<Rightarrow> http_request \<Rightarrow> (ngx_rc \<times> http_request) option" where
  "resp_connection_header S hv r =
     (if \<not> has_rctx r then Some (NGX_ERROR, r)
      else do {
        v \<leftarrow> hv_value hv;
        let n = (if v = [] then 2 ^ 64 - 1 else length v - 1);
        Some (if strcasestrn S v (bytes_of_string ''keep-alive'') n then (NGX_OK, r\<lparr>keepalive := True, req_keepalive := True\<rparr>)
              else if strcasestrn S v (bytes_of_string ''close'') n then (NGX_OK, r\<lparr>keepalive := False, req_keepalive := False\<rparr>)
              else if strcasestrn S v (bytes_of_string ''upgrade'') n then (NGX_OK, r\<lparr>out_status := 101\<rparr>)
              else (NGX_DECLINED, r)) })"

section \<open>Dispatch\<close>

datatype header_handler =
    H_generic | H_builtin | H_host | H_req_connection | H_ua | H_req_cl | H_req_multi
  | H_location | H_last_modified | H_resp_cl | H_content_type | H_resp_multi | H_resp_connection

fun run_handler :: "bool \<Rightarrow> ngx_strings \<Rightarrow> ngx_clears \<Rightarrow> header_handler \<Rightarrow> header_set_ctx \<Rightarrow> http_request \<Rightarrow> (ngx_rc \<times> http_request) option" where
  "run_handler dbg S C H_generic hv r = ngx_http_wasm_set_header_handler S hv r"
| "run_handler dbg S C H_builtin hv r = ngx_http_wasm_set_builtin_header_handler dbg S hv r"
| "run_handler dbg S C H_host hv r = ngx_http_wasm_set_host_header_handler dbg S hv r"
| "run_handler dbg S C H_req_connection hv r = req_connection_header dbg S hv r"
| "run_handler dbg S C H_ua hv r = ngx_http_wasm_set_ua_header_handler dbg S hv r"
| "run_handler dbg S C H_req_cl hv r = ngx_http_wasm_set_cl_header_handler dbg S hv r"
| "run_handler dbg S C H_req_multi hv r = req_multi_header S hv r"
| "run_handler dbg S C H_location hv r = ngx_http_set_location_header_handler dbg S hv r"
| "run_handler dbg S C H_last_modified hv r = ngx_http_set_last_modified_header_handler dbg S C hv r"
| "run_handler dbg S C H_resp_cl hv r = ngx_http_set_content_length_header_handler dbg S C hv r"
| "run_handler dbg S C H_content_type hv r = ngx_http_set_content_type_header_handler hv r"
| "run_handler dbg S C H_resp_multi hv r = resp_multi_header S hv r"
| "run_handler dbg S C H_resp_connection hv r = resp_connection_header S hv r"

text \<open>
  The tables of headers with a handler of their own: name, member of the structure, handler. Every optional module of nginx that adds a
  header to them is built in. Other names have the handler of the last entry, \<open>H_generic\<close>.
\<close>

definition ngx_http_wasm_req_headers_handlers :: "(bytes \<times> string \<times> header_handler) list" where
  "ngx_http_wasm_req_headers_handlers = map (\<lambda>(n, f, h). (bytes_of_string n, f, h))
    [(''Host'', ''host'', H_host), (''Connection'', ''connection'', H_req_connection),
     (''If-Modified-Since'', ''if_modified_since'', H_builtin), (''If-Unmodified-Since'', ''if_unmodified_since'', H_builtin),
     (''If-Match'', ''if_match'', H_builtin), (''If-None-Match'', ''if_none_match'', H_builtin),
     (''User-Agent'', ''user_agent'', H_ua), (''Referer'', ''referer'', H_builtin),
     (''Content-Length'', ''content_length'', H_req_cl), (''Content-Type'', ''content_type'', H_builtin),
     (''Range'', ''range'', H_builtin), (''If-Range'', ''if_range'', H_builtin),
     (''Transfer-Encoding'', ''transfer_encoding'', H_builtin), (''Expect'', ''expect'', H_builtin),
     (''Upgrade'', ''upgrade'', H_builtin), (''Accept-Encoding'', ''accept_encoding'', H_builtin),
     (''Via'', ''via'', H_builtin), (''Authorization'', ''authorization'', H_builtin),
     (''Keep-Alive'', ''keep_alive'', H_builtin), (''X-Forwarded-For'', ''x_forwarded_for'', H_req_multi),
     (''X-Real-IP'', ''x_real_ip'', H_builtin), (''Depth'', ''depth'', H_builtin),
     (''Destination'', ''destination'', H_builtin), (''Overwrite'', ''overwrite'', H_builtin),
     (''Date'', ''date'', H_builtin), (''Cookie'', ''cookie'', H_req_multi)]"

definition ngx_http_wasm_resp_headers_handlers :: "(bytes \<times> string \<times> header_handler) list" where
  "ngx_http_wasm_resp_headers_handlers = map (\<lambda>(n, f, h). (bytes_of_string n, f, h))
    [(''Server'', ''server'', H_builtin), (''Date'', ''date'', H_builtin),
     (''Content-Length'', ''content_length'', H_resp_cl), (''Content-Encoding'', ''content_encoding'', H_builtin),
     (''Location'', ''location'', H_location), (''Refresh'', ''refresh'', H_builtin),
     (''Last-Modified'', ''last_modified'', H_last_modified), (''Content-Range'', ''content_range'', H_builtin),
     (''Accept-Ranges'', ''accept_ranges'', H_builtin), (''WWW-Authenticate'', ''www_authenticate'', H_builtin),
     (''Expires'', ''expires'', H_builtin), (''E-Tag'', ''etag'', H_builtin), (''ETag'', ''etag'', H_builtin),
     (''Content-Type'', ''content_type'', H_content_type), (''Cache-Control'', ''cache_control'', H_resp_multi),
     (''Link'', ''link'', H_resp_multi), (''Connection'', [], H_resp_connection)]"

definition find_handler :: "ngx_strings \<Rightarrow> (bytes \<times> string \<times> header_handler) list \<Rightarrow> bytes \<Rightarrow> bytes \<times> string \<times> header_handler" where
  "find_handler S handlers key =
     (case find (\<lambda>(n, f, h). length key = length n \<and> strncase_eq S key n) handlers of
        Some e \<Rightarrow> e | None \<Rightarrow> (key, [], H_generic))"

text \<open>
  \<open>ngx_http_wasm_set_header\<close>: the value is \<open>None\<close> for a NULL pointer, which only a removal may pass.
\<close>

definition ngx_http_wasm_set_header ::
  "bool \<Rightarrow> ngx_strings \<Rightarrow> ngx_clears \<Rightarrow> headers_type \<Rightarrow> (bytes \<times> string \<times> header_handler) list \<Rightarrow> bytes \<Rightarrow> bytes option \<Rightarrow> set_mode \<Rightarrow>
    http_request \<Rightarrow> (ngx_rc \<times> http_request) option" where
  "ngx_http_wasm_set_header dbg S C ht handlers key val mode r = do {
     key1 \<leftarrow> ngx_http_copy_escaped (pnalloc S) key ESCAPE_HEADER_NAME;
     case key1 of
       None \<Rightarrow> Some (NGX_ERROR, r)
     | Some k \<Rightarrow> do {
         val1 \<leftarrow> (case val of None \<Rightarrow> Some (Some None)
           | Some v \<Rightarrow> map_option (map_option Some) (ngx_http_copy_escaped (pnalloc S) v ESCAPE_HEADER_VALUE));
         case val1 of
           None \<Rightarrow> Some (NGX_ERROR, r)
         | Some v \<Rightarrow>
             (case find_handler S handlers k of
                (name, offset, h) \<Rightarrow>
                  if mode \<noteq> HEADERS_REMOVE \<and> v = None then None
                  else run_handler dbg S C h
                    \<lparr>hv_offset = offset, hv_key = name, hv_value = (if mode = HEADERS_REMOVE then None else v), hv_htype = ht,
                     hv_mode = mode, hv_hash = hash_key_lc S k\<rparr> r) } }"

definition ngx_http_wasm_set_req_header ::
  "bool \<Rightarrow> ngx_strings \<Rightarrow> ngx_clears \<Rightarrow> bytes \<Rightarrow> bytes option \<Rightarrow> set_mode \<Rightarrow> http_request \<Rightarrow> (ngx_rc \<times> http_request) option" where
  "ngx_http_wasm_set_req_header dbg S C = ngx_http_wasm_set_header dbg S C HEADERS_REQUEST ngx_http_wasm_req_headers_handlers"

definition ngx_http_wasm_set_resp_header ::
  "bool \<Rightarrow> ngx_strings \<Rightarrow> ngx_clears \<Rightarrow> bytes \<Rightarrow> bytes option \<Rightarrow> set_mode \<Rightarrow> http_request \<Rightarrow> (ngx_rc \<times> http_request) option" where
  "ngx_http_wasm_set_resp_header dbg S C = ngx_http_wasm_set_header dbg S C HEADERS_RESPONSE ngx_http_wasm_resp_headers_handlers"

text \<open>\<open>digits\<close> is the decimal image of the length, written by \<open>ngx_sprintf\<close>.\<close>

definition ngx_http_wasm_set_resp_content_length ::
  "bool \<Rightarrow> ngx_strings \<Rightarrow> ngx_clears \<Rightarrow> (int \<Rightarrow> bytes) \<Rightarrow> nat \<Rightarrow> int \<Rightarrow> http_request \<Rightarrow> (ngx_rc \<times> http_request) option" where
  "ngx_http_wasm_set_resp_content_length dbg S C digits off_t_len cl r =
     (if out_content_length_n r \<ge> 0 \<and> out_content_length_n r = cl then Some (NGX_OK, r)
      else if pnalloc S off_t_len = None then Some (NGX_ERROR, r)
      else ngx_http_wasm_set_resp_header dbg S C (bytes_of_string ''Content-Length'') (Some (digits cl)) HEADERS_SET r)"

text \<open>
  Clearing all headers walks the elements that are there, and removes each by its key, which the escaping may rewrite in place.
\<close>

definition escape_in_place :: "headers_type \<Rightarrow> nat \<Rightarrow> bytes \<Rightarrow> http_request \<Rightarrow> http_request" where
  "escape_in_place ht i k r =
     (let h = ngx_http_wasm_htype_list r ht in put_list ht (h\<lparr>elts := (elts h)[i := (elts h ! i)\<lparr>e_key := k\<rparr>]\<rparr>) r)"

fun clear_headers :: "bool \<Rightarrow> ngx_strings \<Rightarrow> ngx_clears \<Rightarrow> headers_type \<Rightarrow> (bytes \<times> string \<times> header_handler) list \<Rightarrow> nat list \<Rightarrow>
    http_request \<Rightarrow> (ngx_rc \<times> http_request) option" where
  "clear_headers dbg S C ht handlers [] r = Some (NGX_OK, r)"
| "clear_headers dbg S C ht handlers (i # is) r =
     (let e = elts (ngx_http_wasm_htype_list r ht) ! i in
      if e_hash e \<noteq> 0
      then do {
        k \<leftarrow> ngx_http_copy_escaped (pnalloc S) (e_key e) ESCAPE_HEADER_NAME;
        (rc, r1) \<leftarrow> ngx_http_wasm_set_header dbg S C ht handlers (e_key e) None HEADERS_REMOVE
                       (case k of None \<Rightarrow> r | Some k1 \<Rightarrow> escape_in_place ht i k1 r);
        if rc \<noteq> NGX_OK then Some (NGX_ERROR, r1) else clear_headers dbg S C ht handlers is r1 }
      else clear_headers dbg S C ht handlers is r)"

definition ngx_http_wasm_clear_headers_helper ::
  "bool \<Rightarrow> ngx_strings \<Rightarrow> ngx_clears \<Rightarrow> headers_type \<Rightarrow> (bytes \<times> string \<times> header_handler) list \<Rightarrow>
    http_request \<Rightarrow> (ngx_rc \<times> http_request) option" where
  "ngx_http_wasm_clear_headers_helper dbg S C ht handlers r =
     clear_headers dbg S C ht handlers [0..<length (elts (ngx_http_wasm_htype_list r ht))] r"

definition ngx_http_wasm_clear_req_headers :: "bool \<Rightarrow> ngx_strings \<Rightarrow> ngx_clears \<Rightarrow> http_request \<Rightarrow> (ngx_rc \<times> http_request) option" where
  "ngx_http_wasm_clear_req_headers dbg S C =
     ngx_http_wasm_clear_headers_helper dbg S C HEADERS_REQUEST ngx_http_wasm_req_headers_handlers"

definition ngx_http_wasm_clear_resp_headers :: "bool \<Rightarrow> ngx_strings \<Rightarrow> ngx_clears \<Rightarrow> http_request \<Rightarrow> (ngx_rc \<times> http_request) option" where
  "ngx_http_wasm_clear_resp_headers dbg S C =
     ngx_http_wasm_clear_headers_helper dbg S C HEADERS_RESPONSE ngx_http_wasm_resp_headers_handlers"

end
