(* ===== verification/Proxy_Wasm_Pairs.thy ===== *)
theory Proxy_Wasm_Pairs
  imports Wasmx_Prelude
begin

text \<open>
  The proxy-wasm encoding of header maps (src/src/common/proxy_wasm/ngx_proxy_wasm_util.c): the size
  of the image of a list of pairs, writing it into the linear memory of the guest, and reading
  a map that the guest passes. Pointers are offsets into the memory that is accessible
  from them; an access behind its end is an undefined outcome.
\<close>

section \<open>Lists of pairs\<close>

record table_elt =
  elt_hash :: nat
  elt_key :: bytes
  elt_value :: bytes

text \<open>
  An \<open>ngx_list_t\<close> is a list of parts, the first of which always exists. The loops over it read the first
  element of every further part without looking at its size, so an empty further part
  (which \<open>ngx_list_push\<close> does not make) is undefined. Elements with hash 0 are skipped.
\<close>

type_synonym ngx_list = "table_elt list list"

definition list_elts :: "ngx_list \<Rightarrow> table_elt list option" where
  "list_elts parts =
     (if [] \<in> set (tl parts) then None else Some (filter (\<lambda>e. elt_hash e \<noteq> 0) (concat parts)))"

definition ngx_proxy_wasm_pairs_count :: "ngx_list \<Rightarrow> nat option" where
  "ngx_proxy_wasm_pairs_count parts = map_option length (list_elts parts)"

definition PTR_SIZE :: nat where "PTR_SIZE = 4"

definition pair_size :: "table_elt \<Rightarrow> nat" where
  "pair_size e = PTR_SIZE * 2 + (length (elt_key e) + 1) + (length (elt_value e) + 1)"

text \<open>The two loops of \<open>ngx_proxy_wasm_pairs_size\<close>: over the list, and over the extra pairs.\<close>

fun size_list :: "nat \<Rightarrow> table_elt list \<Rightarrow> nat \<Rightarrow> nat \<Rightarrow> nat \<times> nat" where
  "size_list max_pairs [] n sz = (n, sz)"
| "size_list max_pairs (e # es) n sz =
     (if max_pairs \<noteq> 0 \<and> n + 1 \<ge> max_pairs then (n + 1, sz + pair_size e)
      else size_list max_pairs es (n + 1) (sz + pair_size e))"

fun size_extras :: "nat \<Rightarrow> table_elt list \<Rightarrow> nat \<Rightarrow> nat \<Rightarrow> nat" where
  "size_extras max_pairs [] n sz = sz"
| "size_extras max_pairs (e # es) n sz =
     (if max_pairs \<noteq> 0 \<and> n \<ge> max_pairs then sz + pair_size e
      else size_extras max_pairs es (n + 1) (sz + pair_size e))"

definition ngx_proxy_wasm_pairs_size :: "ngx_list \<Rightarrow> table_elt list \<Rightarrow> nat \<Rightarrow> nat option" where
  "ngx_proxy_wasm_pairs_size parts extras max_pairs =
     (case list_elts parts of
        None \<Rightarrow> None
      | Some es \<Rightarrow> (let (n, sz) = size_list max_pairs es 0 PTR_SIZE in Some (size_extras max_pairs extras n sz)))"

section \<open>Writing the image\<close>

text \<open>Writing at the cursor: the memory and the position after it.\<close>

definition emit :: "bytes \<Rightarrow> bytes \<times> nat \<Rightarrow> (bytes \<times> nat) option" where
  "emit data st = map_option (\<lambda>m. (m, snd st + length data)) (buf_write (fst st) (snd st) data)"

definition len_image :: "table_elt \<Rightarrow> bytes" where
  "len_image e = le32 (of_nat (length (elt_key e))) @ le32 (of_nat (length (elt_value e)))"

text \<open>The loops of \<open>ngx_proxy_wasm_pairs_marshal\<close>, which stop at \<open>count\<close> pairs.\<close>

fun emit_lens :: "nat \<Rightarrow> table_elt list \<Rightarrow> nat \<Rightarrow> bytes \<times> nat \<Rightarrow> (nat \<times> bytes \<times> nat) option" where
  "emit_lens count [] n st = Some (n, st)"
| "emit_lens count (e # es) n st =
     (if n < count
      then (case emit (le32 (of_nat (length (elt_key e)))) st of
              None \<Rightarrow> None
            | Some st1 \<Rightarrow>
                (case emit (le32 (of_nat (length (elt_value e)))) st1 of
                   None \<Rightarrow> None
                 | Some st2 \<Rightarrow> emit_lens count es (n + 1) st2))
      else Some (n, st))"

fun emit_data :: "nat \<Rightarrow> table_elt list \<Rightarrow> nat \<Rightarrow> bytes \<times> nat \<Rightarrow> (nat \<times> bytes \<times> nat) option" where
  "emit_data count [] n st = Some (n, st)"
| "emit_data count (e # es) n st =
     (if n < count
      then (case emit (elt_key e @ [0]) st of
              None \<Rightarrow> None
            | Some st1 \<Rightarrow>
                (case emit (elt_value e @ [0]) st1 of
                   None \<Rightarrow> None
                 | Some st2 \<Rightarrow> emit_data count es (n + 1) st2))
      else Some (n, st))"

text \<open>
  \<open>ngx_proxy_wasm_pairs_marshal\<close>, writing into the memory \<open>mem\<close> from \<open>p\<close> on: the new memory and
  \<open>*truncated\<close>, if it was set.
\<close>

definition ngx_proxy_wasm_pairs_marshal ::
  "bool \<Rightarrow> ngx_list \<Rightarrow> table_elt list \<Rightarrow> bytes \<Rightarrow> nat \<Rightarrow> nat \<Rightarrow> (bytes \<times> nat option) option" where
  "ngx_proxy_wasm_pairs_marshal dbg parts extras mem p max_pairs =
     (case list_elts parts of
        None \<Rightarrow> None
      | Some es \<Rightarrow>
          (let total = length es + length extras;
               count = (if max_pairs \<noteq> 0 \<and> total > max_pairs then max_pairs else total);
               truncated = (if max_pairs \<noteq> 0 \<and> total > max_pairs then Some count else None) in
           case emit (le32 (of_nat count)) (mem, p) of
             None \<Rightarrow> None
           | Some st0 \<Rightarrow>
           (case emit_lens count extras 0 st0 of
             None \<Rightarrow> None
           | Some (n1, st1) \<Rightarrow>
           (case emit_lens count es n1 st1 of
             None \<Rightarrow> None
           | Some (n2, st2) \<Rightarrow>
               if \<not> ngx_wa_assert dbg (n2 = count) then None
               else
           (case emit_data count extras 0 st2 of
             None \<Rightarrow> None
           | Some (n3, st3) \<Rightarrow>
           (case emit_data count es n3 st3 of
             None \<Rightarrow> None
           | Some (n4, st4) \<Rightarrow>
               if \<not> ngx_wa_assert dbg (n4 = count) then None else Some (fst st4, truncated)))))))"

text \<open>
  \<open>ngx_proxy_wasm_marshal\<close>: \<open>alloc\<close> is the allocation function of the guest
  (\<open>ngx_proxy_wasm_alloc\<close>), which returns the pointer (0 on failure) and the memory it leaves behind.
  The result is the flag, with the pointer, the size and \<open>*truncated\<close>, and the memory.
\<close>

definition ngx_proxy_wasm_marshal ::
  "(nat \<Rightarrow> bytes \<Rightarrow> u32 \<times> bytes) \<Rightarrow> bool \<Rightarrow> ngx_list \<Rightarrow> table_elt list \<Rightarrow> nat \<Rightarrow> bytes \<Rightarrow>
   ((u32 \<times> u32 \<times> nat option) option \<times> bytes) option" where
  "ngx_proxy_wasm_marshal alloc dbg parts shims max_pairs mem =
     (case ngx_proxy_wasm_pairs_size parts shims max_pairs of
        None \<Rightarrow> None
      | Some sz \<Rightarrow>
          (let (p, mem1) = alloc sz mem in
           if p = 0 then Some (None, mem1)
           else if unat p + sz > length mem1 then Some (None, mem1)
           else (case ngx_proxy_wasm_pairs_marshal dbg parts shims mem1 (unat p) max_pairs of
                   None \<Rightarrow> None
                 | Some (mem2, truncated) \<Rightarrow> Some (Some (p, of_nat sz, truncated), mem2))))"

section \<open>Reading an image\<close>

fun read_lens :: "bytes \<Rightarrow> nat \<Rightarrow> nat \<Rightarrow> ((nat \<times> nat) list \<times> nat) option" where
  "read_lens mem 0 cur = Some ([], cur)"
| "read_lens mem (Suc k) cur =
     (case (buf_read mem cur 4, buf_read mem (cur + 4) 4) of
        (Some kl, Some vl) \<Rightarrow>
          map_option (\<lambda>(ls, c). ((unat (from_le32 kl), unat (from_le32 vl)) # ls, c)) (read_lens mem k (cur + 8))
      | _ \<Rightarrow> None)"

text \<open>
  The second loop: \<open>alloc_ok i\<close> says whether the \<open>i\<close>th allocation succeeds. The copy takes the byte
  behind the string too. The inner \<open>None\<close> is the \<open>failed\<close> exit.
\<close>

fun read_data :: "(nat \<Rightarrow> bool) \<Rightarrow> bytes \<Rightarrow> (nat \<times> nat) list \<Rightarrow> nat \<Rightarrow> nat \<Rightarrow> table_elt list option option" where
  "read_data alloc_ok mem [] i cur = Some (Some [])"
| "read_data alloc_ok mem ((kl, vl) # ls) i cur =
     (if \<not> alloc_ok i then Some None
      else case buf_read mem cur (kl + 1) of
        None \<Rightarrow> None
      | Some k \<Rightarrow>
          (if \<not> alloc_ok (i + 1) then Some None
           else case buf_read mem (cur + kl + 1) (vl + 1) of
             None \<Rightarrow> None
           | Some v \<Rightarrow>
               map_option (map_option ((#) \<lparr>elt_hash = 0, elt_key = take kl k, elt_value = take vl v\<rparr>))
                 (read_data alloc_ok mem ls (i + 2) (cur + kl + 1 + vl + 1))))"

definition ngx_proxy_wasm_pairs_unmarshal ::
  "(nat \<Rightarrow> bool) \<Rightarrow> nat \<Rightarrow> bytes \<Rightarrow> (ngx_rc \<times> table_elt list) option" where
  "ngx_proxy_wasm_pairs_unmarshal alloc_ok map_len mem =
     (case (if map_len \<noteq> 0 then map_option (\<lambda>b. (unat (from_le32 b), PTR_SIZE)) (buf_read mem 0 4) else Some (0, 0)) of
        None \<Rightarrow> None
      | Some (count, cur) \<Rightarrow>
          if \<not> alloc_ok 0 then Some (NGX_ERROR, [])
          else (case read_lens mem count cur of
                  None \<Rightarrow> None
                | Some (ls, cur1) \<Rightarrow>
                    (case read_data alloc_ok mem ls 1 cur1 of
                       None \<Rightarrow> None
                     | Some None \<Rightarrow> Some (NGX_ERROR, [])
                     | Some (Some es) \<Rightarrow> Some (NGX_OK, es))))"

section \<open>The image\<close>

definition data_image :: "table_elt \<Rightarrow> bytes" where
  "data_image e = elt_key e @ [0] @ elt_value e @ [0]"

definition pairs_image :: "table_elt list \<Rightarrow> bytes" where
  "pairs_image es = le32 (of_nat (length es)) @ concat (map len_image es) @ concat (map data_image es)"

lemma length_len_image [simp]: "length (len_image e) = 8"
  by (simp add: len_image_def)

lemma length_data_image: "length (data_image e) = length (elt_key e) + length (elt_value e) + 2"
  by (simp add: data_image_def)

lemma length_pairs_image: "length (pairs_image es) = PTR_SIZE + sum_list (map pair_size es)"
  by (induction es) (auto simp: pairs_image_def pair_size_def PTR_SIZE_def length_data_image)

lemma emit_bound: "emit a st = Some st' \<Longrightarrow> snd st' \<le> length (fst st')"
  by (auto simp: emit_def buf_write_def split: if_splits)

lemma emit_emit: "(case emit a st of None \<Rightarrow> None | Some st1 \<Rightarrow> emit b st1) = emit (a @ b) st"
proof (cases "snd st + length a + length b \<le> length (fst st)")
  case True
  then show ?thesis by (simp add: emit_def buf_write_def ac_simps)
next
  case False
  then show ?thesis by (auto simp: emit_def buf_write_def split: option.splits if_splits)
qed

lemma emit_then:
  assumes "\<And>st1. snd st1 \<le> length (fst st1) \<Longrightarrow> F st1 = map_option g (emit b st1)"
  shows "(case emit a st of None \<Rightarrow> None | Some st1 \<Rightarrow> F st1) = map_option g (emit (a @ b) st)"
  unfolding emit_emit [symmetric] using assms emit_bound by (auto split: option.splits)

lemma emit_counted_then:
  assumes "\<And>st1. snd st1 \<le> length (fst st1) \<Longrightarrow> F k st1 = map_option g (emit b st1)"
  shows "(case map_option (\<lambda>s. (k, s)) (emit a st) of None \<Rightarrow> None | Some (n, st1) \<Rightarrow> F n st1) =
     map_option g (emit (a @ b) st)"
proof -
  have "map_option g (emit (a @ b) st) = (case emit a st of None \<Rightarrow> None | Some st1 \<Rightarrow> F k st1)"
    by (rule emit_then [symmetric]) (rule assms)
  then show ?thesis by (cases "emit a st") simp_all
qed

lemma emit_Nil: "snd st \<le> length (fst st) \<Longrightarrow> emit [] st = Some st"
  by (cases st) (simp add: emit_def buf_write_def)

text \<open>A loop writes the images of the pairs that are left to \<open>count\<close>.\<close>

lemma emit_lens_eq:
  "snd st \<le> length (fst st) \<Longrightarrow> n \<le> count \<Longrightarrow>
     emit_lens count es n st =
       map_option (\<lambda>st'. (min (n + length es) count, st')) (emit (concat (map len_image (take (count - n) es))) st)"
proof (induction es arbitrary: n st)
  case Nil
  then show ?case by (simp add: emit_Nil min_def)
next
  case (Cons e es)
  show ?case
  proof (cases "n < count")
    case True
    have "emit_lens count (e # es) n st =
        (case emit (len_image e) st of None \<Rightarrow> None | Some st2 \<Rightarrow> emit_lens count es (n + 1) st2)"
      using True emit_emit [of "le32 (of_nat (length (elt_value e)))" "le32 (of_nat (length (elt_key e)))" st]
      by (auto simp: len_image_def split: option.splits)
    also have "\<dots> = map_option (\<lambda>st'. (min (n + length (e # es)) count, st'))
        (case emit (len_image e) st of None \<Rightarrow> None | Some st2 \<Rightarrow> emit (concat (map len_image (take (count - n - 1) es))) st2)"
      using Cons.IH True emit_bound by (auto split: option.splits)
    also have "\<dots> = map_option (\<lambda>st'. (min (n + length (e # es)) count, st'))
        (emit (concat (map len_image (take (count - n) (e # es)))) st)"
      unfolding emit_emit using True by (simp add: take_Cons')
    finally show ?thesis .
  next
    case False
    with Cons.prems show ?thesis by (simp add: emit_Nil min_def)
  qed
qed

lemma emit_data_eq:
  "snd st \<le> length (fst st) \<Longrightarrow> n \<le> count \<Longrightarrow>
     emit_data count es n st =
       map_option (\<lambda>st'. (min (n + length es) count, st')) (emit (concat (map data_image (take (count - n) es))) st)"
proof (induction es arbitrary: n st)
  case Nil
  then show ?case by (simp add: emit_Nil min_def)
next
  case (Cons e es)
  show ?case
  proof (cases "n < count")
    case True
    have "emit_data count (e # es) n st =
        (case emit (data_image e) st of None \<Rightarrow> None | Some st2 \<Rightarrow> emit_data count es (n + 1) st2)"
      using True emit_emit [of "elt_value e @ [0]" "elt_key e @ [0]" st]
      by (auto simp: data_image_def split: option.splits)
    also have "\<dots> = map_option (\<lambda>st'. (min (n + length (e # es)) count, st'))
        (case emit (data_image e) st of None \<Rightarrow> None | Some st2 \<Rightarrow> emit (concat (map data_image (take (count - n - 1) es))) st2)"
      using Cons.IH True emit_bound by (auto split: option.splits)
    also have "\<dots> = map_option (\<lambda>st'. (min (n + length (e # es)) count, st'))
        (emit (concat (map data_image (take (count - n) (e # es)))) st)"
      unfolding emit_emit using True by (simp add: take_Cons')
    finally show ?thesis .
  next
    case False
    with Cons.prems show ?thesis by (simp add: emit_Nil min_def)
  qed
qed

text \<open>The pairs that are written: the extra ones first, then those of the list, up to the limit.\<close>

definition written_pairs :: "table_elt list \<Rightarrow> table_elt list \<Rightarrow> nat \<Rightarrow> table_elt list" where
  "written_pairs es extras max_pairs =
     (if max_pairs \<noteq> 0 then take max_pairs (extras @ es) else extras @ es)"

lemma pairs_marshal_eq:
  assumes es: "list_elts parts = Some es"
  shows "ngx_proxy_wasm_pairs_marshal dbg parts extras mem p max_pairs =
     map_option (\<lambda>m. (m, if max_pairs \<noteq> 0 \<and> length es + length extras > max_pairs then Some max_pairs else None))
       (buf_write mem p (pairs_image (written_pairs es extras max_pairs)))"
proof -
  define count where "count = (if max_pairs \<noteq> 0 \<and> length es + length extras > max_pairs then max_pairs else length es + length extras)"
  let ?n1 = "min (length extras) count"
  have w: "written_pairs es extras max_pairs = take count extras @ take (count - ?n1) es"
    and len: "min (?n1 + length es) count = count" "length (written_pairs es extras max_pairs) = count"
    by (auto simp: written_pairs_def count_def min_def)
  have lens: "emit_lens count extras 0 st = map_option (\<lambda>st'. (?n1, st')) (emit (concat (map len_image (take count extras))) st)"
    "emit_lens count es ?n1 st = map_option (\<lambda>st'. (count, st')) (emit (concat (map len_image (take (count - ?n1) es))) st)"
    "emit_data count extras 0 st = map_option (\<lambda>st'. (?n1, st')) (emit (concat (map data_image (take count extras))) st)"
    "emit_data count es ?n1 st = map_option (\<lambda>st'. (count, st')) (emit (concat (map data_image (take (count - ?n1) es))) st)"
    if "snd st \<le> length (fst st)" for st
    using emit_lens_eq [OF that] emit_data_eq [OF that] len(1) by simp_all
  let ?i = "\<lambda>f. concat (map f (take count extras))" and ?j = "\<lambda>f. concat (map f (take (count - ?n1) es))"
  let ?g = "\<lambda>st :: bytes \<times> nat. (fst st, if max_pairs \<noteq> 0 \<and> length es + length extras > max_pairs then Some count else None)"
  define F4 where "F4 = (\<lambda>n st. case emit_data count es n st of None \<Rightarrow> None
      | Some (n4, st4) \<Rightarrow> if \<not> ngx_wa_assert dbg (n4 = count) then None else Some (?g st4))"
  define F3 where "F3 = (\<lambda>st. case emit_data count extras 0 st of None \<Rightarrow> None | Some (n3, st3) \<Rightarrow> F4 n3 st3)"
  define F2 where "F2 = (\<lambda>n st. case emit_lens count es n st of None \<Rightarrow> None
      | Some (n2, st2) \<Rightarrow> if \<not> ngx_wa_assert dbg (n2 = count) then None else F3 st2)"
  define F1 where "F1 = (\<lambda>st. case emit_lens count extras 0 st of None \<Rightarrow> None | Some (n1, st1) \<Rightarrow> F2 n1 st1)"
  have 4: "F4 ?n1 st = map_option ?g (emit (?j data_image) st)" if "snd st \<le> length (fst st)" for st
    unfolding F4_def lens(4) [OF that] by (cases "emit (?j data_image) st") simp_all
  have 3: "F3 st = map_option ?g (emit (?i data_image @ ?j data_image) st)" if "snd st \<le> length (fst st)" for st
    unfolding F3_def lens(3) [OF that] by (rule emit_counted_then) (rule 4)
  have 2: "F2 ?n1 st = map_option ?g (emit (?j len_image @ ?i data_image @ ?j data_image) st)"
    if "snd st \<le> length (fst st)" for st
    unfolding F2_def lens(2) [OF that] by (rule emit_counted_then) (simp add: 3)
  have 1: "F1 st = map_option ?g (emit (?i len_image @ ?j len_image @ ?i data_image @ ?j data_image) st)"
    if "snd st \<le> length (fst st)" for st
    unfolding F1_def lens(1) [OF that] by (rule emit_counted_then) (rule 2)
  have "ngx_proxy_wasm_pairs_marshal dbg parts extras mem p max_pairs =
      (case emit (le32 (of_nat count)) (mem, p) of None \<Rightarrow> None | Some st0 \<Rightarrow> F1 st0)"
    unfolding ngx_proxy_wasm_pairs_marshal_def es option.case Let_def count_def [symmetric] F1_def F2_def F3_def F4_def
    by (rule refl)
  also have "\<dots> = map_option ?g (emit (le32 (of_nat count) @ ?i len_image @ ?j len_image @ ?i data_image @ ?j data_image) (mem, p))"
    by (rule emit_then) (rule 1)
  also have "le32 (of_nat count) @ ?i len_image @ ?j len_image @ ?i data_image @ ?j data_image =
      pairs_image (written_pairs es extras max_pairs)"
    unfolding pairs_image_def len by (simp add: w)
  finally show ?thesis by (simp add: emit_def option.map_comp comp_def) (simp add: count_def)
qed

section \<open>The size\<close>

lemma size_list_eq:
  "max_pairs = 0 \<or> n < max_pairs \<Longrightarrow> size_list max_pairs es n sz =
     (let es' = (if max_pairs = 0 then es else take (max_pairs - n) es) in (n + length es', sz + sum_list (map pair_size es')))"
proof (induction es arbitrary: n sz)
  case (Cons e es)
  show ?case
  proof (cases "max_pairs \<noteq> 0 \<and> n + 1 \<ge> max_pairs")
    case True
    with Cons.prems have "max_pairs - n = 1" by simp
    with True show ?thesis by (simp add: Let_def)
  next
    case False
    with Cons.IH [of "n + 1" "sz + pair_size e"] Cons.prems show ?thesis
      by (auto simp: Let_def take_Cons' add.assoc)
  qed
qed (simp add: Let_def)

lemma size_extras_eq:
  "size_extras max_pairs es n sz =
     sz + sum_list (map pair_size (if max_pairs = 0 then es else take (Suc (max_pairs - n)) es))"
proof (induction es arbitrary: n sz)
  case (Cons e es)
  show ?case
  proof (cases "max_pairs \<noteq> 0 \<and> n \<ge> max_pairs")
    case False
    with Cons.IH [of "n + 1" "sz + pair_size e"] show ?thesis
      by (auto simp: Suc_diff_Suc)
  qed simp
qed simp

lemma pairs_size_eq:
  assumes "list_elts parts = Some es"
  shows "ngx_proxy_wasm_pairs_size parts extras max_pairs = Some (PTR_SIZE +
     sum_list (map pair_size (if max_pairs = 0 then es else take max_pairs es)) +
     sum_list (map pair_size (if max_pairs = 0 then extras
       else take (Suc (max_pairs - min max_pairs (length es))) extras)))"
  using size_list_eq [of max_pairs 0 es PTR_SIZE] assms
  by (cases "max_pairs = 0") (auto simp: ngx_proxy_wasm_pairs_size_def size_extras_eq Let_def min.commute)

section \<open>Round trip\<close>

definition wire_ok :: "table_elt \<Rightarrow> bool" where
  "wire_ok e \<longleftrightarrow> length (elt_key e) < 2 ^ 32 \<and> length (elt_value e) < 2 ^ 32"

lemma buf_read_append: "length a = n \<Longrightarrow> length b = k \<Longrightarrow> buf_read (a @ b @ c) n k = Some b"
  by (simp add: buf_read_def)

lemma read_lens_image:
  assumes "list_all wire_ok es" and "length pre = cur"
  shows "read_lens (pre @ concat (map len_image es) @ rest) (length es) cur =
     Some (map (\<lambda>e. (length (elt_key e), length (elt_value e))) es, cur + 8 * length es)"
  using assms
proof (induction es arbitrary: pre cur)
  case (Cons e es)
  let ?k = "le32 (of_nat (length (elt_key e)))" and ?v = "le32 (of_nat (length (elt_value e)))"
  let ?mem = "pre @ concat (map len_image (e # es)) @ rest"
  have m: "?mem = pre @ ?k @ (?v @ concat (map len_image es) @ rest)"
    "?mem = (pre @ ?k) @ ?v @ (concat (map len_image es) @ rest)"
    "?mem = (pre @ len_image e) @ concat (map len_image es) @ rest" by (simp_all add: len_image_def)
  have "buf_read ?mem cur 4 = Some ?k" unfolding m(1) by (rule buf_read_append) (use Cons.prems in simp_all)
  moreover have "buf_read ?mem (cur + 4) 4 = Some ?v" unfolding m(2) by (rule buf_read_append) (use Cons.prems in simp_all)
  moreover have "read_lens ?mem (length es) (cur + 8) =
      Some (map (\<lambda>e. (length (elt_key e), length (elt_value e))) es, cur + 8 + 8 * length es)"
    unfolding m(3) by (rule Cons.IH) (use Cons.prems in simp_all)
  ultimately show ?case using Cons.prems(1) by (simp add: wire_ok_def unat_of_nat_u32)
qed simp

lemma rebuilt_elt: "\<lparr>elt_hash = 0, elt_key = elt_key e, elt_value = elt_value e\<rparr> = e\<lparr>elt_hash := 0\<rparr>"
  by (cases e) simp

lemma read_data_image:
  assumes "length pre = cur" and "\<And>j. alloc_ok j"
  shows "read_data alloc_ok (pre @ concat (map data_image es) @ rest)
       (map (\<lambda>e. (length (elt_key e), length (elt_value e))) es) i cur =
     Some (Some (map (\<lambda>e. e\<lparr>elt_hash := 0\<rparr>) es))"
  using assms(1)
proof (induction es arbitrary: pre cur i)
  case (Cons e es)
  let ?mem = "pre @ concat (map data_image (e # es)) @ rest"
  have m: "?mem = pre @ (elt_key e @ [0]) @ (elt_value e @ [0]) @ concat (map data_image es) @ rest"
    "?mem = (pre @ elt_key e @ [0]) @ (elt_value e @ [0]) @ concat (map data_image es) @ rest"
    "?mem = (pre @ data_image e) @ concat (map data_image es) @ rest" by (simp_all add: data_image_def)
  have "buf_read ?mem cur (length (elt_key e) + 1) = Some (elt_key e @ [0])"
    unfolding m(1) by (rule buf_read_append) (use Cons.prems in simp_all)
  moreover have "buf_read ?mem (cur + length (elt_key e) + 1) (length (elt_value e) + 1) = Some (elt_value e @ [0])"
    unfolding m(2) by (rule buf_read_append) (use Cons.prems in simp_all)
  moreover have "read_data alloc_ok ?mem (map (\<lambda>e. (length (elt_key e), length (elt_value e))) es) (i + 2)
      (cur + length (elt_key e) + 1 + length (elt_value e) + 1) = Some (Some (map (\<lambda>e. e\<lparr>elt_hash := 0\<rparr>) es))"
    unfolding m(3) by (rule Cons.IH) (use Cons.prems in \<open>simp add: length_data_image\<close>)
  ultimately show ?case using assms(2) [of i] assms(2) [of "Suc i"] by (simp add: rebuilt_elt)
qed simp

lemma unmarshal_image:
  assumes "list_all wire_ok es" and "length es < 2 ^ 32" and "\<And>j. alloc_ok j" and "map_len \<noteq> 0"
  shows "ngx_proxy_wasm_pairs_unmarshal alloc_ok map_len (pairs_image es @ rest) =
     Some (NGX_OK, map (\<lambda>e. e\<lparr>elt_hash := 0\<rparr>) es)"
proof -
  let ?c = "le32 (of_nat (length es))" and ?l = "concat (map len_image es)" and ?d = "concat (map data_image es)"
  have m: "pairs_image es @ rest = [] @ ?c @ (?l @ ?d @ rest)" "pairs_image es @ rest = ?c @ ?l @ (?d @ rest)"
    "pairs_image es @ rest = (?c @ ?l) @ ?d @ rest" by (simp_all add: pairs_image_def)
  have "buf_read (pairs_image es @ rest) 0 4 = Some ?c" unfolding m(1) by (rule buf_read_append) simp_all
  moreover have "read_lens (pairs_image es @ rest) (length es) 4 =
      Some (map (\<lambda>e. (length (elt_key e), length (elt_value e))) es, 4 + 8 * length es)"
    unfolding m(2) by (rule read_lens_image) (use assms in simp_all)
  moreover have "length ?l = 8 * length es" by (induction es) simp_all
  then have "read_data alloc_ok (pairs_image es @ rest) (map (\<lambda>e. (length (elt_key e), length (elt_value e))) es) 1
      (4 + 8 * length es) = Some (Some (map (\<lambda>e. e\<lparr>elt_hash := 0\<rparr>) es))"
    unfolding m(3) by (intro read_data_image) (use assms(3) in simp_all)
  ultimately show ?thesis
    using assms by (simp add: ngx_proxy_wasm_pairs_unmarshal_def PTR_SIZE_def unat_of_nat_u32)
qed

lemma read_lens_bound: "read_lens mem k cur = Some r \<Longrightarrow> 0 < k \<Longrightarrow> cur + 8 * k \<le> length mem"
proof (induction k arbitrary: cur r)
  case (Suc k)
  from Suc.prems(1) obtain r' where r': "read_lens mem k (cur + 8) = Some r'" and "cur + 8 \<le> length mem"
    by (auto simp: buf_read_def split: option.splits if_splits)
  with Suc.IH [OF r'] show ?case by (cases "k = 0") simp_all
qed simp

section \<open>Properties\<close>

text \<open>
  C21. What marshalling writes, for any limit on the number of pairs (0 is no limit) once the guest has given a slice of the
  size \<open>sz\<close> that was asked for. From the start of the slice on, it writes the image of the extra pairs followed by the list, cut
  off at the limit, and leaves the rest of the memory as it is; the outcome is undefined exactly when that image reaches over the end of the
  memory. While the limit is not exceeded, the image has the size that was asked for, so that exactly the slice is
  written and the outcome is defined. (Above the limit the two sizes differ, see \<open>pairs_marshal_overflow\<close>.)
\<close>

theorem pairs_marshal_exact:
  assumes es: "list_elts parts = Some es" and size: "ngx_proxy_wasm_pairs_size parts shims max_pairs = Some sz"
    and alloc: "alloc sz mem = (p, mem1)" "p \<noteq> 0" "unat p + sz \<le> length mem1"
    and img: "img = pairs_image (if max_pairs = 0 then shims @ es else take max_pairs (shims @ es))"
  shows "ngx_proxy_wasm_marshal alloc dbg parts shims max_pairs mem =
      (if unat p + length img \<le> length mem1
       then Some (Some (p, of_nat sz, if max_pairs \<noteq> 0 \<and> length es + length shims > max_pairs then Some max_pairs else None),
                  take (unat p) mem1 @ img @ drop (unat p + length img) mem1)
       else None) \<and>
     (max_pairs = 0 \<or> length es + length shims \<le> max_pairs \<longrightarrow> length img = sz)"
proof (intro conjI impI)
  have w: "img = pairs_image (written_pairs es shims max_pairs)" by (simp add: img written_pairs_def)
  show "ngx_proxy_wasm_marshal alloc dbg parts shims max_pairs mem =
      (if unat p + length img \<le> length mem1
       then Some (Some (p, of_nat sz, if max_pairs \<noteq> 0 \<and> length es + length shims > max_pairs then Some max_pairs else None),
                  take (unat p) mem1 @ img @ drop (unat p + length img) mem1)
       else None)"
    using alloc size by (simp add: ngx_proxy_wasm_marshal_def pairs_marshal_eq [OF es] buf_write_def flip: w)
  assume "max_pairs = 0 \<or> length es + length shims \<le> max_pairs"
  then show "length img = sz"
    using size unfolding pairs_size_eq [OF es] img length_pairs_image by auto
qed

definition demo_elt :: "nat \<Rightarrow> nat \<Rightarrow> table_elt" where
  "demo_elt k v = \<lparr>elt_hash = 1, elt_key = replicate k 97, elt_value = replicate v 98\<rparr>"

definition demo_alloc :: "nat \<Rightarrow> bytes \<Rightarrow> u32 \<times> bytes" where
  "demo_alloc sz mem = (8, mem @ replicate (8 + sz - length mem) 0)"

theorem pairs_marshal_exact_witness:
  "ngx_proxy_wasm_marshal demo_alloc True [[demo_elt 1 2]] [demo_elt 3 4] 100 (replicate 50 0) =
     Some (Some (8, 34, None), replicate 8 0 @ pairs_image [demo_elt 3 4, demo_elt 1 2] @ replicate 8 0)"
proof -
  let ?img = "pairs_image (if (100 :: nat) = 0 then [demo_elt 3 4] @ [demo_elt 1 2] else take 100 ([demo_elt 3 4] @ [demo_elt 1 2]))"
  have size: "ngx_proxy_wasm_pairs_size [[demo_elt 1 2]] [demo_elt 3 4] 100 = Some 34" by code_simp
  have es: "list_elts [[demo_elt 1 2]] = Some [demo_elt 1 2]" by (simp add: list_elts_def demo_elt_def)
  have al: "demo_alloc 34 (replicate 50 0) = (8, replicate 50 0)" by (simp add: demo_alloc_def)
  note run = pairs_marshal_exact [where alloc = demo_alloc, OF es size al _ _ refl, of True]
  then have len: "length ?img = 34" by simp
  have "unat (8 :: u32) + length ?img \<le> length (replicate 50 0 :: bytes)" unfolding len by simp
  with run show ?thesis unfolding len by simp
qed

text \<open>
  When the limit is exceeded, the size and the writing disagree: the size is that of the first
  \<open>max_pairs\<close> pairs of the list and one extra pair, but the extra pairs are all written, before the
  list. If the extra pairs after the first one are longer than the pairs of the list
  they displace, marshalling writes behind the slice, and outside of the memory of the guest when the
  slice is at its end.
\<close>

theorem pairs_marshal_overflow:
  assumes es: "list_elts parts = Some es"
    and limit: "0 < max_pairs" "max_pairs \<le> length es" "length shims \<le> max_pairs" "shims \<noteq> []"
    and longer: "sum_list (map pair_size (tl shims)) >
      sum_list (map pair_size (drop (max_pairs - length shims) (take max_pairs es)))"
    and size: "ngx_proxy_wasm_pairs_size parts shims max_pairs = Some sz"
    and alloc: "alloc sz mem = (p, mem1)" "p \<noteq> 0" "unat p + sz = length mem1"
  shows "sz < length (pairs_image (written_pairs es shims max_pairs)) \<and>
     ngx_proxy_wasm_marshal alloc dbg parts shims max_pairs mem = None"
proof -
  let ?k = "max_pairs - length shims"
  have "written_pairs es shims max_pairs = shims @ take ?k es" using limit by (simp add: written_pairs_def)
  moreover have "take max_pairs es = take ?k es @ drop ?k (take max_pairs es)"
    by (metis append_take_drop_id diff_le_self min.absorb1 take_take)
  then have "sum_list (map pair_size (take max_pairs es)) =
      sum_list (map pair_size (take ?k es)) + sum_list (map pair_size (drop ?k (take max_pairs es)))"
    by (metis map_append sum_list_append)
  moreover obtain x xs where "shims = x # xs" using limit(4) by (cases shims) auto
  ultimately have over: "sz < length (pairs_image (written_pairs es shims max_pairs))"
    using size limit longer unfolding pairs_size_eq [OF es] length_pairs_image by (simp add: min_def)
  then have "buf_write mem1 (unat p) (pairs_image (written_pairs es shims max_pairs)) = None"
    using alloc(3) by (simp add: buf_write_def)
  with over alloc size show ?thesis
    by (simp add: ngx_proxy_wasm_marshal_def pairs_marshal_eq [OF es])
qed

theorem pairs_marshal_overflow_witness:
  "ngx_proxy_wasm_marshal demo_alloc True [[demo_elt 1 1, demo_elt 1 1, demo_elt 1 1]] [demo_elt 1 1, demo_elt 5 30] 3
     (replicate 10 0) = None"
proof -
  let ?l = "[[demo_elt 1 1, demo_elt 1 1, demo_elt 1 1]]" and ?x = "[demo_elt 1 1, demo_elt 5 30]"
  have "ngx_proxy_wasm_pairs_size ?l ?x 3 = Some 52" by code_simp
  moreover have "list_elts ?l = Some [demo_elt 1 1, demo_elt 1 1, demo_elt 1 1]"
    by (simp add: list_elts_def demo_elt_def)
  moreover have "sum_list (map pair_size (tl ?x)) >
      sum_list (map pair_size (drop (3 - length ?x) (take 3 [demo_elt 1 1, demo_elt 1 1, demo_elt 1 1])))" by code_simp
  moreover have "demo_alloc 52 (replicate 10 0) = (8, replicate 60 0)"
    by (simp add: demo_alloc_def flip: replicate_add)
  ultimately show ?thesis
    using pairs_marshal_overflow [of ?l "[demo_elt 1 1, demo_elt 1 1, demo_elt 1 1]" 3 ?x 52 demo_alloc "replicate 10 0" 8
        "replicate 60 0" True] by simp
qed

text \<open>
  C22. Round trip: what the host marshals into the memory of the guest, a guest that passes the
  pointer back gives as the same pairs, extra pairs first (the hash is not transmitted).
\<close>

theorem pairs_roundtrip:
  assumes "list_elts parts = Some es" and "max_pairs = 0 \<or> length es + length shims \<le> max_pairs"
    and "list_all wire_ok (shims @ es)" and "length es + length shims < 2 ^ 32" and "\<And>j. alloc_ok j"
    and wr: "ngx_proxy_wasm_pairs_marshal dbg parts shims mem p max_pairs = Some (mem', truncated)"
  shows "ngx_proxy_wasm_pairs_unmarshal alloc_ok (length (pairs_image (shims @ es))) (drop p mem') =
     Some (NGX_OK, map (\<lambda>e. e\<lparr>elt_hash := 0\<rparr>) (shims @ es))"
proof -
  have "written_pairs es shims max_pairs = shims @ es" using assms(2) by (auto simp: written_pairs_def)
  with wr have "drop p mem' = pairs_image (shims @ es) @ drop (p + length (pairs_image (shims @ es))) mem"
    by (auto simp: pairs_marshal_eq [OF assms(1)] buf_write_def split: if_splits)
  then show ?thesis
    using unmarshal_image [of "shims @ es" alloc_ok] assms(3-5) by (simp add: length_pairs_image PTR_SIZE_def)
qed

theorem pairs_roundtrip_witness:
  "\<exists>mem'. ngx_proxy_wasm_pairs_marshal True [[demo_elt 1 2]] [demo_elt 3 4] (replicate 50 0) 8 0 = Some (mem', None) \<and>
     ngx_proxy_wasm_pairs_unmarshal (\<lambda>j. True) (length (pairs_image [demo_elt 3 4, demo_elt 1 2])) (drop 8 mem') =
       Some (NGX_OK, [(demo_elt 3 4)\<lparr>elt_hash := 0\<rparr>, (demo_elt 1 2)\<lparr>elt_hash := 0\<rparr>])"
proof -
  have es: "list_elts [[demo_elt 1 2]] = Some [demo_elt 1 2]" by (simp add: list_elts_def demo_elt_def)
  have "map_option snd (ngx_proxy_wasm_pairs_marshal True [[demo_elt 1 2]] [demo_elt 3 4] (replicate 50 0) 8 0) = Some None"
    by code_simp
  then obtain mem' where w: "ngx_proxy_wasm_pairs_marshal True [[demo_elt 1 2]] [demo_elt 3 4] (replicate 50 0) 8 0 = Some (mem', None)"
    by auto
  have "list_all wire_ok [demo_elt 3 4, demo_elt 1 2]" by (simp add: wire_ok_def demo_elt_def)
  with pairs_roundtrip [OF es _ _ _ _ w, of "\<lambda>j. True"] w show ?thesis by simp
qed

text \<open>
  Reading a map from a guest does not look at its length: if the number of pairs that the first
  four bytes claim does not fit in the memory behind the pointer, the host reads
  outside of the memory, whatever length the guest gave.
\<close>

theorem pairs_unmarshal_out_of_bounds:
  assumes "map_len \<noteq> 0" and "mem = le32 count @ rest" and "alloc_ok 0"
    and "length rest < 8 * unat count"
  shows "ngx_proxy_wasm_pairs_unmarshal alloc_ok map_len mem = None"
proof -
  have "buf_read mem 0 4 = Some (le32 count)" using assms(2) by (simp add: buf_read_def)
  moreover have "read_lens mem (unat count) 4 = None"
    using read_lens_bound [of mem "unat count" 4] assms(2,4) by (cases "read_lens mem (unat count) 4") auto
  ultimately show ?thesis using assms(1,3) by (simp add: ngx_proxy_wasm_pairs_unmarshal_def PTR_SIZE_def)
qed

theorem pairs_unmarshal_out_of_bounds_witness:
  "ngx_proxy_wasm_pairs_unmarshal (\<lambda>j. True) 4 (le32 3 @ replicate 20 0) = None"
  by (rule pairs_unmarshal_out_of_bounds [where count = 3 and rest = "replicate 20 0"]) simp_all

end
