(* ===== verification/Proxy_Wasm_Maps.thy ===== *)
theory Proxy_Wasm_Maps
  imports Http_Headers Proxy_Wasm_Pairs Proxy_Wasm_Instance Guest_Memory
begin

text \<open>
  Header maps as a guest sees them (src/src/common/proxy_wasm/ngx_proxy_wasm_maps.c, src/src/http/ngx_http_wasm_headers_shims.c), and the host
  functions on them (src/src/common/proxy_wasm/ngx_proxy_wasm_host.c). A map is a list of headers, the pseudo headers that start with a colon,
  and, for a response, the headers that nginx writes itself.
\<close>

section \<open>State\<close>

text \<open>
  What is used of nginx besides its strings: the images of numbers, the configuration of the server and of the connection, and whether an
  array can grow.
\<close>

record map_env =
  strs :: ngx_strings
  clears :: ngx_clears
  dec :: "int \<Rightarrow> bytes"
  dec3 :: "nat \<Rightarrow> bytes"
  atoi :: "bytes \<Rightarrow> nat option"
  scheme_var :: "bytes option"
  sockaddr_ok :: bool
  server_name :: bytes
  hostname :: bytes
  local_port :: nat
  keepalive_header :: nat
  array_push_ok :: "nat \<Rightarrow> bool"

text \<open>
  The request and the context of the filters. \<open>pw_path\<close>, \<open>pw_scheme\<close> and the two status strings are caches, empty when there is nothing
  cached. The cache of the authority also has the state of a length without data, \<open>Some None\<close>. \<open>dispatch_call\<close> is the current call: \<open>Some None\<close>
  when no response was received, and otherwise its status and headers.
\<close>

record 'g map_ctx =
  mc_mem :: bytes
  mc_world :: 'g
  mc_req :: http_request
  mc_step :: pw_step
  abi_0_1_0 :: bool
  uri :: bytes
  uri_args :: bytes
  method_name :: bytes
  valid_unparsed_uri :: bool
  valid_location :: bool
  req_internal :: bool
  err_status :: nat
  status_line :: bytes
  status_line_len :: nat
  http_9 :: bool
  header_sent :: bool
  chunked :: bool
  gzip_vary :: bool
  pw_path :: bytes
  pw_scheme :: bytes
  pw_authority :: "bytes option option"
  response_code :: nat
  response_status :: bytes
  dispatch_call_code :: nat
  dispatch_call_status :: bytes
  dispatch_call :: "(nat \<times> header_elt list) option option"
  dispatch_sock_status :: bytes
  upstream_headers :: "header_elt list option"
  resp_shims :: "header_elt list option"
  reset_resp_shims :: bool
  req_headers_modified :: bool
  in_header_filter :: bool

datatype map_type =
    MAP_REQUEST_HEADERS | MAP_REQUEST_TRAILERS | MAP_RESPONSE_HEADERS | MAP_RESPONSE_TRAILERS | MAP_GRPC_INITIAL_METADATA
  | MAP_GRPC_TRAILING_METADATA | MAP_CALL_RESPONSE_HEADERS | MAP_CALL_RESPONSE_TRAILERS | MAP_UPSTREAM_RESPONSE_HEADERS

datatype map_op = MAP_SET | MAP_ADD | MAP_REMOVE

section \<open>Headers that nginx writes\<close>

datatype shim = Shim_content_type | Shim_content_len | Shim_transfer_encoding | Shim_connection | Shim_keep_alive | Shim_vary

definition ngx_http_wasm_shim_headers :: "(bytes \<times> shim) list" where
  "ngx_http_wasm_shim_headers = map (\<lambda>(k, s). (bytes_of_string k, s))
    [(''Content-Type'', Shim_content_type), (''Content-Length'', Shim_content_len), (''Transfer-Encoding'', Shim_transfer_encoding),
     (''Connection'', Shim_connection), (''Keep-Alive'', Shim_keep_alive), (''Vary'', Shim_vary)]"

definition has_cl :: "'g map_ctx \<Rightarrow> bool" where
  "has_cl m \<longleftrightarrow> builtins (headers_out (mc_req m)) ''content_length'' \<noteq> None"

fun shim_value :: "map_env \<Rightarrow> 'g map_ctx \<Rightarrow> shim \<Rightarrow> bytes option" where
  "shim_value E m Shim_content_type = (if content_type (mc_req m) \<noteq> [] then Some (content_type (mc_req m)) else None)"
| "shim_value E m Shim_content_len =
     (if \<not> has_cl m \<and> out_content_length_n (mc_req m) \<ge> 0 \<and> pnalloc (strs E) 16 \<noteq> None \<and> pnalloc (strs E) 20 \<noteq> None
      then Some (dec E (out_content_length_n (mc_req m))) else None)"
| "shim_value E m Shim_transfer_encoding =
     (if chunked m \<or> \<not> has_cl m \<and> out_content_length_n (mc_req m) < 0 then Some (bytes_of_string ''chunked'') else None)"
| "shim_value E m Shim_connection =
     Some (bytes_of_string (if out_status (mc_req m) = 101 then ''upgrade''
       else if req_keepalive (mc_req m) \<or> keepalive (mc_req m) then ''keep-alive'' else ''close''))"
| "shim_value E m Shim_keep_alive =
     (if req_keepalive (mc_req m) \<and> keepalive_header E \<noteq> 0 \<and> pnalloc (strs E) 16 \<noteq> None \<and> pnalloc (strs E) 28 \<noteq> None
      then Some (bytes_of_string ''timeout='' @ dec E (int (keepalive_header E))) else None)"
| "shim_value E m Shim_vary = (if gzip_vary m then Some (bytes_of_string ''Accept-Encoding'') else None)"

fun ngx_http_wasm_get_shim_header :: "map_env \<Rightarrow> 'g map_ctx \<Rightarrow> (bytes \<times> shim) list \<Rightarrow> bytes \<Rightarrow> bytes option" where
  "ngx_http_wasm_get_shim_header E m [] key = None"
| "ngx_http_wasm_get_shim_header E m ((k, s) # ss) key =
     (if length k = length key \<and> strncase_eq (strs E) k key then shim_value E m s else ngx_http_wasm_get_shim_header E m ss key)"

text \<open>The array of shims; \<open>None\<close> is NULL.\<close>

fun collect_shims :: "map_env \<Rightarrow> 'g map_ctx \<Rightarrow> (bytes \<times> shim) list \<Rightarrow> header_elt list \<Rightarrow> header_elt list option" where
  "collect_shims E m [] acc = Some acc"
| "collect_shims E m ((k, s) # ss) acc =
     (case shim_value E m s of
        None \<Rightarrow> collect_shims E m ss acc
      | Some v \<Rightarrow>
          if \<not> array_push_ok E (length acc) \<or> pnalloc (strs E) (length k) = None then None
          else collect_shims E m ss (acc @ [\<lparr>e_hash = 0, e_key = k, e_value = v, e_next = None\<rparr>]))"

definition ngx_http_wasm_get_shim_headers :: "map_env \<Rightarrow> 'g map_ctx \<Rightarrow> header_elt list option \<times> 'g map_ctx" where
  "ngx_http_wasm_get_shim_headers E m =
     (if resp_shims m \<noteq> None \<and> \<not> reset_resp_shims m then (resp_shims m, m)
      else if pnalloc (strs E) 224 = None then (None, m\<lparr>resp_shims := None\<rparr>)
      else case collect_shims E m ngx_http_wasm_shim_headers [] of
        None \<Rightarrow> (None, m\<lparr>resp_shims := Some []\<rparr>)
      | Some es \<Rightarrow> (Some es, m\<lparr>resp_shims := Some es, reset_resp_shims := False\<rparr>))"

section \<open>Pseudo headers\<close>

text \<open>The getters answer a string (\<open>None\<close> for NULL), with an outer \<open>None\<close> for an access through a NULL pointer.\<close>

definition ngx_proxy_wasm_maps_get_path :: "map_env \<Rightarrow> 'g map_ctx \<Rightarrow> bytes option \<times> 'g map_ctx" where
  "ngx_proxy_wasm_maps_get_path E m =
     (if pw_path m \<noteq> [] then (Some (pw_path m), m)
      else let path = uri m @ (if uri_args m \<noteq> [] then 63 # uri_args m else []) in
        if pnalloc (strs E) (length path) = None then (None, m)
        else (Some path, m\<lparr>pw_path := path\<rparr>))"

text \<open>The query starts behind the first question mark, which is searched for up to the first zero.\<close>

definition ngx_proxy_wasm_maps_set_path :: "bytes \<Rightarrow> 'g map_ctx \<Rightarrow> ngx_rc \<times> 'g map_ctx" where
  "ngx_proxy_wasm_maps_set_path val m =
     (let str = takeWhile (\<lambda>b. b \<noteq> 0) val;
          n = (if 63 \<in> set str then length (takeWhile (\<lambda>b. b \<noteq> 63) str) else length val);
          m1 = (if 63 \<in> set str then m\<lparr>uri_args := drop (Suc n) val\<rparr> else m) in
      (NGX_OK, m1\<lparr>uri := take n val, valid_unparsed_uri := False, valid_location := False, req_internal := True, pw_path := []\<rparr>))"

definition ngx_proxy_wasm_maps_get_scheme :: "map_env \<Rightarrow> 'g map_ctx \<Rightarrow> bytes option \<times> 'g map_ctx" where
  "ngx_proxy_wasm_maps_get_scheme E m =
     (if pw_scheme m \<noteq> [] then (Some (pw_scheme m), m)
      else if pnalloc (strs E) 6 = None then (None, m)
      else case scheme_var E of None \<Rightarrow> (None, m) | Some v \<Rightarrow> (Some v, m\<lparr>pw_scheme := v\<rparr>))"

definition authority_string :: "map_env \<Rightarrow> bytes" where
  "authority_string E =
     (let name = (if server_name E \<noteq> [] then server_name E else hostname E) in
      if local_port E \<noteq> 0 \<and> local_port E < 65536 then name @ 58 # dec E (int (local_port E)) else name)"

definition authority_len :: "map_env \<Rightarrow> nat" where
  "authority_len E =
     (let name = (if server_name E \<noteq> [] then server_name E else hostname E) in
      length name + (if local_port E \<noteq> 0 \<and> local_port E < 65536 then 6 else 0))"

definition ngx_proxy_wasm_maps_get_authority :: "map_env \<Rightarrow> 'g map_ctx \<Rightarrow> (bytes option \<times> 'g map_ctx) option" where
  "ngx_proxy_wasm_maps_get_authority E m =
     (case pw_authority m of
        Some None \<Rightarrow> None
      | Some (Some s) \<Rightarrow> Some (Some s, m)
      | None \<Rightarrow>
          if \<not> sockaddr_ok E then Some (None, m)
          else if pnalloc (strs E) (authority_len E) = None
          then Some (None, m\<lparr>pw_authority := (if authority_len E = 0 then None else Some None)\<rparr>)
          else if length (authority_string E) > authority_len E then None
          else Some (Some (authority_string E), m\<lparr>pw_authority := (if authority_string E = [] then None else Some (Some (authority_string E)))\<rparr>))"

definition ngx_proxy_wasm_maps_get_response_status :: "map_env \<Rightarrow> 'g map_ctx \<Rightarrow> bytes option \<times> 'g map_ctx" where
  "ngx_proxy_wasm_maps_get_response_status E m =
     (let status = (if err_status m \<noteq> 0 then err_status m else if out_status (mc_req m) \<noteq> 0 then out_status (mc_req m)
          else if http_9 m then 9 else 0) in
      if status = 0 then (None, m)
      else let m1 = (if status \<noteq> response_code m then m\<lparr>response_code := status, response_status := []\<rparr> else m) in
        if response_status m1 \<noteq> [] then (Some (response_status m1), m1)
        else if pnalloc (strs E) 20 = None then (None, m1)
        else (Some (dec3 E (response_code m1)), m1\<lparr>response_status := dec3 E (response_code m1)\<rparr>))"

definition ngx_http_wasm_set_resp_status :: "nat \<Rightarrow> bytes option \<Rightarrow> nat \<Rightarrow> 'g map_ctx \<Rightarrow> 'g map_ctx" where
  "ngx_http_wasm_set_resp_status status reason reason_len m =
     m\<lparr>mc_req := (mc_req m)\<lparr>out_status := status\<rparr>, err_status := 0,
       status_line := (case reason of None \<Rightarrow> status_line m | Some d \<Rightarrow> d), status_line_len := reason_len\<rparr>"

definition ngx_proxy_wasm_maps_set_response_status :: "map_env \<Rightarrow> bytes \<Rightarrow> 'g map_ctx \<Rightarrow> ngx_rc \<times> 'g map_ctx" where
  "ngx_proxy_wasm_maps_set_response_status E val m =
     (case atoi E val of
        None \<Rightarrow> (NGX_OK, m)
      | Some n \<Rightarrow> if n < 100 \<or> n > 599 then (NGX_OK, m) else (NGX_OK, ngx_http_wasm_set_resp_status n None 0 m))"

definition ngx_proxy_wasm_maps_get_dispatch_response_status :: "map_env \<Rightarrow> 'g map_ctx \<Rightarrow> (bytes option \<times> 'g map_ctx) option" where
  "ngx_proxy_wasm_maps_get_dispatch_response_status E m =
     (case dispatch_call m of
        None \<Rightarrow> None
      | Some None \<Rightarrow> Some (None, m)
      | Some (Some (status, es)) \<Rightarrow>
          if status = 0 then Some (None, m)
          else let m1 = (if status \<noteq> dispatch_call_code m then m\<lparr>dispatch_call_code := status, dispatch_call_status := []\<rparr> else m) in
            if dispatch_call_status m1 \<noteq> [] then Some (Some (dispatch_call_status m1), m1)
            else if pnalloc (strs E) 20 = None then Some (None, m1)
            else Some (Some (dec3 E (dispatch_call_code m1)), m1\<lparr>dispatch_call_status := dec3 E (dispatch_call_code m1)\<rparr>))"

definition ngx_proxy_wasm_maps_get_dispatch_status :: "'g map_ctx \<Rightarrow> (bytes option \<times> 'g map_ctx) option" where
  "ngx_proxy_wasm_maps_get_dispatch_status m = (if dispatch_call m = None then None else Some (Some (dispatch_sock_status m), m))"

datatype special = Sp_path | Sp_method | Sp_scheme | Sp_authority | Sp_status | Sp_call_status | Sp_dispatch_status

definition ngx_proxy_wasm_maps_special_keys :: "(bytes \<times> map_type \<times> special) list" where
  "ngx_proxy_wasm_maps_special_keys = map (\<lambda>(k, t, s). (bytes_of_string k, t, s))
    [('':path'', MAP_REQUEST_HEADERS, Sp_path), ('':method'', MAP_REQUEST_HEADERS, Sp_method), ('':scheme'', MAP_REQUEST_HEADERS, Sp_scheme),
     ('':authority'', MAP_REQUEST_HEADERS, Sp_authority), ('':status'', MAP_RESPONSE_HEADERS, Sp_status),
     ('':status'', MAP_CALL_RESPONSE_HEADERS, Sp_call_status), ('':dispatch_status'', MAP_CALL_RESPONSE_HEADERS, Sp_dispatch_status)]"

fun special_get :: "map_env \<Rightarrow> special \<Rightarrow> 'g map_ctx \<Rightarrow> (bytes option \<times> 'g map_ctx) option" where
  "special_get E Sp_path m = Some (ngx_proxy_wasm_maps_get_path E m)"
| "special_get E Sp_method m = Some (Some (method_name m), m)"
| "special_get E Sp_scheme m = Some (ngx_proxy_wasm_maps_get_scheme E m)"
| "special_get E Sp_authority m = ngx_proxy_wasm_maps_get_authority E m"
| "special_get E Sp_status m = Some (ngx_proxy_wasm_maps_get_response_status E m)"
| "special_get E Sp_call_status m = ngx_proxy_wasm_maps_get_dispatch_response_status E m"
| "special_get E Sp_dispatch_status m = ngx_proxy_wasm_maps_get_dispatch_status m"

text \<open>The setters dereference the value, which is NULL (\<open>None\<close>) for a removal. Keys without a setter are read-only.\<close>

fun special_set :: "map_env \<Rightarrow> special \<Rightarrow> bytes option \<Rightarrow> 'g map_ctx \<Rightarrow> (ngx_rc \<times> 'g map_ctx) option" where
  "special_set E Sp_path val m = map_option (\<lambda>v. ngx_proxy_wasm_maps_set_path v m) val"
| "special_set E Sp_method val m = map_option (\<lambda>v. (NGX_OK, m\<lparr>method_name := v\<rparr>)) val"
| "special_set E Sp_status val m = map_option (\<lambda>v. ngx_proxy_wasm_maps_set_response_status E v m) val"
| "special_set E s val m = Some (NGX_ABORT, m)"

definition find_special :: "map_type \<Rightarrow> bytes \<Rightarrow> special option" where
  "find_special t key = map_option (\<lambda>(k, t, s). s) (find (\<lambda>(k, t1, s). t1 = t \<and> k = key) ngx_proxy_wasm_maps_special_keys)"

definition ngx_proxy_wasm_maps_get_special_key :: "map_env \<Rightarrow> map_type \<Rightarrow> bytes \<Rightarrow> 'g map_ctx \<Rightarrow> (bytes option \<times> 'g map_ctx) option" where
  "ngx_proxy_wasm_maps_get_special_key E t key m =
     (case find_special t key of None \<Rightarrow> Some (None, m) | Some s \<Rightarrow> special_get E s m)"

definition ngx_proxy_wasm_maps_set_special_key ::
  "map_env \<Rightarrow> map_type \<Rightarrow> bytes \<Rightarrow> bytes option \<Rightarrow> 'g map_ctx \<Rightarrow> (ngx_rc \<times> 'g map_ctx) option" where
  "ngx_proxy_wasm_maps_set_special_key E t key val m =
     (case find_special t key of None \<Rightarrow> Some (NGX_DECLINED, m) | Some s \<Rightarrow> special_set E s val m)"

section \<open>Maps\<close>

text \<open>
  The list of a map, \<open>Some None\<close> for NULL. For a call without a response the list is inside of a structure that is NULL; every caller reads it.
\<close>

definition ngx_proxy_wasm_maps_get_map :: "map_type \<Rightarrow> 'g map_ctx \<Rightarrow> header_elt list option option" where
  "ngx_proxy_wasm_maps_get_map t m =
     (case t of
        MAP_REQUEST_HEADERS \<Rightarrow> Some (Some (elts (headers_in (mc_req m))))
      | MAP_RESPONSE_HEADERS \<Rightarrow> Some (Some (elts (headers_out (mc_req m))))
      | MAP_CALL_RESPONSE_HEADERS \<Rightarrow>
          (case dispatch_call m of None \<Rightarrow> Some None | Some None \<Rightarrow> None | Some (Some (s, es)) \<Rightarrow> Some (Some es))
      | MAP_UPSTREAM_RESPONSE_HEADERS \<Rightarrow> Some (if mc_step m \<noteq> STEP_NEXT_UPSTREAM then None else upstream_headers m)
      | _ \<Rightarrow> Some None)"

text \<open>
  The extra pairs of a map: the pseudo headers of the type that have a value, and the shims of a response. \<open>Some None\<close> is a failure.
\<close>

fun special_extras :: "map_env \<Rightarrow> map_type \<Rightarrow> (bytes \<times> map_type \<times> special) list \<Rightarrow> header_elt list \<Rightarrow> 'g map_ctx \<Rightarrow>
    (header_elt list option \<times> 'g map_ctx) option" where
  "special_extras E t [] acc m = Some (Some acc, m)"
| "special_extras E t ((k, t1, s) # ks) acc m =
     (if t1 \<noteq> t then special_extras E t ks acc m
      else do {
        (v, m1) \<leftarrow> special_get E s m;
        case v of
          None \<Rightarrow> special_extras E t ks acc m1
        | Some v1 \<Rightarrow>
            if v1 = [] then special_extras E t ks acc m1
            else if \<not> array_push_ok E (length acc) then Some (None, m1)
            else special_extras E t ks (acc @ [\<lparr>e_hash = 0, e_key = k, e_value = v1, e_next = None\<rparr>]) m1 })"

fun push_all :: "(nat \<Rightarrow> bool) \<Rightarrow> header_elt list \<Rightarrow> header_elt list \<Rightarrow> header_elt list option" where
  "push_all ok [] acc = Some acc"
| "push_all ok (e # es) acc = (if ok (length acc) then push_all ok es (acc @ [e]) else None)"

definition ngx_proxy_wasm_maps_get_all :: "map_env \<Rightarrow> map_type \<Rightarrow> 'g map_ctx \<Rightarrow> ((header_elt list \<times> header_elt list) option \<times> 'g map_ctx) option" where
  "ngx_proxy_wasm_maps_get_all E t m =
     (case ngx_proxy_wasm_maps_get_map t m of
        None \<Rightarrow> None
      | Some None \<Rightarrow> Some (None, m)
      | Some (Some es) \<Rightarrow> do {
          (ex, m1) \<leftarrow> special_extras E t ngx_proxy_wasm_maps_special_keys [] m;
          case ex of
            None \<Rightarrow> Some (None, m1)
          | Some acc \<Rightarrow>
              if t = MAP_RESPONSE_HEADERS \<and> (mc_step m1 = STEP_RESP_HEADERS \<or> mc_step m1 = STEP_RESP_BODY \<or> mc_step m1 = STEP_LOG)
              then (case ngx_http_wasm_get_shim_headers E m1 of
                  (None, m2) \<Rightarrow> None
                | (Some sh, m2) \<Rightarrow>
                    (case push_all (array_push_ok E) sh acc of None \<Rightarrow> Some (None, m2) | Some acc1 \<Rightarrow> Some (Some (es, acc1), m2)))
              else Some (Some (es, acc), m1) })"

definition ngx_proxy_wasm_maps_get :: "map_env \<Rightarrow> map_type \<Rightarrow> bytes \<Rightarrow> 'g map_ctx \<Rightarrow> (bytes option \<times> 'g map_ctx) option" where
  "ngx_proxy_wasm_maps_get E t key m = do {
     (v, m1) \<leftarrow> ngx_proxy_wasm_maps_get_special_key E t key m;
     if v \<noteq> None then Some (v, m1)
     else (case ngx_proxy_wasm_maps_get_map t m1 of
         None \<Rightarrow> None
       | Some None \<Rightarrow> Some (None, m1)
       | Some (Some es) \<Rightarrow>
           (case ngx_wasm_get_list_elem (strs E) es key of
              Some w \<Rightarrow> Some (Some w, m1)
            | None \<Rightarrow> Some (if t = MAP_RESPONSE_HEADERS then ngx_http_wasm_get_shim_header E m1 ngx_http_wasm_shim_headers key else None, m1))) }"

fun mode_of :: "map_op \<Rightarrow> set_mode" where
  "mode_of MAP_SET = HEADERS_SET"
| "mode_of MAP_ADD = HEADERS_APPEND"
| "mode_of MAP_REMOVE = HEADERS_REMOVE"

definition set_header_of ::
  "bool \<Rightarrow> map_env \<Rightarrow> map_type \<Rightarrow> bytes \<Rightarrow> bytes option \<Rightarrow> set_mode \<Rightarrow> 'g map_ctx \<Rightarrow> (ngx_rc \<times> 'g map_ctx) option" where
  "set_header_of dbg E t key val mode m =
     (let fin = (\<lambda>(rc, r). Some (if rc = NGX_DECLINED then NGX_OK else rc, m\<lparr>mc_req := r\<rparr>)) in
      case t of
        MAP_REQUEST_HEADERS \<Rightarrow> Option.bind (ngx_http_wasm_set_req_header dbg (strs E) (clears E) key val mode (mc_req m)) fin
      | MAP_RESPONSE_HEADERS \<Rightarrow> Option.bind (ngx_http_wasm_set_resp_header dbg (strs E) (clears E) key val mode (mc_req m)) fin
      | _ \<Rightarrow> if dbg then None else Some (NGX_ERROR, m))"

text \<open>\<open>ngx_proxy_wasm_maps_set\<close>: key and value are copied first, unless a header is removed.\<close>

definition ngx_proxy_wasm_maps_set ::
  "bool \<Rightarrow> map_env \<Rightarrow> map_type \<Rightarrow> bytes \<Rightarrow> bytes option \<Rightarrow> map_op \<Rightarrow> 'g map_ctx \<Rightarrow> (ngx_rc \<times> 'g map_ctx) option" where
  "ngx_proxy_wasm_maps_set dbg E t key val op m =
     (if op \<noteq> MAP_REMOVE \<and> val = None then None
      else if op \<noteq> MAP_REMOVE \<and> (pnalloc (strs E) (length key) = None \<or> pnalloc (strs E) (length (the val) + 1) = None) then Some (NGX_ERROR, m)
      else do {
        (rc, m1) \<leftarrow> ngx_proxy_wasm_maps_set_special_key E t key val m;
        if rc = NGX_DECLINED then set_header_of dbg E t key val (mode_of op) m1 else Some (rc, m1) })"

fun ngx_proxy_wasm_maps_set_all ::
  "bool \<Rightarrow> map_env \<Rightarrow> map_type \<Rightarrow> (bytes \<times> bytes) list \<Rightarrow> 'g map_ctx \<Rightarrow> (ngx_rc \<times> 'g map_ctx) option" where
  "ngx_proxy_wasm_maps_set_all dbg E t [] m = Some (NGX_OK, m)"
| "ngx_proxy_wasm_maps_set_all dbg E t ((k, v) # ps) m = do {
     (rc, m1) \<leftarrow> ngx_proxy_wasm_maps_set dbg E t k (Some v) MAP_SET m;
     if rc \<noteq> NGX_OK then Some (rc, m1) else ngx_proxy_wasm_maps_set_all dbg E t ps m1 }"

section \<open>Host functions\<close>

definition pair_of :: "header_elt \<Rightarrow> table_elt" where
  "pair_of e = \<lparr>elt_hash = e_hash e, elt_key = e_key e, elt_value = e_value e\<rparr>"

text \<open>\<open>max_pairs\<close> is the limit on pairs of the filter, 0 for none.\<close>

definition marshal_pairs ::
  "bool \<Rightarrow> 'g hguest \<Rightarrow> nat \<Rightarrow> ngx_list \<Rightarrow> table_elt list \<Rightarrow> nat \<Rightarrow> nat \<Rightarrow> 'g map_ctx \<Rightarrow> (hfunc_ret \<times> 'g map_ctx) option" where
  "marshal_pairs dbg G max_pairs parts extras rbuf rlen m = do {
     sz \<leftarrow> ngx_proxy_wasm_pairs_size parts extras max_pairs;
     let w = snd (snd (h_malloc G sz (mc_mem m) (mc_world m)));
     (r, mem1) \<leftarrow> ngx_proxy_wasm_marshal (\<lambda>n mem. (fst (h_malloc G n mem (mc_world m)), fst (snd (h_malloc G n mem (mc_world m))))) dbg parts extras max_pairs (mc_mem m);
     case r of
       None \<Rightarrow> Some (Result RESULT_INVALID_MEM_ACCESS, m\<lparr>mc_mem := mem1, mc_world := w\<rparr>)
     | Some (p, len, truncated) \<Rightarrow> do {
         mem2 \<leftarrow> buf_write mem1 rbuf (le32 p);
         mem3 \<leftarrow> buf_write mem2 rlen (le32 len);
         Some (Result RESULT_OK, m\<lparr>mc_mem := mem3, mc_world := w\<rparr>) } }"

definition ngx_proxy_wasm_hfuncs_get_header_map_pairs ::
  "bool \<Rightarrow> map_env \<Rightarrow> 'g hguest \<Rightarrow> nat \<Rightarrow> map_type \<Rightarrow> u32 \<Rightarrow> u32 \<Rightarrow> 'g map_ctx \<Rightarrow> (hfunc_ret \<times> 'g map_ctx) option" where
  "ngx_proxy_wasm_hfuncs_get_header_map_pairs dbg E G max_pairs t rbuf_ptr rlen_ptr m =
     (case (lift_u32 (mc_mem m) rbuf_ptr, lift_u32 (mc_mem m) rlen_ptr) of
        (Some rbuf, Some rlen) \<Rightarrow> do {
          (r, m1) \<leftarrow> ngx_proxy_wasm_maps_get_all E t m;
          case r of
            None \<Rightarrow> Some (Result RESULT_BAD_ARGUMENT, m1)
          | Some (es, extras) \<Rightarrow> marshal_pairs dbg G max_pairs [map pair_of es] (map pair_of extras) rbuf rlen m1 }
      | _ \<Rightarrow> Some (Bad_usage, m))"

text \<open>Returning a value: to memory that the guest allocates, with its pointer and length in two words.\<close>

definition return_value :: "'g hguest \<Rightarrow> bytes \<Rightarrow> nat \<Rightarrow> nat \<Rightarrow> 'g map_ctx \<Rightarrow> (hfunc_ret \<times> 'g map_ctx) option" where
  "return_value G val rbuf rlen m =
     (case h_malloc G (length val) (mc_mem m) (mc_world m) of
        (p, mem1, w) \<Rightarrow>
          let m1 = m\<lparr>mc_mem := mem1, mc_world := w\<rparr> in
          if p = 0 then Some (Result RESULT_INTERNAL_FAILURE, m1)
          else (case ngx_wavm_memory_lift mem1 p (of_nat (length val)) 1 of
              None \<Rightarrow> Some (Result RESULT_INVALID_MEM_ACCESS, m1)
            | Some dst \<Rightarrow> do {
                mem2 \<leftarrow> (case dst of None \<Rightarrow> Some mem1 | Some off \<Rightarrow> buf_write mem1 off val);
                mem3 \<leftarrow> buf_write mem2 rbuf (le32 p);
                mem4 \<leftarrow> buf_write mem3 rlen (le32 (of_nat (length val)));
                Some (Result RESULT_OK, m1\<lparr>mc_mem := mem4\<rparr>) }))"

definition ngx_proxy_wasm_hfuncs_get_header_map_value ::
  "map_env \<Rightarrow> 'g hguest \<Rightarrow> map_type \<Rightarrow> u32 \<Rightarrow> u32 \<Rightarrow> u32 \<Rightarrow> u32 \<Rightarrow> 'g map_ctx \<Rightarrow> (hfunc_ret \<times> 'g map_ctx) option" where
  "ngx_proxy_wasm_hfuncs_get_header_map_value E G t key_ptr key_len rbuf_ptr rlen_ptr m =
     (case (ngx_wavm_memory_lift (mc_mem m) key_ptr key_len 1, lift_u32 (mc_mem m) rbuf_ptr, lift_u32 (mc_mem m) rlen_ptr) of
        (Some kp, Some rbuf, Some rlen) \<Rightarrow> do {
          (v, m1) \<leftarrow> ngx_proxy_wasm_maps_get E t (read_slice (mc_mem m) kp key_len) m;
          case v of
            None \<Rightarrow>
              if abi_0_1_0 m1 then do { mem1 \<leftarrow> buf_write (mc_mem m1) rlen (le32 0); Some (Result RESULT_OK, m1\<lparr>mc_mem := mem1\<rparr>) }
              else Some (Result RESULT_NOT_FOUND, m1)
          | Some val \<Rightarrow> return_value G val rbuf rlen m1 }
      | _ \<Rightarrow> Some (Bad_usage, m))"

text \<open>
  The check of the step: \<open>None\<close> lets the caller go on. The answer for a bad map is \<open>NGX_WAVM_OK\<close>, which is 0 as \<open>NGX_OK\<close> is.
\<close>

definition ngx_proxy_wasm_hfuncs_set_header_check :: "map_type \<Rightarrow> 'g map_ctx \<Rightarrow> hfunc_ret option \<times> 'g map_ctx" where
  "ngx_proxy_wasm_hfuncs_set_header_check t m =
     (case t of
        MAP_REQUEST_HEADERS \<Rightarrow>
          if mc_step m \<in> {STEP_REQ_HEADERS, STEP_REQ_BODY, STEP_REQ_TRAILERS} \<or>
             mc_step m \<in> {STEP_UPSTREAM_SELECT, STEP_DISPATCH_RESPONSE} \<and> \<not> in_header_filter m
          then (None, m\<lparr>req_headers_modified := True\<rparr>) else (Some Bad_usage, m)
      | MAP_RESPONSE_HEADERS \<Rightarrow>
          if mc_step m \<in> {STEP_REQ_HEADERS, STEP_REQ_BODY, STEP_REQ_TRAILERS, STEP_RESP_HEADERS} \<or>
             mc_step m = STEP_DISPATCH_RESPONSE \<and> \<not> header_sent m
          then (None, m) else (Some Bad_usage, m)
      | MAP_UPSTREAM_RESPONSE_HEADERS \<Rightarrow> (Some Bad_usage, m)
      | _ \<Rightarrow> (None, m))"

definition clear_map :: "bool \<Rightarrow> map_env \<Rightarrow> map_type \<Rightarrow> 'g map_ctx \<Rightarrow> (ngx_rc \<times> 'g map_ctx) option option" where
  "clear_map dbg E t m =
     (let fin = (\<lambda>(rc, r). Some (rc, m\<lparr>mc_req := r\<rparr>)) in
      case t of
        MAP_REQUEST_HEADERS \<Rightarrow> Some (Option.bind (ngx_http_wasm_clear_req_headers dbg (strs E) (clears E) (mc_req m)) fin)
      | MAP_RESPONSE_HEADERS \<Rightarrow> Some (Option.bind (ngx_http_wasm_clear_resp_headers dbg (strs E) (clears E) (mc_req m)) fin)
      | _ \<Rightarrow> None)"

text \<open>The return code of a set as a result: \<open>NGX_ABORT\<close> is a read-only header, which is not an error.\<close>

definition set_result :: "bool \<Rightarrow> ngx_rc \<times> 'g map_ctx \<Rightarrow> (hfunc_ret \<times> 'g map_ctx) option" where
  "set_result dbg r =
     (if fst r = NGX_ERROR then Some (Result RESULT_INTERNAL_FAILURE, snd r)
      else if \<not> ngx_wa_assert dbg (fst r = NGX_OK \<or> fst r = NGX_ABORT) then None
      else Some (Result RESULT_OK, snd r))"

definition ngx_proxy_wasm_hfuncs_set_header_map_pairs ::
  "bool \<Rightarrow> map_env \<Rightarrow> (nat \<Rightarrow> bool) \<Rightarrow> map_type \<Rightarrow> u32 \<Rightarrow> u32 \<Rightarrow> 'g map_ctx \<Rightarrow> (hfunc_ret \<times> 'g map_ctx) option" where
  "ngx_proxy_wasm_hfuncs_set_header_map_pairs dbg E alloc_ok t map_ptr map_len m =
     (case ngx_wavm_memory_lift (mc_mem m) map_ptr map_len 1 of
        None \<Rightarrow> Some (Bad_usage, m)
      | Some mp \<Rightarrow> do {
          (rc, ps) \<leftarrow> ngx_proxy_wasm_pairs_unmarshal alloc_ok (unat map_len) (case mp of None \<Rightarrow> [] | Some off \<Rightarrow> drop off (mc_mem m));
          if rc \<noteq> NGX_OK then Some (Result RESULT_INTERNAL_FAILURE, m)
          else (case ngx_proxy_wasm_hfuncs_set_header_check t m of
              (Some r, m1) \<Rightarrow> Some (r, m1)
            | (None, m1) \<Rightarrow>
                (case clear_map dbg E t m1 of
                   None \<Rightarrow> Some (Result RESULT_BAD_ARGUMENT, m1)
                 | Some res \<Rightarrow> do {
                     (rc1, m2) \<leftarrow> res;
                     if rc1 \<noteq> NGX_OK then Some (Result RESULT_INTERNAL_FAILURE, m2)
                     else do {
                       r \<leftarrow> ngx_proxy_wasm_maps_set_all dbg E t (map (\<lambda>e. (elt_key e, elt_value e)) ps) m2;
                       set_result dbg r } })) })"

definition set_map_value ::
  "bool \<Rightarrow> map_env \<Rightarrow> map_op \<Rightarrow> map_type \<Rightarrow> u32 \<Rightarrow> u32 \<Rightarrow> u32 \<Rightarrow> u32 \<Rightarrow> 'g map_ctx \<Rightarrow> (hfunc_ret \<times> 'g map_ctx) option" where
  "set_map_value dbg E op t key_ptr key_len val_ptr val_len m =
     (case (ngx_wavm_memory_lift (mc_mem m) key_ptr key_len 1, ngx_wavm_memory_lift (mc_mem m) val_ptr val_len 1) of
        (Some kp, Some vp) \<Rightarrow>
          (case ngx_proxy_wasm_hfuncs_set_header_check t m of
             (Some r, m1) \<Rightarrow> Some (r, m1)
           | (None, m1) \<Rightarrow> do {
               r \<leftarrow> ngx_proxy_wasm_maps_set dbg E t (read_slice (mc_mem m1) kp key_len) (Some (read_slice (mc_mem m1) vp val_len)) op m1;
               set_result dbg r })
      | _ \<Rightarrow> Some (Bad_usage, m))"

definition ngx_proxy_wasm_hfuncs_add_header_map_value ::
  "bool \<Rightarrow> map_env \<Rightarrow> map_type \<Rightarrow> u32 \<Rightarrow> u32 \<Rightarrow> u32 \<Rightarrow> u32 \<Rightarrow> 'g map_ctx \<Rightarrow> (hfunc_ret \<times> 'g map_ctx) option" where
  "ngx_proxy_wasm_hfuncs_add_header_map_value dbg E = set_map_value dbg E MAP_ADD"

definition ngx_proxy_wasm_hfuncs_replace_header_map_value ::
  "bool \<Rightarrow> map_env \<Rightarrow> map_type \<Rightarrow> u32 \<Rightarrow> u32 \<Rightarrow> u32 \<Rightarrow> u32 \<Rightarrow> 'g map_ctx \<Rightarrow> (hfunc_ret \<times> 'g map_ctx) option" where
  "ngx_proxy_wasm_hfuncs_replace_header_map_value dbg E = set_map_value dbg E MAP_SET"

definition ngx_proxy_wasm_hfuncs_remove_header_map_value ::
  "bool \<Rightarrow> map_env \<Rightarrow> map_type \<Rightarrow> u32 \<Rightarrow> u32 \<Rightarrow> 'g map_ctx \<Rightarrow> (hfunc_ret \<times> 'g map_ctx) option" where
  "ngx_proxy_wasm_hfuncs_remove_header_map_value dbg E t key_ptr key_len m =
     (case ngx_wavm_memory_lift (mc_mem m) key_ptr key_len 1 of
        None \<Rightarrow> Some (Bad_usage, m)
      | Some kp \<Rightarrow>
          (case ngx_proxy_wasm_hfuncs_set_header_check t m of
             (Some r, m1) \<Rightarrow> Some (r, m1)
           | (None, m1) \<Rightarrow> do {
               r \<leftarrow> ngx_proxy_wasm_maps_set dbg E t (read_slice (mc_mem m1) kp key_len) None MAP_REMOVE m1;
               set_result dbg r }))"

end
