(* ===== verification/Proxy_Wasm_Properties.thy ===== *)
theory Proxy_Wasm_Properties
  imports Proxy_Wasm_Maps
begin

text \<open>
  Properties of the proxy-wasm interface (src/src/common/proxy_wasm/ngx_proxy_wasm_properties.c) and the host functions on them
  (src/src/common/proxy_wasm/ngx_proxy_wasm_host.c). A path names an attribute of the request, which is a variable of nginx or has a
  getter of its own, a variable of nginx with the prefix ngx, or a property of the host with the prefix wasmx.
\<close>

section \<open>State\<close>

text \<open>Variables of nginx: what the hash of variables has on one, and a value of one.\<close>

record ngx_var =
  v_changeable :: bool
  v_set_handler :: bool
  v_index :: "nat option"

record var_value =
  vv_valid :: bool
  vv_not_found :: bool
  vv_no_cacheable :: bool
  vv_data :: bytes

text \<open>
  Used of nginx: the hash of variables (by hash and name), \<open>ngx_http_get_variable\<close> and the set handlers of variables, which may change the
  indexed values of the request and other state \<open>'w\<close>, and a few numbers as text.
\<close>

record 'w prop_env =
  p_maps :: map_env
  core_main_conf :: bool
  variables_hash :: "u64 \<Rightarrow> bytes \<Rightarrow> ngx_var option"
  ngx_http_get_variable :: "u64 \<Rightarrow> bytes \<Rightarrow> (nat \<Rightarrow> var_value) \<Rightarrow> 'w \<Rightarrow> var_value option \<times> (nat \<Rightarrow> var_value) \<times> 'w"
  var_set_handler :: "bytes \<Rightarrow> var_value \<Rightarrow> (nat \<Rightarrow> var_value) \<Rightarrow> 'w \<Rightarrow> (nat \<Rightarrow> var_value) \<times> 'w"
  start_time_image :: bytes
  connection_number :: int
  worker_number :: int

text \<open>
  A property of the host. A value that was given back to the pool and not replaced is \<open>hp_freed\<close>: \<open>ngx_pfree\<close> releases
  it when it is larger than the blocks of the pool, and the model takes every such value for gone. \<open>None\<close> is a NULL value.
\<close>

record host_prop =
  hp_value :: "bytes option"
  hp_freed :: bool
  hp_const :: bool
  hp_const_null :: bool

text \<open>The state of an attempt at an upstream server; a time that is not known is \<open>None\<close>.\<close>

record upstream_state =
  us_peer :: "bytes option"
  us_status :: nat
  us_connect_time :: "nat option"
  us_response_time :: "nat option"
  us_header_time :: "nat option"

text \<open>A getter or setter that Lua code installed answers a return code, a value and an error message.\<close>

type_synonym 'w ffi = "bytes \<Rightarrow> bytes option \<Rightarrow> 'w \<Rightarrow> ngx_rc \<times> bytes \<times> bytes \<times> 'w"

text \<open>
  The stream context. \<open>in_request\<close> says that there is a request and that it is not a fake one; \<open>chain_names\<close> are the names of the filters
  of the chain.
\<close>

record ('g, 'w) prop_ctx =
  pc :: "'g map_ctx"
  in_request :: bool
  is_sub :: bool
  variables :: "nat \<Rightarrow> var_value"
  pc_world :: 'w
  host_props :: "bytes \<rightharpoonup> host_prop"
  ffi_getter :: "'w ffi option"
  ffi_setter :: "'w ffi option"
  upstream_states :: "upstream_state list"
  chain_names :: "bytes list"
  pc_exec_index :: nat
  root_name :: bytes
  start_time :: bytes
  connection_id :: bytes
  c_root_id :: bytes
  worker_id :: bytes
  mtls :: bytes

abbreviation p_alloc :: "'w prop_env \<Rightarrow> nat \<Rightarrow> bool" where
  "p_alloc E n \<equiv> pnalloc (strs (p_maps E)) n \<noteq> None"

text \<open>A getter answers a return code and a value, which is only meaningful with \<open>NGX_OK\<close>.\<close>

type_synonym ('g, 'w) got = "(ngx_rc \<times> bytes \<times> ('g, 'w) prop_ctx) option"

section \<open>Variables of nginx\<close>

definition ngx_prefix :: bytes where
  "ngx_prefix = bytes_of_string ''ngx.''"

definition host_prefix :: bytes where
  "host_prefix = bytes_of_string ''wasmx.''"

definition hash_str :: "bytes \<Rightarrow> u64" where
  "hash_str src = foldl (\<lambda>key c. key * 31 + ucast c) 0 src"

text \<open>The names of both start behind the prefix of the path. Without a request the context has none to read.\<close>

definition ngx_proxy_wasm_properties_get_ngx :: "'w prop_env \<Rightarrow> bytes \<Rightarrow> ('g, 'w) prop_ctx \<Rightarrow> ('g, 'w) got" where
  "ngx_proxy_wasm_properties_get_ngx E path st =
     (if \<not> in_request st then None
      else let name = drop (length ngx_prefix) path in
        case ngx_http_get_variable E (hash_str name) name (variables st) (pc_world st) of
          (vv, vars, w) \<Rightarrow>
            let st1 = st\<lparr>variables := vars, pc_world := w\<rparr> in
            case vv of
              Some v \<Rightarrow> if vv_not_found v then Some (NGX_DECLINED, [], st1) else Some (NGX_OK, vv_data v, st1)
            | None \<Rightarrow> Some (NGX_DECLINED, [], st1))"

definition ngx_proxy_wasm_properties_set_ngx ::
  "'w prop_env \<Rightarrow> bytes \<Rightarrow> bytes option \<Rightarrow> ('g, 'w) prop_ctx \<Rightarrow> (ngx_rc \<times> ('g, 'w) prop_ctx) option" where
  "ngx_proxy_wasm_properties_set_ngx E path val st =
     (if \<not> in_request st then None
      else if \<not> core_main_conf E then Some (NGX_ERROR, st)
      else let name = drop (length ngx_prefix) path; len = (case val of None \<Rightarrow> 0 | Some d \<Rightarrow> length d) in
        case variables_hash E (hash_str name) name of
          None \<Rightarrow> Some (NGX_DECLINED, st)
        | Some v \<Rightarrow>
            if \<not> v_changeable v then Some (NGX_ERROR, st)
            else if v_set_handler v
            then (if \<not> p_alloc E (16 + len) then Some (NGX_ERROR, st)
              else let vv = (case val of
                    Some d \<Rightarrow> \<lparr>vv_valid = True, vv_not_found = False, vv_no_cacheable = False, vv_data = d\<rparr>
                  | None \<Rightarrow> \<lparr>vv_valid = False, vv_not_found = True, vv_no_cacheable = False, vv_data = []\<rparr>) in
                case var_set_handler E name vv (variables st) (pc_world st) of
                  (vars, w) \<Rightarrow> Some (NGX_OK, st\<lparr>variables := vars, pc_world := w\<rparr>))
            else (case v_index v of
                None \<Rightarrow> Some (NGX_DECLINED, st)
              | Some i \<Rightarrow>
                  (case val of
                     None \<Rightarrow> Some (NGX_OK, st\<lparr>variables := (variables st)(i :=
                       \<lparr>vv_valid = False, vv_not_found = True, vv_no_cacheable = False, vv_data = []\<rparr>)\<rparr>)
                   | Some d \<Rightarrow>
                       if \<not> p_alloc E len then Some (NGX_ERROR, st)
                       else Some (NGX_OK, st\<lparr>variables := (variables st)(i :=
                         \<lparr>vv_valid = True, vv_not_found = False, vv_no_cacheable = False, vv_data = d\<rparr>)\<rparr>))))"

section \<open>Properties of the host\<close>

definition ngx_proxy_wasm_properties_get_host :: "bytes \<Rightarrow> ('g, 'w) prop_ctx \<Rightarrow> (ngx_rc \<times> bytes) option" where
  "ngx_proxy_wasm_properties_get_host path st =
     (case host_props st path of
        None \<Rightarrow> Some (NGX_DECLINED, [])
      | Some hp \<Rightarrow>
          if ffi_getter st \<noteq> None \<and> \<not> hp_const hp then Some (NGX_DECLINED, [])
          else if hp_const_null hp then Some (NGX_BUSY, [])
          else if hp_freed hp then None
          else Some (NGX_OK, case hp_value hp of None \<Rightarrow> [] | Some d \<Rightarrow> d))"

definition set_hpn_value :: "bool \<Rightarrow> 'w prop_env \<Rightarrow> bytes option \<Rightarrow> bool \<Rightarrow> host_prop \<Rightarrow> (ngx_rc \<times> host_prop) option" where
  "set_hpn_value dbg E val is_const hp =
     (case val of
        None \<Rightarrow>
          if ngx_wa_assert dbg is_const
          then Some (NGX_OK, \<lparr>hp_value = None, hp_freed = False, hp_const = is_const, hp_const_null = True\<rparr>) else None
      | Some d \<Rightarrow>
          if p_alloc E (length d)
          then Some (NGX_OK, hp\<lparr>hp_value := Some d, hp_freed := False, hp_const := is_const\<rparr>) else Some (NGX_ERROR, hp))"

text \<open>
  \<open>ngx_proxy_wasm_properties_set_host\<close>. The argument \<open>retrieve\<close> only has the caller's string point to the stored value. The size of a node
  without its path is 88.
\<close>

definition ngx_proxy_wasm_properties_set_host ::
  "bool \<Rightarrow> 'w prop_env \<Rightarrow> bytes \<Rightarrow> bytes option \<Rightarrow> bool \<Rightarrow> ('g, 'w) prop_ctx \<Rightarrow> (ngx_rc \<times> ('g, 'w) prop_ctx) option" where
  "ngx_proxy_wasm_properties_set_host dbg E path val is_const st =
     (if \<not> ngx_wa_assert dbg (in_request st) then None
      else case host_props st path of
        Some hp \<Rightarrow>
          if hp_const hp then Some (NGX_DECLINED, st)
          else if val = None \<and> \<not> is_const then Some (NGX_OK, st\<lparr>host_props := (host_props st)(path := None)\<rparr>)
          else (case set_hpn_value dbg E val is_const (hp\<lparr>hp_freed := hp_value hp \<noteq> None\<rparr>) of
              None \<Rightarrow> None
            | Some (rc, hp1) \<Rightarrow> Some (if rc \<noteq> NGX_OK then NGX_ERROR else NGX_OK, st\<lparr>host_props := (host_props st)(path \<mapsto> hp1)\<rparr>))
      | None \<Rightarrow>
          if val = None \<and> \<not> is_const then Some (NGX_OK, st)
          else if \<not> p_alloc E (88 + length path) then Some (NGX_ERROR, st)
          else (case set_hpn_value dbg E val is_const \<lparr>hp_value = None, hp_freed = False, hp_const = False, hp_const_null = False\<rparr> of
              None \<Rightarrow> None
            | Some (rc, hp1) \<Rightarrow>
                if rc \<noteq> NGX_OK then Some (NGX_ERROR, st) else Some (NGX_OK, st\<lparr>host_props := (host_props st)(path \<mapsto> hp1)\<rparr>)))"

definition ngx_proxy_wasm_properties_set_ffi_handlers ::
  "'w ffi \<Rightarrow> 'w ffi \<Rightarrow> ('g, 'w) prop_ctx \<Rightarrow> ngx_rc \<times> ('g, 'w) prop_ctx" where
  "ngx_proxy_wasm_properties_set_ffi_handlers getter setter st =
     (if \<not> in_request st then (NGX_ERROR, st)
      else if ffi_getter st \<noteq> None \<or> ffi_setter st \<noteq> None then (NGX_ABORT, st)
      else (NGX_OK, st\<lparr>ffi_getter := Some getter, ffi_setter := Some setter\<rparr>))"

section \<open>Getters of attributes\<close>

text \<open>Headers are read through the maps of the instance of the current filter of the chain.\<close>

definition get_map_value :: "'w prop_env \<Rightarrow> bytes \<Rightarrow> map_type \<Rightarrow> ('g, 'w) prop_ctx \<Rightarrow> ('g, 'w) got" where
  "get_map_value E name t st =
     (if pc_exec_index st \<ge> length (chain_names st) then None
      else do {
        (r, m1) \<leftarrow> ngx_proxy_wasm_maps_get (p_maps E) t name (pc st);
        let st1 = st\<lparr>pc := m1\<rparr>;
        case r of None \<Rightarrow> Some (NGX_DECLINED, [], st1) | Some v \<Rightarrow> Some (NGX_OK, v, st1) })"

definition get_request_time :: "'w prop_env \<Rightarrow> ('g, 'w) prop_ctx \<Rightarrow> ('g, 'w) got" where
  "get_request_time E st =
     (if start_time st \<noteq> [] then Some (NGX_OK, start_time st, st)
      else if \<not> p_alloc E 24 then Some (NGX_ERROR, [], st)
      else Some (NGX_OK, start_time_image E, st\<lparr>start_time := start_time_image E\<rparr>))"

definition is_subrequest :: "('g, 'w) prop_ctx \<Rightarrow> ('g, 'w) got" where
  "is_subrequest st = Some (NGX_OK, bytes_of_string (if is_sub st then ''true'' else ''false''), st)"

text \<open>\<open>ngx_http_wasm_get_last_upstream_state\<close> (src/src/http/ngx_http_wasm_upstream.c)\<close>

definition ngx_http_wasm_get_last_upstream_state :: "('g, 'w) prop_ctx \<Rightarrow> upstream_state option" where
  "ngx_http_wasm_get_last_upstream_state st =
     (if mc_step (pc st) \<noteq> STEP_UPSTREAM_INFO \<or> upstream_states st = [] then None else Some (last (upstream_states st)))"

definition get_upstream_address :: "('g, 'w) prop_ctx \<Rightarrow> ('g, 'w) got" where
  "get_upstream_address st =
     (case ngx_http_wasm_get_last_upstream_state st of
        None \<Rightarrow> Some (NGX_DECLINED, [], st)
      | Some s \<Rightarrow> (case us_peer s of None \<Rightarrow> Some (NGX_DECLINED, [], st) | Some p \<Rightarrow> Some (NGX_OK, p, st)))"

definition number_value :: "'w prop_env \<Rightarrow> int \<Rightarrow> ('g, 'w) prop_ctx \<Rightarrow> ('g, 'w) got" where
  "number_value E n st =
     (let s = dec (p_maps E) n in if p_alloc E (length s) then Some (NGX_OK, s, st) else Some (NGX_ERROR, [], st))"

definition get_upstream_status :: "'w prop_env \<Rightarrow> ('g, 'w) prop_ctx \<Rightarrow> ('g, 'w) got" where
  "get_upstream_status E st =
     (case ngx_http_wasm_get_last_upstream_state st of
        None \<Rightarrow> Some (NGX_DECLINED, [], st)
      | Some s \<Rightarrow> if us_status s = 0 then Some (NGX_DECLINED, [], st) else number_value E (int (us_status s)) st)"

definition get_upstream_time :: "'w prop_env \<Rightarrow> nat option \<Rightarrow> ('g, 'w) prop_ctx \<Rightarrow> ('g, 'w) got" where
  "get_upstream_time E msec st = (case msec of None \<Rightarrow> Some (NGX_DECLINED, [], st) | Some n \<Rightarrow> number_value E (int n) st)"

definition upstream_time_of :: "'w prop_env \<Rightarrow> (upstream_state \<Rightarrow> nat option) \<Rightarrow> ('g, 'w) prop_ctx \<Rightarrow> ('g, 'w) got" where
  "upstream_time_of E f st =
     (case ngx_http_wasm_get_last_upstream_state st of None \<Rightarrow> Some (NGX_DECLINED, [], st) | Some s \<Rightarrow> get_upstream_time E (f s) st)"

definition get_connection_id :: "'w prop_env \<Rightarrow> ('g, 'w) prop_ctx \<Rightarrow> ('g, 'w) got" where
  "get_connection_id E st =
     (if connection_id st \<noteq> [] then Some (NGX_OK, connection_id st, st)
      else let s = dec (p_maps E) (connection_number E) in
        if \<not> p_alloc E (length s) then Some (NGX_ERROR, [], st) else Some (NGX_OK, s, st\<lparr>connection_id := s\<rparr>))"

definition get_connection_mtls :: "'w prop_env \<Rightarrow> ('g, 'w) prop_ctx \<Rightarrow> ('g, 'w) got" where
  "get_connection_mtls E st =
     (if mtls st \<noteq> [] then Some (NGX_OK, mtls st, st)
      else do {
        (rc1, https, st1) \<leftarrow> ngx_proxy_wasm_properties_get_ngx E (bytes_of_string ''ngx.https'') st;
        if rc1 \<noteq> NGX_OK then Some (rc1, [], st1)
        else do {
          (rc2, verify, st2) \<leftarrow> ngx_proxy_wasm_properties_get_ngx E (bytes_of_string ''ngx.ssl_client_verify'') st1;
          if rc2 \<noteq> NGX_OK then Some (rc2, [], st2)
          else let r = bytes_of_string (if https = bytes_of_string ''on'' \<and> verify = bytes_of_string ''SUCCESS'' then ''true'' else ''false'') in
            if \<not> p_alloc E (length r) then Some (NGX_ERROR, [], st2) else Some (NGX_OK, r, st2\<lparr>mtls := r\<rparr>) } })"

text \<open>In a tick there is no chain, and the name is that of the filter of the root context.\<close>

definition get_filter_name :: "('g, 'w) prop_ctx \<Rightarrow> ('g, 'w) got" where
  "get_filter_name st =
     (if mc_step (pc st) = STEP_TICK then Some (NGX_OK, root_name st, st)
      else if pc_exec_index st < length (chain_names st) then Some (NGX_OK, chain_names st ! pc_exec_index st, st) else None)"

text \<open>
  The string \<open>root_id\<close> itself is passed for the conversion \<open>%i\<close>, of which the length is printed; it is 0 there.
\<close>

definition get_filter_root_id :: "'w prop_env \<Rightarrow> ('g, 'w) prop_ctx \<Rightarrow> ('g, 'w) got" where
  "get_filter_root_id E st =
     (if c_root_id st \<noteq> [] then Some (NGX_OK, c_root_id st, st)
      else let s = dec (p_maps E) (int (length (c_root_id st))) in
        if \<not> p_alloc E (length s) then Some (NGX_ERROR, [], st) else Some (NGX_OK, s, st\<lparr>c_root_id := s\<rparr>))"

definition get_worker_id :: "'w prop_env \<Rightarrow> ('g, 'w) prop_ctx \<Rightarrow> ('g, 'w) got" where
  "get_worker_id E st =
     (if worker_id st \<noteq> [] then Some (NGX_OK, worker_id st, st)
      else let s = dec (p_maps E) (worker_number E) in
        if \<not> p_alloc E (length s) then Some (NGX_ERROR, [], st) else Some (NGX_OK, s, st\<lparr>worker_id := s\<rparr>))"

text \<open>The attributes that are not available, and those that are headers.\<close>

definition nyi :: "('g, 'w) prop_ctx \<Rightarrow> ('g, 'w) got" where
  "nyi st = Some (NGX_DECLINED, [], st)"

definition not_supported :: "('g, 'w) prop_ctx \<Rightarrow> ('g, 'w) got" where
  "not_supported st = Some (NGX_DECLINED, [], st)"

definition get_request_id :: "'w prop_env \<Rightarrow> ('g, 'w) prop_ctx \<Rightarrow> ('g, 'w) got" where
  "get_request_id E st = get_map_value E (bytes_of_string ''x-request-id'') MAP_REQUEST_HEADERS st"

definition get_referer :: "'w prop_env \<Rightarrow> ('g, 'w) prop_ctx \<Rightarrow> ('g, 'w) got" where
  "get_referer E st = get_map_value E (bytes_of_string ''referer'') MAP_REQUEST_HEADERS st"

definition get_request_header :: "'w prop_env \<Rightarrow> bytes \<Rightarrow> ('g, 'w) prop_ctx \<Rightarrow> ('g, 'w) got" where
  "get_request_header E path st = get_map_value E (drop 16 path) MAP_REQUEST_HEADERS st"

definition get_response_header :: "'w prop_env \<Rightarrow> bytes \<Rightarrow> ('g, 'w) prop_ctx \<Rightarrow> ('g, 'w) got" where
  "get_response_header E path st = get_map_value E (drop 17 path) MAP_RESPONSE_HEADERS st"

definition get_upstream_connect_time :: "'w prop_env \<Rightarrow> ('g, 'w) prop_ctx \<Rightarrow> ('g, 'w) got" where
  "get_upstream_connect_time E st = upstream_time_of E us_connect_time st"

definition get_upstream_response_time :: "'w prop_env \<Rightarrow> ('g, 'w) prop_ctx \<Rightarrow> ('g, 'w) got" where
  "get_upstream_response_time E st = upstream_time_of E us_response_time st"

definition get_upstream_header_time :: "'w prop_env \<Rightarrow> ('g, 'w) prop_ctx \<Rightarrow> ('g, 'w) got" where
  "get_upstream_header_time E st = upstream_time_of E us_header_time st"

lemmas getter_defs = nyi_def not_supported_def get_request_id_def get_referer_def get_request_header_def get_response_header_def
  get_upstream_connect_time_def get_upstream_response_time_def get_upstream_header_time_def

declare getter_defs [simp]

datatype prop_getter =
    Nyi | Not_supported | Get_request_id | Get_referer | Get_request_time | Get_request_header | Is_subrequest | Get_response_header
  | Get_upstream_address | Get_upstream_status | Get_upstream_connect_time | Get_upstream_response_time | Get_upstream_header_time
  | Get_connection_id | Get_connection_mtls | Get_filter_name | Get_filter_root_id | Get_worker_id

fun run_getter :: "'w prop_env \<Rightarrow> prop_getter \<Rightarrow> bytes \<Rightarrow> ('g, 'w) prop_ctx \<Rightarrow> ('g, 'w) got" where
  "run_getter E Nyi path st = nyi st"
| "run_getter E Not_supported path st = not_supported st"
| "run_getter E Get_request_id path st = get_request_id E st"
| "run_getter E Get_referer path st = get_referer E st"
| "run_getter E Get_request_time path st = get_request_time E st"
| "run_getter E Get_request_header path st = get_request_header E path st"
| "run_getter E Is_subrequest path st = is_subrequest st"
| "run_getter E Get_response_header path st = get_response_header E path st"
| "run_getter E Get_upstream_address path st = get_upstream_address st"
| "run_getter E Get_upstream_status path st = get_upstream_status E st"
| "run_getter E Get_upstream_connect_time path st = get_upstream_connect_time E st"
| "run_getter E Get_upstream_response_time path st = get_upstream_response_time E st"
| "run_getter E Get_upstream_header_time path st = get_upstream_header_time E st"
| "run_getter E Get_connection_id path st = get_connection_id E st"
| "run_getter E Get_connection_mtls path st = get_connection_mtls E st"
| "run_getter E Get_filter_name path st = get_filter_name st"
| "run_getter E Get_filter_root_id path st = get_filter_root_id E st"
| "run_getter E Get_worker_id path st = get_worker_id E st"

section \<open>The table of attributes\<close>

text \<open>An attribute is a variable of nginx or has a getter. Entries that end with an asterisk match every path with the prefix.\<close>

datatype prop_target = Variable string | Getter prop_getter

definition pw2ngx :: "bool \<Rightarrow> (string \<times> prop_target) list" where
  "pw2ngx dbg =
    [(''request.path'', Variable ''ngx.request_uri''), (''request.url_path'', Variable ''ngx.uri''),
     (''request.host'', Variable ''ngx.hostname''), (''request.scheme'', Variable ''ngx.scheme''),
     (''request.method'', Variable ''ngx.request_method''), (''request.useragent'', Variable ''ngx.http_user_agent''),
     (''request.protocol'', Variable ''ngx.server_protocol''), (''request.query'', Variable ''ngx.args''),
     (''request.id'', Getter Get_request_id), (''request.referer'', Getter Get_referer), (''request.time'', Getter Get_request_time),
     (''request.duration'', Variable ''ngx.request_time''), (''request.size'', Variable ''ngx.content_length''),
     (''request.total_size'', Variable ''ngx.request_length''), (''request.headers.*'', Getter Get_request_header),
     (''request.is_subrequest'', Getter Is_subrequest), (''response.code'', Variable ''ngx.status''),
     (''response.size'', Variable ''ngx.body_bytes_sent''), (''response.total_size'', Variable ''ngx.bytes_sent''),
     (''response.grpc_status'', Getter Nyi), (''response.trailers'', Getter Nyi), (''response.code_details'', Getter Not_supported),
     (''response.flags'', Getter Not_supported), (''response.headers.*'', Getter Get_response_header),
     (''upstream.address'', Getter Get_upstream_address), (''upstream.status'', Getter Get_upstream_status),
     (''upstream.connect_time'', Getter Get_upstream_connect_time), (''upstream.response_time'', Getter Get_upstream_response_time),
     (''upstream.header_time'', Getter Get_upstream_header_time), (''upstream.tls_version'', Getter Nyi),
     (''upstream.subject_local_certificate'', Getter Nyi), (''upstream.subject_peer_certificate'', Getter Nyi),
     (''upstream.dns_san_local_certificate'', Getter Nyi), (''upstream.dns_san_peer_certificate'', Getter Nyi),
     (''upstream.uri_san_local_certificate'', Getter Nyi), (''upstream.uri_san_peer_certificate'', Getter Nyi),
     (''upstream.sha256_peer_certificate_digest'', Getter Nyi), (''upstream.local_address'', Getter Nyi),
     (''upstream.transport_failure_reason'', Getter Nyi), (''destination.address'', Variable ''ngx.proxy_protocol_addr''),
     (''destination.port'', Variable ''ngx.proxy_protocol_port''),
     (''connection.requested_server_name'', Variable ''ngx.ssl_server_name''),
     (''connection.tls_version'', Variable ''ngx.ssl_protocol''),
     (''connection.subject_local_certificate'', Variable ''ngx.ssl_client_s_dn''), (''connection.id'', Getter Get_connection_id),
     (''connection.mtls'', Getter Get_connection_mtls), (''connection.subject_peer_certificate'', Getter Nyi),
     (''connection.dns_san_local_certificate'', Getter Nyi), (''connection.dns_san_peer_certificate'', Getter Nyi),
     (''connection.uri_san_local_certificate'', Getter Nyi), (''connection.uri_san_peer_certificate'', Getter Nyi),
     (''connection.sha256_peer_certificate_digest'', Getter Nyi), (''connection.termination_details'', Getter Not_supported),
     (''source.address'', Variable ''ngx.remote_addr''), (''source.port'', Variable ''ngx.remote_port''),
     (''plugin_name'', Getter Get_filter_name), (''plugin_root_id'', Getter Get_filter_root_id), (''plugin_vm_id'', Getter Nyi),
     (''node'', Getter Not_supported), (''cluster_name'', Getter Not_supported), (''cluster_metadata'', Getter Not_supported),
     (''listener_direction'', Getter Not_supported), (''listener_metadata'', Getter Not_supported),
     (''route_name'', Getter Not_supported), (''route_metadata'', Getter Not_supported),
     (''upstream_host_metadata'', Getter Not_supported)]
    @ (if dbg then [(''worker_id'', Getter Get_worker_id)] else [])"

definition wildcard :: "string \<Rightarrow> bool" where
  "wildcard k = (last k = CHR ''*'')"

text \<open>
  \<open>ngx_hash_find_combined\<close> on the hash that \<open>ngx_proxy_wasm_properties_init\<close> makes of the table: the entry of the path, or else the wildcard
  entry with a prefix of it.
\<close>

definition find_mapping :: "bool \<Rightarrow> bytes \<Rightarrow> prop_target option" where
  "find_mapping dbg p =
     map_option snd (case find (\<lambda>(k, t). \<not> wildcard k \<and> bytes_of_string k = p) (pw2ngx dbg) of
        Some e \<Rightarrow> Some e
      | None \<Rightarrow> find (\<lambda>(k, t). wildcard k \<and> bytes_of_string (butlast k) = take (length (butlast k)) p) (pw2ngx dbg))"

section \<open>Getting and setting\<close>

definition replace_nulls_by_dots :: "bytes \<Rightarrow> bytes" where
  "replace_nulls_by_dots from = map (\<lambda>b. if b = 0 then 46 else b) from"

text \<open>
  \<open>ngx_strchr\<close> on the copy of the path, which has no terminating zero: the search goes on behind it. \<open>behind\<close> is what the stack holds there.
\<close>

definition finds_dot :: "bytes \<Rightarrow> bytes \<Rightarrow> bool" where
  "finds_dot p behind \<longleftrightarrow> 46 \<in> set (takeWhile (\<lambda>b. b \<noteq> 0) (p @ behind))"

definition has_prefix :: "bytes \<Rightarrow> bytes \<Rightarrow> bool" where
  "has_prefix pre p \<longleftrightarrow> length p > length pre \<and> take (length pre) p = pre"

text \<open>The answers have the error message of a handler in Lua.\<close>

definition get_host_property :: "bytes \<Rightarrow> ('g, 'w) prop_ctx \<Rightarrow> (ngx_rc \<times> bytes \<times> bytes \<times> ('g, 'w) prop_ctx) option" where
  "get_host_property p st =
     (case ngx_proxy_wasm_properties_get_host p st of
        None \<Rightarrow> None
      | Some (rc, v) \<Rightarrow>
          if rc = NGX_OK then Some (NGX_OK, v, [], st)
          else if rc = NGX_BUSY then Some (NGX_DECLINED, [], [], st)
          else (case ffi_getter st of
              Some f \<Rightarrow> (case f p None (pc_world st) of (rc1, v1, err, w) \<Rightarrow> Some (rc1, v1, err, st\<lparr>pc_world := w\<rparr>))
            | None \<Rightarrow> Some (rc, [], [], st)))"

definition ngx_proxy_wasm_properties_get ::
  "bool \<Rightarrow> 'w prop_env \<Rightarrow> bytes \<Rightarrow> bytes \<Rightarrow> ('g, 'w) prop_ctx \<Rightarrow> (ngx_rc \<times> bytes \<times> bytes \<times> ('g, 'w) prop_ctx) option" where
  "ngx_proxy_wasm_properties_get dbg E behind path st =
     (let p = replace_nulls_by_dots path; ret = map_option (\<lambda>(rc, v, st1). (rc, v, [], st1)) in
      if \<not> in_request st \<and> finds_dot p behind then Some (NGX_ERROR, [], [], st)
      else case find_mapping dbg p of
        Some (Variable k) \<Rightarrow> ret (ngx_proxy_wasm_properties_get_ngx E (bytes_of_string k) st)
      | Some (Getter g) \<Rightarrow> ret (run_getter E g p st)
      | None \<Rightarrow>
          if has_prefix ngx_prefix p then ret (ngx_proxy_wasm_properties_get_ngx E p st)
          else if has_prefix host_prefix p then get_host_property p st
          else Some (NGX_DECLINED, [], [], st))"

definition ngx_proxy_wasm_properties_set ::
  "bool \<Rightarrow> 'w prop_env \<Rightarrow> bytes \<Rightarrow> bytes \<Rightarrow> bytes option \<Rightarrow> ('g, 'w) prop_ctx \<Rightarrow> (ngx_rc \<times> bytes \<times> ('g, 'w) prop_ctx) option" where
  "ngx_proxy_wasm_properties_set dbg E behind path val st =
     (let p = replace_nulls_by_dots path; ret = map_option (\<lambda>(rc, st1). (rc, [], st1)) in
      if \<not> in_request st \<and> finds_dot p behind then Some (NGX_ERROR, [], st)
      else if has_prefix ngx_prefix p then ret (ngx_proxy_wasm_properties_set_ngx E p val st)
      else case find_mapping dbg p of
        Some (Variable k) \<Rightarrow> ret (ngx_proxy_wasm_properties_set_ngx E (bytes_of_string k) val st)
      | _ \<Rightarrow>
          if has_prefix host_prefix p
          then (case ffi_setter st of
              Some f \<Rightarrow> (case f p val (pc_world st) of (rc, v, err, w) \<Rightarrow> Some (rc, err, st\<lparr>pc_world := w\<rparr>))
            | None \<Rightarrow> ret (ngx_proxy_wasm_properties_set_host dbg E p val False st))
          else Some (NGX_DECLINED, [], st))"

section \<open>Host functions\<close>

text \<open>\<open>ngx_proxy_wasm_properties_unmarsh_path\<close> writes the dots into the memory of the guest.\<close>

definition ngx_proxy_wasm_properties_unmarsh_path :: "nat option \<Rightarrow> u32 \<Rightarrow> 'g map_ctx \<Rightarrow> 'g map_ctx option" where
  "ngx_proxy_wasm_properties_unmarsh_path off len m =
     (case off of
        None \<Rightarrow> Some m
      | Some o1 \<Rightarrow> map_option (\<lambda>mem. m\<lparr>mc_mem := mem\<rparr>) (buf_write (mc_mem m) o1 (replace_nulls_by_dots (read_slice (mc_mem m) (Some o1) len))))"

definition on_map :: "(hfunc_ret \<times> 'g map_ctx) option \<Rightarrow> ('g, 'w) prop_ctx \<Rightarrow> (hfunc_ret \<times> ('g, 'w) prop_ctx) option" where
  "on_map r st = map_option (\<lambda>(x, m). (x, st\<lparr>pc := m\<rparr>)) r"

definition property_error :: "bytes \<Rightarrow> nat option \<Rightarrow> u32 \<Rightarrow> ('g, 'w) prop_ctx \<Rightarrow> (hfunc_ret \<times> ('g, 'w) prop_ctx) option" where
  "property_error err off len st =
     (if err = [] then Some (Result RESULT_INTERNAL_FAILURE, st)
      else on_map (map_option (\<lambda>m. (Wavm_error, m)) (ngx_proxy_wasm_properties_unmarsh_path off len (pc st))) st)"

definition ngx_proxy_wasm_hfuncs_get_property ::
  "bool \<Rightarrow> 'w prop_env \<Rightarrow> 'g hguest \<Rightarrow> bytes \<Rightarrow> u32 \<Rightarrow> u32 \<Rightarrow> u32 \<Rightarrow> u32 \<Rightarrow> ('g, 'w) prop_ctx \<Rightarrow> (hfunc_ret \<times> ('g, 'w) prop_ctx) option" where
  "ngx_proxy_wasm_hfuncs_get_property dbg E G behind path_ptr path_len ret_data_ptr ret_size_ptr st =
     (let mem = mc_mem (pc st) in
      case (ngx_wavm_memory_lift mem path_ptr path_len 1, lift_u32 mem ret_data_ptr, lift_u32 mem ret_size_ptr) of
        (Some off, Some ret_data, Some ret_size) \<Rightarrow> do {
          (rc, v, err, st1) \<leftarrow> ngx_proxy_wasm_properties_get dbg E behind (read_slice mem off path_len) st;
          case rc of
            NGX_DECLINED \<Rightarrow> Some (Result RESULT_NOT_FOUND, st1)
          | NGX_ERROR \<Rightarrow> property_error err off path_len st1
          | NGX_OK \<Rightarrow> on_map (return_value G v ret_data ret_size (pc st1)) st1
          | _ \<Rightarrow> None }
      | _ \<Rightarrow> Some (Bad_usage, st))"

definition ngx_proxy_wasm_hfuncs_set_property ::
  "bool \<Rightarrow> 'w prop_env \<Rightarrow> bytes \<Rightarrow> u32 \<Rightarrow> u32 \<Rightarrow> u32 \<Rightarrow> u32 \<Rightarrow> ('g, 'w) prop_ctx \<Rightarrow> (hfunc_ret \<times> ('g, 'w) prop_ctx) option" where
  "ngx_proxy_wasm_hfuncs_set_property dbg E behind path_ptr path_len value_ptr value_len st =
     (let mem = mc_mem (pc st) in
      case (ngx_wavm_memory_lift mem path_ptr path_len 1, ngx_wavm_memory_lift mem value_ptr value_len 1) of
        (Some off, Some voff) \<Rightarrow> do {
          (rc, err, st1) \<leftarrow> ngx_proxy_wasm_properties_set dbg E behind (read_slice mem off path_len)
              (map_option (\<lambda>o1. read_slice mem (Some o1) value_len) voff) st;
          case rc of
            NGX_DECLINED \<Rightarrow> Some (Result RESULT_NOT_FOUND, st1)
          | NGX_ERROR \<Rightarrow> property_error err off path_len st1
          | _ \<Rightarrow> if ngx_wa_assert dbg (rc = NGX_OK) then Some (Result RESULT_OK, st1) else None }
      | _ \<Rightarrow> Some (Bad_usage, st))"

end
