(* ===== verification/Http_Headers_Props.thy ===== *)
theory Http_Headers_Props
  imports Http_Headers
begin

text \<open>
  Properties of setting headers: what the search does in each mode, when it does not end, and that no header a
  guest sets can break out of its line.
\<close>

section \<open>The search\<close>

text \<open>What the string functions of nginx promise: a comparison without case, and a hash that respects it.\<close>

definition strings_laws :: "ngx_strings \<Rightarrow> bool" where
  "strings_laws S \<longleftrightarrow>
     (\<forall>a. strncase_eq S a a) \<and> (\<forall>a b. strncase_eq S a b \<longrightarrow> strncase_eq S b a) \<and>
     (\<forall>a b c. strncase_eq S a b \<longrightarrow> strncase_eq S b c \<longrightarrow> strncase_eq S a c) \<and>
     (\<forall>a b. length a = length b \<longrightarrow> strncase_eq S a b \<longrightarrow> hash_key_lc S a = hash_key_lc S b) \<and>
     hash_key_lc S [] = 0 \<and> (\<forall>n buf. pnalloc S n = Some buf \<longrightarrow> length buf = n)"

lemma copy_escaped_alloc:
  "strings_laws S \<Longrightarrow> ngx_http_copy_escaped (pnalloc S) data kind =
    (if escape_count kind data = 0 then Some (Some data)
     else if pnalloc S (length data + 2 * escape_count kind data + 1) = None then Some None
     else Some (Some (escaped kind data)))"
  by (rule copy_escaped_spec) (simp add: strings_laws_def)

definition same_name :: "ngx_strings \<Rightarrow> bytes \<Rightarrow> bytes \<Rightarrow> bool" where
  "same_name S a b \<longleftrightarrow> length a = length b \<and> strncase_eq S a b"

lemma same_name_refl [simp]: "strings_laws S \<Longrightarrow> same_name S a a"
  by (simp add: strings_laws_def same_name_def)

lemma same_name_sym: "strings_laws S \<Longrightarrow> same_name S a b \<Longrightarrow> same_name S b a"
  unfolding strings_laws_def same_name_def by metis

lemma same_name_trans: "strings_laws S \<Longrightarrow> same_name S a b \<Longrightarrow> same_name S b c \<Longrightarrow> same_name S a c"
  unfolding strings_laws_def same_name_def by metis

lemma same_name_hash: "strings_laws S \<Longrightarrow> same_name S a b \<Longrightarrow> hash_key_lc S a = hash_key_lc S b"
  unfolding strings_laws_def same_name_def by metis

definition clear_elt :: "ngx_strings \<Rightarrow> header_set_ctx \<Rightarrow> header_elt \<Rightarrow> header_elt" where
  "clear_elt S hv e = (if elt_matches S hv e then e\<lparr>e_hash := 0\<rparr> else e)"

definition set_elt :: "header_set_ctx \<Rightarrow> header_elt \<Rightarrow> header_elt" where
  "set_elt hv e = e\<lparr>e_key := hv_key hv, e_value := str_of (hv_value hv), e_hash := hv_hash hv\<rparr>"

lemma search_pass_clearing:
  assumes "hv_mode hv = HEADERS_REMOVE \<or> found"
  shows "search_pass S hv is found out es =
    (case find (\<lambda>i. elt_matches S hv (es ! i)) is of
       None \<Rightarrow> (False, found, out, es)
     | Some i \<Rightarrow> (True, True, Some None, es[i := clear_elt S hv (es ! i)]))"
  using assms by (induction "is") (auto simp: clear_elt_def)

lemma search_pass_setting:
  assumes "hv_mode hv \<noteq> HEADERS_REMOVE"
  shows "search_pass S hv is False out es =
    (case dropWhile (\<lambda>i. \<not> elt_matches S hv (es ! i)) is of
       [] \<Rightarrow> (False, False, out, es)
     | i # js \<Rightarrow> search_pass S hv js True (Some (Some i)) (es[i := set_elt hv (es ! i)]))"
  using assms by (induction "is") (auto simp: set_elt_def)

lemma clear_no_match: "hv_hash hv \<noteq> 0 \<Longrightarrow> \<not> elt_matches S hv (clear_elt S hv e)"
  by (auto simp: clear_elt_def elt_matches_def)

lemma clear_id: "\<not> elt_matches S hv e \<Longrightarrow> clear_elt S hv e = e"
  by (simp add: clear_elt_def)

lemma clear_clear [simp]: "hv_hash hv \<noteq> 0 \<Longrightarrow> clear_elt S hv (clear_elt S hv e) = clear_elt S hv e"
  by (simp add: clear_id clear_no_match)

definition matches :: "ngx_strings \<Rightarrow> header_set_ctx \<Rightarrow> header_elt list \<Rightarrow> nat" where
  "matches S hv es = length (filter (elt_matches S hv) es)"

lemma matches_0: "matches S hv es = 0 \<longleftrightarrow> (\<forall>e \<in> set es. \<not> elt_matches S hv e)"
  by (simp add: matches_def filter_empty_conv)

lemma matches_update:
  assumes "i < length es" and "elt_matches S hv (es ! i)" and "\<not> elt_matches S hv e"
  shows "Suc (matches S hv (es[i := e])) = matches S hv es"
proof -
  have "es = take i es @ es ! i # drop (Suc i) es" using assms(1) by (rule id_take_nth_drop)
  then have "matches S hv es = matches S hv (take i es @ es ! i # drop (Suc i) es)" by simp
  with assms show ?thesis by (simp add: upd_conv_take_nth_drop matches_def)
qed

text \<open>Once it clears, the search clears every match, one by one from the start.\<close>

lemma search_again_clearing:
  assumes h: "hv_hash hv \<noteq> 0" and m: "hv_mode hv = HEADERS_REMOVE \<or> found"
  shows "search_again S hv found out es =
    (if matches S hv es = 0 then Some (found, out, es) else Some (True, Some None, map (clear_elt S hv) es))"
  using m
proof (induction n \<equiv> "matches S hv es" arbitrary: found out es)
  case 0
  then have "find (\<lambda>i. elt_matches S hv (es ! i)) [0..<length es] = None" by (auto simp: find_None_iff matches_0)
  with 0 show ?case by (subst search_again.simps) (simp add: search_pass_clearing)
next
  case (Suc n)
  have "find (\<lambda>i. elt_matches S hv (es ! i)) [0..<length es] \<noteq> None"
    using Suc.hyps(2) matches_0 [of S hv es] by (auto simp: find_None_iff in_set_conv_nth)
  then obtain i where i: "find (\<lambda>i. elt_matches S hv (es ! i)) [0..<length es] = Some i" by blast
  from find_SomeD [OF this] have il: "i < length es" "elt_matches S hv (es ! i)" by auto
  let ?es = "es[i := clear_elt S hv (es ! i)]"
  have n: "n = matches S hv ?es" using matches_update [OF il clear_no_match [OF h], of "es ! i"] Suc.hyps(2) by simp
  have map: "map (clear_elt S hv) ?es = map (clear_elt S hv) es"
    using il h by (intro nth_equalityI) (auto simp: nth_list_update)
  have "search_again S hv found out es = search_again S hv True (Some None) ?es"
    by (subst search_again.simps) (simp add: search_pass_clearing [OF Suc.prems] i)
  also have "\<dots> = Some (True, Some None, map (clear_elt S hv) es)"
    using Suc.hyps(1) [OF n, of True "Some None"] map
    by (auto simp: matches_0 map_idI clear_id simp flip: map)
  finally show ?case using Suc.hyps(2) by simp
qed

lemma search_pass_skip:
  "\<forall>i \<in> set is. \<not> elt_matches S hv (es ! i) \<Longrightarrow> search_pass S hv (is @ js) found out es = search_pass S hv js found out es"
  by (induction "is") auto

text \<open>In mode \<open>SET\<close> the first match takes the value, and the search goes on behind it.\<close>

lemma search_pass_first:
  assumes "hv_mode hv \<noteq> HEADERS_REMOVE" and "\<forall>e \<in> set xs. \<not> elt_matches S hv e" and "elt_matches S hv e"
  shows "search_pass S hv [0..<length (xs @ e # ys)] False out (xs @ e # ys) =
    search_pass S hv [Suc (length xs)..<length (xs @ e # ys)] True (Some (Some (length xs))) (xs @ set_elt hv e # ys)"
proof -
  have "[0..<length (xs @ e # ys)] = [0..<length xs] @ length xs # [Suc (length xs)..<length (xs @ e # ys)]"
    using upt_add_eq_append [of 0 "length xs" "Suc (length ys)"] upt_conv_Cons [of "length xs" "length xs + Suc (length ys)"]
    by (simp del: upt_Suc)
  moreover have "\<forall>i \<in> set [0..<length xs]. \<not> elt_matches S hv ((xs @ e # ys) ! i)" using assms(2) by (auto simp: nth_append)
  ultimately show ?thesis using assms(1,3) by (simp add: search_pass_skip set_elt_def)
qed

lemma search_again_no_match: "matches S hv es = 0 \<Longrightarrow> search_again S hv found out es = Some (found, out, es)"
  using search_pass_skip [of "[0..<length es]" S hv es "[]"] by (subst search_again.simps) (auto simp: matches_0)

lemma search_again_one:
  assumes "hv_mode hv = HEADERS_SET" and "elt_matches S hv e" and "matches S hv xs = 0" and "matches S hv ys = 0"
  shows "search_again S hv False out (xs @ e # ys) = Some (True, Some (Some (length xs)), xs @ set_elt hv e # ys)"
proof -
  have "\<forall>i \<in> set [Suc (length xs)..<length (xs @ e # ys)]. \<not> elt_matches S hv ((xs @ set_elt hv e # ys) ! i)"
    using assms(4) by (auto simp: matches_0 nth_append nth_Cons split: nat.split)
  from search_pass_skip [OF this, of "[]"] show ?thesis using assms
    by (subst search_again.simps) (simp add: search_pass_first matches_0 del: length_append upt_Suc)
qed

lemma set_elt_matches [simp]: "strings_laws S \<Longrightarrow> elt_matches S hv (set_elt hv e)"
  by (simp add: elt_matches_def set_elt_def strings_laws_def)

lemma list_all2_update: "list_all2 P xs ys \<Longrightarrow> P (xs ! i) v \<Longrightarrow> list_all2 P xs (ys[i := v])"
  by (cases "i < length ys") (auto simp: list_all2_conv_all_nth nth_list_update)

definition touched :: "ngx_strings \<Rightarrow> header_set_ctx \<Rightarrow> header_elt \<Rightarrow> header_elt \<Rightarrow> bool" where
  "touched S hv e f \<longleftrightarrow> f = e \<or> elt_matches S hv e \<and> (e_hash f = 0 \<or> elt_matches S hv f)"

text \<open>A second match is cleared, and with it the first one, which has just been set.\<close>

lemma search_again_more:
  assumes S: "strings_laws S" and h: "hv_hash hv \<noteq> 0" and m: "hv_mode hv = HEADERS_SET" and e: "elt_matches S hv e"
    and xs: "matches S hv xs = 0" and ys: "matches S hv ys \<noteq> 0"
  shows "\<exists>es. search_again S hv False out (xs @ e # ys) = Some (True, Some None, map (clear_elt S hv) es) \<and>
    list_all2 (touched S hv) (xs @ e # ys) es"
proof -
  let ?es = "xs @ set_elt hv e # ys"
  let ?is = "[Suc (length xs)..<length (xs @ e # ys)]"
  obtain y where y: "y < length ys" "elt_matches S hv (ys ! y)" using ys by (auto simp: matches_0 in_set_conv_nth)
  then have "Suc (length xs + y) \<in> set ?is \<and> elt_matches S hv (?es ! Suc (length xs + y))" by (auto simp: nth_append)
  then have "find (\<lambda>i. elt_matches S hv (?es ! i)) ?is \<noteq> None" unfolding find_None_iff by blast
  then obtain i where i: "find (\<lambda>i. elt_matches S hv (?es ! i)) ?is = Some i" by blast
  from find_SomeD [OF this] have il: "i \<in> set ?is" "elt_matches S hv (?es ! i)" by auto
  let ?fs = "?es[i := clear_elt S hv (?es ! i)]"
  have "i \<noteq> length xs" using il(1) by auto
  then have "?fs ! length xs = set_elt hv e" by simp
  then have "set_elt hv e \<in> set ?fs" using nth_mem [of "length xs" ?fs] by simp
  then have some: "matches S hv ?fs \<noteq> 0" using set_elt_matches [OF S] by (auto simp: matches_0)
  have "search_again S hv False out (xs @ e # ys) = search_again S hv True (Some None) ?fs"
    using m e xs i
    by (subst search_again.simps) (simp add: search_pass_first matches_0 search_pass_clearing del: length_append upt_Suc)
  also have "\<dots> = Some (True, Some None, map (clear_elt S hv) ?fs)"
    using search_again_clearing [OF h, of True S "Some None" ?fs] some by simp
  finally have "search_again S hv False out (xs @ e # ys) = Some (True, Some None, map (clear_elt S hv) ?fs)" .
  moreover have "touched S hv ((xs @ e # ys) ! i) (clear_elt S hv (?es ! i))"
    using il by (auto simp: touched_def clear_elt_def nth_append nth_Cons split: nat.splits)
  moreover have "list_all2 (touched S hv) (xs @ e # ys) ?es"
    using e set_elt_matches [OF S, of hv e] by (auto simp: touched_def list_all2_refl intro!: list_all2_appendI)
  ultimately have "list_all2 (touched S hv) (xs @ e # ys) ?fs" by (intro list_all2_update)
  with \<open>search_again S hv False out (xs @ e # ys) = Some (True, Some None, map (clear_elt S hv) ?fs)\<close> show ?thesis by blast
qed

section \<open>What a caller sees\<close>

text \<open>The values of a header, in order, and that an element which is not removed has the hash of its key.\<close>

definition values_of :: "ngx_strings \<Rightarrow> bytes \<Rightarrow> header_elt list \<Rightarrow> bytes list" where
  "values_of S k es = map e_value (filter (\<lambda>e. e_hash e \<noteq> 0 \<and> same_name S k (e_key e)) es)"

definition hashed :: "ngx_strings \<Rightarrow> header_elt list \<Rightarrow> bool" where
  "hashed S es \<longleftrightarrow> (\<forall>e \<in> set es. e_hash e = 0 \<or> e_hash e = hash_key_lc S (e_key e))"

definition hv_ok :: "ngx_strings \<Rightarrow> header_set_ctx \<Rightarrow> bool" where
  "hv_ok S hv \<longleftrightarrow> strings_laws S \<and> hv_hash hv = hash_key_lc S (hv_key hv) \<and> hv_hash hv \<noteq> 0"

lemma values_of_append [simp]: "values_of S k (xs @ ys) = values_of S k xs @ values_of S k ys"
  by (simp add: values_of_def)

lemma values_of_Cons:
  "values_of S k (e # es) = (if e_hash e \<noteq> 0 \<and> same_name S k (e_key e) then [e_value e] else []) @ values_of S k es"
  by (simp add: values_of_def)

lemma hashed_Nil [simp]: "hashed S []"
  by (simp add: hashed_def)

lemma hashed_append [simp]: "hashed S (xs @ ys) \<longleftrightarrow> hashed S xs \<and> hashed S ys"
  by (auto simp: hashed_def)

lemma hashed_Cons [simp]: "hashed S (e # es) \<longleftrightarrow> (e_hash e = 0 \<or> e_hash e = hash_key_lc S (e_key e)) \<and> hashed S es"
  by (simp add: hashed_def)

lemma elt_matches_live:
  "hv_ok S hv \<Longrightarrow> e_hash e = 0 \<or> e_hash e = hash_key_lc S (e_key e) \<Longrightarrow>
    elt_matches S hv e \<longleftrightarrow> e_hash e \<noteq> 0 \<and> same_name S (hv_key hv) (e_key e)"
  unfolding elt_matches_def hv_ok_def using same_name_hash [of S "hv_key hv" "e_key e"]
  by (auto simp: same_name_def)

lemma other_name:
  "strings_laws S \<Longrightarrow> \<not> same_name S (hv_key hv) k \<Longrightarrow> elt_matches S hv e \<Longrightarrow> \<not> same_name S k (e_key e)"
  unfolding elt_matches_def by (metis same_name_def same_name_sym same_name_trans)

lemma values_of_no_match: "hv_ok S hv \<Longrightarrow> hashed S es \<Longrightarrow> matches S hv es = 0 \<Longrightarrow> values_of S (hv_key hv) es = []"
  by (induction es) (auto simp: values_of_Cons matches_0 elt_matches_live, simp add: values_of_def)

lemma values_of_clear:
  assumes "hv_ok S hv" and "hashed S es"
  shows "values_of S (hv_key hv) (map (clear_elt S hv) es) = []"
    and "\<not> same_name S (hv_key hv) k \<Longrightarrow> values_of S k (map (clear_elt S hv) es) = values_of S k es"
    and "hashed S (map (clear_elt S hv) es)"
proof -
  have S: "strings_laws S" using assms(1) by (simp add: hv_ok_def)
  show "values_of S (hv_key hv) (map (clear_elt S hv) es) = []"
    using assms by (induction es) (auto simp: values_of_Cons clear_elt_def elt_matches_live, simp add: values_of_def)
  show "hashed S (map (clear_elt S hv) es)" using assms by (induction es) (auto simp: clear_elt_def hashed_def)
  show "values_of S k (map (clear_elt S hv) es) = values_of S k es" if k: "\<not> same_name S (hv_key hv) k"
    using assms(2) other_name [OF S k] by (induction es) (auto simp: values_of_Cons clear_elt_def)
qed

lemma values_of_set_elt:
  assumes "hv_ok S hv"
  shows "values_of S (hv_key hv) [set_elt hv e] = [str_of (hv_value hv)]"
    and "\<not> same_name S (hv_key hv) k \<Longrightarrow> values_of S k [set_elt hv e] = []"
    and "hashed S [set_elt hv e]"
  using assms unfolding hv_ok_def values_of_def set_elt_def
  by (auto dest: same_name_sym)

lemma matches_append [simp]: "matches S hv (xs @ ys) = matches S hv xs + matches S hv ys"
  by (simp add: matches_def)

lemma matches_Cons [simp]: "matches S hv (e # es) = (if elt_matches S hv e then Suc (matches S hv es) else matches S hv es)"
  by (simp add: matches_def)

lemma first_match:
  assumes "matches S hv es \<noteq> 0"
  obtains xs e ys where "es = xs @ e # ys" and "elt_matches S hv e" and "matches S hv xs = 0"
    and "matches S hv es = Suc (matches S hv ys)"
proof -
  have "\<exists>x \<in> set es. elt_matches S hv x" using assms by (simp add: matches_0)
  from split_list_first_prop [OF this] obtain xs e ys where
    "es = xs @ e # ys" "elt_matches S hv e" "\<forall>x \<in> set xs. \<not> elt_matches S hv x" by blast
  moreover from this have "matches S hv xs = 0" by (simp add: matches_0)
  ultimately show ?thesis using that by simp
qed

text \<open>Elements that were touched and then cleared.\<close>

lemma values_of_touched:
  assumes hv: "hv_ok S hv" and fs: "list_all2 (touched S hv) es fs" and es: "hashed S es"
  shows "values_of S (hv_key hv) (map (clear_elt S hv) fs) = []"
    and "\<not> same_name S (hv_key hv) k \<Longrightarrow> values_of S k (map (clear_elt S hv) fs) = values_of S k es"
proof -
  have S: "strings_laws S" using hv by (simp add: hv_ok_def)
  have "hashed S fs" using fs es
  proof (induction rule: list_all2_induct)
    case (Cons e es f fs)
    moreover have "elt_matches S hv f \<Longrightarrow> e_hash f = hash_key_lc S (e_key f)"
      using hv same_name_hash [OF S, of "hv_key hv" "e_key f"] by (simp add: elt_matches_def same_name_def hv_ok_def)
    ultimately show ?case by (auto simp: touched_def)
  qed simp
  from values_of_clear(1) [OF hv this] show "values_of S (hv_key hv) (map (clear_elt S hv) fs) = []" .
  show "values_of S k (map (clear_elt S hv) fs) = values_of S k es" if k: "\<not> same_name S (hv_key hv) k"
    using fs
  proof (induction rule: list_all2_induct)
    case (Cons e es f fs)
    moreover have "values_of S k (clear_elt S hv f # gs) = values_of S k (e # gs)" for gs
      using Cons.hyps(1) other_name [OF S k, of e] other_name [OF S k, of f]
      by (auto simp: touched_def values_of_Cons clear_elt_def)
    ultimately show ?case by (simp add: values_of_Cons)
  qed simp
qed

text \<open>The new element of the list is an element that was set.\<close>

definition new_elt :: "header_set_ctx \<Rightarrow> header_elt" where
  "new_elt hv = \<lparr>e_hash = hv_hash hv, e_key = hv_key hv, e_value = str_of (hv_value hv), e_next = None\<rparr>"

lemma new_elt_set: "new_elt hv = set_elt hv (new_elt hv)"
  by (simp add: new_elt_def set_elt_def)

lemma helper_REMOVE:
  assumes "hv_hash hv \<noteq> 0" and "hv_mode hv = HEADERS_REMOVE"
  shows "\<exists>out. ngx_http_wasm_set_header_helper S hv h = Some (NGX_OK, out, h\<lparr>elts := map (clear_elt S hv) (elts h)\<rparr>)"
  using assms unfolding ngx_http_wasm_set_header_helper_def
  by (auto simp: search_again_clearing matches_0 clear_id map_idI)

lemma helper_push:
  assumes "hv_mode hv = HEADERS_APPEND \<or> hv_mode hv = HEADERS_SET \<and> matches S hv (elts h) = 0"
  shows "ngx_http_wasm_set_header_helper S hv h =
    (if \<not> list_push_ok S (length (elts h)) then Some (NGX_ERROR, None, h)
     else if pnalloc S (length (hv_key hv)) = None then Some (NGX_ERROR, None, h\<lparr>elts := elts h @ [new_elt hv]\<rparr>)
     else Some (NGX_OK, Some (Some (length (elts h))), h\<lparr>elts := elts h @ [new_elt hv]\<rparr>))"
  using assms unfolding ngx_http_wasm_set_header_helper_def new_elt_def
  by (auto simp: search_again_no_match Let_def)

lemma helper_replace:
  assumes "hv_mode hv = HEADERS_SET" and "elts h = xs @ e # ys" and "elt_matches S hv e" and "matches S hv xs = 0"
    and "matches S hv ys = 0"
  shows "ngx_http_wasm_set_header_helper S hv h = Some (NGX_OK, Some (Some (length xs)), h\<lparr>elts := xs @ set_elt hv e # ys\<rparr>)"
  using assms unfolding ngx_http_wasm_set_header_helper_def by (simp add: search_again_one)

lemma helper_ambiguous:
  assumes hv: "hv_ok S hv" and m: "hv_mode hv = HEADERS_SET" and two: "2 \<le> matches S hv (elts h)"
  shows "\<exists>es. ngx_http_wasm_set_header_helper S hv h = Some (NGX_OK, Some None, h\<lparr>elts := map (clear_elt S hv) es\<rparr>) \<and>
    list_all2 (touched S hv) (elts h) es"
proof -
  from two have "matches S hv (elts h) \<noteq> 0" by simp
  then obtain xs e ys where es: "elts h = xs @ e # ys" "elt_matches S hv e" "matches S hv xs = 0"
    "matches S hv (elts h) = Suc (matches S hv ys)" by (rule first_match)
  with two have "matches S hv ys \<noteq> 0" by simp
  with search_again_more [OF _ _ m es(2,3) this, of None] hv es(1) m show ?thesis
    unfolding ngx_http_wasm_set_header_helper_def hv_ok_def by auto
qed

text \<open>
  C24. Setting a header ends: for a name whose hash is not 0, the search behind \<open>again\<close> returns, in every mode and for every list, also when
  it starts over for each element that it clears.
\<close>

theorem set_header_ends:
  assumes "hv_ok S hv"
  shows "\<exists>rc out h1. ngx_http_wasm_set_header_helper S hv h = Some (rc, out, h1) \<and> rc \<in> {NGX_OK, NGX_ERROR}"
proof (cases "hv_mode hv")
  case HEADERS_REMOVE
  with helper_REMOVE [of hv S h] assms show ?thesis by (auto simp: hv_ok_def)
next
  case HEADERS_APPEND
  then show ?thesis by (simp add: helper_push)
next
  case HEADERS_SET
  consider "matches S hv (elts h) = 0" | "matches S hv (elts h) = 1" | "2 \<le> matches S hv (elts h)" by linarith
  then show ?thesis
  proof cases
    case 1
    with HEADERS_SET show ?thesis by (simp add: helper_push)
  next
    case 2
    then have "matches S hv (elts h) \<noteq> 0" by simp
    from first_match [OF this] 2 HEADERS_SET show ?thesis by (metis helper_replace One_nat_def Suc_inject insertI1)
  next
    case 3
    with helper_ambiguous [OF assms HEADERS_SET] show ?thesis by blast
  qed
qed

text \<open>
  C25. What setting, adding and removing a header does to what a reader of the list sees: after a \<open>SET\<close> of a header which the list has at most
  once, the new value is the only one; an \<open>APPEND\<close> adds it behind the values of before; a \<open>REMOVE\<close> leaves none. Every other
  header keeps its values, and every element keeps the hash of its key.
\<close>

theorem set_header_effect:
  assumes hv: "hv_ok S hv" and h: "hashed S (elts h)" and one: "hv_mode hv = HEADERS_SET \<Longrightarrow> matches S hv (elts h) \<le> 1"
    and ok: "ngx_http_wasm_set_header_helper S hv h = Some (NGX_OK, out, h1)"
  shows "values_of S (hv_key hv) (elts h1) =
      (case hv_mode hv of
         HEADERS_SET \<Rightarrow> [str_of (hv_value hv)]
       | HEADERS_APPEND \<Rightarrow> values_of S (hv_key hv) (elts h) @ [str_of (hv_value hv)]
       | HEADERS_REMOVE \<Rightarrow> []) \<and>
    (\<forall>k. \<not> same_name S (hv_key hv) k \<longrightarrow> values_of S k (elts h1) = values_of S k (elts h)) \<and>
    hashed S (elts h1)"
proof -
  note new = values_of_set_elt [OF hv, where e = "new_elt hv", folded new_elt_set]
  consider (r) "hv_mode hv = HEADERS_REMOVE" | (a) "hv_mode hv = HEADERS_APPEND"
    | (s0) "hv_mode hv = HEADERS_SET" "matches S hv (elts h) = 0" | (s1) "hv_mode hv = HEADERS_SET" "matches S hv (elts h) = 1"
    using one by (cases "hv_mode hv") (auto simp: le_Suc_eq)
  then show ?thesis
  proof cases
    case r
    with helper_REMOVE [of hv S h] ok hv values_of_clear [OF hv h] show ?thesis by (auto simp: hv_ok_def)
  next
    case a
    then have "h1 = h\<lparr>elts := elts h @ [new_elt hv]\<rparr>" using ok by (auto simp: helper_push split: if_splits)
    with a new h show ?thesis by simp
  next
    case s0
    then have "h1 = h\<lparr>elts := elts h @ [new_elt hv]\<rparr>" using ok by (auto simp: helper_push split: if_splits)
    with s0 new h values_of_no_match [OF hv h] show ?thesis by simp
  next
    case s1
    then have "matches S hv (elts h) \<noteq> 0" by simp
    then obtain xs e ys where es: "elts h = xs @ e # ys" "elt_matches S hv e" "matches S hv xs = 0"
      "matches S hv (elts h) = Suc (matches S hv ys)" by (rule first_match)
    with s1 ok have h1: "h1 = h\<lparr>elts := xs @ set_elt hv e # ys\<rparr>" by (simp add: helper_replace)
    have S: "strings_laws S" using hv by (simp add: hv_ok_def)
    have hs: "hashed S xs" "hashed S ys" using h es(1) by auto
    have c: "values_of S k (x # ys) = values_of S k [x] @ values_of S k ys" for k x by (simp add: values_of_Cons, simp add: values_of_def)
    have old: "values_of S k [e] = []" if "\<not> same_name S (hv_key hv) k" for k
      using other_name [OF S that es(2)] by (simp add: values_of_def)
    have "matches S hv ys = 0" using es(4) s1(2) by simp
    then show ?thesis
      using s1(1) values_of_set_elt [OF hv] old values_of_no_match [OF hv] hs es(3)
      by (simp add: h1 es(1) c)
  qed
qed

text \<open>
  Setting a header that the list has more than once loses it: the first match takes the value, the second one is cleared and makes the
  search start over, which finds the element it has just set, and clears it too. No value is left, and the caller is told \<open>NGX_OK\<close>.
\<close>

theorem set_header_twice_loses:
  assumes hv: "hv_ok S hv" and m: "hv_mode hv = HEADERS_SET" and h: "hashed S (elts h)" and two: "2 \<le> matches S hv (elts h)"
  shows "\<exists>out h1. ngx_http_wasm_set_header_helper S hv h = Some (NGX_OK, out, h1) \<and> out = Some None \<and>
    values_of S (hv_key hv) (elts h1) = [] \<and>
    (\<forall>k. \<not> same_name S (hv_key hv) k \<longrightarrow> values_of S k (elts h1) = values_of S k (elts h))"
proof -
  from helper_ambiguous [OF hv m two] obtain es where
    es: "ngx_http_wasm_set_header_helper S hv h = Some (NGX_OK, Some None, h\<lparr>elts := map (clear_elt S hv) es\<rparr>)"
    "list_all2 (touched S hv) (elts h) es" by blast
  from es(1) values_of_touched [OF hv es(2) h] show ?thesis by auto
qed

section \<open>Names with the hash 0\<close>

text \<open>A match with the hash 0 stays a match when it is cleared: the search never ends.\<close>

lemma search_pass_hash_0:
  assumes "hv_hash hv = 0" and "hv_mode hv = HEADERS_REMOVE \<or> found" and "matches S hv es \<noteq> 0"
  shows "\<exists>out1 es1. search_pass S hv [0..<length es] found out es = (True, True, out1, es1) \<and> matches S hv es1 \<noteq> 0"
proof -
  have "find (\<lambda>i. elt_matches S hv (es ! i)) [0..<length es] \<noteq> None"
    using assms(3) by (auto simp: find_None_iff matches_0 in_set_conv_nth)
  then obtain i where i: "find (\<lambda>i. elt_matches S hv (es ! i)) [0..<length es] = Some i" by blast
  from find_SomeD [OF this] have il: "i < length es" "elt_matches S hv (es ! i)" by auto
  let ?e = "clear_elt S hv (es ! i)"
  have "elt_matches S hv ?e" using il(2) assms(1) by (simp add: clear_elt_def elt_matches_def)
  moreover have "?e \<in> set (es[i := ?e])" using il(1) by (simp add: set_update_memI)
  ultimately have "matches S hv (es[i := ?e]) \<noteq> 0" by (auto simp: matches_0)
  with i show ?thesis by (simp add: search_pass_clearing [OF assms(2)])
qed

lemma search_again_hash_0:
  assumes "search_again S hv found out es = Some res"
  shows "hv_hash hv = 0 \<and> (hv_mode hv = HEADERS_REMOVE \<or> found) \<longrightarrow> matches S hv es = 0"
  using assms
proof (rule search_again.raw_induct [rotated], intro impI)
  fix again :: "ngx_strings \<Rightarrow> header_set_ctx \<Rightarrow> bool \<Rightarrow> nat option option \<Rightarrow> header_elt list \<Rightarrow>
    (bool \<times> nat option option \<times> header_elt list) option"
  fix S hv found out es res
  assume IH: "\<And>S hv found out es res. again S hv found out es = Some res \<Longrightarrow>
      hv_hash hv = 0 \<and> (hv_mode hv = HEADERS_REMOVE \<or> found) \<longrightarrow> matches S hv es = 0"
    and step: "(case search_pass S hv [0..<length es] found out es of
        (a, f, o1, es1) \<Rightarrow> if a then again S hv f o1 es1 else Some (f, o1, es1)) = Some res"
    and hv: "hv_hash hv = 0 \<and> (hv_mode hv = HEADERS_REMOVE \<or> found)"
  show "matches S hv es = 0"
  proof (rule ccontr)
    assume "matches S hv es \<noteq> 0"
    from search_pass_hash_0 [OF conjunct1 [OF hv] conjunct2 [OF hv] this] obtain out1 es1 where
      p: "search_pass S hv [0..<length es] found out es = (True, True, out1, es1)" "matches S hv es1 \<noteq> 0" by blast
    with step have "again S hv True out1 es1 = Some res" by simp
    from IH [OF this] hv p(2) show False by simp
  qed
qed

text \<open>
  The request that a filter makes of a header with an empty name goes to the handler of all other names, with the hash 0.
\<close>

lemma set_header_empty_name:
  assumes "strings_laws S" and "\<forall>(n, f, h) \<in> set handlers. n \<noteq> []"
  shows "ngx_http_wasm_set_header dbg S C ht handlers [] (Some v) HEADERS_APPEND r =
      do { v1 \<leftarrow> ngx_http_copy_escaped (pnalloc S) v ESCAPE_HEADER_VALUE;
           case v1 of None \<Rightarrow> Some (NGX_ERROR, r)
           | Some w \<Rightarrow> ngx_http_wasm_set_header_handler S
               \<lparr>hv_offset = [], hv_key = [], hv_value = Some w, hv_htype = ht, hv_mode = HEADERS_APPEND, hv_hash = 0\<rparr> r }"
    and "ngx_http_wasm_set_header dbg S C ht handlers [] None HEADERS_REMOVE r =
      ngx_http_wasm_set_header_handler S
        \<lparr>hv_offset = [], hv_key = [], hv_value = None, hv_htype = ht, hv_mode = HEADERS_REMOVE, hv_hash = 0\<rparr> r"
proof -
  have f: "find (\<lambda>(n, f, h). n = [] \<and> strncase_eq S [] n) handlers = None"
    using assms(2) by (auto simp: find_None_iff)
  have h: "hash_key_lc S [] = 0" using assms(1) by (auto simp: strings_laws_def)
  have c: "ngx_http_copy_escaped (pnalloc S) [] ESCAPE_HEADER_NAME = Some (Some [])"
    using copy_escaped_alloc [OF assms(1), of "[]" ESCAPE_HEADER_NAME] by simp
  show "ngx_http_wasm_set_header dbg S C ht handlers [] (Some v) HEADERS_APPEND r =
      do { v1 \<leftarrow> ngx_http_copy_escaped (pnalloc S) v ESCAPE_HEADER_VALUE;
           case v1 of None \<Rightarrow> Some (NGX_ERROR, r)
           | Some w \<Rightarrow> ngx_http_wasm_set_header_handler S
               \<lparr>hv_offset = [], hv_key = [], hv_value = Some w, hv_htype = ht, hv_mode = HEADERS_APPEND, hv_hash = 0\<rparr> r }"
    using f unfolding ngx_http_wasm_set_header_def find_handler_def
    by (cases "ngx_http_copy_escaped (pnalloc S) v ESCAPE_HEADER_VALUE") (auto simp: c h split: option.split)
  show "ngx_http_wasm_set_header dbg S C ht handlers [] None HEADERS_REMOVE r =
      ngx_http_wasm_set_header_handler S
        \<lparr>hv_offset = [], hv_key = [], hv_value = None, hv_htype = ht, hv_mode = HEADERS_REMOVE, hv_hash = 0\<rparr> r"
    using f unfolding ngx_http_wasm_set_header_def find_handler_def by (simp add: c h)
qed

text \<open>
  A header with an empty name hangs the worker: adding it works, and a later removal of it never returns. The hash of
  the empty name is 0, the value that marks an element as removed, so that the element which the search clears is found again.
\<close>

theorem remove_empty_name_hangs:
  assumes S: "strings_laws S" and "\<forall>n. list_push_ok S n" and a: "\<forall>n. pnalloc S n \<noteq> None"
  shows "\<exists>r1. ngx_http_wasm_set_req_header dbg S C [] (Some v) HEADERS_APPEND r = Some (NGX_OK, r1) \<and>
    ngx_http_wasm_set_req_header dbg S C [] None HEADERS_REMOVE r1 = None"
proof -
  let ?R = ngx_http_wasm_req_headers_handlers
  have n: "\<forall>(n, f, h) \<in> set ?R. n \<noteq> []" by code_simp
  let ?hv = "\<lambda>w m. \<lparr>hv_offset = [], hv_key = [], hv_value = w, hv_htype = HEADERS_REQUEST, hv_mode = m, hv_hash = 0\<rparr>"
  obtain w where w: "ngx_http_copy_escaped (pnalloc S) v ESCAPE_HEADER_VALUE = Some (Some w)"
    using copy_escaped_alloc [OF S, of v ESCAPE_HEADER_VALUE] a by (cases "escape_count ESCAPE_HEADER_VALUE v = 0") auto
  let ?h = "headers_in r"
  let ?r1 = "r\<lparr>headers_in := ?h\<lparr>elts := elts ?h @ [new_elt (?hv (Some w) HEADERS_APPEND)]\<rparr>\<rparr>"
  have "ngx_http_wasm_set_req_header dbg S C [] (Some v) HEADERS_APPEND r = Some (NGX_OK, ?r1)"
    using assms by (simp add: ngx_http_wasm_set_req_header_def set_header_empty_name [OF S n] w
      ngx_http_wasm_set_header_handler_def set_header_in_def helper_push ngx_http_wasm_htype_list_def put_list_def)
  moreover have "matches S (?hv None HEADERS_REMOVE) (elts (headers_in ?r1)) \<noteq> 0"
    using S by (simp add: elt_matches_def new_elt_def strings_laws_def)
  then have "search_again S (?hv None HEADERS_REMOVE) False None (elts (headers_in ?r1)) = None"
    using search_again_hash_0 [of S "?hv None HEADERS_REMOVE" False None "elts (headers_in ?r1)"]
    by (cases "search_again S (?hv None HEADERS_REMOVE) False None (elts (headers_in ?r1))") auto
  then have "ngx_http_wasm_set_req_header dbg S C [] None HEADERS_REMOVE ?r1 = None"
    by (simp add: ngx_http_wasm_set_req_header_def set_header_empty_name [OF S n]
      ngx_http_wasm_set_header_handler_def set_header_in_def ngx_http_wasm_set_header_helper_def ngx_http_wasm_htype_list_def)
  ultimately show ?thesis by blast
qed

section \<open>Removed headers\<close>

text \<open>
  Removing a header does not hide it from a lookup: the removal clears the hash of its elements, which the lookup does not
  read. A filter that removes a header and asks for it gets the old value.
\<close>

theorem removed_header_is_found:
  assumes "hv_hash hv \<noteq> 0" and "hv_mode hv = HEADERS_REMOVE"
    and "ngx_http_wasm_set_header_helper S hv h = Some (NGX_OK, out, h1)"
  shows "ngx_wasm_get_list_elem S (elts h1) key = ngx_wasm_get_list_elem S (elts h) key \<and>
    ngx_wasm_list_nelts (elts h1) + matches S hv (elts h) = ngx_wasm_list_nelts (elts h)"
proof -
  have h1: "elts h1 = map (clear_elt S hv) (elts h)" using helper_REMOVE [OF assms(1,2), of S h] assms(3) by auto
  have "ngx_wasm_get_list_elem S (map (clear_elt S hv) es) key = ngx_wasm_get_list_elem S es key \<and>
    ngx_wasm_list_nelts (map (clear_elt S hv) es) + matches S hv es = ngx_wasm_list_nelts es" for es
    using assms(1) by (induction es) (auto simp: clear_elt_def elt_matches_def matches_def)
  then show ?thesis by (simp add: h1)
qed

text \<open>
  Removing a header with several values that a request or a response does not have reads a pointer which nothing has written: the search
  has no match, leaves its output alone, and the handler links what the variable holds.
\<close>

theorem remove_absent_multi_header:
  assumes "hv_mode hv = HEADERS_REMOVE" and "matches S hv (elts (ngx_http_wasm_htype_list r (hv_htype hv))) = 0"
  shows "run_handler dbg S C H_req_multi hv r = None \<and> run_handler dbg S C H_resp_multi hv r = None"
proof -
  have "ngx_http_wasm_htype_list (put_field hv None r) (hv_htype hv) =
      (ngx_http_wasm_htype_list r (hv_htype hv))\<lparr>builtins := (builtins (ngx_http_wasm_htype_list r (hv_htype hv)))(hv_offset hv := None)\<rparr>"
    by (cases "hv_htype hv") (simp_all add: put_field_def put_list_def ngx_http_wasm_htype_list_def Let_def)
  with assms show ?thesis
    by (simp add: req_multi_header_def resp_multi_header_def set_header_in_def ngx_http_wasm_set_header_helper_def
      search_again_no_match link_multi_def)
qed

section \<open>No header breaks out of its line\<close>

definition elt_safe :: "header_elt \<Rightarrow> bool" where
  "elt_safe e \<longleftrightarrow> list_all tchar (e_key e) \<and> list_all value_char (e_value e)"

definition list_safe :: "headers \<Rightarrow> bool" where
  "list_safe h \<longleftrightarrow> list_all elt_safe (elts h)"

definition request_safe :: "http_request \<Rightarrow> bool" where
  "request_safe r \<longleftrightarrow> list_safe (headers_in r) \<and> list_safe (headers_out r) \<and> list_all value_char (content_type r)"

definition hv_safe :: "header_set_ctx \<Rightarrow> bool" where
  "hv_safe hv \<longleftrightarrow> list_all tchar (hv_key hv) \<and> list_all value_char (str_of (hv_value hv))"

lemma list_all_update: "list_all P xs \<Longrightarrow> (i < length xs \<Longrightarrow> P v) \<Longrightarrow> list_all P (xs[i := v])"
  by (cases "i < length xs") (auto simp: list_all_length nth_list_update)

lemma elt_safe_nth: "list_all elt_safe es \<Longrightarrow> i < length es \<Longrightarrow> elt_safe (es ! i)"
  by (simp add: list_all_length)

lemma search_pass_safe:
  "search_pass S hv is found out es = (a, f, o1, es1) \<Longrightarrow> list_all elt_safe es \<Longrightarrow> hv_safe hv \<Longrightarrow>
    \<forall>i \<in> set is. i < length es \<Longrightarrow> list_all elt_safe es1"
proof (induction "is" arbitrary: found out es)
  case (Cons i "is")
  have i: "i < length es" using Cons.prems(4) by simp
  note e = elt_safe_nth [OF Cons.prems(2) i]
  show ?case
  proof (cases "elt_matches S hv (es ! i)")
    case False
    with Cons show ?thesis by simp
  next
    case True
    show ?thesis
    proof (cases "hv_mode hv = HEADERS_REMOVE \<or> found")
      case True
      with \<open>elt_matches S hv (es ! i)\<close> Cons.prems e show ?thesis by (auto simp: elt_safe_def intro!: list_all_update)
    next
      case False
      let ?es = "es[i := (es ! i)\<lparr>e_key := hv_key hv, e_value := str_of (hv_value hv), e_hash := hv_hash hv\<rparr>]"
      have "elt_safe ((es ! i)\<lparr>e_key := hv_key hv, e_value := str_of (hv_value hv), e_hash := hv_hash hv\<rparr>)"
        using Cons.prems(3) by (simp add: elt_safe_def hv_safe_def)
      with Cons.prems(2) have "list_all elt_safe ?es" by (intro list_all_update)
      with False \<open>elt_matches S hv (es ! i)\<close> Cons.prems show ?thesis by (auto intro: Cons.IH)
    qed
  qed
qed simp

lemma search_again_safe:
  assumes "search_again S hv found out es = Some res"
  shows "list_all elt_safe es \<and> hv_safe hv \<longrightarrow> list_all elt_safe (snd (snd res))"
  using assms
proof (rule search_again.raw_induct [rotated], intro impI)
  fix again :: "ngx_strings \<Rightarrow> header_set_ctx \<Rightarrow> bool \<Rightarrow> nat option option \<Rightarrow> header_elt list \<Rightarrow>
    (bool \<times> nat option option \<times> header_elt list) option"
  fix S hv found out es res
  assume IH: "\<And>S hv found out es res. again S hv found out es = Some res \<Longrightarrow>
      list_all elt_safe es \<and> hv_safe hv \<longrightarrow> list_all elt_safe (snd (snd res))"
    and step: "(case search_pass S hv [0..<length es] found out es of
        (a, f, o1, es1) \<Rightarrow> if a then again S hv f o1 es1 else Some (f, o1, es1)) = Some res"
    and safe: "list_all elt_safe es \<and> hv_safe hv"
  obtain a f o1 es1 where p: "search_pass S hv [0..<length es] found out es = (a, f, o1, es1)" using prod_cases4 by blast
  from search_pass_safe [OF p] safe have es1: "list_all elt_safe es1" by simp
  show "list_all elt_safe (snd (snd res))"
  proof (cases a)
    case True
    with step p have "again S hv f o1 es1 = Some res" by simp
    from IH [OF this] es1 safe show ?thesis by simp
  next
    case False
    with step p es1 show ?thesis by auto
  qed
qed

lemma helper_safe:
  assumes "ngx_http_wasm_set_header_helper S hv h = Some (rc, out, h1)" and "list_safe h" and "hv_safe hv"
  shows "list_safe h1"
proof -
  have "elt_safe \<lparr>e_hash = hv_hash hv, e_key = hv_key hv, e_value = str_of (hv_value hv), e_next = None\<rparr>"
    using assms(3) by (simp add: elt_safe_def hv_safe_def)
  with assms search_again_safe [of S hv False None "elts h"] show ?thesis
    unfolding ngx_http_wasm_set_header_helper_def list_safe_def
    by (auto simp: Let_def bind_eq_Some_conv split: if_split_asm)
qed

lemma put_list_safe: "list_safe h \<Longrightarrow> request_safe r \<Longrightarrow> request_safe (put_list ht h r)"
  by (cases ht) (simp_all add: put_list_def request_safe_def)

lemma htype_list_safe: "request_safe r \<Longrightarrow> list_safe (ngx_http_wasm_htype_list r ht)"
  by (cases ht) (simp_all add: ngx_http_wasm_htype_list_def request_safe_def)

lemma set_header_in_safe:
  "set_header_in S hv r = Some (rc, out, r1) \<Longrightarrow> request_safe r \<Longrightarrow> hv_safe hv \<Longrightarrow> request_safe r1"
  by (auto simp: set_header_in_def bind_eq_Some_conv intro!: put_list_safe intro: helper_safe htype_list_safe)

lemma put_field_safe: "request_safe r \<Longrightarrow> request_safe (put_field hv p r)"
  using htype_list_safe [of r "hv_htype hv"] by (auto simp: put_field_def Let_def list_safe_def intro!: put_list_safe)

lemma put_elt_safe:
  assumes "put_elt hv i f r = Some r1" and "request_safe r" and "\<And>e. elt_safe e \<Longrightarrow> elt_safe (f e)"
  shows "request_safe r1"
  using assms htype_list_safe [OF assms(2), of "hv_htype hv"]
  by (auto simp: put_elt_def Let_def list_safe_def elt_safe_nth split: if_split_asm intro!: put_list_safe list_all_update)

lemma builtin_safe:
  assumes "ngx_http_wasm_set_builtin_header_handler dbg S hv r = Some (rc, r1)" and "request_safe r" and "hv_safe hv"
  shows "request_safe r1"
proof -
  have e: "elt_safe (e\<lparr>e_hash := n, e_key := hv_key hv, e_value := str_of (hv_value hv)\<rparr>)" for e n
    using assms(3) by (simp add: elt_safe_def hv_safe_def)
  have z: "elt_safe (e\<lparr>e_hash := 0\<rparr>) = elt_safe e" for e by (simp add: elt_safe_def)
  show ?thesis
    using assms(1) set_header_in_safe [OF _ assms(2,3)] put_elt_safe [OF _ assms(2)] e z assms(2)
    unfolding ngx_http_wasm_set_builtin_header_handler_def
    by (auto simp: bind_eq_Some_conv split: option.split_asm option.split set_mode.split_asm intro!: put_field_safe)
qed

lemma link_multi_safe: "link_multi hv out r = Some (rc, r1) \<Longrightarrow> request_safe r \<Longrightarrow> request_safe r1"
  unfolding link_multi_def
  by (auto simp: bind_eq_Some_conv elt_safe_def put_field_safe split: option.split_asm elim!: put_elt_safe)

text \<open>What the macros of nginx that clear a field do to the headers: they add none.\<close>

definition clears_laws :: "ngx_clears \<Rightarrow> bool" where
  "clears_laws C \<longleftrightarrow> (\<forall>r. request_safe r \<longrightarrow> request_safe (clear_last_modified C r) \<and> request_safe (clear_content_length C r))"

lemma request_safe_fields [simp]:
  "request_safe (r\<lparr>peer_host := a\<rparr>) = request_safe r" "request_safe (r\<lparr>in_server := a\<rparr>) = request_safe r"
  "request_safe (r\<lparr>connection_type := b\<rparr>) = request_safe r" "request_safe (r\<lparr>keep_alive_n := c\<rparr>) = request_safe r"
  "request_safe (r\<lparr>keepalive := d\<rparr>) = request_safe r" "request_safe (r\<lparr>req_keepalive := d\<rparr>) = request_safe r"
  "request_safe (r\<lparr>ua := u\<rparr>) = request_safe r" "request_safe (r\<lparr>in_content_length_n := c\<rparr>) = request_safe r"
  "request_safe (r\<lparr>out_content_length_n := c\<rparr>) = request_safe r" "request_safe (r\<lparr>last_modified_time := c\<rparr>) = request_safe r"
  "request_safe (r\<lparr>out_status := n\<rparr>) = request_safe r" "request_safe (r\<lparr>content_type_len := n\<rparr>) = request_safe r"
  "request_safe (r\<lparr>content_type_hash := n\<rparr>) = request_safe r"
  "request_safe (r\<lparr>headers_out := (headers_out r)\<lparr>builtins := B\<rparr>\<rparr>) = request_safe r"
  by (simp_all add: request_safe_def list_safe_def)

lemma request_safe_content_type: "request_safe r \<Longrightarrow> list_all value_char v \<Longrightarrow> request_safe (r\<lparr>content_type := v\<rparr>)"
  by (simp add: request_safe_def)

lemma run_handler_safe:
  assumes run: "run_handler dbg S C H hv r = Some (rc, r1)" and r: "request_safe r" and hv: "hv_safe hv" and C: "clears_laws C"
  shows "request_safe r1"
proof -
  note b = builtin_safe [OF _ r hv] and s = set_header_in_safe [OF _ r hv]
  show ?thesis
  proof (cases H)
    case H_generic
    with run s show ?thesis by (auto simp: ngx_http_wasm_set_header_handler_def bind_eq_Some_conv)
  next
    case H_builtin
    with run b show ?thesis by simp
  next
    case H_host
    with run b r show ?thesis
      by (auto simp: ngx_http_wasm_set_host_header_handler_def bind_eq_Some_conv split: if_split_asm)
  next
    case H_req_connection
    with run b show ?thesis by (auto simp: req_connection_header_def bind_eq_Some_conv Let_def split: if_split_asm)
  next
    case H_ua
    with run b show ?thesis
      by (auto simp: ngx_http_wasm_set_ua_header_handler_def bind_eq_Some_conv split: if_split_asm option.split_asm)
  next
    case H_req_cl
    with run b r show ?thesis
      by (auto simp: ngx_http_wasm_set_cl_header_handler_def bind_eq_Some_conv Let_def split: if_split_asm)
  next
    case H_req_multi
    have "request_safe (put_field hv None r)" using r by (rule put_field_safe)
    from run H_req_multi s set_header_in_safe [OF _ this hv] show ?thesis
      by (auto simp: req_multi_header_def bind_eq_Some_conv Let_def split: if_split_asm intro: link_multi_safe)
  next
    case H_location
    with run b show ?thesis
      by (auto simp: ngx_http_set_location_header_handler_def bind_eq_Some_conv Let_def split: if_split_asm option.split_asm)
  next
    case H_last_modified
    with run b r C show ?thesis
      by (auto simp: ngx_http_set_last_modified_header_handler_def clears_laws_def bind_eq_Some_conv split: if_split_asm)
  next
    case H_resp_cl
    with run b r C show ?thesis
      by (auto simp: ngx_http_set_content_length_header_handler_def clears_laws_def bind_eq_Some_conv
        split: if_split_asm option.split_asm)
  next
    case H_content_type
    with run r hv show ?thesis
      by (auto simp: ngx_http_set_content_type_header_handler_def Let_def hv_safe_def request_safe_content_type)
  next
    case H_resp_multi
    with run s show ?thesis
      by (auto simp: resp_multi_header_def bind_eq_Some_conv split: if_split_asm intro: link_multi_safe)
  next
    case H_resp_connection
    with run r show ?thesis by (auto simp: resp_connection_header_def bind_eq_Some_conv Let_def split: if_split_asm)
  qed
qed

lemma copy_escaped_escaped:
  "strings_laws S \<Longrightarrow> ngx_http_copy_escaped (pnalloc S) data kind = Some (Some d) \<Longrightarrow> d = escaped kind data"
  using copy_escaped_alloc [of S data kind] escape_count_0 [of kind data] by (auto split: if_split_asm)

lemma set_header_safe:
  assumes S: "strings_laws S" and C: "clears_laws C" and r: "request_safe r"
    and hs: "\<forall>(n, f, h) \<in> set handlers. list_all tchar n"
    and set: "ngx_http_wasm_set_header dbg S C ht handlers key val mode r = Some (rc, r1)"
  shows "request_safe r1"
proof -
  have k: "\<And>k. ngx_http_copy_escaped (pnalloc S) key ESCAPE_HEADER_NAME = Some (Some k) \<Longrightarrow> list_all tchar k"
    using copy_escaped_escaped [OF S] escaped_name_safe by blast
  have v: "\<And>v w. ngx_http_copy_escaped (pnalloc S) v ESCAPE_HEADER_VALUE = Some (Some w) \<Longrightarrow> list_all value_char w"
    using copy_escaped_escaped [OF S] escaped_value_safe by blast
  have n: "list_all tchar (fst (find_handler S handlers k))" if "list_all tchar k" for k
    using that hs by (fastforce simp: find_handler_def find_Some_iff split: option.split dest: nth_mem)
  note run = run_handler_safe [OF _ r _ C]
  show ?thesis
  proof (cases val)
    case None
    with set r k show ?thesis unfolding ngx_http_wasm_set_header_def
      by (auto simp: bind_eq_Some_conv str_of_def hv_safe_def case_prod_beta n split: option.split_asm if_split_asm dest!: run)
  next
    case (Some x)
    show ?thesis
    proof (cases "ngx_http_copy_escaped (pnalloc S) x ESCAPE_HEADER_VALUE")
      case (Some y)
      with \<open>val = Some x\<close> set r k v [of x] show ?thesis unfolding ngx_http_wasm_set_header_def
        by (cases y) (auto simp: bind_eq_Some_conv str_of_def hv_safe_def case_prod_beta n
          split: option.split_asm if_split_asm dest!: run)
    qed (use set r \<open>val = Some x\<close> in \<open>auto simp: ngx_http_wasm_set_header_def bind_eq_Some_conv split: option.split_asm\<close>)
  qed
qed

text \<open>
  No header that a filter sets, adds or removes breaks out of its line: whatever bytes the filter passes as name and value, afterwards every
  name in the lists of the request and of the response is a token and every value is free of control characters (no
  line feed, no carriage return, no zero), as it was before. This holds through every handler of the two tables.
\<close>

theorem set_header_no_injection:
  assumes S: "strings_laws S" and C: "clears_laws C" and r: "request_safe r"
    and set: "ngx_http_wasm_set_req_header dbg S C key val mode r = Some (rc, r1) \<or>
      ngx_http_wasm_set_resp_header dbg S C key val mode r = Some (rc, r1)"
  shows "request_safe r1"
proof -
  have "\<forall>(n, f, h) \<in> set ngx_http_wasm_req_headers_handlers. list_all tchar n"
    "\<forall>(n, f, h) \<in> set ngx_http_wasm_resp_headers_handlers. list_all tchar n" by code_simp+
  moreover have "request_safe r1"
    if hs: "\<forall>(n, f, h) \<in> set handlers. list_all tchar n" and set: "ngx_http_wasm_set_header dbg S C ht handlers key val mode r = Some (rc, r1)"
    for handlers ht
    using set_header_safe [OF S C r hs set] .
  ultimately show ?thesis using set unfolding ngx_http_wasm_set_req_header_def ngx_http_wasm_set_resp_header_def by blast
qed

section \<open>A concrete instance\<close>

text \<open>Strings compared and hashed as nginx does, with allocations that work.\<close>

definition lower :: "byte \<Rightarrow> byte" where
  "lower b = (if 65 \<le> b \<and> b \<le> 90 then b + 32 else b)"

definition demo_strings :: ngx_strings where
  "demo_strings = \<lparr>hash_key_lc = (\<lambda>a. foldl (\<lambda>h b. h * 31 + unat b) 0 (map lower a)),
     strncase_eq = (\<lambda>a b. map lower a = map lower b), strstrn = (\<lambda>a b. None), strcasestrn = (\<lambda>a b n. False),
     atoof = (\<lambda>a. None), parse_time = (\<lambda>a. 0), pnalloc = (\<lambda>n. Some (replicate n 0)), list_push_ok = (\<lambda>n. True)\<rparr>"

definition demo_clears :: ngx_clears where
  "demo_clears = \<lparr>clear_last_modified = (\<lambda>r. r), clear_content_length = (\<lambda>r. r)\<rparr>"

definition demo_elt :: "string \<Rightarrow> string \<Rightarrow> header_elt" where
  "demo_elt k v = \<lparr>e_hash = hash_key_lc demo_strings (bytes_of_string k), e_key = bytes_of_string k, e_value = bytes_of_string v, e_next = None\<rparr>"

definition demo_headers :: headers where
  "demo_headers = \<lparr>elts = [demo_elt ''a'' ''1'', demo_elt ''b'' ''2'', demo_elt ''A'' ''3''], builtins = (\<lambda>_. None)\<rparr>"

definition demo_hv :: "string \<Rightarrow> set_mode \<Rightarrow> header_set_ctx" where
  "demo_hv k m = \<lparr>hv_offset = [], hv_key = bytes_of_string k, hv_value = Some (bytes_of_string ''9''), hv_htype = HEADERS_REQUEST,
     hv_mode = m, hv_hash = hash_key_lc demo_strings (bytes_of_string k)\<rparr>"

definition demo_request :: http_request where
  "demo_request = \<lparr>headers_in = demo_headers, headers_out = demo_headers, in_server = [], in_content_length_n = - 1, keep_alive_n = - 1,
     connection_type = CONNECTION_NONE, keepalive = False, req_keepalive = False, ua = no_ua, has_rctx = True,
     upstream_select = False, peer_host = [], out_content_length_n = - 1, last_modified_time = 0, content_type = [],
     content_type_len = 0, content_type_hash = 0, out_status = 200\<rparr>"

lemma demo_strings_laws: "strings_laws demo_strings"
  by (auto simp: strings_laws_def demo_strings_def)

lemma demo_clears_laws: "clears_laws demo_clears"
  by (simp add: clears_laws_def demo_clears_def)

lemma demo_hv_ok: "hv_ok demo_strings (demo_hv ''a'' m)"
  unfolding hv_ok_def using demo_strings_laws by (simp add: demo_hv_def demo_strings_def bytes_of_string_def lower_def)

theorem set_header_ends_witness:
  "\<exists>rc out h1. ngx_http_wasm_set_header_helper demo_strings (demo_hv ''a'' HEADERS_SET) demo_headers = Some (rc, out, h1) \<and>
    rc \<in> {NGX_OK, NGX_ERROR}"
  by (rule set_header_ends [OF demo_hv_ok])

theorem set_header_twice_loses_witness:
  "\<exists>out h1. ngx_http_wasm_set_header_helper demo_strings (demo_hv ''a'' HEADERS_SET) demo_headers = Some (NGX_OK, out, h1) \<and>
    values_of demo_strings (bytes_of_string ''a'') (elts h1) = []"
proof -
  have "hv_mode (demo_hv ''a'' HEADERS_SET) = HEADERS_SET" "hashed demo_strings (elts demo_headers)"
    "2 \<le> matches demo_strings (demo_hv ''a'' HEADERS_SET) (elts demo_headers)" by code_simp+
  from set_header_twice_loses [OF demo_hv_ok this] show ?thesis by (auto simp: demo_hv_def)
qed

theorem set_header_effect_witness:
  "\<exists>h1 :: headers. values_of demo_strings (bytes_of_string ''a'') (elts h1) = map bytes_of_string [''1'', ''3'', ''9''] \<and>
    values_of demo_strings (bytes_of_string ''b'') (elts h1) = [bytes_of_string ''2'']"
proof -
  obtain out h1 where h1: "ngx_http_wasm_set_header_helper demo_strings (demo_hv ''a'' HEADERS_APPEND) demo_headers = Some (NGX_OK, out, h1)"
    by (simp add: helper_push demo_hv_def demo_strings_def)
  have "hashed demo_strings (elts demo_headers)" by code_simp
  from set_header_effect [OF demo_hv_ok this _ h1]
  have "values_of demo_strings (bytes_of_string ''a'') (elts h1) = values_of demo_strings (bytes_of_string ''a'') (elts demo_headers) @ [bytes_of_string ''9'']"
    "\<not> same_name demo_strings (bytes_of_string ''a'') (bytes_of_string ''b'') \<longrightarrow>
      values_of demo_strings (bytes_of_string ''b'') (elts h1) = values_of demo_strings (bytes_of_string ''b'') (elts demo_headers)"
    by (auto simp: demo_hv_def str_of_def)
  moreover have "values_of demo_strings (bytes_of_string ''a'') (elts demo_headers) = map bytes_of_string [''1'', ''3'']"
    "values_of demo_strings (bytes_of_string ''b'') (elts demo_headers) = [bytes_of_string ''2'']"
    "\<not> same_name demo_strings (bytes_of_string ''a'') (bytes_of_string ''b'')" by code_simp+
  ultimately show ?thesis by auto
qed

theorem remove_empty_name_hangs_witness:
  "\<exists>r1. ngx_http_wasm_set_req_header True demo_strings demo_clears [] (Some [65]) HEADERS_APPEND demo_request = Some (NGX_OK, r1) \<and>
    ngx_http_wasm_set_req_header True demo_strings demo_clears [] None HEADERS_REMOVE r1 = None"
  by (rule remove_empty_name_hangs [OF demo_strings_laws]) (simp_all add: demo_strings_def)

theorem removed_header_is_found_witness:
  "\<exists>h1 :: headers. ngx_wasm_get_list_elem demo_strings (elts h1) (bytes_of_string ''a'') = Some (bytes_of_string ''1'') \<and> ngx_wasm_list_nelts (elts h1) = 1"
proof -
  have h: "hv_hash (demo_hv ''a'' HEADERS_REMOVE) \<noteq> 0" "hv_mode (demo_hv ''a'' HEADERS_REMOVE) = HEADERS_REMOVE" by code_simp+
  from helper_REMOVE [OF this] obtain out h1 where
    "ngx_http_wasm_set_header_helper demo_strings (demo_hv ''a'' HEADERS_REMOVE) demo_headers = Some (NGX_OK, out, h1)" by blast
  from removed_header_is_found [OF h this] have
    "ngx_wasm_get_list_elem demo_strings (elts h1) (bytes_of_string ''a'') = ngx_wasm_get_list_elem demo_strings (elts demo_headers) (bytes_of_string ''a'')"
    "ngx_wasm_list_nelts (elts h1) + matches demo_strings (demo_hv ''a'' HEADERS_REMOVE) (elts demo_headers) = ngx_wasm_list_nelts (elts demo_headers)"
    by blast+
  moreover have "ngx_wasm_get_list_elem demo_strings (elts demo_headers) (bytes_of_string ''a'') = Some (bytes_of_string ''1'')"
    "matches demo_strings (demo_hv ''a'' HEADERS_REMOVE) (elts demo_headers) = 2" "ngx_wasm_list_nelts (elts demo_headers) = 3" by code_simp+
  ultimately show ?thesis by auto
qed

theorem remove_absent_multi_header_witness:
  "run_handler True demo_strings demo_clears H_req_multi (demo_hv ''c'' HEADERS_REMOVE) demo_request = None"
proof -
  have "hv_mode (demo_hv ''c'' HEADERS_REMOVE) = HEADERS_REMOVE"
    "matches demo_strings (demo_hv ''c'' HEADERS_REMOVE)
      (elts (ngx_http_wasm_htype_list demo_request (hv_htype (demo_hv ''c'' HEADERS_REMOVE)))) = 0" by code_simp+
  from remove_absent_multi_header [OF this] show ?thesis by blast
qed

theorem set_header_no_injection_witness:
  "\<exists>rc r1. ngx_http_wasm_set_req_header True demo_strings demo_clears [65, 58] (Some [49, 13, 10]) HEADERS_APPEND demo_request = Some (rc, r1) \<and>
    request_safe r1"
proof -
  have "ngx_http_copy_escaped (pnalloc demo_strings) [65, 58] ESCAPE_HEADER_NAME = Some (Some [65, 37, 51, 65])"
    "ngx_http_copy_escaped (pnalloc demo_strings) [49, 13, 10] ESCAPE_HEADER_VALUE = Some (Some [49, 37, 48, 68, 37, 48, 65])"
    "find_handler demo_strings ngx_http_wasm_req_headers_handlers [65, 37, 51, 65] = ([65, 37, 51, 65], [], H_generic)"
    by code_simp+
  then obtain rc r1 where r1: "ngx_http_wasm_set_req_header True demo_strings demo_clears [65, 58] (Some [49, 13, 10]) HEADERS_APPEND demo_request = Some (rc, r1)"
    unfolding ngx_http_wasm_set_req_header_def ngx_http_wasm_set_header_def
    by (simp add: ngx_http_wasm_set_header_handler_def set_header_in_def helper_push)
      (simp add: demo_strings_def)
  have "request_safe demo_request" by code_simp
  from set_header_no_injection [OF demo_strings_laws demo_clears_laws this disjI1 [OF r1]] r1 show ?thesis by blast
qed

end
