(* ===== verification/Proxy_Wasm_Maps_Props.thy ===== *)
theory Proxy_Wasm_Maps_Props
  imports Proxy_Wasm_Maps Http_Headers_Props
begin

text \<open>
  Properties of the header maps: no run of host calls puts a line break into a header, what setting the path does, and the
  calls of a guest that access memory through a NULL pointer.
\<close>

section \<open>Runs of host calls\<close>

datatype map_call =
    Get_pairs map_type u32 u32
  | Get_value map_type u32 u32 u32 u32
  | Set_pairs map_type u32 u32
  | Add_value map_type u32 u32 u32 u32
  | Replace_value map_type u32 u32 u32 u32
  | Remove_value map_type u32 u32

fun run_map_call :: "bool \<Rightarrow> map_env \<Rightarrow> 'g hguest \<Rightarrow> nat \<Rightarrow> (nat \<Rightarrow> bool) \<Rightarrow> map_call \<Rightarrow> 'g map_ctx \<Rightarrow> (hfunc_ret \<times> 'g map_ctx) option" where
  "run_map_call dbg E G mp ok (Get_pairs t a b) m = ngx_proxy_wasm_hfuncs_get_header_map_pairs dbg E G mp t a b m"
| "run_map_call dbg E G mp ok (Get_value t a b c d) m = ngx_proxy_wasm_hfuncs_get_header_map_value E G t a b c d m"
| "run_map_call dbg E G mp ok (Set_pairs t a b) m = ngx_proxy_wasm_hfuncs_set_header_map_pairs dbg E ok t a b m"
| "run_map_call dbg E G mp ok (Add_value t a b c d) m = ngx_proxy_wasm_hfuncs_add_header_map_value dbg E t a b c d m"
| "run_map_call dbg E G mp ok (Replace_value t a b c d) m = ngx_proxy_wasm_hfuncs_replace_header_map_value dbg E t a b c d m"
| "run_map_call dbg E G mp ok (Remove_value t a b) m = ngx_proxy_wasm_hfuncs_remove_header_map_value dbg E t a b m"

text \<open>The states that a guest reaches: between two calls it writes its own memory, and nginx goes on to other steps.\<close>

inductive map_reach :: "bool \<Rightarrow> map_env \<Rightarrow> 'g hguest \<Rightarrow> nat \<Rightarrow> (nat \<Rightarrow> bool) \<Rightarrow> 'g map_ctx \<Rightarrow> 'g map_ctx \<Rightarrow> bool"
  for dbg E G mp ok m where
  start: "map_reach dbg E G mp ok m m"
| guest: "map_reach dbg E G mp ok m m1 \<Longrightarrow> map_reach dbg E G mp ok m (m1\<lparr>mc_mem := mem, mc_world := w, mc_step := stp\<rparr>)"
| call: "map_reach dbg E G mp ok m m1 \<Longrightarrow> run_map_call dbg E G mp ok c m1 = Some (r, m2) \<Longrightarrow> map_reach dbg E G mp ok m m2"

definition env_laws :: "map_env \<Rightarrow> bool" where
  "env_laws E \<longleftrightarrow> strings_laws (strs E) \<and> clears_laws (clears E)"

text \<open>A partial step whose final state, if there is one, has a property; the rules follow the structure of a program.\<close>

definition ends :: "('s \<Rightarrow> bool) \<Rightarrow> ('a \<times> 's) option \<Rightarrow> bool" where
  "ends P x \<longleftrightarrow> (\<forall>r m. x = Some (r, m) \<longrightarrow> P m)"

lemma ends_simps [simp]: "ends P None" "ends P (Some y) \<longleftrightarrow> P (snd y)"
  by (cases y, auto simp: ends_def)+

lemma endsD: "ends P x \<Longrightarrow> x = Some (r, m) \<Longrightarrow> P m"
  by (simp add: ends_def)

lemma endsI: "(\<And>r m. x = Some (r, m) \<Longrightarrow> P m) \<Longrightarrow> ends P x"
  by (simp add: ends_def)

lemma ends_bind: "ends Q x \<Longrightarrow> (\<And>r m. x = Some (r, m) \<Longrightarrow> Q m \<Longrightarrow> ends P (f r m)) \<Longrightarrow> ends P (Option.bind x (\<lambda>(r, m). f r m))"
  by (auto simp: ends_def bind_eq_Some_conv)

lemma ends_bind_any: "(\<And>y. x = Some y \<Longrightarrow> ends P (f y)) \<Longrightarrow> ends P (Option.bind x f)"
  by (auto simp: ends_def bind_eq_Some_conv)

lemma ends_option: "(x = None \<Longrightarrow> ends P a) \<Longrightarrow> (\<And>y. x = Some y \<Longrightarrow> ends P (f y)) \<Longrightarrow> ends P (case x of None \<Rightarrow> a | Some y \<Rightarrow> f y)"
  by (cases x) auto

lemma ends_if: "(c \<Longrightarrow> ends P a) \<Longrightarrow> (\<not> c \<Longrightarrow> ends P b) \<Longrightarrow> ends P (if c then a else b)"
  by simp

lemma ends_prod: "(\<And>a b. x = (a, b) \<Longrightarrow> ends P (f a b)) \<Longrightarrow> ends P (case x of (a, b) \<Rightarrow> f a b)"
  by (cases x) auto

lemma ends_let: "(\<And>y. y = x \<Longrightarrow> ends P (f y)) \<Longrightarrow> ends P (let y = x in f y)"
  by simp

lemmas ends_rules = ends_option ends_if ends_prod ends_let

text \<open>Reading never touches the request.\<close>

abbreviation same_req :: "'g map_ctx \<Rightarrow> 'g map_ctx \<Rightarrow> bool" where
  "same_req m \<equiv> (\<lambda>m1. mc_req m1 = mc_req m)"

lemma special_get_req: "ends (same_req m) (special_get E s m)"
  by (cases s)
    (auto simp: ngx_proxy_wasm_maps_get_path_def ngx_proxy_wasm_maps_get_scheme_def ngx_proxy_wasm_maps_get_authority_def
      ngx_proxy_wasm_maps_get_response_status_def ngx_proxy_wasm_maps_get_dispatch_response_status_def
      ngx_proxy_wasm_maps_get_dispatch_status_def Let_def split: option.split)

lemma special_extras_req: "mc_req m = mc_req m0 \<Longrightarrow> ends (same_req m0) (special_extras E t ks acc m)"
proof (induction ks arbitrary: acc m)
  case (Cons k ks)
  obtain n t1 s where k: "k = (n, t1, s)" by (cases k)
  show ?case unfolding k special_extras.simps
    by (rule ends_if, (rule Cons.IH Cons.prems)+, rule ends_bind [OF special_get_req])
      (auto intro!: ends_option Cons.IH simp: Cons.prems)
qed simp

lemma shims_req: "ngx_http_wasm_get_shim_headers E m = (sh, m1) \<Longrightarrow> mc_req m1 = mc_req m"
  by (auto simp: ngx_http_wasm_get_shim_headers_def split: option.split_asm if_split_asm)

lemma get_all_req: "ends (same_req m) (ngx_proxy_wasm_maps_get_all E t m)"
  unfolding ngx_proxy_wasm_maps_get_all_def
  by (rule ends_option, simp, rule ends_option, simp, rule ends_bind [OF special_extras_req [OF refl]])
    (auto intro!: ends_rules split: option.split dest: shims_req)

lemma maps_get_req: "ends (same_req m) (ngx_proxy_wasm_maps_get E t key m)"
  unfolding ngx_proxy_wasm_maps_get_def ngx_proxy_wasm_maps_get_special_key_def
  by (rule ends_bind [where Q = "same_req m"]) (auto intro!: ends_option ends_if special_get_req)

lemma marshal_pairs_req: "mc_req m = mc_req m0 \<Longrightarrow> ends (same_req m0) (marshal_pairs dbg G mp ps ex rbuf rlen m)"
  unfolding marshal_pairs_def
  by (auto intro!: ends_bind_any ends_rules)

lemma return_value_req: "mc_req m = mc_req m0 \<Longrightarrow> ends (same_req m0) (return_value G val rbuf rlen m)"
  unfolding return_value_def
  by (auto intro!: ends_bind_any ends_rules)

lemma get_pairs_req: "ends (same_req m) (ngx_proxy_wasm_hfuncs_get_header_map_pairs dbg E G mp t a b m)"
  unfolding ngx_proxy_wasm_hfuncs_get_header_map_pairs_def
  by (auto intro!: ends_rules ends_bind [OF get_all_req] marshal_pairs_req)

lemma get_value_req: "ends (same_req m) (ngx_proxy_wasm_hfuncs_get_header_map_value E G t a b c d m)"
  unfolding ngx_proxy_wasm_hfuncs_get_header_map_value_def
  by (auto intro!: ends_rules ends_bind [OF maps_get_req] ends_bind_any return_value_req dest: endsD [OF maps_get_req])

text \<open>Setting goes through the operations on headers.\<close>

lemma handler_names:
  "\<forall>(n, f, h) \<in> set ngx_http_wasm_req_headers_handlers. list_all tchar n"
  "\<forall>(n, f, h) \<in> set ngx_http_wasm_resp_headers_handlers. list_all tchar n"
  by code_simp+

lemma set_header_of_safe:
  assumes "set_header_of dbg E t key val mode m = Some (rc, m1)" and "env_laws E" and "request_safe (mc_req m)"
  shows "request_safe (mc_req m1)"
  using assms set_header_safe [OF _ _ assms(3) handler_names(1), of "strs E" "clears E" dbg HEADERS_REQUEST key val mode]
    set_header_safe [OF _ _ assms(3) handler_names(2), of "strs E" "clears E" dbg HEADERS_RESPONSE key val mode]
  by (auto simp: set_header_of_def Let_def env_laws_def ngx_http_wasm_set_req_header_def ngx_http_wasm_set_resp_header_def bind_eq_Some_conv
    split: map_type.split_asm if_split_asm)

lemma special_set_safe:
  "special_set E s val m = Some (rc, m1) \<Longrightarrow> request_safe (mc_req m) \<Longrightarrow> request_safe (mc_req m1)"
  by (cases s)
    (auto simp: ngx_proxy_wasm_maps_set_path_def ngx_proxy_wasm_maps_set_response_status_def ngx_http_wasm_set_resp_status_def Let_def
      split: option.split_asm if_split_asm)

lemma maps_set_safe:
  "ngx_proxy_wasm_maps_set dbg E t key val op m = Some (rc, m1) \<Longrightarrow> env_laws E \<Longrightarrow> request_safe (mc_req m) \<Longrightarrow> request_safe (mc_req m1)"
  by (auto simp: ngx_proxy_wasm_maps_set_def ngx_proxy_wasm_maps_set_special_key_def bind_eq_Some_conv
    split: if_split_asm option.split_asm dest: special_set_safe set_header_of_safe)

lemma maps_set_all_safe:
  "ngx_proxy_wasm_maps_set_all dbg E t ps m = Some (rc, m1) \<Longrightarrow> env_laws E \<Longrightarrow> request_safe (mc_req m) \<Longrightarrow> request_safe (mc_req m1)"
proof (induction ps arbitrary: m)
  case (Cons p ps)
  then show ?case by (cases p) (auto simp: bind_eq_Some_conv split: if_split_asm dest: maps_set_safe)
qed simp

lemma escape_in_place_safe:
  assumes "request_safe r" and "list_all tchar k"
  shows "request_safe (escape_in_place ht i k r)"
proof -
  have l: "list_safe (ngx_http_wasm_htype_list r ht)" using assms(1) by (rule htype_list_safe)
  have "elt_safe ((elts (ngx_http_wasm_htype_list r ht) ! i)\<lparr>e_key := k\<rparr>)" if "i < length (elts (ngx_http_wasm_htype_list r ht))"
    using l assms(2) that elt_safe_nth [of "elts (ngx_http_wasm_htype_list r ht)" i] by (simp add: list_safe_def elt_safe_def)
  with l have "list_safe ((ngx_http_wasm_htype_list r ht)\<lparr>elts := (elts (ngx_http_wasm_htype_list r ht))[i := (elts (ngx_http_wasm_htype_list r ht) ! i)\<lparr>e_key := k\<rparr>]\<rparr>)"
    by (auto simp: list_safe_def intro!: list_all_update)
  then show ?thesis using put_list_safe assms(1) by (simp add: escape_in_place_def Let_def)
qed

lemma clear_headers_safe:
  assumes S: "strings_laws S" and C: "clears_laws C" and hs: "\<forall>(n, f, h) \<in> set handlers. list_all tchar n"
  shows "clear_headers dbg S C ht handlers is r = Some (rc, r1) \<Longrightarrow> request_safe r \<Longrightarrow> request_safe r1"
proof (induction "is" arbitrary: r)
  case (Cons i "is")
  let ?e = "elts (ngx_http_wasm_htype_list r ht) ! i"
  show ?case
  proof (cases "e_hash ?e = 0")
    case True
    with Cons show ?thesis by (simp add: Let_def)
  next
    case False
    with Cons.prems(1) obtain k rc1 r2 where k: "ngx_http_copy_escaped (pnalloc S) (e_key ?e) ESCAPE_HEADER_NAME = Some k"
      and set: "ngx_http_wasm_set_header dbg S C ht handlers (e_key ?e) None HEADERS_REMOVE (case k of None \<Rightarrow> r | Some k1 \<Rightarrow> escape_in_place ht i k1 r) = Some (rc1, r2)"
      and rest: "r2 = r1 \<or> clear_headers dbg S C ht handlers is r2 = Some (rc, r1)"
      by (auto simp: Let_def bind_eq_Some_conv split: if_split_asm)
    have "request_safe (case k of None \<Rightarrow> r | Some k1 \<Rightarrow> escape_in_place ht i k1 r)"
      using k Cons.prems(2) copy_escaped_escaped [OF S, of "e_key ?e" ESCAPE_HEADER_NAME] escaped_name_safe
      by (auto split: option.split intro!: escape_in_place_safe)
    from set_header_safe [OF S C this hs set] rest Cons.IH show ?thesis by blast
  qed
qed simp

lemma clear_map_safe:
  "clear_map dbg E t m = Some (Some (rc, m1)) \<Longrightarrow> env_laws E \<Longrightarrow> request_safe (mc_req m) \<Longrightarrow> request_safe (mc_req m1)"
  using clear_headers_safe [OF _ _ handler_names(1), of "strs E" "clears E" dbg]
    clear_headers_safe [OF _ _ handler_names(2), of "strs E" "clears E" dbg]
  by (auto simp: clear_map_def env_laws_def Let_def ngx_http_wasm_clear_req_headers_def ngx_http_wasm_clear_resp_headers_def
    ngx_http_wasm_clear_headers_helper_def bind_eq_Some_conv split: map_type.split_asm)

lemma set_check_req: "ngx_proxy_wasm_hfuncs_set_header_check t m = (r, m1) \<Longrightarrow> mc_req m1 = mc_req m"
  by (auto simp: ngx_proxy_wasm_hfuncs_set_header_check_def split: map_type.split_asm if_split_asm)

abbreviation safe_req :: "'g map_ctx \<Rightarrow> bool" where
  "safe_req m \<equiv> request_safe (mc_req m)"

lemma ends_set_result: "ends P x \<Longrightarrow> ends P (Option.bind x (set_result dbg))"
  by (cases x) (auto simp: set_result_def)

lemma maps_set_ends: "env_laws E \<Longrightarrow> safe_req m \<Longrightarrow> ends safe_req (ngx_proxy_wasm_maps_set dbg E t key val op m)"
  by (auto simp: ends_def dest: maps_set_safe)

lemma set_map_value_safe: "env_laws E \<Longrightarrow> safe_req m \<Longrightarrow> ends safe_req (set_map_value dbg E op t a b c d m)"
  unfolding set_map_value_def
  by (auto intro!: ends_rules ends_set_result maps_set_ends dest: set_check_req split: option.split)

lemma remove_value_safe: "env_laws E \<Longrightarrow> safe_req m \<Longrightarrow> ends safe_req (ngx_proxy_wasm_hfuncs_remove_header_map_value dbg E t a b m)"
  unfolding ngx_proxy_wasm_hfuncs_remove_header_map_value_def
  by (auto intro!: ends_rules ends_set_result maps_set_ends dest: set_check_req split: option.split)

lemma set_pairs_safe:
  assumes E: "env_laws E" and m: "safe_req m"
  shows "ends safe_req (ngx_proxy_wasm_hfuncs_set_header_map_pairs dbg E ok t a b m)"
proof -
  have clear: "ends safe_req (Option.bind res (\<lambda>(rc1, m2). if rc1 \<noteq> NGX_OK then Some (Result RESULT_INTERNAL_FAILURE, m2)
      else Option.bind (ngx_proxy_wasm_maps_set_all dbg E t ps m2) (set_result dbg)))"
    if "clear_map dbg E t m1 = Some res" and "mc_req m1 = mc_req m" for res and m1 :: "'a map_ctx" and ps
  proof (rule ends_bind [where Q = safe_req])
    show "ends safe_req res" using that clear_map_safe [of dbg E t m1] E m by (auto simp: ends_def)
  next
    fix rc and m2 :: "'a map_ctx" assume "safe_req m2"
    with E show "ends safe_req (if rc \<noteq> NGX_OK then Some (Result RESULT_INTERNAL_FAILURE, m2)
      else Option.bind (ngx_proxy_wasm_maps_set_all dbg E t ps m2) (set_result dbg))"
      by (auto intro!: ends_set_result [OF endsI] dest: maps_set_all_safe)
  qed
  show ?thesis unfolding ngx_proxy_wasm_hfuncs_set_header_map_pairs_def
    by (rule ends_option, simp add: m, rule ends_bind_any, rule ends_prod, rule ends_if, simp add: m, rule ends_prod,
        rule ends_option, rule ends_option, (rule clear; force dest: set_check_req)?)
      (auto simp: m dest: set_check_req intro!: clear)
qed

text \<open>Every host call on the maps keeps the headers of the request and of the response free of line breaks.\<close>

lemma run_map_call_safe: "env_laws E \<Longrightarrow> safe_req m \<Longrightarrow> ends safe_req (run_map_call dbg E G mp ok c m)"
  using get_pairs_req [of m dbg E G mp] get_value_req [of m E G] set_pairs_safe [of E m dbg ok]
    set_map_value_safe [of E m dbg] remove_value_safe [of E m dbg]
  by (cases c)
    (auto simp: ends_def ngx_proxy_wasm_hfuncs_add_header_map_value_def ngx_proxy_wasm_hfuncs_replace_header_map_value_def)

section \<open>Properties\<close>

text \<open>
  C23. Whatever host calls on the header maps a guest makes, with whatever bytes in its memory, in any order, the headers of the request and
  of the response that nginx sends have names of token characters only and values without control characters that end a line:
  a filter cannot inject a header or split a response.
\<close>

theorem map_calls_no_injection:
  assumes "map_reach dbg E G max_pairs alloc_ok m m1" and "env_laws E" and "request_safe (mc_req m)"
  shows "request_safe (mc_req m1)"
  using assms
proof induction
  case (call m1 c r m2)
  then show ?case using run_map_call_safe [of E m1 dbg G max_pairs alloc_ok c] by (auto dest: endsD)
qed simp_all

text \<open>
  C28. Setting the pseudo header :path and reading it back. A path with a question mark is split there into the uri and the query, and is read
  back as it was (without a final lone question mark). A path without one keeps the query of the request, which is
  appended to what the filter has set.
\<close>

theorem path_set_get:
  assumes a: "\<forall>n. pnalloc (strs E) n \<noteq> None" and z: "0 \<notin> set v"
  shows "\<exists>m1 m2. ngx_proxy_wasm_maps_set dbg E MAP_REQUEST_HEADERS (bytes_of_string '':path'') (Some v) MAP_SET m = Some (NGX_OK, m1) \<and>
    uri m1 = takeWhile (\<lambda>b. b \<noteq> 63) v \<and>
    ngx_proxy_wasm_maps_get E MAP_REQUEST_HEADERS (bytes_of_string '':path'') m1 =
      Some (Some (if 63 \<in> set v then (if v = takeWhile (\<lambda>b. b \<noteq> 63) v @ [63] then butlast v else v)
        else v @ (if uri_args m = [] then [] else 63 # uri_args m)), m2)"
proof -
  have al: "pnalloc (strs E) n = None \<longleftrightarrow> False" for n using a by simp
  have tw: "takeWhile (\<lambda>b. b \<noteq> 0) v = v" using z by (intro takeWhile_eq_all_conv [THEN iffD2]) auto
  have f: "find_special MAP_REQUEST_HEADERS (bytes_of_string '':path'') = Some Sp_path" by code_simp
  let ?u = "takeWhile (\<lambda>b. b \<noteq> 63) v" and ?q = "drop (Suc (length (takeWhile (\<lambda>b. b \<noteq> 63) v))) v"
  have u: "take (length ?u) v = ?u" by (metis append_eq_conv_conj takeWhile_dropWhile_id)
  have split: "v = ?u @ 63 # ?q" if "63 \<in> set v"
  proof -
    from split_list_first [OF that] obtain ys zs where v: "v = ys @ 63 # zs" "63 \<notin> set ys" by blast
    then have "?u = ys" by (subst v(1), subst takeWhile_append2) auto
    with v show ?thesis by simp
  qed
  have nq: "?u = v" if "63 \<notin> set v" using that by (intro takeWhile_eq_all_conv [THEN iffD2]) auto
  let ?m1 = "snd (ngx_proxy_wasm_maps_set_path v m)"
  have set: "ngx_proxy_wasm_maps_set dbg E MAP_REQUEST_HEADERS (bytes_of_string '':path'') (Some v) MAP_SET m = Some (NGX_OK, ?m1)"
    using a by (simp add: ngx_proxy_wasm_maps_set_def ngx_proxy_wasm_maps_set_special_key_def f ngx_proxy_wasm_maps_set_path_def Let_def)
  have m1: "uri ?m1 = ?u" "uri_args ?m1 = (if 63 \<in> set v then ?q else uri_args m)" "pw_path ?m1 = []"
    unfolding ngx_proxy_wasm_maps_set_path_def Let_def tw by (cases "63 \<in> set v"; simp add: u nq)+
  have get: "\<exists>m2. ngx_proxy_wasm_maps_get E MAP_REQUEST_HEADERS (bytes_of_string '':path'') ?m1 =
      Some (Some (uri ?m1 @ (if uri_args ?m1 \<noteq> [] then 63 # uri_args ?m1 else [])), m2)"
    using m1(3) by (simp add: al ngx_proxy_wasm_maps_get_def ngx_proxy_wasm_maps_get_special_key_def f ngx_proxy_wasm_maps_get_path_def Let_def)
  have "uri ?m1 @ (if uri_args ?m1 \<noteq> [] then 63 # uri_args ?m1 else []) =
      (if 63 \<in> set v then (if v = ?u @ [63] then butlast v else v) else v @ (if uri_args m = [] then [] else 63 # uri_args m))"
  proof (cases "63 \<in> set v")
    case True
    have "v = ?u @ [63] \<longleftrightarrow> ?q = []" by (subst split [OF True]) (simp only: same_append_eq list.inject simp_thms)
    moreover have "butlast v = ?u" if "?q = []" by (subst split [OF True], subst that) (simp only: butlast_snoc)
    ultimately show ?thesis using m1 split [OF True] True by auto
  next
    case False
    then show ?thesis using m1 by (simp add: nq)
  qed
  with get obtain m2 where "ngx_proxy_wasm_maps_get E MAP_REQUEST_HEADERS (bytes_of_string '':path'') ?m1 =
      Some (Some (if 63 \<in> set v then (if v = ?u @ [63] then butlast v else v)
        else v @ (if uri_args m = [] then [] else 63 # uri_args m)), m2)" by (simp only:) blast
  with set m1(1) show ?thesis by blast
qed

text \<open>
  Removing one of the pseudo headers that have a setter calls the setter with a NULL value, which it dereferences: a guest that
  removes :path or :method of the request, or :status of the response, crashes the worker.
\<close>

theorem remove_pseudo_header_null:
  assumes "ngx_wavm_memory_lift (mc_mem m) key_ptr key_len 1 = Some kp" and "mc_step m = STEP_REQ_HEADERS"
    and "(t, read_slice (mc_mem m) kp key_len) \<in>
      {(MAP_REQUEST_HEADERS, bytes_of_string '':path''), (MAP_REQUEST_HEADERS, bytes_of_string '':method''),
       (MAP_RESPONSE_HEADERS, bytes_of_string '':status'')}"
  shows "ngx_proxy_wasm_hfuncs_remove_header_map_value dbg E t key_ptr key_len m = None"
proof -
  have f: "find_special MAP_REQUEST_HEADERS (bytes_of_string '':path'') = Some Sp_path"
    "find_special MAP_REQUEST_HEADERS (bytes_of_string '':method'') = Some Sp_method"
    "find_special MAP_RESPONSE_HEADERS (bytes_of_string '':status'') = Some Sp_status" by code_simp+
  from assms show ?thesis
    by (auto simp: ngx_proxy_wasm_hfuncs_remove_header_map_value_def ngx_proxy_wasm_hfuncs_set_header_check_def
      ngx_proxy_wasm_maps_set_def ngx_proxy_wasm_maps_set_special_key_def f)
qed

text \<open>
  Reading the map of a call response outside of the callback of a call, when there is no current call: a header is not found and
  the pairs are refused, but the pseudo headers :status and :dispatch_status read the call through a NULL pointer. When the
  call failed without a response, every other header and the pairs of the map are read through a NULL pointer.
\<close>

theorem call_response_null:
  assumes k: "ngx_wavm_memory_lift (mc_mem m) key_ptr key_len 1 = Some kp" and r: "lift_u32 (mc_mem m) rbuf_ptr = Some rbuf"
    and l: "lift_u32 (mc_mem m) rlen_ptr = Some rlen"
  shows "(dispatch_call m = None \<longrightarrow>
      ngx_proxy_wasm_hfuncs_get_header_map_pairs dbg E G max_pairs MAP_CALL_RESPONSE_HEADERS rbuf_ptr rlen_ptr m =
        Some (Result RESULT_BAD_ARGUMENT, m) \<and>
      (ngx_proxy_wasm_hfuncs_get_header_map_value E G MAP_CALL_RESPONSE_HEADERS key_ptr key_len rbuf_ptr rlen_ptr m = None \<longleftrightarrow>
        read_slice (mc_mem m) kp key_len \<in> {bytes_of_string '':status'', bytes_of_string '':dispatch_status''})) \<and>
    (dispatch_call m = Some None \<longrightarrow>
      ngx_proxy_wasm_hfuncs_get_header_map_pairs dbg E G max_pairs MAP_CALL_RESPONSE_HEADERS rbuf_ptr rlen_ptr m = None \<and>
      (read_slice (mc_mem m) kp key_len \<noteq> bytes_of_string '':dispatch_status'' \<longrightarrow>
        ngx_proxy_wasm_hfuncs_get_header_map_value E G MAP_CALL_RESPONSE_HEADERS key_ptr key_len rbuf_ptr rlen_ptr m = None))"
proof -
  have f: "find_special MAP_CALL_RESPONSE_HEADERS k =
    (if k = bytes_of_string '':status'' then Some Sp_call_status else if k = bytes_of_string '':dispatch_status'' then Some Sp_dispatch_status else None)" for k
    by (auto simp: find_special_def ngx_proxy_wasm_maps_special_keys_def bytes_of_string_def)
  have w: "\<exists>mem1. buf_write (mc_mem m) rlen (le32 0) = Some mem1"
    using lift_u32_bounds [OF l] by (simp add: buf_write_def)
  from w show ?thesis
    by (auto simp: ngx_proxy_wasm_hfuncs_get_header_map_pairs_def ngx_proxy_wasm_hfuncs_get_header_map_value_def k r l
      ngx_proxy_wasm_maps_get_all_def ngx_proxy_wasm_maps_get_map_def ngx_proxy_wasm_maps_get_def ngx_proxy_wasm_maps_get_special_key_def f
      ngx_proxy_wasm_maps_get_dispatch_response_status_def ngx_proxy_wasm_maps_get_dispatch_status_def)
qed

section \<open>A concrete instance\<close>

definition demo_env :: map_env where
  "demo_env = \<lparr>strs = demo_strings, clears = demo_clears, dec = (\<lambda>_. [48]), dec3 = (\<lambda>_. [50, 48, 48]), atoi = (\<lambda>_. Some 200),
     scheme_var = None, sockaddr_ok = True, server_name = [97], hostname = [98], local_port = 80, keepalive_header = 0,
     array_push_ok = (\<lambda>_. True)\<rparr>"

definition demo_map_ctx :: "bytes \<Rightarrow> unit map_ctx" where
  "demo_map_ctx mem = \<lparr>mc_mem = mem, mc_world = (), mc_req = demo_request, mc_step = STEP_REQ_HEADERS, abi_0_1_0 = False,
     uri = [47], uri_args = [113], method_name = [71, 69, 84], valid_unparsed_uri = True, valid_location = True, req_internal = False,
     err_status = 0, status_line = [], status_line_len = 0, http_9 = False, header_sent = False, chunked = False, gzip_vary = False, pw_path = [], pw_scheme = [], pw_authority = None,
     response_code = 0, response_status = [], dispatch_call_code = 0, dispatch_call_status = [], dispatch_call = None, dispatch_sock_status = [],
     upstream_headers = None, resp_shims = None, reset_resp_shims = False, req_headers_modified = False, in_header_filter = False\<rparr>"

definition demo_guest :: "unit hguest" where
  "demo_guest = \<lparr>h_malloc = (\<lambda>n mem w. (0, mem, w))\<rparr>"

text \<open>Memory with a name from byte 8 on.\<close>

definition demo_name_mem :: "string \<Rightarrow> bytes" where
  "demo_name_mem k = replicate 8 0 @ bytes_of_string k"

lemma demo_env_laws: "env_laws demo_env"
  by (simp add: env_laws_def demo_env_def demo_strings_laws demo_clears_laws)

theorem map_calls_no_injection_witness:
  "\<exists>m1. ngx_proxy_wasm_hfuncs_add_header_map_value True demo_env MAP_REQUEST_HEADERS 4 2 4 3 (demo_map_ctx [0, 0, 0, 0, 65, 58, 10]) =
     Some (Result RESULT_OK, m1) \<and> request_safe (mc_req m1)"
proof -
  let ?m = "demo_map_ctx [0, 0, 0, 0, 65, 58, 10]"
  have parts: "ngx_http_copy_escaped (pnalloc demo_strings) [65, 58] ESCAPE_HEADER_NAME = Some (Some [65, 37, 51, 65])"
    "ngx_http_copy_escaped (pnalloc demo_strings) [65, 58, 10] ESCAPE_HEADER_VALUE = Some (Some [65, 58, 37, 48, 65])"
    "find_handler demo_strings ngx_http_wasm_req_headers_handlers [65, 37, 51, 65] = ([65, 37, 51, 65], [], H_generic)"
    "find_special MAP_REQUEST_HEADERS [65, 58] = None" by code_simp+
  have lifts: "ngx_wavm_memory_lift (mc_mem ?m) 4 2 1 = Some (Some 4)" "ngx_wavm_memory_lift (mc_mem ?m) 4 3 1 = Some (Some 4)" by code_simp+
  have alloc: "pnalloc demo_strings n = Some (replicate n 0)" "list_push_ok demo_strings n" for n by (simp_all add: demo_strings_def)
  have set: "\<exists>r1. ngx_http_wasm_set_req_header True demo_strings demo_clears [65, 58] (Some [65, 58, 10]) HEADERS_APPEND demo_request = Some (NGX_OK, r1)"
    unfolding ngx_http_wasm_set_req_header_def ngx_http_wasm_set_header_def
    by (simp add: ngx_http_wasm_set_header_handler_def set_header_in_def helper_push parts alloc)
  then obtain m1 where m1: "ngx_proxy_wasm_hfuncs_add_header_map_value True demo_env MAP_REQUEST_HEADERS 4 2 4 3 ?m = Some (Result RESULT_OK, m1)"
    unfolding ngx_proxy_wasm_hfuncs_add_header_map_value_def set_map_value_def lifts
    by (auto simp: ngx_proxy_wasm_hfuncs_set_header_check_def demo_map_ctx_def read_slice_def ngx_proxy_wasm_maps_set_def alloc
      ngx_proxy_wasm_maps_set_special_key_def parts set_header_of_def demo_env_def set_result_def)
  have "map_reach True demo_env demo_guest 0 (\<lambda>_. True) ?m m1"
    using m1 by (intro map_reach.call [OF map_reach.start, where c = "Add_value MAP_REQUEST_HEADERS 4 2 4 3"]) simp
  moreover have "request_safe (mc_req ?m)" unfolding demo_map_ctx_def by code_simp
  ultimately show ?thesis using map_calls_no_injection demo_env_laws m1 by blast
qed

theorem path_set_get_witness:
  "\<exists>m1 m2. ngx_proxy_wasm_maps_get demo_env MAP_REQUEST_HEADERS (bytes_of_string '':path'') (m1 :: unit map_ctx) = Some (Some [47, 97, 63, 113], m2)"
  using path_set_get [of demo_env "[47, 97]" True "demo_map_ctx []"]
  by (auto simp: demo_env_def demo_strings_def demo_map_ctx_def)

theorem remove_pseudo_header_null_witness:
  "ngx_proxy_wasm_hfuncs_remove_header_map_value True demo_env MAP_REQUEST_HEADERS 8 5 (demo_map_ctx (demo_name_mem '':path'')) = None"
proof -
  have "ngx_wavm_memory_lift (mc_mem (demo_map_ctx (demo_name_mem '':path''))) 8 5 1 = Some (Some 8)"
    "read_slice (mc_mem (demo_map_ctx (demo_name_mem '':path''))) (Some 8) 5 = bytes_of_string '':path''" by code_simp+
  from remove_pseudo_header_null [OF this(1), unfolded this(2)] show ?thesis by (simp add: demo_map_ctx_def)
qed

theorem call_response_null_witness:
  "ngx_proxy_wasm_hfuncs_get_header_map_value demo_env demo_guest MAP_CALL_RESPONSE_HEADERS 8 7 4 4 (demo_map_ctx (demo_name_mem '':status'')) = None"
proof -
  let ?m = "demo_map_ctx (demo_name_mem '':status'')"
  have "ngx_wavm_memory_lift (mc_mem ?m) 8 7 1 = Some (Some 8)" "lift_u32 (mc_mem ?m) 4 = Some 4"
    "read_slice (mc_mem ?m) (Some 8) 7 = bytes_of_string '':status''" by code_simp+
  with call_response_null [of ?m 8 7 "Some 8" 4 4 4 4 True demo_env demo_guest 0] show ?thesis
    by (simp add: demo_map_ctx_def)
qed

end
