(* ===== verification/Proxy_Wasm_Properties_Props.thy ===== *)
theory Proxy_Wasm_Properties_Props
  imports Proxy_Wasm_Properties Proxy_Wasm_Maps_Props
begin

text \<open>
  What filters and Lua code see of the properties: round trips of host properties and of variables of nginx, constants that nobody changes,
  attributes that are other names of variables, and the accesses outside of buffers.
\<close>

section \<open>Returning a value to the guest\<close>

lemma return_value_spec:
  assumes b: "rbuf + 4 \<le> length (mc_mem m)" "rlen + 4 \<le> length (mc_mem m)" "apart (rbuf, 4) (rlen, 4)"
    and m: "h_malloc G (length v) (mc_mem m) (mc_world m) = (p, mem1, w)"
      "malloc_gives (length v) (mc_mem m) [rbuf, rlen] (p, mem1, w)"
  shows "\<exists>m1. return_value G v rbuf rlen m = Some (Result RESULT_OK, m1) \<and> buf_read (mc_mem m1) (unat p) (length v) = Some v \<and>
    buf_read (mc_mem m1) rbuf 4 = Some (le32 p) \<and> buf_read (mc_mem m1) rlen 4 = Some (le32 (of_nat (length v)))"
proof -
  have mg: "p \<noteq> 0" "length (mc_mem m) \<le> length mem1" "unat p + length v \<le> length mem1"
    "apart (unat p, length v) (rbuf, 4)" "apart (unat p, length v) (rlen, 4)" using m(2) by (simp_all add: malloc_gives_def)
  obtain mem2 where mem2: "buf_write mem1 (unat p) v = Some mem2" using buf_write_ok [of "unat p" v mem1] mg(3) by auto
  have l2: "length mem2 = length mem1" using length_buf_write [OF mem2] .
  obtain mem3 where mem3: "buf_write mem2 rbuf (le32 p) = Some mem3" using buf_write_ok [of rbuf "le32 p" mem2] b(1) mg(2) l2 by auto
  have l3: "length mem3 = length mem1" using length_buf_write [OF mem3] l2 by simp
  obtain mem4 where mem4: "buf_write mem3 rlen (le32 (of_nat (length v))) = Some mem4"
    using buf_write_ok [of rlen "le32 (of_nat (length v))" mem3] b(2) mg(2) l3 by auto
  have "return_value G v rbuf rlen m = Some (Result RESULT_OK, m\<lparr>mc_mem := mem1, mc_world := w\<rparr>\<lparr>mc_mem := mem4\<rparr>)"
    using m(1) mg(1) malloc_lift(1) [OF m(2)] mem2 mem3 mem4 by (simp add: return_value_def)
  moreover have "buf_read mem4 (unat p) (length v) = Some v"
    using buf_read_kept [OF mem4, of "unat p" "length v"] buf_read_kept [OF mem3, of "unat p" "length v"] buf_read_written [OF mem2] mg(4,5)
    by (auto simp: apart_def)
  moreover have "buf_read mem4 rbuf 4 = Some (le32 p)" "buf_read mem4 rlen 4 = Some (le32 (of_nat (length v)))"
    using buf_read_kept [OF mem4, of rbuf 4] buf_read_written [OF mem3] buf_read_written [OF mem4] b(3) by (auto simp: apart_def)
  ultimately show ?thesis by auto
qed

section \<open>Which entry of the table a path has\<close>

lemma bytes_of_string_inj [simp]: "bytes_of_string s = bytes_of_string t \<longleftrightarrow> s = t"
proof -
  have "inj (\<lambda>c. of_nat (of_char c) :: byte)"
  proof (rule injI)
    fix c d :: char assume "(of_nat (of_char c) :: byte) = of_nat (of_char d)"
    then have "unat (of_nat (of_char c) :: byte) = unat (of_nat (of_char d) :: byte)" by simp
    moreover have "(of_char e :: nat) < 2 ^ 8" for e :: char using nat_of_char_less_256 [of e] by simp
    ultimately have "(of_char c :: nat) = of_char d" by (simp add: unsigned_of_nat take_bit_nat_eq_self)
    then show "c = d" by simp
  qed
  then show ?thesis unfolding bytes_of_string_def by (simp add: inj_map_eq_map)
qed

lemma take_bytes_of_string [simp]: "take n (bytes_of_string k) = bytes_of_string (take n k)"
  by (simp add: bytes_of_string_def take_map)

lemma length_bytes_of_string [simp]: "length (bytes_of_string k) = length k"
  by (simp add: bytes_of_string_def)

lemma has_prefix:
  "has_prefix host_prefix p \<longleftrightarrow> 6 < length p \<and> take 6 p = bytes_of_string ''wasmx.''"
  "has_prefix ngx_prefix p \<longleftrightarrow> 4 < length p \<and> take 4 p = bytes_of_string ''ngx.''"
proof -
  have "length host_prefix = 6" "length ngx_prefix = 4" by code_simp+
  then show "has_prefix host_prefix p \<longleftrightarrow> 6 < length p \<and> take 6 p = bytes_of_string ''wasmx.''"
    "has_prefix ngx_prefix p \<longleftrightarrow> 4 < length p \<and> take 4 p = bytes_of_string ''ngx.''"
    unfolding has_prefix_def by (simp_all only:) (simp_all only: host_prefix_def ngx_prefix_def)
qed

definition name_ok :: "string \<times> prop_target \<Rightarrow> bool" where
  "name_ok e = (case e of (k, t) \<Rightarrow> take 6 k \<noteq> ''wasmx.'' \<and> take 4 k \<noteq> ''ngx.'' \<and> (wildcard k \<longrightarrow> 7 < length k) \<and>
     (case t of Variable v \<Rightarrow> \<not> wildcard k \<and> 4 < length v \<and> take 4 v = ''ngx.'' | Getter g \<Rightarrow> True))"

lemma pw2ngx_names: "list_all name_ok (pw2ngx dbg)"
proof -
  have "list_all name_ok (pw2ngx True)" "list_all name_ok (pw2ngx False)" by code_simp+
  then show ?thesis by (cases dbg) simp_all
qed

lemma pw2ngx_distinct: "distinct (map fst (pw2ngx dbg))"
  by (cases dbg; simp add: pw2ngx_def)

lemma unmapped:
  assumes "has_prefix host_prefix p \<or> has_prefix ngx_prefix p"
  shows "find_mapping dbg p = None"
proof -
  have p: "take 6 p = bytes_of_string ''wasmx.'' \<or> take 4 p = bytes_of_string ''ngx.''"
    using assms by (auto simp: has_prefix)
  have "bytes_of_string k \<noteq> p" "wildcard k \<Longrightarrow> bytes_of_string (butlast k) \<noteq> take (length (butlast k)) p"
    if kt: "(k, t) \<in> set (pw2ngx dbg)" for k t
  proof -
    have ok: "take 6 k \<noteq> ''wasmx.''" "take 4 k \<noteq> ''ngx.''" "wildcard k \<longrightarrow> 7 < length k"
      using pw2ngx_names [of dbg] kt by (auto simp: list_all_iff name_ok_def)
    show "bytes_of_string k \<noteq> p" using p ok by auto
    show "bytes_of_string (butlast k) \<noteq> take (length (butlast k)) p" if "wildcard k"
    proof
      assume eq: "bytes_of_string (butlast k) = take (length (butlast k)) p"
      have l: "6 \<le> length (butlast k)" using ok(3) that by simp
      then have "take 6 (butlast k) = take 6 k" "take 4 (butlast k) = take 4 k" by (simp_all add: take_butlast)
      moreover from arg_cong [OF eq, of "take 6"] arg_cong [OF eq, of "take 4"] l
      have "bytes_of_string (take 6 (butlast k)) = take 6 p" "bytes_of_string (take 4 (butlast k)) = take 4 p" by (simp_all add: min_def)
      ultimately show False using p ok by auto
    qed
  qed
  then have "find (\<lambda>(k, t). \<not> wildcard k \<and> bytes_of_string k = p) (pw2ngx dbg) = None"
    "find (\<lambda>(k, t). wildcard k \<and> bytes_of_string (butlast k) = take (length (butlast k)) p) (pw2ngx dbg) = None"
    by (auto simp: find_None_iff)
  then show ?thesis by (simp only: find_mapping_def option.case option.map)
qed

lemma find_eq_entry:
  "distinct (map fst es) \<Longrightarrow> (k, t) \<in> set es \<Longrightarrow> P k \<Longrightarrow> \<forall>j. P j \<longrightarrow> j = k \<Longrightarrow> find (\<lambda>(k, t). P k) es = Some (k, t)"
proof (induction es)
  case (Cons e es)
  obtain j u where e: "e = (j, u)" by (cases e)
  show ?case
  proof (cases "P j")
    case True
    with Cons.prems have "j = k" by blast
    moreover have "u = t"
    proof (rule ccontr)
      assume "u \<noteq> t"
      then have "(k, t) \<in> set es" using Cons.prems(2) e \<open>j = k\<close> by auto
      then have "k \<in> fst ` set es" by force
      then show False using Cons.prems(1) e \<open>j = k\<close> by simp
    qed
    ultimately show ?thesis using True e by simp
  next
    case False
    then have "(k, t) \<in> set es" using Cons.prems(2,3) e by auto
    from Cons.IH [OF _ this Cons.prems(3,4)] Cons.prems(1) e have "find (\<lambda>(k, t). P k) es = Some (k, t)" by simp
    then show ?thesis using False e by simp
  qed
next
  case Nil
  from Nil(2) show ?case by simp
qed

lemma mapped: "(k, t) \<in> set (pw2ngx dbg) \<Longrightarrow> \<not> wildcard k \<Longrightarrow> find_mapping dbg (bytes_of_string k) = Some t"
  using find_eq_entry [OF pw2ngx_distinct, of k t dbg "\<lambda>j. \<not> wildcard j \<and> bytes_of_string j = bytes_of_string k"]
  by (simp add: find_mapping_def)

lemma host_not_ngx: "has_prefix host_prefix p \<Longrightarrow> \<not> has_prefix ngx_prefix p"
proof
  assume h: "has_prefix host_prefix p" and n: "has_prefix ngx_prefix p"
  have "take 4 (take 6 p) = bytes_of_string ''wasm''" using h by (simp add: has_prefix del: take_take)
  with n have "bytes_of_string ''wasm'' = bytes_of_string ''ngx.''" by (simp add: has_prefix)
  then show False by simp
qed

section \<open>Host properties\<close>

text \<open>A NULL value is only stored for a constant.\<close>

definition host_props_ok :: "('g, 'w) prop_ctx \<Rightarrow> bool" where
  "host_props_ok st \<longleftrightarrow> (\<forall>p hp. host_props st p = Some hp \<longrightarrow> hp_const_null hp \<longrightarrow> hp_const hp)"

lemma set_hpn_value_ok:
  "set_hpn_value dbg E val is_const hp = Some (rc, hp1) \<Longrightarrow> val \<noteq> None \<or> is_const \<Longrightarrow> (hp_const_null hp \<longrightarrow> hp_const hp) \<Longrightarrow>
    \<not> hp_const hp \<Longrightarrow> hp_const_null hp1 \<longrightarrow> hp_const hp1"
  by (auto simp: set_hpn_value_def split: option.split_asm if_split_asm)

lemma set_host_ok:
  assumes set: "ngx_proxy_wasm_properties_set_host dbg E path val is_const st = Some (rc, st1)" and ok: "host_props_ok st"
  shows "host_props_ok st1"
proof (cases "host_props st path")
  case None
  with set ok show ?thesis
    by (auto simp: ngx_proxy_wasm_properties_set_host_def host_props_ok_def split: if_split_asm option.split_asm dest!: set_hpn_value_ok)
next
  case (Some hp)
  have h: "hp_const_null hp \<longrightarrow> hp_const hp" using Some ok by (auto simp: host_props_ok_def)
  from set Some ok h show ?thesis
    by (auto simp: ngx_proxy_wasm_properties_set_host_def host_props_ok_def split: if_split_asm option.split_asm dest!: set_hpn_value_ok)
qed

lemma set_host_const:
  "ngx_proxy_wasm_properties_set_host dbg E path val is_const st = Some (rc, st1) \<Longrightarrow> host_props st p = Some hp \<Longrightarrow> hp_const hp \<Longrightarrow>
    host_props st1 p = Some hp"
  by (cases "path = p") (auto simp: ngx_proxy_wasm_properties_set_host_def split: if_split_asm option.split_asm)

lemma set_host_spec:
  assumes "in_request st" and "\<forall>n. p_alloc E n" and "\<forall>hp. host_props st path = Some hp \<longrightarrow> \<not> hp_const hp" and "host_props_ok st"
  shows "\<exists>hp. ngx_proxy_wasm_properties_set_host dbg E path (Some v) False st = Some (NGX_OK, st\<lparr>host_props := (host_props st)(path \<mapsto> hp)\<rparr>) \<and>
    hp_value hp = Some v \<and> \<not> hp_freed hp \<and> \<not> hp_const hp \<and> \<not> hp_const_null hp"
  using assms by (cases "host_props st path")
    (auto simp: ngx_proxy_wasm_properties_set_host_def set_hpn_value_def host_props_ok_def)

text \<open>Reading properties leaves those of the host and the handlers of Lua alone.\<close>

definition same_props :: "('g, 'w) prop_ctx \<Rightarrow> ('g, 'w) prop_ctx \<Rightarrow> bool" where
  "same_props st st1 \<longleftrightarrow> host_props st1 = host_props st \<and> ffi_getter st1 = ffi_getter st \<and> ffi_setter st1 = ffi_setter st \<and>
     in_request st1 = in_request st"

lemma get_ngx_same: "ngx_proxy_wasm_properties_get_ngx E path st = Some (rc, v, st1) \<Longrightarrow> same_props st st1"
  by (auto simp: ngx_proxy_wasm_properties_get_ngx_def same_props_def Let_def split: if_split_asm prod.split_asm option.split_asm)

lemma set_ngx_same: "ngx_proxy_wasm_properties_set_ngx E path val st = Some (rc, st1) \<Longrightarrow> same_props st st1"
  by (auto simp: ngx_proxy_wasm_properties_set_ngx_def same_props_def Let_def split: if_split_asm prod.split_asm option.split_asm)

abbreviation props_kept :: "('g, 'w) prop_ctx \<Rightarrow> bytes \<times> ('g, 'w) prop_ctx \<Rightarrow> bool" where
  "props_kept st \<equiv> (\<lambda>(v, st1). same_props st st1)"

lemma get_map_value_same: "ends (props_kept st) (get_map_value E name t st)"
  unfolding get_map_value_def by (auto intro!: ends_rules ends_bind_any simp: same_props_def)

lemma same_props_trans: "same_props st st1 \<Longrightarrow> same_props st1 st2 \<Longrightarrow> same_props st st2"
  by (simp add: same_props_def)

lemma same_props_cache [simp]: "same_props st (st1\<lparr>mtls := r\<rparr>) = same_props st st1"
  by (simp add: same_props_def)

lemma mtls_same: "ends (props_kept st) (get_connection_mtls E st)"
  unfolding get_connection_mtls_def
  by (intro ends_rules ends_bind_any)
    (auto simp: same_props_def [of st st] intro: same_props_trans dest!: get_ngx_same)

lemma run_getter_same: "run_getter E g path st = Some (rc, v, st1) \<Longrightarrow> same_props st st1"
  by (cases g)
    (auto dest: endsD [OF get_map_value_same] endsD [OF mtls_same] simp: get_request_time_def is_subrequest_def get_upstream_address_def
      get_upstream_status_def upstream_time_of_def get_upstream_time_def number_value_def get_connection_id_def get_filter_name_def
      get_filter_root_id_def get_worker_id_def same_props_def Let_def split: if_split_asm option.split_asm)

lemma get_host_same: "get_host_property p st = Some (rc, v, err, st1) \<Longrightarrow> same_props st st1"
  by (auto simp: get_host_property_def same_props_def split: if_split_asm option.split_asm prod.split_asm)

lemma properties_get_same: "ngx_proxy_wasm_properties_get dbg E behind path st = Some (rc, v, err, st1) \<Longrightarrow> same_props st st1"
  by (auto simp: ngx_proxy_wasm_properties_get_def Let_def dest: get_ngx_same run_getter_same get_host_same
    split: if_split_asm option.split_asm prop_target.split_asm)
    (simp_all add: same_props_def)

text \<open>
  The states that filters and Lua code reach: host calls of the guest, calls of the Lua interface, and anything that leaves the host
  properties alone (other host functions, the guest and nginx).
\<close>

inductive prop_reach :: "bool \<Rightarrow> 'w prop_env \<Rightarrow> 'g hguest \<Rightarrow> ('g, 'w) prop_ctx \<Rightarrow> ('g, 'w) prop_ctx \<Rightarrow> bool" for dbg E G st where
  start: "prop_reach dbg E G st st"
| other: "prop_reach dbg E G st s1 \<Longrightarrow> same_props s1 s2 \<Longrightarrow> prop_reach dbg E G st s2"
| get: "prop_reach dbg E G st s1 \<Longrightarrow> ngx_proxy_wasm_hfuncs_get_property dbg E G behind a b c d s1 = Some (r, s2) \<Longrightarrow> prop_reach dbg E G st s2"
| set: "prop_reach dbg E G st s1 \<Longrightarrow> ngx_proxy_wasm_hfuncs_set_property dbg E behind a b c d s1 = Some (r, s2) \<Longrightarrow> prop_reach dbg E G st s2"
| lua_set: "prop_reach dbg E G st s1 \<Longrightarrow> ngx_proxy_wasm_properties_set_host dbg E path val is_const s1 = Some (rc, s2) \<Longrightarrow> prop_reach dbg E G st s2"
| lua_handlers: "prop_reach dbg E G st s1 \<Longrightarrow> ngx_proxy_wasm_properties_set_ffi_handlers f g s1 = (rc, s2) \<Longrightarrow> prop_reach dbg E G st s2"

lemma property_error_same: "property_error err off len st = Some (r, st1) \<Longrightarrow> same_props st st1"
  by (auto simp: property_error_def on_map_def same_props_def split: if_split_asm)

lemma on_map_same: "on_map x st = Some (r, st1) \<Longrightarrow> same_props st st1"
  by (auto simp: on_map_def same_props_def)

lemma ends_mono: "ends P x \<Longrightarrow> (\<And>m. P m \<Longrightarrow> Q m) \<Longrightarrow> ends Q x"
  by (auto simp: ends_def)

lemma get_tail_same:
  "same_props st s1 \<Longrightarrow> ends (same_props st) (case rc of NGX_DECLINED \<Rightarrow> Some (Result RESULT_NOT_FOUND, s1)
     | NGX_ERROR \<Rightarrow> property_error err off len s1 | NGX_OK \<Rightarrow> on_map x s1 | _ \<Rightarrow> None)"
  by (cases rc) (auto intro!: endsI dest!: property_error_same on_map_same intro: same_props_trans)

lemma set_tail_same:
  "ends (same_props s1) (case rc of NGX_DECLINED \<Rightarrow> Some (Result RESULT_NOT_FOUND, s1) | NGX_ERROR \<Rightarrow> property_error err off len s1
     | _ \<Rightarrow> if ngx_wa_assert dbg (rc = NGX_OK) then Some (Result RESULT_OK, s1) else None)"
  by (cases rc) (auto intro!: endsI dest: property_error_same simp: same_props_def)

lemma same_props_refl [simp]: "same_props st st"
  by (simp add: same_props_def)

lemma hfunc_get_ends: "ends (same_props st) (ngx_proxy_wasm_hfuncs_get_property dbg E G behind a b c d st)"
  unfolding ngx_proxy_wasm_hfuncs_get_property_def Let_def
  by (intro ends_rules ends_bind_any get_tail_same) (auto dest: properties_get_same)

lemmas hfunc_get_same = endsD [OF hfunc_get_ends]

text \<open>A set through the guest changes the host properties only as \<open>ngx_proxy_wasm_properties_set_host\<close> does.\<close>

lemma properties_set_cases:
  assumes "ngx_proxy_wasm_properties_set dbg E behind path val st = Some (rc, err, st1)"
  shows "same_props st st1 \<or> (\<exists>rc. ngx_proxy_wasm_properties_set_host dbg E (replace_nulls_by_dots path) val False st = Some (rc, st1))"
  using assms
  by (auto simp: ngx_proxy_wasm_properties_set_def Let_def same_props_def [of st st] dest: set_ngx_same
    split: if_split_asm option.split_asm prop_target.split_asm prod.split_asm)
    (simp_all add: same_props_def)

lemma hfunc_set_ends:
  "ends (\<lambda>st1. same_props st st1 \<or> (\<exists>rc p val s. ngx_proxy_wasm_properties_set_host dbg E p val False st = Some (rc, s) \<and> same_props s st1))
    (ngx_proxy_wasm_hfuncs_set_property dbg E behind a b c d st)"
  unfolding ngx_proxy_wasm_hfuncs_set_property_def Let_def
  by (intro ends_rules ends_bind_any ends_mono [OF set_tail_same]) (auto dest!: properties_set_cases intro: same_props_trans)

lemmas hfunc_set_cases = endsD [OF hfunc_set_ends]

lemma same_props_ok: "same_props st st1 \<Longrightarrow> host_props_ok st1 = host_props_ok st"
  by (simp add: same_props_def host_props_ok_def)

lemma set_ffi_handlers_props: "ngx_proxy_wasm_properties_set_ffi_handlers f g st = (rc, st1) \<Longrightarrow> host_props st1 = host_props st"
  by (auto simp: ngx_proxy_wasm_properties_set_ffi_handlers_def split: if_split_asm)

lemma prop_reach_ok: "prop_reach dbg E G st st1 \<Longrightarrow> host_props_ok st \<Longrightarrow> host_props_ok st1"
proof (induction rule: prop_reach.induct)
  case (set s1 behind a b c d r s2)
  then show ?case using hfunc_set_cases [OF set(2)] set_host_ok same_props_ok by metis
next
  case (lua_handlers s1 f g rc s2)
  then show ?case using set_ffi_handlers_props [OF lua_handlers(2)] by (simp add: host_props_ok_def)
qed (auto dest: same_props_ok hfunc_get_same set_host_ok)

lemma prop_reach_const:
  "prop_reach dbg E G st st1 \<Longrightarrow> host_props st p = Some hp \<Longrightarrow> hp_const hp \<Longrightarrow> host_props st1 p = Some hp"
proof (induction rule: prop_reach.induct)
  case (other s1 s2)
  then show ?case by (simp add: same_props_def)
next
  case (get s1 behind a b c d r s2)
  then show ?case using hfunc_get_same [OF get(2)] by (simp add: same_props_def)
next
  case (set s1 behind a b c d r s2)
  then have "host_props s1 p = Some hp" by blast
  with hfunc_set_cases [OF set(2)] show ?case using set_host_const [OF _ _ set.prems(2), of dbg E] by (auto simp: same_props_def)
next
  case (lua_set s1 path val is_const rc s2)
  then show ?case using set_host_const by blast
next
  case (lua_handlers s1 f g rc s2)
  then show ?case using set_ffi_handlers_props [OF lua_handlers(2)] by simp
qed

section \<open>Properties\<close>

text \<open>
  C30. A constant host property is what Lua code made of it: in every state that filters and Lua code reach afterwards, with any host calls and
  handlers installed, a read of it gives the same value, and a constant without a value reads as not found.
\<close>

theorem constant_property_fixed:
  assumes reach: "prop_reach dbg E G st st1" and const: "host_props st p = Some hp" "hp_const hp" "\<not> hp_freed hp"
    and path: "replace_nulls_by_dots path = p" "has_prefix host_prefix p" and req: "in_request st1"
  shows "ngx_proxy_wasm_properties_get dbg E behind path st1 =
    Some (if hp_const_null hp then (NGX_DECLINED, [], [], st1) else (NGX_OK, case hp_value hp of None \<Rightarrow> [] | Some v \<Rightarrow> v, [], st1))"
proof -
  have "host_props st1 p = Some hp" by (rule prop_reach_const [OF reach const(1,2)])
  then have "get_host_property p st1 =
      Some (if hp_const_null hp then (NGX_DECLINED, [], [], st1) else (NGX_OK, case hp_value hp of None \<Rightarrow> [] | Some v \<Rightarrow> v, [], st1))"
    using const(2,3) by (simp add: get_host_property_def ngx_proxy_wasm_properties_get_host_def)
  then show ?thesis
    using unmapped [of p dbg] host_not_ngx [OF path(2)] path req by (simp add: ngx_proxy_wasm_properties_get_def Let_def)
qed

text \<open>
  C31. A host property round trip through guest memory: a filter that sets a property of the host which is not a constant gets exactly the bytes back, in memory
  that it allocates, whichever of zero bytes and dots separate the parts of the path, as long as memory can be allocated.
\<close>

theorem host_property_roundtrip:
  assumes st: "in_request st" "ffi_getter st = None" "ffi_setter st = None" "host_props_ok st"
    and path: "ngx_wavm_memory_lift (mc_mem (pc st)) path_ptr path_len 1 = Some off"
      "has_prefix host_prefix (replace_nulls_by_dots (read_slice (mc_mem (pc st)) off path_len))"
    and var: "\<forall>hp. host_props st (replace_nulls_by_dots (read_slice (mc_mem (pc st)) off path_len)) = Some hp \<longrightarrow> \<not> hp_const hp"
    and val: "ngx_wavm_memory_lift (mc_mem (pc st)) value_ptr value_len 1 = Some (Some voff)" and alloc: "\<forall>n. p_alloc E n"
    and ret: "lift_u32 (mc_mem (pc st)) ret_data_ptr = Some rd" "lift_u32 (mc_mem (pc st)) ret_size_ptr = Some rs" "apart (rd, 4) (rs, 4)"
    and m: "h_malloc G (unat value_len) (mc_mem (pc st)) (mc_world (pc st)) = (p, mem1, w)"
      "malloc_gives (unat value_len) (mc_mem (pc st)) [rd, rs] (p, mem1, w)"
  shows "\<exists>st1 st2. ngx_proxy_wasm_hfuncs_set_property dbg E behind path_ptr path_len value_ptr value_len st = Some (Result RESULT_OK, st1) \<and>
    ngx_proxy_wasm_hfuncs_get_property dbg E G behind1 path_ptr path_len ret_data_ptr ret_size_ptr st1 = Some (Result RESULT_OK, st2) \<and>
    buf_read (mc_mem (pc st2)) (unat p) (unat value_len) = Some (read_slice (mc_mem (pc st)) (Some voff) value_len) \<and>
    buf_read (mc_mem (pc st2)) rd 4 = Some (le32 p) \<and> buf_read (mc_mem (pc st2)) rs 4 = Some (le32 value_len)"
proof -
  let ?mem = "mc_mem (pc st)"
  let ?p = "replace_nulls_by_dots (read_slice ?mem off path_len)" and ?v = "read_slice ?mem (Some voff) value_len"
  have len: "length ?v = unat value_len" by (rule length_read_slice [OF val])
  have un: "find_mapping dbg ?p = None" "\<not> has_prefix ngx_prefix ?p" using unmapped host_not_ngx path(2) by blast+
  obtain hp where set: "ngx_proxy_wasm_properties_set_host dbg E ?p (Some ?v) False st = Some (NGX_OK, st\<lparr>host_props := (host_props st)(?p \<mapsto> hp)\<rparr>)"
    and hp: "hp_value hp = Some ?v" "\<not> hp_freed hp" "\<not> hp_const_null hp"
    using set_host_spec [OF st(1) alloc var st(4), of dbg ?v] by blast
  let ?st = "st\<lparr>host_props := (host_props st)(?p \<mapsto> hp)\<rparr>"
  have s: "ngx_proxy_wasm_properties_set dbg E behind (read_slice ?mem off path_len) (Some ?v) st = Some (NGX_OK, [], ?st)"
    using st un set path(2) by (simp add: ngx_proxy_wasm_properties_set_def Let_def)
  then have "ngx_proxy_wasm_hfuncs_set_property dbg E behind path_ptr path_len value_ptr value_len st = Some (Result RESULT_OK, ?st)"
    using path(1) val by (simp add: ngx_proxy_wasm_hfuncs_set_property_def Let_def ngx_wa_assert_def)
  moreover have g: "ngx_proxy_wasm_properties_get dbg E behind1 (read_slice ?mem off path_len) ?st = Some (NGX_OK, ?v, [], ?st)"
    using st un hp path(2)
    by (simp add: ngx_proxy_wasm_properties_get_def Let_def get_host_property_def ngx_proxy_wasm_properties_get_host_def)
  from return_value_spec [OF lift_u32_bounds [OF ret(1)] lift_u32_bounds [OF ret(2)] ret(3), of G ?v] m obtain m1 where
    r: "return_value G ?v rd rs (pc st) = Some (Result RESULT_OK, m1)" "buf_read (mc_mem m1) (unat p) (unat value_len) = Some ?v"
    "buf_read (mc_mem m1) rd 4 = Some (le32 p)" "buf_read (mc_mem m1) rs 4 = Some (le32 value_len)" by (auto simp: len)
  moreover have "ngx_proxy_wasm_hfuncs_get_property dbg E G behind1 path_ptr path_len ret_data_ptr ret_size_ptr ?st =
      Some (Result RESULT_OK, ?st\<lparr>pc := m1\<rparr>)"
    using path(1) ret(1,2) g r(1) by (simp add: ngx_proxy_wasm_hfuncs_get_property_def Let_def on_map_def)
  ultimately show ?thesis by force
qed

text \<open>
  The attributes that docs/PROXY_WASM.md documents as a variable of nginx (table \<open>Supported Properties\<close>), with the name of the variable,
  in the order of the documentation.
\<close>

definition documented_attributes :: "(string \<times> string) list" where
  "documented_attributes =
    [(''request.path'', ''request_uri''), (''request.url_path'', ''uri''), (''request.host'', ''hostname''), (''request.scheme'', ''scheme''),
     (''request.method'', ''request_method''), (''request.useragent'', ''http_user_agent''), (''request.protocol'', ''server_protocol''),
     (''request.query'', ''args''), (''request.duration'', ''request_time''), (''request.size'', ''content_length''),
     (''request.total_size'', ''request_length''), (''response.code'', ''status''), (''response.size'', ''body_bytes_sent''),
     (''response.total_size'', ''bytes_sent''), (''destination.address'', ''proxy_protocol_addr''),
     (''destination.port'', ''proxy_protocol_port''), (''connection.requested_server_name'', ''ssl_server_name''),
     (''connection.tls_version'', ''ssl_protocol''), (''connection.subject_local_certificate'', ''ssl_client_s_dn''),
     (''source.address'', ''remote_addr''), (''source.port'', ''remote_port'')]"

lemma documented_rows:
  assumes "(k, v) \<in> set documented_attributes"
  shows "(k, Variable (''ngx.'' @ v)) \<in> set (pw2ngx dbg)" and "\<not> wildcard k"
proof -
  have "list_all (\<lambda>(k, v). (k, Variable (''ngx.'' @ v)) \<in> set (pw2ngx dbg) \<and> \<not> wildcard k) documented_attributes"
    by (simp add: documented_attributes_def pw2ngx_def wildcard_def)
  with assms show "(k, Variable (''ngx.'' @ v)) \<in> set (pw2ngx dbg)" "\<not> wildcard k" by (auto simp: list_all_iff)
qed

text \<open>
  C32. The attributes that the documentation maps to a variable of nginx are answered with the value of that variable: with a request, getting the
  attribute asks nginx for the variable of the documented name (under its hash) and returns the bytes of its value, or that there is none
  when nginx does not find the variable or it has no value.
\<close>

theorem attribute_is_variable:
  assumes "(k, v) \<in> set documented_attributes" and "replace_nulls_by_dots path = bytes_of_string k" and "in_request st"
    and "ngx_http_get_variable E (hash_str (bytes_of_string v)) (bytes_of_string v) (variables st) (pc_world st) = (vv, vars, w)"
  shows "ngx_proxy_wasm_properties_get dbg E behind path st =
    Some (case vv of
        Some x \<Rightarrow> if vv_not_found x then (NGX_DECLINED, [], [], st\<lparr>variables := vars, pc_world := w\<rparr>)
          else (NGX_OK, vv_data x, [], st\<lparr>variables := vars, pc_world := w\<rparr>)
      | None \<Rightarrow> (NGX_DECLINED, [], [], st\<lparr>variables := vars, pc_world := w\<rparr>))"
proof -
  have m: "find_mapping dbg (bytes_of_string k) = Some (Variable (''ngx.'' @ v))"
    using mapped documented_rows [OF assms(1)] by blast
  have n: "drop (length ngx_prefix) (bytes_of_string (''ngx.'' @ v)) = bytes_of_string v" by (simp add: ngx_prefix_def bytes_of_string_def)
  from m assms(2-4) show ?thesis
    by (cases vv) (simp_all add: ngx_proxy_wasm_properties_get_def ngx_proxy_wasm_properties_get_ngx_def Let_def n [simplified])
qed

text \<open>
  What is relied on of \<open>ngx_http_get_variable\<close> for an indexed variable: a value of the request that is valid or not found and may be cached is
  answered as it is.
\<close>

definition indexed_law :: "'w prop_env \<Rightarrow> bytes \<Rightarrow> nat \<Rightarrow> bool" where
  "indexed_law E name i \<longleftrightarrow> (\<forall>vars w. (vv_valid (vars i) \<or> vv_not_found (vars i)) \<and> \<not> vv_no_cacheable (vars i) \<longrightarrow>
     fst (ngx_http_get_variable E (hash_str name) name vars w) = Some (vars i))"

text \<open>
  Setting a variable of nginx that is changeable, indexed and without a handler of its own, and reading it: the value that was set, or not
  found when no value was given.
\<close>

theorem variable_set_get:
  assumes path: "replace_nulls_by_dots path = ngx_prefix @ name" "name \<noteq> []" and st: "in_request st" "core_main_conf E"
    and v: "variables_hash E (hash_str name) name = Some v" "v_changeable v" "\<not> v_set_handler v" "v_index v = Some i"
    and law: "indexed_law E name i" and alloc: "\<forall>n. p_alloc E n"
  shows "\<exists>st1 st2. ngx_proxy_wasm_properties_set dbg E behind path val st = Some (NGX_OK, [], st1) \<and>
    ngx_proxy_wasm_properties_get dbg E behind path st1 =
      Some (case val of None \<Rightarrow> (NGX_DECLINED, [], [], st2) | Some d \<Rightarrow> (NGX_OK, d, [], st2))"
proof -
  have pre: "has_prefix ngx_prefix (ngx_prefix @ name)" using path(2) by (simp add: has_prefix_def)
  let ?vv = "case val of None \<Rightarrow> \<lparr>vv_valid = False, vv_not_found = True, vv_no_cacheable = False, vv_data = []\<rparr>
    | Some d \<Rightarrow> \<lparr>vv_valid = True, vv_not_found = False, vv_no_cacheable = False, vv_data = d\<rparr>"
  let ?st = "st\<lparr>variables := (variables st)(i := ?vv)\<rparr>"
  have set: "ngx_proxy_wasm_properties_set dbg E behind path val st = Some (NGX_OK, [], ?st)"
    using pre path st v alloc
    by (simp add: ngx_proxy_wasm_properties_set_def Let_def ngx_proxy_wasm_properties_set_ngx_def split: option.split)
  obtain vars w where g: "ngx_http_get_variable E (hash_str name) name (variables ?st) (pc_world st) = (Some ?vv, vars, w)"
    using law [unfolded indexed_law_def, rule_format, of "variables ?st" "pc_world st"]
    by (cases "ngx_http_get_variable E (hash_str name) name (variables ?st) (pc_world st)") (auto split: option.split_asm)
  have "\<exists>st2. ngx_proxy_wasm_properties_get dbg E behind path ?st =
      Some (case val of None \<Rightarrow> (NGX_DECLINED, [], [], st2) | Some d \<Rightarrow> (NGX_OK, d, [], st2))"
    using pre path st g unmapped [of "ngx_prefix @ name" dbg]
    by (simp add: ngx_proxy_wasm_properties_get_def Let_def ngx_proxy_wasm_properties_get_ngx_def split: option.split)
  with set show ?thesis by blast
qed

text \<open>
  Outside of a request the path is searched for a dot in a copy on the stack that has no terminating zero, so that the search reads behind
  it: whether a filter can read its own name in a tick depends on what the stack holds there.
\<close>

theorem plugin_name_outside_request:
  assumes "\<not> in_request st" and "mc_step (pc st) = STEP_TICK"
  shows "ngx_proxy_wasm_properties_get dbg E behind (bytes_of_string ''plugin_name'') st =
    Some (if 46 \<in> set (takeWhile (\<lambda>b. b \<noteq> 0) behind) then (NGX_ERROR, [], [], st) else (NGX_OK, root_name st, [], st))"
proof -
  have "(''plugin_name'', Getter Get_filter_name) \<in> set (pw2ngx dbg)" "\<not> wildcard ''plugin_name''"
    by (simp_all add: pw2ngx_def wildcard_def)
  from mapped [OF this] have m: "find_mapping dbg (bytes_of_string ''plugin_name'') = Some (Getter Get_filter_name)" .
  have p: "replace_nulls_by_dots (bytes_of_string ''plugin_name'') = bytes_of_string ''plugin_name''"
    "\<forall>b \<in> set (bytes_of_string ''plugin_name''). b \<noteq> 0 \<and> b \<noteq> 46" by code_simp+
  then have "finds_dot (bytes_of_string ''plugin_name'') behind \<longleftrightarrow> 46 \<in> set (takeWhile (\<lambda>b. b \<noteq> 0) behind)"
    by (auto simp: finds_dot_def takeWhile_append2)
  with m p(1) assms show ?thesis by (simp add: ngx_proxy_wasm_properties_get_def Let_def get_filter_name_def)
qed

text \<open>
  Replacing the value of a host property gives the old value back to the pool first. When the copy of the new value cannot be allocated,
  the set is reported as failed but the property still refers to the old value, which is released if it was larger than the blocks of the
  pool, and the next read uses it.
\<close>

theorem failed_set_frees:
  assumes st: "in_request st" "ffi_getter st = None" "ffi_setter st = None"
    and p: "replace_nulls_by_dots path = p" "has_prefix host_prefix p"
    and hp: "host_props st p = Some hp" "hp_value hp = Some old" "\<not> hp_const hp" "\<not> hp_const_null hp" and alloc: "\<not> p_alloc E (length v)"
  shows "\<exists>st1. ngx_proxy_wasm_properties_set dbg E behind path (Some v) st = Some (NGX_ERROR, [], st1) \<and>
    ngx_proxy_wasm_properties_get dbg E behind1 path st1 = None"
proof -
  have un: "find_mapping dbg p = None" "\<not> has_prefix ngx_prefix p" using unmapped host_not_ngx p(2) by blast+
  let ?st = "st\<lparr>host_props := (host_props st)(p \<mapsto> hp\<lparr>hp_freed := True\<rparr>)\<rparr>"
  have "ngx_proxy_wasm_properties_set dbg E behind path (Some v) st = Some (NGX_ERROR, [], ?st)"
    using st p un hp alloc
    by (simp add: ngx_proxy_wasm_properties_set_def Let_def ngx_proxy_wasm_properties_set_host_def set_hpn_value_def ngx_wa_assert_def)
  moreover have "ngx_proxy_wasm_properties_get dbg E behind1 path ?st = None"
    using st p un hp
    by (simp add: ngx_proxy_wasm_properties_get_def Let_def get_host_property_def ngx_proxy_wasm_properties_get_host_def)
  ultimately show ?thesis by blast
qed

section \<open>A concrete instance\<close>

definition demo_var :: ngx_var where
  "demo_var = \<lparr>v_changeable = True, v_set_handler = False, v_index = Some 3\<rparr>"

definition demo_prop_env :: "unit prop_env" where
  "demo_prop_env = \<lparr>p_maps = demo_env, core_main_conf = True, variables_hash = (\<lambda>h n. Some demo_var),
     ngx_http_get_variable = (\<lambda>h n vars w. (Some (vars 3), vars, w)), var_set_handler = (\<lambda>n vv vars w. (vars, w)),
     start_time_image = [49], connection_number = 7, worker_number = 0\<rparr>"

definition demo_prop_ctx :: "bool \<Rightarrow> bytes \<Rightarrow> (unit, unit) prop_ctx" where
  "demo_prop_ctx req mem = \<lparr>pc = (demo_map_ctx mem)\<lparr>mc_step := (if req then STEP_REQ_HEADERS else STEP_TICK)\<rparr>, in_request = req, is_sub = False,
     variables = (\<lambda>_. \<lparr>vv_valid = False, vv_not_found = False, vv_no_cacheable = False, vv_data = []\<rparr>), pc_world = (),
     host_props = Map.empty, ffi_getter = None, ffi_setter = None, upstream_states = [], chain_names = [[102]], pc_exec_index = 0,
     root_name = [114], start_time = [], connection_id = [], c_root_id = [], worker_id = [], mtls = []\<rparr>"

text \<open>Memory with the path of a property from byte 16 on, and room for a copy of a value.\<close>

definition demo_path_mem :: bytes where
  "demo_path_mem = replicate 16 0 @ bytes_of_string ''wasmx.ab'' @ replicate 8 0"

definition demo_prop_guest :: "unit hguest" where
  "demo_prop_guest = \<lparr>h_malloc = (\<lambda>n mem w. (24, mem, w))\<rparr>"

lemma demo_alloc: "\<forall>n. p_alloc demo_prop_env n"
  by (simp add: demo_prop_env_def demo_env_def demo_strings_def)

lemma demo_prefix: "has_prefix host_prefix (bytes_of_string ''wasmx.ab'')"
  by (simp add: has_prefix)

lemma demo_dots: "replace_nulls_by_dots (bytes_of_string ''wasmx.ab'') = bytes_of_string ''wasmx.ab''"
  by code_simp

theorem constant_property_fixed_witness:
  "\<exists>st st1. ngx_proxy_wasm_properties_set_host True demo_prop_env (bytes_of_string ''wasmx.ab'') (Some [5]) True (demo_prop_ctx True []) = Some (NGX_OK, st) \<and>
    ngx_proxy_wasm_properties_set_host True demo_prop_env (bytes_of_string ''wasmx.ab'') (Some [6]) False st = Some (NGX_DECLINED, st1) \<and>
    ngx_proxy_wasm_properties_get True demo_prop_env [] (bytes_of_string ''wasmx.ab'') st1 = Some (NGX_OK, [5], [], st1)"
proof -
  let ?p = "bytes_of_string ''wasmx.ab''"
  let ?hp = "\<lparr>hp_value = Some [5], hp_freed = False, hp_const = True, hp_const_null = False\<rparr>"
  let ?st = "(demo_prop_ctx True [])\<lparr>host_props := [?p \<mapsto> ?hp]\<rparr>"
  have a: "ngx_proxy_wasm_properties_set_host True demo_prop_env ?p (Some [5]) True (demo_prop_ctx True []) = Some (NGX_OK, ?st)"
    using demo_alloc by (simp add: ngx_proxy_wasm_properties_set_host_def set_hpn_value_def demo_prop_ctx_def ngx_wa_assert_def)
  have b: "ngx_proxy_wasm_properties_set_host True demo_prop_env ?p (Some [6]) False ?st = Some (NGX_DECLINED, ?st)"
    by (simp add: ngx_proxy_wasm_properties_set_host_def demo_prop_ctx_def ngx_wa_assert_def)
  have "prop_reach True demo_prop_env demo_prop_guest ?st ?st"
    by (rule prop_reach.lua_set [OF prop_reach.start b])
  from constant_property_fixed [OF this, of ?p ?hp ?p "[]"] demo_dots demo_prefix a b show ?thesis
    by (auto simp: demo_prop_ctx_def)
qed

theorem host_property_roundtrip_witness:
  "\<exists>st1 st2. ngx_proxy_wasm_hfuncs_set_property True demo_prop_env [] 16 8 18 3 (demo_prop_ctx True demo_path_mem) = Some (Result RESULT_OK, st1) \<and>
    ngx_proxy_wasm_hfuncs_get_property True demo_prop_env demo_prop_guest [] 16 8 4 8 st1 = Some (Result RESULT_OK, st2) \<and>
    buf_read (mc_mem (pc st2)) 24 3 = Some (bytes_of_string ''smx'')"
proof -
  let ?st = "demo_prop_ctx True demo_path_mem"
  have mem: "mc_mem (pc ?st) = demo_path_mem" by (simp add: demo_prop_ctx_def demo_map_ctx_def)
  have lifts: "ngx_wavm_memory_lift demo_path_mem 16 8 1 = Some (Some 16)" "ngx_wavm_memory_lift demo_path_mem 18 3 1 = Some (Some 18)"
    "lift_u32 demo_path_mem 4 = Some 4" "lift_u32 demo_path_mem 8 = Some 8" "apart (4, 4) (8, 4)" by code_simp+
  have slices: "read_slice demo_path_mem (Some 16) 8 = bytes_of_string ''wasmx.ab''" "read_slice demo_path_mem (Some 18) 3 = bytes_of_string ''smx''"
    by code_simp+
  have m: "h_malloc demo_prop_guest (unat (3 :: u32)) demo_path_mem (mc_world (pc ?st)) = (24, demo_path_mem, ())"
    "malloc_gives (unat (3 :: u32)) demo_path_mem [4, 8] (24, demo_path_mem, ())"
    by (simp_all add: demo_prop_guest_def malloc_gives_def demo_path_mem_def apart_def)
  from host_property_roundtrip [of ?st 16 8 "Some 16" 18 3 18 demo_prop_env 4 4 8 8 demo_prop_guest 24 demo_path_mem "()" True "[]" "[]"]
    demo_alloc lifts slices m demo_dots demo_prefix
  show ?thesis unfolding mem by (simp add: demo_prop_ctx_def host_props_ok_def) blast
qed

theorem attribute_is_variable_witness:
  "ngx_proxy_wasm_properties_get True (demo_prop_env\<lparr>ngx_http_get_variable :=
       (\<lambda>h n vars w. (Some \<lparr>vv_valid = True, vv_not_found = False, vv_no_cacheable = False, vv_data = n\<rparr>, vars, w))\<rparr>)
     [] (bytes_of_string ''request.path'') (demo_prop_ctx True []) =
   Some (NGX_OK, bytes_of_string ''request_uri'', [], demo_prop_ctx True [])"
proof -
  let ?E = "demo_prop_env\<lparr>ngx_http_get_variable :=
      (\<lambda>h n vars w. (Some \<lparr>vv_valid = True, vv_not_found = False, vv_no_cacheable = False, vv_data = n\<rparr>, vars, w))\<rparr>"
  have e: "(''request.path'', ''request_uri'') \<in> set documented_attributes" by (simp add: documented_attributes_def)
  have d: "replace_nulls_by_dots (bytes_of_string ''request.path'') = bytes_of_string ''request.path''" by code_simp
  have r: "in_request (demo_prop_ctx True [])" by (simp add: demo_prop_ctx_def)
  from attribute_is_variable [OF e d r, of ?E
      "Some \<lparr>vv_valid = True, vv_not_found = False, vv_no_cacheable = False, vv_data = bytes_of_string ''request_uri''\<rparr>"
      "variables (demo_prop_ctx True [])" "()" True "[]"]
  show ?thesis by simp
qed

theorem variable_set_get_witness:
  "\<exists>st1 st2. ngx_proxy_wasm_properties_set True demo_prop_env [] (bytes_of_string ''ngx.a'') (Some [9]) (demo_prop_ctx True []) = Some (NGX_OK, [], st1) \<and>
    ngx_proxy_wasm_properties_get True demo_prop_env [] (bytes_of_string ''ngx.a'') st1 = Some (NGX_OK, [9], [], st2)"
proof -
  have p: "replace_nulls_by_dots (bytes_of_string ''ngx.a'') = ngx_prefix @ bytes_of_string ''a''" by code_simp
  have "indexed_law demo_prop_env (bytes_of_string ''a'') 3" by (simp add: indexed_law_def demo_prop_env_def)
  from variable_set_get [OF p _ _ _ _ _ _ _ this demo_alloc, of "demo_prop_ctx True []" demo_var True "[]" "Some [9]"] show ?thesis
    by (auto simp: demo_prop_env_def demo_prop_ctx_def demo_var_def bytes_of_string_def)
qed

theorem plugin_name_outside_request_witness:
  "ngx_proxy_wasm_properties_get True demo_prop_env [46] (bytes_of_string ''plugin_name'') (demo_prop_ctx False []) =
    Some (NGX_ERROR, [], [], demo_prop_ctx False [])"
  using plugin_name_outside_request [of "demo_prop_ctx False []" True demo_prop_env "[46]"] by (simp add: demo_prop_ctx_def)

theorem failed_set_frees_witness:
  "\<exists>st1. ngx_proxy_wasm_properties_set True (demo_prop_env\<lparr>p_maps := demo_env\<lparr>strs := demo_strings\<lparr>pnalloc := (\<lambda>n. None)\<rparr>\<rparr>\<rparr>) []
      (bytes_of_string ''wasmx.ab'') (Some [6])
      ((demo_prop_ctx True [])\<lparr>host_props := [bytes_of_string ''wasmx.ab'' \<mapsto>
        \<lparr>hp_value = Some [5], hp_freed = False, hp_const = False, hp_const_null = False\<rparr>]\<rparr>) = Some (NGX_ERROR, [], st1) \<and>
    ngx_proxy_wasm_properties_get True (demo_prop_env\<lparr>p_maps := demo_env\<lparr>strs := demo_strings\<lparr>pnalloc := (\<lambda>n. None)\<rparr>\<rparr>\<rparr>) []
      (bytes_of_string ''wasmx.ab'') st1 = None"
  by (rule failed_set_frees [OF _ _ _ demo_dots demo_prefix, where old = "[5]" and
      hp = "\<lparr>hp_value = Some [5], hp_freed = False, hp_const = False, hp_const_null = False\<rparr>"]) (simp_all add: demo_prop_ctx_def)

end
