(* ===== verification/Acl.thy ===== *)
theory Acl
  imports Wasmx_Prelude "HOL-Library.Monad_Syntax"
begin

text \<open>
  Access control lists of filters (src/src/common/ngx_wasm_acl.c) and the directives that define them
  (src/src/wasm/ngx_wasm_directives.c). A list has rules for addresses, kept in two radix trees, and rules for host names, kept in a hash.
  Besides the configured rules, the addresses that host names were resolved to are recorded.
\<close>

section \<open>State\<close>

datatype acl_type = ACL_ALLOW | ACL_DENY

text \<open>
  Addresses as they are in memory: \<open>s_addr\<close> as a word in network byte order on a little-endian host, the 16 bytes of an IPv6 address, and
  the port.
\<close>

datatype sockaddr = AF_INET u32 nat | AF_INET6 bytes nat | AF_UNIX bytes

text \<open>A network: address and mask in network byte order.\<close>

datatype cidr = CIDR_IN u32 u32 | CIDR_IN6 bytes bytes

record acl_host =
  ah_host :: bytes
  ah_wildcard :: bool
  ah_type :: acl_type

text \<open>
  The trees and the hash of nginx are given by what was put into them: networks with the type of the rule, and host names with the type
  and whether they have a wildcard. The search in them is a parameter.
\<close>

record acl_ctx =
  acl_name :: bytes
  addrs_v4 :: "(u32 \<times> u32 \<times> acl_type) list"
  addrs_v6 :: "(bytes \<times> bytes \<times> acl_type) list"
  hosts_arr :: "acl_host list"
  hosts_hash :: "(bytes \<times> acl_type \<times> bool) list"

record acl =
  acl_rules :: acl_ctx
  recorded_addrs :: "cidr list"

text \<open>
  Used of nginx: radix trees, hashes, the parsing of addresses and networks, and whether memory can be allocated.
\<close>

record acl_env =
  radix32tree_insert :: "(u32 \<times> u32 \<times> acl_type) list \<Rightarrow> u32 \<Rightarrow> u32 \<Rightarrow> ngx_rc"
  radix32tree_find :: "(u32 \<times> u32 \<times> acl_type) list \<Rightarrow> u32 \<Rightarrow> acl_type option"
  radix128tree_insert :: "(bytes \<times> bytes \<times> acl_type) list \<Rightarrow> bytes \<Rightarrow> bytes \<Rightarrow> ngx_rc"
  radix128tree_find :: "(bytes \<times> bytes \<times> acl_type) list \<Rightarrow> bytes \<Rightarrow> acl_type option"
  cidr_match :: "sockaddr \<Rightarrow> cidr list \<Rightarrow> bool"
  hash_add_key :: "(bytes \<times> acl_type \<times> bool) list \<Rightarrow> bytes \<Rightarrow> acl_type \<Rightarrow> bool \<Rightarrow> ngx_rc"
  hash_init_ok :: "(bytes \<times> acl_type \<times> bool) list \<Rightarrow> bool"
  hash_find_combined :: "(bytes \<times> acl_type \<times> bool) list \<Rightarrow> bytes \<Rightarrow> acl_type option"
  ptocidr :: "bytes \<Rightarrow> cidr option"
  inet_addr :: "bytes \<Rightarrow> u32"
  inet6_addr :: "bytes \<Rightarrow> bytes option"
  strlow :: "bytes \<Rightarrow> bytes"
  radix_create_ok :: bool
  acl_alloc :: "nat \<Rightarrow> bool"
  acl_push :: "nat \<Rightarrow> bool"

text \<open>\<open>ntohl\<close>, \<open>ngx_strncmp\<close> of two strings of at least \<open>n\<close> bytes, and the offset that \<open>ngx_strlchr\<close> finds.\<close>

definition ntohl :: "u32 \<Rightarrow> u32" where
  "ntohl w = from_le32 (rev (le32 w))"

definition strncmp_eq :: "nat \<Rightarrow> bytes \<Rightarrow> bytes \<Rightarrow> bool" where
  "strncmp_eq n a b \<longleftrightarrow> takeWhile (\<lambda>c. c \<noteq> 0) (take n a) = takeWhile (\<lambda>c. c \<noteq> 0) (take n b)"

definition strlchr :: "byte \<Rightarrow> bytes \<Rightarrow> nat option" where
  "strlchr c s = (if c \<in> set s then Some (length (takeWhile (\<lambda>d. d \<noteq> c) s)) else None)"

section \<open>Configuration\<close>

text \<open>\<open>wcf\<close> is the configuration of the module with its lists; NULL when there is none.\<close>

definition ngx_wasm_acl_find_ctx :: "acl_ctx list option \<Rightarrow> bytes \<Rightarrow> acl_ctx option" where
  "ngx_wasm_acl_find_ctx wcf name =
     (case wcf of
        None \<Rightarrow> None
      | Some acls \<Rightarrow> find (\<lambda>a. length (acl_name a) = length name \<and> strncmp_eq (length name) (acl_name a) name) acls)"

definition ngx_wasm_acl_init :: "acl_env \<Rightarrow> acl_ctx \<Rightarrow> acl option" where
  "ngx_wasm_acl_init E ctx = (if acl_alloc E 320 then Some \<lparr>acl_rules = ctx, recorded_addrs = []\<rparr> else None)"

fun add_hosts :: "acl_env \<Rightarrow> (bytes \<times> acl_type \<times> bool) list \<Rightarrow> acl_host list \<Rightarrow> (bytes \<times> acl_type \<times> bool) list option" where
  "add_hosts E keys [] = Some keys"
| "add_hosts E keys (h # hs) =
     (if hash_add_key E keys (ah_host h) (ah_type h) (ah_wildcard h) = NGX_OK
      then add_hosts E (keys @ [(ah_host h, ah_type h, ah_wildcard h)]) hs else None)"

text \<open>The hash is made of the exact names and of two hashes of names with a wildcard at one of the ends.\<close>

definition ngx_wasm_acl_ctx_init :: "acl_env \<Rightarrow> acl_ctx \<Rightarrow> ngx_rc \<times> acl_ctx" where
  "ngx_wasm_acl_ctx_init E ctx =
     (if \<not> acl_alloc E (length (acl_name ctx) + 12) then (NGX_ERROR, ctx)
      else case add_hosts E [] (hosts_arr ctx) of
        None \<Rightarrow> (NGX_ERROR, ctx)
      | Some keys \<Rightarrow> if hash_init_ok E keys then (NGX_OK, ctx\<lparr>hosts_hash := keys\<rparr>) else (NGX_ERROR, ctx))"

fun ngx_wasm_acl_ctx_insert_cidr :: "acl_env \<Rightarrow> cidr \<Rightarrow> acl_type \<Rightarrow> acl_ctx \<Rightarrow> ngx_rc \<times> acl_ctx" where
  "ngx_wasm_acl_ctx_insert_cidr E (CIDR_IN6 a m) t ctx =
     (let rc = radix128tree_insert E (addrs_v6 ctx) a m in
      (rc, if rc = NGX_OK then ctx\<lparr>addrs_v6 := addrs_v6 ctx @ [(a, m, t)]\<rparr> else ctx))"
| "ngx_wasm_acl_ctx_insert_cidr E (CIDR_IN a m) t ctx =
     (let a1 = ntohl a; m1 = ntohl m; rc = radix32tree_insert E (addrs_v4 ctx) a1 m1 in
      (rc, if rc = NGX_OK then ctx\<lparr>addrs_v4 := addrs_v4 ctx @ [(a1, m1, t)]\<rparr> else ctx))"

text \<open>The directives \<open>allow\<close>, \<open>deny\<close>, \<open>allow_host\<close> and \<open>deny_host\<close>. The answer says whether the directive is accepted.\<close>

definition rule_type :: "string \<Rightarrow> acl_type" where
  "rule_type cmd = (if hd cmd = CHR ''a'' then ACL_ALLOW else ACL_DENY)"

definition ngx_wasm_acl_addr_rule :: "acl_env \<Rightarrow> string \<Rightarrow> bytes \<Rightarrow> acl_ctx \<Rightarrow> bool \<times> acl_ctx" where
  "ngx_wasm_acl_addr_rule E cmd arg ctx =
     (case ptocidr E arg of
        None \<Rightarrow> (False, ctx)
      | Some c \<Rightarrow> (case ngx_wasm_acl_ctx_insert_cidr E c (rule_type cmd) ctx of (rc, ctx1) \<Rightarrow> (rc = NGX_OK, ctx1)))"

definition ngx_wasm_acl_host_rule :: "acl_env \<Rightarrow> string \<Rightarrow> bytes \<Rightarrow> acl_ctx \<Rightarrow> bool \<times> acl_ctx" where
  "ngx_wasm_acl_host_rule E cmd arg ctx =
     (if arg = [] \<or> length arg > 255 \<or> \<not> acl_push E (length (hosts_arr ctx)) then (False, ctx)
      else (True, ctx\<lparr>hosts_arr := hosts_arr ctx @
        [\<lparr>ah_host = arg, ah_wildcard = strlchr 42 arg \<noteq> None, ah_type = rule_type cmd\<rparr>]\<rparr>))"

text \<open>The block of a list: \<open>ngx_conf_parse\<close> runs the directives in order and stops at the first that is not accepted.\<close>

fun acl_directives :: "acl_env \<Rightarrow> (string \<times> bytes) list \<Rightarrow> acl_ctx \<Rightarrow> bool \<times> acl_ctx" where
  "acl_directives E [] ctx = (True, ctx)"
| "acl_directives E ((cmd, arg) # ds) ctx =
     (case (if cmd \<in> {''allow'', ''deny''} then ngx_wasm_acl_addr_rule E cmd arg ctx
            else if cmd \<in> {''allow_host'', ''deny_host''} then ngx_wasm_acl_host_rule E cmd arg ctx else (False, ctx)) of
        (ok, ctx1) \<Rightarrow> if ok then acl_directives E ds ctx1 else (False, ctx1))"

definition ngx_wasm_acl_block :: "acl_env \<Rightarrow> bytes \<Rightarrow> (string \<times> bytes) list \<Rightarrow> acl_ctx list \<Rightarrow> bool \<times> acl_ctx list" where
  "ngx_wasm_acl_block E name ds acls =
     (if ngx_wasm_acl_find_ctx (Some acls) name \<noteq> None \<or> \<not> acl_alloc E 104 \<or> \<not> radix_create_ok E \<or> \<not> acl_alloc E 128 \<or>
       \<not> acl_push E (length acls) then (False, acls)
      else case acl_directives E ds \<lparr>acl_name = name, addrs_v4 = [], addrs_v6 = [], hosts_arr = [], hosts_hash = []\<rparr> of
        (ok, ctx) \<Rightarrow> (case ngx_wasm_acl_ctx_init E ctx of (rc, ctx1) \<Rightarrow> (ok \<and> rc = NGX_OK, acls @ [ctx1])))"

section \<open>Checks\<close>

fun ngx_wasm_acl_tree_lookup :: "acl_env \<Rightarrow> acl_ctx \<Rightarrow> sockaddr \<Rightarrow> acl_type option" where
  "ngx_wasm_acl_tree_lookup E ctx (AF_INET6 p port) = radix128tree_find E (addrs_v6 ctx) p"
| "ngx_wasm_acl_tree_lookup E ctx (AF_INET a port) = radix32tree_find E (addrs_v4 ctx) (ntohl a)"
| "ngx_wasm_acl_tree_lookup E ctx (AF_UNIX p) = None"

definition ngx_wasm_acl_check_addr :: "acl_env \<Rightarrow> acl \<Rightarrow> sockaddr \<Rightarrow> ngx_rc" where
  "ngx_wasm_acl_check_addr E acl sa =
     (case ngx_wasm_acl_tree_lookup E (acl_rules acl) sa of
        Some ACL_ALLOW \<Rightarrow> NGX_OK
      | Some ACL_DENY \<Rightarrow> NGX_DECLINED
      | None \<Rightarrow> if cidr_match E sa (recorded_addrs acl) then NGX_OK else NGX_DECLINED)"

text \<open>The name that is checked: what is between brackets, or what is before the first colon. \<open>None\<close>: no closing bracket.\<close>

definition checked_name :: "bytes \<Rightarrow> bytes option" where
  "checked_name host =
     (if hd host = 91 then map_option (\<lambda>i. take (i - 1) (tl host)) (strlchr 93 host)
      else Some (case strlchr 58 host of None \<Rightarrow> host | Some i \<Rightarrow> take i host))"

definition check_name :: "acl_env \<Rightarrow> acl \<Rightarrow> bytes \<Rightarrow> ngx_rc" where
  "check_name E acl name =
     (if name = [] \<or> length name > 256 then NGX_DECLINED
      else case hash_find_combined E (hosts_hash (acl_rules acl)) (strlow E name) of
        Some ACL_ALLOW \<Rightarrow> NGX_OK
      | _ \<Rightarrow> NGX_DECLINED)"

definition ngx_wasm_acl_check_host :: "acl_env \<Rightarrow> acl \<Rightarrow> bytes \<Rightarrow> ngx_rc" where
  "ngx_wasm_acl_check_host E acl host =
     (if host = [] then NGX_ERROR
      else case checked_name host of
        None \<Rightarrow> NGX_DECLINED
      | Some name \<Rightarrow>
          if inet_addr E name \<noteq> 0xffffffff then ngx_wasm_acl_check_addr E acl (AF_INET (inet_addr E name) 0)
          else (case inet6_addr E name of
              Some p \<Rightarrow> ngx_wasm_acl_check_addr E acl (AF_INET6 p 0)
            | None \<Rightarrow> check_name E acl name))"

section \<open>Recorded addresses\<close>

fun ngx_wasm_sockaddr_to_cidr :: "sockaddr \<Rightarrow> cidr option" where
  "ngx_wasm_sockaddr_to_cidr (AF_INET a port) = Some (CIDR_IN a 0xffffffff)"
| "ngx_wasm_sockaddr_to_cidr (AF_INET6 p port) = Some (CIDR_IN6 p (replicate 16 0xff))"
| "ngx_wasm_sockaddr_to_cidr (AF_UNIX p) = None"

definition ngx_wasm_acl_add_addr :: "acl_env \<Rightarrow> sockaddr \<Rightarrow> acl \<Rightarrow> ngx_rc \<times> acl" where
  "ngx_wasm_acl_add_addr E sa acl =
     (if ngx_wasm_acl_tree_lookup E (acl_rules acl) sa = Some ACL_DENY then (NGX_DECLINED, acl)
      else case ngx_wasm_sockaddr_to_cidr sa of
        None \<Rightarrow> (NGX_ERROR, acl)
      | Some c \<Rightarrow>
          if acl_push E (length (recorded_addrs acl)) then (NGX_OK, acl\<lparr>recorded_addrs := recorded_addrs acl @ [c]\<rparr>)
          else (NGX_ERROR, acl))"

end
