(* ===== verification/Http_Upstream.thy ===== *)
theory Http_Upstream
  imports Acl Guest_Memory Proxy_Wasm_Instance Proxy_Wasm_Pairs
begin

text \<open>
  The choice of an upstream server by a filter (src/src/http/ngx_http_wasm_upstream.c) and the host functions for it
  (src/src/common/proxy_wasm/ngx_proxy_wasm_host.c). The module wraps the load balancer of nginx: when a server is needed the filters run
  the step \<open>on_upstream_select\<close> and may set an address; without one the balancer of nginx chooses. After an attempt the filters see
  \<open>on_next_upstream\<close> and \<open>on_upstream_info\<close>.
\<close>

section \<open>State\<close>

text \<open>\<open>ngx_http_upstream_conf_t\<close>, what is used of it. Times are in milliseconds (\<open>ngx_msec_t\<close>, 64 bits).\<close>

record upstream_conf =
  connect_timeout :: u64
  send_timeout :: u64
  read_timeout :: u64
  next_upstream :: u64
  next_upstream_tries :: nat

text \<open>
  \<open>ngx_http_wasm_upstream_peer_data_t\<close>. The name for TLS has a length and data, which may be NULL.
\<close>

record peer_data =
  up_sockaddr :: "sockaddr option"
  up_socklen :: nat
  up_tls :: u32
  up_sni_len :: nat
  up_sni :: "bytes option"
  up_name :: bytes
  up_host :: bytes
  original_conf :: "upstream_conf option"
  last_peer_state :: nat
  last_status :: nat
  accept_resp :: bool

text \<open>What \<open>r->upstream->peer.data\<close> points to: nothing, the data of this module, or that of another balancer around it.\<close>

datatype peer_ptr = No_peer | Wasm_peer | Other_peer nat

text \<open>
  The request with its upstream and the connection to a peer. \<open>u_rctx\<close> says whether the context of the running filter has a request,
  \<open>u_up\<close> is \<open>rctx->upstream_peer\<close>, \<open>u_wasm_handlers\<close> whether the handlers of this module are installed, \<open>u_acl\<close> the list of each filter.
  Buffers of the request are links; a link is identified by a number. \<open>u_world\<close> is the rest of nginx.
\<close>

record 'w ups =
  u_mem :: bytes
  u_rctx :: bool
  u_upstream :: bool
  u_up :: "peer_data option"
  u_peer :: peer_ptr
  u_wasm_handlers :: bool
  u_conf :: "upstream_conf option"
  u_state_status :: "nat option"
  u_pwctx :: bool
  u_step :: pw_step
  u_last_completed :: pw_step
  u_phase :: ngx_phase
  u_acl :: "nat \<Rightarrow> acl option"
  u_headers_modified :: bool
  u_local_resp_status :: nat
  u_header_sent :: bool
  u_upstream_header_sent :: bool
  u_request_bufs :: "nat list"
  u_request_body :: "nat list option"
  u_freed_links :: "nat list"
  u_freed_data :: "nat list"
  pc_sockaddr :: "sockaddr option"
  pc_socklen :: nat
  pc_name :: bytes
  pc_cached :: bool
  pc_connection :: bool
  pc_tries :: nat
  u_ssl :: bool
  u_schema :: bytes
  u_ssl_name :: "nat \<times> bytes option"
  u_world :: 'w

text \<open>
  The calls that filters make while they run a step, with the number of the filter.
\<close>

datatype upstream_call =
    Set_upstream nat u32 u32 u32 u32 u32 u32
  | Accept_response
  | Get_timeouts u32 u32 u32
  | Set_timeouts u32 u32 u32

text \<open>
  Used of nginx and of the filters: the result of \<open>ngx_http_wasm_rctx\<close>; \<open>ngx_parse_url\<close> with the first address, its length and its name;
  the balancer that is wrapped; the flushing of a local response and the creation of the request to the upstream; the table of errors that
  lead to the next upstream; and the calls that the filters make in a step with the result of the step.
\<close>

record 'w ups_env =
  ue_acl :: acl_env
  ue_alloc :: "nat \<Rightarrow> bool"
  ue_conf_alloc :: bool
  wasm_rctx :: "'w \<Rightarrow> ngx_rc"
  parse_url :: "bytes \<Rightarrow> nat \<Rightarrow> (sockaddr \<times> nat \<times> bytes) option"
  upstream_max_tries :: nat
  next_errors :: "(nat \<times> u64) list"
  original_init_peer :: "'w ups \<Rightarrow> ngx_rc \<times> 'w ups"
  original_get_peer :: "'w ups \<Rightarrow> ngx_rc \<times> 'w ups"
  original_free_peer :: "nat \<Rightarrow> 'w ups \<Rightarrow> 'w ups"
  flush_local_response :: "'w ups \<Rightarrow> 'w ups"
  create_request :: "'w ups \<Rightarrow> ngx_rc \<times> 'w ups"
  filters_run :: "pw_step \<Rightarrow> 'w ups \<Rightarrow> ngx_rc \<times> upstream_call list"

abbreviation selected :: "peer_data \<Rightarrow> bool" where
  "selected up \<equiv> up_sockaddr up \<noteq> None \<and> up_socklen up \<noteq> 0"

definition NGX_PEER_FAILED :: nat where "NGX_PEER_FAILED = 4"

section \<open>Setting an upstream\<close>

definition url_of :: "bytes \<Rightarrow> bytes" where
  "url_of addr = (if strlchr 58 addr \<noteq> None \<and> hd addr \<noteq> 91 then 91 # addr @ [93] else addr)"

definition ngx_http_wasm_set_upstream ::
  "'w ups_env \<Rightarrow> acl option \<Rightarrow> bytes \<Rightarrow> nat \<Rightarrow> u32 \<Rightarrow> bytes \<Rightarrow> peer_data \<Rightarrow> ngx_rc \<times> peer_data" where
  "ngx_http_wasm_set_upstream E acl addr port tls sni up =
     (if selected up then (NGX_DECLINED, up)
      else if \<not> ue_alloc E (length (url_of addr)) then (NGX_ERROR, up)
      else case parse_url E (url_of addr) port of
        None \<Rightarrow> (NGX_DECLINED, up)
      | Some (sa, len, name) \<Rightarrow>
          if (case acl of None \<Rightarrow> False | Some l \<Rightarrow> ngx_wasm_acl_check_addr (ue_acl E) l sa \<noteq> NGX_OK) then (NGX_DECLINED, up)
          else let up1 = up\<lparr>up_sockaddr := Some sa, up_socklen := len, up_name := name, up_tls := tls\<rparr> in
            if sni = [] then (NGX_OK, up1)
            else if \<not> ue_alloc E (length sni) then (NGX_ERROR, up1\<lparr>up_sni := None\<rparr>)
            else (NGX_OK, up1\<lparr>up_sni := Some sni, up_sni_len := length sni\<rparr>))"

section \<open>Timeouts\<close>

definition limit_timeouts :: "u64 \<Rightarrow> u64 \<Rightarrow> u64 \<Rightarrow> upstream_conf \<Rightarrow> upstream_conf \<Rightarrow> upstream_conf" where
  "limit_timeouts con snt rd orig cur = cur\<lparr>
     connect_timeout := if con \<noteq> 0 then min con (connect_timeout orig) else connect_timeout cur,
     send_timeout := if snt \<noteq> 0 then min snt (send_timeout orig) else send_timeout cur,
     read_timeout := if rd \<noteq> 0 then min rd (read_timeout orig) else read_timeout cur\<rparr>"

text \<open>The answer is \<open>None\<close> when the data of the peer is not that of this module.\<close>

definition ngx_http_wasm_set_upstream_timeouts ::
  "'w ups_env \<Rightarrow> u64 \<Rightarrow> u64 \<Rightarrow> u64 \<Rightarrow> 'w ups \<Rightarrow> (ngx_rc \<times> 'w ups) option" where
  "ngx_http_wasm_set_upstream_timeouts E con snt rd st =
     (if u_peer st \<noteq> Wasm_peer then None
      else do {
        up \<leftarrow> u_up st;
        cur \<leftarrow> u_conf st;
        if original_conf up = None \<and> \<not> ue_conf_alloc E then Some (NGX_ERROR, st)
        else do {
          let orig = (case original_conf up of Some c \<Rightarrow> c | None \<Rightarrow> cur);
          Some (NGX_OK, st\<lparr>u_up := Some (up\<lparr>original_conf := Some orig\<rparr>), u_conf := Some (limit_timeouts con snt rd orig cur)\<rparr>) } })"

section \<open>Host functions\<close>

text \<open>
  The request is taken of the context before anything is checked: without a request, this is an access through a NULL pointer.
\<close>

definition ngx_proxy_wasm_hfuncs_proxy_set_upstream ::
  "'w ups_env \<Rightarrow> nat \<Rightarrow> u32 \<Rightarrow> u32 \<Rightarrow> u32 \<Rightarrow> u32 \<Rightarrow> u32 \<Rightarrow> u32 \<Rightarrow> 'w ups \<Rightarrow> (hfunc_ret \<times> 'w ups) option" where
  "ngx_proxy_wasm_hfuncs_proxy_set_upstream E f addr addr_size port tls sni sni_size st =
     (if \<not> u_rctx st then None
      else if u_step st \<noteq> STEP_UPSTREAM_SELECT then Some (Bad_usage, st)
      else case (ngx_wavm_memory_lift (u_mem st) addr addr_size 1, ngx_wavm_memory_lift (u_mem st) sni sni_size 1) of
        (Some a, Some s) \<Rightarrow>
          if port > 65535 then Some (Result RESULT_BAD_ARGUMENT, st)
          else if tls \<noteq> 0 \<and> tls \<noteq> 1 then Some (Result RESULT_BAD_ARGUMENT, st)
          else if \<not> u_upstream st \<or> u_peer st = No_peer then Some (Result RESULT_INTERNAL_FAILURE, st)
          else if u_peer st \<noteq> Wasm_peer then None
          else do {
            up \<leftarrow> u_up st;
            let (rc, up1) = ngx_http_wasm_set_upstream E (u_acl st f) (read_slice (u_mem st) a addr_size) (unat port) tls
                (read_slice (u_mem st) s sni_size) up;
            Some (Result (if rc = NGX_ERROR then RESULT_INTERNAL_FAILURE else if rc = NGX_DECLINED then RESULT_BAD_ARGUMENT else RESULT_OK),
              st\<lparr>u_up := Some up1\<rparr>) }
      | _ \<Rightarrow> Some (Bad_usage, st))"

definition ngx_proxy_wasm_hfuncs_proxy_accept_upstream_response :: "'w ups \<Rightarrow> (hfunc_ret \<times> 'w ups) option" where
  "ngx_proxy_wasm_hfuncs_proxy_accept_upstream_response st =
     (if \<not> u_rctx st then None
      else if u_step st \<noteq> STEP_NEXT_UPSTREAM \<or> \<not> u_upstream st then Some (Bad_usage, st)
      else if u_peer st \<noteq> Wasm_peer then None
      else map_option (\<lambda>up. (Result RESULT_OK, st\<lparr>u_up := Some (up\<lparr>accept_resp := True\<rparr>)\<rparr>)) (u_up st))"

definition ngx_proxy_wasm_hfuncs_proxy_get_upstream_timeouts :: "u32 \<Rightarrow> u32 \<Rightarrow> u32 \<Rightarrow> 'w ups \<Rightarrow> (hfunc_ret \<times> 'w ups) option" where
  "ngx_proxy_wasm_hfuncs_proxy_get_upstream_timeouts con snt rd st =
     (case (ngx_wavm_memory_lift (u_mem st) con 4 1, ngx_wavm_memory_lift (u_mem st) snt 4 1, ngx_wavm_memory_lift (u_mem st) rd 4 1) of
        (Some (Some c), Some (Some s), Some (Some r)) \<Rightarrow>
          if \<not> u_rctx st then None
          else if u_step st \<notin> {STEP_UPSTREAM_SELECT, STEP_NEXT_UPSTREAM, STEP_UPSTREAM_INFO} then Some (Bad_usage, st)
          else if \<not> u_upstream st then Some (Result RESULT_INTERNAL_FAILURE, st)
          else (case u_conf st of
              None \<Rightarrow> Some (Result RESULT_INTERNAL_FAILURE, st)
            | Some u \<Rightarrow> do {
                m1 \<leftarrow> buf_write (u_mem st) c (le32 (ucast (connect_timeout u)));
                m2 \<leftarrow> buf_write m1 s (le32 (ucast (send_timeout u)));
                m3 \<leftarrow> buf_write m2 r (le32 (ucast (read_timeout u)));
                Some (Result RESULT_OK, st\<lparr>u_mem := m3\<rparr>) })
      | _ \<Rightarrow> Some (Bad_usage, st))"

definition ngx_proxy_wasm_hfuncs_proxy_set_upstream_timeouts ::
  "'w ups_env \<Rightarrow> u32 \<Rightarrow> u32 \<Rightarrow> u32 \<Rightarrow> 'w ups \<Rightarrow> (hfunc_ret \<times> 'w ups) option" where
  "ngx_proxy_wasm_hfuncs_proxy_set_upstream_timeouts E con snt rd st =
     (if \<not> u_rctx st then None
      else if u_step st \<noteq> STEP_UPSTREAM_SELECT then Some (Bad_usage, st)
      else if \<not> u_upstream st \<or> u_conf st = None then Some (Result RESULT_INTERNAL_FAILURE, st)
      else do {
        (rc, st1) \<leftarrow> ngx_http_wasm_set_upstream_timeouts E (ucast con) (ucast snt) (ucast rd) st;
        Some (Result (if rc = NGX_ERROR then RESULT_INTERNAL_FAILURE else RESULT_OK), st1) })"

fun run_upstream_call :: "'w ups_env \<Rightarrow> upstream_call \<Rightarrow> 'w ups \<Rightarrow> (hfunc_ret \<times> 'w ups) option" where
  "run_upstream_call E (Set_upstream f a al p t s sl) st = ngx_proxy_wasm_hfuncs_proxy_set_upstream E f a al p t s sl st"
| "run_upstream_call E Accept_response st = ngx_proxy_wasm_hfuncs_proxy_accept_upstream_response st"
| "run_upstream_call E (Get_timeouts c s r) st = ngx_proxy_wasm_hfuncs_proxy_get_upstream_timeouts c s r st"
| "run_upstream_call E (Set_timeouts c s r) st = ngx_proxy_wasm_hfuncs_proxy_set_upstream_timeouts E c s r st"

fun upstream_calls :: "'w ups_env \<Rightarrow> upstream_call list \<Rightarrow> 'w ups \<Rightarrow> 'w ups option" where
  "upstream_calls E [] st = Some st"
| "upstream_calls E (c # cs) st = do { (ret, st1) \<leftarrow> run_upstream_call E c st; upstream_calls E cs st1 }"

section \<open>The balancer\<close>

text \<open>Running the filters keeps the step of the stream; its phase stays the background phase.\<close>

definition ngx_proxy_wasm_upstream_resume :: "'w ups_env \<Rightarrow> pw_step \<Rightarrow> 'w ups \<Rightarrow> (ngx_rc \<times> 'w ups) option" where
  "ngx_proxy_wasm_upstream_resume E s st =
     (if \<not> u_pwctx st then Some (NGX_OK, st)
      else do {
        let st1 = st\<lparr>u_phase := BACKGROUND_PHASE, u_step := s\<rparr>;
        let (rc, calls) = filters_run E s st1;
        st2 \<leftarrow> upstream_calls E calls st1;
        Some (rc, st2\<lparr>u_step := u_step st, u_last_completed := u_last_completed st\<rparr>) })"

text \<open>The data of a peer, zeroed.\<close>

definition fresh_peer :: peer_data where
  "fresh_peer = \<lparr>up_sockaddr = None, up_socklen = 0, up_tls = 0, up_sni_len = 0, up_sni = None, up_name = [], up_host = [],
     original_conf = None, last_peer_state = 0, last_status = 0, accept_resp = False\<rparr>"

definition ngx_http_wasm_upstream_init_peer :: "'w ups_env \<Rightarrow> 'w ups \<Rightarrow> (ngx_rc \<times> 'w ups) option" where
  "ngx_http_wasm_upstream_init_peer E st =
     (if \<not> ue_alloc E 152 then Some (NGX_ERROR, st)
      else case original_init_peer E st of (rc, st1) \<Rightarrow>
        if rc \<noteq> NGX_OK then Some (NGX_ERROR, st1)
        else (case wasm_rctx E (u_world st1) of
            NGX_DECLINED \<Rightarrow> Some (NGX_OK, st1)
          | NGX_OK \<Rightarrow> do {
              conf \<leftarrow> u_conf st1;
              let tries = (if next_upstream_tries conf \<noteq> 0 then min (next_upstream_tries conf) (upstream_max_tries E)
                else upstream_max_tries E);
              Some (NGX_OK, st1\<lparr>u_up := Some fresh_peer, pc_tries := tries, u_peer := Wasm_peer, u_wasm_handlers := True\<rparr>) }
          | _ \<Rightarrow> Some (NGX_ERROR, st1)))"

text \<open>
  After headers were modified the request to the upstream is made anew: the buffer with the old headers and the links are given back, and
  the body of the request is what is left.
\<close>

definition reset_request_bufs :: "'w ups \<Rightarrow> 'w ups" where
  "reset_request_bufs st =
     (let cl = u_request_bufs st; body = (case u_request_body st of None \<Rightarrow> [] | Some b \<Rightarrow> b) in
      st\<lparr>u_freed_data := u_freed_data st @ (if cl \<noteq> [] \<and> (body = [] \<or> hd cl \<noteq> hd body) then [hd cl] else []),
         u_freed_links := u_freed_links st @ cl, u_request_bufs := body\<rparr>)"

definition use_selected :: "peer_data \<Rightarrow> 'w ups \<Rightarrow> 'w ups" where
  "use_selected up st =
     (let st1 = st\<lparr>pc_sockaddr := up_sockaddr up, pc_socklen := up_socklen up, pc_name := up_name up, pc_cached := False,
        pc_connection := False\<rparr> in
      if up_tls up \<noteq> 0
      then let st2 = st1\<lparr>u_ssl := True, u_schema := bytes_of_string ''https://''\<rparr> in
        if up_sni_len up \<noteq> 0 then st2\<lparr>u_ssl_name := (up_sni_len up, up_sni up)\<rparr> else st2
      else st1\<lparr>u_ssl := False, u_schema := bytes_of_string ''http://''\<rparr>)"

definition rc_failed :: "ngx_rc \<Rightarrow> bool" where
  "rc_failed rc \<longleftrightarrow> rc = NGX_ERROR \<or> (\<exists>n\<ge>300. rc = NGX_HTTP n)"

lemma rc_failed_code [code]: "rc_failed rc = (case rc of NGX_ERROR \<Rightarrow> True | NGX_HTTP n \<Rightarrow> n \<ge> 300 | _ \<Rightarrow> False)"
  by (cases rc) (auto simp: rc_failed_def)

text \<open>\<open>ngx_http_wasm_upstream_get_peer\<close>, behind the filters.\<close>

definition get_peer_selected :: "'w ups_env \<Rightarrow> 'w ups \<Rightarrow> (ngx_rc \<times> 'w ups) option" where
  "get_peer_selected E st =
     (if u_local_resp_status st \<noteq> 0
      then let st1 = flush_local_response E st in
        Some (NGX_ERROR, if u_header_sent st1 then st1\<lparr>u_upstream_header_sent := True\<rparr> else st1)
      else case (if u_headers_modified st then create_request E (reset_request_bufs st) else (NGX_OK, st)) of (rc, st1) \<Rightarrow>
        if rc \<noteq> NGX_OK then Some (NGX_ERROR, st1)
        else do {
          up \<leftarrow> u_up st1;
          if selected up then Some (NGX_OK, use_selected up st1) else Some (original_get_peer E st1) })"

definition ngx_http_wasm_upstream_get_peer :: "'w ups_env \<Rightarrow> 'w ups \<Rightarrow> (ngx_rc \<times> 'w ups) option" where
  "ngx_http_wasm_upstream_get_peer E st =
     (case wasm_rctx E (u_world st) of
        NGX_DECLINED \<Rightarrow> Some (original_get_peer E st)
      | NGX_OK \<Rightarrow> do {
          (rc, st1) \<leftarrow> ngx_proxy_wasm_upstream_resume E STEP_UPSTREAM_SELECT (st\<lparr>u_headers_modified := False, u_peer := Wasm_peer\<rparr>);
          let st2 = st1\<lparr>u_peer := u_peer st\<rparr>;
          if rc_failed rc then Some (NGX_ERROR, st2) else get_peer_selected E st2 }
      | _ \<Rightarrow> Some (NGX_ERROR, st))"

text \<open>The state of the last attempt, when there are no more tries: a status that would lead to the next upstream is a failure.\<close>

definition peer_state :: "'w ups_env \<Rightarrow> nat \<Rightarrow> nat \<Rightarrow> 'w ups \<Rightarrow> nat option" where
  "peer_state E state tries st =
     (case u_state_status st of
        Some status \<Rightarrow>
          if tries = 0 \<and> state = 0
          then (case find (\<lambda>(s, m). s = status) (next_errors E) of
              None \<Rightarrow> Some state
            | Some (s, m) \<Rightarrow> map_option (\<lambda>c. if next_upstream c AND m = m then NGX_PEER_FAILED else state) (u_conf st))
          else Some state
      | None \<Rightarrow> Some state)"

definition ngx_http_wasm_upstream_free_peer :: "'w ups_env \<Rightarrow> nat \<Rightarrow> 'w ups \<Rightarrow> 'w ups option" where
  "ngx_http_wasm_upstream_free_peer E state st = do {
     up \<leftarrow> u_up st;
     if \<not> selected up then Some (original_free_peer E state st)
     else if wasm_rctx E (u_world st) \<noteq> NGX_OK then Some st
     else do {
       let tries = pc_tries st - 1;
       ps \<leftarrow> peer_state E state tries st;
       let up1 = up\<lparr>last_peer_state := ps, up_sockaddr := None, up_socklen := 0\<rparr>;
       (rc, st1) \<leftarrow> ngx_proxy_wasm_upstream_resume E STEP_UPSTREAM_INFO (st\<lparr>u_up := Some up1, pc_tries := tries, u_peer := Wasm_peer\<rparr>);
       Some (st1\<lparr>u_peer := u_peer st\<rparr>) } }"

text \<open>\<open>data\<close> is the data of the outermost balancer.\<close>

definition ngx_http_wasm_upstream_test_next :: "'w ups_env \<Rightarrow> peer_ptr \<Rightarrow> nat \<Rightarrow> 'w ups \<Rightarrow> (ngx_rc \<times> 'w ups) option" where
  "ngx_http_wasm_upstream_test_next E data status st =
     (if wasm_rctx E (u_world st) \<noteq> NGX_OK then Some (NGX_OK, st)
      else case u_up st of
        None \<Rightarrow> Some (NGX_OK, st)
      | Some up \<Rightarrow>
          if \<not> selected up then Some (NGX_OK, st)
          else do {
            (rc, st1) \<leftarrow> ngx_proxy_wasm_upstream_resume E STEP_NEXT_UPSTREAM
                (st\<lparr>u_up := Some (up\<lparr>accept_resp := False, last_status := status\<rparr>), u_peer := Wasm_peer\<rparr>);
            up1 \<leftarrow> u_up st1;
            Some (if accept_resp up1 then NGX_DECLINED else NGX_OK, st1\<lparr>u_peer := data\<rparr>) })"

text \<open>A session of TLS is only reused for the servers of the balancer of nginx.\<close>

definition ngx_http_wasm_upstream_set_session :: "(peer_data \<Rightarrow> ngx_rc) \<Rightarrow> peer_data \<Rightarrow> ngx_rc" where
  "ngx_http_wasm_upstream_set_session original up = (if selected up then NGX_OK else original up)"

definition ngx_http_wasm_upstream_save_session :: "('w ups \<Rightarrow> 'w ups) \<Rightarrow> peer_data \<Rightarrow> 'w ups \<Rightarrow> 'w ups" where
  "ngx_http_wasm_upstream_save_session original up st = (if selected up then st else original st)"

text \<open>
  The variable with the host of the upstream: what a filter set as the Host header in \<open>on_upstream_select\<close>, or the host that nginx has.
\<close>

definition ngx_http_wasm_upstream_host_variable :: "'w ups_env \<Rightarrow> bytes option \<Rightarrow> 'w ups \<Rightarrow> bytes option" where
  "ngx_http_wasm_upstream_host_variable E proxy_host st =
     (case (wasm_rctx E (u_world st), u_up st) of
        (NGX_OK, Some up) \<Rightarrow> if up_host up \<noteq> [] then Some (up_host up) else proxy_host
      | _ \<Rightarrow> proxy_host)"

section \<open>The list of upstream servers\<close>

record ups_server =
  srv_down :: bool
  srv_addrs :: "sockaddr list"
  srv_weight :: nat
  srv_max_fails :: nat
  srv_fail_timeout :: nat
  srv_backup :: bool

text \<open>
  Used of nginx: the text of an address without its port, the port, the comparison of names without case, and whether memory can be
  allocated. A server that is down is left out.
\<close>

record srv_env =
  sock_ntop :: "sockaddr \<Rightarrow> bytes"
  inet_get_port :: "sockaddr \<Rightarrow> nat"
  name_case_eq :: "bytes \<Rightarrow> bytes \<Rightarrow> bool"
  srv_alloc :: "nat \<Rightarrow> bool"

fun addrs_size :: "srv_env \<Rightarrow> sockaddr list \<Rightarrow> nat" where
  "addrs_size V [] = 0"
| "addrs_size V (a # as) = 4 + length (sock_ntop V a) + 4 + 4 * 4 + addrs_size V as"

fun servers_size :: "srv_env \<Rightarrow> ups_server list \<Rightarrow> nat \<times> nat" where
  "servers_size V [] = (0, 0)"
| "servers_size V (s # ss) =
     (case servers_size V ss of (n, len) \<Rightarrow>
        if srv_down s then (n, len) else (length (srv_addrs s) + n, addrs_size V (srv_addrs s) + len))"

fun put_addrs :: "srv_env \<Rightarrow> ups_server \<Rightarrow> sockaddr list \<Rightarrow> bytes \<times> nat \<Rightarrow> (bytes \<times> nat) option" where
  "put_addrs V s [] st = Some st"
| "put_addrs V s (a # as) st = do {
     st \<leftarrow> emit (le32 (of_nat (length (sock_ntop V a)))) st;
     st \<leftarrow> emit (sock_ntop V a) st;
     st \<leftarrow> emit (le32 (of_nat (inet_get_port V a))) st;
     st \<leftarrow> emit (le32 (of_nat (srv_weight s))) st;
     st \<leftarrow> emit (le32 (of_nat (srv_max_fails s))) st;
     st \<leftarrow> emit (le32 (of_nat (srv_fail_timeout s))) st;
     st \<leftarrow> emit (le32 (of_bool (srv_backup s))) st;
     put_addrs V s as st }"

fun put_servers :: "srv_env \<Rightarrow> ups_server list \<Rightarrow> bytes \<times> nat \<Rightarrow> (bytes \<times> nat) option" where
  "put_servers V [] st = Some st"
| "put_servers V (s # ss) st =
     (if srv_down s then put_servers V ss st else do { st \<leftarrow> put_addrs V s (srv_addrs s) st; put_servers V ss st })"

text \<open>\<open>umcf\<close> are the upstreams of the configuration with their servers; \<open>name\<close> is the upstream of the filter.\<close>

definition ngx_http_wasm_get_upstreams :: "srv_env \<Rightarrow> (bytes \<times> ups_server list) list option \<Rightarrow> bytes \<Rightarrow> (ngx_rc \<times> bytes) option" where
  "ngx_http_wasm_get_upstreams V umcf name =
     (case umcf of
        None \<Rightarrow> Some (NGX_DECLINED, [])
      | Some us \<Rightarrow>
          if name = [] then Some (NGX_DECLINED, [])
          else (case find (\<lambda>(h, ss). length h = length name \<and> name_case_eq V h name) us of
              None \<Rightarrow> Some (NGX_DECLINED, [])
            | Some (h, ss) \<Rightarrow>
                let (total, size) = servers_size V ss; len = 4 + size in
                if \<not> srv_alloc V len then Some (NGX_ERROR, [])
                else do {
                  st \<leftarrow> emit (le32 (of_nat total)) (replicate len 0, 0);
                  (buf, p) \<leftarrow> put_servers V ss st;
                  Some (NGX_OK, buf) }))"

section \<open>Configuration\<close>

text \<open>
  The balancer of an upstream block: the one of this module, round robin, or another one of nginx. \<open>uc_init_upstream\<close> and \<open>uc_init\<close> are the
  handlers of the block, and the other fields those of \<open>ngx_http_wasm_srv_conf_t\<close>.
\<close>

datatype balancer = Wasm_balancer | Round_robin | Other_balancer nat

record ups_conf =
  uc_max_tries :: nat
  original_init_upstream :: "balancer option"
  original_init :: "balancer option"
  uc_init_upstream :: "balancer option"
  uc_init :: "balancer option"

datatype conf_ret = Conf_ok | Conf_error | Conf_no_wasm | Conf_duplicate

text \<open>The name of the parameter; the comparison stops at its last byte.\<close>

definition max_tries_prefix :: bytes where
  "max_tries_prefix = [109, 97, 120, 95, 116, 114, 105, 101, 115, 61]"

text \<open>\<open>args\<close> are the parameters of the directive, \<open>atoi\<close> is \<open>ngx_atoi\<close>, and \<open>vm\<close> says whether there is a Wasm VM.\<close>

definition ngx_http_wasm_upstream_select_directive :: "(bytes \<Rightarrow> nat option) \<Rightarrow> bool \<Rightarrow> bytes list \<Rightarrow> ups_conf \<Rightarrow> conf_ret \<times> ups_conf" where
  "ngx_http_wasm_upstream_select_directive atoi vm args c =
     (let wrap = (\<lambda>c. if \<not> vm then (Conf_no_wasm, c)
        else if original_init_upstream c \<noteq> None then (Conf_duplicate, c)
        else (Conf_ok, c\<lparr>original_init_upstream := Some (case uc_init_upstream c of Some b \<Rightarrow> b | None \<Rightarrow> Round_robin),
          uc_init_upstream := Some Wasm_balancer\<rparr>)) in
      case args of
        [] \<Rightarrow> wrap c
      | v # _ \<Rightarrow>
          if \<not> strncmp_eq 10 max_tries_prefix v then (Conf_error, c)
          else (case atoi (drop 10 v) of None \<Rightarrow> (Conf_error, c) | Some n \<Rightarrow> wrap (c\<lparr>uc_max_tries := n\<rparr>)))"

text \<open>
  \<open>init\<close> stands for the balancers of nginx: it sets the handler for requests. The handler of this module calls the original one, which is
  NULL when the directive was not given (\<open>None\<close>).
\<close>

definition ngx_http_wasm_upstream_init :: "(balancer \<Rightarrow> ups_conf \<Rightarrow> ngx_rc \<times> ups_conf) \<Rightarrow> ups_conf \<Rightarrow> (ngx_rc \<times> ups_conf) option" where
  "ngx_http_wasm_upstream_init init c = do {
     b \<leftarrow> original_init_upstream c;
     let (rc, c1) = init b c;
     if rc \<noteq> NGX_OK then Some (NGX_ERROR, c1)
     else Some (NGX_OK, c1\<lparr>original_init := uc_init c1, uc_init := Some Wasm_balancer\<rparr>) }"

definition ngx_http_wasm_upstream_notify_peer :: "nat \<Rightarrow> 'w ups \<Rightarrow> 'w ups" where
  "ngx_http_wasm_upstream_notify_peer type st = st"

end
