(* ===== verification/Acl_Props.thy ===== *)
theory Acl_Props
  imports Acl
begin

text \<open>What is relied on of the trees of nginx, and what the rules of a list decide.\<close>

section \<open>Trees\<close>

definition in_net :: "u32 \<Rightarrow> u32 \<Rightarrow> u32 \<Rightarrow> bool" where
  "in_net k a m \<longleftrightarrow> k AND m = a AND m"

text \<open>Networks of a tree: their masks are prefixes, and no network is there twice.\<close>

definition prefix_mask :: "u32 \<Rightarrow> bool" where
  "prefix_mask m \<longleftrightarrow> m \<in> set (map (\<lambda>n. NOT (Bit_Operations.mask n)) [0..<33])"

fun nets_ok :: "(u32 \<times> u32 \<times> acl_type) list \<Rightarrow> bool" where
  "nets_ok [] = True"
| "nets_ok ((a, m, t) # es) \<longleftrightarrow> prefix_mask m \<and> (\<forall>(a', m', t') \<in> set es. m' = m \<longrightarrow> a' AND m \<noteq> a AND m) \<and> nets_ok es"

text \<open>
  A radix tree of nginx finds the most specific of the networks with the key in it (a longer prefix is a larger mask), and inserts a
  network that is not in it.
\<close>

definition radix32_laws :: "acl_env \<Rightarrow> bool" where
  "radix32_laws E \<longleftrightarrow>
     (\<forall>es k t. nets_ok es \<longrightarrow>
        (radix32tree_find E es k = Some t \<longleftrightarrow>
         (\<exists>a m. (a, m, t) \<in> set es \<and> in_net k a m \<and> (\<forall>(a', m', t') \<in> set es. in_net k a' m' \<longrightarrow> m' \<le> m)))) \<and>
     (\<forall>es a m. nets_ok es \<and> (\<exists>(a', m', t') \<in> set es. m' = m \<and> a' AND m = a AND m) \<longrightarrow> radix32tree_insert E es a m \<noteq> NGX_OK)"

section \<open>The rules of a list\<close>

text \<open>The rules for IPv4 that directives define, and the most specific one for an address with its mask.\<close>

fun rules4 :: "acl_env \<Rightarrow> (string \<times> bytes) list \<Rightarrow> (u32 \<times> u32 \<times> acl_type) list" where
  "rules4 E [] = []"
| "rules4 E ((cmd, arg) # ds) =
     (case ptocidr E arg of
        Some (CIDR_IN a m) \<Rightarrow> if cmd \<in> {''allow'', ''deny''} then [(ntohl a, ntohl m, rule_type cmd)] else []
      | _ \<Rightarrow> []) @ rules4 E ds"

fun most_specific :: "(u32 \<times> u32 \<times> acl_type) list \<Rightarrow> u32 \<Rightarrow> (u32 \<times> acl_type) option" where
  "most_specific [] k = None"
| "most_specific ((a, m, t) # rs) k =
     (if in_net k a m
      then (case most_specific rs k of None \<Rightarrow> Some (m, t) | Some (m', t') \<Rightarrow> if m' < m then Some (m, t) else Some (m', t'))
      else most_specific rs k)"

lemma most_specific_None: "most_specific rs k = None \<Longrightarrow> (a, m, t) \<in> set rs \<Longrightarrow> \<not> in_net k a m"
  by (induction rs k rule: most_specific.induct) (auto split: if_splits option.splits)

lemma most_specific_Some:
  "most_specific rs k = Some (m, t) \<Longrightarrow>
     (\<exists>a. (a, m, t) \<in> set rs \<and> in_net k a m) \<and> (\<forall>(a', m', t') \<in> set rs. in_net k a' m' \<longrightarrow> m' \<le> m)"
proof (induction rs k arbitrary: m t rule: most_specific.induct)
  case (2 a1 m1 t1 rs k)
  show ?case
  proof (cases "in_net k a1 m1")
    case False
    with 2 show ?thesis by auto
  next
    case True
    show ?thesis
    proof (cases "most_specific rs k")
      case None
      with True 2 most_specific_None [OF None] show ?thesis by auto
    next
      case (Some p)
      obtain m2 t2 where p: "p = (m2, t2)" by (cases p)
      have IH: "(\<exists>a. (a, m2, t2) \<in> set rs \<and> in_net k a m2) \<and> (\<forall>(a', m', t') \<in> set rs. in_net k a' m' \<longrightarrow> m' \<le> m2)"
        using 2(1) [OF True] Some p by simp
      show ?thesis
      proof (cases "m2 < m1")
        case m: True
        with 2(3) Some p True have "m = m1" "t = t1" by simp_all
        with IH m True show ?thesis by (auto split: prod.splits)
      next
        case m: False
        with 2(3) Some p True have "m = m2" "t = t2" by simp_all
        with IH m True show ?thesis by auto
      qed
    qed
  qed
qed simp

lemma radix32_most_specific:
  assumes "radix32_laws E" and "nets_ok es"
  shows "radix32tree_find E es k = map_option snd (most_specific es k)"
proof (cases "most_specific es k")
  case None
  then have "radix32tree_find E es k \<noteq> Some t" for t
    using assms most_specific_None [OF None] unfolding radix32_laws_def by blast
  then have "radix32tree_find E es k = None" by (metis not_Some_eq)
  with None show ?thesis by simp
next
  case (Some p)
  then obtain m t where p: "most_specific es k = Some (m, t)" by (cases p) simp
  then have "radix32tree_find E es k = Some t"
    using assms most_specific_Some [OF p] unfolding radix32_laws_def by blast
  with p show ?thesis by simp
qed

section \<open>Directives\<close>

lemma nets_ok_snoc:
  "nets_ok (es @ [(a, m, t)]) \<longleftrightarrow> nets_ok es \<and> prefix_mask m \<and> (\<forall>(a', m', t') \<in> set es. m' = m \<longrightarrow> a' AND m \<noteq> a AND m)"
  by (induction es rule: nets_ok.induct) auto

definition masks_ok :: "acl_env \<Rightarrow> bool" where
  "masks_ok E \<longleftrightarrow> (\<forall>arg a m. ptocidr E arg = Some (CIDR_IN a m) \<longrightarrow> prefix_mask (ntohl m))"

lemma addr_rule_v4:
  assumes "ngx_wasm_acl_addr_rule E cmd arg ctx = (True, ctx')" and "radix32_laws E" and "masks_ok E" and "nets_ok (addrs_v4 ctx)"
    and "cmd \<in> {''allow'', ''deny''}"
  shows "nets_ok (addrs_v4 ctx') \<and> addrs_v4 ctx' = addrs_v4 ctx @ rules4 E [(cmd, arg)]"
proof (cases "ptocidr E arg")
  case (Some c)
  show ?thesis
  proof (cases c)
    case (CIDR_IN a m)
    with assms Some have ok: "radix32tree_insert E (addrs_v4 ctx) (ntohl a) (ntohl m) = NGX_OK"
        "ctx' = ctx\<lparr>addrs_v4 := addrs_v4 ctx @ [(ntohl a, ntohl m, rule_type cmd)]\<rparr>"
      by (auto simp: ngx_wasm_acl_addr_rule_def Let_def split: if_splits)
    from ok(1) assms(2,4) have "\<forall>(a', m', t') \<in> set (addrs_v4 ctx). m' = ntohl m \<longrightarrow> a' AND ntohl m \<noteq> ntohl a AND ntohl m"
      unfolding radix32_laws_def by blast
    with assms Some CIDR_IN ok(2) show ?thesis by (auto simp: nets_ok_snoc masks_ok_def)
  qed (use assms Some in \<open>auto simp: ngx_wasm_acl_addr_rule_def Let_def split: if_splits\<close>)
qed (use assms in \<open>simp add: ngx_wasm_acl_addr_rule_def\<close>)

lemma host_rule_v4: "ngx_wasm_acl_host_rule E cmd arg ctx = (ok, ctx') \<Longrightarrow> addrs_v4 ctx' = addrs_v4 ctx"
  by (auto simp: ngx_wasm_acl_host_rule_def split: if_splits)

lemma acl_directives_v4:
  assumes "acl_directives E ds ctx = (True, ctx')" and "radix32_laws E" and "masks_ok E" and "nets_ok (addrs_v4 ctx)"
  shows "nets_ok (addrs_v4 ctx') \<and> addrs_v4 ctx' = addrs_v4 ctx @ rules4 E ds"
  using assms
proof (induction ds arbitrary: ctx)
  case (Cons d ds)
  obtain cmd arg where d: "d = (cmd, arg)" by (cases d)
  show ?case
  proof (cases "cmd \<in> {''allow'', ''deny''}")
    case True
    with Cons.prems d obtain ctx1 where r: "ngx_wasm_acl_addr_rule E cmd arg ctx = (True, ctx1)" "acl_directives E ds ctx1 = (True, ctx')"
      by (auto split: if_splits prod.splits)
    note a = addr_rule_v4 [OF r(1) Cons.prems(2-4) True]
    from Cons.IH [OF r(2) Cons.prems(2,3) conjunct1 [OF a]] conjunct2 [OF a] show ?thesis by (auto simp: d)
  next
    case False
    with Cons.prems d obtain ctx1 where r: "ngx_wasm_acl_host_rule E cmd arg ctx = (True, ctx1)" "acl_directives E ds ctx1 = (True, ctx')"
      by (auto split: if_splits prod.splits)
    from host_rule_v4 [OF r(1)] Cons.IH [OF r(2) Cons.prems(2,3)] Cons.prems(4) d False show ?thesis
      by (auto split: option.splits cidr.splits)
  qed
qed simp

text \<open>
  C33. A filter with an access control list of directives, before any name was resolved, may use an IPv4 address if and only if the most
  specific network of the directives \<open>allow\<close> and \<open>deny\<close> with the address in it is allowed. The order of the directives does not matter, and
  an address in no network is refused.
\<close>

theorem acl_most_specific_rule:
  assumes "ngx_wasm_acl_block E name ds acls = (True, acls')" and "ngx_wasm_acl_init E (last acls') = Some acl"
    and "radix32_laws E" and "masks_ok E" and none: "\<And>sa. \<not> cidr_match E sa []"
  shows "ngx_wasm_acl_check_addr E acl (AF_INET s port) =
     (if map_option snd (most_specific (rules4 E ds) (ntohl s)) = Some ACL_ALLOW then NGX_OK else NGX_DECLINED)"
proof -
  let ?ctx0 = "\<lparr>acl_name = name, addrs_v4 = [], addrs_v6 = [], hosts_arr = [], hosts_hash = []\<rparr>"
  obtain ctx where ctx: "acl_directives E ds ?ctx0 = (True, ctx)" and v4: "addrs_v4 (last acls') = addrs_v4 ctx"
    using assms(1) unfolding ngx_wasm_acl_block_def ngx_wasm_acl_ctx_init_def
    by (cases "acl_directives E ds ?ctx0") (auto split: if_splits option.splits)
  from acl_directives_v4 [OF ctx assms(3,4)] have t: "nets_ok (rules4 E ds)" "addrs_v4 ctx = rules4 E ds" by auto
  have "acl = \<lparr>acl_rules = last acls', recorded_addrs = []\<rparr>" using assms(2) by (simp add: ngx_wasm_acl_init_def split: if_splits)
  then show ?thesis
    using radix32_most_specific [OF assms(3) t(1)] t(2) v4 none
    by (auto simp: ngx_wasm_acl_check_addr_def split: option.splits acl_type.splits)
qed

section \<open>Recorded addresses\<close>

text \<open>\<open>ngx_cidr_match\<close>: an IPv6 address that is a mapped IPv4 address is compared as the latter.\<close>

definition v4_mapped :: "bytes \<Rightarrow> u32 option" where
  "v4_mapped p = (if take 12 p = replicate 10 0 @ [0xff, 0xff] then Some (from_le32 (drop 12 p)) else None)"

fun cidr_covers :: "cidr \<Rightarrow> sockaddr \<Rightarrow> bool" where
  "cidr_covers (CIDR_IN a m) (AF_INET s port) \<longleftrightarrow> s AND m = a"
| "cidr_covers (CIDR_IN a m) (AF_INET6 p port) \<longleftrightarrow> (case v4_mapped p of None \<Rightarrow> False | Some s \<Rightarrow> s AND m = a)"
| "cidr_covers (CIDR_IN6 a m) (AF_INET6 p port) \<longleftrightarrow> v4_mapped p = None \<and> map2 (AND) p m = a"
| "cidr_covers _ _ \<longleftrightarrow> False"

definition cidr_laws :: "acl_env \<Rightarrow> bool" where
  "cidr_laws E \<longleftrightarrow> (\<forall>sa cs. cidr_match E sa cs \<longleftrightarrow> (\<exists>c \<in> set cs. cidr_covers c sa))"

text \<open>An address that was recorded, or an IPv6 address that stands for it.\<close>

fun same_host :: "sockaddr \<Rightarrow> sockaddr \<Rightarrow> bool" where
  "same_host (AF_INET a port) (AF_INET b port') \<longleftrightarrow> a = b"
| "same_host (AF_INET a port) (AF_INET6 p port') \<longleftrightarrow> v4_mapped p = Some a"
| "same_host (AF_INET6 p port) (AF_INET6 q port') \<longleftrightarrow> p = q"
| "same_host _ _ \<longleftrightarrow> False"

lemma all_ones: "- 1 = (0xff :: byte)" "- 1 = (0xffffffff :: u32)"
  by (code_simp, code_simp)

lemma and_ff_bytes: "length p \<le> n \<Longrightarrow> map2 (AND) p (replicate n (0xff :: byte)) = p"
proof (induction p arbitrary: n)
  case (Cons b p)
  then obtain k where "n = Suc k" by (cases n) simp_all
  moreover have "b AND 0xff = b" using and.right_neutral [of b] all_ones(1) by simp
  ultimately show ?case using Cons by simp
qed simp

lemma recorded_covers:
  assumes "ngx_wasm_sockaddr_to_cidr sa' = Some c" and "cidr_covers c sa" and "\<And>p port. sa = AF_INET6 p port \<Longrightarrow> length p = 16"
  shows "same_host sa' sa"
proof -
  have ff: "s AND (0xffffffff :: u32) = s" for s using and.right_neutral [of s] all_ones(2) by simp
  show ?thesis
    using assms by (cases sa'; cases sa) (auto simp: ff and_ff_bytes split: option.splits)
qed

lemma add_addr_cases:
  assumes "ngx_wasm_acl_add_addr E sa acl = (rc, acl')"
  shows "acl_rules acl' = acl_rules acl" and "rc \<noteq> NGX_OK \<Longrightarrow> acl' = acl"
    and "rc = NGX_OK \<Longrightarrow> \<exists>c. ngx_wasm_sockaddr_to_cidr sa = Some c \<and> recorded_addrs acl' = recorded_addrs acl @ [c]"
  using assms by (auto simp: ngx_wasm_acl_add_addr_def split: if_splits option.splits)

section \<open>An instance\<close>

lemma nets_ok_mem: "nets_ok es \<Longrightarrow> (a, m, t) \<in> set es \<Longrightarrow> prefix_mask m"
  by (induction es rule: nets_ok.induct) auto

lemma nets_ok_unique:
  "nets_ok es \<Longrightarrow> (a, m, t) \<in> set es \<Longrightarrow> (a', m, t') \<in> set es \<Longrightarrow> a AND m = a' AND m \<Longrightarrow> (a, t) = (a', t')"
  by (induction es rule: nets_ok.induct) (auto split: prod.splits)

text \<open>Trees as lists, with networks of two texts.\<close>

definition demo_acl_env :: acl_env where
  "demo_acl_env = \<lparr>
     radix32tree_insert = (\<lambda>es a m. if list_ex (\<lambda>(a', m', t). m' = m \<and> a' AND m = a AND m) es then NGX_BUSY else NGX_OK),
     radix32tree_find = (\<lambda>es k. map_option snd (most_specific es k)),
     radix128tree_insert = (\<lambda>es a m. NGX_OK),
     radix128tree_find = (\<lambda>es p. None),
     cidr_match = (\<lambda>sa cs. list_ex (\<lambda>c. cidr_covers c sa) cs),
     hash_add_key = (\<lambda>ks h t w. NGX_OK),
     hash_init_ok = (\<lambda>ks. True),
     hash_find_combined = (\<lambda>ks n. map_option fst (map_of ks n)),
     ptocidr = (\<lambda>s. if s = bytes_of_string ''10.0.0.0/8'' then Some (CIDR_IN (ntohl 0x0a000000) (ntohl 0xff000000))
        else if s = bytes_of_string ''10.1.0.0/16'' then Some (CIDR_IN (ntohl 0x0a010000) (ntohl 0xffff0000)) else None),
     inet_addr = (\<lambda>s. 0xffffffff),
     inet6_addr = (\<lambda>s. None),
     strlow = (\<lambda>s. s),
     radix_create_ok = True,
     acl_alloc = (\<lambda>n. True),
     acl_push = (\<lambda>n. True)\<rparr>"

lemma demo_radix_laws: "radix32_laws demo_acl_env"
proof -
  have "map_option snd (most_specific es k) = Some t"
    if es: "nets_ok es" "(a, m, t) \<in> set es" "in_net k a m" and max: "\<forall>(a', m', t') \<in> set es. in_net k a' m' \<longrightarrow> m' \<le> m" for es k a m t
  proof (cases "most_specific es k")
    case None
    with es most_specific_None show ?thesis by blast
  next
    case (Some p)
    then obtain m2 t2 where p: "most_specific es k = Some (m2, t2)" by (cases p) simp
    from most_specific_Some [OF p] es max obtain a2 where a2: "(a2, m2, t2) \<in> set es" "in_net k a2 m2" "m2 = m" by force
    with es have "a AND m = a2 AND m" by (simp add: in_net_def)
    with nets_ok_unique [OF es(1,2)] a2 p show ?thesis by auto
  qed
  moreover have "\<exists>a m. (a, m, t) \<in> set es \<and> in_net k a m \<and> (\<forall>(a', m', t') \<in> set es. in_net k a' m' \<longrightarrow> m' \<le> m)"
    if "map_option snd (most_specific es k) = Some t" for es k t
    using that most_specific_Some [of es k] by fastforce
  ultimately show ?thesis
    unfolding radix32_laws_def demo_acl_env_def by (auto simp: list_ex_iff split: prod.splits)
qed

lemma demo_masks: "masks_ok demo_acl_env"
  unfolding masks_ok_def
proof (intro allI impI)
  fix arg a m assume "ptocidr demo_acl_env arg = Some (CIDR_IN a m)"
  then have "m = ntohl 0xff000000 \<or> m = ntohl 0xffff0000" by (simp add: demo_acl_env_def split: if_splits)
  moreover have "prefix_mask (ntohl (ntohl 0xff000000))" "prefix_mask (ntohl (ntohl 0xffff0000))" by (code_simp, code_simp)
  ultimately show "prefix_mask (ntohl m)" by blast
qed

lemma demo_cidr_laws: "cidr_laws demo_acl_env"
  by (simp add: cidr_laws_def demo_acl_env_def list_ex_iff)

definition demo_directives :: "(string \<times> bytes) list" where
  "demo_directives = [(''deny'', bytes_of_string ''10.0.0.0/8''), (''allow'', bytes_of_string ''10.1.0.0/16'')]"

definition demo_acls :: "acl_ctx list" where
  "demo_acls = snd (ngx_wasm_acl_block demo_acl_env [97] demo_directives [])"

definition demo_acl :: acl where
  "demo_acl = \<lparr>acl_rules = last demo_acls, recorded_addrs = []\<rparr>"

theorem acl_most_specific_rule_witness:
  "ngx_wasm_acl_check_addr demo_acl_env demo_acl (AF_INET (ntohl 0x0a010203) 80) = NGX_OK \<and>
   ngx_wasm_acl_check_addr demo_acl_env demo_acl (AF_INET (ntohl 0x0a020001) 80) = NGX_DECLINED"
proof -
  have b: "ngx_wasm_acl_block demo_acl_env [97] demo_directives [] = (True, demo_acls)"
  proof -
    have "fst (ngx_wasm_acl_block demo_acl_env [97] demo_directives [])" by code_simp
    then show ?thesis by (simp add: demo_acls_def prod_eq_iff)
  qed
  have i: "ngx_wasm_acl_init demo_acl_env (last demo_acls) = Some demo_acl"
    by (simp add: ngx_wasm_acl_init_def demo_acl_env_def demo_acl_def)
  have none: "\<And>sa. \<not> cidr_match demo_acl_env sa []" by (simp add: demo_acl_env_def)
  note rule = acl_most_specific_rule [OF b i demo_radix_laws demo_masks none]
  have "map_option snd (most_specific (rules4 demo_acl_env demo_directives) (ntohl (ntohl 0x0a010203))) = Some ACL_ALLOW"
    "map_option snd (most_specific (rules4 demo_acl_env demo_directives) (ntohl (ntohl 0x0a020001))) = Some ACL_DENY"
    by (code_simp, code_simp)
  then show ?thesis by (auto simp: rule)
qed

end
