(* ===== verification/Http_Upstream_Props.thy ===== *)
theory Http_Upstream_Props
  imports Http_Upstream Acl_Props
begin

text \<open>What filters can reach through the choice of upstream servers.\<close>

section \<open>Runs of the balancer\<close>

text \<open>
  The calls that nginx makes on the balancer for a request: the start, the choice of a server, the end of an attempt and the question
  whether there is to be another one, in any order.
\<close>

inductive ups_reach :: "'w ups_env \<Rightarrow> 'w ups \<Rightarrow> 'w ups \<Rightarrow> bool" for E st0 where
  ups_start: "ups_reach E st0 st0"
| ups_init: "ups_reach E st0 st \<Longrightarrow> ngx_http_wasm_upstream_init_peer E st = Some (rc, st') \<Longrightarrow> ups_reach E st0 st'"
| ups_get: "ups_reach E st0 st \<Longrightarrow> ngx_http_wasm_upstream_get_peer E st = Some (rc, st') \<Longrightarrow> ups_reach E st0 st'"
| ups_free: "ups_reach E st0 st \<Longrightarrow> ngx_http_wasm_upstream_free_peer E n st = Some st' \<Longrightarrow> ups_reach E st0 st'"
| ups_next: "ups_reach E st0 st \<Longrightarrow> ngx_http_wasm_upstream_test_next E d n st = Some (rc, st') \<Longrightarrow> ups_reach E st0 st'"

text \<open>
  What filters have an influence on, and what is relied on of nginx: the balancer that is wrapped, the flushing of a response and the
  creation of a request do not change it.
\<close>

type_synonym ups_view = "peer_data option \<times> (nat \<Rightarrow> acl option) \<times> upstream_conf option"

definition view :: "'w ups \<Rightarrow> ups_view" where
  "view st = (u_up st, u_acl st, u_conf st)"

definition balancer_laws :: "'w ups_env \<Rightarrow> bool" where
  "balancer_laws E \<longleftrightarrow> (\<forall>st n. view (snd (original_init_peer E st)) = view st \<and> view (snd (original_get_peer E st)) = view st \<and>
     view (original_free_peer E n st) = view st \<and> view (flush_local_response E st) = view st \<and> view (snd (create_request E st)) = view st)"

lemma balancer_lawsD:
  assumes "balancer_laws E"
  shows "original_init_peer E st = (rc, st') \<Longrightarrow> view st' = view st" and "original_get_peer E st = (rc, st') \<Longrightarrow> view st' = view st"
    and "view (original_free_peer E n st) = view st" and "view (flush_local_response E st) = view st"
    and "create_request E st = (rc, st') \<Longrightarrow> view st' = view st"
  using assms unfolding balancer_laws_def by (metis snd_conv)+

lemma view_simps [simp]:
  "view (st\<lparr>u_peer := p\<rparr>) = view st" "view (st\<lparr>u_headers_modified := b\<rparr>) = view st" "view (st\<lparr>u_phase := ph\<rparr>) = view st"
  "view (st\<lparr>u_step := s\<rparr>) = view st" "view (st\<lparr>u_last_completed := s\<rparr>) = view st" "view (st\<lparr>pc_tries := n\<rparr>) = view st"
  "view (st\<lparr>u_upstream_header_sent := b\<rparr>) = view st" "view (reset_request_bufs st) = view st" "view (use_selected up st) = view st"
  "view (st\<lparr>u_up := x\<rparr>) = (x, snd (view st))" "view (st\<lparr>u_mem := m\<rparr>) = view st" "view (st\<lparr>u_wasm_handlers := b\<rparr>) = view st"
  by (simp_all add: view_def reset_request_bufs_def use_selected_def Let_def)

lemma use_selected_fields: "u_up (use_selected up st) = u_up st" "pc_sockaddr (use_selected up st) = up_sockaddr up"
  by (simp_all add: use_selected_def Let_def)

text \<open>The filters make no other calls than these.\<close>

definition calls_only :: "(upstream_call \<Rightarrow> bool) \<Rightarrow> 'w ups_env \<Rightarrow> bool" where
  "calls_only allowed E \<longleftrightarrow> (\<forall>s st. list_all allowed (snd (filters_run E s st)))"

text \<open>
  An invariant of what the filters influence: kept by the calls they make and by what the balancer does with the data of the peer. It then
  holds throughout.
\<close>

locale ups_invariant =
  fixes E :: "'w ups_env" and allowed :: "upstream_call \<Rightarrow> bool" and I :: "ups_view \<Rightarrow> bool"
  assumes call: "allowed c \<Longrightarrow> run_upstream_call E c st = Some (ret, st') \<Longrightarrow> I (view st) \<Longrightarrow> I (view st')"
    and fresh: "I (up, v) \<Longrightarrow> I (Some fresh_peer, v)"
    and ended: "I (Some p, v) \<Longrightarrow> I (Some (p\<lparr>last_peer_state := s, up_sockaddr := None, up_socklen := 0\<rparr>), v)"
    and asked: "I (Some p, v) \<Longrightarrow> I (Some (p\<lparr>accept_resp := False, last_status := n\<rparr>), v)"
begin

lemma calls: "list_all allowed cs \<Longrightarrow> upstream_calls E cs st = Some st' \<Longrightarrow> I (view st) \<Longrightarrow> I (view st')"
proof (induction cs arbitrary: st)
  case (Cons c cs)
  then show ?case by (auto split: bind_splits dest: call)
qed simp

lemma resume:
  assumes "ngx_proxy_wasm_upstream_resume E s st = Some (rc, st')" and "I (view st)" and only: "calls_only allowed E"
  shows "I (view st')"
proof (cases "u_pwctx st")
  case True
  let ?st1 = "st\<lparr>u_phase := BACKGROUND_PHASE, u_step := s\<rparr>"
  obtain rc1 cs where f: "filters_run E s ?st1 = (rc1, cs)" by (cases "filters_run E s ?st1")
  with assms(1) True obtain st2 where "upstream_calls E cs ?st1 = Some st2"
      "st' = st2\<lparr>u_step := u_step st, u_last_completed := u_last_completed st\<rparr>"
    by (auto simp: ngx_proxy_wasm_upstream_resume_def split: bind_splits)
  moreover have "list_all allowed cs" using only f unfolding calls_only_def by (metis snd_conv)
  ultimately show ?thesis using calls [of cs ?st1 st2] assms(2) by simp
qed (use assms in \<open>simp add: ngx_proxy_wasm_upstream_resume_def\<close>)

lemma init_peer:
  assumes "ngx_http_wasm_upstream_init_peer E st = Some (rc, st')" and "I (view st)" and laws: "balancer_laws E"
  shows "I (view st')"
proof -
  obtain rc1 st1 where o1: "original_init_peer E st = (rc1, st1)" by (cases "original_init_peer E st")
  note v = balancer_lawsD(1) [OF laws o1]
  have "st' = st \<or> st' = st1 \<or> view st' = (Some fresh_peer, snd (view st1))"
    using assms(1) o1 unfolding ngx_http_wasm_upstream_init_peer_def
    by (auto simp: Let_def split: if_splits ngx_rc.splits bind_splits)
  with v assms(2) fresh [of "fst (view st)" "snd (view st)"] show ?thesis by auto
qed

text \<open>A server that is used was chosen by the balancer of nginx or is the one in the data of the peer.\<close>

definition chosen :: "ngx_rc \<Rightarrow> 'w ups \<Rightarrow> bool" where
  "chosen rc st \<longleftrightarrow> rc \<noteq> NGX_OK \<or> (\<exists>st2. original_get_peer E st2 = (rc, st)) \<or>
     (\<exists>up sa. u_up st = Some up \<and> up_sockaddr up = Some sa \<and> pc_sockaddr st = Some sa)"

lemma get_peer_selected:
  assumes "get_peer_selected E st = Some (rc, st')" and "I (view st)" and laws: "balancer_laws E"
  shows "I (view st') \<and> chosen rc st'"
proof (cases "u_local_resp_status st = 0")
  case False
  with assms(1) have "rc = NGX_ERROR" "view st' = view (flush_local_response E st)" by (auto simp: get_peer_selected_def Let_def)
  with balancer_lawsD(4) [OF laws, of st] assms(2) show ?thesis by (simp add: chosen_def)
next
  case True
  obtain rc1 st1 where c: "(if u_headers_modified st then create_request E (reset_request_bufs st) else (NGX_OK, st)) = (rc1, st1)"
    by (meson surj_pair)
  then have v: "view st1 = view st" using balancer_lawsD(5) [OF laws, of "reset_request_bufs st"] by (auto split: if_splits)
  show ?thesis
  proof (cases "rc1 = NGX_OK")
    case False
    with True c assms(1) have "rc = NGX_ERROR" "st' = st1" by (auto simp: get_peer_selected_def)
    with v assms(2) show ?thesis by (simp add: chosen_def)
  next
    case ok: True
    with True c assms(1) obtain up where up: "u_up st1 = Some up"
        "(if selected up then Some (NGX_OK, use_selected up st1) else Some (original_get_peer E st1)) = Some (rc, st')"
      by (auto simp: get_peer_selected_def split: bind_splits)
    show ?thesis
    proof (cases "selected up")
      case True
      with up have "st' = use_selected up st1" by simp
      with True up(1) v assms(2) show ?thesis by (auto simp: chosen_def use_selected_fields)
    next
      case False
      with up have o1: "original_get_peer E st1 = (rc, st')" by (auto split: if_splits)
      with balancer_lawsD(2) [OF laws o1] v assms(2) show ?thesis by (auto simp: chosen_def)
    qed
  qed
qed

lemma get_peer:
  assumes "ngx_http_wasm_upstream_get_peer E st = Some (rc, st')" and "I (view st)" and laws: "balancer_laws E"
    and only: "calls_only allowed E"
  shows "I (view st') \<and> chosen rc st'"
proof (cases "wasm_rctx E (u_world st) = NGX_OK")
  case True
  let ?st0 = "st\<lparr>u_headers_modified := False, u_peer := Wasm_peer\<rparr>"
  from True assms(1) obtain rc1 st1 where r: "ngx_proxy_wasm_upstream_resume E STEP_UPSTREAM_SELECT ?st0 = Some (rc1, st1)"
      "(if rc_failed rc1 then Some (NGX_ERROR, st1\<lparr>u_peer := u_peer st\<rparr>) else get_peer_selected E (st1\<lparr>u_peer := u_peer st\<rparr>)) = Some (rc, st')"
    by (auto simp: ngx_http_wasm_upstream_get_peer_def Let_def split: bind_splits)
  from resume [OF r(1) _ only] assms(2) have "I (view (st1\<lparr>u_peer := u_peer st\<rparr>))" by simp
  with r(2) laws get_peer_selected [of "st1\<lparr>u_peer := u_peer st\<rparr>" rc st'] show ?thesis by (auto simp: chosen_def split: if_splits)
next
  case False
  with assms(1) consider "original_get_peer E st = (rc, st')" | "st' = st" "rc = NGX_ERROR"
    by (auto simp: ngx_http_wasm_upstream_get_peer_def split: ngx_rc.splits)
  then show ?thesis
  proof cases
    case 1
    with balancer_lawsD(2) [OF laws 1] assms(2) show ?thesis by (auto simp: chosen_def)
  qed (use assms in \<open>simp add: chosen_def\<close>)
qed

lemma free_peer:
  assumes "ngx_http_wasm_upstream_free_peer E n st = Some st'" and "I (view st)" and laws: "balancer_laws E"
    and only: "calls_only allowed E"
  shows "I (view st')"
proof -
  from assms(1) obtain up where up: "u_up st = Some up"
    by (cases "u_up st") (simp_all add: ngx_http_wasm_upstream_free_peer_def)
  then have v: "view st = (Some up, snd (view st))" by (simp add: view_def)
  show ?thesis
  proof (cases "selected up \<and> wasm_rctx E (u_world st) = NGX_OK")
    case True
    let ?st1 = "\<lambda>ps. st\<lparr>u_up := Some (up\<lparr>last_peer_state := ps, up_sockaddr := None, up_socklen := 0\<rparr>), pc_tries := pc_tries st - 1,
      u_peer := Wasm_peer\<rparr>"
    from True assms(1) up obtain ps rc st1 where r: "ngx_proxy_wasm_upstream_resume E STEP_UPSTREAM_INFO (?st1 ps) = Some (rc, st1)"
        "st' = st1\<lparr>u_peer := u_peer st\<rparr>"
      by (cases "peer_state E n (pc_tries st - 1) st") (auto simp: ngx_http_wasm_upstream_free_peer_def split: bind_splits)
    have "I (view (?st1 ps))" using ended [of up "snd (view st)"] v assms(2) by simp
    with resume [OF r(1) _ only] r(2) show ?thesis by simp
  next
    case False
    with assms(1) up have "st' = st \<or> st' = original_free_peer E n st"
      by (auto simp: ngx_http_wasm_upstream_free_peer_def split: if_splits)
    with balancer_lawsD(3) [OF laws] assms(2) show ?thesis by auto
  qed
qed

lemma test_next:
  assumes "ngx_http_wasm_upstream_test_next E d n st = Some (rc, st')" and "I (view st)" and only: "calls_only allowed E"
  shows "I (view st')"
proof -
  consider "st' = st" | up rc st1 where "u_up st = Some up" "ngx_proxy_wasm_upstream_resume E STEP_NEXT_UPSTREAM
      (st\<lparr>u_up := Some (up\<lparr>accept_resp := False, last_status := n\<rparr>), u_peer := Wasm_peer\<rparr>) = Some (rc, st1)" "st' = st1\<lparr>u_peer := d\<rparr>"
    using assms(1) by (auto simp: ngx_http_wasm_upstream_test_next_def split: if_splits option.splits bind_splits)
  then show ?thesis
  proof cases
    case 2
    have "view st = (Some up, snd (view st))" using 2(1) by (simp add: view_def)
    with asked [of up "snd (view st)"] assms(2) resume [OF 2(2) _ only] 2(3) show ?thesis by simp
  qed (use assms in simp)
qed

lemma reach: "ups_reach E st0 st \<Longrightarrow> balancer_laws E \<Longrightarrow> calls_only allowed E \<Longrightarrow> I (view st0) \<Longrightarrow> I (view st)"
  by (induction rule: ups_reach.induct) (auto dest: init_peer get_peer free_peer test_next)

end

section \<open>Addresses that are permitted\<close>

text \<open>
  An address that a filter may use: its list permits the address, or it is a filter without a list, which may use every address
  (\<open>ngx_http_wasm_set_upstream\<close> makes no check then). \<open>permitted\<close> is about the filters of the set \<open>F\<close>.
\<close>

definition may_use :: "'w ups_env \<Rightarrow> acl option \<Rightarrow> sockaddr \<Rightarrow> bool" where
  "may_use E acl sa \<longleftrightarrow> (case acl of None \<Rightarrow> True | Some l \<Rightarrow> ngx_wasm_acl_check_addr (ue_acl E) l sa = NGX_OK)"

definition permitted :: "'w ups_env \<Rightarrow> (nat \<Rightarrow> acl option) \<Rightarrow> nat set \<Rightarrow> sockaddr \<Rightarrow> bool" where
  "permitted E acls F sa \<longleftrightarrow> (\<exists>f \<in> F. may_use E (acls f) sa)"

text \<open>Only the filters of \<open>F\<close> set the upstream.\<close>

definition set_by :: "nat set \<Rightarrow> upstream_call \<Rightarrow> bool" where
  "set_by F c = (case c of Set_upstream f a al p t s sl \<Rightarrow> f \<in> F | _ \<Rightarrow> True)"

definition up_permitted :: "'w ups_env \<Rightarrow> (nat \<Rightarrow> acl option) \<Rightarrow> nat set \<Rightarrow> ups_view \<Rightarrow> bool" where
  "up_permitted E acls F v = (case v of (up, a, c) \<Rightarrow>
     a = acls \<and> (\<forall>p sa. up = Some p \<longrightarrow> up_sockaddr p = Some sa \<longrightarrow> permitted E acls F sa))"

lemma set_upstream_sockaddr:
  assumes "ngx_http_wasm_set_upstream E acl addr port tls sni up = (rc, up')"
  shows "original_conf up' = original_conf up" and "up_sockaddr up' = up_sockaddr up \<or>
    (\<exists>sa. up_sockaddr up' = Some sa \<and> may_use E acl sa)"
  using assms unfolding ngx_http_wasm_set_upstream_def may_use_def by (auto simp: Let_def split: if_splits option.splits)

text \<open>What the calls of filters change.\<close>

lemma get_timeouts_view:
  assumes "ngx_proxy_wasm_hfuncs_proxy_get_upstream_timeouts con snt rd st = Some (ret, st')"
  shows "view st' = view st"
proof -
  show ?thesis
    using assms unfolding ngx_proxy_wasm_hfuncs_proxy_get_upstream_timeouts_def prod.case
    by (cases "ngx_wavm_memory_lift (u_mem st) con 4 1"; cases "ngx_wavm_memory_lift (u_mem st) snt 4 1";
        cases "ngx_wavm_memory_lift (u_mem st) rd 4 1")
      (auto simp: bind_eq_Some_conv split: option.splits if_splits)
qed

lemma call_cases:
  assumes "run_upstream_call E c st = Some (ret, st')"
  obtains "view st' = view st"
  | f addr port tls sni up rc up1 where "\<And>F. set_by F c \<Longrightarrow> f \<in> F" "u_up st = Some up" "ngx_http_wasm_set_upstream E (u_acl st f) addr port tls sni up = (rc, up1)"
      "view st' = (Some up1, snd (view st))"
  | up where "u_up st = Some up" "view st' = (Some (up\<lparr>accept_resp := True\<rparr>), snd (view st))"
  | con snt rd rc where "ngx_http_wasm_set_upstream_timeouts E con snt rd st = Some (rc, st')"
proof (cases c)
  case (Set_upstream f a al p t s sl)
  with assms have "st' = st \<or> (\<exists>addr port tls sni up rc up1. u_up st = Some up \<and>
      ngx_http_wasm_set_upstream E (u_acl st f) addr port tls sni up = (rc, up1) \<and> view st' = (Some up1, snd (view st)))"
    by (auto simp: ngx_proxy_wasm_hfuncs_proxy_set_upstream_def Let_def split: if_splits option.splits prod.splits bind_splits)
  moreover have "set_by F c \<Longrightarrow> f \<in> F" for F using Set_upstream by (simp add: set_by_def)
  ultimately show thesis using that(1,2) by blast
next
  case Accept_response
  with assms have "st' = st \<or> (\<exists>up. u_up st = Some up \<and> view st' = (Some (up\<lparr>accept_resp := True\<rparr>), snd (view st)))"
    by (auto simp: ngx_proxy_wasm_hfuncs_proxy_accept_upstream_response_def split: if_splits)
  with that(1,3) show thesis by blast
next
  case (Get_timeouts c s r)
  with assms get_timeouts_view that(1) show thesis by (simp, blast)
next
  case (Set_timeouts c s r)
  have "st' = st \<or> (\<exists>con snt rd rc. ngx_http_wasm_set_upstream_timeouts E con snt rd st = Some (rc, st'))"
  proof (cases "ngx_http_wasm_set_upstream_timeouts E (ucast c) (ucast s) (ucast r) st")
    case None
    with assms Set_timeouts show ?thesis by (simp add: ngx_proxy_wasm_hfuncs_proxy_set_upstream_timeouts_def split: if_splits)
  next
    case (Some x)
    obtain rc st1 where x: "x = (rc, st1)" by (cases x)
    with assms Set_timeouts Some have "st' = st \<or> st' = st1"
      by (auto simp: ngx_proxy_wasm_hfuncs_proxy_set_upstream_timeouts_def split: if_splits)
    with Some x show ?thesis by blast
  qed
  with that(1,4) show thesis by blast
qed

lemma set_timeouts_view:
  assumes "ngx_http_wasm_set_upstream_timeouts E con snt rd st = Some (rc, st')"
  obtains "view st' = view st"
  | up cur orig where "u_up st = Some up" "u_conf st = Some cur" "orig = (case original_conf up of Some c \<Rightarrow> c | None \<Rightarrow> cur)"
     "view st' = (Some (up\<lparr>original_conf := Some orig\<rparr>), u_acl st, Some (limit_timeouts con snt rd orig cur))"
proof -
  have "st' = st \<or> (\<exists>up cur. u_up st = Some up \<and> u_conf st = Some cur \<and>
     view st' = (Some (up\<lparr>original_conf := Some (case original_conf up of Some c \<Rightarrow> c | None \<Rightarrow> cur)\<rparr>), u_acl st,
       Some (limit_timeouts con snt rd (case original_conf up of Some c \<Rightarrow> c | None \<Rightarrow> cur) cur)))"
    using assms unfolding ngx_http_wasm_set_upstream_timeouts_def
    by (auto simp: view_def bind_eq_Some_conv Let_def split: if_splits)
  with that show thesis by blast
qed

text \<open>The addresses of the peer that the calls leave are permitted.\<close>

lemma permitted_call:
  assumes "run_upstream_call E c st = Some (ret, st')" and "up_permitted E acls F (view st)" and "set_by F c"
  shows "up_permitted E acls F (view st')"
  using assms(1)
proof (cases rule: call_cases)
  case (2 f addr port tls sni up rc up1)
  have "up_sockaddr up1 = up_sockaddr up \<or> (\<exists>sa. up_sockaddr up1 = Some sa \<and> permitted E (u_acl st) F sa)"
    using set_upstream_sockaddr(2) [OF 2(3)] 2(1) [OF assms(3)] unfolding permitted_def by blast
  with 2 assms(2) show ?thesis by (auto simp: up_permitted_def view_def)
next
  case (4 con snt rd rc)
  then show ?thesis
    by (cases rule: set_timeouts_view) (use assms(2) in \<open>auto simp: up_permitted_def view_def\<close>)
qed (use assms(2) in \<open>auto simp: up_permitted_def view_def\<close>)

interpretation permitted_inv: ups_invariant E "set_by F" "up_permitted E acls F" for E :: "'w ups_env" and acls F
proof
  fix c and st st' :: "'w ups" and ret
  assume "set_by F c" and "run_upstream_call E c st = Some (ret, st')" and "up_permitted E acls F (view st)"
  then show "up_permitted E acls F (view st')" using permitted_call by blast
qed (auto simp: up_permitted_def fresh_peer_def)

text \<open>
  C34. Whatever calls the filters of a request make, in whatever order nginx starts the balancer, asks it for a server and ends attempts: let \<open>F\<close>
  be the filters that set the upstream. When a server is to be used, either the balancer of nginx chose it, or a filter of \<open>F\<close>
  may use its address: its own access control list permits the address, or that filter has no list at all. With a single filter that sets the upstream, this
  is that filter's list; and when all filters of \<open>F\<close> have lists, an address that all these lists refuse is never used for them.
\<close>

theorem upstream_permitted:
  assumes "ups_reach E st0 st" and "u_up st0 = None" and "balancer_laws E" and "calls_only (set_by F) E"
    and "ngx_http_wasm_upstream_get_peer E st = Some (NGX_OK, st')"
  shows "(\<exists>st2. original_get_peer E st2 = (NGX_OK, st')) \<or>
    (\<exists>sa. pc_sockaddr st' = Some sa \<and>
      (\<exists>f \<in> F. case u_acl st0 f of None \<Rightarrow> True | Some l \<Rightarrow> ngx_wasm_acl_check_addr (ue_acl E) l sa = NGX_OK))"
proof -
  have "up_permitted E (u_acl st0) F (view st0)" using assms(2) by (simp add: up_permitted_def view_def)
  then have "up_permitted E (u_acl st0) F (view st)" by (rule permitted_inv.reach [OF assms(1,3,4)])
  from permitted_inv.get_peer [OF assms(5) this assms(3,4)]
  have "(\<exists>st2. original_get_peer E st2 = (NGX_OK, st')) \<or> (\<exists>sa. pc_sockaddr st' = Some sa \<and> permitted E (u_acl st0) F sa)"
    unfolding permitted_inv.chosen_def by (auto simp: up_permitted_def view_def)
  then show ?thesis unfolding permitted_def may_use_def .
qed

section \<open>Timeouts\<close>

definition conf_le :: "upstream_conf \<Rightarrow> upstream_conf \<Rightarrow> bool" where
  "conf_le c c0 \<longleftrightarrow> connect_timeout c \<le> connect_timeout c0 \<and> send_timeout c \<le> send_timeout c0 \<and> read_timeout c \<le> read_timeout c0"

definition conf_within :: "upstream_conf \<Rightarrow> ups_view \<Rightarrow> bool" where
  "conf_within c0 v = (case v of (up, a, c) \<Rightarrow> (\<exists>c1. c = Some c1 \<and> conf_le c1 c0) \<and>
     (\<forall>p orig. up = Some p \<longrightarrow> original_conf p = Some orig \<longrightarrow> conf_le orig c0))"

lemma limit_timeouts_le: "conf_le orig c0 \<Longrightarrow> conf_le cur c0 \<Longrightarrow> conf_le (limit_timeouts con snt rd orig cur) c0"
  by (auto simp: conf_le_def limit_timeouts_def min_le_iff_disj)

lemma conf_call:
  assumes "run_upstream_call E c st = Some (ret, st')" and "conf_within c0 (view st)"
  shows "conf_within c0 (view st')"
  using assms(1)
proof (cases rule: call_cases)
  case (2 f addr port tls sni up rc up1)
  with set_upstream_sockaddr(1) [OF 2(3)] assms(2) show ?thesis by (auto simp: conf_within_def view_def)
next
  case (4 con snt rd rc)
  then show ?thesis
  proof (cases rule: set_timeouts_view)
    case (2 up cur orig)
    then have "conf_le orig c0" "conf_le cur c0" using assms(2) by (auto simp: conf_within_def view_def split: option.splits)
    with limit_timeouts_le [of orig c0 cur] 2 show ?thesis by (auto simp: conf_within_def)
  qed (use assms(2) in simp)
qed (use assms(2) in \<open>auto simp: conf_within_def view_def\<close>)

interpretation conf_inv: ups_invariant E "\<lambda>_. True" "conf_within c0" for E :: "'w ups_env" and c0
proof
  fix c and st st' :: "'w ups" and ret
  assume "run_upstream_call E c st = Some (ret, st')" and "conf_within c0 (view st)"
  then show "conf_within c0 (view st')" by (rule conf_call)
qed (auto simp: conf_within_def fresh_peer_def)

text \<open>
  C35. Filters can only shorten the timeouts of the upstream: however often they set them, over all attempts of the request, each of the
  three timeouts is at most the one of the configuration.
\<close>

theorem upstream_timeouts_bounded:
  assumes "ups_reach E st0 st" and "u_up st0 = None" and "u_conf st0 = Some c0" and "balancer_laws E"
  shows "\<exists>c. u_conf st = Some c \<and> connect_timeout c \<le> connect_timeout c0 \<and> send_timeout c \<le> send_timeout c0 \<and>
    read_timeout c \<le> read_timeout c0"
proof -
  have "conf_within c0 (view st0)" using assms(2,3) by (simp add: conf_within_def view_def conf_le_def)
  then have "conf_within c0 (view st)" by (intro conf_inv.reach [OF assms(1,4)]) (simp_all add: calls_only_def list_all_iff)
  then show ?thesis by (auto simp: conf_within_def view_def conf_le_def)
qed

section \<open>The list of upstream servers\<close>

text \<open>What a guest reads of the list: an address with port, weight, maximum of failures, time of failure and whether it is a backup.\<close>

fun decode_addrs :: "nat \<Rightarrow> bytes \<Rightarrow> (bytes \<times> u32 list) list option" where
  "decode_addrs 0 bs = (if bs = [] then Some [] else None)"
| "decode_addrs (Suc n) bs =
     (let len = unat (from_le32 (take 4 bs)); r = drop 4 bs; f = drop len r in
      if length f < 20 then None
      else map_option (Cons (take len r, map (\<lambda>i. from_le32 (take 4 (drop (4 * i) f))) [0, 1, 2, 3, 4])) (decode_addrs n (drop 20 f)))"

definition decode_upstreams :: "bytes \<Rightarrow> (bytes \<times> u32 list) list option" where
  "decode_upstreams bs = decode_addrs (unat (from_le32 (take 4 bs))) (drop 4 bs)"

definition addr_entry :: "srv_env \<Rightarrow> ups_server \<Rightarrow> sockaddr \<Rightarrow> bytes \<times> u32 list" where
  "addr_entry V s a = (sock_ntop V a, [of_nat (inet_get_port V a), of_nat (srv_weight s), of_nat (srv_max_fails s), of_nat (srv_fail_timeout s),
     of_bool (srv_backup s)])"

definition entries :: "srv_env \<Rightarrow> ups_server list \<Rightarrow> (bytes \<times> u32 list) list" where
  "entries V ss = concat (map (\<lambda>s. if srv_down s then [] else map (addr_entry V s) (srv_addrs s)) ss)"

definition entry_image :: "bytes \<times> u32 list \<Rightarrow> bytes" where
  "entry_image e = le32 (of_nat (length (fst e))) @ fst e @ concat (map le32 (snd e))"

lemma put_addrs_eq:
  "snd st \<le> length (fst st) \<Longrightarrow> put_addrs V s as st = emit (concat (map entry_image (map (addr_entry V s) as))) st"
proof (induction as arbitrary: st)
  case Nil
  then show ?case by (simp add: emit_Nil)
next
  case (Cons a as)
  have seq: "(emit x st1 \<bind> (\<lambda>st2. emit y st2)) = emit (x @ y) st1" for x y and st1 :: "bytes \<times> nat"
    using emit_emit [where a = x and b = y and st = st1] by (cases "emit x st1") simp_all
  have last: "(emit x st1 \<bind> (\<lambda>st2. put_addrs V s as st2)) = emit (x @ concat (map entry_image (map (addr_entry V s) as))) st1"
    for x and st1 :: "bytes \<times> nat"
    unfolding seq [symmetric] using Cons.IH emit_bound [of x st1] by (cases "emit x st1") simp_all
  have e: "entry_image (addr_entry V s a) = le32 (of_nat (length (sock_ntop V a))) @ sock_ntop V a @ le32 (of_nat (inet_get_port V a)) @
      le32 (of_nat (srv_weight s)) @ le32 (of_nat (srv_max_fails s)) @ le32 (of_nat (srv_fail_timeout s)) @ le32 (of_bool (srv_backup s))"
    by (simp add: entry_image_def addr_entry_def)
  show ?case by (simp add: last seq e)
qed

lemma put_servers_eq:
  "snd st \<le> length (fst st) \<Longrightarrow> put_servers V ss st = emit (concat (map entry_image (entries V ss))) st"
proof (induction ss arbitrary: st)
  case Nil
  then show ?case by (simp add: emit_Nil entries_def)
next
  case (Cons s ss)
  let ?x = "concat (map entry_image (map (addr_entry V s) (srv_addrs s)))" and ?y = "concat (map entry_image (entries V ss))"
  show ?case
  proof (cases "srv_down s")
    case False
    have "(emit ?x st \<bind> (\<lambda>st2. put_servers V ss st2)) = (case emit ?x st of None \<Rightarrow> None | Some st1 \<Rightarrow> emit ?y st1)"
      using Cons.IH emit_bound [of ?x st] by (cases "emit ?x st") simp_all
    with False Cons.prems show ?thesis by (simp add: put_addrs_eq emit_emit entries_def)
  qed (use Cons in \<open>simp add: entries_def\<close>)
qed

lemma addrs_size_eq: "addrs_size V as = length (concat (map entry_image (map (addr_entry V s) as)))"
  by (induction as) (simp_all add: entry_image_def addr_entry_def)

lemma servers_size_eq: "servers_size V ss = (length (entries V ss), length (concat (map entry_image (entries V ss))))"
proof (induction ss)
  case (Cons s ss)
  then show ?case using addrs_size_eq [of V "srv_addrs s" s] by (simp add: entries_def)
qed (simp add: entries_def)

lemma decode_step:
  assumes "length ip < 2 ^ 32"
  shows "decode_addrs (Suc n) (le32 (of_nat (length ip)) @ ip @ le32 a @ le32 b @ le32 c @ le32 d @ le32 f @ r) =
    map_option (Cons (ip, [a, b, c, d, f])) (decode_addrs n r)"
proof -
  have "unat (of_nat (length ip) :: u32) = length ip" using assms by (simp add: unat_of_nat_u32)
  then show ?thesis by (simp add: Let_def)
qed

lemma decode_entries:
  assumes "\<forall>e \<in> set es. length (fst e) < 2 ^ 32 \<and> length (snd e) = 5"
  shows "decode_addrs (length es) (concat (map entry_image es)) = Some es"
  using assms
proof (induction es)
  case (Cons e es)
  obtain ip fs where e: "e = (ip, fs)" by (cases e)
  with Cons.prems have len: "length ip < 2 ^ 32" "length fs = 5" by simp_all
  from len(2) obtain a b c d f where fs: "fs = [a, b, c, d, f]"
    by (auto simp: length_Suc_conv numeral_eq_Suc)
  have im: "concat (map entry_image (e # es)) =
      le32 (of_nat (length ip)) @ ip @ le32 a @ le32 b @ le32 c @ le32 d @ le32 f @ concat (map entry_image es)"
    by (simp add: e fs entry_image_def)
  from Cons have "decode_addrs (length es) (concat (map entry_image es)) = Some es" by simp
  then show ?case unfolding im list.size decode_step [OF len(1)] add_Suc_right add_0_right by (simp add: decode_step [OF len(1)] e fs)
qed simp

text \<open>
  C36. The list of upstream servers that a guest reads has exactly the size that was allocated for it, and decoding it gives the addresses
  of the servers of the upstream of the filter that are not down, in order, each with its port and the parameters of its server.
\<close>

theorem get_upstreams_roundtrip:
  assumes "name \<noteq> []" and "find (\<lambda>(h, ss). length h = length name \<and> name_case_eq V h name) us = Some (h, ss)"
    and "srv_alloc V (4 + snd (servers_size V ss))" and "length (entries V ss) < 2 ^ 32"
    and "\<forall>s \<in> set ss. \<forall>a \<in> set (srv_addrs s). length (sock_ntop V a) < 2 ^ 32"
  shows "\<exists>buf. ngx_http_wasm_get_upstreams V (Some us) name = Some (NGX_OK, buf) \<and> length buf = 4 + snd (servers_size V ss) \<and>
    decode_upstreams buf = Some (entries V ss)"
proof -
  let ?x = "le32 (of_nat (length (entries V ss)))" and ?y = "concat (map entry_image (entries V ss))"
  let ?st = "(replicate (4 + length ?y) (0 :: byte), 0 :: nat)"
  have "(emit ?x ?st \<bind> (\<lambda>st. put_servers V ss st)) = emit (?x @ ?y) ?st"
    using emit_emit [where a = ?x and b = ?y and st = ?st] put_servers_eq [of _ V ss] emit_bound [of ?x ?st] by (cases "emit ?x ?st") simp_all
  also have "\<dots> = Some (?x @ ?y, 4 + length ?y)" by (simp add: emit_def buf_write_def)
  finally have w: "(emit ?x ?st \<bind> (\<lambda>st. put_servers V ss st)) = Some (?x @ ?y, 4 + length ?y)" .
  then obtain st1 where st1: "emit ?x ?st = Some st1" "put_servers V ss st1 = Some (?x @ ?y, 4 + length ?y)"
    by (auto simp: bind_eq_Some_conv)
  have g: "ngx_http_wasm_get_upstreams V (Some us) name = Some (NGX_OK, ?x @ ?y)"
    using assms st1 by (simp add: ngx_http_wasm_get_upstreams_def servers_size_eq)
  have "\<forall>e \<in> set (entries V ss). length (fst e) < 2 ^ 32 \<and> length (snd e) = 5"
    using assms(5) by (auto simp: entries_def addr_entry_def split: if_splits)
  from decode_entries [OF this] have "decode_upstreams (?x @ ?y) = Some (entries V ss)"
    using assms(4) by (simp add: decode_upstreams_def unat_of_nat_u32)
  with g show ?thesis by (simp add: servers_size_eq)
qed

section \<open>Contexts without a request\<close>

text \<open>
  A filter that calls one of these host functions in a context without a request (its root context, say in \<open>on_configure\<close> or
  \<open>on_tick\<close>) makes the worker follow a NULL pointer: the request is taken of the context before the step is checked.
\<close>

theorem upstream_calls_without_request:
  assumes "\<not> u_rctx st"
  shows "ngx_proxy_wasm_hfuncs_proxy_set_upstream E f addr addr_size port tls sni sni_size st = None \<and>
    ngx_proxy_wasm_hfuncs_proxy_accept_upstream_response st = None \<and>
    ngx_proxy_wasm_hfuncs_proxy_set_upstream_timeouts E con snt rd st = None"
  using assms
  by (simp add: ngx_proxy_wasm_hfuncs_proxy_set_upstream_def ngx_proxy_wasm_hfuncs_proxy_accept_upstream_response_def
    ngx_proxy_wasm_hfuncs_proxy_set_upstream_timeouts_def)

section \<open>The directive\<close>

text \<open>
  A directive that is accepted wraps the balancer that is configured, round robin by default, and is the only one of its block; the
  initialisation then keeps the handler of that balancer as the original one.
\<close>

lemma select_directive_wraps:
  assumes "ngx_http_wasm_upstream_select_directive atoi vm args c = (Conf_ok, c')"
    and "init b c' = (NGX_OK, c1)" and "original_init_upstream c' = Some b"
  shows "b = (case uc_init_upstream c of Some b \<Rightarrow> b | None \<Rightarrow> Round_robin)" "uc_init_upstream c' = Some Wasm_balancer"
    and "\<exists>c2. ngx_http_wasm_upstream_init init c' = Some (NGX_OK, c2) \<and> original_init c2 = uc_init c1 \<and> uc_init c2 = Some Wasm_balancer"
    and "fst (ngx_http_wasm_upstream_select_directive atoi' vm' args' c') \<noteq> Conf_ok"
proof -
  have c': "vm" "original_init_upstream c = None" "uc_init_upstream c' = Some Wasm_balancer"
      "original_init_upstream c' = Some (case uc_init_upstream c of Some b \<Rightarrow> b | None \<Rightarrow> Round_robin)"
    using assms(1) by (auto simp: ngx_http_wasm_upstream_select_directive_def Let_def split: list.splits if_splits option.splits)
  then show "b = (case uc_init_upstream c of Some b \<Rightarrow> b | None \<Rightarrow> Round_robin)" "uc_init_upstream c' = Some Wasm_balancer"
    using assms(3) by simp_all
  show "\<exists>c2. ngx_http_wasm_upstream_init init c' = Some (NGX_OK, c2) \<and> original_init c2 = uc_init c1 \<and> uc_init c2 = Some Wasm_balancer"
    using assms(2,3) by (simp add: ngx_http_wasm_upstream_init_def)
  show "fst (ngx_http_wasm_upstream_select_directive atoi' vm' args' c') \<noteq> Conf_ok"
    using assms(3) by (auto simp: ngx_http_wasm_upstream_select_directive_def Let_def split: list.splits option.splits)
qed

section \<open>An instance\<close>

text \<open>A balancer of nginx that does nothing, and a filter that selects an address and sets timeouts.\<close>

definition demo_ups_env :: "unit ups_env" where
  "demo_ups_env = \<lparr>ue_acl = demo_acl_env, ue_alloc = (\<lambda>n. True), ue_conf_alloc = True, wasm_rctx = (\<lambda>w. NGX_OK),
     parse_url = (\<lambda>u port. if u = bytes_of_string ''10.1.2.3'' then Some (AF_INET (ntohl 0x0a010203) port, 16, u) else None),
     upstream_max_tries = 2, next_errors = [], original_init_peer = (\<lambda>st. (NGX_OK, st)), original_get_peer = (\<lambda>st. (NGX_DECLINED, st)),
     original_free_peer = (\<lambda>n st. st), flush_local_response = (\<lambda>st. st), create_request = (\<lambda>st. (NGX_OK, st)),
     filters_run = (\<lambda>s st. (NGX_OK, [Set_timeouts 50 0 90000, Set_upstream 0 8 8 80 0 0 0]))\<rparr>"

definition demo_conf :: upstream_conf where
  "demo_conf = \<lparr>connect_timeout = 60000, send_timeout = 60000, read_timeout = 60000, next_upstream = 0, next_upstream_tries = 0\<rparr>"

definition demo_ups :: "unit ups" where
  "demo_ups = \<lparr>u_mem = replicate 8 0 @ bytes_of_string ''10.1.2.3'' @ replicate 16 0, u_rctx = True, u_upstream = True, u_up = None,
     u_peer = Other_peer 0, u_wasm_handlers = False, u_conf = Some demo_conf, u_state_status = None, u_pwctx = True, u_step = STEP_REQ_BODY,
     u_last_completed = STEP_REQ_BODY, u_phase = CONTENT_PHASE, u_acl = (\<lambda>f. Some demo_acl), u_headers_modified = False,
     u_local_resp_status = 0, u_header_sent = False, u_upstream_header_sent = False, u_request_bufs = [], u_request_body = None,
     u_freed_links = [], u_freed_data = [], pc_sockaddr = None, pc_socklen = 0, pc_name = [], pc_cached = False, pc_connection = False,
     pc_tries = 0, u_ssl = False, u_schema = [], u_ssl_name = (0, None), u_world = ()\<rparr>"

lemma demo_balancer_laws: "balancer_laws demo_ups_env"
  by (simp add: balancer_laws_def demo_ups_env_def)

definition demo_started :: "unit ups" where
  "demo_started = snd (the (ngx_http_wasm_upstream_init_peer demo_ups_env demo_ups))"

definition demo_connected :: "unit ups" where
  "demo_connected = snd (the (ngx_http_wasm_upstream_get_peer demo_ups_env demo_started))"

lemma demo_started: "ups_reach demo_ups_env demo_ups demo_started"
proof -
  have "ngx_http_wasm_upstream_init_peer demo_ups_env demo_ups \<noteq> None" by code_simp
  then obtain rc where "ngx_http_wasm_upstream_init_peer demo_ups_env demo_ups = Some (rc, demo_started)"
    by (auto simp: demo_started_def)
  from ups_init [OF ups_start this] show ?thesis .
qed

lemma demo_connected: "ngx_http_wasm_upstream_get_peer demo_ups_env demo_started = Some (NGX_OK, demo_connected)"
proof -
  have "map_option fst (ngx_http_wasm_upstream_get_peer demo_ups_env demo_started) = Some NGX_OK" by code_simp
  then show ?thesis by (auto simp: demo_connected_def)
qed

theorem upstream_permitted_witness:
  "pc_sockaddr demo_connected = Some (AF_INET (ntohl 0x0a010203) 80) \<and>
   ngx_wasm_acl_check_addr (ue_acl demo_ups_env) demo_acl (AF_INET (ntohl 0x0a010203) 80) = NGX_OK"
proof -
  have "u_up demo_ups = None" by (simp add: demo_ups_def)
  moreover have "calls_only (set_by {0}) demo_ups_env" by (simp add: calls_only_def demo_ups_env_def set_by_def)
  moreover have "u_acl demo_ups 0 = Some demo_acl" by (simp add: demo_ups_def)
  ultimately have "\<exists>sa. pc_sockaddr demo_connected = Some sa \<and> ngx_wasm_acl_check_addr (ue_acl demo_ups_env) demo_acl sa = NGX_OK"
    using upstream_permitted [OF demo_started _ demo_balancer_laws _ demo_connected, of "{0}"] by (simp add: demo_ups_env_def)
  moreover have "pc_sockaddr demo_connected = Some (AF_INET (ntohl 0x0a010203) 80)" by code_simp
  ultimately show ?thesis by simp
qed

theorem upstream_timeouts_bounded_witness:
  "\<exists>c. u_conf demo_connected = Some c \<and> connect_timeout c = 50 \<and> read_timeout c \<le> 60000"
proof -
  have r: "ups_reach demo_ups_env demo_ups demo_connected" by (rule ups_get [OF demo_started demo_connected])
  have "u_up demo_ups = None" "u_conf demo_ups = Some demo_conf" by (simp_all add: demo_ups_def)
  from upstream_timeouts_bounded [OF r this demo_balancer_laws] obtain c where
    c: "u_conf demo_connected = Some c" "read_timeout c \<le> read_timeout demo_conf" by blast
  moreover have "map_option connect_timeout (u_conf demo_connected) = Some 50" by code_simp
  ultimately show ?thesis by (simp add: demo_conf_def)
qed

definition demo_servers :: "(bytes \<times> ups_server list) list" where
  "demo_servers = [([97], [\<lparr>srv_down = True, srv_addrs = [AF_INET 1 80], srv_weight = 1, srv_max_fails = 1, srv_fail_timeout = 10, srv_backup = False\<rparr>,
     \<lparr>srv_down = False, srv_addrs = [AF_INET 2 80, AF_INET 3 81], srv_weight = 5, srv_max_fails = 1, srv_fail_timeout = 10, srv_backup = True\<rparr>])]"

definition demo_srv_env :: srv_env where
  "demo_srv_env = \<lparr>sock_ntop = (\<lambda>a. case a of AF_INET s p \<Rightarrow> le32 s | _ \<Rightarrow> []), inet_get_port = (\<lambda>a. case a of AF_INET s p \<Rightarrow> p | _ \<Rightarrow> 0),
     name_case_eq = (\<lambda>a b. a = b), srv_alloc = (\<lambda>n. True)\<rparr>"

theorem get_upstreams_roundtrip_witness:
  "\<exists>buf. ngx_http_wasm_get_upstreams demo_srv_env (Some demo_servers) [97] = Some (NGX_OK, buf) \<and> length buf = 60 \<and>
    decode_upstreams buf = Some [(le32 2, [80, 5, 1, 10, 1]), (le32 3, [81, 5, 1, 10, 1])]"
proof -
  let ?ss = "snd (hd demo_servers)"
  have f: "find (\<lambda>(h, ss). length h = length [97] \<and> name_case_eq demo_srv_env h [97]) demo_servers = Some ([97], ?ss)"
    by (simp add: demo_servers_def demo_srv_env_def)
  have a: "srv_alloc demo_srv_env (4 + snd (servers_size demo_srv_env ?ss))" by (simp add: demo_srv_env_def)
  have e: "entries demo_srv_env ?ss = [(le32 2, [80, 5, 1, 10, 1]), (le32 3, [81, 5, 1, 10, 1])]"
    by (simp add: entries_def demo_servers_def addr_entry_def demo_srv_env_def)
  have n: "length (entries demo_srv_env ?ss) < 2 ^ 32" by (simp add: e)
  have l: "\<forall>s \<in> set ?ss. \<forall>a \<in> set (srv_addrs s). length (sock_ntop demo_srv_env a) < 2 ^ 32"
    by (simp add: demo_servers_def demo_srv_env_def)
  have sz: "snd (servers_size demo_srv_env ?ss) = 56" by (simp add: demo_servers_def demo_srv_env_def)
  from get_upstreams_roundtrip [OF _ f a n l] show ?thesis by (simp add: sz e)
qed

theorem upstream_calls_without_request_witness:
  "ngx_proxy_wasm_hfuncs_proxy_set_upstream demo_ups_env 0 8 8 80 0 0 0 (demo_ups\<lparr>u_rctx := False, u_step := STEP_TICK\<rparr>) = None"
  using upstream_calls_without_request [of "demo_ups\<lparr>u_rctx := False, u_step := STEP_TICK\<rparr>" demo_ups_env 0 8 8 80 0 0 0] by simp

end
