(* ===== verification/Foreign_Call.thy ===== *)
theory Foreign_Call
  imports Acl Guest_Memory Proxy_Wasm_Instance
begin

text \<open>
  Foreign functions (src/src/common/proxy_wasm/ngx_proxy_wasm_foreign_call.c): a guest resolves a host name, and is called back when the
  resolver of nginx or that of Lua has an answer. Pending calls are operations of the context of the filter, which can be cancelled
  (src/src/common/proxy_wasm/ngx_proxy_wasm.c).
\<close>

section \<open>State\<close>

datatype foreign_function = FOREIGN_RESOLVE_LUA | FOREIGN_RESOLVE

record foreign_call =
  fc_code :: foreign_function
  fc_args_out :: "bytes option"

datatype dispatch_op = Http_call nat | Foreign nat

text \<open>
  A context of the resolver: the call it is for, its name as a slice of the memory of the guest, and the name that was asked for.
\<close>

record rslv_ctx =
  rs_call :: nat
  rs_off :: "nat option"
  rs_len :: u32
  rs_query :: bytes

text \<open>
  The context of a filter: \<open>f_calls\<close> are the calls that are allocated, \<open>f_ops\<close> the operations that are pending, and \<open>f_pending\<close> what the
  resolver works on. \<open>f_resumed\<close> counts how often the request was resumed.
\<close>

record 'g fctx =
  f_mem :: bytes
  f_world :: 'g
  f_acl :: "acl option"
  f_step :: pw_step
  f_phase :: ngx_phase
  f_action :: pw_action
  f_env :: env_state
  f_calls :: "nat \<rightharpoonup> foreign_call"
  f_next :: nat
  f_ops :: "dispatch_op list"
  f_pending :: "rslv_ctx list"
  f_cur :: "nat option"
  f_resumed :: nat

datatype answer = No_answer | Answer nat "sockaddr list" | Pending

text \<open>A call of a foreign function, with the arguments of the host function.\<close>

datatype fcall = Fcall u32 u32 u32 u32 u32 u32

text \<open>
  Used of nginx and of the guest: memory, the fake request outside of a request, a resolver, its answer (an error, an answer with a state
  and addresses, or none yet) and that of the resolver of Lua, a random number, free buffers, and the calls that the guest makes in a step.
  \<open>lua\<close> says whether the module is built with Lua.
\<close>

record 'g fc_env =
  fe_acl :: acl_env
  fe_alloc :: "nat \<Rightarrow> bool"
  fe_sock_alloc :: bool
  fe_rctx_ok :: bool
  fe_resolver_ok :: bool
  fe_resolve :: "bytes \<Rightarrow> answer"
  fe_lua_resolve :: "bytes \<Rightarrow> answer"
  fe_random :: nat
  fe_free_buf :: "nat \<Rightarrow> bool"
  fe_guest :: "pw_step \<Rightarrow> 'g fctx \<Rightarrow> fcall list"
  lua :: bool

section \<open>Answers of the resolver\<close>

text \<open>The length of an address and the address; an address that is neither IPv4 nor IPv6 does not come from a resolver.\<close>

fun addr_bytes :: "sockaddr \<Rightarrow> bytes" where
  "addr_bytes (AF_INET6 p port) = 16 # p"
| "addr_bytes (AF_INET a port) = 4 # le32 a"
| "addr_bytes (AF_UNIX p) = 4 # [0, 0, 0, 0]"

text \<open>The address of the answer, recorded in the access control list; a zero when there is none or it may not be used.\<close>

definition answer_bytes :: "'g fc_env \<Rightarrow> nat \<Rightarrow> sockaddr option \<Rightarrow> 'g fctx \<Rightarrow> bytes \<times> 'g fctx" where
  "answer_bytes E state sa st =
     (case (if state \<noteq> 0 then None else sa) of
        None \<Rightarrow> ([0], st)
      | Some a \<Rightarrow>
          (case f_acl st of
             None \<Rightarrow> (addr_bytes a, st)
           | Some l \<Rightarrow> (case ngx_wasm_acl_add_addr (fe_acl E) a l of (rc, l1) \<Rightarrow>
               if rc \<noteq> NGX_OK then ([0], st\<lparr>f_acl := Some l1\<rparr>) else (addr_bytes a, st\<lparr>f_acl := Some l1\<rparr>))))"

definition choose_addr :: "'g fc_env \<Rightarrow> sockaddr list \<Rightarrow> sockaddr option" where
  "choose_addr E addrs = (if addrs = [] then None else Some (addrs ! (if length addrs = 1 then 0 else fe_random E mod length addrs)))"

text \<open>
  What both handlers have in common: the arguments of the callback are the address and the name, read from the memory of the guest. The
  answer says whether there was a buffer for them.
\<close>

definition store_answer :: "'g fc_env \<Rightarrow> rslv_ctx \<Rightarrow> nat \<Rightarrow> sockaddr option \<Rightarrow> 'g fctx \<Rightarrow> (bool \<times> 'g fctx) option" where
  "store_answer E rs state sa st = do {
     call \<leftarrow> f_calls st (rs_call rs);
     let (ab, st1) = answer_bytes E state sa st;
     let args = ab @ read_slice (f_mem st1) (rs_off rs) (rs_len rs);
     if fe_free_buf E (length args)
     then Some (True, st1\<lparr>f_calls := (f_calls st1)(rs_call rs \<mapsto> call\<lparr>fc_args_out := Some args\<rparr>)\<rparr>)
     else Some (False, st1) }"

section \<open>Calls\<close>

definition resolve_steps :: "pw_step list" where
  "resolve_steps = [STEP_REQ_HEADERS, STEP_REQ_BODY, STEP_TICK, STEP_DISPATCH_RESPONSE, STEP_FOREIGN_CALLBACK]"

definition acl_refuses :: "'g fc_env \<Rightarrow> bytes \<Rightarrow> 'g fctx \<Rightarrow> bool" where
  "acl_refuses E name st = (case f_acl st of None \<Rightarrow> False | Some l \<Rightarrow> ngx_wasm_acl_check_host (fe_acl E) l name \<noteq> NGX_OK)"

text \<open>The address of an answer that was there at once is copied to memory that is allocated in the guest.\<close>

definition return_answer :: "'g hguest \<Rightarrow> bytes \<Rightarrow> nat \<Rightarrow> nat \<Rightarrow> 'g fctx \<Rightarrow> (hfunc_ret \<times> 'g fctx) option" where
  "return_answer G args ret_data ret_size st = do {
     let s = unat (hd args);
     let (p, mem, w) = h_malloc G s (f_mem st) (f_world st);
     let st1 = st\<lparr>f_mem := mem, f_world := w\<rparr>;
     if p = 0 then Some (Wavm_error, st1)
     else case ngx_wavm_memory_lift mem p (of_nat s) 1 of
       Some (Some off) \<Rightarrow> do {
         m1 \<leftarrow> buf_write mem off (take s (tl args));
         m2 \<leftarrow> buf_write m1 ret_data (le32 p);
         m3 \<leftarrow> buf_write m2 ret_size (le32 (of_nat s));
         Some (Result RESULT_OK, st1\<lparr>f_mem := m3\<rparr>) }
     | _ \<Rightarrow> Some (Result RESULT_INVALID_MEM_ACCESS, st1) }"

definition ngx_proxy_wasm_foreign_call_resolve ::
  "'g fc_env \<Rightarrow> 'g hguest \<Rightarrow> nat option \<Rightarrow> u32 \<Rightarrow> nat \<Rightarrow> nat \<Rightarrow> 'g fctx \<Rightarrow> (hfunc_ret \<times> 'g fctx) option" where
  "ngx_proxy_wasm_foreign_call_resolve E G off len ret_data ret_size st =
     (let name = read_slice (f_mem st) off len; k = f_next st in
      if f_step st \<notin> set resolve_steps \<or> name = [] \<or> acl_refuses E name st then Some (Bad_usage, st)
      else if \<not> fe_alloc E 32 \<or> \<not> fe_rctx_ok E \<or> \<not> fe_resolver_ok E then Some (Wavm_error, st)
      else let st1 = st\<lparr>f_next := Suc k, f_calls := (f_calls st)(k \<mapsto> \<lparr>fc_code = FOREIGN_RESOLVE, fc_args_out = None\<rparr>)\<rparr>;
               rs = \<lparr>rs_call = k, rs_off = off, rs_len = len, rs_query = name\<rparr> in
        case fe_resolve E name of
          No_answer \<Rightarrow> Some (Wavm_error, st1)
        | Pending \<Rightarrow> Some (Result RESULT_OK, st1\<lparr>f_ops := Foreign k # f_ops st1, f_pending := rs # f_pending st1\<rparr>)
        | Answer state addrs \<Rightarrow> do {
            (ok, st2) \<leftarrow> store_answer E rs state (choose_addr E addrs) st1;
            call \<leftarrow> f_calls st2 k;
            case fc_args_out call of
              None \<Rightarrow> Some (Wavm_error, st2)
            | Some args \<Rightarrow> return_answer G args ret_data ret_size st2 })"

text \<open>The call through Lua follows the arguments of the callback without a check.\<close>

definition ngx_proxy_wasm_foreign_call_resolve_lua ::
  "'g fc_env \<Rightarrow> 'g hguest \<Rightarrow> nat option \<Rightarrow> u32 \<Rightarrow> nat \<Rightarrow> nat \<Rightarrow> 'g fctx \<Rightarrow> (hfunc_ret \<times> 'g fctx) option" where
  "ngx_proxy_wasm_foreign_call_resolve_lua E G off len ret_data ret_size st =
     (let name = read_slice (f_mem st) off len; k = f_next st in
      if \<not> lua E then Some (Wavm_error, st)
      else if f_step st \<notin> set resolve_steps \<or> name = [] \<or> acl_refuses E name st then Some (Bad_usage, st)
      else if \<not> fe_alloc E 32 \<or> \<not> fe_rctx_ok E \<or> \<not> fe_sock_alloc E \<or> \<not> fe_resolver_ok E then Some (Wavm_error, st)
      else let st1 = st\<lparr>f_next := Suc k, f_calls := (f_calls st)(k \<mapsto> \<lparr>fc_code = FOREIGN_RESOLVE_LUA, fc_args_out = None\<rparr>)\<rparr>;
               rs = \<lparr>rs_call = k, rs_off = off, rs_len = len, rs_query = name\<rparr> in
        case fe_lua_resolve E name of
          No_answer \<Rightarrow> Some (Wavm_error, st1)
        | Pending \<Rightarrow> Some (Result RESULT_OK, st1\<lparr>f_ops := Foreign k # f_ops st1, f_pending := rs # f_pending st1\<rparr>)
        | Answer state addrs \<Rightarrow> do {
            (ok, st2) \<leftarrow> store_answer E rs state (if addrs = [] then None else Some (hd addrs)) st1;
            call \<leftarrow> f_calls st2 k;
            args \<leftarrow> fc_args_out call;
            return_answer G args ret_data ret_size st2 })"

definition ngx_proxy_wasm_hfuncs_call_foreign_function ::
  "'g fc_env \<Rightarrow> 'g hguest \<Rightarrow> u32 \<Rightarrow> u32 \<Rightarrow> u32 \<Rightarrow> u32 \<Rightarrow> u32 \<Rightarrow> u32 \<Rightarrow> 'g fctx \<Rightarrow> (hfunc_ret \<times> 'g fctx) option" where
  "ngx_proxy_wasm_hfuncs_call_foreign_function E G fname fname_len fargs fargs_len ret_data_ptr ret_size_ptr st =
     (let mem = f_mem st in
      case (ngx_wavm_memory_lift mem fname fname_len 1, ngx_wavm_memory_lift mem fargs fargs_len 1, lift_u32 mem ret_data_ptr,
          lift_u32 mem ret_size_ptr) of
        (Some n, Some a, Some ret_data, Some ret_size) \<Rightarrow>
          let name = read_slice mem n fname_len in
          if name = bytes_of_string ''resolve_lua'' then ngx_proxy_wasm_foreign_call_resolve_lua E G a fargs_len ret_data ret_size st
          else if name = bytes_of_string ''resolve'' then ngx_proxy_wasm_foreign_call_resolve E G a fargs_len ret_data ret_size st
          else Some (Wavm_error, st)
      | _ \<Rightarrow> Some (Bad_usage, st))"

fun run_fcalls :: "'g fc_env \<Rightarrow> 'g hguest \<Rightarrow> fcall list \<Rightarrow> 'g fctx \<Rightarrow> 'g fctx option" where
  "run_fcalls E G [] st = Some st"
| "run_fcalls E G (Fcall n nl a al d s # cs) st = do {
     (ret, st1) \<leftarrow> ngx_proxy_wasm_hfuncs_call_foreign_function E G n nl a al d s st;
     run_fcalls E G cs st1 }"

section \<open>Callbacks\<close>

definition ngx_proxy_wasm_dispatch_ops_total :: "'g fctx \<Rightarrow> nat" where
  "ngx_proxy_wasm_dispatch_ops_total st = length (f_ops st)"

text \<open>
  \<open>ngx_pfree\<close> of the call, whose pool is found through the call itself. A call is a small block of the pool, which \<open>ngx_pfree\<close> of
  nginx does not release: the block stays as it is until the pool is destroyed.
\<close>

definition ngx_proxy_wasm_foreign_call_destroy :: "nat \<Rightarrow> 'g fctx \<Rightarrow> 'g fctx option" where
  "ngx_proxy_wasm_foreign_call_destroy k st = (if f_calls st k = None then None else Some st)"

text \<open>
  \<open>ngx_queue_remove\<close> of the operation of a call. An operation that was removed before is not in the queue any more: its links are NULL in a
  debug build, and in a release build they are those it had, through which a second removal writes. The model does not follow that (\<open>None\<close>).
\<close>

definition unlink_op :: "nat \<Rightarrow> 'g fctx \<Rightarrow> 'g fctx option" where
  "unlink_op k st = (if Foreign k \<in> set (f_ops st) then Some (st\<lparr>f_ops := remove1 (Foreign k) (f_ops st)\<rparr>) else None)"

text \<open>
  The guest is called back, and the filters go on when no other operation is pending.
\<close>

definition ngx_proxy_wasm_foreign_callback :: "'g fc_env \<Rightarrow> 'g hguest \<Rightarrow> nat \<Rightarrow> 'g fctx \<Rightarrow> 'g fctx option" where
  "ngx_proxy_wasm_foreign_callback E G k st = do {
     call \<leftarrow> f_calls st k;
     st0 \<leftarrow> unlink_op k (st\<lparr>f_cur := Some k\<rparr>);
     let st1 = st0\<lparr>f_phase := BACKGROUND_PHASE, f_step := STEP_FOREIGN_CALLBACK\<rparr>;
     st2 \<leftarrow> run_fcalls E G (fe_guest E STEP_FOREIGN_CALLBACK st1) st1;
     let st3 = st2\<lparr>f_step := f_step st, f_cur := None\<rparr>;
     st4 \<leftarrow> (if ngx_proxy_wasm_dispatch_ops_total st3 \<noteq> 0 then Some (st3\<lparr>f_env := STATE_YIELD, f_action := ACTION_PAUSE\<rparr>)
       else let st4 = st3\<lparr>f_env := STATE_CONTINUE, f_action := ACTION_CONTINUE\<rparr> in run_fcalls E G (fe_guest E (f_step st4) st4) st4);
     ngx_proxy_wasm_foreign_call_destroy k st4 }"

text \<open>The handler of the resolver of nginx, when it answers later.\<close>

definition ngx_proxy_wasm_hfuncs_resolve_handler ::
  "'g fc_env \<Rightarrow> 'g hguest \<Rightarrow> rslv_ctx \<Rightarrow> nat \<Rightarrow> sockaddr list \<Rightarrow> 'g fctx \<Rightarrow> 'g fctx option" where
  "ngx_proxy_wasm_hfuncs_resolve_handler E G rs state addrs st = do {
     (ok, st1) \<leftarrow> store_answer E rs state (choose_addr E addrs) (st\<lparr>f_pending := remove1 rs (f_pending st)\<rparr>);
     if ok
     then do {
       st2 \<leftarrow> ngx_proxy_wasm_foreign_callback E G (rs_call rs) st1;
       Some (if f_env st2 = STATE_CONTINUE then st2\<lparr>f_resumed := Suc (f_resumed st2)\<rparr> else st2) }
     else do {
       st2 \<leftarrow> unlink_op (rs_call rs) st1;
       Some (st2\<lparr>f_env := STATE_CONTINUE, f_resumed := Suc (f_resumed st2)\<rparr>) } }"

text \<open>The handler of the resolver of Lua; the state \<open>NGX_WASM_LUA_RESOLVE_ERR\<close> is given by the parameter \<open>failed\<close>.\<close>

definition ngx_proxy_wasm_hfuncs_resolve_lua_handler ::
  "'g fc_env \<Rightarrow> 'g hguest \<Rightarrow> rslv_ctx \<Rightarrow> nat \<Rightarrow> bool \<Rightarrow> sockaddr list \<Rightarrow> 'g fctx \<Rightarrow> 'g fctx option" where
  "ngx_proxy_wasm_hfuncs_resolve_lua_handler E G rs state failed addrs st = do {
     (ok, st1) \<leftarrow> store_answer E rs state (if addrs = [] then None else Some (hd addrs)) (st\<lparr>f_pending := remove1 rs (f_pending st)\<rparr>);
     if ok
     then do {
       st2 \<leftarrow> ngx_proxy_wasm_foreign_callback E G (rs_call rs) st1;
       Some (if failed then st2\<lparr>f_resumed := Suc (f_resumed st2)\<rparr> else st2) }
     else Some st1 }"

section \<open>Cancelling\<close>

text \<open>The destruction of a dispatched HTTP call is a parameter. The resolver keeps what it works on.\<close>

fun cancel_ops :: "(nat \<Rightarrow> 'g fctx \<Rightarrow> 'g fctx) \<Rightarrow> dispatch_op list \<Rightarrow> 'g fctx \<Rightarrow> 'g fctx option" where
  "cancel_ops destroy [] st = Some st"
| "cancel_ops destroy (Http_call d # ops) st = cancel_ops destroy ops (destroy d st)"
| "cancel_ops destroy (Foreign k # ops) st = ngx_proxy_wasm_foreign_call_destroy k st \<bind> cancel_ops destroy ops"

definition ngx_proxy_wasm_dispatch_ops_cancel :: "(nat \<Rightarrow> 'g fctx \<Rightarrow> 'g fctx) \<Rightarrow> 'g fctx \<Rightarrow> 'g fctx option" where
  "ngx_proxy_wasm_dispatch_ops_cancel destroy st = cancel_ops destroy (f_ops st) (st\<lparr>f_ops := []\<rparr>)"

end
