(* ===== verification/Foreign_Call_Props.thy ===== *)
theory Foreign_Call_Props
  imports Foreign_Call Acl_Props
begin

text \<open>Foreign calls and access control lists: which addresses a filter may use after it resolved names.\<close>

section \<open>Addresses that are recorded\<close>

text \<open>A name that the list accepts, with recorded addresses of a set.\<close>

definition name_accepted :: "acl_env \<Rightarrow> acl_ctx \<Rightarrow> cidr set \<Rightarrow> bytes \<Rightarrow> bool" where
  "name_accepted A rules R name \<longleftrightarrow>
     (\<exists>l. acl_rules l = rules \<and> set (recorded_addrs l) \<subseteq> R \<and> ngx_wasm_acl_check_host A l name = NGX_OK)"

lemma name_accepted_mono: "name_accepted A rules R name \<Longrightarrow> R \<subseteq> R' \<Longrightarrow> name_accepted A rules R' name"
  unfolding name_accepted_def by blast

text \<open>
  A recorded address is justified when a resolver gave it for a name that the list accepted at that time, and no rule denies it.
  \<open>answers name sa\<close> says that the resolver may give an address for a name.
\<close>

definition justified :: "acl_env \<Rightarrow> (bytes \<Rightarrow> sockaddr \<Rightarrow> bool) \<Rightarrow> acl_ctx \<Rightarrow> cidr set \<Rightarrow> sockaddr \<Rightarrow> bool" where
  "justified A answers rules R sa \<longleftrightarrow>
     ngx_wasm_acl_tree_lookup A rules sa \<noteq> Some ACL_DENY \<and> (\<exists>name. answers name sa \<and> name_accepted A rules R name)"

lemma justified_mono: "justified A answers rules R sa \<Longrightarrow> R \<subseteq> R' \<Longrightarrow> justified A answers rules R' sa"
  unfolding justified_def using name_accepted_mono by metis

definition acl_justified :: "acl_env \<Rightarrow> (bytes \<Rightarrow> sockaddr \<Rightarrow> bool) \<Rightarrow> acl_ctx \<Rightarrow> acl \<Rightarrow> bool" where
  "acl_justified A answers rules l \<longleftrightarrow> acl_rules l = rules \<and>
     (\<forall>c \<in> set (recorded_addrs l). \<exists>sa. ngx_wasm_sockaddr_to_cidr sa = Some c \<and> justified A answers rules (set (recorded_addrs l)) sa)"

lemma add_addr_justified:
  assumes "ngx_wasm_acl_add_addr A sa l = (rc, l')" and "acl_justified A answers rules l"
    and "name_accepted A rules (set (recorded_addrs l)) name" and "answers name sa"
  shows "acl_justified A answers rules l' \<and> set (recorded_addrs l) \<subseteq> set (recorded_addrs l')"
proof (cases "rc = NGX_OK")
  case False
  with add_addr_cases(2) [OF assms(1)] assms(2) show ?thesis by simp
next
  case True
  then obtain c where c: "ngx_wasm_sockaddr_to_cidr sa = Some c" "recorded_addrs l' = recorded_addrs l @ [c]"
    using add_addr_cases(3) [OF assms(1)] by blast
  have rules: "acl_rules l = rules" using assms(2) by (simp add: acl_justified_def)
  have nd: "ngx_wasm_acl_tree_lookup A rules sa \<noteq> Some ACL_DENY"
    using assms(1) True rules by (auto simp: ngx_wasm_acl_add_addr_def split: if_splits)
  have sub: "set (recorded_addrs l) \<subseteq> set (recorded_addrs l')" using c by auto
  have "justified A answers rules (set (recorded_addrs l')) sa"
    using assms(4) nd name_accepted_mono [OF assms(3) sub] unfolding justified_def by blast
  moreover have "\<exists>sa. ngx_wasm_sockaddr_to_cidr sa = Some c' \<and> justified A answers rules (set (recorded_addrs l')) sa"
    if "c' \<in> set (recorded_addrs l)" for c'
    using that assms(2) justified_mono [OF _ sub] unfolding acl_justified_def by blast
  ultimately show ?thesis
    using c rules sub add_addr_cases(1) [OF assms(1)] unfolding acl_justified_def by auto
qed

section \<open>The state of a filter\<close>

text \<open>What holds throughout: the list is justified, and what the resolver works on was accepted.\<close>

definition fctx_ok :: "acl_env \<Rightarrow> (bytes \<Rightarrow> sockaddr \<Rightarrow> bool) \<Rightarrow> acl_ctx \<Rightarrow> 'g fctx \<Rightarrow> bool" where
  "fctx_ok A answers rules st \<longleftrightarrow> (\<exists>l. f_acl st = Some l \<and> acl_justified A answers rules l \<and>
     (\<forall>rs \<in> set (f_pending st). name_accepted A rules (set (recorded_addrs l)) (rs_query rs)))"

definition resolver_laws :: "'g fc_env \<Rightarrow> (bytes \<Rightarrow> sockaddr \<Rightarrow> bool) \<Rightarrow> bool" where
  "resolver_laws E answers \<longleftrightarrow> (\<forall>name s addrs. fe_resolve E name = Answer s addrs \<or> fe_lua_resolve E name = Answer s addrs \<longrightarrow>
     (\<forall>a \<in> set addrs. answers name a))"

lemma choose_addr_mem: "choose_addr E addrs = Some a \<Longrightarrow> a \<in> set addrs"
  by (auto simp: choose_addr_def split: if_splits intro!: nth_mem)

lemma store_answer_ok:
  assumes "store_answer E rs state sa st = Some (ok, st')" and "fctx_ok (fe_acl E) answers rules st"
    and "\<And>l. f_acl st = Some l \<Longrightarrow> name_accepted (fe_acl E) rules (set (recorded_addrs l)) name"
    and "\<And>a. sa = Some a \<Longrightarrow> answers name a"
  shows "fctx_ok (fe_acl E) answers rules st' \<and> f_pending st' = f_pending st"
proof -
  obtain l where l: "f_acl st = Some l" "acl_justified (fe_acl E) answers rules l"
      "\<forall>rs \<in> set (f_pending st). name_accepted (fe_acl E) rules (set (recorded_addrs l)) (rs_query rs)"
    using assms(2) by (auto simp: fctx_ok_def)
  obtain ab st1 where ab: "answer_bytes E state sa st = (ab, st1)" by (cases "answer_bytes E state sa st")
  have ok1: "fctx_ok (fe_acl E) answers rules st1 \<and> f_pending st1 = f_pending st"
  proof (cases "if state \<noteq> 0 then None else sa")
    case None
    with ab assms(2) show ?thesis by (auto simp: answer_bytes_def)
  next
    case (Some a)
    obtain rc l1 where a: "ngx_wasm_acl_add_addr (fe_acl E) a l = (rc, l1)" by (cases "ngx_wasm_acl_add_addr (fe_acl E) a l")
    from Some have "sa = Some a" by (auto split: if_splits)
    note j = add_addr_justified [OF a l(2) assms(3) [OF l(1)] assms(4) [OF this]]
    from ab Some a l(1) have "st1 = st\<lparr>f_acl := Some l1\<rparr>" by (auto simp: answer_bytes_def split: if_splits)
    with j l(3) show ?thesis by (auto simp: fctx_ok_def intro: name_accepted_mono)
  qed
  with assms(1) ab show ?thesis
    by (auto simp: store_answer_def fctx_ok_def bind_eq_Some_conv split: if_splits)
qed

lemma acl_refuses_accepted:
  assumes "\<not> acl_refuses E name st" and "fctx_ok (fe_acl E) answers rules st" and "f_acl st = Some l"
  shows "name_accepted (fe_acl E) rules (set (recorded_addrs l)) name"
  using assms by (auto simp: acl_refuses_def fctx_ok_def name_accepted_def acl_justified_def)

text \<open>What only concerns the memory of the guest and the calls.\<close>

lemma return_answer_frame:
  "return_answer G args d s st = Some (ret, st') \<Longrightarrow> f_acl st' = f_acl st \<and> f_pending st' = f_pending st"
  by (auto simp: return_answer_def Let_def bind_eq_Some_conv split: if_splits option.splits prod.splits)

lemma fctx_ok_cong: "f_acl st' = f_acl st \<Longrightarrow> f_pending st' = f_pending st \<Longrightarrow> fctx_ok A answers rules st' = fctx_ok A answers rules st"
  by (simp add: fctx_ok_def)

text \<open>A call of either kind: nothing happens, the call is pending, or the answer is there.\<close>

lemma started_ok:
  assumes "st1 = st\<lparr>f_next := n, f_calls := cs\<rparr>" and "fctx_ok (fe_acl E) answers rules st" and "\<not> acl_refuses E name st"
    and "st' = st1 \<or> st' = st1\<lparr>f_ops := ops, f_pending := rs # f_pending st1\<rparr> \<or>
      (\<exists>state sa ok st2 rs'. store_answer E rs' state sa st1 = Some (ok, st2) \<and> (\<forall>a. sa = Some a \<longrightarrow> answers name a) \<and>
        f_acl st' = f_acl st2 \<and> f_pending st' = f_pending st2)"
    and "rs_query rs = name"
  shows "fctx_ok (fe_acl E) answers rules st'"
proof -
  note acc = acl_refuses_accepted [OF assms(3,2)]
  have st1: "fctx_ok (fe_acl E) answers rules st1" "f_acl st1 = f_acl st" using assms(1,2) by (simp_all add: fctx_ok_def)
  from assms(4) show ?thesis
  proof (elim disjE exE conjE)
    fix state sa ok st2 rs'
    assume a: "store_answer E rs' state sa st1 = Some (ok, st2)" "\<forall>a. sa = Some a \<longrightarrow> answers name a" "f_acl st' = f_acl st2"
      "f_pending st' = f_pending st2"
    from store_answer_ok [OF a(1) st1(1), of name] acc st1(2) a show ?thesis by (auto simp: fctx_ok_def)
  qed (use st1 acc assms(5) in \<open>auto simp: fctx_ok_def\<close>)
qed

lemma answer_tail:
  assumes "(store_answer E rs state sa st1 \<bind> (\<lambda>(ok, st2). f_calls st2 k \<bind> (\<lambda>call. F call st2))) = Some (ret, st')"
    and "\<And>call st2. F call st2 = Some (ret, st') \<Longrightarrow> st' = st2 \<or> (\<exists>args. return_answer G args d s st2 = Some (ret, st'))"
  shows "\<exists>ok st2. store_answer E rs state sa st1 = Some (ok, st2) \<and> f_acl st' = f_acl st2 \<and> f_pending st' = f_pending st2"
proof -
  from assms(1) obtain ok st2 call where "store_answer E rs state sa st1 = Some (ok, st2)" "F call st2 = Some (ret, st')"
    by (auto simp: bind_eq_Some_conv)
  with assms(2) [OF this(2)] return_answer_frame [of G _ d s st2 ret st'] show ?thesis by auto
qed

lemma resolve_ok:
  assumes "ngx_proxy_wasm_foreign_call_resolve E G off len d s st = Some (ret, st')" and "fctx_ok (fe_acl E) answers rules st"
    and "resolver_laws E answers"
  shows "fctx_ok (fe_acl E) answers rules st'"
proof (cases "st' = st")
  case False
  let ?name = "read_slice (f_mem st) off len" and ?k = "f_next st"
  let ?cs = "(f_calls st)(?k \<mapsto> \<lparr>fc_code = FOREIGN_RESOLVE, fc_args_out = None\<rparr>)"
  let ?st1 = "st\<lparr>f_next := Suc ?k, f_calls := ?cs\<rparr>"
  let ?rs = "\<lparr>rs_call = ?k, rs_off = off, rs_len = len, rs_query = ?name\<rparr>"
  from False assms(1) have na: "\<not> acl_refuses E ?name st"
    by (auto simp: ngx_proxy_wasm_foreign_call_resolve_def Let_def split: if_splits)
  have "st' = ?st1 \<or> st' = ?st1\<lparr>f_ops := Foreign ?k # f_ops ?st1, f_pending := ?rs # f_pending ?st1\<rparr> \<or>
      (\<exists>state sa ok st2 rs'. store_answer E rs' state sa ?st1 = Some (ok, st2) \<and> (\<forall>a. sa = Some a \<longrightarrow> answers ?name a) \<and>
        f_acl st' = f_acl st2 \<and> f_pending st' = f_pending st2)"
  proof (cases "fe_resolve E ?name")
    case (Answer state addrs)
    let ?sa = "choose_addr E addrs"
    have law: "\<forall>a. ?sa = Some a \<longrightarrow> answers ?name a"
      using assms(3) Answer choose_addr_mem [of E addrs] unfolding resolver_laws_def by auto
    from assms(1) False Answer have "\<exists>ok st2. store_answer E ?rs state ?sa ?st1 = Some (ok, st2) \<and> f_acl st' = f_acl st2 \<and> f_pending st' = f_pending st2"
      unfolding ngx_proxy_wasm_foreign_call_resolve_def Let_def
      by (intro answer_tail [where k = ?k and ret = ret and G = G and d = d and s = s])
        (auto split: if_splits option.splits)
    with law show ?thesis by blast
  qed (use assms(1) False in \<open>auto simp: ngx_proxy_wasm_foreign_call_resolve_def Let_def split: if_splits\<close>)
  from started_ok [OF refl assms(2) na this] show ?thesis by simp
qed (use assms(2) in simp)

lemma resolve_lua_ok:
  assumes "ngx_proxy_wasm_foreign_call_resolve_lua E G off len d s st = Some (ret, st')" and "fctx_ok (fe_acl E) answers rules st"
    and "resolver_laws E answers"
  shows "fctx_ok (fe_acl E) answers rules st'"
proof (cases "st' = st")
  case False
  let ?name = "read_slice (f_mem st) off len" and ?k = "f_next st"
  let ?cs = "(f_calls st)(?k \<mapsto> \<lparr>fc_code = FOREIGN_RESOLVE_LUA, fc_args_out = None\<rparr>)"
  let ?st1 = "st\<lparr>f_next := Suc ?k, f_calls := ?cs\<rparr>"
  let ?rs = "\<lparr>rs_call = ?k, rs_off = off, rs_len = len, rs_query = ?name\<rparr>"
  from False assms(1) have na: "\<not> acl_refuses E ?name st"
    by (auto simp: ngx_proxy_wasm_foreign_call_resolve_lua_def Let_def split: if_splits)
  have "st' = ?st1 \<or> st' = ?st1\<lparr>f_ops := Foreign ?k # f_ops ?st1, f_pending := ?rs # f_pending ?st1\<rparr> \<or>
      (\<exists>state sa ok st2 rs'. store_answer E rs' state sa ?st1 = Some (ok, st2) \<and> (\<forall>a. sa = Some a \<longrightarrow> answers ?name a) \<and>
        f_acl st' = f_acl st2 \<and> f_pending st' = f_pending st2)"
  proof (cases "fe_lua_resolve E ?name")
    case (Answer state addrs)
    let ?sa = "if addrs = [] then None else Some (hd addrs)"
    have law: "\<forall>a. ?sa = Some a \<longrightarrow> answers ?name a"
      using assms(3) Answer choose_addr_mem [of E addrs] unfolding resolver_laws_def by auto
    from assms(1) False Answer have "\<exists>ok st2. store_answer E ?rs state ?sa ?st1 = Some (ok, st2) \<and> f_acl st' = f_acl st2 \<and> f_pending st' = f_pending st2"
      unfolding ngx_proxy_wasm_foreign_call_resolve_lua_def Let_def
      by (intro answer_tail [where k = ?k and ret = ret and G = G and d = d and s = s and
          F = "\<lambda>call st2. fc_args_out call \<bind> (\<lambda>args. return_answer G args d s st2)"])
        (auto split: if_splits simp: bind_eq_Some_conv)
    with law show ?thesis by blast
  qed (use assms(1) False in \<open>auto simp: ngx_proxy_wasm_foreign_call_resolve_lua_def Let_def split: if_splits\<close>)
  from started_ok [OF refl assms(2) na this] show ?thesis by simp
qed (use assms(2) in simp)

lemma foreign_function_ok:
  assumes "ngx_proxy_wasm_hfuncs_call_foreign_function E G n nl a al d s st = Some (ret, st')" and "fctx_ok (fe_acl E) answers rules st"
    and "resolver_laws E answers"
  shows "fctx_ok (fe_acl E) answers rules st'"
  using assms resolve_ok resolve_lua_ok unfolding ngx_proxy_wasm_hfuncs_call_foreign_function_def
  by (auto simp: Let_def split: option.splits if_splits)

lemma run_fcalls_ok:
  "run_fcalls E G cs st = Some st' \<Longrightarrow> fctx_ok (fe_acl E) answers rules st \<Longrightarrow> resolver_laws E answers \<Longrightarrow> fctx_ok (fe_acl E) answers rules st'"
proof (induction cs arbitrary: st)
  case (Cons c cs)
  obtain n nl a al d s where c: "c = Fcall n nl a al d s" by (cases c)
  with Cons.prems obtain ret st1 where r: "ngx_proxy_wasm_hfuncs_call_foreign_function E G n nl a al d s st = Some (ret, st1)"
      "run_fcalls E G cs st1 = Some st'"
    by (auto simp: bind_eq_Some_conv)
  from Cons.IH [OF r(2) foreign_function_ok [OF r(1) Cons.prems(2,3)] Cons.prems(3)] show ?case .
qed simp

lemma callback_ok:
  assumes "ngx_proxy_wasm_foreign_callback E G k st = Some st'" and "fctx_ok (fe_acl E) answers rules st" and "resolver_laws E answers"
  shows "fctx_ok (fe_acl E) answers rules st'"
proof -
  have upd: "fctx_ok (fe_acl E) answers rules (x\<lparr>f_cur := a, f_ops := b, f_phase := c, f_step := e\<rparr>) = fctx_ok (fe_acl E) answers rules x"
    "fctx_ok (fe_acl E) answers rules (x\<lparr>f_step := e, f_cur := a\<rparr>) = fctx_ok (fe_acl E) answers rules x"
    "fctx_ok (fe_acl E) answers rules (x\<lparr>f_env := g, f_action := h\<rparr>) = fctx_ok (fe_acl E) answers rules x" for x a b c e g h
    by (simp_all add: fctx_ok_def)
  let ?st1 = "st\<lparr>f_cur := Some k, f_ops := remove1 (Foreign k) (f_ops st), f_phase := BACKGROUND_PHASE, f_step := STEP_FOREIGN_CALLBACK\<rparr>"
  have op: "Foreign k \<in> set (f_ops st)"
    using assms(1) by (auto simp: ngx_proxy_wasm_foreign_callback_def bind_eq_Some_conv unlink_op_def split: if_splits)
  then have u: "unlink_op k (st\<lparr>f_cur := Some k\<rparr>) = Some (st\<lparr>f_cur := Some k, f_ops := remove1 (Foreign k) (f_ops st)\<rparr>)"
    by (simp add: unlink_op_def)
  from assms(1) obtain st2 st4 where r: "run_fcalls E G (fe_guest E STEP_FOREIGN_CALLBACK ?st1) ?st1 = Some st2"
      "(if ngx_proxy_wasm_dispatch_ops_total (st2\<lparr>f_step := f_step st, f_cur := None\<rparr>) \<noteq> 0
        then Some (st2\<lparr>f_step := f_step st, f_cur := None\<rparr>\<lparr>f_env := STATE_YIELD, f_action := ACTION_PAUSE\<rparr>)
        else let st4 = st2\<lparr>f_step := f_step st, f_cur := None\<rparr>\<lparr>f_env := STATE_CONTINUE, f_action := ACTION_CONTINUE\<rparr>
          in run_fcalls E G (fe_guest E (f_step st4) st4) st4) = Some st4"
      "ngx_proxy_wasm_foreign_call_destroy k st4 = Some st'"
    unfolding ngx_proxy_wasm_foreign_callback_def u by (auto simp: bind_eq_Some_conv Let_def)
  have "fctx_ok (fe_acl E) answers rules ?st1" using assms(2) upd(1) by blast
  then have 2: "fctx_ok (fe_acl E) answers rules st2" by (rule run_fcalls_ok [OF r(1) _ assms(3)])
  have 4: "fctx_ok (fe_acl E) answers rules st4"
  proof (cases "ngx_proxy_wasm_dispatch_ops_total (st2\<lparr>f_step := f_step st, f_cur := None\<rparr>) = 0")
    case True
    with r(2) obtain st3 where "run_fcalls E G (fe_guest E (f_step st3) st3) st3 = Some st4"
        "st3 = st2\<lparr>f_step := f_step st, f_cur := None\<rparr>\<lparr>f_env := STATE_CONTINUE, f_action := ACTION_CONTINUE\<rparr>"
      by (auto simp: Let_def)
    moreover from this(2) 2 have "fctx_ok (fe_acl E) answers rules st3" by (simp only: upd)
    ultimately show ?thesis by (auto intro: run_fcalls_ok [OF _ _ assms(3)])
  next
    case False
    with r(2) have "st4 = st2\<lparr>f_step := f_step st, f_cur := None\<rparr>\<lparr>f_env := STATE_YIELD, f_action := ACTION_PAUSE\<rparr>" by simp
    with 2 show ?thesis by (simp only: upd)
  qed
  have "st' = st4" using r(3) by (simp add: ngx_proxy_wasm_foreign_call_destroy_def split: if_splits)
  with 4 show ?thesis by simp
qed

section \<open>Runs\<close>

text \<open>
  The runs of a filter: it makes host calls in any step, and the resolvers answer what they work on, with addresses that they may give.
\<close>

inductive fc_reach :: "'g fc_env \<Rightarrow> 'g hguest \<Rightarrow> (bytes \<Rightarrow> sockaddr \<Rightarrow> bool) \<Rightarrow> 'g fctx \<Rightarrow> 'g fctx \<Rightarrow> bool" for E G answers st0 where
  fc_start: "fc_reach E G answers st0 st0"
| fc_step: "fc_reach E G answers st0 st \<Longrightarrow> fc_reach E G answers st0 (st\<lparr>f_step := s, f_phase := p, f_action := a, f_env := e\<rparr>)"
| fc_call: "fc_reach E G answers st0 st \<Longrightarrow>
    ngx_proxy_wasm_hfuncs_call_foreign_function E G n nl a al d s st = Some (ret, st') \<Longrightarrow> fc_reach E G answers st0 st'"
| fc_answer: "fc_reach E G answers st0 st \<Longrightarrow> rs \<in> set (f_pending st) \<Longrightarrow> (\<forall>a \<in> set addrs. answers (rs_query rs) a) \<Longrightarrow>
    ngx_proxy_wasm_hfuncs_resolve_handler E G rs state addrs st = Some st' \<Longrightarrow> fc_reach E G answers st0 st'"
| fc_answer_lua: "fc_reach E G answers st0 st \<Longrightarrow> rs \<in> set (f_pending st) \<Longrightarrow> (\<forall>a \<in> set addrs. answers (rs_query rs) a) \<Longrightarrow>
    ngx_proxy_wasm_hfuncs_resolve_lua_handler E G rs state failed addrs st = Some st' \<Longrightarrow> fc_reach E G answers st0 st'"

lemma answered_ok:
  assumes "store_answer E rs state sa (st\<lparr>f_pending := remove1 rs (f_pending st)\<rparr>) = Some (ok, st1)"
    and "fctx_ok (fe_acl E) answers rules st" and "rs \<in> set (f_pending st)" and "\<forall>a. sa = Some a \<longrightarrow> answers (rs_query rs) a"
  shows "fctx_ok (fe_acl E) answers rules st1"
proof -
  have "fctx_ok (fe_acl E) answers rules (st\<lparr>f_pending := remove1 rs (f_pending st)\<rparr>)"
    using assms(2) set_remove1_subset [of rs "f_pending st"] by (auto simp: fctx_ok_def)
  from store_answer_ok [OF assms(1) this, of "rs_query rs"] assms(2-4) show ?thesis by (auto simp: fctx_ok_def)
qed

lemma handler_ok:
  assumes "ngx_proxy_wasm_hfuncs_resolve_handler E G rs state addrs st = Some st'" and "fctx_ok (fe_acl E) answers rules st"
    and "rs \<in> set (f_pending st)" and "\<forall>a \<in> set addrs. answers (rs_query rs) a" and "resolver_laws E answers"
  shows "fctx_ok (fe_acl E) answers rules st'"
proof -
  obtain ok st1 where s: "store_answer E rs state (choose_addr E addrs) (st\<lparr>f_pending := remove1 rs (f_pending st)\<rparr>) = Some (ok, st1)"
    using assms(1) unfolding ngx_proxy_wasm_hfuncs_resolve_handler_def by (auto simp: bind_eq_Some_conv)
  have d: "f_acl st' = f_acl st1 \<and> f_pending st' = f_pending st1 \<or>
      (\<exists>st2. ngx_proxy_wasm_foreign_callback E G (rs_call rs) st1 = Some st2 \<and> f_acl st' = f_acl st2 \<and> f_pending st' = f_pending st2)"
    using assms(1) s unfolding ngx_proxy_wasm_hfuncs_resolve_handler_def by (cases ok) (auto simp: bind_eq_Some_conv unlink_op_def split: if_splits)
  have "fctx_ok (fe_acl E) answers rules st1"
    using answered_ok [OF s assms(2,3)] choose_addr_mem [of E addrs] assms(4) by auto
  with d callback_ok [OF _ this assms(5)] show ?thesis by (auto simp: fctx_ok_def)
qed

lemma lua_handler_ok:
  assumes "ngx_proxy_wasm_hfuncs_resolve_lua_handler E G rs state failed addrs st = Some st'" and "fctx_ok (fe_acl E) answers rules st"
    and "rs \<in> set (f_pending st)" and "\<forall>a \<in> set addrs. answers (rs_query rs) a" and "resolver_laws E answers"
  shows "fctx_ok (fe_acl E) answers rules st'"
proof -
  let ?sa = "if addrs = [] then None else Some (hd addrs)"
  obtain ok st1 where s: "store_answer E rs state ?sa (st\<lparr>f_pending := remove1 rs (f_pending st)\<rparr>) = Some (ok, st1)"
    using assms(1) unfolding ngx_proxy_wasm_hfuncs_resolve_lua_handler_def by (auto simp: bind_eq_Some_conv)
  have d: "f_acl st' = f_acl st1 \<and> f_pending st' = f_pending st1 \<or>
      (\<exists>st2. ngx_proxy_wasm_foreign_callback E G (rs_call rs) st1 = Some st2 \<and> f_acl st' = f_acl st2 \<and> f_pending st' = f_pending st2)"
    using assms(1) s unfolding ngx_proxy_wasm_hfuncs_resolve_lua_handler_def by (cases ok) (auto simp: bind_eq_Some_conv split: if_splits)
  have "fctx_ok (fe_acl E) answers rules st1"
    using answered_ok [OF s assms(2,3)] assms(4) by auto
  with d callback_ok [OF _ this assms(5)] show ?thesis by (auto simp: fctx_ok_def)
qed

lemma fc_reach_ok:
  "fc_reach E G answers st0 st \<Longrightarrow> resolver_laws E answers \<Longrightarrow> fctx_ok (fe_acl E) answers rules st0 \<Longrightarrow> fctx_ok (fe_acl E) answers rules st"
proof (induction rule: fc_reach.induct)
  case (fc_step st s p a e)
  then show ?case by (simp add: fctx_ok_def)
qed (auto intro: foreign_function_ok handler_ok lua_handler_ok)

text \<open>
  C37. A filter with an access control list that resolves names in any way may use an address afterwards only if a rule allows it, or no
  rule is about it and a resolver gave it (or the IPv4 address that an IPv6 address stands for) for a name that the list accepts with the
  rules of the filter and some of the addresses that are recorded in the end. What the deny rules are about is never recorded, so that it stays refused.
\<close>

theorem resolved_addresses_permitted:
  assumes "fc_reach E G answers st0 st" and "resolver_laws E answers" and "cidr_laws (fe_acl E)"
    and "f_acl st0 = Some \<lparr>acl_rules = rules, recorded_addrs = []\<rparr>" and "f_pending st0 = []" and "f_acl st = Some l"
    and "ngx_wasm_acl_check_addr (fe_acl E) l sa = NGX_OK" and "\<And>p port. sa = AF_INET6 p port \<Longrightarrow> length p = 16"
  shows "ngx_wasm_acl_tree_lookup (fe_acl E) rules sa = Some ACL_ALLOW \<or>
    ngx_wasm_acl_tree_lookup (fe_acl E) rules sa = None \<and>
    (\<exists>sa' name l'. same_host sa' sa \<and> answers name sa' \<and> ngx_wasm_acl_tree_lookup (fe_acl E) rules sa' \<noteq> Some ACL_DENY \<and>
       acl_rules l' = rules \<and> set (recorded_addrs l') \<subseteq> set (recorded_addrs l) \<and> ngx_wasm_acl_check_host (fe_acl E) l' name = NGX_OK)"
proof -
  have "fctx_ok (fe_acl E) answers rules st0" using assms(4,5) by (simp add: fctx_ok_def acl_justified_def)
  from fc_reach_ok [OF assms(1,2) this] assms(6) have j: "acl_justified (fe_acl E) answers rules l" by (auto simp: fctx_ok_def)
  then have rules: "acl_rules l = rules" by (simp add: acl_justified_def)
  consider "ngx_wasm_acl_tree_lookup (fe_acl E) rules sa = Some ACL_ALLOW"
    | "ngx_wasm_acl_tree_lookup (fe_acl E) rules sa = None" "cidr_match (fe_acl E) sa (recorded_addrs l)"
    using assms(7) rules by (auto simp: ngx_wasm_acl_check_addr_def split: option.splits acl_type.splits if_splits)
  then show ?thesis
  proof cases
    case 2
    then obtain c where c: "c \<in> set (recorded_addrs l)" "cidr_covers c sa" using assms(3) by (auto simp: cidr_laws_def)
    with j obtain sa' where sa': "ngx_wasm_sockaddr_to_cidr sa' = Some c" "justified (fe_acl E) answers rules (set (recorded_addrs l)) sa'"
      unfolding acl_justified_def by blast
    from recorded_covers [OF sa'(1) c(2) assms(8)] have "same_host sa' sa" .
    with 2(1) sa'(2) show ?thesis unfolding justified_def name_accepted_def by blast
  qed simp
qed

section \<open>Cancelled calls\<close>

text \<open>What is relied on of the destruction of an HTTP dispatch: it leaves the other operations, the calls and the action alone.\<close>

definition destroy_laws :: "(nat \<Rightarrow> 'g fctx \<Rightarrow> 'g fctx) \<Rightarrow> bool" where
  "destroy_laws destroy \<longleftrightarrow> (\<forall>d fc. f_calls (destroy d fc) = f_calls fc \<and> f_ops (destroy d fc) = f_ops fc \<and>
     f_action (destroy d fc) = f_action fc \<and> f_pending (destroy d fc) = f_pending fc)"

lemma cancel_ops_frame:
  "cancel_ops destroy ops fc = Some fc' \<Longrightarrow> destroy_laws destroy \<Longrightarrow>
     f_ops fc' = f_ops fc \<and> f_action fc' = f_action fc \<and> f_pending fc' = f_pending fc \<and> f_calls fc' = f_calls fc"
proof (induction destroy ops fc rule: cancel_ops.induct)
  case (2 destroy d ops fc)
  then show ?case by (simp add: destroy_laws_def)
next
  case (3 destroy k ops fc)
  then show ?case by (auto simp: bind_eq_Some_conv ngx_proxy_wasm_foreign_call_destroy_def split: if_splits)
qed simp

text \<open>An answer for an operation that is no longer in the queue.\<close>

lemma answer_unlinked:
  assumes "Foreign (rs_call rs) \<notin> set (f_ops st)"
  shows "ngx_proxy_wasm_hfuncs_resolve_handler E G rs state addrs st = None"
proof (cases "store_answer E rs state (choose_addr E addrs) (st\<lparr>f_pending := remove1 rs (f_pending st)\<rparr>)")
  case (Some r)
  obtain ok st1 where r: "r = (ok, st1)" by (cases r)
  from Some r have "f_ops st1 = f_ops st"
    by (auto simp: store_answer_def answer_bytes_def Let_def bind_eq_Some_conv split: if_splits option.splits prod.splits)
  with Some r assms show ?thesis
    by (simp add: ngx_proxy_wasm_hfuncs_resolve_handler_def ngx_proxy_wasm_foreign_callback_def unlink_op_def bind_eq_None_conv)
qed (simp add: ngx_proxy_wasm_hfuncs_resolve_handler_def)

text \<open>
  Cancelling the operations of a filter (which a local response does) empties their queue, but the resolver keeps its contexts: they are
  pending as before, with their calls, and when the resolver of nginx answers, its handler takes the operation out of the queue a second
  time.
\<close>

theorem cancelled_call_still_pending:
  assumes "ngx_proxy_wasm_dispatch_ops_cancel destroy st = Some st'" and "destroy_laws destroy"
    and "rs \<in> set (f_pending st)"
  shows "rs \<in> set (f_pending st') \<and> f_calls st' = f_calls st \<and> f_ops st' = [] \<and>
    ngx_proxy_wasm_hfuncs_resolve_handler E G rs state addrs st' = None"
proof -
  from cancel_ops_frame [OF assms(1) [unfolded ngx_proxy_wasm_dispatch_ops_cancel_def] assms(2)] assms(3)
  have *: "rs \<in> set (f_pending st')" "f_calls st' = f_calls st" "f_ops st' = []" by simp_all
  with answer_unlinked [of rs st'] show ?thesis by simp
qed

section \<open>An instance\<close>

definition demo_fc_acl :: acl where
  "demo_fc_acl = \<lparr>acl_rules = \<lparr>acl_name = [97], addrs_v4 = [(0x0a000000, 0xff000000, ACL_DENY)], addrs_v6 = [], hosts_arr = [],
     hosts_hash = [(bytes_of_string ''api'', ACL_ALLOW, False)]\<rparr>, recorded_addrs = []\<rparr>"

definition demo_fc_env :: "unit fc_env" where
  "demo_fc_env = \<lparr>fe_acl = demo_acl_env, fe_alloc = (\<lambda>n. True), fe_sock_alloc = True, fe_rctx_ok = True, fe_resolver_ok = True,
     fe_resolve = (\<lambda>n. if n = bytes_of_string ''api'' then Answer 0 [AF_INET 0x01020304 0] else Pending), fe_lua_resolve = (\<lambda>n. No_answer),
     fe_random = 0, fe_free_buf = (\<lambda>n. True), fe_guest = (\<lambda>s st. []), lua = True\<rparr>"

definition demo_fc_guest :: "unit hguest" where
  "demo_fc_guest = \<lparr>h_malloc = (\<lambda>n mem w. (32, mem, w))\<rparr>"

text \<open>The memory of the guest has the name of the function and two names.\<close>

definition demo_fctx :: "unit fctx" where
  "demo_fctx = \<lparr>f_mem = replicate 8 0 @ bytes_of_string ''resolve'' @ [0] @ bytes_of_string ''api'' @ replicate 45 0, f_world = (),
     f_acl = Some demo_fc_acl, f_step = STEP_REQ_HEADERS, f_phase = REWRITE_PHASE, f_action = ACTION_CONTINUE, f_env = STATE_CONTINUE,
     f_calls = Map.empty, f_next = 0, f_ops = [], f_pending = [], f_cur = None, f_resumed = 0\<rparr>"

definition demo_resolved :: "unit fctx" where
  "demo_resolved = snd (the (ngx_proxy_wasm_hfuncs_call_foreign_function demo_fc_env demo_fc_guest 8 7 16 3 24 28 demo_fctx))"

definition demo_answers :: "bytes \<Rightarrow> sockaddr \<Rightarrow> bool" where
  "demo_answers name sa \<longleftrightarrow> name = bytes_of_string ''api'' \<and> sa = AF_INET 0x01020304 0"

theorem resolved_addresses_permitted_witness:
  "\<exists>l. f_acl demo_resolved = Some l \<and> ngx_wasm_acl_check_addr demo_acl_env l (AF_INET 0x01020304 80) = NGX_OK \<and>
    (\<exists>sa' name. same_host sa' (AF_INET 0x01020304 80) \<and> demo_answers name sa')"
proof -
  have "ngx_proxy_wasm_hfuncs_call_foreign_function demo_fc_env demo_fc_guest 8 7 16 3 24 28 demo_fctx \<noteq> None" by code_simp
  then obtain ret where c: "ngx_proxy_wasm_hfuncs_call_foreign_function demo_fc_env demo_fc_guest 8 7 16 3 24 28 demo_fctx = Some (ret, demo_resolved)"
    by (auto simp: demo_resolved_def)
  have reach: "fc_reach demo_fc_env demo_fc_guest demo_answers demo_fctx demo_resolved"
    by (rule fc_call [OF fc_start c])
  let ?l = "demo_fc_acl\<lparr>recorded_addrs := [CIDR_IN 0x01020304 0xffffffff]\<rparr>"
  have acl: "f_acl demo_resolved = Some ?l" by code_simp
  have ok: "ngx_wasm_acl_check_addr (fe_acl demo_fc_env) ?l (AF_INET 0x01020304 80) = NGX_OK" by code_simp
  have nr: "ngx_wasm_acl_tree_lookup (fe_acl demo_fc_env) (acl_rules demo_fc_acl) (AF_INET 0x01020304 80) \<noteq> Some ACL_ALLOW" by code_simp
  have laws: "resolver_laws demo_fc_env demo_answers"
    by (auto simp: resolver_laws_def demo_fc_env_def demo_answers_def split: if_splits)
  have "f_acl demo_fctx = Some \<lparr>acl_rules = acl_rules demo_fc_acl, recorded_addrs = []\<rparr>" "f_pending demo_fctx = []"
    "cidr_laws (fe_acl demo_fc_env)"
    using demo_cidr_laws by (simp_all add: demo_fctx_def demo_fc_acl_def demo_fc_env_def)
  from resolved_addresses_permitted [OF reach laws this(3,1,2) acl ok] nr
  have "\<exists>sa' name. same_host sa' (AF_INET 0x01020304 80) \<and> demo_answers name sa'" by blast
  with acl ok show ?thesis by (auto simp: demo_fc_env_def)
qed

text \<open>A call that is pending, and cancelled.\<close>

definition demo_pending :: "unit fctx" where
  "demo_pending = snd (the (ngx_proxy_wasm_hfuncs_call_foreign_function (demo_fc_env\<lparr>fe_acl := demo_acl_env, fe_resolve := \<lambda>n. Pending\<rparr>)
     demo_fc_guest 8 7 16 3 24 28 demo_fctx))"

definition demo_rslv :: rslv_ctx where
  "demo_rslv = \<lparr>rs_call = 0, rs_off = Some 16, rs_len = 3, rs_query = bytes_of_string ''api''\<rparr>"

theorem cancelled_call_still_pending_witness:
  "ngx_proxy_wasm_hfuncs_resolve_handler demo_fc_env demo_fc_guest demo_rslv 0 [AF_INET 1 0] demo_pending \<noteq> None \<and>
   (\<exists>st'. ngx_proxy_wasm_dispatch_ops_cancel (\<lambda>d st. st) demo_pending = Some st' \<and> demo_rslv \<in> set (f_pending st') \<and>
     ngx_proxy_wasm_hfuncs_resolve_handler demo_fc_env demo_fc_guest demo_rslv 0 [AF_INET 1 0] st' = None)"
proof -
  have "ngx_proxy_wasm_dispatch_ops_cancel (\<lambda>d st. st) demo_pending \<noteq> None" by code_simp
  then obtain st' where c: "ngx_proxy_wasm_dispatch_ops_cancel (\<lambda>d st. st) demo_pending = Some st'" by blast
  have d: "destroy_laws (\<lambda>d (st :: unit fctx). st)" by (simp add: destroy_laws_def)
  have p: "f_pending demo_pending = [demo_rslv]" by code_simp
  have "ngx_proxy_wasm_hfuncs_resolve_handler demo_fc_env demo_fc_guest demo_rslv 0 [AF_INET 1 0] demo_pending \<noteq> None"
    by code_simp
  with cancelled_call_still_pending [OF c d, of demo_rslv] p c show ?thesis by simp
qed

end
