(* ===== verification/Http_Dispatch.thy ===== *)
theory Http_Dispatch
  imports Foreign_Call Proxy_Wasm_Maps
begin

text \<open>
  HTTP requests that filters send themselves (src/src/http/proxy_wasm/ngx_http_proxy_wasm_dispatch.c): the host function makes a call and
  posts an event; its handler connects, sends the request and reads the response, going on whenever the socket is ready; in the end the
  guest is called back. Sockets and the reader of the response are parameters.
\<close>

section \<open>State\<close>

datatype dispatch_state = DISPATCH_START | DISPATCH_CONNECTING | DISPATCH_SENDING | DISPATCH_RECEIVING | DISPATCH_RECEIVED

datatype dispatch_err =
    DISPATCH_ERR_NONE | DISPATCH_ERR_BAD_METHOD | DISPATCH_ERR_BAD_PATH | DISPATCH_ERR_BAD_STEP | DISPATCH_ERR_NOMEM
  | DISPATCH_ERR_MARSHALLING | DISPATCH_ERR_UNKNOWN

text \<open>
  A call. The hash of a header says whether it is sent. \<open>dc_body\<close> are the bytes of \<open>req_body\<close>, \<open>dc_out\<close> those of \<open>req_out\<close>, and \<open>dc_ev\<close> says
  whether the event of the call is posted.
\<close>

record dcall =
  dc_id :: u32
  dc_timeout :: u32
  dc_error :: dispatch_err
  dc_host :: bytes
  dc_method :: bytes
  dc_path :: bytes
  dc_authority :: bytes
  dc_ssl :: bool
  dc_headers :: "table_elt list"
  dc_trailers :: "table_elt list"
  dc_body :: bytes
  dc_out :: "bytes option"
  dc_ev :: bool
  dc_state :: dispatch_state

definition fresh_call :: dcall where
  "fresh_call = \<lparr>dc_id = 0, dc_timeout = 0, dc_error = DISPATCH_ERR_NONE, dc_host = [], dc_method = [], dc_path = [], dc_authority = [],
     dc_ssl = False, dc_headers = [], dc_trailers = [], dc_body = [], dc_out = None, dc_ev = False, dc_state = DISPATCH_START\<rparr>"

text \<open>
  The context of a filter: \<open>d_calls\<close> are the calls that are allocated, by their number, \<open>d_ops\<close> the operations that are pending and \<open>d_posted\<close>
  the calls whose event is posted. \<open>d_request\<close> says whether the context has a request. \<open>d_called\<close> are the calls for which the guest was
  called back, and \<open>d_resumed\<close> counts how often the request was resumed.
\<close>

record 'g dctx =
  d_mem :: bytes
  d_world :: 'g
  d_acl :: "acl option"
  d_request :: bool
  d_step :: pw_step
  d_phase :: ngx_phase
  d_in_tick :: bool
  d_action :: pw_action
  d_env :: env_state
  d_trapped :: bool
  d_ids :: u32
  d_calls :: "nat \<rightharpoonup> dcall"
  d_next :: nat
  d_ops :: "dispatch_op list"
  d_posted :: "nat list"
  d_cur :: "nat option"
  d_called :: "nat list"
  d_resumed :: nat

text \<open>What a guest does in a step, as far as dispatches are concerned: it makes a call, with ten arguments, or answers the request itself.\<close>

datatype dguest = D_call u32 u32 u32 u32 u32 u32 u32 u32 u32 u32 | D_respond

text \<open>
  Used of nginx: memory (for the parts of a call, for pairs and for buffers), the fake request outside of a request, sockets and the reader of
  the response, whether the build has TLS; and the guest, with whether it returns from the step.
\<close>

record 'g d_env_of =
  de_acl :: acl_env
  de_map :: map_env
  de_alloc :: "nat \<Rightarrow> bool"
  de_pairs :: "nat \<Rightarrow> bool"
  de_free_buf :: "nat \<Rightarrow> bool"
  de_fake_rctx :: bool
  de_fake_request :: http_request
  de_sock_init :: "bytes \<Rightarrow> bool \<Rightarrow> bytes \<Rightarrow> bool"
  de_reader_init :: bool
  de_tls :: bool
  de_guest :: "pw_step \<Rightarrow> 'g dctx \<Rightarrow> dguest list \<times> bool"
  de_resume_rc :: ngx_rc

text \<open>What the socket of a call answers when the handler runs: an earlier error, the results of connecting, sending and reading, and its peer.\<close>

record sock_run =
  sr_err :: bool
  sr_connect :: ngx_rc
  sr_send :: ngx_rc
  sr_read :: ngx_rc
  sr_unix :: bool
  sr_host :: bytes

section \<open>Making a call\<close>

text \<open>
  The headers of the guest: those with a colon are parts of the request, and two that the request has anyway are not sent.
\<close>

definition skipped_header :: "map_env \<Rightarrow> bytes \<Rightarrow> bool" where
  "skipped_header M k \<longleftrightarrow>
     length k = 4 \<and> strncase_eq (strs M) k (bytes_of_string ''Host'') \<or>
     length k = 10 \<and> strncase_eq (strs M) k (bytes_of_string ''Connection'')"

definition scan_header :: "bool \<Rightarrow> map_env \<Rightarrow> table_elt \<Rightarrow> dcall \<Rightarrow> dcall" where
  "scan_header tls M e c =
     (let k = elt_key e; v = elt_value e; add = (\<lambda>h c. c\<lparr>dc_headers := dc_headers c @ [e\<lparr>elt_hash := h\<rparr>]\<rparr>) in
      if take 1 k = [58] then
        add 0 (if k = bytes_of_string '':method'' then c\<lparr>dc_method := v\<rparr>
          else if k = bytes_of_string '':path'' then c\<lparr>dc_path := v\<rparr>
          else if k = bytes_of_string '':authority'' then c\<lparr>dc_authority := v\<rparr>
          else if k = bytes_of_string '':scheme'' \<and> tls \<and> v = bytes_of_string ''https'' then c\<lparr>dc_ssl := True\<rparr>
          else c)
      else if skipped_header M k then add 0 c
      else add 1 c)"

fun scan_headers :: "bool \<Rightarrow> map_env \<Rightarrow> table_elt list \<Rightarrow> dcall \<Rightarrow> dcall" where
  "scan_headers tls M [] c = c"
| "scan_headers tls M (e # es) c = scan_headers tls M es (scan_header tls M e c)"

definition upd_call :: "nat \<Rightarrow> (dcall \<Rightarrow> dcall) \<Rightarrow> 'g dctx \<Rightarrow> 'g dctx" where
  "upd_call k f st = st\<lparr>d_calls := (d_calls st)(k := map_option f (d_calls st k))\<rparr>"

text \<open>Destroying a call deletes its event. A call that is not allocated is freed twice, which is undefined.\<close>

definition ngx_http_proxy_wasm_dispatch_destroy :: "nat \<Rightarrow> 'g dctx \<Rightarrow> 'g dctx option" where
  "ngx_http_proxy_wasm_dispatch_destroy k st =
     (case d_calls st k of
        None \<Rightarrow> None
      | Some c \<Rightarrow> Some (st\<lparr>d_posted := (if dc_ev c then removeAll k (d_posted st) else d_posted st), d_calls := (d_calls st)(k := None)\<rparr>))"

text \<open>
  The call is made in stages. An error destroys the call again; outside of a tick with its fake request it also leaves a message in the instance,
  for which the host function traps.
\<close>

definition call_parts :: "'g d_env_of \<Rightarrow> bytes \<Rightarrow> u32 \<Rightarrow> table_elt list \<Rightarrow> table_elt list \<Rightarrow> bytes \<Rightarrow> dcall \<Rightarrow> dcall" where
  "call_parts E host timeout hs ts body c =
     scan_headers (de_tls E) (de_map E) hs (c\<lparr>dc_host := host, dc_timeout := timeout, dc_trailers := ts, dc_body := body\<rparr>)"

definition call_ready :: "'g d_env_of \<Rightarrow> dcall \<Rightarrow> dispatch_err option" where
  "call_ready E c =
     (if dc_method c = [] then Some DISPATCH_ERR_BAD_METHOD
      else if dc_path c = [] then Some DISPATCH_ERR_BAD_PATH
      else if dc_body c \<noteq> [] \<and> \<not> de_free_buf E (length (dc_body c)) \<or> \<not> de_sock_init E (dc_host c) (dc_ssl c) (dc_authority c) \<or>
        \<not> de_reader_init E \<or> \<not> de_alloc E 3 \<or> \<not> de_alloc E 4 then Some DISPATCH_ERR_NONE
      else None)"

definition ngx_http_proxy_wasm_dispatch ::
  "'g d_env_of \<Rightarrow> bytes \<Rightarrow> (nat \<times> bytes) \<Rightarrow> (nat \<times> bytes) \<Rightarrow> bytes \<Rightarrow> u32 \<Rightarrow> 'g dctx \<Rightarrow> ((nat option \<times> bool) \<times> 'g dctx) option" where
  "ngx_http_proxy_wasm_dispatch E host headers trailers body timeout st =
     (if \<not> d_request st \<and> \<not> de_fake_rctx E \<or> \<not> de_alloc E 0 then Some ((None, False), st)
      else do {
        let k = d_next st;
        let st0 = st\<lparr>d_next := Suc k, d_calls := (d_calls st)(k \<mapsto> fresh_call)\<rparr>;
        let fail = (\<lambda>err st. do {
          st1 \<leftarrow> ngx_http_proxy_wasm_dispatch_destroy k (upd_call k (\<lambda>c. c\<lparr>dc_error := err\<rparr>) st);
          Some ((None, d_request st), st1\<lparr>d_cur := None\<rparr>) });
        if \<not> d_in_tick st \<and> (d_step st = STEP_LOG \<or> d_step st = STEP_DONE) then fail DISPATCH_ERR_BAD_STEP st0
        else if \<not> de_alloc E 1 then fail DISPATCH_ERR_NOMEM st0
        else do {
          let st1 = upd_call k (\<lambda>c. c\<lparr>dc_id := d_ids st\<rparr>) (st0\<lparr>d_ids := d_ids st + 1\<rparr>);
          if \<not> de_alloc E 2 then fail DISPATCH_ERR_NOMEM st1
          else do {
            (rc1, hs) \<leftarrow> ngx_proxy_wasm_pairs_unmarshal (de_pairs E) (fst headers) (snd headers);
            if rc1 \<noteq> NGX_OK then fail DISPATCH_ERR_MARSHALLING st1
            else do {
              (rc2, ts) \<leftarrow> ngx_proxy_wasm_pairs_unmarshal (de_pairs E) (fst trailers) (snd trailers);
              if rc2 \<noteq> NGX_OK then fail DISPATCH_ERR_MARSHALLING st1
              else do {
                let c = call_parts E host timeout hs ts body (fresh_call\<lparr>dc_id := d_ids st\<rparr>);
                let st2 = upd_call k (\<lambda>_. c) st1;
                case call_ready E c of
                  Some err \<Rightarrow> fail err st2
                | None \<Rightarrow> Some ((Some k, False), (upd_call k (\<lambda>c. c\<lparr>dc_ev := True\<rparr>) st2)\<lparr>d_posted := d_posted st2 @ [k],
                    d_ops := Http_call k # d_ops st2, d_action := ACTION_PAUSE\<rparr>) } } } } })"

section \<open>Host function and guest\<close>

text \<open>A result for the guest, or a trap.\<close>

datatype dispatch_ret = D_result pw_result | D_trap

definition ngx_proxy_wasm_hfuncs_dispatch_http_call ::
  "'g d_env_of \<Rightarrow> u32 \<Rightarrow> u32 \<Rightarrow> u32 \<Rightarrow> u32 \<Rightarrow> u32 \<Rightarrow> u32 \<Rightarrow> u32 \<Rightarrow> u32 \<Rightarrow> u32 \<Rightarrow> u32 \<Rightarrow> 'g dctx \<Rightarrow> (dispatch_ret \<times> 'g dctx) option" where
  "ngx_proxy_wasm_hfuncs_dispatch_http_call E host_ptr host_len hs_ptr hs_len body_ptr body_len ts_ptr ts_len timeout id_ptr st =
     (if d_step st \<notin> set resolve_steps then Some (D_trap, st)
      else let mem = d_mem st; from = (\<lambda>p. case p of None \<Rightarrow> [] | Some off \<Rightarrow> drop off mem) in
        case ngx_wavm_memory_lift mem host_ptr host_len 1 of
          None \<Rightarrow> Some (D_trap, st)
        | Some hp \<Rightarrow>
            if (case d_acl st of None \<Rightarrow> False | Some l \<Rightarrow> ngx_wasm_acl_check_host (de_acl E) l (read_slice mem hp host_len) \<noteq> NGX_OK)
            then Some (D_trap, st)
            else (case (ngx_wavm_memory_lift mem hs_ptr hs_len 1, ngx_wavm_memory_lift mem body_ptr body_len 1,
                ngx_wavm_memory_lift mem ts_ptr ts_len 1, lift_u32 mem id_ptr) of
                (Some hs, Some bp, Some ts, Some idp) \<Rightarrow> do {
                  ((res, trap), st1) \<leftarrow> ngx_http_proxy_wasm_dispatch E (read_slice mem hp host_len) (unat hs_len, from hs) (unat ts_len, from ts)
                    (read_slice mem bp body_len) timeout st;
                  case res of
                    None \<Rightarrow> Some (if trap then D_trap else D_result RESULT_INTERNAL_FAILURE, st1)
                  | Some k \<Rightarrow> do {
                      c \<leftarrow> d_calls st1 k;
                      mem1 \<leftarrow> buf_write (d_mem st1) idp (le32 (dc_id c));
                      Some (D_result RESULT_OK, st1\<lparr>d_mem := mem1\<rparr>) } }
              | _ \<Rightarrow> Some (D_trap, st)))"

text \<open>
  Cancelling the operations that are pending, when a filter answers itself. What this does to foreign calls is modelled with them.
\<close>

fun cancel_calls :: "dispatch_op list \<Rightarrow> 'g dctx \<Rightarrow> 'g dctx option" where
  "cancel_calls [] st = Some st"
| "cancel_calls (Http_call k # ops) st = ngx_http_proxy_wasm_dispatch_destroy k st \<bind> cancel_calls ops"
| "cancel_calls (Foreign j # ops) st = cancel_calls ops st"

text \<open>The guest runs until it traps; the answer says whether it did not.\<close>

fun run_dguest :: "'g d_env_of \<Rightarrow> dguest list \<Rightarrow> 'g dctx \<Rightarrow> (bool \<times> 'g dctx) option" where
  "run_dguest E [] st = Some (True, st)"
| "run_dguest E (D_call a b c d e f g h i j # cs) st = do {
     (r, st1) \<leftarrow> ngx_proxy_wasm_hfuncs_dispatch_http_call E a b c d e f g h i j st;
     if r = D_trap then Some (False, st1) else run_dguest E cs st1 }"
| "run_dguest E (D_respond # cs) st = do {
     st1 \<leftarrow> cancel_calls (d_ops st) (st\<lparr>d_ops := []\<rparr>);
     run_dguest E cs st1 }"

section \<open>The request\<close>

text \<open>The headers of the call are added to the fake request, which escapes them.\<close>

fun add_headers :: "bool \<Rightarrow> map_env \<Rightarrow> table_elt list \<Rightarrow> http_request \<Rightarrow> (http_request option) option" where
  "add_headers dbg M [] r = Some (Some r)"
| "add_headers dbg M (e # es) r =
     (if elt_hash e = 0 then add_headers dbg M es r
      else do {
        (rc, r1) \<leftarrow> ngx_http_wasm_set_req_header dbg (strs M) (clears M) (elt_key e) (Some (elt_value e)) HEADERS_APPEND r;
        if rc \<noteq> NGX_OK then Some None else add_headers dbg M es r1 })"

definition crlf :: bytes where
  "crlf = [13, 10]"

text \<open>Whether the length of the body is written: not when the guest has given a length of its own.\<close>

definition writes_length :: "http_request \<Rightarrow> bool" where
  "writes_length r \<longleftrightarrow> builtins (headers_in r) ''content_length'' = None"

definition head_size :: "dcall \<Rightarrow> http_request \<Rightarrow> nat" where
  "head_size c r = (length (dc_method c) + 1 + length (dc_path c) + 1 + 10) + (4 + 2 + length (dc_authority c) + 2) + (10 + 7 + 2) +
     (if writes_length r then 14 + 2 + 20 + 2 else 0) +
     sum_list (map (\<lambda>e. length (e_key e) + 2 + length (e_value e) + 2) (elts (headers_in r))) + 2"

definition head_chunks :: "map_env \<Rightarrow> dcall \<Rightarrow> http_request \<Rightarrow> bytes list" where
  "head_chunks M c r = [dc_method c, [32], dc_path c, [32], bytes_of_string ''HTTP/1.1'' @ crlf,
       bytes_of_string ''Host'', [58, 32], dc_authority c, crlf, bytes_of_string ''Connection'', bytes_of_string '': close'' @ crlf] @
     (if writes_length r then [bytes_of_string ''Content-Length'', [58, 32] @ dec M (int (length (dc_body c))) @ crlf] else []) @
     concat (map (\<lambda>e. [e_key e, [58, 32], e_value e, crlf]) (elts (headers_in r))) @ [crlf]"

fun emit_all :: "bytes list \<Rightarrow> bytes \<times> nat \<Rightarrow> (bytes \<times> nat) option" where
  "emit_all [] st = Some st"
| "emit_all (x # xs) st = emit x st \<bind> emit_all xs"

definition with_authority :: "sock_run \<Rightarrow> dcall \<Rightarrow> dcall" where
  "with_authority R c =
     (if dc_authority c = [] then c\<lparr>dc_authority := (if sr_unix R then bytes_of_string ''localhost'' else sr_host R)\<rparr> else c)"

text \<open>
  The request is made once; its authority is that of the guest, or the host of the socket. The inner \<open>None\<close> is an error, and a write behind
  the buffer is undefined.
\<close>

definition ngx_http_proxy_wasm_dispatch_request :: "bool \<Rightarrow> 'g d_env_of \<Rightarrow> sock_run \<Rightarrow> dcall \<Rightarrow> (bytes \<times> dcall) option option" where
  "ngx_http_proxy_wasm_dispatch_request dbg E R c =
     (case dc_out c of
        Some out \<Rightarrow> Some (Some (out, c))
      | None \<Rightarrow> do {
          let c1 = with_authority R c;
          res \<leftarrow> add_headers dbg (de_map E) (dc_headers c1) (de_fake_request E);
          case res of
            None \<Rightarrow> Some None
          | Some r \<Rightarrow>
              let len = head_size c1 r in
              if \<not> de_free_buf E len then Some None
              else do {
                (buf, n) \<leftarrow> emit_all (head_chunks (de_map E) c1 r) (replicate len 0, 0);
                let out = take n buf @ dc_body c1;
                Some (Some (out, c1\<lparr>dc_out := Some out\<rparr>)) } })"

section \<open>The handler\<close>

definition invoke_on_http_dispatch_response :: "'g d_env_of \<Rightarrow> nat \<Rightarrow> 'g dctx \<Rightarrow> (ngx_rc \<times> 'g dctx) option" where
  "invoke_on_http_dispatch_response E k st = do {
     let st1 = st\<lparr>d_cur := Some k, d_phase := BACKGROUND_PHASE, d_step := STEP_DISPATCH_RESPONSE\<rparr>;
     if d_trapped st then Some (NGX_ERROR, st1)
     else do {
       let st2 = st1\<lparr>d_called := d_called st1 @ [k]\<rparr>;
       let (calls, returns) = de_guest E STEP_DISPATCH_RESPONSE st2;
       (ok, st3) \<leftarrow> run_dguest E calls st2;
       if ok \<and> returns then Some (NGX_OK, st3\<lparr>d_step := d_step st, d_cur := None\<rparr>)
       else Some (NGX_ERROR, st3\<lparr>d_trapped := True\<rparr>) } }"

definition ngx_http_proxy_wasm_dispatch_err :: "'g d_env_of \<Rightarrow> nat \<Rightarrow> bool \<Rightarrow> 'g dctx \<Rightarrow> 'g dctx option" where
  "ngx_http_proxy_wasm_dispatch_err E k resume st = do {
     st1 \<leftarrow> (if resume then map_option snd (invoke_on_http_dispatch_response E k st) else Some st);
     st2 \<leftarrow> ngx_http_proxy_wasm_dispatch_destroy k st1;
     Some (st2\<lparr>d_cur := None\<rparr>) }"

text \<open>How far a run of the handler gets; an error comes with the return code of the socket at that point.\<close>

datatype dispatch_progress = Progress_again | Progress_error ngx_rc | Progress_received

text \<open>The states of a call, each of which falls through to the next one when the socket is done with it.\<close>

definition dispatch_receiving :: "bool \<Rightarrow> sock_run \<Rightarrow> nat \<Rightarrow> 'g dctx \<Rightarrow> (dispatch_progress \<times> 'g dctx) option" where
  "dispatch_receiving dbg R k st =
     (if sr_read R = NGX_ERROR then Some (Progress_error NGX_ERROR, st)
      else if sr_read R = NGX_AGAIN then Some (Progress_again, st)
      else if \<not> ngx_wa_assert dbg (sr_read R = NGX_OK) then None
      else Some (Progress_received, upd_call k (\<lambda>c. c\<lparr>dc_state := DISPATCH_RECEIVED\<rparr>) st))"

text \<open>\<open>rc\<close> is the return code before: that of connecting, or an error when the handler starts here.\<close>

definition dispatch_sending :: "bool \<Rightarrow> 'g d_env_of \<Rightarrow> sock_run \<Rightarrow> ngx_rc \<Rightarrow> nat \<Rightarrow> 'g dctx \<Rightarrow> (dispatch_progress \<times> 'g dctx) option" where
  "dispatch_sending dbg E R rc k st = do {
     c \<leftarrow> d_calls st k;
     res \<leftarrow> ngx_http_proxy_wasm_dispatch_request dbg E R c;
     case res of
       None \<Rightarrow> Some (Progress_error rc, st)
     | Some (out, c1) \<Rightarrow>
         let st1 = upd_call k (\<lambda>_. c1) st in
         if sr_send R = NGX_ERROR then Some (Progress_error NGX_ERROR, st1)
         else if sr_send R = NGX_AGAIN then Some (Progress_again, st1)
         else if \<not> ngx_wa_assert dbg (sr_send R = NGX_OK) then None
         else dispatch_receiving dbg R k (upd_call k (\<lambda>c. c\<lparr>dc_state := DISPATCH_RECEIVING\<rparr>) st1) }"

definition dispatch_connecting :: "bool \<Rightarrow> 'g d_env_of \<Rightarrow> sock_run \<Rightarrow> nat \<Rightarrow> 'g dctx \<Rightarrow> (dispatch_progress \<times> 'g dctx) option" where
  "dispatch_connecting dbg E R k st =
     (if sr_connect R = NGX_ERROR then Some (Progress_error NGX_ERROR, st)
      else if sr_connect R = NGX_AGAIN then Some (Progress_again, st)
      else if \<not> ngx_wa_assert dbg (sr_connect R = NGX_OK) then None
      else dispatch_sending dbg E R (sr_connect R) k (upd_call k (\<lambda>c. c\<lparr>dc_state := DISPATCH_SENDING\<rparr>) st))"

definition dispatch_advance :: "bool \<Rightarrow> 'g d_env_of \<Rightarrow> sock_run \<Rightarrow> nat \<Rightarrow> 'g dctx \<Rightarrow> (dispatch_progress \<times> 'g dctx) option" where
  "dispatch_advance dbg E R k st = do {
     c \<leftarrow> d_calls st k;
     if sr_err R then Some (Progress_error NGX_ERROR, st)
     else (case dc_state c of
         DISPATCH_START \<Rightarrow> dispatch_connecting dbg E R k (upd_call k (\<lambda>c. c\<lparr>dc_state := DISPATCH_CONNECTING\<rparr>) st)
       | DISPATCH_CONNECTING \<Rightarrow> dispatch_connecting dbg E R k st
       | DISPATCH_SENDING \<Rightarrow> dispatch_sending dbg E R NGX_ERROR k st
       | DISPATCH_RECEIVING \<Rightarrow> dispatch_receiving dbg R k st
       | DISPATCH_RECEIVED \<Rightarrow> Some (Progress_received, st)) }"

text \<open>A call that has failed, or has been received by an instance that has trapped meanwhile, is reported to the guest as well.\<close>

definition dispatch_finish :: "'g d_env_of \<Rightarrow> nat \<Rightarrow> dispatch_progress \<Rightarrow> 'g dctx \<Rightarrow> (ngx_rc \<times> 'g dctx) option" where
  "dispatch_finish E k p st = do {
     let st1 = st\<lparr>d_ops := remove1 (Http_call k) (d_ops st)\<rparr>;
     case p of
       Progress_again \<Rightarrow> Some (NGX_AGAIN, st)
     | Progress_error rc \<Rightarrow> do { st2 \<leftarrow> ngx_http_proxy_wasm_dispatch_err E k True st1; Some (rc, st2) }
     | Progress_received \<Rightarrow>
         if d_trapped st then do { st2 \<leftarrow> ngx_http_proxy_wasm_dispatch_err E k True st1; Some (NGX_ERROR, st2) }
         else do {
           (rc, st2) \<leftarrow> invoke_on_http_dispatch_response E k st1;
           if rc \<noteq> NGX_OK then do { st3 \<leftarrow> ngx_http_proxy_wasm_dispatch_err E k False st2; Some (NGX_ERROR, st3) }
           else do { st3 \<leftarrow> ngx_http_proxy_wasm_dispatch_destroy k st2; Some (NGX_OK, st3) } } }"

text \<open>
  When no operation is pending any more, the filters go on with the step they are in, unless the instance has trapped; the return code of
  the chain is a parameter.
\<close>

definition ngx_http_proxy_wasm_dispatch_resume_handler ::
  "bool \<Rightarrow> 'g d_env_of \<Rightarrow> sock_run \<Rightarrow> nat \<Rightarrow> 'g dctx \<Rightarrow> (ngx_rc \<times> 'g dctx) option" where
  "ngx_http_proxy_wasm_dispatch_resume_handler dbg E R k st = do {
     (p, st1) \<leftarrow> dispatch_advance dbg E R k st;
     (rc, st2) \<leftarrow> dispatch_finish E k p st1;
     if d_ops st2 \<noteq> [] then Some (NGX_AGAIN, st2\<lparr>d_env := STATE_YIELD, d_action := ACTION_PAUSE\<rparr>)
     else do {
       let st3 = st2\<lparr>d_env := STATE_CONTINUE, d_action := ACTION_CONTINUE\<rparr>;
       if rc = NGX_ERROR then Some (rc, st3)
       else if d_trapped st3 then Some (de_resume_rc E, st3)
       else do {
         let (calls, returns) = de_guest E (d_step st3) st3;
         (ok, st4) \<leftarrow> run_dguest E calls st3;
         Some (de_resume_rc E, st4\<lparr>d_trapped := \<not> (ok \<and> returns)\<rparr>) } } }"

definition ngx_http_proxy_wasm_dispatch_handler :: "bool \<Rightarrow> 'g d_env_of \<Rightarrow> sock_run \<Rightarrow> nat \<Rightarrow> 'g dctx \<Rightarrow> 'g dctx option" where
  "ngx_http_proxy_wasm_dispatch_handler dbg E R k st = do {
     c \<leftarrow> d_calls st k;
     (rc, st1) \<leftarrow> ngx_http_proxy_wasm_dispatch_resume_handler dbg E R k
       (upd_call k (\<lambda>c. c\<lparr>dc_ev := False\<rparr>) (st\<lparr>d_posted := removeAll k (d_posted st)\<rparr>));
     Some (if rc \<noteq> NGX_AGAIN then st1\<lparr>d_resumed := Suc (d_resumed st1)\<rparr> else st1) }"

end
