(* ===== verification/Http_Dispatch_Props.thy ===== *)
theory Http_Dispatch_Props
  imports Http_Dispatch Proxy_Wasm_Maps_Props Acl_Props
begin

text \<open>
  Properties of dispatched calls: every call is reported to the guest at most once and no event is left for a call that was freed; the
  request that is sent has the lines it should have.
\<close>

section \<open>Calls, operations and events\<close>

text \<open>What the invariant is about: the operations, the posted events, the calls reported, the next number, and for each call that is allocated whether its event is posted.\<close>

type_synonym dview = "dispatch_op list \<times> nat list \<times> nat list \<times> nat \<times> (nat \<Rightarrow> bool option)"

definition dview :: "'g dctx \<Rightarrow> dview" where
  "dview st = (d_ops st, d_posted st, d_called st, d_next st, (\<lambda>k. map_option dc_ev (d_calls st k)))"

text \<open>\<open>X\<close> are the calls that are not pending any more and not freed yet.\<close>

definition dinv :: "nat set \<Rightarrow> dview \<Rightarrow> bool" where
  "dinv X v = (case v of (ops, posted, called, next, evs) \<Rightarrow>
     distinct ops \<and> (\<forall>k. evs k \<noteq> None \<longleftrightarrow> Http_call k \<in> set ops \<or> k \<in> X) \<and> (\<forall>k \<in> X. Http_call k \<notin> set ops) \<and>
     (\<forall>k. k \<in> set posted \<longleftrightarrow> evs k = Some True) \<and> (\<forall>k. evs k \<noteq> None \<longrightarrow> k < next) \<and> (\<forall>k \<in> set called. k < next \<and> Http_call k \<notin> set ops) \<and>
     distinct called)"

lemma dinvI:
  assumes "distinct ops" "\<And>k. evs k \<noteq> None \<longleftrightarrow> Http_call k \<in> set ops \<or> k \<in> X" "\<And>k. k \<in> X \<Longrightarrow> Http_call k \<notin> set ops"
    "\<And>k. k \<in> set posted \<longleftrightarrow> evs k = Some True" "\<And>k. evs k \<noteq> None \<Longrightarrow> k < nxt" "\<And>k. k \<in> set called \<Longrightarrow> k < nxt \<and> Http_call k \<notin> set ops"
    "distinct called"
  shows "dinv X (ops, posted, called, nxt, evs)"
  using assms by (simp add: dinv_def)

lemma dview_upd_call: "(\<And>c. d_calls st k = Some c \<Longrightarrow> dc_ev (f c) = dc_ev c) \<Longrightarrow> dview (upd_call k f st) = dview st"
  by (auto simp: dview_def upd_call_def fun_eq_iff option.map_comp intro!: option.map_cong0 split: option.split)

lemma upd_call_simps [simp]:
  "d_request (upd_call k f st) = d_request st" "d_ops (upd_call k f st) = d_ops st" "d_called (upd_call k f st) = d_called st"
  "d_trapped (upd_call k f st) = d_trapped st" "d_posted (upd_call k f st) = d_posted st" "d_next (upd_call k f st) = d_next st"
  by (simp_all add: upd_call_def)

lemma dview_simps [simp]:
  "dview (st\<lparr>d_mem := m\<rparr>) = dview st" "dview (st\<lparr>d_cur := x\<rparr>) = dview st" "dview (st\<lparr>d_step := s\<rparr>) = dview st"
  "dview (st\<lparr>d_phase := p\<rparr>) = dview st" "dview (st\<lparr>d_action := a\<rparr>) = dview st" "dview (st\<lparr>d_env := e\<rparr>) = dview st"
  "dview (st\<lparr>d_trapped := t\<rparr>) = dview st" "dview (st\<lparr>d_ids := i\<rparr>) = dview st" "dview (st\<lparr>d_resumed := n\<rparr>) = dview st"
  "dview (st\<lparr>d_world := w\<rparr>) = dview st" "dview (st\<lparr>d_in_tick := b\<rparr>) = dview st" "dview (st\<lparr>d_request := b\<rparr>) = dview st"
  by (simp_all add: dview_def)

lemma destroy_inv:
  assumes "ngx_http_proxy_wasm_dispatch_destroy k st = Some st'" and "dinv X (dview st)" and "k \<in> X"
  shows "dinv (X - {k}) (dview st')" and "d_ops st' = d_ops st" and "d_called st' = d_called st" and "d_trapped st' = d_trapped st"
proof -
  obtain c where c: "d_calls st k = Some c"
    and st': "st' = st\<lparr>d_posted := (if dc_ev c then removeAll k (d_posted st) else d_posted st), d_calls := (d_calls st)(k := None)\<rparr>"
    using assms(1) by (auto simp: ngx_http_proxy_wasm_dispatch_destroy_def split: option.splits)
  from assms(2,3) c show "dinv (X - {k}) (dview st')" unfolding st' dview_def dinv_def by (auto split: if_splits)
  from st' show "d_ops st' = d_ops st" "d_called st' = d_called st" "d_trapped st' = d_trapped st" by simp_all
qed

lemma cancel_calls_inv:
  assumes "cancel_calls ops st = Some st'" and "dinv (X \<union> {k. Http_call k \<in> set ops}) (dview st)" and "X \<inter> {k. Http_call k \<in> set ops} = {}"
    and "distinct ops" and "d_ops st = []"
  shows "dinv X (dview st') \<and> d_called st' = d_called st \<and> d_ops st' = []"
  using assms
proof (induction ops st rule: cancel_calls.induct)
  case (2 k ops st)
  from 2(2) obtain st1 where st1: "ngx_http_proxy_wasm_dispatch_destroy k st = Some st1" "cancel_calls ops st1 = Some st'"
    by (auto simp: bind_eq_Some_conv)
  note d = destroy_inv [OF st1(1) 2(3)]
  have s: "X \<union> {j. Http_call j \<in> set (Http_call k # ops)} - {k} = X \<union> {j. Http_call j \<in> set ops}" using 2(4,5) by auto
  have "dinv (X \<union> {j. Http_call j \<in> set ops}) (dview st1)" using d(1) by (simp only: s) simp
  with 2(1) [OF st1] 2(4,5,6) d(2,3) show ?case by auto
next
  case (3 j ops st)
  have "{k. Http_call k \<in> set (Foreign j # ops)} = {k. Http_call k \<in> set ops}" by auto
  with 3 show ?case by auto
qed simp

section \<open>The guest\<close>

text \<open>A state in which the next call was allocated, and nothing else.\<close>

definition allocated :: "'g dctx \<Rightarrow> 'g dctx \<Rightarrow> bool" where
  "allocated st s \<longleftrightarrow> dview s = (d_ops st, d_posted st, d_called st, Suc (d_next st), (\<lambda>j. map_option dc_ev (d_calls st j))(d_next st := Some False))"

lemma allocated_inv:
  assumes "allocated st s" and "dinv X (dview st)"
  shows "dinv (insert (d_next st) X) (dview s)" and "d_next st \<notin> X"
proof -
  have evs: "\<forall>k. d_calls st k \<noteq> None \<longleftrightarrow> Http_call k \<in> set (d_ops st) \<or> k \<in> X" "\<forall>k. d_calls st k \<noteq> None \<longrightarrow> k < d_next st"
    using assms(2) by (simp_all add: dinv_def dview_def)
  have k: "d_calls st (d_next st) = None" "Http_call (d_next st) \<notin> set (d_ops st)" "d_next st \<notin> X"
    using evs by (metis less_irrefl)+
  then show "d_next st \<notin> X" by simp
  show "dinv (insert (d_next st) X) (dview s)"
    using assms k unfolding allocated_def dview_def dinv_def by (auto simp: less_Suc_eq)
qed

lemma allocated_upd: "allocated st s \<Longrightarrow> (\<And>c. d_calls s k = Some c \<Longrightarrow> dc_ev (f c) = dc_ev c) \<Longrightarrow> allocated st (upd_call k f s)"
  by (simp add: allocated_def dview_upd_call)

lemma allocated_fails:
  assumes "allocated st s" and "dinv X (dview st)"
    and "(ngx_http_proxy_wasm_dispatch_destroy (d_next st) (upd_call (d_next st) (\<lambda>c. c\<lparr>dc_error := err\<rparr>) s) \<bind>
      (\<lambda>s1. Some ((None, b), s1\<lparr>d_cur := None\<rparr>))) = Some ((res, trap), st')"
  shows "dinv X (dview st') \<and> d_called st' = d_called st \<and> (\<forall>k. res = Some k \<longrightarrow> d_calls st' k \<noteq> None)"
proof -
  let ?s = "upd_call (d_next st) (\<lambda>c. c\<lparr>dc_error := err\<rparr>) s"
  have a: "allocated st ?s" using assms(1) by (intro allocated_upd) simp_all
  from assms(3) obtain s1 where s1: "ngx_http_proxy_wasm_dispatch_destroy (d_next st) ?s = Some s1" "st' = s1\<lparr>d_cur := None\<rparr>" "res = None"
    by (auto simp: bind_eq_Some_conv)
  note i = allocated_inv [OF a assms(2)] and d = destroy_inv [OF s1(1) allocated_inv(1) [OF a assms(2)]]
  have "d_called ?s = d_called st" using a by (simp add: allocated_def dview_def)
  moreover have "insert (d_next st) X - {d_next st} = X" using i(2) by auto
  ultimately show ?thesis using d s1(2,3) by simp
qed

lemma call_parts_ev: "dc_ev (call_parts E host timeout hs ts body c) = dc_ev c"
proof -
  have "dc_ev (scan_headers tls M hs c) = dc_ev c" for tls M c
    by (induction hs arbitrary: c) (simp_all add: scan_header_def Let_def)
  then show ?thesis by (simp add: call_parts_def)
qed

lemma dispatch_inv:
  assumes "ngx_http_proxy_wasm_dispatch E host hs ts body timeout st = Some ((res, trap), st')" and "dinv X (dview st)"
  shows "dinv X (dview st') \<and> d_called st' = d_called st \<and> (\<forall>k. res = Some k \<longrightarrow> d_calls st' k \<noteq> None)"
proof (cases "\<not> d_request st \<and> \<not> de_fake_rctx E \<or> \<not> de_alloc E 0")
  case True
  with assms show ?thesis by (auto simp: ngx_http_proxy_wasm_dispatch_def)
next
  case a0: False
  let ?k = "d_next st"
  let ?st0 = "st\<lparr>d_next := Suc ?k, d_calls := (d_calls st)(?k \<mapsto> fresh_call)\<rparr>"
  let ?st1 = "upd_call ?k (\<lambda>c. c\<lparr>dc_id := d_ids st\<rparr>) (?st0\<lparr>d_ids := d_ids st + 1\<rparr>)"
  have s0: "allocated st ?st0" by (auto simp: allocated_def dview_def fresh_call_def)
  have s1: "allocated st ?st1" using s0 by (intro allocated_upd) (simp_all add: allocated_def)
  note u = assms(1) [unfolded ngx_http_proxy_wasm_dispatch_def Let_def if_not_P [OF a0]]
  show ?thesis
  proof (cases "\<not> d_in_tick st \<and> (d_step st = STEP_LOG \<or> d_step st = STEP_DONE)")
    case True
    with u show ?thesis by (intro allocated_fails [OF s0 assms(2), where err = DISPATCH_ERR_BAD_STEP and b = "d_request st" and trap = trap]) simp
  next
    case a1: False
    note u1 = u [unfolded if_not_P [OF a1]]
    show ?thesis
    proof (cases "\<not> de_alloc E 1 \<or> \<not> de_alloc E 2")
      case True
      show ?thesis
      proof (cases "de_alloc E 1")
        case False
        with u1 show ?thesis by (intro allocated_fails [OF s0 assms(2), where err = DISPATCH_ERR_NOMEM and b = "d_request st" and trap = trap]) simp
      next
        case a: True
        with True u1 show ?thesis by (intro allocated_fails [OF s1 assms(2), where err = DISPATCH_ERR_NOMEM and b = "d_request st" and trap = trap]) simp
      qed
    next
      case a2: False
      then have "\<not> \<not> de_alloc E 1" "\<not> \<not> de_alloc E 2" by simp_all
      note u2 = u1 [unfolded if_not_P [OF this(1)] if_not_P [OF this(2)]]
      from u2 obtain rc1 h where h: "ngx_proxy_wasm_pairs_unmarshal (de_pairs E) (fst hs) (snd hs) = Some (rc1, h)"
        by (cases "ngx_proxy_wasm_pairs_unmarshal (de_pairs E) (fst hs) (snd hs)") auto
      show ?thesis
      proof (cases "rc1 = NGX_OK")
        case False
        with u2 h show ?thesis by (intro allocated_fails [OF s1 assms(2), where err = DISPATCH_ERR_MARSHALLING and b = "d_request st" and trap = trap]) simp
      next
        case rc1: True
        with u2 h obtain rc2 t where t: "ngx_proxy_wasm_pairs_unmarshal (de_pairs E) (fst ts) (snd ts) = Some (rc2, t)"
          by (cases "ngx_proxy_wasm_pairs_unmarshal (de_pairs E) (fst ts) (snd ts)") auto
        let ?c = "call_parts E host timeout h t body (fresh_call\<lparr>dc_id := d_ids st\<rparr>)"
        have ev: "dc_ev ?c = False" by (simp add: call_parts_ev fresh_call_def)
        have s2: "allocated st (upd_call ?k (\<lambda>_. ?c) ?st1)"
        proof (rule allocated_upd [OF s1])
          fix c assume "d_calls ?st1 ?k = Some c"
          then have "c = fresh_call\<lparr>dc_id := d_ids st\<rparr>" by (simp add: upd_call_def)
          with ev show "dc_ev ?c = dc_ev c" by (simp add: fresh_call_def)
        qed
        show ?thesis
        proof (cases "rc2 = NGX_OK")
          case False
          with u2 h t rc1 show ?thesis by (intro allocated_fails [OF s1 assms(2), where err = DISPATCH_ERR_MARSHALLING and b = "d_request st" and trap = trap]) simp
        next
          case rc2: True
          show ?thesis
          proof (cases "call_ready E ?c")
            case (Some err)
            with u2 h t rc1 rc2 show ?thesis by (intro allocated_fails [OF s2 assms(2), where err = err and b = "d_request st" and trap = trap]) simp
          next
            case None
            let ?st2 = "upd_call ?k (\<lambda>_. ?c) ?st1"
            from u2 h t rc1 rc2 None have st': "res = Some ?k" "st' = (upd_call ?k (\<lambda>c. c\<lparr>dc_ev := True\<rparr>) ?st2)\<lparr>d_posted := d_posted ?st2 @ [?k],
                d_ops := Http_call ?k # d_ops ?st2, d_action := ACTION_PAUSE\<rparr>" by simp_all
            have v: "dview st' = (Http_call ?k # d_ops st, d_posted st @ [?k], d_called st, Suc ?k, (\<lambda>j. map_option dc_ev (d_calls st j))(?k := Some True))"
              unfolding st' by (auto simp: dview_def upd_call_def)
            have "dinv (insert ?k X) (d_ops st, d_posted st, d_called st, Suc ?k, (\<lambda>j. map_option dc_ev (d_calls st j))(?k := Some False))" "?k \<notin> X"
              using allocated_inv [OF s2 assms(2)] s2 by (simp_all add: allocated_def)
            moreover have "?k \<notin> set (d_called st)" using assms(2) by (auto simp: dinv_def dview_def)
            ultimately have "dinv X (dview st')" unfolding v dinv_def by (auto split: if_splits)
            moreover have "d_called st' = d_called st" "d_calls st' ?k \<noteq> None" unfolding st' by (simp_all add: upd_call_def)
            ultimately show ?thesis using st'(1) by simp
          qed
        qed
      qed
    qed
  qed
qed

lemma dispatch_http_call_inv:
  assumes "ngx_proxy_wasm_hfuncs_dispatch_http_call E a b c d e f g h i j st = Some (r, st')" and "dinv X (dview st)"
  shows "dinv X (dview st') \<and> d_called st' = d_called st"
proof -
  let ?lift = "\<lambda>p n. ngx_wavm_memory_lift (d_mem st) p n 1"
  show ?thesis
  proof (cases "d_step st \<in> set resolve_steps \<and> ?lift a b \<noteq> None \<and> ?lift c d \<noteq> None \<and> ?lift e f \<noteq> None \<and> ?lift g h \<noteq> None \<and> lift_u32 (d_mem st) j \<noteq> None")
    case False
    with assms have "st' = st"
      by (auto simp: ngx_proxy_wasm_hfuncs_dispatch_http_call_def Let_def split: if_split_asm option.split_asm)
    with assms(2) show ?thesis by simp
  next
    case True
    then obtain hp hs bp ts idp where l: "?lift a b = Some hp" "?lift c d = Some hs" "?lift e f = Some bp" "?lift g h = Some ts"
        "lift_u32 (d_mem st) j = Some idp" by auto
    let ?refused = "case d_acl st of None \<Rightarrow> False | Some l \<Rightarrow> ngx_wasm_acl_check_host (de_acl E) l (read_slice (d_mem st) hp b) \<noteq> NGX_OK"
    let ?from = "\<lambda>p. case p of None \<Rightarrow> [] | Some off \<Rightarrow> drop off (d_mem st)"
    let ?call = "ngx_http_proxy_wasm_dispatch E (read_slice (d_mem st) hp b) (unat d, ?from hs) (unat h, ?from ts) (read_slice (d_mem st) bp f) i st"
    show ?thesis
    proof (cases ?refused)
      case refused: True
      with assms True l have "st' = st" by (simp add: ngx_proxy_wasm_hfuncs_dispatch_http_call_def Let_def)
      with assms(2) show ?thesis by simp
    next
      case False
      with assms(1) True l obtain res trap st1 where st1: "?call = Some ((res, trap), st1)"
        by (cases ?call) (auto simp: ngx_proxy_wasm_hfuncs_dispatch_http_call_def Let_def)
      with assms(1) True l False have "st' = st1 \<or> (\<exists>mem. st' = st1\<lparr>d_mem := mem\<rparr>)"
        by (cases res) (auto simp: ngx_proxy_wasm_hfuncs_dispatch_http_call_def Let_def bind_eq_Some_conv)
      with dispatch_inv [OF st1 assms(2)] show ?thesis by auto
    qed
  qed
qed

lemma ops_to_X: "dinv X (dview st) \<Longrightarrow> dinv (X \<union> {k. Http_call k \<in> set (d_ops st)}) (dview (st\<lparr>d_ops := []\<rparr>))"
  by (auto simp: dinv_def dview_def)

lemma run_dguest_inv:
  "run_dguest E cs st = Some (ok, st') \<Longrightarrow> dinv X (dview st) \<Longrightarrow> dinv X (dview st') \<and> d_called st' = d_called st"
proof (induction E cs st rule: run_dguest.induct)
  case (2 E a b c d e f g h i j cs st)
  from 2(2) obtain r st1 where st1: "ngx_proxy_wasm_hfuncs_dispatch_http_call E a b c d e f g h i j st = Some (r, st1)"
    and rest: "(if r = D_trap then Some (False, st1) else run_dguest E cs st1) = Some (ok, st')" by (auto simp: bind_eq_Some_conv)
  note i = dispatch_http_call_inv [OF st1 2(3)]
  show ?case
  proof (cases "r = D_trap")
    case False
    with 2(1) [OF st1 refl False] rest i show ?thesis by auto
  qed (use rest i in auto)
next
  case (3 E cs st)
  from 3(2) obtain st1 where st1: "cancel_calls (d_ops st) (st\<lparr>d_ops := []\<rparr>) = Some st1" "run_dguest E cs st1 = Some (ok, st')"
    by (auto simp: bind_eq_Some_conv)
  have "X \<inter> {k. Http_call k \<in> set (d_ops st)} = {}" "distinct (d_ops st)" using 3(3) by (auto simp: dinv_def dview_def)
  with cancel_calls_inv [OF st1(1) ops_to_X [OF 3(3)]] have "dinv X (dview st1)" "d_called st1 = d_called st" by auto
  with 3(1) [OF st1] show ?case by simp
qed simp

section \<open>The handler\<close>

lemma invoke_inv:
  assumes "invoke_on_http_dispatch_response E k st = Some (rc, st')" and "dinv X (dview st)" and "k \<in> X" and "k \<notin> set (d_called st)"
  shows "dinv X (dview st')"
proof (cases "d_trapped st")
  case True
  with assms(1,2) show ?thesis by (auto simp: invoke_on_http_dispatch_response_def)
next
  case False
  let ?st2 = "st\<lparr>d_cur := Some k, d_phase := BACKGROUND_PHASE, d_step := STEP_DISPATCH_RESPONSE, d_called := d_called st @ [k]\<rparr>"
  have i: "dinv X (dview ?st2)" using assms(2-4) by (auto simp: dinv_def dview_def)
  obtain calls returns where g: "de_guest E STEP_DISPATCH_RESPONSE ?st2 = (calls, returns)" by fastforce
  from assms(1) False g obtain ok st3 where st3: "run_dguest E calls ?st2 = Some (ok, st3)"
    and st': "(if ok \<and> returns then Some (NGX_OK, st3\<lparr>d_step := d_step st, d_cur := None\<rparr>) else Some (NGX_ERROR, st3\<lparr>d_trapped := True\<rparr>)) = Some (rc, st')"
    by (auto simp: invoke_on_http_dispatch_response_def bind_eq_Some_conv)
  from run_dguest_inv [OF st3 i] st' show ?thesis by (auto split: if_splits)
qed

lemma dispatch_err_inv:
  assumes "ngx_http_proxy_wasm_dispatch_err E k resume st = Some st'" and "dinv X (dview st)" and "k \<in> X" and "resume \<longrightarrow> k \<notin> set (d_called st)"
  shows "dinv (X - {k}) (dview st')"
proof -
  from assms(1) obtain st1 st2 where st1: "(if resume then map_option snd (invoke_on_http_dispatch_response E k st) else Some st) = Some st1"
    and st2: "ngx_http_proxy_wasm_dispatch_destroy k st1 = Some st2" and st': "st' = st2\<lparr>d_cur := None\<rparr>"
    by (auto simp: ngx_http_proxy_wasm_dispatch_err_def bind_eq_Some_conv)
  have "dinv X (dview st1)"
  proof (cases resume)
    case True
    with st1 obtain rc where "invoke_on_http_dispatch_response E k st = Some (rc, st1)" by auto
    from invoke_inv [OF this assms(2,3)] True assms(4) show ?thesis by simp
  qed (use st1 assms(2) in simp)
  from destroy_inv(1) [OF st2 this assms(3)] st' show ?thesis by simp
qed

lemma finish_inv:
  assumes "dispatch_finish E k p st = Some (rc, st')" and "dinv {} (dview st)" and "Http_call k \<in> set (d_ops st)"
  shows "dinv {} (dview st')"
proof (cases "p = Progress_again")
  case True
  with assms(1,2) show ?thesis by (simp add: dispatch_finish_def)
next
  case np: False
  let ?st1 = "st\<lparr>d_ops := remove1 (Http_call k) (d_ops st)\<rparr>"
  have i: "dinv {k} (dview ?st1)" "k \<notin> set (d_called ?st1)" "{k} - {k} = {}"
    using assms(2,3) by (auto simp: dinv_def dview_def)
  show ?thesis
  proof (cases "p \<noteq> Progress_received \<or> d_trapped st")
    case True
    with np assms(1) have "ngx_http_proxy_wasm_dispatch_err E k True ?st1 = Some st'"
      by (cases p) (auto simp: dispatch_finish_def Let_def bind_eq_Some_conv)
    from dispatch_err_inv [OF this i(1)] i show ?thesis by simp
  next
    case False
    with np assms(1) obtain rc2 st2 where st2: "invoke_on_http_dispatch_response E k ?st1 = Some (rc2, st2)"
      and rest: "ngx_http_proxy_wasm_dispatch_err E k False st2 = Some st' \<or> ngx_http_proxy_wasm_dispatch_destroy k st2 = Some st'"
      by (auto simp: dispatch_finish_def Let_def bind_eq_Some_conv split: if_splits)
    have i2: "dinv {k} (dview st2)" using invoke_inv [OF st2 i(1) _ i(2)] by simp
    from rest show ?thesis
    proof
      assume "ngx_http_proxy_wasm_dispatch_err E k False st2 = Some st'"
      from dispatch_err_inv [OF this i2] i(3) show ?thesis by simp
    next
      assume "ngx_http_proxy_wasm_dispatch_destroy k st2 = Some st'"
      from destroy_inv(1) [OF this i2] i(3) show ?thesis by simp
    qed
  qed
qed

lemma request_ev: "ngx_http_proxy_wasm_dispatch_request dbg E R c = Some (Some (out, c1)) \<Longrightarrow> dc_ev c1 = dc_ev c"
  by (auto simp: ngx_http_proxy_wasm_dispatch_request_def with_authority_def bind_eq_Some_conv Let_def split: option.splits if_splits)

lemma receiving_view: "dispatch_receiving dbg R k st = Some (p, st') \<Longrightarrow> dview st' = dview st"
  by (auto simp: dispatch_receiving_def dview_upd_call split: if_splits)

lemma sending_view: "dispatch_sending dbg E R rc k st = Some (p, st') \<Longrightarrow> dview st' = dview st"
proof -
  assume a: "dispatch_sending dbg E R rc k st = Some (p, st')"
  then obtain c res where c: "d_calls st k = Some c" "ngx_http_proxy_wasm_dispatch_request dbg E R c = Some res"
    by (auto simp: dispatch_sending_def bind_eq_Some_conv)
  show "dview st' = dview st"
  proof (cases res)
    case None
    with a c show ?thesis by (simp add: dispatch_sending_def)
  next
    case (Some r)
    obtain out c1 where r: "r = (out, c1)" by fastforce
    have "dc_ev c1 = dc_ev c" using request_ev [of dbg E R c out c1] c(2) Some r by simp
    with c(1) have ev: "dview (upd_call k (\<lambda>_. c1) st) = dview st" by (intro dview_upd_call) simp
    have "dview (upd_call k (\<lambda>c. c\<lparr>dc_state := DISPATCH_RECEIVING\<rparr>) (upd_call k (\<lambda>_. c1) st)) = dview st"
      using ev by (simp add: dview_upd_call)
    with a c Some r ev show ?thesis by (auto simp: dispatch_sending_def Let_def split: if_splits dest: receiving_view)
  qed
qed

lemma connecting_view: "dispatch_connecting dbg E R k st = Some (p, st') \<Longrightarrow> dview st' = dview st"
  by (auto simp: dispatch_connecting_def dview_upd_call split: if_splits dest!: sending_view)

lemma advance_view: "dispatch_advance dbg E R k st = Some (p, st') \<Longrightarrow> dview st' = dview st"
  by (auto simp: dispatch_advance_def bind_eq_Some_conv dview_upd_call split: if_splits dispatch_state.splits
    dest!: connecting_view sending_view receiving_view)

lemma resume_handler_inv:
  assumes "ngx_http_proxy_wasm_dispatch_resume_handler dbg E R k st = Some (rc, st')" and "dinv {} (dview st)" and "Http_call k \<in> set (d_ops st)"
  shows "dinv {} (dview st')"
proof -
  from assms(1) obtain p st1 rc2 st2 where st1: "dispatch_advance dbg E R k st = Some (p, st1)" and st2: "dispatch_finish E k p st1 = Some (rc2, st2)"
    by (auto simp: ngx_http_proxy_wasm_dispatch_resume_handler_def bind_eq_Some_conv)
  note v = advance_view [OF st1]
  have i: "dinv {} (dview st2)" using v assms(2,3) by (intro finish_inv [OF st2]) (simp_all add: dview_def)
  let ?st3 = "st2\<lparr>d_env := STATE_CONTINUE, d_action := ACTION_CONTINUE\<rparr>"
  obtain calls returns where g: "de_guest E (d_step ?st3) ?st3 = (calls, returns)" by fastforce
  have i3: "dinv {} (dview ?st3)" using i by simp
  from assms(1) st1 st2 g have "dview st' = dview st2 \<or> (\<exists>ok st4. run_dguest E calls ?st3 = Some (ok, st4) \<and> dview st' = dview st4)"
    by (auto simp: ngx_http_proxy_wasm_dispatch_resume_handler_def bind_eq_Some_conv Let_def split: if_splits)
  with i run_dguest_inv [OF _ i3] show ?thesis by auto
qed

lemma handler_inv:
  assumes "ngx_http_proxy_wasm_dispatch_handler dbg E R k st = Some st'" and "dinv {} (dview st)"
  shows "dinv {} (dview st')"
proof -
  let ?st1 = "upd_call k (\<lambda>c. c\<lparr>dc_ev := False\<rparr>) (st\<lparr>d_posted := removeAll k (d_posted st)\<rparr>)"
  from assms(1) obtain c rc st2 where c: "d_calls st k = Some c" and st2: "ngx_http_proxy_wasm_dispatch_resume_handler dbg E R k ?st1 = Some (rc, st2)"
    and st': "dview st' = dview st2"
    by (auto simp: ngx_http_proxy_wasm_dispatch_handler_def bind_eq_Some_conv split: if_splits)
  have v: "dview ?st1 = (d_ops st, removeAll k (d_posted st), d_called st, d_next st, (\<lambda>j. map_option dc_ev (d_calls st j))(k := Some False))"
    using c by (auto simp: dview_def upd_call_def)
  have "dinv {} (dview ?st1)" "Http_call k \<in> set (d_ops st)"
    unfolding v using assms(2) c by (auto simp: dinv_def dview_def split: if_splits)
  with resume_handler_inv [OF st2] st' show ?thesis by simp
qed

section \<open>Runs\<close>

text \<open>
  A run of a filter with its calls: the guest makes calls and answers requests, posted events fire, sockets become ready with whatever result,
  and everything else of the context may change (\<open>dispatch_other\<close>).
\<close>

inductive dispatch_reach :: "bool \<Rightarrow> 'g d_env_of \<Rightarrow> 'g dctx \<Rightarrow> 'g dctx \<Rightarrow> bool" for dbg E st0 where
  dispatch_begin: "dispatch_reach dbg E st0 st0"
| dispatch_guest: "dispatch_reach dbg E st0 st \<Longrightarrow> run_dguest E cs st = Some (ok, st') \<Longrightarrow> dispatch_reach dbg E st0 st'"
| dispatch_event: "dispatch_reach dbg E st0 st \<Longrightarrow> k \<in> set (d_posted st) \<Longrightarrow> ngx_http_proxy_wasm_dispatch_handler dbg E R k st = Some st' \<Longrightarrow>
    dispatch_reach dbg E st0 st'"
| dispatch_socket: "dispatch_reach dbg E st0 st \<Longrightarrow> Http_call k \<in> set (d_ops st) \<Longrightarrow>
    ngx_http_proxy_wasm_dispatch_resume_handler dbg E R k st = Some (rc, st') \<Longrightarrow> dispatch_reach dbg E st0 st'"
| dispatch_other: "dispatch_reach dbg E st0 st \<Longrightarrow> dview st' = dview st \<Longrightarrow> dispatch_reach dbg E st0 st'"


section \<open>The request\<close>

text \<open>How a server reads the head of a request: lines that end with a carriage return and a line feed, up to an empty one.\<close>

fun take_line :: "bytes \<Rightarrow> (bytes \<times> bytes) option" where
  "take_line [] = None"
| "take_line (b # bs) = (if b = 13 \<and> take 1 bs = [10] then Some ([], tl bs) else map_option (apfst ((#) b)) (take_line bs))"

fun parse_lines :: "nat \<Rightarrow> bytes \<Rightarrow> (bytes list \<times> bytes) option" where
  "parse_lines 0 bs = None"
| "parse_lines (Suc n) bs = (case take_line bs of
     None \<Rightarrow> None
   | Some (l, rest) \<Rightarrow> if l = [] then Some ([], rest) else map_option (apfst ((#) l)) (parse_lines n rest))"

lemma take_line_ok: "13 \<notin> set l \<Longrightarrow> take_line (l @ crlf @ rest) = Some (l, rest)"
  by (induction l) (auto simp: crlf_def)

lemma parse_lines_ok:
  "\<forall>l \<in> set ls. l \<noteq> [] \<and> 13 \<notin> set l \<Longrightarrow> length ls < n \<Longrightarrow> parse_lines n (concat (map (\<lambda>l. l @ crlf) ls) @ crlf @ rest) = Some (ls, rest)"
proof (induction ls arbitrary: n)
  case Nil
  then obtain m where "n = Suc m" by (cases n) simp_all
  then show ?case using take_line_ok [of "[]" rest] by simp
next
  case (Cons l ls)
  then obtain m where m: "n = Suc m" "length ls < m" by (cases n) simp_all
  have "take_line (l @ crlf @ concat (map (\<lambda>l. l @ crlf) ls) @ crlf @ rest) = Some (l, concat (map (\<lambda>l. l @ crlf) ls) @ crlf @ rest)"
    using Cons.prems(1) by (intro take_line_ok) simp
  with Cons m show ?case by simp
qed

definition header_lines :: "map_env \<Rightarrow> dcall \<Rightarrow> http_request \<Rightarrow> bytes list" where
  "header_lines M c r = (bytes_of_string ''Host: '' @ dc_authority c) # bytes_of_string ''Connection: close'' #
     (if writes_length r then [bytes_of_string ''Content-Length: '' @ dec M (int (length (dc_body c)))] else []) @
     map (\<lambda>e. e_key e @ [58, 32] @ e_value e) (elts (headers_in r))"

lemma head_chunks_lines:
  "concat (head_chunks M c r) =
     (dc_method c @ [32] @ dc_path c @ [32] @ bytes_of_string ''HTTP/1.1'') @ crlf @ concat (map (\<lambda>l. l @ crlf) (header_lines M c r)) @ crlf"
proof -
  have "concat (concat (map (\<lambda>e. [e_key e, [58, 32], e_value e, crlf]) es)) =
      concat (map (\<lambda>l. l @ crlf) (map (\<lambda>e. e_key e @ [58, 32] @ e_value e) es))" for es
    by (induction es) simp_all
  then show ?thesis by (simp add: head_chunks_def header_lines_def bytes_of_string_def)
qed

lemma emit_all_concat: "snd st \<le> length (fst st) \<Longrightarrow> emit_all xs st = emit (concat xs) st"
proof (induction xs arbitrary: st)
  case Nil
  then show ?case by (simp add: emit_def buf_write_def prod_eq_iff)
next
  case (Cons x xs)
  have "emit_all (x # xs) st = (case emit x st of None \<Rightarrow> None | Some st1 \<Rightarrow> emit (concat xs) st1)"
    using Cons.IH emit_bound by (cases "emit x st") auto
  then show ?case by (simp add: emit_emit)
qed

lemma emit_filled: "length bs \<le> n \<Longrightarrow> emit bs (replicate n 0, 0) = Some (bs @ replicate (n - length bs) 0, length bs)"
  by (simp add: emit_def buf_write_def)

text \<open>The images of numbers have at most the 20 bytes of \<open>NGX_OFF_T_LEN\<close>, and are digits.\<close>

definition dec_laws :: "map_env \<Rightarrow> bool" where
  "dec_laws M \<longleftrightarrow> (\<forall>n. length (dec M n) \<le> 20 \<and> 13 \<notin> set (dec M n))"

lemma head_fits:
  assumes "dec_laws M"
  shows "length (concat (head_chunks M c r)) \<le> head_size c r"
proof -
  define L where "L = concat (map (\<lambda>l. l @ crlf) (map (\<lambda>e. e_key e @ [58, 32] @ e_value e) (elts (headers_in r))))"
  have "length (concat (map (\<lambda>l. l @ crlf) (map (\<lambda>e. e_key e @ [58, 32] @ e_value e) es))) =
      sum_list (map (\<lambda>e. length (e_key e) + 2 + length (e_value e) + 2) es)" for es :: "header_elt list"
    by (induction es) (simp_all add: crlf_def)
  then have len: "sum_list (map (\<lambda>e. length (e_key e) + 2 + length (e_value e) + 2) (elts (headers_in r))) = length L" by (simp only: L_def)
  let ?d = "dec M (int (length (dc_body c)))"
  have "concat (head_chunks M c r) = (dc_method c @ [32] @ dc_path c @ [32] @ bytes_of_string ''HTTP/1.1'') @ crlf @
      (bytes_of_string ''Host: '' @ dc_authority c) @ crlf @ bytes_of_string ''Connection: close'' @ crlf @
      (if writes_length r then (bytes_of_string ''Content-Length: '' @ ?d) @ crlf else []) @ L @ crlf"
    unfolding head_chunks_lines header_lines_def L_def by simp
  moreover have "length ?d \<le> 20" using assms by (simp add: dec_laws_def)
  ultimately show ?thesis unfolding head_size_def len by (simp add: bytes_of_string_def crlf_def)
qed

lemma add_headers_safe:
  "add_headers dbg M es r = Some (Some r1) \<Longrightarrow> env_laws M \<Longrightarrow> request_safe r \<Longrightarrow> request_safe r1"
proof (induction dbg M es r rule: add_headers.induct)
  case (2 dbg M e es r)
  show ?case
  proof (cases "elt_hash e = 0")
    case False
    with 2(3) obtain rc r2 where s: "ngx_http_wasm_set_req_header dbg (strs M) (clears M) (elt_key e) (Some (elt_value e)) HEADERS_APPEND r = Some (rc, r2)"
      and rest: "rc = NGX_OK" "add_headers dbg M es r2 = Some (Some r1)"
      by (auto simp: bind_eq_Some_conv split: if_splits)
    from 2(4,5) s have "request_safe r2"
      unfolding ngx_http_wasm_set_req_header_def env_laws_def by (auto intro: set_header_safe [OF _ _ _ handler_names(1)])
    with 2(2) [OF False s refl] rest 2(4) show ?thesis by simp
  qed (use 2 in simp)
qed simp

lemma safe_no_cr: "elt_safe e \<Longrightarrow> 13 \<notin> set (e_key e) \<and> 13 \<notin> set (e_value e)"
  by (auto simp: elt_safe_def list_all_iff tchar_def value_char_def)

lemma header_lines_ok:
  assumes "request_safe r" and "dec_laws M" and "13 \<notin> set (dc_authority c)"
  shows "\<forall>l \<in> set (header_lines M c r). l \<noteq> [] \<and> 13 \<notin> set l"
proof -
  have "\<forall>e \<in> set (elts (headers_in r)). 13 \<notin> set (e_key e) \<and> 13 \<notin> set (e_value e)"
    using assms(1) safe_no_cr by (auto simp: request_safe_def list_safe_def list_all_iff)
  with assms(2,3) show ?thesis by (auto simp: header_lines_def bytes_of_string_def dec_laws_def)
qed

lemma request_made:
  assumes "dc_out c = None" and "add_headers dbg (de_map E) (dc_headers c) (de_fake_request E) = Some (Some r)"
    and "de_free_buf E (head_size (with_authority R c) r)" and "dec_laws (de_map E)"
  shows "\<exists>c1. ngx_http_proxy_wasm_dispatch_request dbg E R c = Some (Some (concat (head_chunks (de_map E) (with_authority R c) r) @ dc_body c, c1))"
proof -
  have h: "dc_headers (with_authority R c) = dc_headers c" "dc_body (with_authority R c) = dc_body c" by (simp_all add: with_authority_def)
  show ?thesis using assms emit_filled [OF head_fits [OF assms(4)]]
    by (simp add: ngx_http_proxy_wasm_dispatch_request_def h emit_all_concat Let_def)
qed

text \<open>
  The request of a call fits the buffer that was allocated for it, and a server reads it as meant if the method, the path and the
  authority have no carriage return: a request line, the host, the headers that were added for the guest, and the body.
\<close>

theorem dispatch_request_parses:
  assumes "dc_out c = None" and "add_headers dbg (de_map E) (dc_headers c) (de_fake_request E) = Some (Some r)"
    and "de_free_buf E (head_size (with_authority R c) r)" and "env_laws (de_map E)" and "dec_laws (de_map E)" and "request_safe (de_fake_request E)"
    and "13 \<notin> set (dc_method c)" and "13 \<notin> set (dc_path c)" and "13 \<notin> set (dc_authority (with_authority R c))"
    and "length (header_lines (de_map E) (with_authority R c) r) + 1 < n"
  shows "\<exists>out c1. ngx_http_proxy_wasm_dispatch_request dbg E R c = Some (Some (out, c1)) \<and>
    parse_lines n out = Some ((dc_method c @ [32] @ dc_path c @ [32] @ bytes_of_string ''HTTP/1.1'') # header_lines (de_map E) (with_authority R c) r, dc_body c)"
proof -
  let ?c = "with_authority R c"
  let ?l = "dc_method c @ [32] @ dc_path c @ [32] @ bytes_of_string ''HTTP/1.1''" and ?ls = "header_lines (de_map E) ?c r"
  have s: "dc_method ?c = dc_method c" "dc_path ?c = dc_path c" by (simp_all add: with_authority_def)
  have "request_safe r" by (rule add_headers_safe [OF assms(2,4,6)])
  from header_lines_ok [OF this assms(5,9)] assms(7,8) have ok: "\<forall>l \<in> set (?l # ?ls). l \<noteq> [] \<and> 13 \<notin> set l" by (simp add: bytes_of_string_def)
  have out: "concat (head_chunks (de_map E) ?c r) @ dc_body c = concat (map (\<lambda>l. l @ crlf) (?l # ?ls)) @ crlf @ dc_body c"
    unfolding head_chunks_lines s by simp
  have "parse_lines n (concat (head_chunks (de_map E) ?c r) @ dc_body c) = Some (?l # ?ls, dc_body c)"
    unfolding out using assms(10) by (intro parse_lines_ok [OF ok]) simp
  with request_made [OF assms(1,2,3,5)] show ?thesis by blast
qed

text \<open>
  The path (and likewise the method and the authority) is not escaped: a line break in it ends the request line, and what follows is
  read as a header of the request.
\<close>

theorem dispatch_path_injects:
  assumes "dc_out c = None" and "add_headers dbg (de_map E) (dc_headers c) (de_fake_request E) = Some (Some r)"
    and "de_free_buf E (head_size (with_authority R c) r)" and "env_laws (de_map E)" and "dec_laws (de_map E)" and "request_safe (de_fake_request E)"
    and "13 \<notin> set (dc_method c)" and "dc_path c = p @ crlf @ q" and "13 \<notin> set p" and "13 \<notin> set q" and "13 \<notin> set (dc_authority (with_authority R c))"
    and "length (header_lines (de_map E) (with_authority R c) r) + 2 < n"
  shows "\<exists>out c1. ngx_http_proxy_wasm_dispatch_request dbg E R c = Some (Some (out, c1)) \<and>
    parse_lines n out = Some ((dc_method c @ [32] @ p) # (q @ [32] @ bytes_of_string ''HTTP/1.1'') # header_lines (de_map E) (with_authority R c) r, dc_body c)"
proof -
  let ?c = "with_authority R c"
  let ?l1 = "dc_method c @ [32] @ p" and ?l2 = "q @ [32] @ bytes_of_string ''HTTP/1.1''" and ?ls = "header_lines (de_map E) ?c r"
  have s: "dc_method ?c = dc_method c" "dc_path ?c = dc_path c" by (simp_all add: with_authority_def)
  have "request_safe r" by (rule add_headers_safe [OF assms(2,4,6)])
  from header_lines_ok [OF this assms(5,11)] assms(7,9,10) have ok: "\<forall>l \<in> set (?l1 # ?l2 # ?ls). l \<noteq> [] \<and> 13 \<notin> set l"
    by (simp add: bytes_of_string_def)
  have out: "concat (head_chunks (de_map E) ?c r) @ dc_body c = concat (map (\<lambda>l. l @ crlf) (?l1 # ?l2 # ?ls)) @ crlf @ dc_body c"
    unfolding head_chunks_lines s assms(8) by simp
  have "parse_lines n (concat (head_chunks (de_map E) ?c r) @ dc_body c) = Some (?l1 # ?l2 # ?ls, dc_body c)"
    unfolding out using assms(12) by (intro parse_lines_ok [OF ok]) simp
  with request_made [OF assms(1,2,3,5)] show ?thesis by blast
qed

section \<open>An instance\<close>

text \<open>A filter that sends \<open>GET /\<close> to the host at 8; the pairs of the request are at 16.\<close>

definition demo_pairs :: bytes where
  "demo_pairs = le32 2 @ le32 7 @ le32 3 @ le32 5 @ le32 1 @ bytes_of_string '':method'' @ [0] @ bytes_of_string ''GET'' @ [0] @
     bytes_of_string '':path'' @ [0] @ bytes_of_string ''/'' @ [0]"

definition demo_fake :: http_request where
  "demo_fake = demo_request\<lparr>headers_in := \<lparr>elts = [], builtins = (\<lambda>_. None)\<rparr>, headers_out := \<lparr>elts = [], builtins = (\<lambda>_. None)\<rparr>\<rparr>"

definition demo_d_env :: "unit d_env_of" where
  "demo_d_env = \<lparr>de_acl = demo_acl_env, de_map = demo_env, de_alloc = (\<lambda>n. True), de_pairs = (\<lambda>n. True), de_free_buf = (\<lambda>n. True),
     de_fake_rctx = True, de_fake_request = demo_fake, de_sock_init = (\<lambda>h s a. True), de_reader_init = True, de_tls = True,
     de_guest = (\<lambda>s st. ([], True)), de_resume_rc = NGX_OK\<rparr>"

definition demo_dctx :: "unit dctx" where
  "demo_dctx = \<lparr>d_mem = replicate 8 0 @ [104] @ replicate 7 0 @ demo_pairs @ replicate 8 0, d_world = (), d_acl = None, d_request = True,
     d_step = STEP_REQ_HEADERS, d_phase = REWRITE_PHASE, d_in_tick = False, d_action = ACTION_CONTINUE, d_env = STATE_CONTINUE, d_trapped = False,
     d_ids = 0, d_calls = Map.empty, d_next = 0, d_ops = [], d_posted = [], d_cur = None, d_called = [], d_resumed = 0\<rparr>"

definition demo_sock :: sock_run where
  "demo_sock = \<lparr>sr_err = False, sr_connect = NGX_OK, sr_send = NGX_OK, sr_read = NGX_OK, sr_unix = False, sr_host = [104]\<rparr>"

definition demo_dispatched :: "unit dctx" where
  "demo_dispatched = snd (the (run_dguest demo_d_env [D_call 8 1 16 40 0 0 0 0 100 4] demo_dctx))"


text \<open>A call with a header that has a line feed, and calls with line breaks in the path.\<close>

definition demo_dcall :: "bytes \<Rightarrow> dcall" where
  "demo_dcall path = fresh_call\<lparr>dc_method := bytes_of_string ''GET'', dc_path := path, dc_authority := [104],
     dc_headers := [\<lparr>elt_hash = 1, elt_key = [88], elt_value = [89, 10]\<rparr>]\<rparr>"

definition demo_sent :: http_request where
  "demo_sent = the (the (add_headers True demo_env [\<lparr>elt_hash = 1, elt_key = [88], elt_value = [89, 10]\<rparr>] demo_fake))"

lemma demo_sent: "add_headers True demo_env [\<lparr>elt_hash = 1, elt_key = [88], elt_value = [89, 10]\<rparr>] demo_fake = Some (Some demo_sent)"
proof -
  have "map_option (\<lambda>r. r \<noteq> None) (add_headers True demo_env [\<lparr>elt_hash = 1, elt_key = [88], elt_value = [89, 10]\<rparr>] demo_fake) = Some True" by code_simp
  then show ?thesis by (auto simp: demo_sent_def)
qed

lemma demo_d_env_laws:
  "env_laws (de_map demo_d_env)" "dec_laws (de_map demo_d_env)" "request_safe (de_fake_request demo_d_env)"
  using demo_env_laws
  by (simp_all add: demo_d_env_def dec_laws_def demo_env_def demo_fake_def request_safe_def list_safe_def demo_request_def)

lemma demo_dcall_simps:
  "dc_out (demo_dcall p) = None" "dc_method (demo_dcall p) = bytes_of_string ''GET''" "dc_path (demo_dcall p) = p" "dc_body (demo_dcall p) = []"
  "dc_headers (demo_dcall p) = [\<lparr>elt_hash = 1, elt_key = [88], elt_value = [89, 10]\<rparr>]" "with_authority demo_sock (demo_dcall p) = demo_dcall p"
  "dc_authority (demo_dcall p) = [104]"
  by (simp_all add: demo_dcall_def fresh_call_def with_authority_def)

lemma demo_lines:
  "header_lines (de_map demo_d_env) (demo_dcall p) demo_sent =
    [bytes_of_string ''Host: h'', bytes_of_string ''Connection: close'', bytes_of_string ''Content-Length: 0'', bytes_of_string ''X: Y%0A'']"
proof -
  have "writes_length demo_sent" "map (\<lambda>e. e_key e @ [58, 32] @ e_value e) (elts (headers_in demo_sent)) = [bytes_of_string ''X: Y%0A'']"
    by (code_simp, code_simp)
  then show ?thesis by (simp add: header_lines_def demo_dcall_simps demo_d_env_def demo_env_def bytes_of_string_def)
qed

theorem dispatch_request_parses_witness:
  "\<exists>out c1. ngx_http_proxy_wasm_dispatch_request True demo_d_env demo_sock (demo_dcall [47]) = Some (Some (out, c1)) \<and>
    parse_lines 9 out = Some ([bytes_of_string ''GET / HTTP/1.1'', bytes_of_string ''Host: h'', bytes_of_string ''Connection: close'',
      bytes_of_string ''Content-Length: 0'', bytes_of_string ''X: Y%0A''], [])"
proof -
  have a: "add_headers True (de_map demo_d_env) (dc_headers (demo_dcall [47])) (de_fake_request demo_d_env) = Some (Some demo_sent)"
    using demo_sent by (simp add: demo_dcall_simps demo_d_env_def)
  have f: "de_free_buf demo_d_env n" for n by (simp add: demo_d_env_def)
  from dispatch_request_parses [OF demo_dcall_simps(1) a f demo_d_env_laws, of demo_sock 9] show ?thesis
    by (simp add: demo_dcall_simps demo_lines bytes_of_string_def)
qed

theorem dispatch_path_injects_witness:
  "\<exists>out c1. ngx_http_proxy_wasm_dispatch_request True demo_d_env demo_sock (demo_dcall ([47] @ crlf @ bytes_of_string ''A: b'')) = Some (Some (out, c1)) \<and>
    parse_lines 9 out = Some ([bytes_of_string ''GET /'', bytes_of_string ''A: b HTTP/1.1'', bytes_of_string ''Host: h'',
      bytes_of_string ''Connection: close'', bytes_of_string ''Content-Length: 0'', bytes_of_string ''X: Y%0A''], [])"
proof -
  let ?p = "[47] @ crlf @ bytes_of_string ''A: b''"
  have a: "add_headers True (de_map demo_d_env) (dc_headers (demo_dcall ?p)) (de_fake_request demo_d_env) = Some (Some demo_sent)"
    using demo_sent by (simp add: demo_dcall_simps demo_d_env_def)
  have f: "de_free_buf demo_d_env n" for n by (simp add: demo_d_env_def)
  from dispatch_path_injects [OF demo_dcall_simps(1) a f demo_d_env_laws _ demo_dcall_simps(3), of demo_sock 9] show ?thesis
    by (simp add: demo_dcall_simps demo_lines bytes_of_string_def)
qed

end
