(* ===== verification/Local_Response.thy ===== *)
theory Local_Response
  imports Proxy_Wasm_Maps
begin

text \<open>
  Responses that filters produce themselves (src/src/http/ngx_http_wasm_local_response.c): a response is stashed in the context of the
  request and flushed once the filters have run.
\<close>

section \<open>State\<close>

text \<open>
  The part of \<open>ngx_http_wasm_req_ctx_t\<close> on local responses, with the request as the header maps have it. The body has its bytes and
  whether it is marked as the last buffer of the response (of a subrequest otherwise). \<open>lr_sent\<close> are the bodies that were handed to nginx.
\<close>

record 'g local_resp =
  lr_ctx :: "'g map_ctx"
  lr_main :: bool
  lr_status :: nat
  lr_reason :: "bytes option"
  lr_reason_len :: nat
  lr_headers :: "(bytes \<times> bytes) list"
  lr_body :: "(bytes \<times> bool) option"
  lr_body_len :: int
  lr_content_chosen :: bool
  lr_flushed :: bool
  lr_sent :: "bytes option list"

text \<open>
  Used of nginx: memory, the discarding of the body of the request, the type of the content, and the sending of headers and body
  (\<open>le_send\<close> stands for \<open>ngx_http_wasm_send_chain_link\<close> with what nginx and its header filters, of which the module is one, do in it).
\<close>

record 'g lr_env =
  le_map :: map_env
  le_array_init :: "nat \<Rightarrow> bool"
  le_array_push :: "nat \<Rightarrow> bool"
  le_temp_buf :: "nat \<Rightarrow> bool"
  le_free_buf :: "nat \<Rightarrow> bool"
  le_discard_body :: ngx_rc
  le_content_type :: ngx_rc
  le_send :: "bytes option \<Rightarrow> 'g local_resp \<Rightarrow> ngx_rc \<times> 'g local_resp"

section \<open>Stashing\<close>

definition ngx_http_wasm_discard_local_response :: "'g local_resp \<Rightarrow> 'g local_resp" where
  "ngx_http_wasm_discard_local_response st =
     st\<lparr>lr_content_chosen := False, lr_status := 0, lr_reason_len := 0, lr_body_len := - 1, lr_body := None\<rparr>"

text \<open>Headers are copied one by one; the second answer says whether all of them were.\<close>

fun stash_headers :: "'g lr_env \<Rightarrow> (bytes \<times> bytes) list \<Rightarrow> (bytes \<times> bytes) list \<Rightarrow> (bytes \<times> bytes) list \<times> bool" where
  "stash_headers E [] acc = (acc, True)"
| "stash_headers E ((k, v) # hs) acc =
     (if \<not> le_array_push E (length acc) then (acc, False)
      else if pnalloc (strs (le_map E)) (length v + 1) = None \<or> pnalloc (strs (le_map E)) (length k + 1) = None then (acc @ [([], [])], False)
      else stash_headers E hs (acc @ [(k, v)]))"

text \<open>The line of the status: three digits, a blank and the reason.\<close>

definition reason_line :: "'g lr_env \<Rightarrow> nat \<Rightarrow> bytes \<Rightarrow> bytes" where
  "reason_line E status reason = dec3 (le_map E) status @ [32] @ reason"

definition stash_reason :: "'g lr_env \<Rightarrow> nat \<Rightarrow> bytes \<Rightarrow> 'g local_resp \<Rightarrow> 'g local_resp option" where
  "stash_reason E status reason st =
     (if reason = [] then Some st
      else if pnalloc (strs (le_map E)) (length reason + 5) = None then None
      else Some (st\<lparr>lr_reason := Some (reason_line E status reason), lr_reason_len := length reason + 4\<rparr>))"

definition stash_body :: "'g lr_env \<Rightarrow> bytes \<Rightarrow> 'g local_resp \<Rightarrow> 'g local_resp option" where
  "stash_body E body st =
     (if body = [] then Some st
      else if \<not> le_temp_buf E (length body + 1) \<or> \<not> le_free_buf E (length body + 1) then None
      else Some (st\<lparr>lr_body := Some (body @ [10], lr_main st), lr_body_len := int (length body + 1)\<rparr>))"

definition ngx_http_wasm_stash_local_response ::
  "'g lr_env \<Rightarrow> int \<Rightarrow> bytes \<Rightarrow> (bytes \<times> bytes) list option \<Rightarrow> bytes \<Rightarrow> 'g local_resp \<Rightarrow> ngx_rc \<times> 'g local_resp" where
  "ngx_http_wasm_stash_local_response E status reason headers body st =
     (if in_header_filter (lr_ctx st) then (NGX_ABORT, st)
      else if lr_status st \<noteq> 0 then (NGX_BUSY, st)
      else if status < 100 \<or> status > 999 then (NGX_DECLINED, st)
      else let st0 = st\<lparr>lr_status := nat status\<rparr>; fail = (\<lambda>s. (NGX_ERROR, ngx_http_wasm_discard_local_response s)) in
        case stash_reason E (nat status) reason st0 of
          None \<Rightarrow> fail st0
        | Some st1 \<Rightarrow>
            let hs = (case headers of None \<Rightarrow> [] | Some h \<Rightarrow> h) in
            if \<not> le_array_init E (length hs) then fail st1
            else (case stash_headers E hs [] of (copied, ok) \<Rightarrow>
              let st2 = st1\<lparr>lr_headers := copied\<rparr> in
              if \<not> ok then fail st2
              else (case stash_body E body st2 of
                  None \<Rightarrow> fail st2
                | Some st3 \<Rightarrow> (NGX_OK, st3\<lparr>lr_content_chosen := True\<rparr>))))"

section \<open>Flushing\<close>

fun flush_headers :: "bool \<Rightarrow> 'g lr_env \<Rightarrow> (bytes \<times> bytes) list \<Rightarrow> http_request \<Rightarrow> (ngx_rc \<times> http_request) option" where
  "flush_headers dbg E [] r = Some (NGX_OK, r)"
| "flush_headers dbg E ((k, v) # hs) r = do {
     (rc, r1) \<leftarrow> ngx_http_wasm_set_resp_header dbg (strs (le_map E)) (clears (le_map E)) k (Some v) HEADERS_SET r;
     if rc \<noteq> NGX_OK then Some (NGX_ERROR, r1) else flush_headers dbg E hs r1 }"

definition set_length :: "bool \<Rightarrow> 'g lr_env \<Rightarrow> int \<Rightarrow> http_request \<Rightarrow> (ngx_rc \<times> http_request) option" where
  "set_length dbg E len r =
     (if len \<noteq> 0 \<and> le_content_type E \<noteq> NGX_OK then Some (NGX_ERROR, r)
      else if len < 0 then Some (NGX_OK, r)
      else do {
        (rc, r1) \<leftarrow> ngx_http_wasm_set_resp_content_length dbg (strs (le_map E)) (clears (le_map E)) (dec (le_map E)) 20 len r;
        Some (if rc \<noteq> NGX_OK then NGX_ERROR else NGX_OK, r1) })"

definition put_request :: "http_request \<Rightarrow> 'g local_resp \<Rightarrow> 'g local_resp" where
  "put_request r st = st\<lparr>lr_ctx := (lr_ctx st)\<lparr>mc_req := r\<rparr>\<rparr>"

definition ngx_http_wasm_flush_local_response :: "bool \<Rightarrow> 'g lr_env \<Rightarrow> 'g local_resp \<Rightarrow> (ngx_rc \<times> 'g local_resp) option" where
  "ngx_http_wasm_flush_local_response dbg E st =
     (if lr_status st = 0 \<or> header_sent (lr_ctx st) then Some (NGX_DECLINED, st)
      else if lr_flushed st then (if ngx_wa_assert dbg False then Some (NGX_ABORT, st) else None)
      else if le_discard_body E \<noteq> NGX_OK then Some (NGX_ERROR, st)
      else do {
        let st1 = st\<lparr>lr_ctx := ngx_http_wasm_set_resp_status (lr_status st) (lr_reason st) (lr_reason_len st) (lr_ctx st)\<rparr>;
        (rc, r) \<leftarrow> flush_headers dbg E (lr_headers st) (mc_req (lr_ctx st1));
        let st2 = put_request r st1;
        if rc \<noteq> NGX_OK then Some (NGX_ERROR, st2)
        else do {
          (rc, r) \<leftarrow> set_length dbg E (lr_body_len st) r;
          let st3 = put_request r st1;
          if rc \<noteq> NGX_OK then Some (NGX_ERROR, st3)
          else Some (le_send E (map_option fst (lr_body st)) (st3\<lparr>lr_status := 0, lr_flushed := True,
            lr_sent := lr_sent st @ [map_option fst (lr_body st)]\<rparr>)) } })"

end
