(* ===== verification/Local_Response_Props.thy ===== *)
theory Local_Response_Props
  imports Local_Response Proxy_Wasm_Maps_Props
begin

text \<open>What becomes of a local response, and that there is at most one.\<close>

lemma stash_reason_frame:
  assumes "stash_reason E status reason st = Some st1"
  shows "lr_ctx st1 = lr_ctx st \<and> lr_status st1 = lr_status st \<and> lr_flushed st1 = lr_flushed st \<and> lr_sent st1 = lr_sent st \<and>
    lr_body st1 = lr_body st \<and> lr_body_len st1 = lr_body_len st \<and>
    (reason \<noteq> [] \<longrightarrow> lr_reason st1 = Some (reason_line E status reason) \<and> lr_reason_len st1 = length reason + 4) \<and>
    (reason = [] \<longrightarrow> lr_reason st1 = lr_reason st \<and> lr_reason_len st1 = lr_reason_len st)"
  using assms by (auto simp: stash_reason_def split: if_splits)

lemma stash_body_frame:
  assumes "stash_body E body st = Some st1"
  shows "lr_ctx st1 = lr_ctx st \<and> lr_status st1 = lr_status st \<and> lr_flushed st1 = lr_flushed st \<and> lr_sent st1 = lr_sent st \<and>
    lr_reason st1 = lr_reason st \<and> lr_reason_len st1 = lr_reason_len st \<and> lr_headers st1 = lr_headers st \<and>
    (body \<noteq> [] \<longrightarrow> map_option fst (lr_body st1) = Some (body @ [10]) \<and> lr_body_len st1 = int (length body + 1)) \<and>
    (body = [] \<longrightarrow> lr_body st1 = lr_body st \<and> lr_body_len st1 = lr_body_len st)"
  using assms by (auto simp: stash_body_def split: if_splits)

lemma stash_headers_all: "stash_headers E hs acc = (hs', True) \<Longrightarrow> hs' = acc @ hs"
  by (induction E hs acc rule: stash_headers.induct) (auto split: if_splits)

text \<open>A response that was stashed.\<close>

lemma stash_ok:
  assumes "ngx_http_wasm_stash_local_response E status reason headers body st = (NGX_OK, st')"
  shows "\<not> in_header_filter (lr_ctx st) \<and> lr_status st = 0 \<and> 100 \<le> status \<and> status \<le> 999 \<and> lr_status st' = nat status \<and>
    lr_ctx st' = lr_ctx st \<and> lr_flushed st' = lr_flushed st \<and> lr_sent st' = lr_sent st \<and>
    lr_headers st' = (case headers of None \<Rightarrow> [] | Some h \<Rightarrow> h) \<and>
    (reason \<noteq> [] \<longrightarrow> lr_reason st' = Some (reason_line E (nat status) reason) \<and> lr_reason_len st' = length reason + 4) \<and>
    (reason = [] \<longrightarrow> lr_reason_len st' = lr_reason_len st) \<and>
    (body \<noteq> [] \<longrightarrow> map_option fst (lr_body st') = Some (body @ [10]) \<and> lr_body_len st' = int (length body + 1)) \<and>
    (body = [] \<longrightarrow> lr_body st' = lr_body st \<and> lr_body_len st' = lr_body_len st)"
proof -
  let ?hs = "case headers of None \<Rightarrow> [] | Some h \<Rightarrow> h" and ?st0 = "st\<lparr>lr_status := nat status\<rparr>"
  have g: "\<not> in_header_filter (lr_ctx st)" "lr_status st = 0" "\<not> (status < 100 \<or> status > 999)"
    using assms by (auto simp: ngx_http_wasm_stash_local_response_def split: if_splits)
  from assms g obtain st1 where r: "stash_reason E (nat status) reason ?st0 = Some st1"
    by (cases "stash_reason E (nat status) reason ?st0") (simp_all add: ngx_http_wasm_stash_local_response_def)
  obtain copied ok where c: "stash_headers E ?hs [] = (copied, ok)" by (cases "stash_headers E ?hs []")
  from assms g r c have ok: "ok"
    by (auto simp: ngx_http_wasm_stash_local_response_def Let_def split: if_splits)
  from assms g r c ok obtain st3 where b: "stash_body E body (st1\<lparr>lr_headers := copied\<rparr>) = Some st3"
    by (cases "stash_body E body (st1\<lparr>lr_headers := copied\<rparr>)")
      (simp_all add: ngx_http_wasm_stash_local_response_def Let_def split: if_splits)
  from assms g r c ok b have "st' = st3\<lparr>lr_content_chosen := True\<rparr>"
    by (simp add: ngx_http_wasm_stash_local_response_def Let_def split: if_splits)
  with stash_reason_frame [OF r] stash_body_frame [OF b] stash_headers_all [of E ?hs "[]" copied] c ok g show ?thesis by auto
qed

section \<open>The headers of a response\<close>

lemma values_of_same: "strings_laws S \<Longrightarrow> same_name S a b \<Longrightarrow> values_of S a es = values_of S b es"
  unfolding values_of_def by (metis same_name_sym same_name_trans)

lemma matches_values: "hv_ok S hv \<Longrightarrow> hashed S es \<Longrightarrow> matches S hv es = length (values_of S (hv_key hv) es)"
  by (induction es) (auto simp: elt_matches_live values_of_Cons, simp add: matches_def values_of_def)

lemma helper_builtins: "ngx_http_wasm_set_header_helper S hv h = Some (rc, out, h1) \<Longrightarrow> builtins h1 = builtins h"
  by (auto simp: ngx_http_wasm_set_header_helper_def bind_eq_Some_conv Let_def split: if_splits)

text \<open>That allocations succeed, as the string functions have it.\<close>

definition memory_ok :: "ngx_strings \<Rightarrow> bool" where
  "memory_ok S \<longleftrightarrow> (\<forall>n. pnalloc S n \<noteq> None) \<and> (\<forall>n. list_push_ok S n)"

text \<open>Setting a header that the list has at most once.\<close>

lemma helper_set:
  assumes hv: "hv_ok S hv" and m: "hv_mode hv = HEADERS_SET" and S: "memory_ok S" and h: "hashed S (elts h)"
    and one: "length (values_of S (hv_key hv) (elts h)) \<le> 1"
  shows "\<exists>i h1. ngx_http_wasm_set_header_helper S hv h = Some (NGX_OK, Some (Some i), h1) \<and> builtins h1 = builtins h \<and> hashed S (elts h1) \<and>
    (\<forall>k. values_of S k (elts h1) = (if same_name S (hv_key hv) k then [str_of (hv_value hv)] else values_of S k (elts h)))"
proof -
  have laws: "strings_laws S" using hv by (simp add: hv_ok_def)
  note new = values_of_set_elt [OF hv] values_of_set_elt [OF hv, where e = "new_elt hv", folded new_elt_set]
  consider "matches S hv (elts h) = 0" | "matches S hv (elts h) = 1" using one matches_values [OF hv h] by linarith
  then show ?thesis
  proof cases
    case 1
    have "values_of S k (elts h @ [new_elt hv]) = (if same_name S (hv_key hv) k then [str_of (hv_value hv)] else values_of S k (elts h))" for k
      using new(4,5) values_of_no_match [OF hv h 1] values_of_same [OF laws, of "hv_key hv" k, symmetric] by auto
    with 1 m S h new show ?thesis by (auto simp: helper_push memory_ok_def)
  next
    case 2
    then obtain xs e ys where es: "elts h = xs @ e # ys" "elt_matches S hv e" "matches S hv xs = 0" "matches S hv ys = 0"
      by (metis One_nat_def first_match Suc_inject zero_neq_one)
    have hs: "hashed S xs" "hashed S ys" using h es(1) by simp_all
    have "values_of S k (xs @ set_elt hv e # ys) = (if same_name S (hv_key hv) k then [str_of (hv_value hv)] else values_of S k (elts h))" for k
    proof -
      have "values_of S k (xs @ set_elt hv e # ys) = values_of S k xs @ values_of S k [set_elt hv e] @ values_of S k ys"
        using values_of_append [of S k "[set_elt hv e]" ys] by simp
      moreover have "values_of S k (elts h) = values_of S k xs @ values_of S k [e] @ values_of S k ys"
        using values_of_append [of S k "[e]" ys] es(1) by simp
      moreover have "\<not> same_name S (hv_key hv) k \<Longrightarrow> values_of S k [e] = []"
        using other_name [OF laws _ es(2)] by (simp add: values_of_def)
      ultimately show ?thesis
        using new(1,2) values_of_same [OF laws, of "hv_key hv" k] values_of_no_match [OF hv hs(1) es(3)] values_of_no_match [OF hv hs(2) es(4)]
        by auto
    qed
    with helper_replace [OF m es(1,2,3,4)] h es(1) new(3) show ?thesis by auto
  qed
qed

text \<open>A name that has no handler of its own among the headers of a response.\<close>

definition plain_name :: "ngx_strings \<Rightarrow> bytes \<Rightarrow> bool" where
  "plain_name S k \<longleftrightarrow> (\<forall>(n, f, h) \<in> set ngx_http_wasm_resp_headers_handlers. \<not> same_name S k n)"

lemma find_plain: "plain_name S k \<Longrightarrow> find_handler S ngx_http_wasm_resp_headers_handlers k = (k, [], H_generic)"
  unfolding find_handler_def plain_name_def same_name_def by (auto simp: find_None_iff split: option.split dest!: find_SomeD)

lemma copy_escaped_ok: "strings_laws S \<Longrightarrow> memory_ok S \<Longrightarrow> ngx_http_copy_escaped (pnalloc S) data kind = Some (Some (escaped kind data))"
  using copy_escaped_alloc [of S data kind] escape_count_0 [of kind data]
  unfolding memory_ok_def by (cases "escape_count kind data = 0") simp_all

lemma set_plain_header:
  assumes S: "strings_laws S" "memory_ok S" and k: "plain_name S (escaped ESCAPE_HEADER_NAME k)" "hash_key_lc S (escaped ESCAPE_HEADER_NAME k) \<noteq> 0"
    and h: "hashed S (elts (headers_out r))" and one: "length (values_of S (escaped ESCAPE_HEADER_NAME k) (elts (headers_out r))) \<le> 1"
  shows "\<exists>h1. ngx_http_wasm_set_resp_header dbg S C k (Some v) HEADERS_SET r = Some (NGX_OK, r\<lparr>headers_out := h1\<rparr>) \<and>
    builtins h1 = builtins (headers_out r) \<and> hashed S (elts h1) \<and>
    (\<forall>k'. values_of S k' (elts h1) = (if same_name S (escaped ESCAPE_HEADER_NAME k) k' then [escaped ESCAPE_HEADER_VALUE v] else values_of S k' (elts (headers_out r))))"
proof -
  let ?hv = "\<lparr>hv_offset = [], hv_key = escaped ESCAPE_HEADER_NAME k, hv_value = Some (escaped ESCAPE_HEADER_VALUE v), hv_htype = HEADERS_RESPONSE,
    hv_mode = HEADERS_SET, hv_hash = hash_key_lc S (escaped ESCAPE_HEADER_NAME k)\<rparr>"
  have "hv_ok S ?hv" "hv_mode ?hv = HEADERS_SET" "length (values_of S (hv_key ?hv) (elts (headers_out r))) \<le> 1"
    using S k one by (simp_all add: hv_ok_def)
  from helper_set [OF this(1,2) S(2) h this(3)] show ?thesis
    by (auto simp: ngx_http_wasm_set_resp_header_def ngx_http_wasm_set_header_def copy_escaped_ok [OF S] find_plain [OF k(1)]
      ngx_http_wasm_set_header_handler_def set_header_in_def ngx_http_wasm_htype_list_def put_list_def str_of_def)
qed

text \<open>
  The values of a header after the headers of a response were set one by one: the last value that the response has for the name, or the
  values of before.
\<close>

definition sent_values :: "ngx_strings \<Rightarrow> (bytes \<times> bytes) list \<Rightarrow> bytes \<Rightarrow> bytes list \<Rightarrow> bytes list" where
  "sent_values S hs k old =
     (let ps = filter (\<lambda>(n, v). same_name S (escaped ESCAPE_HEADER_NAME n) k) hs in
      if ps = [] then old else [escaped ESCAPE_HEADER_VALUE (snd (last ps))])"

lemma sent_values_Nil [simp]: "sent_values S [] k old = old"
  by (simp add: sent_values_def)

lemma sent_values_Cons:
  "sent_values S ((n, v) # hs) k old = sent_values S hs k (if same_name S (escaped ESCAPE_HEADER_NAME n) k then [escaped ESCAPE_HEADER_VALUE v] else old)"
  by (simp add: sent_values_def Let_def)

text \<open>A header that can be set: its name has no handler, its hash is not 0, and the response has it at most once.\<close>

definition settable :: "ngx_strings \<Rightarrow> http_request \<Rightarrow> bytes \<times> bytes \<Rightarrow> bool" where
  "settable S r = (\<lambda>(k, v). plain_name S (escaped ESCAPE_HEADER_NAME k) \<and> hash_key_lc S (escaped ESCAPE_HEADER_NAME k) \<noteq> 0 \<and>
     length (values_of S (escaped ESCAPE_HEADER_NAME k) (elts (headers_out r))) \<le> 1)"

lemma flush_headers_sets:
  assumes "strings_laws (strs (le_map E))" and "memory_ok (strs (le_map E))"
  shows "list_all (settable (strs (le_map E)) r) hs \<Longrightarrow> hashed (strs (le_map E)) (elts (headers_out r)) \<Longrightarrow>
    \<exists>h1. flush_headers dbg E hs r = Some (NGX_OK, r\<lparr>headers_out := h1\<rparr>) \<and> builtins h1 = builtins (headers_out r) \<and>
      hashed (strs (le_map E)) (elts h1) \<and>
      (\<forall>k. values_of (strs (le_map E)) k (elts h1) = sent_values (strs (le_map E)) hs k (values_of (strs (le_map E)) k (elts (headers_out r))))"
proof (induction hs arbitrary: r)
  case Nil
  then show ?case by (auto intro!: exI [of _ "headers_out r"])
next
  case (Cons p hs)
  obtain k v where p: "p = (k, v)" by (cases p)
  let ?S = "strs (le_map E)" let ?k = "escaped ESCAPE_HEADER_NAME k"
  from set_plain_header [OF assms, of k r dbg "clears (le_map E)" v] Cons.prems p
  obtain h1 where h1: "ngx_http_wasm_set_resp_header dbg ?S (clears (le_map E)) k (Some v) HEADERS_SET r = Some (NGX_OK, r\<lparr>headers_out := h1\<rparr>)"
      "builtins h1 = builtins (headers_out r)" "hashed ?S (elts h1)"
      "\<And>k'. values_of ?S k' (elts h1) = (if same_name ?S ?k k' then [escaped ESCAPE_HEADER_VALUE v] else values_of ?S k' (elts (headers_out r)))"
    by (auto simp: settable_def)
  have "list_all (settable ?S (r\<lparr>headers_out := h1\<rparr>)) hs"
    using Cons.prems(1) by (auto simp: settable_def h1(4) list_all_iff)
  from Cons.IH [OF this] h1(3) obtain h2 where "flush_headers dbg E hs (r\<lparr>headers_out := h1\<rparr>) = Some (NGX_OK, r\<lparr>headers_out := h2\<rparr>)"
      "builtins h2 = builtins h1" "hashed ?S (elts h2)" "\<And>k'. values_of ?S k' (elts h2) = sent_values ?S hs k' (values_of ?S k' (elts h1))"
    by auto
  with h1 show ?case by (auto simp: p sent_values_Cons)
qed

text \<open>
  The length: \<open>ngx_sprintf\<close> writes digits, which are read back as the number.
\<close>

definition digits_ok :: "'g lr_env \<Rightarrow> int \<Rightarrow> bool" where
  "digits_ok E n \<longleftrightarrow> list_all (\<lambda>b. 48 \<le> b \<and> b \<le> 57) (dec (le_map E) n) \<and> atoof (strs (le_map E)) (dec (le_map E) n) = Some n"

lemma digit_cases: "48 \<le> b \<Longrightarrow> b \<le> 57 \<Longrightarrow> b \<in> {48, 49, 50, 51, 52, 53, 54, 55, 56, 57 :: byte}"
proof -
  assume "48 \<le> b" "b \<le> 57"
  then have "48 \<le> unat b \<and> unat b < 58" by (simp add: word_le_nat_alt)
  then have "unat b \<in> set [48..<58]" by (simp only: set_upt atLeastLessThan_iff)
  moreover have "b = of_nat (unat b)" by simp
  ultimately have "\<exists>n \<in> set [48..<58]. b = of_nat n" by blast
  then show ?thesis by (simp add: upt_rec)
qed

lemma digits_escaped: "list_all (\<lambda>b. 48 \<le> b \<and> b \<le> 57) ds \<Longrightarrow> escaped ESCAPE_HEADER_VALUE ds = ds"
proof (induction ds)
  case (Cons b ds)
  have "\<forall>b \<in> {48, 49, 50, 51, 52, 53, 54, 55, 56, 57 :: byte}. escape_byte ESCAPE_HEADER_VALUE b = [b]" by code_simp
  with Cons digit_cases [of b] show ?case by auto
qed simp

definition CONTENT_LENGTH :: bytes where
  "CONTENT_LENGTH = bytes_of_string ''Content-Length''"

lemma CONTENT_LENGTH_escaped: "escaped ESCAPE_HEADER_NAME CONTENT_LENGTH = CONTENT_LENGTH"
  by code_simp

lemma find_CONTENT_LENGTH:
  assumes "strings_laws S"
  shows "find_handler S ngx_http_wasm_resp_headers_handlers CONTENT_LENGTH = (CONTENT_LENGTH, ''content_length'', H_resp_cl)"
proof -
  have len: "length (bytes_of_string x) = length x" for x by (simp add: bytes_of_string_def)
  have "strncase_eq S a a" for a using assms by (simp add: strings_laws_def)
  then show ?thesis by (simp add: find_handler_def ngx_http_wasm_resp_headers_handlers_def CONTENT_LENGTH_def len)
qed

lemma set_length_sets:
  assumes S: "strings_laws (strs (le_map E))" "memory_ok (strs (le_map E))" and t: "le_content_type E = NGX_OK" and d: "digits_ok E n" and n: "0 \<le> n"
    and c: "hash_key_lc (strs (le_map E)) CONTENT_LENGTH \<noteq> 0" and h: "hashed (strs (le_map E)) (elts (headers_out r))"
    and none: "values_of (strs (le_map E)) CONTENT_LENGTH (elts (headers_out r)) = []" "builtins (headers_out r) ''content_length'' = None"
  shows "\<exists>h1. set_length dbg E n r = Some (NGX_OK, r\<lparr>headers_out := h1, out_content_length_n := n\<rparr>) \<and>
    (\<forall>k. \<not> same_name (strs (le_map E)) CONTENT_LENGTH k \<longrightarrow> values_of (strs (le_map E)) k (elts h1) = values_of (strs (le_map E)) k (elts (headers_out r)))"
proof (cases "out_content_length_n r = n")
  case True
  then show ?thesis
    using n t by (intro exI [of _ "headers_out r"]) (simp add: set_length_def ngx_http_wasm_set_resp_content_length_def)
next
  case False
  let ?S = "strs (le_map E)"
  let ?hv = "\<lparr>hv_offset = ''content_length'', hv_key = CONTENT_LENGTH, hv_value = Some (dec (le_map E) n), hv_htype = HEADERS_RESPONSE,
    hv_mode = HEADERS_SET, hv_hash = hash_key_lc ?S CONTENT_LENGTH\<rparr>"
  have "hv_ok ?S ?hv" "hv_mode ?hv = HEADERS_SET" "length (values_of ?S (hv_key ?hv) (elts (headers_out r))) \<le> 1"
    using S c none by (simp_all add: hv_ok_def)
  from helper_set [OF this(1,2) S(2) h this(3)] obtain i h1 where
    h1: "ngx_http_wasm_set_header_helper ?S ?hv (headers_out r) = Some (NGX_OK, Some (Some i), h1)"
      "\<And>k. values_of ?S k (elts h1) = (if same_name ?S CONTENT_LENGTH k then [dec (le_map E) n] else values_of ?S k (elts (headers_out r)))"
    by (auto simp: str_of_def)
  have v: "escaped ESCAPE_HEADER_VALUE (dec (le_map E) n) = dec (le_map E) n" "atoof ?S (dec (le_map E) n) = Some n"
    using d digits_escaped by (auto simp: digits_ok_def)
  have a: "pnalloc ?S m \<noteq> None" for m using S(2) by (simp add: memory_ok_def)
  have "set_length dbg E n r = Some (NGX_OK, r\<lparr>headers_out := h1\<lparr>builtins := (builtins h1)(''content_length'' := Some i)\<rparr>, out_content_length_n := n\<rparr>)"
    using False n t a h1(1) none(2) v
    by (simp add: set_length_def ngx_http_wasm_set_resp_content_length_def ngx_http_wasm_set_resp_header_def ngx_http_wasm_set_header_def
      copy_escaped_ok [OF S] CONTENT_LENGTH_def [symmetric] CONTENT_LENGTH_escaped find_CONTENT_LENGTH [OF S(1)] ngx_http_set_content_length_header_handler_def str_of_def
      ngx_http_wasm_set_builtin_header_handler_def set_header_in_def ngx_http_wasm_htype_list_def put_list_def put_field_def Let_def)
  with h1(2) show ?thesis by (intro exI conjI) auto
qed

lemma plain_not_CONTENT_LENGTH: "plain_name S k \<Longrightarrow> \<not> same_name S k CONTENT_LENGTH"
  by (auto simp: plain_name_def ngx_http_wasm_resp_headers_handlers_def CONTENT_LENGTH_def)

lemma sent_values_plain:
  assumes "list_all (settable S r) hs"
  shows "sent_values S hs CONTENT_LENGTH old = old"
proof -
  have "\<forall>(n, v) \<in> set hs. \<not> same_name S (escaped ESCAPE_HEADER_NAME n) CONTENT_LENGTH"
    using assms plain_not_CONTENT_LENGTH [of S] by (auto simp: settable_def list_all_iff)
  then have "filter (\<lambda>(n, v). same_name S (escaped ESCAPE_HEADER_NAME n) CONTENT_LENGTH) hs = []" by (auto simp: filter_empty_conv)
  then show ?thesis by (simp only: sent_values_def Let_def simp_thms if_True)
qed

text \<open>
  C39. The first response that a filter stashes in a context is what is sent when it is flushed, if its headers are plain ones (names
  without a handler of their own, which the response has at most once so far and whose hash is not 0), the response has no length yet, and
  allocations succeed: the status is that of the filter, every header has the value that the filter gave for its name (the last one, if
  it gave several), escaped, and all other headers but the length keep theirs; the length is that of the body with a line feed, or 0 without a
  body; and the body is handed to nginx with the line feed. The line of the status has the reason of the filter as it is, if there is one:
  unlike header names and values, it is not escaped.
\<close>

theorem local_response_sent:
  assumes "ngx_http_wasm_stash_local_response E status reason headers body st = (NGX_OK, st1)"
    and "\<not> header_sent (lr_ctx st)" and "\<not> lr_flushed st" and "lr_body st = None" and "lr_body_len st = 0" and "lr_reason_len st = 0"
    and "le_discard_body E = NGX_OK" and "le_content_type E = NGX_OK"
    and S: "strs (le_map E) = S" "strings_laws S" "memory_ok S" "hash_key_lc S CONTENT_LENGTH \<noteq> 0"
    and h: "headers_out (mc_req (lr_ctx st)) = h" "hashed S (elts h)" "values_of S CONTENT_LENGTH (elts h) = []" "builtins h ''content_length'' = None"
    and hs: "(case headers of None \<Rightarrow> [] | Some l \<Rightarrow> l) = hs" "list_all (settable S (mc_req (lr_ctx st))) hs"
    and n: "n = (if body = [] then 0 else int (length body + 1))" "digits_ok E n"
  shows "\<exists>st2 r. ngx_http_wasm_flush_local_response dbg E st1 = Some (le_send E (if body = [] then None else Some (body @ [10])) st2) \<and>
    mc_req (lr_ctx st2) = r \<and> out_status r = nat status \<and> out_content_length_n r = n \<and>
    (\<forall>k. \<not> same_name S CONTENT_LENGTH k \<longrightarrow> values_of S k (elts (headers_out r)) = sent_values S hs k (values_of S k (elts h))) \<and>
    (reason \<noteq> [] \<longrightarrow> status_line (lr_ctx st2) = dec3 (le_map E) (nat status) @ [32] @ reason) \<and>
    status_line_len (lr_ctx st2) = (if reason = [] then 0 else length reason + 4) \<and> lr_status st2 = 0 \<and> lr_flushed st2"
proof -
  note s = stash_ok [OF assms(1)]
  let ?b = "if body = [] then None else Some (body @ [10])"
  have st1: "lr_status st1 = nat status" "nat status \<noteq> 0" "lr_ctx st1 = lr_ctx st" "\<not> lr_flushed st1" "\<not> header_sent (lr_ctx st)"
      "lr_headers st1 = hs" "lr_body_len st1 = n" "map_option fst (lr_body st1) = ?b"
    using s assms(2-5) hs(1) n(1) by auto
  let ?m = "ngx_http_wasm_set_resp_status (nat status) (lr_reason st1) (lr_reason_len st1) (lr_ctx st)"
  let ?r0 = "(mc_req (lr_ctx st))\<lparr>out_status := nat status\<rparr>"
  have m: "mc_req ?m = ?r0" "reason \<noteq> [] \<Longrightarrow> status_line ?m = reason_line E (nat status) reason"
      "status_line_len ?m = (if reason = [] then 0 else length reason + 4)"
    using s assms(6) by (auto simp: ngx_http_wasm_set_resp_status_def)
  have "list_all (settable S ?r0) hs" using hs(2) by (auto simp: settable_def list_all_iff)
  with flush_headers_sets [of E ?r0 hs dbg] S h obtain h1 where
    h1: "flush_headers dbg E hs ?r0 = Some (NGX_OK, ?r0\<lparr>headers_out := h1\<rparr>)" "builtins h1 = builtins h" "hashed S (elts h1)"
      "\<And>k. values_of S k (elts h1) = sent_values S hs k (values_of S k (elts h))" by auto
  have "values_of S CONTENT_LENGTH (elts h1) = []"
    using h1(4) [of CONTENT_LENGTH] sent_values_plain [OF hs(2)] h(3) by simp
  moreover have "0 \<le> n" using n(1) by simp
  ultimately obtain h2 where
    h2: "set_length dbg E n (?r0\<lparr>headers_out := h1\<rparr>) = Some (NGX_OK, ?r0\<lparr>headers_out := h2, out_content_length_n := n\<rparr>)"
      "\<And>k. \<not> same_name S CONTENT_LENGTH k \<Longrightarrow> values_of S k (elts h2) = values_of S k (elts h1)"
    using set_length_sets [of E n "?r0\<lparr>headers_out := h1\<rparr>" dbg, unfolded S(1), OF S(2,3) assms(8) n(2)] S(4) h(4) h1(2,3) by auto
  let ?st2 = "put_request (?r0\<lparr>headers_out := h2, out_content_length_n := n\<rparr>) (st1\<lparr>lr_ctx := ?m\<rparr>)\<lparr>lr_status := 0, lr_flushed := True,
    lr_sent := lr_sent st1 @ [?b]\<rparr>"
  have "ngx_http_wasm_flush_local_response dbg E st1 = Some (le_send E ?b ?st2)"
    using st1 assms(7) m(1) h1(1) h2(1) by (simp add: ngx_http_wasm_flush_local_response_def Let_def)
  with m h1(4) h2(2) show ?thesis by (intro exI [of _ ?st2]) (simp add: put_request_def reason_line_def)
qed

section \<open>At most one response\<close>

text \<open>
  What is relied on of nginx: sending headers runs the header filter of the module, and sending does not stash or flush.
\<close>

definition send_laws :: "'g lr_env \<Rightarrow> bool" where
  "send_laws E \<longleftrightarrow> (\<forall>b st. in_header_filter (lr_ctx (snd (le_send E b st))) \<and> lr_sent (snd (le_send E b st)) = lr_sent st \<and>
     lr_status (snd (le_send E b st)) = lr_status st)"

text \<open>Runs: responses are stashed and flushed, and nginx goes on with the request, which may enter the header filter.\<close>

inductive lr_reach :: "bool \<Rightarrow> 'g lr_env \<Rightarrow> 'g local_resp \<Rightarrow> 'g local_resp \<Rightarrow> bool" for dbg E st0 where
  lr_start: "lr_reach dbg E st0 st0"
| lr_stash: "lr_reach dbg E st0 st \<Longrightarrow> ngx_http_wasm_stash_local_response E s r h b st = (rc, st') \<Longrightarrow> lr_reach dbg E st0 st'"
| lr_flush: "lr_reach dbg E st0 st \<Longrightarrow> ngx_http_wasm_flush_local_response dbg E st = Some (rc, st') \<Longrightarrow> lr_reach dbg E st0 st'"
| lr_nginx: "lr_reach dbg E st0 st \<Longrightarrow> (in_header_filter (lr_ctx st) \<longrightarrow> in_header_filter m) \<Longrightarrow> lr_reach dbg E st0 (st\<lparr>lr_ctx := m\<rparr>)"

lemma discarded:
  "lr_ctx (ngx_http_wasm_discard_local_response st) = lr_ctx st" "lr_sent (ngx_http_wasm_discard_local_response st) = lr_sent st"
  "lr_status (ngx_http_wasm_discard_local_response st) = 0"
  by (simp_all add: ngx_http_wasm_discard_local_response_def)

lemma stash_checked:
  assumes "\<not> in_header_filter (lr_ctx st)" "lr_status st = 0" "100 \<le> s" "s \<le> 999"
  shows "ngx_http_wasm_stash_local_response E s r h b st =
    (case stash_reason E (nat s) r (st\<lparr>lr_status := nat s\<rparr>) of
       None \<Rightarrow> (NGX_ERROR, ngx_http_wasm_discard_local_response (st\<lparr>lr_status := nat s\<rparr>))
     | Some st1 \<Rightarrow>
         let hs = (case h of None \<Rightarrow> [] | Some h \<Rightarrow> h) in
         if \<not> le_array_init E (length hs) then (NGX_ERROR, ngx_http_wasm_discard_local_response st1)
         else let (copied, ok) = stash_headers E hs []; st2 = st1\<lparr>lr_headers := copied\<rparr> in
           if \<not> ok then (NGX_ERROR, ngx_http_wasm_discard_local_response st2)
           else (case stash_body E b st2 of
               None \<Rightarrow> (NGX_ERROR, ngx_http_wasm_discard_local_response st2)
             | Some st3 \<Rightarrow> (NGX_OK, st3\<lparr>lr_content_chosen := True\<rparr>)))"
  unfolding ngx_http_wasm_stash_local_response_def Let_def using assms by simp

lemma stash_frame:
  assumes "ngx_http_wasm_stash_local_response E s r h b st = (rc, st')"
  shows "lr_ctx st' = lr_ctx st \<and> lr_sent st' = lr_sent st \<and> (lr_status st' = 0 \<or> lr_status st' = lr_status st \<or> \<not> in_header_filter (lr_ctx st))"
proof (cases "in_header_filter (lr_ctx st) \<or> lr_status st \<noteq> 0 \<or> s < 100 \<or> s > 999")
  case True
  with assms have "st' = st" by (simp add: ngx_http_wasm_stash_local_response_def split: if_splits)
  then show ?thesis by simp
next
  case False
  let ?hs = "case h of None \<Rightarrow> [] | Some h \<Rightarrow> h" and ?st0 = "st\<lparr>lr_status := nat s\<rparr>"
  have g: "\<not> in_header_filter (lr_ctx st)" using False by simp
  from False have eq: "(rc, st') = ngx_http_wasm_stash_local_response E s r h b st" "100 \<le> s" "s \<le> 999" "lr_status st = 0"
    using assms by simp_all
  note u = eq(1) [unfolded stash_checked [OF g eq(4,2,3)]]
  show ?thesis
  proof (cases "stash_reason E (nat s) r ?st0")
    case None
    with u g show ?thesis by (simp add: discarded)
  next
    case (Some st1)
    note r = stash_reason_frame [OF Some]
    obtain copied ok where c: "stash_headers E ?hs [] = (copied, ok)" by (cases "stash_headers E ?hs []")
    show ?thesis
    proof (cases "stash_body E b (st1\<lparr>lr_headers := copied\<rparr>)")
      case None
      with u g Some c r show ?thesis by (simp add: discarded Let_def split: if_splits)
    next
      case st3: (Some st3)
      with u g Some c r stash_body_frame [OF st3] show ?thesis by (simp add: discarded Let_def split: if_splits)
    qed
  qed
qed

lemma flush_cases:
  assumes "ngx_http_wasm_flush_local_response dbg E st = Some (rc, st')"
  shows "lr_sent st' = lr_sent st \<and> lr_status st' = lr_status st \<and> in_header_filter (lr_ctx st') = in_header_filter (lr_ctx st) \<or>
    (\<exists>st1. le_send E (map_option fst (lr_body st)) st1 = (rc, st') \<and> lr_sent st1 = lr_sent st @ [map_option fst (lr_body st)] \<and>
      lr_status st1 = 0 \<and> lr_status st \<noteq> 0)"
proof (cases "lr_status st = 0 \<or> header_sent (lr_ctx st) \<or> lr_flushed st \<or> le_discard_body E \<noteq> NGX_OK")
  case True
  with assms show ?thesis by (auto simp: ngx_http_wasm_flush_local_response_def split: if_splits)
next
  case False
  let ?st1 = "st\<lparr>lr_ctx := ngx_http_wasm_set_resp_status (lr_status st) (lr_reason st) (lr_reason_len st) (lr_ctx st)\<rparr>"
  have f: "in_header_filter (lr_ctx (put_request r ?st1)) = in_header_filter (lr_ctx st)" "lr_sent (put_request r ?st1) = lr_sent st"
      "lr_status (put_request r ?st1) = lr_status st" for r
    by (simp_all add: put_request_def ngx_http_wasm_set_resp_status_def)
  from False assms obtain rc1 r1 where h: "flush_headers dbg E (lr_headers st) (mc_req (lr_ctx ?st1)) = Some (rc1, r1)"
    by (auto simp: ngx_http_wasm_flush_local_response_def bind_eq_Some_conv Let_def)
  show ?thesis
  proof (cases "rc1 = NGX_OK")
    case True
    with False assms h obtain rc2 r2 where l: "set_length dbg E (lr_body_len st) r1 = Some (rc2, r2)"
      by (auto simp: ngx_http_wasm_flush_local_response_def bind_eq_Some_conv Let_def)
    with True False assms h f show ?thesis
      by (cases "rc2 = NGX_OK") (auto simp: ngx_http_wasm_flush_local_response_def Let_def intro!: exI [of _ "_\<lparr>lr_status := 0, lr_flushed := True, lr_sent := _\<rparr>"])
  next
    case rc: False
    with False assms h f show ?thesis by (auto simp: ngx_http_wasm_flush_local_response_def Let_def)
  qed
qed

definition lr_inv :: "'g local_resp \<Rightarrow> bool" where
  "lr_inv st \<longleftrightarrow> lr_sent st = [] \<or> length (lr_sent st) = 1 \<and> in_header_filter (lr_ctx st) \<and> lr_status st = 0"

text \<open>
  C40. At most one local response is sent for a request, however often filters produce responses and in whatever order they are flushed.
\<close>

theorem local_response_once:
  assumes "lr_reach dbg E st0 st" and "lr_sent st0 = []" and "send_laws E"
  shows "length (lr_sent st) \<le> 1"
proof -
  have "lr_inv st"
    using assms(1)
  proof induction
    case (lr_stash st s r h b rc st')
    from stash_frame [OF lr_stash.hyps(2)] lr_stash.IH show ?case by (auto simp: lr_inv_def)
  next
    case (lr_flush st rc st')
    from flush_cases [OF lr_flush.hyps(2)] show ?case
    proof (elim disjE exE conjE)
      fix st1 let ?b = "map_option fst (lr_body st)"
      assume a: "le_send E ?b st1 = (rc, st')" "lr_sent st1 = lr_sent st @ [?b]" "lr_status st1 = 0" "lr_status st \<noteq> 0"
      have "in_header_filter (lr_ctx st') \<and> lr_sent st' = lr_sent st1 \<and> lr_status st' = lr_status st1"
        using assms(3) a(1) unfolding send_laws_def by (metis snd_conv)
      with a lr_flush.IH show ?thesis by (auto simp: lr_inv_def)
    qed (use lr_flush.IH in \<open>auto simp: lr_inv_def\<close>)
  qed (use assms(2) in \<open>auto simp: lr_inv_def\<close>)
  then show ?thesis by (auto simp: lr_inv_def)
qed

section \<open>An instance\<close>

definition demo_digits :: map_env where
  "demo_digits = demo_env\<lparr>dec := (\<lambda>n. [48 + word_of_int n]),
     strs := demo_strings\<lparr>hash_key_lc := length, atoof := (\<lambda>ds. case ds of [d] \<Rightarrow> Some (uint d - 48) | _ \<Rightarrow> None)\<rparr>\<rparr>"

definition demo_lr_env :: "unit lr_env" where
  "demo_lr_env = \<lparr>le_map = demo_digits, le_array_init = (\<lambda>n. True), le_array_push = (\<lambda>n. True), le_temp_buf = (\<lambda>n. True), le_free_buf = (\<lambda>n. True),
     le_discard_body = NGX_OK, le_content_type = NGX_OK,
     le_send = (\<lambda>b st. (NGX_OK, st\<lparr>lr_ctx := (lr_ctx st)\<lparr>in_header_filter := True, header_sent := True\<rparr>\<rparr>))\<rparr>"

definition demo_lr :: "unit local_resp" where
  "demo_lr = \<lparr>lr_ctx = (demo_map_ctx [])\<lparr>mc_req := demo_request\<lparr>headers_out := \<lparr>elts = [], builtins = (\<lambda>_. None)\<rparr>\<rparr>,
       in_header_filter := False, header_sent := False\<rparr>,
     lr_main = True, lr_status = 0, lr_reason = None,
     lr_reason_len = 0, lr_headers = [], lr_body = None, lr_body_len = 0, lr_content_chosen = False, lr_flushed = False, lr_sent = []\<rparr>"

text \<open>A response whose reason has a line break, which splits the response.\<close>

definition demo_reason :: bytes where
  "demo_reason = bytes_of_string ''OK'' @ [13, 10] @ bytes_of_string ''X: y''"

definition demo_stashed :: "unit local_resp" where
  "demo_stashed = snd (ngx_http_wasm_stash_local_response demo_lr_env 200 demo_reason (Some [([88], [89])]) [104, 105] demo_lr)"

lemma demo_stashed: "ngx_http_wasm_stash_local_response demo_lr_env 200 demo_reason (Some [([88], [89])]) [104, 105] demo_lr = (NGX_OK, demo_stashed)"
proof -
  have "fst (ngx_http_wasm_stash_local_response demo_lr_env 200 demo_reason (Some [([88], [89])]) [104, 105] demo_lr) = NGX_OK" by code_simp
  then show ?thesis by (simp add: demo_stashed_def prod_eq_iff)
qed

lemma demo_digits_laws: "strings_laws (strs demo_digits)" "memory_ok (strs demo_digits)"
  using demo_strings_laws by (simp_all add: strings_laws_def demo_digits_def memory_ok_def demo_strings_def)

theorem local_response_sent_witness:
  "\<exists>st2. ngx_http_wasm_flush_local_response True demo_lr_env demo_stashed = Some (le_send demo_lr_env (Some [104, 105, 10]) st2) \<and>
    values_of (strs demo_digits) [88] (elts (headers_out (mc_req (lr_ctx st2)))) = [[89]] \<and>
    out_content_length_n (mc_req (lr_ctx st2)) = 3 \<and> status_line (lr_ctx st2) = [50, 48, 48, 32] @ demo_reason"
proof -
  let ?S = "strs demo_digits" and ?r = "mc_req (lr_ctx demo_lr)" and ?b = "[104, 105] :: bytes"
  have e: "\<not> header_sent (lr_ctx demo_lr)" "\<not> lr_flushed demo_lr" "lr_body demo_lr = None" "lr_body_len demo_lr = 0" "lr_reason_len demo_lr = 0"
      "le_discard_body demo_lr_env = NGX_OK" "le_content_type demo_lr_env = NGX_OK" "strs (le_map demo_lr_env) = ?S" "builtins (headers_out ?r) ''content_length'' = None"
    by (simp_all add: demo_lr_def demo_lr_env_def demo_map_ctx_def demo_request_def demo_headers_def)
  have c: "hash_key_lc ?S CONTENT_LENGTH \<noteq> 0" "hashed ?S (elts (headers_out ?r))" "values_of ?S CONTENT_LENGTH (elts (headers_out ?r)) = []"
      "list_all (settable ?S ?r) [([88], [89])]" "digits_ok demo_lr_env 3" by code_simp+
  have d: "dec3 (le_map demo_lr_env) (nat 200) = [50, 48, 48]" "\<not> same_name ?S CONTENT_LENGTH [88]"
      "sent_values ?S [([88], [89])] [88] (values_of ?S [88] (elts (headers_out ?r))) = [[89]]" by code_simp+
  have hs: "(case Some [([88], [89])] of None \<Rightarrow> [] | Some l \<Rightarrow> l) = [([88 :: byte], [89 :: byte])]"
    and n: "3 = (if ?b = [] then 0 else int (length ?b + 1))" by simp_all
  from local_response_sent [OF demo_stashed e(1-8) demo_digits_laws c(1) refl c(2,3) e(9) hs c(4) n c(5), of True]
  obtain st2 where "ngx_http_wasm_flush_local_response True demo_lr_env demo_stashed = Some (le_send demo_lr_env (Some (?b @ [10])) st2)"
      "out_content_length_n (mc_req (lr_ctx st2)) = 3" "status_line (lr_ctx st2) = [50, 48, 48] @ [32] @ demo_reason"
      "values_of ?S [88] (elts (headers_out (mc_req (lr_ctx st2)))) = [[89]]"
    using d by (auto simp: demo_reason_def)
  then show ?thesis by (intro exI [of _ st2]) simp
qed

theorem local_response_once_witness:
  "\<exists>rc st. ngx_http_wasm_flush_local_response True demo_lr_env demo_stashed = Some (rc, st) \<and> length (lr_sent st) \<le> 1"
proof -
  have "ngx_http_wasm_flush_local_response True demo_lr_env demo_stashed \<noteq> None" by code_simp
  then obtain rc st where f: "ngx_http_wasm_flush_local_response True demo_lr_env demo_stashed = Some (rc, st)" by auto
  have "lr_reach True demo_lr_env demo_lr st" by (rule lr_flush [OF lr_stash [OF lr_start demo_stashed] f])
  moreover have "send_laws demo_lr_env" "lr_sent demo_lr = []" by (simp_all add: send_laws_def demo_lr_env_def demo_lr_def)
  ultimately have "length (lr_sent st) \<le> 1" using local_response_once [of True demo_lr_env demo_lr st] by simp
  with f show ?thesis by blast
qed

end
