(* ===== verification/Send_Response.thy ===== *)
theory Send_Response
  imports Local_Response_Props Foreign_Call_Props Host_Buffers_Props
begin

text \<open>
  The host function with which a filter answers a request itself (\<open>ngx_proxy_wasm_hfuncs_send_local_response\<close> of
  src/src/common/proxy_wasm/ngx_proxy_wasm_host.c). It connects the local response, the body of the response that nginx is about to send,
  and the operations of the filter that are pending.
\<close>

section \<open>The host function\<close>

text \<open>
  The context of the filter, in three parts: memory, request and step are those of \<open>sc_resp\<close>, the body and whether nginx filters it those
  of \<open>sc_bufs\<close>, the next action and the pending operations those of \<open>sc_calls\<close>. \<open>sc_request\<close> says whether the context has a request, and
  \<open>sc_override\<close> is \<open>resp_chunk_override\<close>.
\<close>

record 'g send_ctx =
  sc_request :: bool
  sc_resp :: "'g local_resp"
  sc_bufs :: "'g buffers"
  sc_calls :: "'g fctx"
  sc_override :: bool

text \<open>
  The response in the header filter: the body that nginx has is replaced, and a line feed is appended to it, without a change of its
  length. The status is not checked; a negative one is a large unsigned number.
\<close>

definition override_response ::
  "bool \<Rightarrow> chain_pool \<Rightarrow> nat \<Rightarrow> u32 \<Rightarrow> bytes option \<Rightarrow> nat \<Rightarrow> bytes \<Rightarrow> 'g send_ctx \<Rightarrow> (hfunc_ret \<times> 'g send_ctx) option" where
  "override_response dbg P tag status reason reason_len body st = do {
     (rc, b1) \<leftarrow> ngx_http_wasm_set_resp_body dbg P tag (length body) body 0 (length body) (sc_bufs st);
     let st1 = st\<lparr>sc_bufs := b1\<rparr>;
     if rc \<noteq> NGX_OK then Some (Result RESULT_INTERNAL_FAILURE, st1)
     else do {
       (rc, b2) \<leftarrow> (if body = [] then Some (NGX_OK, b1)
         else do {
           (rc, cl, free1, h1) \<leftarrow> ngx_wasm_chain_append dbg P (resp_chunk b1) (length body) [10] (free_bufs b1) tag (bf_links b1);
           Some (rc, b1\<lparr>resp_chunk := cl, free_bufs := free1, bf_links := h1\<rparr>) });
       let st2 = st1\<lparr>sc_bufs := b2\<rparr>;
       if rc \<noteq> NGX_OK then Some (Result RESULT_INTERNAL_FAILURE, st2)
       else Some (Result RESULT_OK, st2\<lparr>sc_override := True, sc_resp := (sc_resp st)\<lparr>lr_ctx :=
         ngx_http_wasm_set_resp_status (nat (sint status mod 2 ^ 64)) reason reason_len (lr_ctx (sc_resp st))\<rparr>\<rparr>) } }"

text \<open>A response was stashed: the filters are done, and what is pending is cancelled.\<close>

definition response_stashed :: "(nat \<Rightarrow> 'g fctx \<Rightarrow> 'g fctx) \<Rightarrow> 'g send_ctx \<Rightarrow> (hfunc_ret \<times> 'g send_ctx) option" where
  "response_stashed destroy st = do {
     let fc = sc_calls st;
     let fc1 = (if mc_step (lr_ctx (sc_resp st)) \<noteq> STEP_DISPATCH_RESPONSE then fc\<lparr>f_action := ACTION_DONE\<rparr> else fc);
     fc2 \<leftarrow> (if ngx_proxy_wasm_dispatch_ops_total fc1 \<noteq> 0 then ngx_proxy_wasm_dispatch_ops_cancel destroy fc1 else Some fc1);
     Some (Result RESULT_OK, st\<lparr>sc_calls := fc2\<rparr>) }"

text \<open>
  The return code of the stash as the result. The lengths are signed: from $2^{31}$ on, for which the memory of the guest has to be larger
  than 2 GB, they are not in the model (\<open>None\<close>).
\<close>

definition ngx_proxy_wasm_hfuncs_send_local_response ::
  "bool \<Rightarrow> 'g lr_env \<Rightarrow> chain_pool \<Rightarrow> nat \<Rightarrow> (nat \<Rightarrow> bool) \<Rightarrow> (nat \<Rightarrow> 'g fctx \<Rightarrow> 'g fctx) \<Rightarrow> u32 \<Rightarrow> u32 \<Rightarrow> u32 \<Rightarrow> u32 \<Rightarrow> u32 \<Rightarrow> u32 \<Rightarrow> u32 \<Rightarrow> u32 \<Rightarrow>
    'g send_ctx \<Rightarrow> (hfunc_ret \<times> 'g send_ctx) option" where
  "ngx_proxy_wasm_hfuncs_send_local_response dbg E P tag alloc_ok destroy status reason_ptr reason_len body_ptr body_len map_ptr map_len grpc st =
     (let mem = mc_mem (lr_ctx (sc_resp st)) in
      case (ngx_wavm_memory_lift mem reason_ptr reason_len 1, ngx_wavm_memory_lift mem body_ptr body_len 1,
          ngx_wavm_memory_lift mem map_ptr map_len 1) of
        (Some rp, Some bp, Some mp) \<Rightarrow>
          if \<not> ngx_wa_assert dbg (grpc = - 1) \<or> sint reason_len < 0 \<or> sint body_len < 0 then None
          else do {
            (rc, ps) \<leftarrow> ngx_proxy_wasm_pairs_unmarshal alloc_ok (unat map_len) (case mp of None \<Rightarrow> [] | Some off \<Rightarrow> drop off mem);
            let reason = read_slice mem rp reason_len;
            let body = read_slice mem bp body_len;
            if rc \<noteq> NGX_OK then Some (Result RESULT_INTERNAL_FAILURE, st)
            else if \<not> sc_request st then None
            else if in_header_filter (lr_ctx (sc_resp st)) \<and> \<not> entered_body_filter (sc_bufs st)
            then override_response dbg P tag status (map_option (\<lambda>_. reason) rp) (length reason) body st
            else (case ngx_http_wasm_stash_local_response E (sint status) reason (Some (map (\<lambda>e. (elt_key e, elt_value e)) ps)) body (sc_resp st) of
                (rc, lr) \<Rightarrow>
                  let st1 = st\<lparr>sc_resp := lr\<rparr> in
                  if rc = NGX_OK then response_stashed destroy st1
                  else Some (if rc = NGX_ERROR then Result RESULT_INTERNAL_FAILURE
                    else if rc = NGX_DECLINED then Result RESULT_BAD_ARGUMENT else Bad_usage, st1)) }
      | _ \<Rightarrow> Some (Bad_usage, st))"

section \<open>What it does\<close>

lemma response_stashed_ok:
  assumes "response_stashed destroy st = Some (r, st')" and "destroy_laws destroy"
  shows "r = Result RESULT_OK" "sc_resp st' = sc_resp st" "f_ops (sc_calls st') = []"
    and "mc_step (lr_ctx (sc_resp st)) \<noteq> STEP_DISPATCH_RESPONSE \<Longrightarrow> f_action (sc_calls st') = ACTION_DONE"
    and "f_pending (sc_calls st') = f_pending (sc_calls st)"
proof -
  let ?fc = "if mc_step (lr_ctx (sc_resp st)) \<noteq> STEP_DISPATCH_RESPONSE then (sc_calls st)\<lparr>f_action := ACTION_DONE\<rparr> else sc_calls st"
  from assms(1) obtain fc where fc: "(if f_ops ?fc \<noteq> [] then ngx_proxy_wasm_dispatch_ops_cancel destroy ?fc else Some ?fc) = Some fc"
    and st': "st' = st\<lparr>sc_calls := fc\<rparr>" and r: "r = Result RESULT_OK"
    by (auto simp: response_stashed_def ngx_proxy_wasm_dispatch_ops_total_def bind_eq_Some_conv Let_def split: if_splits)
  have *: "f_ops fc = [] \<and> f_action fc = f_action ?fc \<and> f_pending fc = f_pending ?fc"
  proof (cases "f_ops ?fc = []")
    case True
    with fc show ?thesis by (simp only: if_False not_True_eq_False refl option.inject)
  next
    case False
    with fc have c: "cancel_ops destroy (f_ops ?fc) (?fc\<lparr>f_ops := []\<rparr>) = Some fc"
      unfolding ngx_proxy_wasm_dispatch_ops_cancel_def by (simp only: if_True not_False_eq_True)
    from cancel_ops_frame [OF c assms(2)] show ?thesis by simp
  qed
  with r st' show "r = Result RESULT_OK" "sc_resp st' = sc_resp st" "f_ops (sc_calls st') = []"
    "mc_step (lr_ctx (sc_resp st)) \<noteq> STEP_DISPATCH_RESPONSE \<Longrightarrow> f_action (sc_calls st') = ACTION_DONE"
    "f_pending (sc_calls st') = f_pending (sc_calls st)" by simp_all
qed

text \<open>A call that succeeds before the header filter stashed a response.\<close>

lemma send_ok:
  assumes "ngx_proxy_wasm_hfuncs_send_local_response dbg E P tag alloc_ok destroy status rp rl bp bl mp ml grpc st = Some (Result RESULT_OK, st')"
    and "\<not> in_header_filter (lr_ctx (sc_resp st))"
  shows "\<exists>reason hs body lr. ngx_http_wasm_stash_local_response E (sint status) reason (Some hs) body (sc_resp st) = (NGX_OK, lr) \<and>
    (\<exists>off. ngx_wavm_memory_lift (mc_mem (lr_ctx (sc_resp st))) bp bl 1 = Some off \<and> body = read_slice (mc_mem (lr_ctx (sc_resp st))) off bl) \<and>
    response_stashed destroy (st\<lparr>sc_resp := lr\<rparr>) = Some (Result RESULT_OK, st')"
proof -
  let ?mem = "mc_mem (lr_ctx (sc_resp st))"
  from assms(1) obtain r b m where l: "ngx_wavm_memory_lift ?mem rp rl 1 = Some r" "ngx_wavm_memory_lift ?mem bp bl 1 = Some b"
      "ngx_wavm_memory_lift ?mem mp ml 1 = Some m"
    by (auto simp: ngx_proxy_wasm_hfuncs_send_local_response_def Let_def split: option.splits)
  note u = assms(1) [unfolded ngx_proxy_wasm_hfuncs_send_local_response_def Let_def l prod.case option.case]
  from u obtain rc ps where p: "ngx_proxy_wasm_pairs_unmarshal alloc_ok (unat ml) (case m of None \<Rightarrow> [] | Some off \<Rightarrow> drop off ?mem) = Some (rc, ps)"
    by (auto simp: bind_eq_Some_conv split: if_splits)
  obtain rc1 lr where s: "ngx_http_wasm_stash_local_response E (sint status) (read_slice ?mem r rl) (Some (map (\<lambda>e. (elt_key e, elt_value e)) ps))
      (read_slice ?mem b bl) (sc_resp st) = (rc1, lr)" by fastforce
  from u p s assms(2) have "rc1 = NGX_OK" "response_stashed destroy (st\<lparr>sc_resp := lr\<rparr>) = Some (Result RESULT_OK, st')"
    by (simp_all split: if_splits)
  with s l(2) show ?thesis by blast
qed

text \<open>
  A local response that is accepted before the header filter has a status between 100 and 999, ends the filters (except for a response
  to a dispatched call) and leaves no operation pending.
\<close>

theorem send_local_response_effect:
  assumes "ngx_proxy_wasm_hfuncs_send_local_response dbg E P tag alloc_ok destroy status rp rl bp bl mp ml grpc st = Some (Result RESULT_OK, st')"
    and "\<not> in_header_filter (lr_ctx (sc_resp st))" and "destroy_laws destroy"
  shows "100 \<le> sint status \<and> sint status \<le> 999 \<and> lr_status (sc_resp st) = 0 \<and> lr_status (sc_resp st') = nat (sint status) \<and>
    (bl \<noteq> 0 \<longrightarrow> lr_body_len (sc_resp st') = int (unat bl + 1)) \<and> f_ops (sc_calls st') = [] \<and>
    (mc_step (lr_ctx (sc_resp st)) \<noteq> STEP_DISPATCH_RESPONSE \<longrightarrow> f_action (sc_calls st') = ACTION_DONE)"
proof -
  obtain reason hs body lr off where s: "ngx_http_wasm_stash_local_response E (sint status) reason (Some hs) body (sc_resp st) = (NGX_OK, lr)"
      and b: "ngx_wavm_memory_lift (mc_mem (lr_ctx (sc_resp st))) bp bl 1 = Some off" "body = read_slice (mc_mem (lr_ctx (sc_resp st))) off bl"
      and r: "response_stashed destroy (st\<lparr>sc_resp := lr\<rparr>) = Some (Result RESULT_OK, st')"
    using send_ok [OF assms(1,2)] by blast
  note o = stash_ok [OF s] and k = response_stashed_ok [OF r assms(3)]
  have len: "length body = unat bl" if "bl \<noteq> 0"
    using b that length_read_slice [of _ bp bl 1] by (cases off) (auto simp: ngx_wavm_memory_lift_def split: if_splits)
  have "bl \<noteq> 0 \<Longrightarrow> body \<noteq> []" using len by (auto simp: unat_eq_0)
  with o k len show ?thesis by auto
qed

text \<open>
  A filter that answers the request itself while a name it asked for is still being resolved: the response takes the operation out of the
  queue, but the resolver still works on the name, and its answer, when it arrives, takes the operation out of the queue again.
\<close>

theorem response_leaves_answer_pending:
  assumes "ngx_proxy_wasm_hfuncs_send_local_response dbg E P tag alloc_ok destroy status rp rl bp bl mp ml grpc st = Some (Result RESULT_OK, st')"
    and "\<not> in_header_filter (lr_ctx (sc_resp st))" and "destroy_laws destroy"
    and "rs \<in> set (f_pending (sc_calls st))"
  shows "rs \<in> set (f_pending (sc_calls st')) \<and> ngx_proxy_wasm_hfuncs_resolve_handler F G rs state addrs (sc_calls st') = None"
proof -
  obtain reason hs body lr where r: "response_stashed destroy (st\<lparr>sc_resp := lr\<rparr>) = Some (Result RESULT_OK, st')"
    using send_ok [OF assms(1,2)] by blast
  note k = response_stashed_ok [OF r assms(3)]
  then have "Foreign (rs_call rs) \<notin> set (f_ops (sc_calls st'))" by simp
  from answer_unlinked [OF this] k(5) assms(4) show ?thesis by simp
qed

section \<open>An instance\<close>

text \<open>A filter that resolves a name and, before the answer, responds with status 200 and the two bytes at 8.\<close>

definition demo_send :: "unit send_ctx" where
  "demo_send = \<lparr>sc_request = True, sc_resp = demo_lr\<lparr>lr_ctx := (lr_ctx demo_lr)\<lparr>mc_mem := replicate 8 0 @ [104, 105] @ replicate 6 0\<rparr>\<rparr>,
     sc_bufs = demo_buffers, sc_calls = demo_pending, sc_override = False\<rparr>"

definition demo_responded :: "unit send_ctx" where
  "demo_responded = snd (the (ngx_proxy_wasm_hfuncs_send_local_response True demo_lr_env demo_pool 9 (\<lambda>n. True) (\<lambda>d fc. fc)
     200 0 0 8 2 0 0 (- 1) demo_send))"

lemma demo_responded:
  "ngx_proxy_wasm_hfuncs_send_local_response True demo_lr_env demo_pool 9 (\<lambda>n. True) (\<lambda>d fc. fc) 200 0 0 8 2 0 0 (- 1) demo_send =
     Some (Result RESULT_OK, demo_responded)"
proof -
  have "map_option fst (ngx_proxy_wasm_hfuncs_send_local_response True demo_lr_env demo_pool 9 (\<lambda>n. True) (\<lambda>d fc. fc)
    200 0 0 8 2 0 0 (- 1) demo_send) = Some (Result RESULT_OK)" by code_simp
  then show ?thesis by (auto simp: demo_responded_def)
qed

lemma demo_destroy: "destroy_laws (\<lambda>d fc. fc)"
  by (simp add: destroy_laws_def)

lemma demo_not_filtered: "\<not> in_header_filter (lr_ctx (sc_resp demo_send))"
  by (simp add: demo_send_def demo_lr_def)

theorem send_local_response_effect_witness:
  "lr_status (sc_resp demo_responded) = 200 \<and> lr_body_len (sc_resp demo_responded) = 3 \<and> f_ops (sc_calls demo_responded) = []"
  using send_local_response_effect [OF demo_responded demo_not_filtered demo_destroy] by simp

theorem response_leaves_answer_pending_witness:
  "ngx_proxy_wasm_hfuncs_resolve_handler demo_fc_env demo_fc_guest demo_rslv 0 [AF_INET 1 0] (sc_calls demo_send) \<noteq> None \<and>
   demo_rslv \<in> set (f_pending (sc_calls demo_responded)) \<and>
   ngx_proxy_wasm_hfuncs_resolve_handler demo_fc_env demo_fc_guest demo_rslv 0 [AF_INET 1 0] (sc_calls demo_responded) = None"
proof -
  have p: "f_pending (sc_calls demo_send) = [demo_rslv]" by code_simp
  have "ngx_proxy_wasm_hfuncs_resolve_handler demo_fc_env demo_fc_guest demo_rslv 0 [AF_INET 1 0] (sc_calls demo_send) \<noteq> None" by code_simp
  with response_leaves_answer_pending [OF demo_responded demo_not_filtered demo_destroy, of demo_rslv] p show ?thesis by simp
qed

end
