(* ===== verification/Host_Control.thy ===== *)
theory Host_Control
  imports Proxy_Wasm_Maps Host_Metrics
begin

text \<open>
  Timers of filters (src/src/common/proxy_wasm/ngx_proxy_wasm_host.c, ngx_proxy_wasm_util.c) and the small host functions: the log, the
  time, the configuration and the continuation of a request.
\<close>

section \<open>Log, time and configuration\<close>

datatype log_level = LOG_DEBUG | LOG_INFO | LOG_WARN | LOG_ERR | LOG_CRIT

definition log_level_of :: "u32 \<Rightarrow> log_level option" where
  "log_level_of l = (if l = 0 \<or> l = 1 then Some LOG_DEBUG else if l = 2 then Some LOG_INFO else if l = 3 then Some LOG_WARN
     else if l = 4 then Some LOG_ERR else if l = 5 then Some LOG_CRIT else None)"

text \<open>The log is the list of messages so far.\<close>

definition ngx_proxy_wasm_hfuncs_proxy_log ::
  "u32 \<Rightarrow> u32 \<Rightarrow> u32 \<Rightarrow> bytes \<Rightarrow> (log_level \<times> bytes) list \<Rightarrow> hfunc_ret \<times> (log_level \<times> bytes) list" where
  "ngx_proxy_wasm_hfuncs_proxy_log level msg len mem log =
     (case ngx_wavm_memory_lift mem msg len 1 of
        None \<Rightarrow> (Bad_usage, log)
      | Some off \<Rightarrow> (case log_level_of level of
          None \<Rightarrow> (Result RESULT_BAD_ARGUMENT, log)
        | Some l \<Rightarrow> (Result RESULT_OK, log @ [(l, read_slice mem off len)])))"

definition ngx_proxy_wasm_hfuncs_get_current_time :: "u64 \<Rightarrow> u32 \<Rightarrow> bytes \<Rightarrow> (hfunc_ret \<times> bytes) option" where
  "ngx_proxy_wasm_hfuncs_get_current_time now ptr mem =
     (case ngx_wavm_memory_lift mem ptr 8 1 of
        Some (Some off) \<Rightarrow> map_option (\<lambda>m. (Result RESULT_OK, m)) (buf_write mem off (le64 now))
      | _ \<Rightarrow> Some (Bad_usage, mem))"

definition ngx_proxy_wasm_hfuncs_get_configuration ::
  "'g hguest \<Rightarrow> bytes \<Rightarrow> u32 \<Rightarrow> u32 \<Rightarrow> 'g map_ctx \<Rightarrow> (hfunc_ret \<times> 'g map_ctx) option" where
  "ngx_proxy_wasm_hfuncs_get_configuration G config rbuf_ptr rlen_ptr m =
     (case (lift_u32 (mc_mem m) rbuf_ptr, lift_u32 (mc_mem m) rlen_ptr) of
        (Some rbuf, Some rlen) \<Rightarrow> if config \<noteq> [] then return_value G config rbuf rlen m else Some (Result RESULT_OK, m)
      | _ \<Rightarrow> Some (Bad_usage, m))"

section \<open>Continuing\<close>

text \<open>
  The state of the request of the context, which is missing in a root context: then the state is written through a NULL pointer.
\<close>

definition ngx_proxy_wasm_hfuncs_resume_http_request :: "env_state option \<Rightarrow> (hfunc_ret \<times> env_state option) option" where
  "ngx_proxy_wasm_hfuncs_resume_http_request env =
     (case env of None \<Rightarrow> None | Some _ \<Rightarrow> Some (Result RESULT_OK, Some STATE_CONTINUE))"

definition ngx_proxy_wasm_hfuncs_continue :: "u32 \<Rightarrow> env_state option \<Rightarrow> (hfunc_ret \<times> env_state option) option" where
  "ngx_proxy_wasm_hfuncs_continue type env =
     (if type = 0 \<or> type = 1 then ngx_proxy_wasm_hfuncs_resume_http_request env else Some (Result RESULT_INTERNAL_FAILURE, env))"

section \<open>Timers\<close>

text \<open>
  The root context of a filter: the period, the event that the context knows of, and the events that are armed, which are numbered.
  \<open>tk_ran\<close> counts the calls of \<open>on_tick\<close>.
\<close>

record ticker =
  tk_root :: bool
  tk_period :: u32
  tk_ev :: "nat option"
  tk_armed :: "nat list"
  tk_next :: nat
  tk_ran :: nat

text \<open>
  The refusals leave a message in the instance, for which the call of the host function traps: with the return code \<open>NGX_WAVM_OK\<close>, and
  with \<open>NGX_WAVM_ERROR\<close> when there is no memory for the event.
\<close>

datatype tick_ret = Tick_ok | Tick_trap string | Tick_error string

definition ngx_proxy_wasm_hfuncs_set_tick_period :: "bool \<Rightarrow> bool \<Rightarrow> u32 \<Rightarrow> ticker \<Rightarrow> tick_ret \<times> ticker" where
  "ngx_proxy_wasm_hfuncs_set_tick_period exiting al period st =
     (if \<not> tk_root st then (Tick_trap ''can only set tick_period in root context'', st)
      else if exiting then (Tick_trap ''process exiting'', st)
      else if period \<noteq> 0 \<and> tk_period st \<noteq> 0 then (Tick_trap ''tick_period already set'', st)
      else let st1 = st\<lparr>tk_period := period\<rparr> in
        if period = 0 then (Tick_ok, st1)
        else if \<not> al then (Tick_error ''no memory'', st1)
        else (Tick_ok, st1\<lparr>tk_armed := tk_next st # tk_armed st, tk_next := Suc (tk_next st)\<rparr>))"

text \<open>
  An event fires: the guest runs \<open>on_tick\<close>, in which it may set the period (\<open>calls\<close>, with whether there is memory; a trap ends the
  guest), and the next event is armed. \<open>ready\<close> says whether the filter has a handler.
\<close>

fun tick_calls :: "(u32 \<times> bool) list \<Rightarrow> ticker \<Rightarrow> ticker" where
  "tick_calls [] st = st"
| "tick_calls ((p, al) # cs) st =
     (case ngx_proxy_wasm_hfuncs_set_tick_period False al p st of (r, st1) \<Rightarrow> if r = Tick_ok then tick_calls cs st1 else st1)"

definition ngx_proxy_wasm_filter_tick_handler :: "bool \<Rightarrow> bool \<Rightarrow> bool \<Rightarrow> bool \<Rightarrow> (u32 \<times> bool) list \<Rightarrow> nat \<Rightarrow> ticker \<Rightarrow> ticker option" where
  "ngx_proxy_wasm_filter_tick_handler dbg exiting ready al calls ev st =
     (if \<not> ngx_wa_assert dbg (tk_root st) then None
      else let st1 = st\<lparr>tk_armed := remove1 ev (tk_armed st), tk_ev := None\<rparr> in
        if exiting \<or> \<not> ready then Some st1
        else let st2 = tick_calls calls (st1\<lparr>tk_ran := Suc (tk_ran st1)\<rparr>) in
          if tk_period st2 = 0 then Some st2
          else if \<not> al then Some (st2\<lparr>tk_ev := None\<rparr>)
          else Some (st2\<lparr>tk_ev := Some (tk_next st2), tk_armed := tk_next st2 # tk_armed st2, tk_next := Suc (tk_next st2)\<rparr>))"

section \<open>How many timers there are\<close>

text \<open>Runs in which the guest only sets periods that satisfy \<open>P\<close>.\<close>

inductive tick_reach :: "(u32 \<Rightarrow> bool) \<Rightarrow> ticker \<Rightarrow> ticker \<Rightarrow> bool" for P st0 where
  tick_start: "tick_reach P st0 st0"
| tick_set: "tick_reach P st0 st \<Longrightarrow> P p \<Longrightarrow> tick_reach P st0 (snd (ngx_proxy_wasm_hfuncs_set_tick_period x a p st))"
| tick_fire: "tick_reach P st0 st \<Longrightarrow> ev \<in> set (tk_armed st) \<Longrightarrow> (\<forall>(p, b) \<in> set calls. P p) \<Longrightarrow>
    ngx_proxy_wasm_filter_tick_handler dbg x r a calls ev st = Some st' \<Longrightarrow> tick_reach P st0 st'"

definition one_timer :: "ticker \<Rightarrow> bool" where
  "one_timer st \<longleftrightarrow> length (tk_armed st) \<le> 1 \<and> (tk_armed st \<noteq> [] \<longrightarrow> tk_period st \<noteq> 0)"

lemma set_nonzero: "p \<noteq> 0 \<Longrightarrow> tk_period st \<noteq> 0 \<Longrightarrow> snd (ngx_proxy_wasm_hfuncs_set_tick_period x a p st) = st"
  by (simp add: ngx_proxy_wasm_hfuncs_set_tick_period_def)

lemma tick_calls_nonzero: "\<forall>(p, b) \<in> set cs. p \<noteq> 0 \<Longrightarrow> tk_period st \<noteq> 0 \<Longrightarrow> tick_calls cs st = st"
proof (induction cs)
  case (Cons c cs)
  obtain p b where c: "c = (p, b)" by fastforce
  have "snd (ngx_proxy_wasm_hfuncs_set_tick_period False b p st) = st" using Cons c by (intro set_nonzero) auto
  thus ?case using Cons c by (auto split: prod.splits)
qed simp

lemma one_timer_set: "p \<noteq> 0 \<Longrightarrow> one_timer st \<Longrightarrow> one_timer (snd (ngx_proxy_wasm_hfuncs_set_tick_period x a p st))"
  by (auto simp: one_timer_def ngx_proxy_wasm_hfuncs_set_tick_period_def Let_def)

lemma one_timer_fire:
  assumes "one_timer st" "ev \<in> set (tk_armed st)" "\<forall>(p, b) \<in> set calls. p \<noteq> 0"
    "ngx_proxy_wasm_filter_tick_handler dbg x r a calls ev st = Some st'"
  shows "one_timer st'"
proof -
  have e: "tk_armed st = [ev]" "tk_period st \<noteq> 0" using assms(1,2) by (cases "tk_armed st"; auto simp: one_timer_def)+
  have "tick_calls calls (st\<lparr>tk_armed := [], tk_ev := None, tk_ran := Suc (tk_ran st)\<rparr>) =
    st\<lparr>tk_armed := [], tk_ev := None, tk_ran := Suc (tk_ran st)\<rparr>"
    using assms(3) e by (intro tick_calls_nonzero) auto
  thus ?thesis using assms(4) e
    by (auto simp: ngx_proxy_wasm_filter_tick_handler_def one_timer_def Let_def split: if_splits)
qed

text \<open>A filter that never sets its period to zero has at most one timer.\<close>

theorem tick_one_timer:
  assumes "tick_reach (\<lambda>p. p \<noteq> 0) st0 st" "tk_armed st0 = []"
  shows "length (tk_armed st) \<le> 1"
proof -
  from assms(1) have "one_timer st"
  proof induction
    case tick_start
    thus ?case using assms(2) by (simp add: one_timer_def)
  next
    case (tick_fire st ev calls dbg x r a st')
    thus ?case by (auto intro: one_timer_fire)
  qed (auto intro: one_timer_set)
  thus ?thesis by (simp add: one_timer_def)
qed

text \<open>Cancelling leaves the armed event, and the next period arms another one.\<close>

lemma set_tick_ok:
  assumes "tk_root st" "tk_period st = 0" "p \<noteq> 0"
  shows "ngx_proxy_wasm_hfuncs_set_tick_period False True p st =
    (Tick_ok, st\<lparr>tk_period := p, tk_armed := tk_next st # tk_armed st, tk_next := Suc (tk_next st)\<rparr>)"
  using assms by (simp add: ngx_proxy_wasm_hfuncs_set_tick_period_def Let_def)

lemma set_tick_cancel:
  "tk_root st \<Longrightarrow> ngx_proxy_wasm_hfuncs_set_tick_period False True 0 st = (Tick_ok, st\<lparr>tk_period := 0\<rparr>)"
  by (simp add: ngx_proxy_wasm_hfuncs_set_tick_period_def Let_def)

lemma tick_calls_restart:
  "tk_root st \<Longrightarrow> p \<noteq> 0 \<Longrightarrow>
    tick_calls [(0, True), (p, True)] st = st\<lparr>tk_period := p, tk_armed := tk_next st # tk_armed st, tk_next := Suc (tk_next st)\<rparr>"
  by (simp add: set_tick_ok set_tick_cancel)

text \<open>
  A filter that in \<open>on_tick\<close> cancels its timer and sets a period again, to change the period, arms an event in the call and another one
  is armed when the call has returned: with every such tick there is one timer more.
\<close>

theorem tick_restart_adds_timer:
  assumes "tk_root st" "ev \<in> set (tk_armed st)" "p \<noteq> 0"
  shows "\<exists>st'. ngx_proxy_wasm_filter_tick_handler dbg False True True [(0, True), (p, True)] ev st = Some st' \<and> tk_period st' = p \<and>
    length (tk_armed st') = length (tk_armed st) + 1"
proof -
  have n: "length (remove1 ev (tk_armed st)) = length (tk_armed st) - 1" "tk_armed st \<noteq> []"
    using assms(2) by (auto simp: length_remove1)
  show ?thesis using assms(1,3) n
    by (cases "tk_armed st") (auto simp: ngx_proxy_wasm_filter_tick_handler_def tick_calls_restart ngx_wa_assert_def Let_def simp del: tick_calls.simps)
qed

theorem tick_restart_adds_timer_witness:
  "\<exists>st'. ngx_proxy_wasm_filter_tick_handler True False True True [(0, True), (200, True)] 0
      \<lparr>tk_root = True, tk_period = 100, tk_ev = None, tk_armed = [0], tk_next = 1, tk_ran = 0\<rparr> = Some st' \<and> tk_period st' = 200 \<and>
    length (tk_armed st') = Suc 1"
  using tick_restart_adds_timer [of "\<lparr>tk_root = True, tk_period = 100, tk_ev = None, tk_armed = [0], tk_next = 1, tk_ran = 0\<rparr>" 0 200 True]
  by simp

end
