(* ===== verification/Wasi_Host.thy ===== *)
theory Wasi_Host
  imports Host_Metrics
begin

text \<open>
  The functions of the WASI interface that a guest may import (src/src/wasm/wasi/ngx_wasi_preview1_host.c): random numbers, clocks, the
  environment of the process, and writing to the standard output and error, which are the log. Files are refused.
\<close>

section \<open>State\<close>

datatype wasi_errno = ERRNO_SUCCESS | ERRNO_BADF | ERRNO_EFAULT | ERRNO_NOTDIR | ERRNO_NOTSUP

text \<open>A function returns a number of an error to the guest, or traps the instance; \<open>Wasi_nyi\<close> is a function that is not implemented.\<close>

datatype wasi_ret = Errno wasi_errno | Wasi_trap | Wasi_nyi

datatype wasi_level = WASI_LOG_INFO | WASI_LOG_ERR

text \<open>The memory of the guest, the log, and the number of blocks of memory that the functions have allocated and not freed.\<close>

record wasi =
  ws_mem :: bytes
  ws_log :: "(wasi_level \<times> bytes) list"
  ws_blocks :: nat

section \<open>Constants, random numbers and clocks\<close>

definition ngx_wasi_hfuncs_args_get :: "wasi \<Rightarrow> wasi_ret \<times> wasi" where
  "ngx_wasi_hfuncs_args_get st = (Errno ERRNO_SUCCESS, st)"

definition ngx_wasi_hfuncs_errno_badf :: "wasi \<Rightarrow> wasi_ret \<times> wasi" where
  "ngx_wasi_hfuncs_errno_badf st = (Errno ERRNO_BADF, st)"

definition ngx_wasi_hfuncs_errno_notdir :: "wasi \<Rightarrow> wasi_ret \<times> wasi" where
  "ngx_wasi_hfuncs_errno_notdir st = (Errno ERRNO_NOTDIR, st)"

definition ngx_wasi_hfuncs_errno_notsup :: "wasi \<Rightarrow> wasi_ret \<times> wasi" where
  "ngx_wasi_hfuncs_errno_notsup st = (Errno ERRNO_NOTSUP, st)"

definition ngx_wasi_hfuncs_nop :: "wasi \<Rightarrow> wasi_ret \<times> wasi" where
  "ngx_wasi_hfuncs_nop st = (Wasi_nyi, st)"

text \<open>\<open>rnd i\<close> is the byte of the \<open>i\<close>-th random number.\<close>

definition ngx_wasi_hfuncs_random_get :: "(nat \<Rightarrow> byte) \<Rightarrow> u32 \<Rightarrow> u32 \<Rightarrow> wasi \<Rightarrow> (wasi_ret \<times> wasi) option" where
  "ngx_wasi_hfuncs_random_get rnd p len st =
     (case ngx_wavm_memory_lift (ws_mem st) p len 1 of
        None \<Rightarrow> Some (Wasi_trap, st)
      | Some None \<Rightarrow> Some (Errno ERRNO_SUCCESS, st)
      | Some (Some off) \<Rightarrow> do {
          mem1 \<leftarrow> buf_write (ws_mem st) off (map rnd [0..<unat len]);
          Some (Errno ERRNO_SUCCESS, st\<lparr>ws_mem := mem1\<rparr>) })"

definition ngx_wasi_hfuncs_args_sizes_get :: "u32 \<Rightarrow> u32 \<Rightarrow> wasi \<Rightarrow> (wasi_ret \<times> wasi) option" where
  "ngx_wasi_hfuncs_args_sizes_get size_ptr buf_size_ptr st =
     (case (lift_u32 (ws_mem st) size_ptr, lift_u32 (ws_mem st) buf_size_ptr) of
        (Some a, Some b) \<Rightarrow> do {
          mem1 \<leftarrow> buf_write (ws_mem st) a (le32 0);
          mem2 \<leftarrow> buf_write mem1 b (le32 0);
          Some (Errno ERRNO_SUCCESS, st\<lparr>ws_mem := mem2\<rparr>) }
      | _ \<Rightarrow> Some (Wasi_trap, st))"

text \<open>The wall time comes in nanoseconds, and the monotonic clock in milliseconds, of which the product may wrap.\<close>

definition ngx_wasi_hfuncs_clock_time_get :: "u64 \<Rightarrow> u64 \<Rightarrow> u32 \<Rightarrow> u32 \<Rightarrow> wasi \<Rightarrow> (wasi_ret \<times> wasi) option" where
  "ngx_wasi_hfuncs_clock_time_get wall monotonic clock_id p st =
     (case ngx_wavm_memory_lift (ws_mem st) p 8 1 of
        Some (Some off) \<Rightarrow>
          if clock_id = 0 \<or> clock_id = 1 then do {
            mem1 \<leftarrow> buf_write (ws_mem st) off (le64 (if clock_id = 0 then wall else monotonic * 1000000));
            Some (Errno ERRNO_SUCCESS, st\<lparr>ws_mem := mem1\<rparr>) }
          else Some (Errno ERRNO_NOTSUP, st)
      | _ \<Rightarrow> Some (Wasi_trap, st))"

section \<open>The environment\<close>

text \<open>
  The sizes: the number of variables, and the bytes of the variables with their terminating zeros. \<open>env\<close> are the variables without the
  zeros. The sum is a word of the guest.
\<close>

definition ngx_wasi_hfuncs_environ_sizes_get :: "bytes list \<Rightarrow> u32 \<Rightarrow> u32 \<Rightarrow> wasi \<Rightarrow> (wasi_ret \<times> wasi) option" where
  "ngx_wasi_hfuncs_environ_sizes_get env size_ptr buf_size_ptr st =
     (case (lift_u32 (ws_mem st) size_ptr, lift_u32 (ws_mem st) buf_size_ptr) of
        (Some a, Some b) \<Rightarrow> do {
          mem1 \<leftarrow> buf_write (ws_mem st) a (le32 0);
          mem2 \<leftarrow> buf_write mem1 b (le32 (of_nat (sum_list (map (\<lambda>v. length v + 1) env))));
          mem3 \<leftarrow> buf_write mem2 a (le32 (of_nat (length env)));
          Some (Errno ERRNO_SUCCESS, st\<lparr>ws_mem := mem3\<rparr>) }
      | _ \<Rightarrow> Some (Wasi_trap, st))"

text \<open>
  The loop of \<open>environ_get\<close>: the address of each variable goes into the array at \<open>arr\<close>, and the variable into the buffer at \<open>addr\<close>, whose
  bounds are checked for each variable. Those of the array are not: a write behind the memory is undefined. The first answer says whether
  the loop got to the end.
\<close>

fun put_environ :: "bytes list \<Rightarrow> nat \<Rightarrow> u32 \<Rightarrow> bytes \<Rightarrow> (bool \<times> bytes) option" where
  "put_environ [] arr addr mem = Some (True, mem)"
| "put_environ (v # vs) arr addr mem = do {
     mem1 \<leftarrow> buf_write mem arr (le32 addr);
     case ngx_wavm_memory_lift mem1 addr (of_nat (length v + 1)) 1 of
       Some (Some off) \<Rightarrow> do {
         mem2 \<leftarrow> buf_write mem1 off (v @ [0]);
         put_environ vs (arr + 4) (addr + of_nat (length v + 1)) mem2 }
     | _ \<Rightarrow> Some (False, mem1) }"

text \<open>The array is lifted as a slice of as many bytes as there are variables.\<close>

definition ngx_wasi_hfuncs_environ_get :: "bytes list \<Rightarrow> u32 \<Rightarrow> u32 \<Rightarrow> wasi \<Rightarrow> (wasi_ret \<times> wasi) option" where
  "ngx_wasi_hfuncs_environ_get env addrs_ptr buf_ptr st =
     (case ngx_wavm_memory_lift (ws_mem st) addrs_ptr (of_nat (length env)) 1 of
        None \<Rightarrow> Some (Wasi_trap, st)
      | Some None \<Rightarrow> if env = [] then Some (Errno ERRNO_SUCCESS, st) else None
      | Some (Some arr) \<Rightarrow> do {
          (ok, mem1) \<leftarrow> put_environ env arr buf_ptr (ws_mem st);
          Some (if ok then Errno ERRNO_SUCCESS else Wasi_trap, st\<lparr>ws_mem := mem1\<rparr>) })"

section \<open>Writing\<close>

text \<open>The first pass adds the lengths of the buffers up; \<open>None\<close> when a pointer is refused.\<close>

fun iov_size :: "nat \<Rightarrow> u32 \<Rightarrow> bytes \<Rightarrow> nat option" where
  "iov_size 0 p mem = Some 0"
| "iov_size (Suc n) p mem = do {
     a \<leftarrow> lift_u32 mem (p + 4);
     len \<leftarrow> buf_read mem a 4;
     sz \<leftarrow> iov_size n (p + 8) mem;
     Some (unat (from_le32 len) + sz) }"

text \<open>The second pass copies the buffers to \<open>msg\<close>, from \<open>pos\<close> on. The inner \<open>None\<close> is a pointer that is refused.\<close>

fun iov_copy :: "nat \<Rightarrow> u32 \<Rightarrow> bytes \<Rightarrow> bytes \<Rightarrow> nat \<Rightarrow> (bytes \<times> nat) option option" where
  "iov_copy 0 p mem msg pos = Some (Some (msg, pos))"
| "iov_copy (Suc n) p mem msg pos =
     (case (lift_u32 mem p, lift_u32 mem (p + 4)) of
        (Some a, Some b) \<Rightarrow> do {
          buf_ptr \<leftarrow> buf_read mem a 4;
          buf_len \<leftarrow> buf_read mem b 4;
          case ngx_wavm_memory_lift mem (from_le32 buf_ptr) (from_le32 buf_len) 1 of
            None \<Rightarrow> Some None
          | Some src \<Rightarrow> do {
              msg1 \<leftarrow> buf_write msg pos (read_slice mem src (from_le32 buf_len));
              iov_copy n (p + 8) mem msg1 (pos + unat (from_le32 buf_len)) } }
      | _ \<Rightarrow> Some None)"

text \<open>A line feed at the end of the message is not written to the log.\<close>

definition log_line :: "bytes \<Rightarrow> bytes" where
  "log_line msg = (if msg \<noteq> [] \<and> last msg = 10 then butlast msg else msg)"

text \<open>
  \<open>al\<close> says whether there is memory for the message. A block that is not freed when the function returns stays allocated.
\<close>

definition ngx_wasi_hfuncs_fd_write :: "(nat \<Rightarrow> bool) \<Rightarrow> u32 \<Rightarrow> u32 \<Rightarrow> u32 \<Rightarrow> u32 \<Rightarrow> wasi \<Rightarrow> (wasi_ret \<times> wasi) option" where
  "ngx_wasi_hfuncs_fd_write al fd iovs iovs_len nwritten_ptr st =
     (case lift_u32 (ws_mem st) nwritten_ptr of
        None \<Rightarrow> Some (Wasi_trap, st)
      | Some nwritten \<Rightarrow>
          if fd \<noteq> 1 \<and> fd \<noteq> 2 then Some (Errno ERRNO_BADF, st)
          else (case iov_size (unat iovs_len) iovs (ws_mem st) of
              None \<Rightarrow> Some (Wasi_trap, st)
            | Some sz \<Rightarrow>
                if sz = 0 then do {
                  mem1 \<leftarrow> buf_write (ws_mem st) nwritten (le32 0);
                  Some (Errno ERRNO_SUCCESS, st\<lparr>ws_mem := mem1\<rparr>) }
                else if \<not> al sz then Some (Errno ERRNO_EFAULT, st)
                else do {
                  r \<leftarrow> iov_copy (unat iovs_len) iovs (ws_mem st) (replicate sz 0) 0;
                  case r of
                    None \<Rightarrow> Some (Wasi_trap, st\<lparr>ws_blocks := Suc (ws_blocks st)\<rparr>)
                  | Some (msg, pos) \<Rightarrow> do {
                      mem1 \<leftarrow> buf_write (ws_mem st) nwritten (le32 (of_nat pos));
                      Some (Errno ERRNO_SUCCESS, st\<lparr>ws_mem := mem1,
                        ws_log := ws_log st @ [(if fd = 1 then WASI_LOG_INFO else WASI_LOG_ERR, log_line (take pos msg))]\<rparr>) } }))"

end
