(* ===== verification/Wasi_Host_Props.thy ===== *)
theory Wasi_Host_Props
  imports Wasi_Host
begin

text \<open>
  Properties of the WASI functions: what is written to the log, what a guest reads of the environment, and where the functions leave the
  memory of the guest or lose memory.
\<close>

section \<open>Writing\<close>

text \<open>The buffers of a vector as a guest means them; \<open>None\<close> when a pointer is refused.\<close>

fun iov_bufs :: "nat \<Rightarrow> u32 \<Rightarrow> bytes \<Rightarrow> bytes list option" where
  "iov_bufs 0 p mem = Some []"
| "iov_bufs (Suc n) p mem = do {
     a \<leftarrow> lift_u32 mem p;
     b \<leftarrow> lift_u32 mem (p + 4);
     ptr \<leftarrow> buf_read mem a 4;
     len \<leftarrow> buf_read mem b 4;
     src \<leftarrow> ngx_wavm_memory_lift mem (from_le32 ptr) (from_le32 len) 1;
     rest \<leftarrow> iov_bufs n (p + 8) mem;
     Some (read_slice mem src (from_le32 len) # rest) }"

lemma lifted_word: "lift_u32 mem p = Some a \<Longrightarrow> buf_read mem a 4 = Some (take 4 (drop a mem))"
  using lift_u32_bounds [of mem p a] by (simp add: buf_read_def)

lemma lifted_slice: "ngx_wavm_memory_lift mem p len 1 = Some src \<Longrightarrow> length (read_slice mem src len) = unat len"
proof (cases src)
  case None
  moreover assume "ngx_wavm_memory_lift mem p len 1 = Some src"
  ultimately show ?thesis by (auto simp: read_slice_def ngx_wavm_memory_lift_def split: if_splits)
qed (simp add: length_read_slice)

lemma iov_bufs_size: "iov_bufs n p mem = Some bs \<Longrightarrow> iov_size n p mem = Some (length (concat bs))"
proof (induction n arbitrary: p bs)
  case (Suc n)
  then show ?case by (auto simp: bind_eq_Some_conv lifted_slice)
qed simp

text \<open>A block of the size of the first pass is large enough for the second pass.\<close>

lemma iov_copy_within:
  assumes "iov_size n p mem = Some sz" and "pos + sz \<le> length msg"
  shows "iov_copy n p mem msg pos = (case iov_bufs n p mem of
    None \<Rightarrow> Some None
  | Some bs \<Rightarrow> Some (Some (take pos msg @ concat bs @ drop (pos + sz) msg, pos + sz)))"
  using assms
proof (induction n arbitrary: p sz pos msg)
  case (Suc n)
  from Suc.prems(1) obtain b rest where b: "lift_u32 mem (p + 4) = Some b" and rest: "iov_size n (p + 8) mem = Some rest"
    and sz: "sz = unat (from_le32 (take 4 (drop b mem))) + rest"
    by (auto simp: bind_eq_Some_conv lifted_word)
  show ?case
  proof (cases "lift_u32 mem p")
    case None
    then show ?thesis by simp
  next
    case (Some a)
    let ?ptr = "from_le32 (take 4 (drop a mem))" and ?len = "from_le32 (take 4 (drop b mem))"
    show ?thesis
    proof (cases "ngx_wavm_memory_lift mem ?ptr ?len 1")
      case None
      with Some b show ?thesis by (simp add: lifted_word)
    next
      case src: (Some src)
      let ?s = "read_slice mem src ?len"
      have len: "length ?s = unat ?len" by (rule lifted_slice [OF src])
      let ?msg = "take pos msg @ ?s @ drop (pos + unat ?len) msg"
      have w: "buf_write msg pos ?s = Some ?msg" using Suc.prems(2) sz len by (simp add: buf_write_def)
      have l: "pos + unat ?len + rest \<le> length ?msg" "length ?msg = length msg" using Suc.prems(2) sz len by simp_all
      have t: "take (pos + unat ?len) ?msg = take pos msg @ ?s" "drop (pos + unat ?len + rest) ?msg = drop (pos + sz) msg"
        using Suc.prems(2) sz len by (simp_all add: ac_simps)
      from Suc.IH [OF rest l(1)] Some b src w t sz show ?thesis
        by (simp add: lifted_word add.assoc split: option.splits)
    qed
  qed
qed simp

text \<open>
  Writing a vector of buffers to the standard output or error puts one line into the log, the concatenation of the buffers without a
  line feed at its end (no line if they are all empty), and reports the number of bytes; nothing else of the memory of the guest changes
  and no memory is kept.
\<close>

theorem fd_write_logs:
  assumes "lift_u32 (ws_mem st) nwritten_ptr = Some off" and "fd = 1 \<or> fd = 2" and "iov_bufs (unat iovs_len) iovs (ws_mem st) = Some bs"
    and "al (length (concat bs))"
  shows "\<exists>mem. ngx_wasi_hfuncs_fd_write al fd iovs iovs_len nwritten_ptr st = Some (Errno ERRNO_SUCCESS, st\<lparr>ws_mem := mem, ws_log := ws_log st @
      (if concat bs = [] then [] else [(if fd = 1 then WASI_LOG_INFO else WASI_LOG_ERR, log_line (concat bs))])\<rparr>) \<and>
    buf_read mem off 4 = Some (le32 (of_nat (length (concat bs)))) \<and>
    (\<forall>q n. apart (off, 4) (q, n) \<longrightarrow> buf_read mem q n = buf_read (ws_mem st) q n)"
proof -
  note sz = iov_bufs_size [OF assms(3)]
  let ?w = "le32 (of_nat (length (concat bs)))"
  obtain mem where w: "buf_write (ws_mem st) off ?w = Some mem"
    using buf_write_ok [of off ?w "ws_mem st"] lift_u32_bounds [OF assms(1)] by auto
  have k: "buf_read mem off 4 = Some ?w" "\<forall>q n. apart (off, 4) (q, n) \<longrightarrow> buf_read mem q n = buf_read (ws_mem st) q n"
    using buf_read_written [OF w] buf_read_kept [OF w] by simp_all
  have "ngx_wasi_hfuncs_fd_write al fd iovs iovs_len nwritten_ptr st = Some (Errno ERRNO_SUCCESS, st\<lparr>ws_mem := mem, ws_log := ws_log st @
      (if concat bs = [] then [] else [(if fd = 1 then WASI_LOG_INFO else WASI_LOG_ERR, log_line (concat bs))])\<rparr>)"
  proof (cases "concat bs = []")
    case True
    with assms sz w show ?thesis by (auto simp: ngx_wasi_hfuncs_fd_write_def simp del: concat_eq_Nil_conv)
  next
    case False
    then have n: "length (concat bs) \<noteq> 0" by simp
    have c: "iov_copy (unat iovs_len) iovs (ws_mem st) (replicate (length (concat bs)) 0) 0 = Some (Some (concat bs, length (concat bs)))"
      using iov_copy_within [OF sz, of 0 "replicate (length (concat bs)) 0"] assms(3) by simp
    from n False assms(1,2,4) sz c w show ?thesis
      by (auto simp: ngx_wasi_hfuncs_fd_write_def simp del: concat_eq_Nil_conv length_concat)
  qed
  with k show ?thesis by blast
qed

text \<open>
  Whatever a guest passes, writing stays inside of the memory of the guest and of the block for the message.
\<close>

theorem fd_write_defined: "\<exists>r st'. ngx_wasi_hfuncs_fd_write al fd iovs iovs_len nwritten_ptr st = Some (r, st')"
proof (cases "lift_u32 (ws_mem st) nwritten_ptr")
  case (Some off)
  have w: "\<exists>mem. buf_write (ws_mem st) off (le32 x) = Some mem" for x
    using buf_write_ok [of off "le32 x" "ws_mem st"] lift_u32_bounds [OF Some] by simp
  show ?thesis
  proof (cases "iov_size (unat iovs_len) iovs (ws_mem st)")
    case sz: (Some sz)
    obtain m0 where m0: "buf_write (ws_mem st) off (le32 0) = Some m0" using w by blast
    obtain m1 where m1: "buf_write (ws_mem st) off (le32 (of_nat sz)) = Some m1" using w by blast
    from iov_copy_within [OF sz, of 0 "replicate sz 0"] Some sz m0 m1 show ?thesis
      by (cases "iov_bufs (unat iovs_len) iovs (ws_mem st)") (simp_all add: ngx_wasi_hfuncs_fd_write_def)
  qed (use Some in \<open>simp add: ngx_wasi_hfuncs_fd_write_def\<close>)
qed (simp add: ngx_wasi_hfuncs_fd_write_def)

text \<open>
  A guest that writes a vector with a pointer that is refused, but with lengths that are not all zero, makes the worker lose the block
  that was allocated for the message: it is not freed when the second pass traps.
\<close>

theorem fd_write_leaks:
  assumes "lift_u32 (ws_mem st) nwritten_ptr \<noteq> None" and "fd = 1 \<or> fd = 2" and "iov_size (unat iovs_len) iovs (ws_mem st) = Some sz"
    and "sz \<noteq> 0" and "al sz" and "iov_bufs (unat iovs_len) iovs (ws_mem st) = None"
  shows "ngx_wasi_hfuncs_fd_write al fd iovs iovs_len nwritten_ptr st = Some (Wasi_trap, st\<lparr>ws_blocks := Suc (ws_blocks st)\<rparr>)"
  using assms iov_copy_within [OF assms(3), of 0 "replicate sz 0"] by (auto simp: ngx_wasi_hfuncs_fd_write_def)

section \<open>The environment\<close>

text \<open>What a guest reads: strings up to a zero, at the addresses of an array.\<close>

definition cstring :: "bytes \<Rightarrow> nat \<Rightarrow> bytes" where
  "cstring mem q = takeWhile (\<lambda>b. b \<noteq> 0) (drop q mem)"

fun guest_environ :: "nat \<Rightarrow> nat \<Rightarrow> bytes \<Rightarrow> bytes list" where
  "guest_environ 0 arr mem = []"
| "guest_environ (Suc n) arr mem = cstring mem (unat (from_le32 (take 4 (drop arr mem)))) # guest_environ n (arr + 4) mem"

definition environ_size :: "bytes list \<Rightarrow> nat" where
  "environ_size env = sum_list (map (\<lambda>v. length v + 1) env)"

lemma environ_size_simps [simp]: "environ_size [] = 0" "environ_size (v # vs) = length v + 1 + environ_size vs"
  by (simp_all add: environ_size_def)

lemma cstring_read: "buf_read mem q (length v + 1) = Some (v @ [0]) \<Longrightarrow> 0 \<notin> set v \<Longrightarrow> cstring mem q = v"
proof -
  assume r: "buf_read mem q (length v + 1) = Some (v @ [0])" and z: "0 \<notin> set v"
  have "drop q mem = take (length v + 1) (drop q mem) @ drop (length v + 1) (drop q mem)" by (rule append_take_drop_id [symmetric])
  also have "\<dots> = v @ 0 # drop (length v + 1) (drop q mem)" using r by (simp add: buf_read_def split: if_splits)
  finally have "takeWhile (\<lambda>b. b \<noteq> 0) (drop q mem) = takeWhile (\<lambda>b. b \<noteq> 0) (v @ 0 # drop (length v + 1) (drop q mem))" by simp
  also have "\<dots> = v" using z by (subst takeWhile_append2) auto
  finally show "cstring mem q = v" by (simp add: cstring_def)
qed

lemma put_environ_ok:
  assumes "arr + 4 * length env \<le> length mem" and "unat addr + environ_size env \<le> length mem" and "length mem < 2 ^ 32" and "addr \<noteq> 0"
    and "apart (arr, 4 * length env) (unat addr, environ_size env)" and "\<forall>v \<in> set env. 0 \<notin> set v"
  shows "\<exists>mem'. put_environ env arr addr mem = Some (True, mem') \<and> length mem' = length mem \<and> guest_environ (length env) arr mem' = env \<and>
    (\<forall>q n. apart (arr, 4 * length env) (q, n) \<longrightarrow> apart (unat addr, environ_size env) (q, n) \<longrightarrow> buf_read mem' q n = buf_read mem q n)"
  using assms
proof (induction env arbitrary: arr addr mem)
  case (Cons v vs)
  let ?n = "length v + 1" and ?r = "environ_size vs" and ?k = "4 * length vs"
  obtain mem1 where m1: "buf_write mem arr (le32 addr) = Some mem1" using buf_write_ok [of arr "le32 addr" mem] Cons.prems(1) by auto
  note l1 = length_buf_write [OF m1]
  have n: "unat (of_nat ?n :: u32) = ?n" using Cons.prems(2,3) by (intro unat_of_nat_u32) simp
  have add: "unat (addr + of_nat ?n) = unat addr + ?n" using Cons.prems(2,3) n by (subst unat_add_lem [THEN iffD1]) simp_all
  have nz: "addr + of_nat ?n \<noteq> 0" using add by (metis add_is_0 unat_0 Suc_eq_plus1 nat.distinct(1))
  have le: "addr \<le> addr + of_nat ?n" using add by (simp add: word_le_nat_alt)
  have lift: "ngx_wavm_memory_lift mem1 addr (of_nat ?n) 1 = Some (Some (unat addr))"
    using Cons.prems(2,4) add le l1 by (simp add: ngx_wavm_memory_lift_def not_less)
  obtain mem2 where m2: "buf_write mem1 (unat addr) (v @ [0]) = Some mem2"
    using buf_write_ok [of "unat addr" "v @ [0]" mem1] Cons.prems(2) l1 by auto
  note l2 = length_buf_write [OF m2]
  have "\<exists>mem'. put_environ vs (arr + 4) (addr + of_nat ?n) mem2 = Some (True, mem') \<and> length mem' = length mem2 \<and>
      guest_environ (length vs) (arr + 4) mem' = vs \<and>
      (\<forall>q n. apart (arr + 4, ?k) (q, n) \<longrightarrow> apart (unat (addr + of_nat ?n), ?r) (q, n) \<longrightarrow> buf_read mem' q n = buf_read mem2 q n)"
    using Cons.prems add nz l1 l2 by (intro Cons.IH) (auto simp: apart_def)
  then obtain mem' where m': "put_environ vs (arr + 4) (addr + of_nat ?n) mem2 = Some (True, mem')" "length mem' = length mem2"
      "guest_environ (length vs) (arr + 4) mem' = vs"
    and kept: "\<And>q n. apart (arr + 4, ?k) (q, n) \<Longrightarrow> apart (unat addr + ?n, ?r) (q, n) \<Longrightarrow> buf_read mem' q n = buf_read mem2 q n"
    unfolding add by blast
  have a: "apart (arr, 4) (unat addr, ?n)" using Cons.prems(5) by (auto simp: apart_def)
  have "buf_read mem' arr 4 = buf_read mem2 arr 4" using Cons.prems(5) by (intro kept) (auto simp: apart_def)
  also have "\<dots> = buf_read mem1 arr 4" using a by (intro buf_read_kept [OF m2]) (auto simp: apart_def)
  also have "\<dots> = Some (le32 addr)" using buf_read_written [OF m1] by simp
  finally have word: "take 4 (drop arr mem') = le32 addr" by (simp add: buf_read_def split: if_splits)
  have "buf_read mem' (unat addr) ?n = buf_read mem2 (unat addr) ?n" using Cons.prems(5) by (intro kept) (auto simp: apart_def)
  also have "\<dots> = Some (v @ [0])" using buf_read_written [OF m2, of ?n] by simp
  finally have str: "cstring mem' (unat addr) = v" using Cons.prems(6) by (intro cstring_read) simp_all
  have fr: "buf_read mem' q m = buf_read mem q m"
    if q: "apart (arr, 4 * length (v # vs)) (q, m)" "apart (unat addr, environ_size (v # vs)) (q, m)" for q m
  proof -
    have "buf_read mem' q m = buf_read mem2 q m" using q by (intro kept) (auto simp: apart_def)
    also have "\<dots> = buf_read mem1 q m" using q by (intro buf_read_kept [OF m2]) (auto simp: apart_def)
    also have "\<dots> = buf_read mem q m" using q by (intro buf_read_kept [OF m1]) (auto simp: apart_def)
    finally show ?thesis .
  qed
  have "put_environ (v # vs) arr addr mem = Some (True, mem')" using m1 m2 m'(1) lift by simp
  moreover have "guest_environ (length (v # vs)) arr mem' = v # vs" using word str m'(3) by simp
  ultimately show ?case using fr m'(2) l1 l2 by metis
qed simp

text \<open>
  A guest that asks for the sizes of the environment and then for the environment itself, with an array of four bytes per variable and
  a buffer of the size it was told, reads the variables of the process.
\<close>

theorem environ_roundtrip:
  assumes "lift_u32 (ws_mem st) np = Some a" and "lift_u32 (ws_mem st) sp = Some b" and "apart (a, 4) (b, 4)"
    and "unat addrs + 4 * length env \<le> length (ws_mem st)" and "unat buf + environ_size env \<le> length (ws_mem st)"
    and "length (ws_mem st) < 2 ^ 32" and "addrs \<noteq> 0" and "buf \<noteq> 0" and "apart (unat addrs, 4 * length env) (unat buf, environ_size env)"
    and "\<forall>v \<in> set env. 0 \<notin> set v"
  shows "\<exists>st1 st2. ngx_wasi_hfuncs_environ_sizes_get env np sp st = Some (Errno ERRNO_SUCCESS, st1) \<and>
    buf_read (ws_mem st1) a 4 = Some (le32 (of_nat (length env))) \<and> buf_read (ws_mem st1) b 4 = Some (le32 (of_nat (environ_size env))) \<and>
    ngx_wasi_hfuncs_environ_get env addrs buf st1 = Some (Errno ERRNO_SUCCESS, st2) \<and>
    guest_environ (length env) (unat addrs) (ws_mem st2) = env"
proof -
  note ab = lift_u32_bounds [OF assms(1)] lift_u32_bounds [OF assms(2)]
  obtain m1 where m1: "buf_write (ws_mem st) a (le32 0) = Some m1" using buf_write_ok [of a "le32 0"] ab by auto
  obtain m2 where m2: "buf_write m1 b (le32 (of_nat (environ_size env))) = Some m2"
    using buf_write_ok [of b "le32 (of_nat (environ_size env))" m1] ab length_buf_write [OF m1] by auto
  obtain m3 where m3: "buf_write m2 a (le32 (of_nat (length env))) = Some m3"
    using buf_write_ok [of a "le32 (of_nat (length env))" m2] ab length_buf_write [OF m1] length_buf_write [OF m2] by auto
  let ?st1 = "st\<lparr>ws_mem := m3\<rparr>"
  have s: "ngx_wasi_hfuncs_environ_sizes_get env np sp st = Some (Errno ERRNO_SUCCESS, ?st1)"
    using assms(1,2) m1 m2 m3 by (simp add: ngx_wasi_hfuncs_environ_sizes_get_def environ_size_def)
  have r: "buf_read m3 a 4 = Some (le32 (of_nat (length env)))" "buf_read m3 b 4 = Some (le32 (of_nat (environ_size env)))"
    using buf_read_written [OF m3] buf_read_kept [OF m3, of b 4] buf_read_written [OF m2] assms(3) by (auto simp: apart_def)
  have l: "length m3 = length (ws_mem st)" using length_buf_write [OF m1] length_buf_write [OF m2] length_buf_write [OF m3] by simp
  obtain m4 where p: "put_environ env (unat addrs) buf m3 = Some (True, m4)" "guest_environ (length env) (unat addrs) m4 = env"
    using put_environ_ok [of "unat addrs" env m3 buf] assms(4-) l by auto
  have n: "unat (of_nat (length env) :: u32) = length env" using assms(4,6) by (intro unat_of_nat_u32) simp
  have add: "unat (addrs + of_nat (length env)) = unat addrs + length env" using assms(4,6) n by (subst unat_add_lem [THEN iffD1]) simp_all
  have "ngx_wavm_memory_lift m3 addrs (of_nat (length env)) 1 = Some (Some (unat addrs))"
    using assms(4,7) add l by (simp add: ngx_wavm_memory_lift_def not_less word_le_nat_alt)
  with p have "ngx_wasi_hfuncs_environ_get env addrs buf ?st1 = Some (Errno ERRNO_SUCCESS, ?st1\<lparr>ws_mem := m4\<rparr>)"
    by (simp add: ngx_wasi_hfuncs_environ_get_def)
  with s r p(2) show ?thesis by (intro exI [of _ ?st1] exI [of _ "?st1\<lparr>ws_mem := m4\<rparr>"]) simp
qed

text \<open>
  The array of addresses is checked for one byte per variable, but four are written: a guest whose array is accepted at the end of its
  memory makes the worker write behind the memory.
\<close>

theorem environ_get_overruns:
  assumes "ngx_wavm_memory_lift (ws_mem st) addrs (of_nat (length env)) 1 = Some (Some arr)" and "env \<noteq> []" and "length (ws_mem st) < arr + 4"
  shows "ngx_wasi_hfuncs_environ_get env addrs buf st = None"
  using assms by (cases env) (simp_all add: ngx_wasi_hfuncs_environ_get_def buf_write_def)

section \<open>An instance\<close>

text \<open>A vector at 8 of two buffers, at 24 and 26, and one at 32 with a pointer behind the memory; the word at 4 takes the number of bytes.\<close>

definition demo_wasi :: wasi where
  "demo_wasi = \<lparr>ws_mem = replicate 8 0 @ le32 24 @ le32 2 @ le32 26 @ le32 2 @ [104, 105, 33, 10] @ replicate 4 0 @ le32 70 @ le32 2 @ replicate 24 0, ws_log = [], ws_blocks = 0\<rparr>"

lemma demo_wasi_state: "ws_log demo_wasi = []" "ws_blocks demo_wasi = 0" "length (ws_mem demo_wasi) = 64"
  by (simp_all add: demo_wasi_def)

lemma demo_wasi_words: "lift_u32 (ws_mem demo_wasi) 4 = Some 4" "lift_u32 (ws_mem demo_wasi) 8 = Some 8"
  by (code_simp, code_simp)

theorem fd_write_logs_witness:
  "\<exists>st. ngx_wasi_hfuncs_fd_write (\<lambda>n. True) 1 8 2 4 demo_wasi = Some (Errno ERRNO_SUCCESS, st) \<and> ws_log st = [(WASI_LOG_INFO, [104, 105, 33])]"
proof -
  have "iov_bufs (unat (2 :: u32)) 8 (ws_mem demo_wasi) = Some [[104, 105], [33, 10]]" by code_simp
  from fd_write_logs [OF demo_wasi_words(1) disjI1 [OF refl] this, of "\<lambda>n. True"] show ?thesis by (auto simp: demo_wasi_state log_line_def)
qed

theorem fd_write_leaks_witness:
  "ngx_wasi_hfuncs_fd_write (\<lambda>n. True) 1 32 1 4 demo_wasi = Some (Wasi_trap, demo_wasi\<lparr>ws_blocks := 1\<rparr>)"
proof -
  have z: "iov_size (unat (1 :: u32)) 32 (ws_mem demo_wasi) = Some 2" by code_simp
  have b: "iov_bufs (unat (1 :: u32)) 32 (ws_mem demo_wasi) = None" by code_simp
  have l: "lift_u32 (ws_mem demo_wasi) 4 \<noteq> None" by (simp add: demo_wasi_words)
  from fd_write_leaks [OF l disjI1 [OF refl] z _ _ b, of "\<lambda>n. True"] show ?thesis by (simp add: demo_wasi_state)
qed

definition demo_environ :: "bytes list" where
  "demo_environ = [[65, 61, 49], [66]]"

theorem environ_roundtrip_witness:
  "\<exists>st1 st2. ngx_wasi_hfuncs_environ_sizes_get demo_environ 4 8 demo_wasi = Some (Errno ERRNO_SUCCESS, st1) \<and>
    ngx_wasi_hfuncs_environ_get demo_environ 16 24 st1 = Some (Errno ERRNO_SUCCESS, st2) \<and>
    guest_environ (length demo_environ) 16 (ws_mem st2) = demo_environ"
proof -
  have e: "length demo_environ = 2" "environ_size demo_environ = 6" "\<forall>v \<in> set demo_environ. 0 \<notin> set v"
    by (simp_all add: demo_environ_def)
  from environ_roundtrip [OF demo_wasi_words, where addrs = 16 and env = demo_environ and buf = 24] show ?thesis
    by (auto simp: demo_wasi_state apart_def e)
qed

theorem environ_get_overruns_witness:
  "ngx_wasi_hfuncs_environ_get [[65]] 63 24 demo_wasi = None"
proof -
  have "ngx_wavm_memory_lift (ws_mem demo_wasi) 63 (of_nat (length [[65 :: byte]])) 1 = Some (Some 63)" by code_simp
  from environ_get_overruns [OF this, of 24] show ?thesis by (simp add: demo_wasi_state)
qed

end
