(* ===== verification/Spec2Isabelle.thy ===== *)
theory Spec2Isabelle
  imports Wasm_Ops_Props Host_Shared_Props Host_Metrics Host_Buffers_Props Proxy_Wasm_Properties_Props
    Http_Upstream_Props Foreign_Call_Props Http_Dispatch_Props Local_Response_Props Send_Response Host_Control Wasi_Host_Props
begin

text \<open>
  A verification of the core of ngx\_wasm\_module, the module that runs WebAssembly code inside of nginx.

  \<^bold>\<open>The program.\<close> A location of the nginx configuration has a plan of operations: calls of
  functions of Wasm modules, and filters written against the proxy-wasm interface. In each
  phase of a request nginx enters the module, which resumes the pipeline of the phase
  (src/src/wasm/ngx\_wasm\_ops.c). The operation of the filters makes a stream context for the
  request, with an execution context per filter, and resumes the chain of filters at the step of
  the phase (src/src/common/proxy\_wasm/ngx\_proxy\_wasm.c), which calls the handlers of the guest through the
  HTTP subsystem (src/src/http/proxy\_wasm/ngx\_http\_proxy\_wasm.c). Instances of modules are kept in stores
  and shared by filters, requests or not at all, as the isolation mode says. Guests call back into nginx through host functions
  (src/src/common/proxy\_wasm/ngx\_proxy\_wasm\_host.c): they read and write headers and bodies of the request and the response
  (src/src/http), read properties, exchange data through a key/value store and queues in shared memory (src/src/common/shm), keep metrics in
  it (src/src/common/metrics), resolve names, send requests of their own, choose the upstream server, answer a request themselves and set timers;
  they may also import the functions of WASI (src/src/wasm/wasi). What addresses a
  filter may reach is limited by access control lists of the configuration (src/src/common/ngx\_wasm\_acl.c).

  \<^bold>\<open>Conventions.\<close> An operation is a function of the state that answers the return code and the state
  afterwards. An outer \<open>None\<close> is a run without a defined result in C: an access out of bounds, to released
  memory or through a NULL pointer, or a failed assertion of a debug build (\<open>dbg\<close> says which build it is).
  Machine words are words where they can wrap (counters, sizes of the encoding, hashes), natural
  numbers where they are sizes of objects that exist. Loops are recursion on the list they walk. Some are not:
  \<open>get_busy\<close> walks a queue it changes and \<open>kv_alloc_loop\<close> evicts entries until an allocation succeeds, both
  with a termination measure (the length of the queue, the number of entries); \<open>sweep_loop\<close> counts its rounds down
  from the length of the queue, from which each round takes an element. The loops that follow pointers (\<open>chain_last\<close> and the other
  loops on links of buffers, \<open>copy_chunks\<close>) and the search of a header, which restarts when it has cleared one (\<open>search_again\<close>), are
  partial functions, \<open>None\<close> when they do not end: that they end on the chains that occur, and for headers with a non-zero hash, is
  proved. No function of the model has fuel that a caller chooses. Pure helpers of the model are named after the lines they
  stand for, operations have the names of the C functions.

  \<^bold>\<open>Wasmx\_Prelude.\<close> Return codes, bytes, little-endian words, copies into a buffer, debug assertions.

  \<^bold>\<open>Shm\_Queue\<close> (ngx\_wa\_shm\_queue.c). The circular buffer with its push and pop offsets and the flag that tells
  a full buffer from an empty one. The interface of a bounded FIFO is the locale \<open>bounded_fifo\<close>, interpreted on the
  circular buffer: push and pop refine appending to and removing from a list, without leaving the
  buffer, in every interleaving and with allocations that fail. An empty message, which a push accepts, fails an assertion of
  a debug build when it is popped.

  \<^bold>\<open>Shm\_Kv, Shm\_Kv\_Ops, Shm\_Kv\_Store\<close> (ngx\_wa\_shm\_kv.c). The tree of nodes by the hash of the key, with the LRU
  or SLRU queues that evict entries when the zone is full, and the counters of compare-and-swap.
  Shown: the invariant of every reachable store; what get, set and delete return and change; that
  no update is lost while an entry is neither deleted nor evicted (locale \<open>cas_store\<close>, interpreted on the store), and that the
  counter starts again when it is; the order of eviction; and the case in which a set uses a node it has just evicted.

  \<^bold>\<open>Histogram, Metrics\<close> (ngx\_wa\_histogram.c, ngx\_wa\_metrics.c). Metrics as values of the key/value store, a slot
  per worker. Shown: defining a metric, that a reader sees the increments of all workers, the
  latest value of a gauge and the sum of the histograms; the bin a value is counted in, and when the overlapping copy that makes room for
  a bin is undefined (the field \<open>memcpy_moves\<close> of \<open>sizes\<close> says whether the platform moves overlapping ranges, which C does not promise); what a reload
  of the configuration carries over and when it leaves the bounds of a histogram.

  \<^bold>\<open>Host\_Shared, Host\_Shared\_Props, Host\_Metrics\<close> (ngx\_proxy\_wasm\_host.c, ngx\_wa\_shm.c, ngx\_wavm.h). The host functions that
  connect a guest to these stores: pointers into the memory of the guest are lifted with their bounds and alignment checked,
  keys and tokens are resolved to zones, and results are copied to memory that the guest allocates. Shown: the
  invariant of the zones under any run of host calls; that a guest reads what was stored, that a dequeue delivers the oldest
  message, and that a read of a counter sees the increments; the read of released memory after the unlock of a
  zone, and the error message that overflows its buffer. The proofs rest on the facts of the interfaces above
  (\<open>shm_fifo\<close>, \<open>kv_set_value_spec\<close>, \<open>metrics_increment_spec\<close>).

  \<^bold>\<open>Proxy\_Wasm\_Pairs\<close> (ngx\_proxy\_wasm\_util.c). The size, the writing and the reading of a map of pairs in guest
  memory. Shown: the image that is written, which fits exactly the memory asked for while the limit on the number of pairs is not
  exceeded, that reading it gives the pairs back, and the inputs for which it leaves the memory.

  \<^bold>\<open>Proxy\_Wasm\_Instance\<close> (ngx\_proxy\_wasm.c). The objects of the proxy-wasm layer in a heap (\<open>'g pw\<close>): filters,
  stores, instances, execution and stream contexts, with \<open>ngx_proxy_wasm_load\<close>,
  \<open>ngx_proxy_wasm_create_context\<close> (in stages from \<open>create_store\<close> to \<open>start_ctx\<close>), \<open>get_instance\<close>, the invalidation,
  sweeping and destruction of instances, \<open>ngx_proxy_wasm_ctx\<close> and \<open>ngx_proxy_wasm_ctx_destroy\<close>.

  \<^bold>\<open>Proxy\_Wasm\_Chain\<close> (ngx\_proxy\_wasm.c, ngx\_http\_proxy\_wasm.c). The step handlers of the HTTP subsystem,
  \<open>ngx_proxy_wasm_run_step\<close>, \<open>action2rc\<close> and \<open>ngx_proxy_wasm_resume\<close>.

  \<^bold>\<open>Proxy\_Wasm\_Frame\<close> shows, for every operation of the two, that it leaves the control fields of stream contexts
  alone, whatever the guest does (locale \<open>state_frame\<close>, interpreted on the relation \<open>keeps\<close>).
  \<^bold>\<open>Proxy\_Wasm\_Control\<close> derives what each return code of \<open>ngx_proxy_wasm_resume\<close> says about the
  chain, for any guest: which filters ran (the inductive relation \<open>ran\<close>), where the chain is resumed, that a
  failure is final and a completed step is not repeated; and that a chain of filters that answer \<open>CONTINUE\<close>
  completes. \<^bold>\<open>Proxy\_Wasm\_Filters\<close> is about the modules that are accepted and the instances that are
  reused.

  \<^bold>\<open>Wasm\_Ops, Wasm\_Ops\_Props\<close> (ngx\_wasm\_ops.c). Plans, pipelines, the two kinds of operations and
  \<open>ngx_wasm_ops_resume\<close>, on top of the chain. Shown: loading a plan binds every operation and finds every
  filter (locale \<open>stable_frame\<close>, interpreted on the relation \<open>loads\<close>), the calls of a phase run once each
  however often the phase yields, and the chain of filters is resumed once per phase.

  \<^bold>\<open>Guest\_Memory\<close> (ngx\_wavm.h, ngx\_wavm\_host.h). The memory of a guest with checked pointers, its allocator, and the results of host
  functions, shared by the theories about host functions.

  \<^bold>\<open>Http\_Escape, Http\_Headers, Http\_Headers\_Props\<close> (ngx\_http\_wasm\_escape.c, ngx\_http\_wasm\_headers.c, \_request.c and \_response.c).
  The tables of characters, the percent escapes, and setting, adding and removing headers, with the handlers of the headers that nginx knows,
  for nginx 1.23 and later. Shown: the search ends for headers with a non-zero hash, what each mode leaves of a header and
  that it leaves the others alone, that escapes decode to the string, and the header with an empty name that cannot be removed.

  \<^bold>\<open>Proxy\_Wasm\_Maps, Proxy\_Wasm\_Maps\_Props\<close> (ngx\_proxy\_wasm\_maps.c, ngx\_http\_wasm\_headers\_shims.c). Header maps with pseudo headers
  and the headers that nginx writes itself, and the host functions on them. Shown: no run of host calls puts a line break into a
  header, what reading the path gives after setting it, and the reads through NULL pointers.

  \<^bold>\<open>Buf\_Chain, Host\_Buffers, Host\_Buffers\_Props\<close> (ngx\_wasm\_util.c, ngx\_http\_wasm\_util.c). Chains of buffers as links in a heap, and
  reading and writing bodies through host functions. Shown: what a read copies, what a write leaves of the body and of its
  length, and the read that overruns the memory of the guest.

  \<^bold>\<open>Proxy\_Wasm\_Properties, Proxy\_Wasm\_Properties\_Props\<close> (ngx\_proxy\_wasm\_properties.c). Attributes with their table and getters, variables
  of nginx, properties of the host and the handlers of Lua code. Shown: round trips of properties and variables, that constants
  stay constant, that the attributes of the documentation have the values of the variables it names, and the uses of freed or foreign memory.

  \<^bold>\<open>Acl, Acl\_Props\<close> (ngx\_wasm\_acl.c, ngx\_wasm\_directives.c). Access control lists: the block of directives, the rules for addresses and
  names, and the addresses recorded for resolved names. Shown: the list decides as the most specific rule does, in whatever order
  the rules are given.

  \<^bold>\<open>Http\_Upstream, Http\_Upstream\_Props\<close> (ngx\_http\_wasm\_upstream.c). The directive and the balancer around that of nginx, its host
  functions, and the list of servers that a guest reads. Invariants of every run are derived once in the locale \<open>ups_invariant\<close> from what each
  operation keeps, and interpreted twice, for the addresses that the filters which set the upstream may use and for the bounds of the timeouts. Shown as
  well: the list decodes to the servers.

  \<^bold>\<open>Foreign\_Call, Foreign\_Call\_Props\<close> (ngx\_proxy\_wasm\_foreign\_call.c). Resolving names, with the callback of the guest and the
  cancelling of pending calls. Shown: over every run (\<open>fc_reach\<close>), an address is only accepted when a rule allows it, or a resolver gave
  it for an accepted name and no rule denies it; and that a call which was cancelled is still being resolved, so that its operation is
  taken out of the queue twice.

  \<^bold>\<open>Http\_Dispatch, Http\_Dispatch\_Props\<close> (ngx\_http\_proxy\_wasm\_dispatch.c). Requests of filters: the host function, the request, and the
  handler, which goes on whenever the socket is ready. Shown: over every run (\<open>dispatch_reach\<close>) the guest is called back at most once for a call and
  no call is used after it was freed; a server reads the request as it is meant if method, path and authority have no line
  break, and otherwise reads more lines.

  \<^bold>\<open>Local\_Response, Local\_Response\_Props, Send\_Response\<close> (ngx\_http\_wasm\_local\_response.c). Responses of filters: stashing, flushing, and the
  host function, which connects the response, the body and the pending calls. Shown: the status, headers, length and body that are
  sent, that a response is sent at most once, and that the answer of a resolver is still pending after a response.

  \<^bold>\<open>Host\_Control\<close> (ngx\_proxy\_wasm\_host.c, ngx\_proxy\_wasm\_util.c). The log, the time, the configuration, resuming, and timers. Shown: a filter
  that never cancels its timer has at most one, and one that sets it anew in a tick gets one more each time.

  \<^bold>\<open>Wasi\_Host, Wasi\_Host\_Props\<close> (ngx\_wasi\_preview1\_host.c). The functions of WASI: random numbers, clocks, the environment, and the
  standard output and error, which are the log. Shown: what a write logs and that it stays inside of all memory, that a guest reads back
  the environment, the array that is checked for a quarter of its size, and the block that is lost.

  \<^bold>\<open>Parameters.\<close> Code outside of the repository is a parameter. The slab allocator, CRC32 and the rotations of
  the red-black tree of nginx are the record \<open>nginx_env\<close> with the laws \<open>nginx_laws\<close> (a tree keeps its entries
  and their order, an allocated block is new); they hold for the concrete environment of the witnesses. The
  Wasm runtime, the allocator and the guest code are the record \<open>guest\<close>, without any law: its functions answer
  whether an allocation or an instantiation succeeds and what a call returns, with the effects of the
  host functions that were called on the context that is current in the instance (\<open>host_effect\<close>). For the host functions on
  shared memory it is the allocator of the guest (\<open>hguest\<close>; what is relied on is \<open>malloc_gives\<close>) and what
  other workers do to the zones after an unlock. Strings, headers and pools of nginx are the records \<open>ngx_strings\<close>, \<open>ngx_clears\<close> and
  \<open>chain_pool\<close> with the laws \<open>strings_laws\<close>, \<open>clears_laws\<close> and \<open>pool_laws\<close>; variables and the configuration of nginx are \<open>map_env\<close> and
  \<open>prop_env\<close>. For the access control lists, \<open>acl_env\<close> has the radix trees, hashes and parsers of addresses of nginx: \<open>radix32_laws\<close> says that a
  lookup finds the longest prefix, \<open>masks_ok\<close> that a parsed mask is a prefix, and \<open>cidr_laws\<close> what an address matches. \<open>ups_env\<close>
  is the balancer of nginx (\<open>balancer_laws\<close>: it does not touch the data of this module), \<open>fc_env\<close> the resolvers (\<open>resolver_laws\<close> relates
  their answers to the names), \<open>lr_env\<close> the sending of a response (\<open>send_laws\<close>: it enters the header filter of the module, as ngx\_http\_wasm\_filter\_module.c
  has it unless an earlier header filter ends the sending), \<open>d_env_of\<close> and \<open>sock_run\<close> the sockets of dispatched calls. Each of these laws holds for
  the concrete environment of a witness. Linking a
  module and reading the body of the client are parameters of the operations. Trees that hold few objects
  (filters by id, contexts of an instance) are lists ordered by key, with the first entry of a key found. The build
  with response trailers is modelled.

  \<^bold>\<open>Not modelled.\<close> Log messages (except for those of the guest) and memory pools; in the theories about the filter chain, what a host
  function does during a call of the guest is a parameter of the call, as the theories about host functions have states of their
  own. Sockets and their readers, which are asynchronous I/O; the phase handlers and output filters of the HTTP module,
  which drive the event loop of nginx; the Wasm runtimes, the loading of modules and the bridges to Lua and to FFI callers; the configuration
  directives other than those of access control lists and of upstreams; the registration of shared memory zones with nginx.
\<close>

end
